(* ===== verification/Prelude.thy ===== *)
theory Prelude
  imports Main "HOL-Library.Word"
begin

unbundle bit_operations_syntax

text \<open>
  Prelude of the development: the collections of facts the component theories share, C's machine
  integers, and the model of a running process.  A program of the repository is a function on the
  state of its process (the outside world it talks to through system calls, what is left of its
  standard input, what it wrote to standard output and standard error); it returns a value, or
  stops the process by \<open>exit\<close>, or loops for ever, or runs into behaviour that C leaves undefined (an access outside
  an array, a null pointer, an uninitialised value).  The last outcome is a value of the model, so
  that its absence is something a theorem can state.
\<close>

named_theorems wp_simps \<open>weakest-precondition equations of the process combinators\<close>
named_theorems c_defs \<open>definitions of the C library functions\<close>

subsection \<open>Machine integers\<close>

text \<open>
  C's \<open>int\<close> has 32 bits and \<open>long\<close> has 64 (the LP64 model).  Values of these types are HOL
  integers; a conversion to a narrower type is written out.
\<close>

definition to_int :: "int \<Rightarrow> int" where
  "to_int x = (x + 2 ^ 31) mod 2 ^ 32 - 2 ^ 31"

definition LONG_MAX :: int where
  "LONG_MAX = 2 ^ 63 - 1"

definition LONG_MIN :: int where
  "LONG_MIN = - (2 ^ 63)"

definition ULONG_MAX :: int where
  "ULONG_MAX = 2 ^ 64 - 1"

definition to_u8 :: "int \<Rightarrow> 8 word" where
  "to_u8 x = word_of_int x"

definition to_u16 :: "int \<Rightarrow> 16 word" where
  "to_u16 x = word_of_int x"

lemma to_int_range: "- (2 ^ 31) \<le> to_int x \<and> to_int x < 2 ^ 31"
  by (simp add: to_int_def)

lemma to_int_id: "- (2 ^ 31) \<le> x \<Longrightarrow> x < 2 ^ 31 \<Longrightarrow> to_int x = x"
  by (simp add: to_int_def)

lemma uint_to_u8: "uint (to_u8 x) = x mod 256"
  by (simp add: to_u8_def uint_word_of_int)

lemma uint_to_u16: "uint (to_u16 x) = x mod 65536"
  by (simp add: to_u16_def uint_word_of_int)

lemma uint_u8_range [simp]: "0 \<le> uint (w :: 8 word) \<and> uint (w :: 8 word) < 256"
  using uint_nonnegative [of w] uint_bounded [of w] by simp

lemma uint_u16_range [simp]: "0 \<le> uint (w :: 16 word) \<and> uint (w :: 16 word) < 65536"
  using uint_nonnegative [of w] uint_bounded [of w] by simp

lemma unat_u8_less: "unat (w :: 8 word) < 256"
proof -
  have "int (unat w) < int 256" by (simp flip: uint_nat)
  then show ?thesis by (simp only: of_nat_less_iff)
qed

lemma unat_u8_bounds: "unat (w :: 8 word) \<le> 0xff" "unat (w :: 8 word) < 2 ^ 31"
proof -
  show "unat w \<le> 0xff" using unat_u8_less [of w] by linarith
  then show "unat w < 2 ^ 31" by (rule order.strict_trans1) simp
qed

lemma to_int_u8: "to_int (uint (w :: 8 word)) = uint w"
proof (rule to_int_id)
  show "- (2 ^ 31) \<le> uint w" by (rule order.trans [OF _ uint_nonnegative]) simp
  show "uint w < 2 ^ 31" by (rule order.strict_trans [OF conjunct2 [OF uint_u8_range]]) simp
qed
lemma to_u8_uint [simp]: "to_u8 (uint w) = w"
  by (simp add: to_u8_def)

lemma to_u16_uint [simp]: "to_u16 (uint w) = w"
  by (simp add: to_u16_def)

text \<open>Bitwise operations on non-negative integers below a power of two stay below it.\<close>

lemma int_and_or_range:
  fixes a b m :: int
  assumes "0 \<le> a" "a < 2 ^ n" "0 \<le> b" "b < 2 ^ n"
  shows "0 \<le> (a AND m) OR (b AND NOT m)" and "(a AND m) OR (b AND NOT m) < 2 ^ n"
proof -
  have a: "take_bit n a = a" and b: "take_bit n b = b"
    using assms by (simp_all add: take_bit_int_eq_self)
  have "take_bit n ((a AND m) OR (b AND NOT m)) = (a AND m) OR (b AND NOT m)"
    by (rule bit_eqI) (metis a b bit_and_iff bit_or_iff bit_take_bit_iff)
  then show "0 \<le> (a AND m) OR (b AND NOT m)" and "(a AND m) OR (b AND NOT m) < 2 ^ n"
    by (metis take_bit_nonnegative, metis take_bit_int_less_exp)
qed

subsection \<open>Processes\<close>

text \<open>
  \<open>diag\<close> is the type of the diagnostics a program prints to standard error: one constructor
  per message of the program, with the values the message prints as its arguments.
\<close>

datatype stop = Exit int | Undef | Endless

record ('w, 'd) proc =
  world :: 'w
  stdin :: string
  stdout :: string
  stderr :: "'d list"

type_synonym ('w, 'd, 'a) prog = "('w, 'd) proc \<Rightarrow> (stop + 'a) \<times> ('w, 'd) proc"

definition ret :: "'a \<Rightarrow> ('w, 'd, 'a) prog" where
  "ret x s = (Inr x, s)"

definition bind_p :: "('w, 'd, 'a) prog \<Rightarrow> ('a \<Rightarrow> ('w, 'd, 'b) prog) \<Rightarrow> ('w, 'd, 'b) prog" where
  "bind_p m f s = (case m s of (Inl c, t) \<Rightarrow> (Inl c, t) | (Inr x, t) \<Rightarrow> f x t)"

definition then_p :: "('w, 'd, unit) prog \<Rightarrow> ('w, 'd, 'b) prog \<Rightarrow> ('w, 'd, 'b) prog" where
  "then_p m k = bind_p m (\<lambda>_. k)"

definition exit_p :: "int \<Rightarrow> ('w, 'd, 'a) prog" where
  "exit_p c s = (Inl (Exit c), s)"

definition undef_p :: "('w, 'd, 'a) prog" where
  "undef_p s = (Inl Undef, s)"

definition endless_p :: "('w, 'd, 'a) prog" where
  "endless_p s = (Inl Endless, s)"

definition print :: "string \<Rightarrow> ('w, 'd, unit) prog" where
  "print t s = (Inr (), s\<lparr>stdout := stdout s @ t\<rparr>)"

definition eprint :: "'d \<Rightarrow> ('w, 'd, unit) prog" where
  "eprint d s = (Inr (), s\<lparr>stderr := stderr s @ [d]\<rparr>)"

text \<open>A system call: a function of the outside world that returns a value and the new world.\<close>

definition sys :: "('w \<Rightarrow> 'a \<times> 'w) \<Rightarrow> ('w, 'd, 'a) prog" where
  "sys f s = (case f (world s) of (x, w) \<Rightarrow> (Inr x, s\<lparr>world := w\<rparr>))"

text \<open>\<open>for_p\<close> runs the body for each element of a list, in order: a counting loop of the source.\<close>

fun for_p :: "'i list \<Rightarrow> ('i \<Rightarrow> ('w, 'd, unit) prog) \<Rightarrow> ('w, 'd, unit) prog" where
  "for_p [] f = ret ()"
| "for_p (i # is) f = then_p (f i) (for_p is f)"

text \<open>\<open>all_p\<close> stops the loop at the first body that says so: a loop with an early return.\<close>

fun all_p :: "'i list \<Rightarrow> ('i \<Rightarrow> ('w, 'd, bool) prog) \<Rightarrow> ('w, 'd, bool) prog" where
  "all_p [] f = ret True"
| "all_p (i # is) f = bind_p (f i) (\<lambda>ok. if ok then all_p is f else ret False)"

text \<open>
  \<open>fgets(s, n, stdin)\<close>: at most \<open>n - 1\<close> characters, up to and including the first newline;
  \<open>None\<close> at end of file.
\<close>

abbreviation nl :: char where
  "nl \<equiv> CHR 0x0A"

fun take_line :: "nat \<Rightarrow> string \<Rightarrow> string \<times> string" where
  "take_line 0 s = ([], s)"
| "take_line (Suc n) [] = ([], [])"
| "take_line (Suc n) (c # cs) =
     (if c = nl then ([c], cs) else (case take_line n cs of (l, r) \<Rightarrow> (c # l, r)))"

definition fgets :: "nat \<Rightarrow> string \<Rightarrow> (string \<times> string) option" where
  "fgets n s = (if s = [] then None else Some (take_line (n - 1) s))"

definition fgets_stdin :: "nat \<Rightarrow> ('w, 'd, string option) prog" where
  "fgets_stdin n s =
     (case fgets n (stdin s) of None \<Rightarrow> (Inr None, s)
      | Some (l, r) \<Rightarrow> (Inr (Some l), s\<lparr>stdin := r\<rparr>))"

definition fgetc_stdin :: "('w, 'd, char option) prog" where
  "fgetc_stdin s =
     (case stdin s of [] \<Rightarrow> (Inr None, s) | c # cs \<Rightarrow> (Inr (Some c), s\<lparr>stdin := cs\<rparr>))"

lemma take_line_append: "take_line n s = (l, r) \<Longrightarrow> l @ r = s"
  by (induction n s arbitrary: l r rule: take_line.induct) (auto split: if_splits prod.splits)

lemma take_line_length: "take_line n s = (l, r) \<Longrightarrow> length l \<le> n"
  by (induction n s arbitrary: l r rule: take_line.induct) (auto split: if_splits prod.splits)

lemma fgets_append: "fgets n s = Some (l, r) \<Longrightarrow> l @ r = s"
  by (auto simp: fgets_def take_line_append split: if_splits)

lemma fgets_length: "fgets n s = Some (l, r) \<Longrightarrow> length l \<le> n - 1"
  by (auto simp: fgets_def dest: take_line_length split: if_splits)

lemma fgets_progress: "fgets n s = Some (l, r) \<Longrightarrow> 1 < n \<Longrightarrow> length r < length s"
proof -
  assume a: "fgets n s = Some (l, r)" and n: "1 < n"
  then obtain c cs m where s: "s = c # cs" and m: "n - 1 = Suc m"
    by (cases s; cases "n - 1") (auto simp: fgets_def)
  from a s m have "l \<noteq> []" by (auto simp: fgets_def split: if_splits prod.splits)
  with fgets_append [OF a] show ?thesis by auto
qed

subsection \<open>Weakest preconditions\<close>

text \<open>
  \<open>wp m Q E s\<close>: running \<open>m\<close> from \<open>s\<close> either returns a value and a state that satisfy \<open>Q\<close>, or
  stops with an outcome and a state that satisfy \<open>E\<close>.  The equations below compute it for the
  combinators, so that a property of a program is proved by \<open>simp\<close> along its text.
\<close>

definition wp ::
  "('w, 'd, 'a) prog \<Rightarrow> ('a \<Rightarrow> ('w, 'd) proc \<Rightarrow> bool) \<Rightarrow> (stop \<Rightarrow> ('w, 'd) proc \<Rightarrow> bool) \<Rightarrow>
     ('w, 'd) proc \<Rightarrow> bool" where
  "wp m Q E s = (case m s of (Inl c, t) \<Rightarrow> E c t | (Inr x, t) \<Rightarrow> Q x t)"

lemma wp_ret [wp_simps]: "wp (ret x) Q E s = Q x s"
  by (simp add: wp_def ret_def)

lemma wp_bind [wp_simps]: "wp (bind_p m f) Q E s = wp m (\<lambda>x. wp (f x) Q E) E s"
  by (simp add: wp_def bind_p_def split: prod.splits sum.splits)

lemma wp_then [wp_simps]: "wp (then_p m k) Q E s = wp m (\<lambda>_. wp k Q E) E s"
  by (simp add: then_p_def wp_bind)

lemma wp_exit [wp_simps]: "wp (exit_p c) Q E s = E (Exit c) s"
  by (simp add: wp_def exit_p_def)

lemma wp_undef [wp_simps]: "wp undef_p Q E s = E Undef s"
  by (simp add: wp_def undef_p_def)

lemma wp_endless [wp_simps]: "wp endless_p Q E s = E Endless s"
  by (simp add: wp_def endless_p_def)

lemma wp_print [wp_simps]: "wp (print t) Q E s = Q () (s\<lparr>stdout := stdout s @ t\<rparr>)"
  by (simp add: wp_def print_def)

lemma wp_eprint [wp_simps]: "wp (eprint d) Q E s = Q () (s\<lparr>stderr := stderr s @ [d]\<rparr>)"
  by (simp add: wp_def eprint_def)

lemma wp_sys:
  "wp (sys f) Q E s = (case f (world s) of (x, w) \<Rightarrow> Q x (s\<lparr>world := w\<rparr>))"
  by (simp add: wp_def sys_def split: prod.splits)

lemma wp_if [wp_simps]: "wp (if b then m else k) Q E s = (if b then wp m Q E s else wp k Q E s)"
  by simp

lemma wp_case_option [wp_simps]:
  "wp (case x of None \<Rightarrow> m | Some y \<Rightarrow> k y) Q E s =
     (case x of None \<Rightarrow> wp m Q E s | Some y \<Rightarrow> wp (k y) Q E s)"
  by (cases x) simp_all

lemma wp_case_sum [wp_simps]:
  "wp (case x of Inl y \<Rightarrow> m y | Inr z \<Rightarrow> k z) Q E s =
     (case x of Inl y \<Rightarrow> wp (m y) Q E s | Inr z \<Rightarrow> wp (k z) Q E s)"
  by (cases x) simp_all

lemma wp_case_prod [wp_simps]:
  "wp (case x of (a, b) \<Rightarrow> m a b) Q E s = (case x of (a, b) \<Rightarrow> wp (m a b) Q E s)"
  by (cases x) simp

lemma wp_let [wp_simps]: "wp (let x = e in m x) Q E s = (let x = e in wp (m x) Q E s)"
  by simp

lemma wp_sys_keeps:
  assumes "\<And>w. I w \<Longrightarrow> I (snd (f w))" and "I (world s)"
    and "\<And>x t. I (world t) \<Longrightarrow> stdin t = stdin s \<Longrightarrow> Q x t"
  shows "wp (sys f) Q E s"
  using assms(1) [OF assms(2)] assms(3) [of "s\<lparr>world := snd (f (world s))\<rparr>"]
  by (cases "f (world s)") (simp add: wp_sys)

lemma wp_mono:
  assumes "wp m Q E s"
    and "\<And>x t. Q x t \<Longrightarrow> Q' x t" and "\<And>c t. E c t \<Longrightarrow> E' c t"
  shows "wp m Q' E' s"
  using assms by (auto simp: wp_def split: prod.splits sum.splits)

lemma wp_conj: "wp m Q E s \<Longrightarrow> wp m Q' E' s \<Longrightarrow> wp m (\<lambda>x t. Q x t \<and> Q' x t) (\<lambda>c t. E c t \<and> E' c t) s"
  by (auto simp: wp_def split: prod.splits sum.splits)

lemma wp_for:
  assumes "I s"
    and "\<And>i t. i \<in> set is \<Longrightarrow> I t \<Longrightarrow> wp (f i) (\<lambda>_. I) E t"
  shows "wp (for_p is f) (\<lambda>_. I) E s"
  using assms
proof (induction "is" arbitrary: s)
  case Nil
  then show ?case by (simp add: wp_ret)
next
  case (Cons i "is")
  have "wp (f i) (\<lambda>_. I) E s" by (rule Cons.prems(2)) (simp_all add: Cons.prems(1))
  moreover have "wp (for_p is f) (\<lambda>_. I) E t" if "I t" for t
    by (rule Cons.IH [OF that]) (simp add: Cons.prems(2))
  ultimately show ?case
    by (simp add: wp_then) (erule wp_mono, simp_all)
qed

text \<open>Loops that print: each body appends its text to the output and keeps an invariant.\<close>

lemma wp_for_prints:
  assumes "I s"
    and "\<And>i t. i \<in> set is \<Longrightarrow> I t \<Longrightarrow> wp (f i) (\<lambda>_ u. I u \<and> stdout u = stdout t @ g i) E t"
  shows "wp (for_p is f) (\<lambda>_ u. I u \<and> stdout u = stdout s @ concat (map g is)) E s"
  using assms
proof (induction "is" arbitrary: s)
  case Nil
  then show ?case by (simp add: wp_ret)
next
  case (Cons i "is")
  have b: "wp (f i) (\<lambda>_ u. I u \<and> stdout u = stdout s @ g i) E s"
    by (rule Cons.prems(2)) (simp_all add: Cons.prems(1))
  have "wp (for_p is f) (\<lambda>_ u. I u \<and> stdout u = stdout s @ g i @ concat (map g is)) E t"
    if "I t" "stdout t = stdout s @ g i" for t
    using Cons.IH [OF that(1)] Cons.prems(2) that(2) by simp
  then show ?case by (simp add: wp_then) (rule wp_mono [OF b], auto)
qed

lemma wp_all_prints:
  assumes "I s"
    and "\<And>i t. i \<in> set is \<Longrightarrow> I t \<Longrightarrow>
           wp (f i) (\<lambda>ok u. ok \<and> I u \<and> stdout u = stdout t @ g i) E t"
  shows "wp (all_p is f) (\<lambda>ok u. ok \<and> I u \<and> stdout u = stdout s @ concat (map g is)) E s"
  using assms
proof (induction "is" arbitrary: s)
  case Nil
  then show ?case by (simp add: wp_ret)
next
  case (Cons i "is")
  have b: "wp (f i) (\<lambda>ok u. ok \<and> I u \<and> stdout u = stdout s @ g i) E s"
    by (rule Cons.prems(2)) (simp_all add: Cons.prems(1))
  have "wp (all_p is f) (\<lambda>ok u. ok \<and> I u \<and> stdout u = stdout s @ g i @ concat (map g is)) E t"
    if "I t" "stdout t = stdout s @ g i" for t
    using Cons.IH [OF that(1)] Cons.prems(2) that(2) by simp
  then show ?case by (simp add: wp_bind) (rule wp_mono [OF b], auto)
qed

lemma for_p_append:
  "for_p (xs @ ys) f s = then_p (for_p xs f) (for_p ys f) s"
  by (induction xs arbitrary: s)
    (simp_all add: then_p_def bind_p_def ret_def split: prod.splits sum.splits)

lemma wp_bind_any:
  assumes "\<And>x t. wp (f x) Q (\<lambda>_ _. True) t"
  shows "wp (bind_p m f) Q (\<lambda>_ _. True) s"
proof -
  have "wp m (\<lambda>_ _. True) (\<lambda>_ _. True) s" by (simp add: wp_def split: prod.splits sum.splits)
  then show ?thesis unfolding wp_bind by (rule wp_mono) (simp_all add: assms)
qed

text \<open>From a weakest precondition back to the run of the program.\<close>

lemma wp_runI: "(\<And>r t. m s = (r, t) \<Longrightarrow> case r of Inl c \<Rightarrow> E c t | Inr x \<Rightarrow> Q x t) \<Longrightarrow> wp m Q E s"
  by (cases "m s"; cases "fst (m s)") (auto simp: wp_def)

lemma wp_runD: "wp m Q E s \<Longrightarrow> m s = (Inl c, t) \<Longrightarrow> E c t"
  by (simp add: wp_def)

lemma wp_anyD: "wp m (\<lambda>_ t. P t) (\<lambda>_ t. P t) s \<Longrightarrow> P (snd (m s))"
  by (auto simp: wp_def split: prod.splits sum.splits)

lemma wp_exitD: "wp m (\<lambda>_ _. False) E s \<Longrightarrow> \<exists>c t. m s = (Inl c, t) \<and> E c t"
  by (auto simp: wp_def split: prod.splits sum.splits)

lemma wp_returns: "wp m (\<lambda>r _. r = x) (\<lambda>_ _. False) s \<Longrightarrow> fst (m s) = Inr x"
  by (auto simp: wp_def split: prod.splits sum.splits)

lemma bind_ret [simp]: "bind_p (ret x) f = f x"
  by (simp add: bind_p_def ret_def fun_eq_iff)

lemma then_ret [simp]: "then_p (ret ()) k = k"
  by (simp add: then_p_def)

lemma wp_runD_ret: "wp m Q E s \<Longrightarrow> m s = (Inr x, t) \<Longrightarrow> Q x t"
  by (simp add: wp_def)

text \<open>The streams of a process are left alone.\<close>

definition same_io :: "('w, 'd) proc \<Rightarrow> ('w, 'd) proc \<Rightarrow> bool" where
  "same_io s t \<longleftrightarrow> stdin t = stdin s \<and> stdout t = stdout s \<and> stderr t = stderr s"

lemma same_io_refl [simp]: "same_io s s"
  by (simp add: same_io_def)

lemma same_io_trans: "same_io s t \<Longrightarrow> same_io t u \<Longrightarrow> same_io s u"
  by (simp add: same_io_def)

lemma same_io_world [simp]: "same_io s (t\<lparr>world := w\<rparr>) = same_io s t"
  by (simp add: same_io_def)

subsection \<open>Invariants of the outside world\<close>

text \<open>
  \<open>keeps I m\<close>: whatever \<open>m\<close> does, a world that satisfies \<open>I\<close> still does when it ends, however it
  ends.  With an \<open>I\<close> that a set of system calls keeps, it says that \<open>m\<close> makes no other call.
\<close>

named_theorems keeps_rules \<open>composition rules for the invariants of the outside world\<close>

definition keeps :: "('w \<Rightarrow> bool) \<Rightarrow> ('w, 'd, 'a) prog \<Rightarrow> bool" where
  "keeps I m \<longleftrightarrow> (\<forall>s. I (world s) \<longrightarrow> I (world (snd (m s))))"

lemma keeps_basic [keeps_rules]:
  "keeps I (ret x)" "keeps I (exit_p c)" "keeps I undef_p" "keeps I endless_p" "keeps I (print t)" "keeps I (eprint d)"
  "keeps I (fgets_stdin n)" "keeps I fgetc_stdin"
  by (auto simp: keeps_def ret_def exit_p_def undef_p_def endless_p_def print_def eprint_def fgets_stdin_def
      fgetc_stdin_def split: option.splits list.splits prod.splits)

lemma keeps_bind [keeps_rules]:
  "keeps I m \<Longrightarrow> (\<And>x. keeps I (f x)) \<Longrightarrow> keeps I (bind_p m f)"
  unfolding keeps_def bind_p_def by (fastforce split: prod.splits sum.splits)

lemma keeps_then [keeps_rules]: "keeps I m \<Longrightarrow> keeps I k \<Longrightarrow> keeps I (then_p m k)"
  unfolding then_p_def by (rule keeps_bind)

lemma keeps_sys: "(\<And>w. I w \<Longrightarrow> I (snd (f w))) \<Longrightarrow> keeps I (sys f)"
  unfolding keeps_def sys_def by (fastforce split: prod.splits)

lemma keeps_if [keeps_rules]:
  "(b \<Longrightarrow> keeps I m) \<Longrightarrow> (\<not> b \<Longrightarrow> keeps I k) \<Longrightarrow> keeps I (if b then m else k)"
  by simp

lemma keeps_case_option [keeps_rules]:
  "(x = None \<Longrightarrow> keeps I m) \<Longrightarrow> (\<And>y. x = Some y \<Longrightarrow> keeps I (k y)) \<Longrightarrow>
     keeps I (case x of None \<Rightarrow> m | Some y \<Rightarrow> k y)"
  by (cases x) simp_all

lemma keeps_case_sum [keeps_rules]:
  "(\<And>y. keeps I (m y)) \<Longrightarrow> (\<And>z. keeps I (k z)) \<Longrightarrow> keeps I (case x of Inl y \<Rightarrow> m y | Inr z \<Rightarrow> k z)"
  by (cases x) simp_all

lemma keeps_case_prod [keeps_rules]:
  "(\<And>a b. keeps I (m a b)) \<Longrightarrow> keeps I (case x of (a, b) \<Rightarrow> m a b)"
  by (cases x) simp

lemma keeps_let [keeps_rules]: "(\<And>x. x = e \<Longrightarrow> keeps I (m x)) \<Longrightarrow> keeps I (let x = e in m x)"
  by simp

lemma keeps_for [keeps_rules]: "(\<And>i. i \<in> set is \<Longrightarrow> keeps I (f i)) \<Longrightarrow> keeps I (for_p is f)"
  by (induction "is") (auto intro: keeps_rules)

lemma keeps_all [keeps_rules]: "(\<And>i. i \<in> set is \<Longrightarrow> keeps I (f i)) \<Longrightarrow> keeps I (all_p is f)"
  by (induction "is") (auto intro!: keeps_rules)

lemma keepsD: "keeps I m \<Longrightarrow> I (world s) \<Longrightarrow> m s = (r, t) \<Longrightarrow> I (world t)"
  unfolding keeps_def by (metis snd_conv)

lemma keeps_wpI: "(\<And>s. I (world s) \<Longrightarrow> wp m (\<lambda>_ t. I (world t)) (\<lambda>_ t. I (world t)) s) \<Longrightarrow> keeps I m"
  unfolding keeps_def by (metis wp_anyD)

lemma keeps_wp: "keeps I m \<Longrightarrow> I (world s) \<Longrightarrow> wp m (\<lambda>_ t. I (world t)) (\<lambda>_ t. I (world t)) s"
  by (auto simp: wp_def split: prod.splits sum.splits dest: keepsD)

subsection \<open>Outcomes\<close>

text \<open>
  \<open>gives C m P\<close>: from any state, \<open>m\<close> returns a value that satisfies \<open>P\<close> or stops with an outcome
  of \<open>C\<close>.  A \<open>C\<close> without \<open>Undef\<close> says that nothing undefined happens.
\<close>

named_theorems gives_rules \<open>composition rules for the outcomes of a program\<close>

definition gives :: "stop set \<Rightarrow> ('w, 'd, 'a) prog \<Rightarrow> ('a \<Rightarrow> bool) \<Rightarrow> bool" where
  "gives C m P \<longleftrightarrow> (\<forall>s. wp m (\<lambda>x _. P x) (\<lambda>c _. c \<in> C) s)"

lemma gives_ret [gives_rules]: "P x \<Longrightarrow> gives C (ret x) P"
  by (simp add: gives_def wp_ret)

lemma gives_exit [gives_rules]: "Exit c \<in> C \<Longrightarrow> gives C (exit_p c) P"
  by (simp add: gives_def wp_exit)

lemma gives_undef [gives_rules]: "Undef \<in> C \<Longrightarrow> gives C undef_p P"
  by (simp add: gives_def wp_undef)

lemma gives_endless [gives_rules]: "Endless \<in> C \<Longrightarrow> gives C endless_p P"
  by (simp add: gives_def wp_endless)

lemma gives_print [gives_rules]: "P () \<Longrightarrow> gives C (print t) P" "P () \<Longrightarrow> gives C (eprint d) P"
  by (simp_all add: gives_def wp_print wp_eprint)

lemma gives_sys [gives_rules]: "(\<And>x. P x) \<Longrightarrow> gives C (sys f) P"
  by (simp add: gives_def wp_sys split: prod.splits)

lemma gives_fgets [gives_rules]: "(\<And>x. P x) \<Longrightarrow> gives C (fgets_stdin n) P"
  by (auto simp: gives_def wp_def fgets_stdin_def split: prod.splits sum.splits option.splits)

lemma gives_bindP: "gives C m R \<Longrightarrow> (\<And>x. R x \<Longrightarrow> gives C (f x) P) \<Longrightarrow> gives C (bind_p m f) P"
  unfolding gives_def wp_bind by (blast intro: wp_mono)

lemma gives_bind [gives_rules]:
  "gives C m (\<lambda>_. True) \<Longrightarrow> (\<And>x. gives C (f x) P) \<Longrightarrow> gives C (bind_p m f) P"
  by (rule gives_bindP)

lemma gives_then [gives_rules]:
  "gives C m (\<lambda>_. True) \<Longrightarrow> gives C k P \<Longrightarrow> gives C (then_p m k) P"
  unfolding then_p_def by (rule gives_bind)

lemma gives_if [gives_rules]:
  "(b \<Longrightarrow> gives C m P) \<Longrightarrow> (\<not> b \<Longrightarrow> gives C k P) \<Longrightarrow> gives C (if b then m else k) P"
  by simp

lemma gives_case_option [gives_rules]:
  "(x = None \<Longrightarrow> gives C m P) \<Longrightarrow> (\<And>y. x = Some y \<Longrightarrow> gives C (k y) P) \<Longrightarrow>
     gives C (case x of None \<Rightarrow> m | Some y \<Rightarrow> k y) P"
  by (cases x) simp_all

lemma gives_case_sum [gives_rules]:
  "(\<And>y. x = Inl y \<Longrightarrow> gives C (m y) P) \<Longrightarrow> (\<And>z. x = Inr z \<Longrightarrow> gives C (k z) P) \<Longrightarrow>
     gives C (case x of Inl y \<Rightarrow> m y | Inr z \<Rightarrow> k z) P"
  by (cases x) simp_all

lemma gives_case_prod [gives_rules]:
  "(\<And>a b. x = (a, b) \<Longrightarrow> gives C (m a b) P) \<Longrightarrow> gives C (case x of (a, b) \<Rightarrow> m a b) P"
  by (cases x) simp

lemma gives_case_list [gives_rules]:
  "(x = [] \<Longrightarrow> gives C m P) \<Longrightarrow> (\<And>y ys. x = y # ys \<Longrightarrow> gives C (k y ys) P) \<Longrightarrow>
     gives C (case x of [] \<Rightarrow> m | y # ys \<Rightarrow> k y ys) P"
  by (cases x) simp_all

lemma gives_let [gives_rules]: "(\<And>x. x = e \<Longrightarrow> gives C (m x) P) \<Longrightarrow> gives C (let x = e in m x) P"
  by simp

lemma gives_for [gives_rules]:
  "(\<And>i. i \<in> set is \<Longrightarrow> gives C (f i) (\<lambda>_. True)) \<Longrightarrow> gives C (for_p is f) (\<lambda>_. True)"
  by (induction "is") (auto intro: gives_rules)

lemma gives_all [gives_rules]:
  "(\<And>i. i \<in> set is \<Longrightarrow> gives C (f i) (\<lambda>_. True)) \<Longrightarrow> gives C (all_p is f) (\<lambda>_. True)"
  by (induction "is") (auto intro!: gives_rules)

lemma gives_mono: "gives C m P \<Longrightarrow> (\<And>x. P x \<Longrightarrow> P' x) \<Longrightarrow> gives C m P'"
  unfolding gives_def by (blast intro: wp_mono)

lemma gives_any: "gives UNIV m (\<lambda>_. True)"
  by (simp add: gives_def wp_def split: prod.splits sum.splits)

lemma givesD: "gives C m P \<Longrightarrow> m s = (Inl c, t) \<Longrightarrow> c \<in> C"
  unfolding gives_def wp_def by (metis (mono_tags, lifting) case_prod_conv old.sum.simps(5))

lemma gives_exitD: "gives C m (\<lambda>_. False) \<Longrightarrow> \<exists>c t. m s = (Inl c, t) \<and> c \<in> C"
  unfolding gives_def by (blast dest: wp_exitD)

lemma gives_keeps_wp:
  assumes "gives {} m P" "keeps I m" "I (world s)"
  shows "wp m (\<lambda>x t. P x \<and> I (world t)) (\<lambda>_ _. False) s"
  using assms(1) keeps_wp [OF assms(2,3)] unfolding gives_def
  by (auto intro: wp_mono [OF wp_conj])

text \<open>Programs that only print.\<close>

lemma then_print: "then_p (print a) (print b) = print (a @ b)"
  by (rule ext) (simp add: then_p_def bind_p_def print_def)

lemma print_nothing: "print [] = ret ()"
  by (rule ext) (simp add: print_def ret_def)

lemma for_print: "(\<And>x. x \<in> set xs \<Longrightarrow> f x = print (g x)) \<Longrightarrow> for_p xs f = print (concat (map g xs))"
  by (induction xs) (simp_all add: then_print print_nothing)

text \<open>Equations that run a program on a concrete state, for witnesses.\<close>

lemmas run_defs = ret_def bind_p_def then_p_def exit_p_def undef_p_def endless_p_def print_def eprint_def sys_def
  fgets_stdin_def fgetc_stdin_def fgets_def

subsection \<open>Loops that may not end\<close>

text \<open>
  A loop \<open>while (b) f\<close> over a value and the state of the process.  \<open>loop_run\<close> is \<open>None\<close> when it goes on
  for ever, and then the program has the outcome \<open>Endless\<close>; a loop with a measure that every turn
  makes smaller ends.
\<close>

partial_function (option) loop_run ::
  "('a \<Rightarrow> bool) \<Rightarrow> ('a \<Rightarrow> ('w, 'd, 'a) prog) \<Rightarrow> 'a \<Rightarrow> ('w, 'd) proc \<Rightarrow> ((stop + 'a) \<times> ('w, 'd) proc) option" where
  "loop_run b f x s =
     (if b x then (case f x s of (r, t) \<Rightarrow> (case r of Inl c \<Rightarrow> Some (Inl c, t) | Inr y \<Rightarrow> loop_run b f y t))
      else Some (Inr x, s))"

definition while_p :: "('a \<Rightarrow> bool) \<Rightarrow> ('a \<Rightarrow> ('w, 'd, 'a) prog) \<Rightarrow> 'a \<Rightarrow> ('w, 'd, 'a) prog" where
  "while_p b f x s = (case loop_run b f x s of None \<Rightarrow> (Inl Endless, s) | Some r \<Rightarrow> r)"

lemma while_p_done: "\<not> b x \<Longrightarrow> while_p b f x s = (Inr x, s)"
  by (simp add: while_p_def loop_run.simps)

lemma while_p_turn: "b x \<Longrightarrow> f x s = (Inr y, t) \<Longrightarrow> loop_run b f x s = loop_run b f y t"
  by (simp add: loop_run.simps [of b f x])

lemma loop_run_ends:
  assumes "I x s"
    and step: "\<And>x s. I x s \<Longrightarrow> b x \<Longrightarrow> wp (f x) (\<lambda>y t. I y t \<and> m y t < (m x s :: nat)) E s"
    and exit: "\<And>x s. I x s \<Longrightarrow> \<not> b x \<Longrightarrow> Q x s"
  shows "\<exists>r t. loop_run b f x s = Some (r, t) \<and> (case r of Inl c \<Rightarrow> E c t | Inr y \<Rightarrow> Q y t)"
  using assms(1)
proof (induction "m x s" arbitrary: x s rule: less_induct)
  case less
  obtain r t where r: "f x s = (r, t)" by (cases "f x s")
  show ?case
  proof (cases "b x")
    case True
    then have "case r of Inl c \<Rightarrow> E c t | Inr y \<Rightarrow> I y t \<and> m y t < m x s"
      using step [OF less.prems] r by (auto simp: wp_def split: sum.splits)
    then show ?thesis
      using less.hyps True r by (cases r) (simp_all add: loop_run.simps [of b f x])
  qed (simp add: loop_run.simps [of b f x] exit less.prems)
qed

lemma wp_while:
  assumes "I x s"
    and "\<And>x s. I x s \<Longrightarrow> b x \<Longrightarrow> wp (f x) (\<lambda>y t. I y t \<and> m y t < (m x s :: nat)) E s"
    and "\<And>x s. I x s \<Longrightarrow> \<not> b x \<Longrightarrow> Q x s"
  shows "wp (while_p b f x) Q E s"
proof -
  obtain r t where "loop_run b f x s = Some (r, t)" "case r of Inl c \<Rightarrow> E c t | Inr y \<Rightarrow> Q y t"
    using loop_run_ends [where I = I and m = m and E = E and Q = Q and b = b and f = f, OF assms] by blast
  then show ?thesis by (cases r) (simp_all add: wp_def while_p_def)
qed

text \<open>Without a measure: what holds when the loop ends.\<close>

lemma loop_run_inv:
  assumes "loop_run b f x s = Some (r, t)" and "I x s"
    and "\<And>x s. I x s \<Longrightarrow> b x \<Longrightarrow> wp (f x) I E s"
  shows "case r of Inl c \<Rightarrow> E c t | Inr y \<Rightarrow> I y t \<and> \<not> b y"
proof -
  let ?P = "\<lambda>b f x s q. (\<forall>x s. I x s \<longrightarrow> b x \<longrightarrow> wp (f x) I E s) \<longrightarrow> I x s \<longrightarrow>
    (case fst q of Inl c \<Rightarrow> E c (snd q) | Inr y \<Rightarrow> I y (snd q) \<and> \<not> b y)"
  have "?P b f x s (r, t)"
  proof (rule loop_run.raw_induct [where P = ?P and xa = "(((b, f), x), s)" and y = "(r, t)", unfolded prod.case, OF _ assms(1)])
    fix run b f x s q
    assume ih: "\<And>b f x s y. run b f x s = Some y \<Longrightarrow> ?P b f x s y"
      and eq: "(if b x then (case f x s of (Inl c, t) \<Rightarrow> Some (Inl c, t) | (Inr y, t) \<Rightarrow> run b f y t)
          else Some (Inr x, s)) = Some q"
    show "?P b f x s q"
    proof (intro impI)
      assume inv: "\<forall>x s. I x s \<longrightarrow> b x \<longrightarrow> wp (f x) I E s" and I: "I x s"
      show "case fst q of Inl c \<Rightarrow> E c (snd q) | Inr y \<Rightarrow> I y (snd q) \<and> \<not> b y"
      proof (cases "b x")
        case True
        obtain r t where r: "f x s = (r, t)" by (cases "f x s")
        have w: "wp (f x) I E s" using inv I True by blast
        show ?thesis
        proof (cases r)
          case (Inl c)
          then show ?thesis using eq True r w by (auto simp: wp_def)
        next
          case (Inr y)
          then have "run b f y t = Some q" "I y t" using eq True r w by (simp_all add: wp_def)
          then show ?thesis using ih inv by blast
        qed
      qed (use eq I in auto)
    qed
  qed
  then show ?thesis using assms(2,3) by (cases r) simp_all
qed

lemma wp_while_inv:
  assumes "I x s" and "\<And>x s. I x s \<Longrightarrow> b x \<Longrightarrow> wp (f x) I E s"
    and "\<And>x s. I x s \<Longrightarrow> \<not> b x \<Longrightarrow> Q x s" and "E Endless s"
  shows "wp (while_p b f x) Q E s"
proof (cases "loop_run b f x s")
  case (Some q)
  obtain r t where q: "q = (r, t)" by (cases q)
  have "case r of Inl c \<Rightarrow> E c t | Inr y \<Rightarrow> I y t \<and> \<not> b y"
    by (rule loop_run_inv [where I = I]) (use Some q assms in auto)
  then show ?thesis using Some q assms(3) by (auto simp: wp_def while_p_def split: sum.splits)
qed (simp add: wp_def while_p_def assms(4))

lemma wp_while_step:
  assumes "b x \<Longrightarrow> wp (f x) (\<lambda>y t. wp (while_p b f y) Q E t) E s" and "\<not> b x \<Longrightarrow> Q x s" and "\<And>t. \<not> E Endless t"
  shows "wp (while_p b f x) Q E s"
  using assms
  by (auto simp: wp_def while_p_def loop_run.simps [of b f x] split: prod.splits sum.splits option.splits)

lemma gives_while [gives_rules]:
  assumes "\<And>x. gives C (f x) (\<lambda>_. True)" and "Endless \<in> C"
  shows "gives C (while_p b f x) (\<lambda>_. True)"
  unfolding gives_def
proof
  fix s
  show "wp (while_p b f x) (\<lambda>_ _. True) (\<lambda>c _. c \<in> C) s"
    by (rule wp_while_inv [where I = "\<lambda>_ _. True"]) (use assms in \<open>auto simp: gives_def\<close>)
qed

lemma wp_while_once:
  assumes "b x" and w: "wp (f x) (\<lambda>y t. \<not> b y \<and> Q y t) E s"
  shows "wp (while_p b f x) Q E s"
proof -
  obtain r t where r: "f x s = (r, t)" by (cases "f x s")
  have "loop_run b f x s = Some (r, t)"
    using assms r by (cases r) (simp_all add: loop_run.simps [of b f x] loop_run.simps [of b f _ t] wp_def)
  then show ?thesis using w r by (cases r) (simp_all add: wp_def while_p_def)
qed

end
