(* ===== verification/CString.thy ===== *)
theory CString
  imports Prelude
begin

text \<open>
  The C library functions the programs use on strings: character classes, \<open>strtol\<close>,
  \<open>strtoul\<close>, \<open>strcasecmp\<close>, \<open>strchr\<close> and the conversions \<open>%d\<close>, \<open>%x\<close> and their padded forms.
  A C string is the list of its characters before the terminating NUL.  The round trips at the
  end are what the programs rely on when one prints a number and another reads it.
\<close>

subsection \<open>Characters\<close>

abbreviation ord :: "char \<Rightarrow> nat" where
  "ord c \<equiv> of_char c"

definition NUL :: char where
  "NUL = CHR 0x00"

text \<open>The character at an index of a C string; the one at its length is the NUL.\<close>

definition char_at :: "string \<Rightarrow> nat \<Rightarrow> char" where
  "char_at s i = (if i < length s then s ! i else NUL)"

text \<open>The string that an array of characters holds.\<close>

definition c_str :: "string \<Rightarrow> string" where
  "c_str a = takeWhile (\<lambda>c. c \<noteq> NUL) a"

lemma c_str_append: "NUL \<notin> set u \<Longrightarrow> c_str (u @ NUL # r) = u"
  by (induction u) (auto simp: c_str_def)

lemma c_str_id: "NUL \<notin> set s \<Longrightarrow> c_str s = s"
  by (simp add: c_str_def takeWhile_eq_all_conv) metis

lemma char_at_simps [simp]:
  "char_at [] n = NUL" "char_at (c # cs) 0 = c" "char_at (c # cs) (Suc n) = char_at cs n"
  "char_at (c # cs) 1 = char_at cs 0" "char_at (c # d # cs) 2 = char_at cs 0"
  by (simp_all add: char_at_def)

definition isspace :: "char \<Rightarrow> bool" where
  "isspace c \<longleftrightarrow> ord c = 32 \<or> (9 \<le> ord c \<and> ord c \<le> 13)"

definition isdigit :: "char \<Rightarrow> bool" where
  "isdigit c \<longleftrightarrow> 48 \<le> ord c \<and> ord c \<le> 57"

definition isxdigit :: "char \<Rightarrow> bool" where
  "isxdigit c \<longleftrightarrow> isdigit c \<or> (97 \<le> ord c \<and> ord c \<le> 102) \<or> (65 \<le> ord c \<and> ord c \<le> 70)"

definition isprint :: "char \<Rightarrow> bool" where
  "isprint c \<longleftrightarrow> 32 \<le> ord c \<and> ord c \<le> 126"

definition isupper :: "char \<Rightarrow> bool" where
  "isupper c \<longleftrightarrow> 65 \<le> ord c \<and> ord c \<le> 90"

definition tolower :: "char \<Rightarrow> char" where
  "tolower c = (if isupper c then char_of (ord c + 32) else c)"

lemmas char_class_defs [c_defs] =
  NUL_def char_at_def isspace_def isdigit_def isxdigit_def isprint_def isupper_def tolower_def

definition strcasecmp_eq :: "string \<Rightarrow> string \<Rightarrow> bool" where
  "strcasecmp_eq s t \<longleftrightarrow> map tolower s = map tolower t"

definition strncmp_eq :: "string \<Rightarrow> string \<Rightarrow> nat \<Rightarrow> bool" where
  "strncmp_eq s t n \<longleftrightarrow> take n s = take n t"

lemma strcasecmp_eq_refl [simp]: "strcasecmp_eq s s"
  by (simp add: strcasecmp_eq_def)

lemma strcasecmp_eq_sym: "strcasecmp_eq s t \<longleftrightarrow> strcasecmp_eq t s"
  by (auto simp: strcasecmp_eq_def)

text \<open>\<open>split_at c s\<close>: what \<open>strchr(s, c)\<close> finds, as the parts before and after the first \<open>c\<close>.\<close>

fun split_at :: "char \<Rightarrow> string \<Rightarrow> (string \<times> string) option" where
  "split_at c [] = None"
| "split_at c (x # xs) =
     (if x = c then Some ([], xs)
      else (case split_at c xs of None \<Rightarrow> None | Some (a, b) \<Rightarrow> Some (x # a, b)))"

lemma split_at_SomeD: "split_at c s = Some (a, b) \<Longrightarrow> s = a @ c # b \<and> c \<notin> set a"
  by (induction s arbitrary: a) (fastforce split: if_splits option.splits)+

lemma split_at_append [simp]: "c \<notin> set a \<Longrightarrow> split_at c (a @ c # b) = Some (a, b)"
  by (induction a) auto

lemma split_at_Some: "split_at c s = Some (a, b) \<longleftrightarrow> s = a @ c # b \<and> c \<notin> set a"
  using split_at_SomeD by fastforce

lemma split_at_None: "split_at c s = None \<longleftrightarrow> c \<notin> set s"
  by (induction s) (auto split: option.splits)

lemma split_at_length: "split_at c s = Some (a, b) \<Longrightarrow> length b < length s"
  by (auto simp: split_at_Some)

text \<open>\<open>strrchr\<close>: the parts around the last occurrence.\<close>

definition rsplit_at :: "char \<Rightarrow> string \<Rightarrow> (string \<times> string) option" where
  "rsplit_at c s = (case split_at c (rev s) of None \<Rightarrow> None | Some (a, b) \<Rightarrow> Some (rev b, rev a))"

lemma rsplit_at_Some: "rsplit_at c s = Some (a, b) \<longleftrightarrow> s = a @ c # b \<and> c \<notin> set b"
proof
  assume "rsplit_at c s = Some (a, b)"
  then have "split_at c (rev s) = Some (rev b, rev a)"
    by (auto simp: rsplit_at_def split: option.splits)
  then have "rev s = rev b @ c # rev a" and n: "c \<notin> set b"
    by (auto simp: split_at_Some)
  then have "rev (rev s) = rev (rev b @ c # rev a)" by simp
  with n show "s = a @ c # b \<and> c \<notin> set b" by simp
next
  assume "s = a @ c # b \<and> c \<notin> set b"
  then show "rsplit_at c s = Some (a, b)" by (simp add: rsplit_at_def)
qed

subsection \<open>Reading numbers\<close>

text \<open>The value of a character as a digit (36 and above: not a digit).\<close>

definition digit_val :: "char \<Rightarrow> nat" where
  "digit_val c =
     (if isdigit c then ord c - 48
      else if 97 \<le> ord c \<and> ord c \<le> 122 then ord c - 87
      else if 65 \<le> ord c \<and> ord c \<le> 90 then ord c - 55
      else 36)"

fun digits_val :: "nat \<Rightarrow> nat \<Rightarrow> string \<Rightarrow> nat" where
  "digits_val b acc [] = acc"
| "digits_val b acc (c # cs) = digits_val b (acc * b + digit_val c) cs"

text \<open>
  The prefix of a number: with base 0 or 16, \<open>0x\<close> followed by a hexadecimal digit selects
  base 16; with base 0, any other leading \<open>0\<close> selects base 8.
\<close>

definition hex_prefix :: "string \<Rightarrow> bool" where
  "hex_prefix s \<longleftrightarrow> char_at s 0 = CHR ''0'' \<and> tolower (char_at s 1) = CHR ''x'' \<and>
     isxdigit (char_at s 2)"

definition num_base :: "nat \<Rightarrow> string \<Rightarrow> nat \<times> string" where
  "num_base base s =
     (if base = 0 then
        (if hex_prefix s then (16, drop 2 s)
         else if char_at s 0 = CHR ''0'' then (8, s) else (10, s))
      else if base = 16 \<and> hex_prefix s then (16, drop 2 s)
      else (base, s))"

definition num_sign :: "string \<Rightarrow> bool \<times> string" where
  "num_sign s =
     (case s of [] \<Rightarrow> (False, [])
      | c # cs \<Rightarrow> if c = CHR ''-'' then (True, cs) else if c = CHR ''+'' then (False, cs)
                 else (False, s))"

text \<open>
  The scan that \<open>strtol\<close> and \<open>strtoul\<close> share: the sign, the absolute value, and what follows the
  number; \<open>None\<close> when there is no digit.
\<close>

definition scan_num :: "nat \<Rightarrow> string \<Rightarrow> (bool \<times> nat \<times> string) option" where
  "scan_num base s =
     (case num_sign (dropWhile isspace s) of (neg, r) \<Rightarrow>
      case num_base base r of (b, r') \<Rightarrow>
        let ds = takeWhile (\<lambda>c. digit_val c < b) r' in
        if ds = [] then None
        else Some (neg, digits_val b 0 ds, dropWhile (\<lambda>c. digit_val c < b) r'))"

definition strtol :: "string \<Rightarrow> nat \<Rightarrow> int \<times> string" where
  "strtol s base =
     (case scan_num base s of None \<Rightarrow> (0, s)
      | Some (neg, n, r) \<Rightarrow>
          let v = (if neg then - int n else int n) in
          (if v > LONG_MAX then LONG_MAX else if v < LONG_MIN then LONG_MIN else v, r))"

definition strtoul :: "string \<Rightarrow> nat \<Rightarrow> int \<times> string" where
  "strtoul s base =
     (case scan_num base s of None \<Rightarrow> (0, s)
      | Some (neg, n, r) \<Rightarrow>
          (if int n > ULONG_MAX then ULONG_MAX
           else if neg then (- int n) mod 2 ^ 64 else int n, r))"

definition atoi :: "string \<Rightarrow> int" where
  "atoi s = to_int (fst (strtol s 10))"

lemma strtol_range: "LONG_MIN \<le> fst (strtol s base) \<and> fst (strtol s base) \<le> LONG_MAX"
  by (simp add: strtol_def Let_def LONG_MIN_def LONG_MAX_def split: option.splits)

lemma strtoul_range: "0 \<le> fst (strtoul s base) \<and> fst (strtoul s base) \<le> ULONG_MAX"
proof -
  have "(- int n) mod 2 ^ 64 \<le> ULONG_MAX" for n
    using pos_mod_bound [of "2 ^ 64" "- int n"] by (simp add: ULONG_MAX_def)
  then show ?thesis by (auto simp: strtoul_def ULONG_MAX_def split: option.splits)
qed

subsection \<open>Printing numbers\<close>

definition hexchar :: "nat \<Rightarrow> char" where
  "hexchar d = (if d < 10 then char_of (48 + d) else char_of (87 + d))"

fun digits_of :: "nat \<Rightarrow> nat \<Rightarrow> string" where
  "digits_of b n = (if b < 2 \<or> n < b then [hexchar n] else digits_of b (n div b) @ [hexchar (n mod b)])"

declare digits_of.simps [simp del]

text \<open>Numbers are printed by \<open>simp\<close> with these.\<close>

lemma hexchar_digits:
  "hexchar 0 = CHR ''0''" "hexchar (Suc 0) = CHR ''1''" "hexchar 2 = CHR ''2''" "hexchar 3 = CHR ''3''" "hexchar 4 = CHR ''4''" "hexchar 5 = CHR ''5''" "hexchar 6 = CHR ''6''" "hexchar 7 = CHR ''7''" "hexchar 8 = CHR ''8''" "hexchar 9 = CHR ''9''"
  by code_simp+

text \<open>\<open>%d\<close> of an integer, \<open>%x\<close> of a natural number, and \<open>%0wx\<close>: padded with zeros to width \<open>w\<close>.\<close>

definition fmt_d :: "int \<Rightarrow> string" where
  "fmt_d i = (if i < 0 then ''-'' @ digits_of 10 (nat (- i)) else digits_of 10 (nat i))"

lemmas fmt_nums = fmt_d_def digits_of.simps hexchar_digits

definition fmt_x :: "nat \<Rightarrow> string" where
  "fmt_x n = digits_of 16 n"

definition pad0 :: "nat \<Rightarrow> string \<Rightarrow> string" where
  "pad0 w s = replicate (w - length s) (CHR ''0'') @ s"

definition fmt_0x :: "nat \<Rightarrow> nat \<Rightarrow> string" where
  "fmt_0x w n = pad0 w (fmt_x n)"

text \<open>An \<open>int\<close> printed with \<open>%x\<close> is read as unsigned.\<close>

definition fmt_int_0x :: "nat \<Rightarrow> int \<Rightarrow> string" where
  "fmt_int_0x w i = fmt_0x w (nat (i mod 2 ^ 32))"

text \<open>\<open>%-ws\<close>: padded with blanks on the right.\<close>

definition fmt_ljust :: "nat \<Rightarrow> string \<Rightarrow> string" where
  "fmt_ljust w s = s @ replicate (w - length s) (CHR '' '')"

subsection \<open>Round trips\<close>

lemma digit_val_hexchar: "d < 16 \<Longrightarrow> digit_val (hexchar d) = d"
  by (simp add: digit_val_def hexchar_def isdigit_def)

lemma isxdigit_hexchar: "d < 16 \<Longrightarrow> isxdigit (hexchar d)"
  by (simp add: hexchar_def isxdigit_def isdigit_def)

lemma digits_val_append: "digits_val b acc (xs @ ys) = digits_val b (digits_val b acc xs) ys"
  by (induction xs arbitrary: acc) simp_all

lemma digits_val_zeros: "digits_val b 0 (replicate k (CHR ''0'') @ xs) = digits_val b 0 xs"
  by (induction k) (simp_all add: digit_val_def isdigit_def)

lemma digits_of_nonempty: "digits_of b n \<noteq> []"
  by (subst digits_of.simps) simp

lemma digits_of_digit:
  "2 \<le> b \<Longrightarrow> b \<le> 16 \<Longrightarrow> c \<in> set (digits_of b n) \<Longrightarrow> \<exists>d < b. c = hexchar d"
proof (induction b n rule: digits_of.induct)
  case (1 b n)
  show ?case
  proof (cases "n < b")
    case True
    with 1 show ?thesis by (auto simp: digits_of.simps [of b n])
  next
    case False
    with "1.prems" have "c \<in> set (digits_of b (n div b)) \<or> c = hexchar (n mod b)"
      by (auto simp: digits_of.simps [of b n])
    moreover from "1.prems" have "n mod b < b" by simp
    moreover from 1 False have "\<exists>d < b. c = hexchar d" if "c \<in> set (digits_of b (n div b))"
      using that by simp
    ultimately show ?thesis by blast
  qed
qed

lemma digits_of_digit_val:
  assumes "2 \<le> b" "b \<le> 16" "c \<in> set (digits_of b n)"
  shows "digit_val c < b"
proof -
  from digits_of_digit [OF assms] obtain d where "d < b" "c = hexchar d" by blast
  with assms(2) show ?thesis by (simp add: digit_val_hexchar)
qed

lemma digits_val_digits_of:
  "2 \<le> b \<Longrightarrow> b \<le> 16 \<Longrightarrow> digits_val b 0 (digits_of b n) = n"
proof (induction b n rule: digits_of.induct)
  case (1 b n)
  show ?case
  proof (cases "n < b")
    case True
    with 1 show ?thesis by (simp add: digits_of.simps [of b n] digit_val_hexchar)
  next
    case False
    from "1.prems" have "n mod b < 16" using mod_less_divisor [of b n] by linarith
    with 1 False show ?thesis
      by (simp add: digits_of.simps [of b n] digits_val_append digit_val_hexchar)
  qed
qed

lemma hexchar_not_space: "d < 16 \<Longrightarrow> \<not> isspace (hexchar d)"
  by (simp add: hexchar_def isspace_def)

lemma hexchar_not_sign: "d < 16 \<Longrightarrow> hexchar d \<noteq> CHR ''-'' \<and> hexchar d \<noteq> CHR ''+''"
proof -
  assume d: "d < 16"
  have "ord (hexchar d) \<noteq> ord (CHR ''-'')" and "ord (hexchar d) \<noteq> ord (CHR ''+'')"
    using d by (auto simp: hexchar_def)
  then show ?thesis by metis
qed

lemma dropWhile_hd_not: "s \<noteq> [] \<Longrightarrow> \<not> P (hd s) \<Longrightarrow> dropWhile P s = s"
  by (cases s) simp_all

text \<open>A hexadecimal number printed with its prefix is read back by base 0 and by base 16.\<close>

lemma fmt_0x_digits:
  "c \<in> set (fmt_0x w n) \<Longrightarrow> digit_val c < 16 \<and> isxdigit c"
proof -
  assume "c \<in> set (fmt_0x w n)"
  then consider "c = CHR ''0''" | "c \<in> set (digits_of 16 n)"
    by (auto simp: fmt_0x_def pad0_def fmt_x_def)
  then show ?thesis
  proof cases
    case 1
    then show ?thesis by (simp add: digit_val_def isxdigit_def isdigit_def)
  next
    case 2
    then show ?thesis using digits_of_digit [OF _ _ 2]
      by (auto simp: digit_val_hexchar isxdigit_hexchar)
  qed
qed

lemma fmt_0x_nonempty: "fmt_0x w n \<noteq> []"
  by (simp add: fmt_0x_def pad0_def fmt_x_def digits_of_nonempty)

lemma digits_val_fmt_0x: "digits_val 16 0 (fmt_0x w n) = n"
  by (simp add: fmt_0x_def pad0_def fmt_x_def digits_val_zeros digits_val_digits_of)

lemma scan_num_hex:
  assumes "base = 0 \<or> base = 16"
  shows "scan_num base (''0x'' @ fmt_0x w n) = Some (False, n, [])"
proof -
  let ?h = "fmt_0x w n"
  obtain c cs where h: "?h = c # cs" using fmt_0x_nonempty by (cases ?h) auto
  have c: "isxdigit c" using fmt_0x_digits [of c w n] h by simp
  have p: "hex_prefix (''0x'' @ ?h)"
    by (simp add: hex_prefix_def char_at_def h c tolower_def isupper_def)
  have ws: "dropWhile isspace (''0x'' @ ?h) = ''0x'' @ ?h" by (simp add: isspace_def)
  have t: "takeWhile (\<lambda>c. digit_val c < 16) ?h = ?h" and d: "dropWhile (\<lambda>c. digit_val c < 16) ?h = []"
    by (simp_all add: takeWhile_eq_all_conv dropWhile_eq_Nil_conv fmt_0x_digits)
  have sg: "num_sign (''0x'' @ ?h) = (False, ''0x'' @ ?h)" by (simp add: num_sign_def)
  have nb: "num_base base (''0x'' @ ?h) = (16, ?h)" using assms p by (auto simp: num_base_def)
  show ?thesis
    unfolding scan_num_def ws sg nb prod.case t d Let_def
    by (simp add: fmt_0x_nonempty digits_val_fmt_0x)
qed

lemma strtol_hex:
  assumes "base = 0 \<or> base = 16" and "int n \<le> LONG_MAX"
  shows "strtol (''0x'' @ fmt_0x w n) base = (int n, [])"
  unfolding strtol_def scan_num_hex [OF assms(1)] using assms(2) by (simp add: LONG_MIN_def)

lemma strtoul_hex:
  assumes "base = 0 \<or> base = 16" and "int n \<le> ULONG_MAX"
  shows "strtoul (''0x'' @ fmt_0x w n) base = (int n, [])"
  unfolding strtoul_def scan_num_hex [OF assms(1)] using assms(2) by simp

text \<open>Bare hexadecimal digits are read back by base 16.\<close>

lemma num_base_16_digits:
  assumes "\<forall>c \<in> set s. isxdigit c"
  shows "num_base 16 s = (16, s)"
proof -
  have "tolower (char_at s 1) \<noteq> CHR ''x''"
  proof (cases "1 < length s")
    case True
    then have "isxdigit (s ! 1)" using assms by simp
    then have "ord (tolower (s ! 1)) \<noteq> ord (CHR ''x'')"
      by (auto simp: isxdigit_def isdigit_def tolower_def isupper_def)
    then show ?thesis using True by (auto simp: char_at_def)
  next
    case False
    then show ?thesis by (simp add: char_at_def NUL_def tolower_def isupper_def)
  qed
  then show ?thesis by (simp add: num_base_def hex_prefix_def)
qed

lemma isxdigit_hd:
  assumes "isxdigit c"
  shows "\<not> isspace c" and "c \<noteq> CHR ''-''" and "c \<noteq> CHR ''+''"
proof -
  have o: "48 \<le> ord c" using assms by (auto simp: isxdigit_def isdigit_def)
  then show "\<not> isspace c" by (simp add: isspace_def)
  have "ord c \<noteq> ord (CHR ''-'')" and "ord c \<noteq> ord (CHR ''+'')" using o by auto
  then show "c \<noteq> CHR ''-''" and "c \<noteq> CHR ''+''" by metis+
qed

lemma scan_num_16_digits:
  assumes "s \<noteq> []" and "\<forall>c \<in> set s. isxdigit c"
  shows "scan_num 16 s = Some (False, digits_val 16 0 s, [])"
proof -
  obtain c cs where s: "s = c # cs" using assms(1) by (cases s) auto
  have c: "isxdigit c" using assms s by simp
  have dv: "digit_val x < 16" if "isxdigit x" for x
    using that by (auto simp: digit_val_def isxdigit_def isdigit_def)
  have ws: "dropWhile isspace s = s" using isxdigit_hd [OF c] s by simp
  have sg: "num_sign s = (False, s)" using isxdigit_hd [OF c] s by (simp add: num_sign_def)
  have t: "takeWhile (\<lambda>c. digit_val c < 16) s = s" and d: "dropWhile (\<lambda>c. digit_val c < 16) s = []"
    using assms(2) dv by (auto simp: takeWhile_eq_all_conv dropWhile_eq_Nil_conv)
  show ?thesis
    unfolding scan_num_def ws sg prod.case num_base_16_digits [OF assms(2)] t d Let_def
    using assms(1) by simp
qed

text \<open>Two hexadecimal digits, as the printers of bytes write them.\<close>

lemma hex2_digits: "c \<in> set (fmt_0x 2 n) \<Longrightarrow> isxdigit c"
  using fmt_0x_digits [of c 2 n] by auto

lemma scan_hex2: "scan_num 16 (fmt_0x 2 n) = Some (False, n, [])"
  using scan_num_16_digits [of "fmt_0x 2 n"] hex2_digits fmt_0x_nonempty digits_val_fmt_0x by auto

text \<open>The characters of a number printed with \<open>%d\<close>.\<close>

lemma fmt_d_digits: "c \<in> set (fmt_d (int n)) \<Longrightarrow> isdigit c"
proof -
  assume "c \<in> set (fmt_d (int n))"
  then have "digit_val c < 10" by (simp add: fmt_d_def digits_of_digit_val)
  then show "isdigit c" by (auto simp: digit_val_def split: if_splits)
qed

lemma fmt_d_nonempty: "fmt_d (int n) \<noteq> []"
  by (simp add: fmt_d_def digits_of_nonempty)

text \<open>A decimal number printed with \<open>%d\<close> is read back by base 10.\<close>

lemma scan_num_fmt_d: "scan_num 10 (fmt_d i) = Some (i < 0, nat \<bar>i\<bar>, [])"
proof -
  let ?ds = "digits_of 10 (nat \<bar>i\<bar>)"
  obtain c cs where ds: "?ds = c # cs" using digits_of_nonempty by (cases ?ds) auto
  obtain k where k: "k < 10" "c = hexchar k"
    using digits_of_digit [of 10 c "nat \<bar>i\<bar>"] ds by auto
  have c: "\<not> isspace c" "c \<noteq> CHR ''-''" "c \<noteq> CHR ''+''"
    using k hexchar_not_space [of k] hexchar_not_sign [of k] by auto
  have t: "takeWhile (\<lambda>c. digit_val c < 10) ?ds = ?ds" and d: "dropWhile (\<lambda>c. digit_val c < 10) ?ds = []"
    by (auto simp: takeWhile_eq_all_conv dropWhile_eq_Nil_conv digits_of_digit_val)
  have v: "digits_val 10 0 ?ds = nat \<bar>i\<bar>" by (simp add: digits_val_digits_of)
  have pos: "num_sign (dropWhile isspace ?ds) = (False, ?ds)"
    using c by (simp add: ds num_sign_def)
  have neg: "num_sign (dropWhile isspace (''-'' @ ?ds)) = (True, ?ds)"
    by (simp add: num_sign_def isspace_def)
  have f: "fmt_d i = (if i < 0 then ''-'' @ ?ds else ?ds)" by (simp add: fmt_d_def)
  have nb: "num_base 10 ?ds = (10, ?ds)" by (simp add: num_base_def)
  show ?thesis
  proof (cases "i < 0")
    case True
    then have "fmt_d i = ''-'' @ ?ds" using f by simp
    with True show ?thesis
      by (simp only: scan_num_def neg prod.case nb t d v Let_def digits_of_nonempty) simp
  next
    case False
    then have "fmt_d i = ?ds" using f by simp
    with False show ?thesis
      by (simp only: scan_num_def pos prod.case nb t d v Let_def digits_of_nonempty) simp
  qed
qed

lemma strtol_fmt_d: "LONG_MIN \<le> i \<Longrightarrow> i \<le> LONG_MAX \<Longrightarrow> strtol (fmt_d i) 10 = (i, [])"
  by (auto simp: strtol_def scan_num_fmt_d)

lemma atoi_fmt_d: "- (2 ^ 31) \<le> i \<Longrightarrow> i < 2 ^ 31 \<Longrightarrow> atoi (fmt_d i) = i"
  by (simp add: atoi_def strtol_fmt_d LONG_MIN_def LONG_MAX_def to_int_id)

text \<open>Widths: a byte is printed with two hexadecimal digits, a 16-bit word with four.\<close>

lemma length_digits_of_le: "n < b ^ Suc k \<Longrightarrow> length (digits_of b n) \<le> Suc k"
proof (induction k arbitrary: n)
  case 0
  then show ?case by (simp add: digits_of.simps)
next
  case (Suc k)
  then have "n div b < b ^ Suc k" by (simp add: less_mult_imp_div_less mult.commute)
  from Suc.IH [OF this] show ?case by (subst digits_of.simps) auto
qed

lemma length_fmt_0x: "n < 16 ^ Suc k \<Longrightarrow> length (fmt_0x (Suc k) n) = Suc k"
  using length_digits_of_le [of n 16 k] by (simp add: fmt_0x_def pad0_def fmt_x_def)

lemma length_fmt_02x [simp]: "n < 256 \<Longrightarrow> length (fmt_0x 2 n) = 2"
  using length_fmt_0x [of n 1] by (simp add: numeral_2_eq_2)

lemma length_fmt_04x [simp]: "n < 65536 \<Longrightarrow> length (fmt_0x 4 n) = 4"
  using length_fmt_0x [of n 3] by simp

subsection \<open>Tokens\<close>

text \<open>\<open>strtok_r\<close> with one separator: the next token and what is left behind its separator.\<close>

definition strtok :: "char \<Rightarrow> string \<Rightarrow> (string \<times> string) option" where
  "strtok c s =
     (let r = dropWhile (\<lambda>x. x = c) s in
      if r = [] then None else Some (takeWhile (\<lambda>x. x \<noteq> c) r, drop 1 (dropWhile (\<lambda>x. x \<noteq> c) r)))"

lemma strtok_shorter: "strtok c s = Some (t, r) \<Longrightarrow> length r < length s"
proof -
  assume a: "strtok c s = Some (t, r)"
  let ?r = "dropWhile (\<lambda>x. x = c) s"
  have "?r \<noteq> []" and r: "r = drop 1 (dropWhile (\<lambda>x. x \<noteq> c) ?r)" using a by (auto simp: strtok_def Let_def split: if_splits)
  moreover have "hd ?r \<noteq> c" if "?r \<noteq> []" using that hd_dropWhile by blast
  ultimately have "length r < length ?r" using length_dropWhile_le [of "\<lambda>x. x \<noteq> c" ?r] by (cases ?r) (auto simp: less_Suc_eq_le)
  then show ?thesis using length_dropWhile_le [of "\<lambda>x. x = c" s] by linarith
qed

lemma token_split:
  assumes "c \<notin> set t"
  shows "takeWhile (\<lambda>x. x \<noteq> c) (t @ c # r) = t" "dropWhile (\<lambda>x. x \<noteq> c) (t @ c # r) = c # r"
    "takeWhile (\<lambda>x. x \<noteq> c) t = t" "dropWhile (\<lambda>x. x \<noteq> c) t = []"
  using assms by (induction t) auto

lemma no_skip: "t \<noteq> [] \<Longrightarrow> c \<notin> set t \<Longrightarrow> dropWhile (\<lambda>x. x = c) (t @ r) = t @ r"
  by (cases t) auto

lemma strtok_first: "t \<noteq> [] \<Longrightarrow> c \<notin> set t \<Longrightarrow> strtok c (t @ c # r) = Some (t, r)"
  by (simp add: strtok_def no_skip token_split)

lemma strtok_last: "t \<noteq> [] \<Longrightarrow> c \<notin> set t \<Longrightarrow> strtok c t = Some (t, [])"
  using no_skip [of t c "[]"] by (simp add: strtok_def token_split)

lemma strtok_empty [simp]: "strtok c [] = None"
  by (simp add: strtok_def)

end
