(* ===== verification/I2c_Dev.thy ===== *)
theory I2c_Dev
  imports CString
begin

unbundle bit_operations_syntax

text \<open>
  \<open>i2c-tools/include/linux/i2c-dev.h\<close>: the SMBus transactions every tool of \<open>i2c-tools\<close> is
  built on.  The kernel behind \<open>ioctl\<close>, \<open>open\<close> and the file system is not part of the
  repository: it is the parameter \<open>K\<close> of every definition, a record of the system calls as
  functions of the state \<open>'w\<close> of the outside world.  What the tools rely on of it is stated as
  the predicates \<open>smbus_ok\<close> and \<open>byte_chip\<close>.
\<close>

subsection \<open>Constants and data\<close>

datatype smbus_size =
    I2C_SMBUS_QUICK | I2C_SMBUS_BYTE | I2C_SMBUS_BYTE_DATA | I2C_SMBUS_WORD_DATA
  | I2C_SMBUS_PROC_CALL | I2C_SMBUS_BLOCK_DATA | I2C_SMBUS_I2C_BLOCK_BROKEN
  | I2C_SMBUS_BLOCK_PROC_CALL | I2C_SMBUS_I2C_BLOCK_DATA

definition I2C_FUNC_I2C :: "64 word" where "I2C_FUNC_I2C = 0x00000001"
definition I2C_FUNC_SMBUS_PEC :: "64 word" where "I2C_FUNC_SMBUS_PEC = 0x00000008"
definition I2C_FUNC_SMBUS_BLOCK_PROC_CALL :: "64 word" where
  "I2C_FUNC_SMBUS_BLOCK_PROC_CALL = 0x00008000"
definition I2C_FUNC_SMBUS_QUICK :: "64 word" where "I2C_FUNC_SMBUS_QUICK = 0x00010000"
definition I2C_FUNC_SMBUS_READ_BYTE :: "64 word" where "I2C_FUNC_SMBUS_READ_BYTE = 0x00020000"
definition I2C_FUNC_SMBUS_WRITE_BYTE :: "64 word" where "I2C_FUNC_SMBUS_WRITE_BYTE = 0x00040000"
definition I2C_FUNC_SMBUS_READ_BYTE_DATA :: "64 word" where
  "I2C_FUNC_SMBUS_READ_BYTE_DATA = 0x00080000"
definition I2C_FUNC_SMBUS_WRITE_BYTE_DATA :: "64 word" where
  "I2C_FUNC_SMBUS_WRITE_BYTE_DATA = 0x00100000"
definition I2C_FUNC_SMBUS_READ_WORD_DATA :: "64 word" where
  "I2C_FUNC_SMBUS_READ_WORD_DATA = 0x00200000"
definition I2C_FUNC_SMBUS_WRITE_WORD_DATA :: "64 word" where
  "I2C_FUNC_SMBUS_WRITE_WORD_DATA = 0x00400000"
definition I2C_FUNC_SMBUS_PROC_CALL :: "64 word" where "I2C_FUNC_SMBUS_PROC_CALL = 0x00800000"
definition I2C_FUNC_SMBUS_READ_BLOCK_DATA :: "64 word" where
  "I2C_FUNC_SMBUS_READ_BLOCK_DATA = 0x01000000"
definition I2C_FUNC_SMBUS_WRITE_BLOCK_DATA :: "64 word" where
  "I2C_FUNC_SMBUS_WRITE_BLOCK_DATA = 0x02000000"
definition I2C_FUNC_SMBUS_READ_I2C_BLOCK :: "64 word" where
  "I2C_FUNC_SMBUS_READ_I2C_BLOCK = 0x04000000"
definition I2C_FUNC_SMBUS_WRITE_I2C_BLOCK :: "64 word" where
  "I2C_FUNC_SMBUS_WRITE_I2C_BLOCK = 0x08000000"

definition I2C_FUNC_SMBUS_BYTE :: "64 word" where
  "I2C_FUNC_SMBUS_BYTE = I2C_FUNC_SMBUS_READ_BYTE OR I2C_FUNC_SMBUS_WRITE_BYTE"
definition I2C_FUNC_SMBUS_BYTE_DATA :: "64 word" where
  "I2C_FUNC_SMBUS_BYTE_DATA = I2C_FUNC_SMBUS_READ_BYTE_DATA OR I2C_FUNC_SMBUS_WRITE_BYTE_DATA"
definition I2C_FUNC_SMBUS_WORD_DATA :: "64 word" where
  "I2C_FUNC_SMBUS_WORD_DATA = I2C_FUNC_SMBUS_READ_WORD_DATA OR I2C_FUNC_SMBUS_WRITE_WORD_DATA"

lemmas func_defs = I2C_FUNC_I2C_def I2C_FUNC_SMBUS_PEC_def I2C_FUNC_SMBUS_BLOCK_PROC_CALL_def
  I2C_FUNC_SMBUS_QUICK_def I2C_FUNC_SMBUS_READ_BYTE_def I2C_FUNC_SMBUS_WRITE_BYTE_def
  I2C_FUNC_SMBUS_READ_BYTE_DATA_def I2C_FUNC_SMBUS_WRITE_BYTE_DATA_def
  I2C_FUNC_SMBUS_READ_WORD_DATA_def I2C_FUNC_SMBUS_WRITE_WORD_DATA_def
  I2C_FUNC_SMBUS_PROC_CALL_def I2C_FUNC_SMBUS_READ_BLOCK_DATA_def
  I2C_FUNC_SMBUS_WRITE_BLOCK_DATA_def I2C_FUNC_SMBUS_READ_I2C_BLOCK_def
  I2C_FUNC_SMBUS_WRITE_I2C_BLOCK_def I2C_FUNC_SMBUS_BYTE_def I2C_FUNC_SMBUS_BYTE_DATA_def
  I2C_FUNC_SMBUS_WORD_DATA_def

text \<open>The test \<open>funcs & flag\<close> of the adapter's functionality word.\<close>

definition has_func :: "64 word \<Rightarrow> 64 word \<Rightarrow> bool" where
  "has_func funcs f \<longleftrightarrow> funcs AND f \<noteq> 0"

definition I2C_SMBUS_BLOCK_MAX :: nat where
  "I2C_SMBUS_BLOCK_MAX = 32"

text \<open>
  \<open>union i2c_smbus_data\<close>: 34 bytes (\<open>block[0]\<close> is the length, and there is one more for PEC)
  read as a byte, as a little-endian 16-bit word, or as the block itself.  The contents of a union
  that no assignment has set are indeterminate; the model starts from zeros, and no result below
  depends on them.
\<close>

type_synonym smbus_data = "8 word list"

definition uninit_data :: smbus_data where
  "uninit_data = replicate (I2C_SMBUS_BLOCK_MAX + 2) 0"

definition d_byte :: "smbus_data \<Rightarrow> 8 word" where
  "d_byte d = d ! 0"

definition d_word :: "smbus_data \<Rightarrow> 16 word" where
  "d_word d = word_of_int (uint (d ! 0) + 256 * uint (d ! 1))"

definition set_byte :: "8 word \<Rightarrow> smbus_data \<Rightarrow> smbus_data" where
  "set_byte v d = d[0 := v]"

definition set_word :: "16 word \<Rightarrow> smbus_data \<Rightarrow> smbus_data" where
  "set_word v d = d[0 := word_of_int (uint v mod 256), 1 := word_of_int (uint v div 256)]"

datatype rw = I2C_SMBUS_READ | I2C_SMBUS_WRITE

record i2c_smbus_ioctl_data =
  a_read_write :: rw
  a_command :: "8 word"
  a_size :: smbus_size
  a_data :: "smbus_data option"

text \<open>
  The kernel.  A call that fails gives the value of \<open>errno\<close>; \<open>ioctl(I2C_SMBUS)\<close> that succeeds
  returns 0 and has updated the data it was given a pointer to.
\<close>

record 'w kernel =
  k_open :: "string \<Rightarrow> 'w \<Rightarrow> (int + nat) \<times> 'w"
  k_close :: "int \<Rightarrow> 'w \<Rightarrow> unit \<times> 'w"
  k_funcs :: "int \<Rightarrow> 'w \<Rightarrow> (int + 64 word) \<times> 'w"
  k_slave :: "int \<Rightarrow> bool \<Rightarrow> int \<Rightarrow> 'w \<Rightarrow> int option \<times> 'w"
  k_pec :: "int \<Rightarrow> bool \<Rightarrow> 'w \<Rightarrow> int option \<times> 'w"
  k_smbus :: "int \<Rightarrow> i2c_smbus_ioctl_data \<Rightarrow> 'w \<Rightarrow> (int + smbus_data) \<times> 'w"
  k_malloc :: "'w \<Rightarrow> bool \<times> 'w"
  k_file :: "string \<Rightarrow> 'w \<Rightarrow> string option"
  k_dir :: "string \<Rightarrow> 'w \<Rightarrow> string list option"

subsection \<open>Transactions\<close>

definition i2c_smbus_access ::
  "'w kernel \<Rightarrow> int \<Rightarrow> rw \<Rightarrow> 8 word \<Rightarrow> smbus_size \<Rightarrow> smbus_data option \<Rightarrow>
     ('w, 'd, int \<times> smbus_data) prog" where
  "i2c_smbus_access K file read_write command sz data =
     bind_p (sys (k_smbus K file \<lparr>a_read_write = read_write, a_command = command, a_size = sz,
                                   a_data = data\<rparr>))
       (\<lambda>r. case r of Inl e \<Rightarrow> ret (-1, uninit_data) | Inr d \<Rightarrow> ret (0, d))"

definition i2c_smbus_write_quick :: "'w kernel \<Rightarrow> int \<Rightarrow> rw \<Rightarrow> ('w, 'd, int) prog" where
  "i2c_smbus_write_quick K file value =
     bind_p (i2c_smbus_access K file value 0 I2C_SMBUS_QUICK None) (\<lambda>(r, d). ret r)"

definition i2c_smbus_read_byte :: "'w kernel \<Rightarrow> int \<Rightarrow> ('w, 'd, int) prog" where
  "i2c_smbus_read_byte K file =
     bind_p (i2c_smbus_access K file I2C_SMBUS_READ 0 I2C_SMBUS_BYTE (Some uninit_data))
       (\<lambda>(r, d). if r \<noteq> 0 then ret (-1) else ret (0x0FF AND uint (d_byte d)))"

definition i2c_smbus_write_byte :: "'w kernel \<Rightarrow> int \<Rightarrow> 8 word \<Rightarrow> ('w, 'd, int) prog" where
  "i2c_smbus_write_byte K file value =
     bind_p (i2c_smbus_access K file I2C_SMBUS_WRITE value I2C_SMBUS_BYTE None) (\<lambda>(r, d). ret r)"

definition i2c_smbus_read_byte_data :: "'w kernel \<Rightarrow> int \<Rightarrow> 8 word \<Rightarrow> ('w, 'd, int) prog" where
  "i2c_smbus_read_byte_data K file command =
     bind_p (i2c_smbus_access K file I2C_SMBUS_READ command I2C_SMBUS_BYTE_DATA (Some uninit_data))
       (\<lambda>(r, d). if r \<noteq> 0 then ret (-1) else ret (0x0FF AND uint (d_byte d)))"

definition i2c_smbus_write_byte_data ::
  "'w kernel \<Rightarrow> int \<Rightarrow> 8 word \<Rightarrow> 8 word \<Rightarrow> ('w, 'd, int) prog" where
  "i2c_smbus_write_byte_data K file command value =
     bind_p (i2c_smbus_access K file I2C_SMBUS_WRITE command I2C_SMBUS_BYTE_DATA
               (Some (set_byte value uninit_data))) (\<lambda>(r, d). ret r)"

definition i2c_smbus_read_word_data :: "'w kernel \<Rightarrow> int \<Rightarrow> 8 word \<Rightarrow> ('w, 'd, int) prog" where
  "i2c_smbus_read_word_data K file command =
     bind_p (i2c_smbus_access K file I2C_SMBUS_READ command I2C_SMBUS_WORD_DATA (Some uninit_data))
       (\<lambda>(r, d). if r \<noteq> 0 then ret (-1) else ret (0x0FFFF AND uint (d_word d)))"

definition i2c_smbus_write_word_data ::
  "'w kernel \<Rightarrow> int \<Rightarrow> 8 word \<Rightarrow> 16 word \<Rightarrow> ('w, 'd, int) prog" where
  "i2c_smbus_write_word_data K file command value =
     bind_p (i2c_smbus_access K file I2C_SMBUS_WRITE command I2C_SMBUS_WORD_DATA
               (Some (set_word value uninit_data))) (\<lambda>(r, d). ret r)"

definition i2c_smbus_process_call ::
  "'w kernel \<Rightarrow> int \<Rightarrow> 8 word \<Rightarrow> 16 word \<Rightarrow> ('w, 'd, int) prog" where
  "i2c_smbus_process_call K file command value =
     bind_p (i2c_smbus_access K file I2C_SMBUS_WRITE command I2C_SMBUS_PROC_CALL
               (Some (set_word value uninit_data)))
       (\<lambda>(r, d). if r \<noteq> 0 then ret (-1) else ret (0x0FFFF AND uint (d_word d)))"

text \<open>
  The loop that copies \<open>data.block[1..block[0]]\<close> into the caller's buffer.  It returns the bytes
  written there; reading past the 34 bytes of the union is undefined.
\<close>

definition copy_out :: "smbus_data \<Rightarrow> ('w, 'd, int \<times> 8 word list) prog" where
  "copy_out d =
     (let n = unat (d ! 0) in
      if length d \<le> n then undef_p else ret (int n, take n (drop 1 d)))"

text \<open>
  The block a write sends: the length is cut to 32, then \<open>values[0..length-1]\<close> are copied behind
  it.  Reading past the end of \<open>values\<close> is undefined (\<open>None\<close>).
\<close>

definition clip32 :: "8 word \<Rightarrow> 8 word" where
  "clip32 len = (if 32 < unat len then 32 else len)"

definition copy_in :: "8 word \<Rightarrow> 8 word list \<Rightarrow> smbus_data option" where
  "copy_in len vals =
     (let n = unat (clip32 len) in
      if length vals < n then None
      else Some (clip32 len # take n vals @ drop (Suc n) uninit_data))"

definition i2c_smbus_read_block_data ::
  "'w kernel \<Rightarrow> int \<Rightarrow> 8 word \<Rightarrow> ('w, 'd, int \<times> 8 word list) prog" where
  "i2c_smbus_read_block_data K file command =
     bind_p (i2c_smbus_access K file I2C_SMBUS_READ command I2C_SMBUS_BLOCK_DATA (Some uninit_data))
       (\<lambda>(r, d). if r \<noteq> 0 then ret (-1, []) else copy_out d)"

definition i2c_smbus_write_block_data ::
  "'w kernel \<Rightarrow> int \<Rightarrow> 8 word \<Rightarrow> 8 word \<Rightarrow> 8 word list \<Rightarrow> ('w, 'd, int) prog" where
  "i2c_smbus_write_block_data K file command len vals =
     (case copy_in len vals of None \<Rightarrow> undef_p
      | Some d \<Rightarrow> bind_p (i2c_smbus_access K file I2C_SMBUS_WRITE command I2C_SMBUS_BLOCK_DATA
                            (Some d)) (\<lambda>(r, d). ret r))"

definition i2c_smbus_read_i2c_block_data ::
  "'w kernel \<Rightarrow> int \<Rightarrow> 8 word \<Rightarrow> 8 word \<Rightarrow> ('w, 'd, int \<times> 8 word list) prog" where
  "i2c_smbus_read_i2c_block_data K file command len =
     (let n = clip32 len in
      bind_p (i2c_smbus_access K file I2C_SMBUS_READ command
                (if n = 32 then I2C_SMBUS_I2C_BLOCK_BROKEN else I2C_SMBUS_I2C_BLOCK_DATA)
                (Some (set_byte n uninit_data)))
        (\<lambda>(r, d). if r \<noteq> 0 then ret (-1, []) else copy_out d))"

definition i2c_smbus_write_i2c_block_data ::
  "'w kernel \<Rightarrow> int \<Rightarrow> 8 word \<Rightarrow> 8 word \<Rightarrow> 8 word list \<Rightarrow> ('w, 'd, int) prog" where
  "i2c_smbus_write_i2c_block_data K file command len vals =
     (case copy_in len vals of None \<Rightarrow> undef_p
      | Some d \<Rightarrow> bind_p (i2c_smbus_access K file I2C_SMBUS_WRITE command
                            I2C_SMBUS_I2C_BLOCK_BROKEN (Some d)) (\<lambda>(r, d). ret r))"

definition i2c_smbus_block_process_call ::
  "'w kernel \<Rightarrow> int \<Rightarrow> 8 word \<Rightarrow> 8 word \<Rightarrow> 8 word list \<Rightarrow> ('w, 'd, int \<times> 8 word list) prog" where
  "i2c_smbus_block_process_call K file command len vals =
     (case copy_in len vals of None \<Rightarrow> undef_p
      | Some d \<Rightarrow> bind_p (i2c_smbus_access K file I2C_SMBUS_WRITE command
                            I2C_SMBUS_BLOCK_PROC_CALL (Some d))
          (\<lambda>(r, d). if r \<noteq> 0 then ret (-1, vals)
                     else bind_p (copy_out d) (\<lambda>(n, vs). ret (n, vs @ drop (length vs) vals))))"

lemmas smbus_defs = i2c_smbus_write_quick_def i2c_smbus_read_byte_def i2c_smbus_write_byte_def
  i2c_smbus_read_byte_data_def i2c_smbus_write_byte_data_def i2c_smbus_read_word_data_def
  i2c_smbus_write_word_data_def i2c_smbus_process_call_def i2c_smbus_read_block_data_def
  i2c_smbus_write_block_data_def i2c_smbus_read_i2c_block_data_def
  i2c_smbus_write_i2c_block_data_def i2c_smbus_block_process_call_def

subsection \<open>What is relied on of the kernel\<close>

text \<open>
  A transaction that succeeds leaves the 34 bytes of the union in place, and a block it returns
  is at most 32 bytes long (\<open>I2C_SMBUS_BLOCK_MAX\<close>, "as specified in SMBus standard").
\<close>

definition block_size :: "smbus_size \<Rightarrow> bool" where
  "block_size sz \<longleftrightarrow> sz \<in> {I2C_SMBUS_BLOCK_DATA, I2C_SMBUS_I2C_BLOCK_BROKEN,
     I2C_SMBUS_BLOCK_PROC_CALL, I2C_SMBUS_I2C_BLOCK_DATA}"

definition smbus_ok :: "'w kernel \<Rightarrow> bool" where
  "smbus_ok K \<longleftrightarrow>
     (\<forall>file a w d w'. k_smbus K file a w = (Inr d, w') \<longrightarrow>
        length d = 34 \<and> (block_size (a_size a) \<longrightarrow> unat (d ! 0) \<le> 32))"

text \<open>
  A chip with byte registers behind the file descriptor: \<open>regs\<close> reads its registers off the
  state of the world; reading register \<open>c\<close> succeeds and changes none of them, writing it succeeds
  and changes that one.
\<close>

definition byte_chip :: "'w kernel \<Rightarrow> int \<Rightarrow> ('w \<Rightarrow> 8 word \<Rightarrow> 8 word) \<Rightarrow> bool" where
  "byte_chip K file regs \<longleftrightarrow>
     (\<forall>c d w. \<exists>d' w'. k_smbus K file \<lparr>a_read_write = I2C_SMBUS_READ, a_command = c,
          a_size = I2C_SMBUS_BYTE_DATA, a_data = Some d\<rparr> w = (Inr d', w')
        \<and> d_byte d' = regs w c \<and> regs w' = regs w)
     \<and> (\<forall>c d w. \<exists>d' w'. k_smbus K file \<lparr>a_read_write = I2C_SMBUS_WRITE, a_command = c,
          a_size = I2C_SMBUS_BYTE_DATA, a_data = Some d\<rparr> w = (Inr d', w')
        \<and> regs w' = (regs w)(c := d_byte d))"

subsection \<open>Facts about the transactions\<close>

lemma wp_access:
  "wp (i2c_smbus_access K file rw c sz d) Q E s =
     (case k_smbus K file \<lparr>a_read_write = rw, a_command = c, a_size = sz, a_data = d\<rparr> (world s) of
        (Inl e, w) \<Rightarrow> Q (-1, uninit_data) (s\<lparr>world := w\<rparr>)
      | (Inr d', w) \<Rightarrow> Q (0, d') (s\<lparr>world := w\<rparr>))"
  by (simp add: i2c_smbus_access_def wp_simps wp_sys split: prod.splits sum.splits)

lemma and_0xff: "0 \<le> x \<Longrightarrow> x < 256 \<Longrightarrow> 0x0FF AND x = (x :: int)"
proof -
  assume "0 \<le> x" "x < 256"
  then have "take_bit 8 x = x" by (simp add: take_bit_int_eq_self)
  then show ?thesis by (simp add: take_bit_eq_mask mask_eq_exp_minus_1 and.commute)
qed

lemma and_0xffff: "0 \<le> x \<Longrightarrow> x < 65536 \<Longrightarrow> 0x0FFFF AND x = (x :: int)"
proof -
  assume "0 \<le> x" "x < 65536"
  then have "take_bit 16 x = x" by (simp add: take_bit_int_eq_self)
  then show ?thesis by (simp add: take_bit_eq_mask mask_eq_exp_minus_1 and.commute)
qed

text \<open>The masks of the read functions never change the value read.\<close>

lemma read_mask [simp]:
  "0x0FF AND uint (b :: 8 word) = uint b" "0x0FFFF AND uint (h :: 16 word) = uint h"
  by (simp_all add: and_0xff and_0xffff)

text \<open>
  The result of a read is \<open>-1\<close> or fits the width of the transaction, and nothing but the outside
  world changes.
\<close>

lemma uint_ge_m1 [simp]: "- 1 \<le> uint (w :: 'a :: len word)"
  using uint_ge_0 [of w] by linarith

lemma read_byte_wp:
  assumes "\<And>r w. - 1 \<le> r \<Longrightarrow> r < 256 \<Longrightarrow> Q r (s\<lparr>world := w\<rparr>)"
  shows "wp (i2c_smbus_read_byte K file) Q E s"
  by (auto simp: i2c_smbus_read_byte_def wp_simps wp_access intro!: assms
      split: prod.splits sum.splits)

lemma read_byte_data_wp:
  assumes "\<And>r w. - 1 \<le> r \<Longrightarrow> r < 256 \<Longrightarrow> Q r (s\<lparr>world := w\<rparr>)"
  shows "wp (i2c_smbus_read_byte_data K file c) Q E s"
  by (auto simp: i2c_smbus_read_byte_data_def wp_simps wp_access intro!: assms
      split: prod.splits sum.splits)

lemma read_word_data_wp:
  assumes "\<And>r w. - 1 \<le> r \<Longrightarrow> r < 65536 \<Longrightarrow> Q r (s\<lparr>world := w\<rparr>)"
  shows "wp (i2c_smbus_read_word_data K file c) Q E s"
  by (auto simp: i2c_smbus_read_word_data_def wp_simps wp_access intro!: assms
      split: prod.splits sum.splits)

lemma write_wps:
  assumes "\<And>r w. r = 0 \<or> r = - 1 \<Longrightarrow> Q r (s\<lparr>world := w\<rparr>)"
  shows "wp (i2c_smbus_write_quick K file rw) Q E s"
    and "wp (i2c_smbus_write_byte K file b) Q E s"
    and "wp (i2c_smbus_write_byte_data K file c b) Q E s"
    and "wp (i2c_smbus_write_word_data K file c h) Q E s"
  using assms
  by (auto simp: i2c_smbus_write_quick_def i2c_smbus_write_byte_def i2c_smbus_write_byte_data_def
      i2c_smbus_write_word_data_def wp_simps wp_access split: prod.splits sum.splits)

lemma clip32_le: "unat (clip32 n) \<le> 32"
  by (simp add: clip32_def)

lemma copy_in_length: "copy_in n vs = Some d \<Longrightarrow> length d = 34 \<and> unat (d ! 0) \<le> 32"
  using clip32_le [of n]
  by (auto simp: copy_in_def Let_def uninit_data_def I2C_SMBUS_BLOCK_MAX_def split: if_splits)

lemma copy_out_in:
  assumes "copy_in n vs = Some d"
  shows "copy_out d s = (Inr (int (unat (clip32 n)), take (unat (clip32 n)) vs), s)"
proof -
  have d: "d = clip32 n # take (unat (clip32 n)) vs @ drop (Suc (unat (clip32 n))) uninit_data"
    and l: "unat (clip32 n) \<le> length vs"
    using assms by (auto simp: copy_in_def Let_def split: if_splits)
  moreover have "unat (clip32 n) < length d"
    using copy_in_length [OF assms] clip32_le [of n] by linarith
  ultimately show ?thesis by (simp add: copy_out_def Let_def ret_def)
qed

lemma write_block_wps:
  assumes "unat n \<le> length vs" and "\<And>r w. r = 0 \<or> r = - 1 \<Longrightarrow> Q r (s\<lparr>world := w\<rparr>)"
  shows "wp (i2c_smbus_write_block_data K file c n vs) Q E s"
    and "wp (i2c_smbus_write_i2c_block_data K file c n vs) Q E s"
proof -
  have "unat (clip32 n) \<le> length vs" using assms(1) by (auto simp: clip32_def)
  then obtain d where "copy_in n vs = Some d" by (auto simp: copy_in_def Let_def)
  then show "wp (i2c_smbus_write_block_data K file c n vs) Q E s"
    and "wp (i2c_smbus_write_i2c_block_data K file c n vs) Q E s"
    using assms(2)
    by (auto simp: i2c_smbus_write_block_data_def i2c_smbus_write_i2c_block_data_def wp_simps
        wp_access split: prod.splits sum.splits)
qed

lemma copy_out_wp:
  assumes "length d = 34" "unat (d ! 0) \<le> 32"
    and "\<And>vs. length vs \<le> 32 \<Longrightarrow> Q (int (length vs), vs) s"
  shows "wp (copy_out d) Q E s"
proof -
  have "length (take (unat (d ! 0)) (drop 1 d)) = unat (d ! 0)" using assms(1,2) by simp
  with assms show ?thesis
    using assms(3) [of "take (unat (d ! 0)) (drop 1 d)"]
    by (simp add: copy_out_def Let_def wp_simps)
qed

lemma smbus_okD:
  assumes "smbus_ok K" and "k_smbus K file a w = (Inr d, w')"
  shows "length d = 34" and "block_size (a_size a) \<Longrightarrow> unat (d ! 0) \<le> 32"
  using assms unfolding smbus_ok_def by blast+

text \<open>A block read of a kernel that keeps its promise is defined, and gives at most 32 bytes.\<close>

lemma read_block_wps:
  assumes "smbus_ok K"
    and "\<And>w. Q (- 1, []) (s\<lparr>world := w\<rparr>)"
    and "\<And>vs w. length vs \<le> 32 \<Longrightarrow> Q (int (length vs), vs) (s\<lparr>world := w\<rparr>)"
  shows "wp (i2c_smbus_read_block_data K file c) Q E s"
    and "wp (i2c_smbus_read_i2c_block_data K file c n) Q E s"
proof -
  have acc: "wp (i2c_smbus_access K file rw c' sz d)
      (\<lambda>x. wp (case x of (r, d) \<Rightarrow> if r \<noteq> 0 then ret (- 1, []) else copy_out d) Q E) E s"
    if "block_size sz" for rw c' sz d
    using that assms(2,3) smbus_okD [OF assms(1)]
    by (auto simp: wp_simps wp_access intro!: copy_out_wp split: prod.splits sum.splits)
  show "wp (i2c_smbus_read_block_data K file c) Q E s"
    and "wp (i2c_smbus_read_i2c_block_data K file c n) Q E s"
    unfolding i2c_smbus_read_block_data_def i2c_smbus_read_i2c_block_data_def Let_def wp_bind
    by (rule acc, simp add: block_size_def)+
qed

subsection \<open>Registers: the interface the tools use\<close>

text \<open>
  A client of the byte transactions sees a bank of registers.  The laws say what a read and a
  write do to it; the lemmas are what the tools need of them, proved once.
\<close>

locale register_access =
  fixes ok :: "'k \<Rightarrow> bool"
    and rd :: "'k \<Rightarrow> 8 word \<Rightarrow> ('w, 'd, int) prog"
    and wr :: "'k \<Rightarrow> 8 word \<Rightarrow> 8 word \<Rightarrow> ('w, 'd, int) prog"
    and regs :: "'k \<Rightarrow> 'w \<Rightarrow> 8 word \<Rightarrow> 8 word"
  assumes rd_law: "ok k \<Longrightarrow> wp (rd k c)
      (\<lambda>r t. r = uint (regs k (world s) c) \<and> regs k (world t) = regs k (world s) \<and> same_io s t) E s"
    and wr_law: "ok k \<Longrightarrow> wp (wr k c v)
      (\<lambda>r t. r = 0 \<and> regs k (world t) = (regs k (world s))(c := v) \<and> same_io s t) E s"
begin

lemma rd_wp:
  assumes "ok k"
    and "\<And>t. regs k (world t) = regs k (world s) \<Longrightarrow> same_io s t \<Longrightarrow> Q (uint (regs k (world s) c)) t"
  shows "wp (rd k c) Q E s"
  by (rule wp_mono [OF rd_law [OF assms(1)]]) (use assms(2) in auto)

lemma wr_wp:
  assumes "ok k"
    and "\<And>t. regs k (world t) = (regs k (world s))(c := v) \<Longrightarrow> same_io s t \<Longrightarrow> Q 0 t"
  shows "wp (wr k c v) Q E s"
  by (rule wp_mono [OF wr_law [OF assms(1)]]) (use assms(2) in auto)

lemma write_read:
  assumes "ok k"
  shows "wp (bind_p (wr k c v) (\<lambda>_. rd k c))
    (\<lambda>r t. r = uint v \<and> regs k (world t) = (regs k (world s))(c := v) \<and> same_io s t) E s"
  unfolding wp_bind
  by (rule wr_wp [OF assms], rule rd_wp [OF assms]) (auto intro: same_io_trans)

end

text \<open>The provider: the byte transactions of \<open>i2c-dev.h\<close> over any kernel with a chip behind it.\<close>

type_synonym 'w chip = "'w kernel \<times> int \<times> ('w \<Rightarrow> 8 word \<Rightarrow> 8 word)"

fun chip_ok :: "'w chip \<Rightarrow> bool" where
  "chip_ok (K, file, regs) = byte_chip K file regs"

fun chip_rd :: "'w chip \<Rightarrow> 8 word \<Rightarrow> ('w, 'd, int) prog" where
  "chip_rd (K, file, regs) c = i2c_smbus_read_byte_data K file c"

fun chip_wr :: "'w chip \<Rightarrow> 8 word \<Rightarrow> 8 word \<Rightarrow> ('w, 'd, int) prog" where
  "chip_wr (K, file, regs) c v = i2c_smbus_write_byte_data K file c v"

fun chip_regs :: "'w chip \<Rightarrow> 'w \<Rightarrow> 8 word \<Rightarrow> 8 word" where
  "chip_regs (K, file, regs) = regs"

lemma d_byte_set_byte [simp]: "d_byte (set_byte v uninit_data) = v"
  by (simp add: d_byte_def set_byte_def uninit_data_def I2C_SMBUS_BLOCK_MAX_def)

lemma chip_read_law:
  assumes "byte_chip K file regs"
  shows "wp (i2c_smbus_read_byte_data K file c)
      (\<lambda>r t. r = uint (regs (world s) c) \<and> regs (world t) = regs (world s) \<and> same_io s t) E s"
proof -
  obtain d' w' where "k_smbus K file \<lparr>a_read_write = I2C_SMBUS_READ, a_command = c,
      a_size = I2C_SMBUS_BYTE_DATA, a_data = Some uninit_data\<rparr> (world s) = (Inr d', w')"
    and "d_byte d' = regs (world s) c" "regs w' = regs (world s)"
    using assms unfolding byte_chip_def by blast
  then show ?thesis by (simp add: i2c_smbus_read_byte_data_def wp_simps wp_access same_io_def)
qed

lemma chip_write_law:
  assumes "byte_chip K file regs"
  shows "wp (i2c_smbus_write_byte_data K file c v)
      (\<lambda>r t. r = 0 \<and> regs (world t) = (regs (world s))(c := v) \<and> same_io s t) E s"
proof -
  obtain d' w' where "k_smbus K file \<lparr>a_read_write = I2C_SMBUS_WRITE, a_command = c,
      a_size = I2C_SMBUS_BYTE_DATA, a_data = Some (set_byte v uninit_data)\<rparr> (world s) = (Inr d', w')"
    and "regs w' = (regs (world s))(c := d_byte (set_byte v uninit_data))"
    using assms unfolding byte_chip_def by blast
  then show ?thesis by (simp add: i2c_smbus_write_byte_data_def wp_simps wp_access same_io_def)
qed

interpretation chip: register_access chip_ok chip_rd chip_wr chip_regs
proof
  fix k :: "'w chip" and c v :: "8 word" and E :: "stop \<Rightarrow> ('w, 'd) proc \<Rightarrow> bool" and s
  obtain K fd regs where k: "k = (K, fd, regs)" by (cases k)
  assume "chip_ok k"
  with k have b: "byte_chip K fd regs" by simp
  show "wp (chip_rd k c) (\<lambda>r t. r = uint (chip_regs k (world s) c) \<and>
      chip_regs k (world t) = chip_regs k (world s) \<and> same_io s t) E s"
    using chip_read_law [OF b] by (simp add: k)
  show "wp (chip_wr k c v) (\<lambda>r t. r = 0 \<and>
      chip_regs k (world t) = (chip_regs k (world s))(c := v) \<and> same_io s t) E s"
    using chip_write_law [OF b] by (simp add: k)
qed

end
