(* ===== verification/I2c_Busses.thy ===== *)
theory I2c_Busses
  imports I2c_Dev
begin

unbundle bit_operations_syntax

text \<open>
  \<open>i2c-tools/tools/i2cbusses.c\<close> and \<open>util.c\<close>: the arguments that name a bus and a chip, the
  device file, the list of the installed adapters, and the question to the user.  The array of
  adapters is modelled as the array it is, in bunches of eight with a zeroed terminator, so that
  an access past its end is an outcome the theorems can exclude.
\<close>

subsection \<open>Diagnostics\<close>

text \<open>
  What the tools of \<open>i2c-tools\<close> print to standard error, one constructor per message: those of
  \<open>i2cset\<close>, \<open>i2cdetect\<close> and \<open>i2cdump\<close> alone in a type of their own.
\<close>

datatype set_diag =
    Eeprom_danger | Will_write string int int smbus_size int bool "8 word list"
  | Pec_not_for_i2c_block | Mask_not_for_block | Too_many_arguments
  | Value_invalid | Value_out_of_range | Mask_invalid | Mask_out_of_range
  | Old_value_failed | Will_write_masked nat int int int int | Write_failed | Clear_pec_failed int

datatype detect_diag =
    Different_modes | First_not_number | Last_not_number
  | First_out_of_range int int | Last_out_of_range int int
  | No_quick | No_read_byte | Will_probe string string | Will_probe_range int int

datatype dump_diag =
    No_address | No_size | Invalid_bank | Bank_out_of_range | Command_out_of_range
  | Invalid_bank_register | Bankreg_out_of_range | Invalid_range | Range_mode_mismatch
  | Will_dump string int string | Only_even | Using_command int | Probing_bank int int
  | Probe_range int int
  | Bank_switch_failed | Block_read_failed int | Start_address_failed int

datatype i2c_diag =
    Usage | Version_info | Unsupported_option string
  | Read_error string | Out_of_memory | Bus_not_unique | Bus_not_found | Bus_out_of_range
  | Addr_not_number | Addr_out_of_range
  | Open_noent int | Open_failed string int | Run_as_root | Set_addr_failed int int
  | Funcs_failed int | Missing_func string | Pec_unsupported | Set_pec_failed int
  | Confuse_warning | Eeprom_pec_stop | Write_byte_pec_warning | Will_read string int int string
  | Pec_enabled | Continue bool | Aborting | Data_addr_invalid | Invalid_mode
  | Write_warning | Read_failed | No_bus
  | Set_msg set_diag | Detect_msg detect_diag | Dump_msg dump_diag

type_synonym ('w, 'a) i2c = "('w, i2c_diag, 'a) prog"

definition ENOENT :: int where "ENOENT = 2"
definition EACCES :: int where "EACCES = 13"
definition EBUSY :: int where "EBUSY = 16"
definition ENOTDIR :: int where "ENOTDIR = 20"

subsection \<open>util.c\<close>

text \<open>The loop that discards the rest of the line; it says whether it met the end of the file.\<close>

fun flush :: "string \<Rightarrow> bool \<times> string" where
  "flush [] = (True, [])"
| "flush (c # cs) = (if c = nl then (False, cs) else flush cs)"

definition flush_stdin :: "('w, bool) i2c" where
  "flush_stdin s = (case flush (stdin s) of (eof, r) \<Rightarrow> (Inr eof, s\<lparr>stdin := r\<rparr>))"

definition user_ack :: "bool \<Rightarrow> ('w, bool) i2c" where
  "user_ack def =
     bind_p (fgets_stdin 2) (\<lambda>l. case l of
       None \<Rightarrow> ret False
     | Some s \<Rightarrow>
         let c = char_at s 0;
             r = (if c = CHR ''y'' \<or> c = CHR ''Y'' then True
                  else if c = CHR ''n'' \<or> c = CHR ''N'' then False else def)
         in if c = nl then ret r
            else bind_p flush_stdin (\<lambda>eof. ret (if eof then False else r)))"

subsection \<open>The device file\<close>

definition open_i2c_dev :: "'w kernel \<Rightarrow> int \<Rightarrow> nat \<Rightarrow> bool \<Rightarrow> ('w, int \<times> string) i2c" where
  "open_i2c_dev K i2cbus sz quiet =
     (let filename = take (sz - 1) (''/dev/i2c/'' @ fmt_d i2cbus) in
      bind_p (sys (k_open K filename)) (\<lambda>r.
      bind_p
        (case r of
           Inl e \<Rightarrow>
             if e = ENOENT \<or> e = ENOTDIR then
               (let filename2 = ''/dev/i2c-'' @ fmt_d i2cbus in
                if sz \<le> length filename2 then undef_p
                else bind_p (sys (k_open K filename2)) (\<lambda>r2. ret (r2, filename2)))
             else ret (r, filename)
         | Inr fd \<Rightarrow> ret (r, filename))
        (\<lambda>(r, filename). case r of
           Inr fd \<Rightarrow> ret (int fd, filename)
         | Inl e \<Rightarrow>
             then_p
               (if quiet then ret ()
                else if e = ENOENT then eprint (Open_noent i2cbus)
                else then_p (eprint (Open_failed filename e))
                       (if e = EACCES then eprint Run_as_root else ret ()))
               (ret (-1, filename)))))"

definition set_slave_addr :: "'w kernel \<Rightarrow> int \<Rightarrow> int \<Rightarrow> bool \<Rightarrow> ('w, int) i2c" where
  "set_slave_addr K file address force =
     bind_p (sys (k_slave K file force address)) (\<lambda>r. case r of
       None \<Rightarrow> ret 0
     | Some e \<Rightarrow> then_p (eprint (Set_addr_failed address e)) (ret (- e)))"

subsection \<open>The installed adapters\<close>

datatype adt = adt_dummy | adt_isa | adt_i2c | adt_smbus | adt_unknown

record adap_type =
  at_funcs :: string
  at_algo :: string

fun adap_types :: "adt \<Rightarrow> adap_type" where
  "adap_types adt_dummy = \<lparr>at_funcs = ''dummy'', at_algo = ''Dummy bus''\<rparr>"
| "adap_types adt_isa = \<lparr>at_funcs = ''isa'', at_algo = ''ISA bus''\<rparr>"
| "adap_types adt_i2c = \<lparr>at_funcs = ''i2c'', at_algo = ''I2C adapter''\<rparr>"
| "adap_types adt_smbus = \<lparr>at_funcs = ''smbus'', at_algo = ''SMBus adapter''\<rparr>"
| "adap_types adt_unknown = \<lparr>at_funcs = ''unknown'', at_algo = ''N/A''\<rparr>"

definition i2c_get_funcs :: "'w kernel \<Rightarrow> int \<Rightarrow> ('w, adt) i2c" where
  "i2c_get_funcs K i2cbus =
     bind_p (open_i2c_dev K i2cbus 20 True) (\<lambda>(file, filename).
     if file < 0 then ret adt_unknown
     else bind_p (sys (k_funcs K file)) (\<lambda>r.
       let t = (case r of
                  Inl e \<Rightarrow> adt_unknown
                | Inr funcs \<Rightarrow>
                    if has_func funcs I2C_FUNC_I2C then adt_i2c
                    else if has_func funcs (I2C_FUNC_SMBUS_BYTE OR I2C_FUNC_SMBUS_BYTE_DATA OR
                                            I2C_FUNC_SMBUS_WORD_DATA) then adt_smbus
                    else adt_dummy)
       in then_p (sys (k_close K file)) (ret t)))"

text \<open>Trailing blanks removed; the length returned counts the terminating NUL.\<close>

definition rtrim :: "string \<Rightarrow> string \<times> nat" where
  "rtrim s =
     (let t = rev (dropWhile (\<lambda>c. c = CHR '' '' \<or> c = nl) (rev s)) in (t, length t + 1))"

record i2c_adap =
  ad_nr :: int
  ad_name :: string
  ad_funcs :: string
  ad_algo :: string

text \<open>The array of adapters: \<open>None\<close> is an entry whose name is null, the terminator.\<close>

type_synonym adapters = "i2c_adap option list"

definition BUNCH :: nat where
  "BUNCH = 8"

definition more_adapters :: "'w kernel \<Rightarrow> adapters \<Rightarrow> nat \<Rightarrow> ('w, adapters option) i2c" where
  "more_adapters K adapters n =
     bind_p (sys (k_malloc K)) (\<lambda>ok.
     if \<not> ok then ret None
     else if length adapters < n then undef_p
     else ret (Some (take n adapters @ replicate BUNCH None)))"

text \<open>
  The end of both loops of \<open>gather_i2c_busses\<close>: make room if the bunch is full, allocate the
  strings, store the entry at \<open>adapters[count]\<close>.
\<close>

definition add_adapter ::
  "'w kernel \<Rightarrow> adapters \<Rightarrow> nat \<Rightarrow> i2c_adap \<Rightarrow> ('w, adapters option) i2c" where
  "add_adapter K adapters count a =
     bind_p (if (count + 1) mod BUNCH = 0 then more_adapters K adapters (count + 1)
             else ret (Some adapters))
       (\<lambda>r. case r of
          None \<Rightarrow> ret None
        | Some adapters \<Rightarrow>
            bind_p (sys (k_malloc K)) (\<lambda>ok.
            if \<not> ok then ret None
            else if count < length adapters then ret (Some (adapters[count := Some a]))
            else undef_p))"

text \<open>
  \<open>sscanf(s, "i2c-%d", &i2cbus)\<close>: its result, and the value it stored (\<open>None\<close>: it stored none).
\<close>

definition sscanf_i2c :: "string \<Rightarrow> int \<times> int option" where
  "sscanf_i2c s =
     (if take 4 s = ''i2c-'' then
        (case scan_num 10 (drop 4 s) of
           Some _ \<Rightarrow> (1, Some (to_int (fst (strtol (drop 4 s) 10))))
         | None \<Rightarrow> if dropWhile isspace (drop 4 s) = [] then (-1, None) else (0, None))
      else if length s < 4 \<and> s = take (length s) ''i2c-'' then (-1, None)
      else (0, None))"

text \<open>The lines a loop of \<open>fgets(s, n, f)\<close> reads off a file.\<close>

function fgets_all :: "nat \<Rightarrow> string \<Rightarrow> string list" where
  "fgets_all n s =
     (if n \<le> 1 then []
      else (case fgets n s of None \<Rightarrow> [] | Some (l, r) \<Rightarrow> l # fgets_all n r))"
  by pat_completeness auto
termination
  by (relation "measure (\<lambda>(n, s). length s)") (auto dest: fgets_progress)

declare fgets_all.simps [simp del]

text \<open>
  A line of \<open>/proc/bus/i2c\<close>, cut at its last three tabs.  A missing tab makes \<open>strrchr\<close> return a
  null pointer that the code writes through, and a bus number that does not scan is used
  uninitialised: both are undefined (\<open>None\<close>).
\<close>

definition proc_line :: "string \<Rightarrow> i2c_adap option" where
  "proc_line s =
     (case rsplit_at (CHR 0x09) s of None \<Rightarrow> None | Some (s1, algo) \<Rightarrow>
      case rsplit_at (CHR 0x09) s1 of None \<Rightarrow> None | Some (s2, name) \<Rightarrow>
      case rsplit_at (CHR 0x09) s2 of None \<Rightarrow> None | Some (s3, type) \<Rightarrow>
      case snd (sscanf_i2c s3) of None \<Rightarrow> None | Some nr \<Rightarrow>
        Some \<lparr>ad_nr = nr, ad_name = fst (rtrim name), ad_funcs = fst (rtrim type),
              ad_algo = fst (rtrim algo)\<rparr>)"

fun gather_proc :: "'w kernel \<Rightarrow> string list \<Rightarrow> adapters \<Rightarrow> nat \<Rightarrow> ('w, adapters option) i2c" where
  "gather_proc K [] adapters count = ret (Some adapters)"
| "gather_proc K (s # ss) adapters count =
     (case proc_line s of
        None \<Rightarrow> undef_p
      | Some a \<Rightarrow>
          bind_p (add_adapter K adapters count a) (\<lambda>r. case r of
            None \<Rightarrow> ret None
          | Some adapters \<Rightarrow> gather_proc K ss adapters (count + 1)))"

text \<open>
  \<open>sscanf(n, "%*[^ ] %[^ ] %[^ ] %*s\\n", sysfs, fstype)\<close> on a line of \<open>/proc/mounts\<close>: the two
  fields it stored.
\<close>

definition scan_mount :: "string \<Rightarrow> string option \<times> string option" where
  "scan_mount s =
     (let field = takeWhile (\<lambda>c. c \<noteq> CHR '' ''); rest = dropWhile (\<lambda>c. c \<noteq> CHR '' '');
          r1 = dropWhile isspace (rest s); r2 = dropWhile isspace (rest r1)
      in if field s = [] \<or> field r1 = [] then (None, None)
         else (Some (field r1), if field r2 = [] then None else Some (field r2)))"

definition NAME_MAX :: nat where
  "NAME_MAX = 255"

fun find_sysfs :: "string list \<Rightarrow> string option \<Rightarrow> string option \<Rightarrow> ('w, string option) i2c" where
  "find_sysfs [] sysfs fstype = ret None"
| "find_sysfs (n # ns) sysfs fstype =
     (let sysfs = (case fst (scan_mount n) of None \<Rightarrow> sysfs | Some v \<Rightarrow> Some v);
          fstype = (case snd (scan_mount n) of None \<Rightarrow> fstype | Some v \<Rightarrow> Some v)
      in case fstype of
           None \<Rightarrow> undef_p
         | Some t \<Rightarrow> if strcasecmp_eq t ''sysfs'' then ret sysfs else find_sysfs ns sysfs fstype)"

definition read_file :: "'w kernel \<Rightarrow> string \<Rightarrow> ('w, string option) i2c" where
  "read_file K path = sys (\<lambda>w. (k_file K path w, w))"

definition read_dir :: "'w kernel \<Rightarrow> string \<Rightarrow> ('w, string list option) i2c" where
  "read_dir K path = sys (\<lambda>w. (k_dir K path w, w))"

text \<open>\<open>sprintf(n, ...)\<close> into the \<open>NAME_MAX\<close> bytes of \<open>n\<close>.\<close>

definition sprintf_n :: "string \<Rightarrow> ('w, string) i2c" where
  "sprintf_n t = (if NAME_MAX \<le> length t then undef_p else ret t)"

fun find_device_name :: "'w kernel \<Rightarrow> string \<Rightarrow> string list \<Rightarrow> ('w, (string \<times> string) option) i2c" where
  "find_device_name K dir [] = ret None"
| "find_device_name K dir (d # ds) =
     (if d = ''.'' \<or> d = ''..'' \<or> \<not> strncmp_eq d ''i2c-'' 4 then find_device_name K dir ds
      else bind_p (sprintf_n (dir @ ''/'' @ d @ ''/name'')) (\<lambda>n.
           bind_p (read_file K n) (\<lambda>f. case f of
             Some content \<Rightarrow> ret (Some (n, content))
           | None \<Rightarrow> find_device_name K dir ds)))"

text \<open>The three places where the name of a bus is looked for; the file found, with its path.\<close>

definition bus_name_file :: "'w kernel \<Rightarrow> string \<Rightarrow> string \<Rightarrow> ('w, (string \<times> string) option) i2c" where
  "bus_name_file K sysfs d =
     bind_p (sprintf_n (sysfs @ ''/'' @ d @ ''/name'')) (\<lambda>n.
     bind_p (read_file K n) (\<lambda>f. case f of
       Some content \<Rightarrow> ret (Some (n, content))
     | None \<Rightarrow>
         bind_p (sprintf_n (sysfs @ ''/'' @ d @ ''/device/name'')) (\<lambda>n.
         bind_p (read_file K n) (\<lambda>f. case f of
           Some content \<Rightarrow> ret (Some (n, content))
         | None \<Rightarrow>
             bind_p (sprintf_n (sysfs @ ''/'' @ d @ ''/device'')) (\<lambda>n.
             bind_p (read_dir K n) (\<lambda>ddir. case ddir of
               None \<Rightarrow> ret None
             | Some ds \<Rightarrow> find_device_name K n ds))))))"

text \<open>One entry of \<open>/class/i2c-dev\<close>: the adapter to add, if any.\<close>

definition sysfs_entry :: "'w kernel \<Rightarrow> string \<Rightarrow> string \<Rightarrow> ('w, i2c_adap option) i2c" where
  "sysfs_entry K sysfs d =
     (if d = ''.'' \<or> d = ''..'' then ret None
      else bind_p (bus_name_file K sysfs d) (\<lambda>f. case f of
        None \<Rightarrow> ret None
      | Some (n, content) \<Rightarrow>
          (case fgets 120 content of
             None \<Rightarrow> then_p (eprint (Read_error n)) (ret None)
           | Some (l, _) \<Rightarrow>
               let s = takeWhile (\<lambda>c. c \<noteq> nl) l in
               (case sscanf_i2c d of (r, v) \<Rightarrow>
                if r = 0 then ret None
                else (case v of
                  None \<Rightarrow> undef_p
                | Some i2cbus \<Rightarrow>
                    bind_p (if strncmp_eq s ''ISA '' 4 then ret adt_isa else i2c_get_funcs K i2cbus)
                      (\<lambda>t. ret (Some \<lparr>ad_nr = i2cbus, ad_name = s,
                                     ad_funcs = at_funcs (adap_types t),
                                     ad_algo = at_algo (adap_types t)\<rparr>)))))))"

fun gather_sysfs ::
  "'w kernel \<Rightarrow> string \<Rightarrow> string list \<Rightarrow> adapters \<Rightarrow> nat \<Rightarrow> ('w, adapters option) i2c" where
  "gather_sysfs K sysfs [] adapters count = ret (Some adapters)"
| "gather_sysfs K sysfs (d # ds) adapters count =
     bind_p (sysfs_entry K sysfs d) (\<lambda>a. case a of
       None \<Rightarrow> gather_sysfs K sysfs ds adapters count
     | Some a \<Rightarrow>
         bind_p (add_adapter K adapters count a) (\<lambda>r. case r of
           None \<Rightarrow> ret None
         | Some adapters \<Rightarrow> gather_sysfs K sysfs ds adapters (count + 1)))"

definition gather_i2c_busses :: "'w kernel \<Rightarrow> ('w, adapters option) i2c" where
  "gather_i2c_busses K =
     bind_p (sys (k_malloc K)) (\<lambda>ok.
     if \<not> ok then ret None
     else (let adapters = replicate BUNCH None in
       bind_p (read_file K ''/proc/bus/i2c'') (\<lambda>f. case f of
         Some content \<Rightarrow> gather_proc K (fgets_all 120 content) adapters 0
       | None \<Rightarrow>
           bind_p (read_file K ''/proc/mounts'') (\<lambda>f. case f of
             None \<Rightarrow> ret (Some adapters)
           | Some content \<Rightarrow>
               bind_p (find_sysfs (fgets_all NAME_MAX content) None None) (\<lambda>r. case r of
                 None \<Rightarrow> ret (Some adapters)
               | Some sysfs \<Rightarrow>
                   if NAME_MAX \<le> length (sysfs @ ''/class/i2c-dev'') then undef_p
                   else bind_p (read_dir K (sysfs @ ''/class/i2c-dev'')) (\<lambda>dir. case dir of
                     None \<Rightarrow> ret (Some adapters)
                   | Some ds \<Rightarrow> gather_sysfs K (sysfs @ ''/class/i2c-dev'') ds adapters 0))))))"

subsection \<open>The arguments\<close>

text \<open>The walk of \<open>lookup_i2c_bus_by_name\<close>; past the end of the array it is undefined.\<close>

fun find_bus :: "adapters \<Rightarrow> string \<Rightarrow> int \<Rightarrow> ('w, int) i2c" where
  "find_bus [] bus_name i2cbus = undef_p"
| "find_bus (None # as) bus_name i2cbus =
     (if i2cbus = -1 then then_p (eprint Bus_not_found) (ret i2cbus) else ret i2cbus)"
| "find_bus (Some a # as) bus_name i2cbus =
     (if ad_name a = bus_name then
        if 0 \<le> i2cbus then then_p (eprint Bus_not_unique) (ret (-4))
        else find_bus as bus_name (ad_nr a)
      else find_bus as bus_name i2cbus)"

definition lookup_i2c_bus_by_name :: "'w kernel \<Rightarrow> string \<Rightarrow> ('w, int) i2c" where
  "lookup_i2c_bus_by_name K bus_name =
     bind_p (gather_i2c_busses K) (\<lambda>r. case r of
       None \<Rightarrow> then_p (eprint Out_of_memory) (ret (-3))
     | Some adapters \<Rightarrow> find_bus adapters bus_name (-1))"

definition lookup_i2c_bus :: "'w kernel \<Rightarrow> string \<Rightarrow> ('w, int) i2c" where
  "lookup_i2c_bus K i2cbus_arg =
     (case strtoul i2cbus_arg 0 of (i2cbus, end) \<Rightarrow>
      if end \<noteq> [] \<or> i2cbus_arg = [] then lookup_i2c_bus_by_name K i2cbus_arg
      else if i2cbus > 0xFFFFF then then_p (eprint Bus_out_of_range) (ret (-2))
      else ret i2cbus)"

definition parse_i2c_address :: "string \<Rightarrow> ('w, int) i2c" where
  "parse_i2c_address address_arg =
     (case strtol address_arg 0 of (address, end) \<Rightarrow>
      if end \<noteq> [] \<or> address_arg = [] then then_p (eprint Addr_not_number) (ret (-1))
      else if address < 0x00 \<or> address > 0x80 then then_p (eprint Addr_out_of_range) (ret (-2))
      else ret address)"

subsection \<open>The question to the user\<close>

lemma flush_eq: "flush s = (nl \<notin> set s, tl (dropWhile (\<lambda>c. c \<noteq> nl) s))"
  by (induction s) auto

text \<open>
  The answer consumes one line.  It is a yes when the line is complete and starts with \<open>y\<close> or
  \<open>Y\<close>, or when the default is yes and it does not start with \<open>n\<close> or \<open>N\<close>; an empty line is the
  default; a line cut short by the end of the input is a no.
\<close>

definition ack_line :: "bool \<Rightarrow> string \<Rightarrow> bool" where
  "ack_line def inp \<longleftrightarrow> nl \<in> set inp \<and>
     (hd inp \<in> {CHR ''y'', CHR ''Y''} \<or> hd inp \<notin> {CHR ''n'', CHR ''N''} \<and> def)"

lemma user_ack_eq:
  "user_ack def s =
     (Inr (ack_line def (stdin s)), s\<lparr>stdin := tl (dropWhile (\<lambda>c. c \<noteq> nl) (stdin s))\<rparr>)"
proof (cases "stdin s")
  case Nil
  then show ?thesis by (simp add: user_ack_def run_defs ack_line_def)
next
  case (Cons c cs)
  then show ?thesis
    by (auto simp: user_ack_def run_defs flush_stdin_def flush_eq ack_line_def char_at_def Let_def)
qed

lemma wp_user_ack [wp_simps]:
  "wp (user_ack def) Q E s =
     Q (ack_line def (stdin s)) (s\<lparr>stdin := tl (dropWhile (\<lambda>c. c \<noteq> nl) (stdin s))\<rparr>)"
  by (simp add: wp_def user_ack_eq)

subsection \<open>Arguments\<close>

lemma length_fmt_d:
  assumes "0 \<le> i" "i < 2 ^ 31"
  shows "length (fmt_d i) \<le> 10"
proof -
  have "length (digits_of 10 (nat i)) \<le> Suc 9"
    by (rule length_digits_of_le) (use assms in \<open>simp add: nat_less_iff\<close>)
  with assms show ?thesis by (simp add: fmt_d_def)
qed

lemma wp_parse_i2c_address:
  assumes "\<And>a. 0 \<le> a \<Longrightarrow> a \<le> 0x80 \<Longrightarrow> Q a s"
    and "\<And>a d. a < 0 \<Longrightarrow> Q a (s\<lparr>stderr := stderr s @ [d]\<rparr>)"
  shows "wp (parse_i2c_address arg) Q E s"
  using assms by (auto simp: parse_i2c_address_def wp_simps split: prod.splits)

lemma wp_open_i2c_dev:
  assumes "0 \<le> bus" "bus < 2 ^ 31" "20 \<le> sz"
    and "\<And>fd fn w. Q (int fd, fn) (s\<lparr>world := w\<rparr>)"
    and "\<And>fn w ds. Q (-1, fn) (s\<lparr>world := w, stderr := stderr s @ ds\<rparr>)"
  shows "wp (open_i2c_dev K bus sz quiet) Q E s"
proof -
  have l: "length (''/dev/i2c-'' @ fmt_d bus) < sz"
    using length_fmt_d [OF assms(1,2)] assms(3) by simp
  have q: "Q (-1, fn) (s\<lparr>world := w\<rparr>)" for fn w using assms(5) [where fn = fn and w = w and ds = "[]"] by simp
  have q1: "Q (-1, fn) (s\<lparr>world := w, stderr := stderr s @ [d]\<rparr>)" for fn w d
    using assms(5) [where fn = fn and w = w and ds = "[d]"] by simp
  have q2: "Q (-1, fn) (s\<lparr>world := w, stderr := (stderr s @ [d]) @ [d']\<rparr>)" for fn w d d'
    using assms(5) [where fn = fn and w = w and ds = "[d, d']"] by simp
  show ?thesis
    using l assms(4) q q1 q2
    by (auto simp: open_i2c_dev_def wp_simps wp_sys Let_def simp del: append_assoc
        split: prod.splits sum.splits)
qed

subsection \<open>The array of adapters\<close>

text \<open>
  The invariant of the array when it holds \<open>n\<close> adapters: it has room for them and for a
  terminator, in whole bunches; the first \<open>n\<close> entries are set and the others are zeroed.
\<close>

definition adapters_inv :: "adapters \<Rightarrow> i2c_adap list \<Rightarrow> bool" where
  "adapters_inv arr as \<longleftrightarrow>
     arr = map Some as @ replicate (BUNCH * (length as div BUNCH + 1) - length as) None"

lemma bunch_room: "length as < BUNCH * (length as div BUNCH + 1)"
  by (simp add: BUNCH_def)

lemma adapters_inv_length: "adapters_inv arr as \<Longrightarrow> length arr = BUNCH * (length as div BUNCH + 1)"
  using bunch_room [of as] by (simp add: adapters_inv_def)

lemma adapters_inv_start: "adapters_inv (replicate BUNCH None) []"
  by (simp add: adapters_inv_def BUNCH_def)

lemma bunch_full: "(n + 1) mod BUNCH = 0 \<Longrightarrow> BUNCH * (n div BUNCH + 1) = n + 1"
  by (simp add: BUNCH_def) presburger

lemma bunch_not_full: "(n + 1) mod BUNCH \<noteq> 0 \<Longrightarrow> (n + 1) div BUNCH = n div BUNCH"
  by (simp add: BUNCH_def) presburger

lemma update_first_None:
  assumes "0 < k"
  shows "(map Some as @ replicate k None)[length as := Some a] =
    map Some (as @ [a]) @ replicate (k - 1) None"
  using assms by (cases k) (simp_all add: list_update_append)

lemma add_adapter_inv:
  assumes "adapters_inv arr as"
    and "\<And>arr' w. adapters_inv arr' (as @ [a]) \<Longrightarrow> Q (Some arr') (s\<lparr>world := w\<rparr>)"
    and "\<And>w. Q None (s\<lparr>world := w\<rparr>)"
  shows "wp (add_adapter K arr (length as) a) Q E s"
proof -
  let ?n = "length as"
  have store: "adapters_inv (arr'[?n := Some a]) (as @ [a]) \<and> ?n < length arr'"
    if "arr' = map Some as @ replicate (BUNCH * ((?n + 1) div BUNCH + 1) - ?n) None" for arr'
  proof -
    have r: "0 < BUNCH * ((?n + 1) div BUNCH + 1) - ?n" using bunch_room [of "as @ [a]"] by simp
    show ?thesis
      unfolding that using r by (simp add: adapters_inv_def update_first_None)
  qed
  show ?thesis
  proof (cases "(?n + 1) mod BUNCH = 0")
    case True
    have arr: "arr = map Some as @ [None]"
      using assms(1) bunch_full [OF True] by (simp add: adapters_inv_def)
    have "(?n + 1) div BUNCH = ?n div BUNCH + 1" using True by (simp add: BUNCH_def) presburger
    then have "BUNCH * ((?n + 1) div BUNCH + 1) - ?n = 1 + BUNCH"
      using bunch_full [OF True] by simp
    then have "arr @ replicate BUNCH None =
        map Some as @ replicate (BUNCH * ((?n + 1) div BUNCH + 1) - ?n) None"
      by (simp add: arr)
    from store [OF this] show ?thesis
      using True assms(2,3) arr
      by (auto simp: add_adapter_def more_adapters_def wp_simps wp_sys split: prod.splits)
  next
    case False
    have "arr = map Some as @ replicate (BUNCH * ((?n + 1) div BUNCH + 1) - ?n) None"
      using assms(1) bunch_not_full [OF False] by (simp add: adapters_inv_def)
    from store [OF this] show ?thesis
      using False assms(2,3) by (auto simp: add_adapter_def wp_simps wp_sys split: prod.splits)
  qed
qed

lemma gather_proc_inv:
  assumes "adapters_inv arr as"
    and "\<And>arr' as' w. adapters_inv arr' as' \<Longrightarrow> map Some as' = map Some as @ map proc_line ss \<Longrightarrow>
           Q (Some arr') (s\<lparr>world := w\<rparr>)"
    and "\<And>w. Q None (s\<lparr>world := w\<rparr>)"
    and "\<And>w. None \<in> proc_line ` set ss \<Longrightarrow> E Undef (s\<lparr>world := w\<rparr>)"
  shows "wp (gather_proc K ss arr (length as)) Q E s"
  using assms
proof (induction ss arbitrary: arr as s)
  case Nil
  then show ?case using Nil.prems(2) [of arr as "world s"] by (simp add: wp_simps)
next
  case (Cons l ss)
  show ?case
  proof (cases "proc_line l")
    case None
    then show ?thesis using Cons.prems(4) [of "world s"] by (simp add: wp_simps)
  next
    case (Some a)
    have "wp (gather_proc K ss arr' (Suc (length as))) Q E (s\<lparr>world := w\<rparr>)"
      if "adapters_inv arr' (as @ [a])" for arr' w
      using Cons.IH [OF that, where s = "s\<lparr>world := w\<rparr>"] Cons.prems(2-4) Some by simp
    then show ?thesis
      using Some Cons.prems(3)
      by (auto simp: wp_simps intro!: add_adapter_inv [OF Cons.prems(1)])
  qed
qed

text \<open>
  Reading sysfs may print diagnostics and may hit a path too long for its buffer; the array it
  returns is well formed all the same.
\<close>

definition terminated :: "adapters option \<Rightarrow> bool" where
  "terminated r \<longleftrightarrow> (\<forall>arr. r = Some arr \<longrightarrow> (\<exists>as. adapters_inv arr as))"

lemma terminated_simps [simp]: "terminated None" "adapters_inv arr as \<Longrightarrow> terminated (Some arr)"
  by (auto simp: terminated_def)

lemma gather_sysfs_inv:
  "adapters_inv arr as \<Longrightarrow>
     wp (gather_sysfs K sysfs ds arr (length as)) (\<lambda>r _. terminated r) (\<lambda>_ _. True) s"
proof (induction ds arbitrary: arr as s)
  case Nil
  then show ?case by (simp add: wp_simps)
next
  case (Cons d ds)
  have "wp (bind_p (add_adapter K arr (length as) a) (\<lambda>r. case r of None \<Rightarrow> ret None
      | Some adapters \<Rightarrow> gather_sysfs K sysfs ds adapters (length as + 1)))
      (\<lambda>r _. terminated r) (\<lambda>_ _. True) t" for a t
    unfolding wp_bind
    by (rule add_adapter_inv [OF Cons.prems])
      (use Cons.IH [where as = "as @ [a]"] in \<open>simp_all add: wp_ret\<close>)
  then show ?case
    using Cons.IH [OF Cons.prems]
    unfolding gather_sysfs.simps by (intro wp_bind_any) (split option.split, blast)
qed

lemma gather_i2c_busses_inv:
  "wp (gather_i2c_busses K) (\<lambda>r _. terminated r) (\<lambda>_ _. True) s"
proof -
  have proc: "wp (gather_proc K ss (replicate BUNCH None) 0) (\<lambda>r _. terminated r) (\<lambda>_ _. True) t"
    for ss t
    using gather_proc_inv [OF adapters_inv_start, where Q = "\<lambda>r _. terminated r"
      and E = "\<lambda>_ _. True" and K = K and ss = ss and s = t] by simp
  have sysfs: "wp (gather_sysfs K p ds (replicate BUNCH None) 0) (\<lambda>r _. terminated r) (\<lambda>_ _. True) t"
    for p ds t
    using gather_sysfs_inv [OF adapters_inv_start, where K = K and sysfs = p and ds = ds] by simp
  show ?thesis
    unfolding gather_i2c_busses_def Let_def
    by (auto intro!: wp_bind_any proc sysfs terminated_simps(2) [OF adapters_inv_start]
        simp: wp_ret wp_undef split: option.splits)
qed

text \<open>
  The search of the array: \<open>-1\<close> when no adapter has the name, its number when one has, \<open>-4\<close> when
  several have (adapter numbers are not negative).  It never leaves the array.
\<close>

definition matching :: "i2c_adap list \<Rightarrow> string \<Rightarrow> int list" where
  "matching as nm = map ad_nr (filter (\<lambda>a. ad_name a = nm) as)"

definition unique_bus :: "int list \<Rightarrow> int" where
  "unique_bus ns = (case ns of [] \<Rightarrow> -1 | [n] \<Rightarrow> n | _ \<Rightarrow> -4)"

lemma find_bus_defined: "adapters_inv arr as \<Longrightarrow> wp (find_bus arr nm acc) (\<lambda>_ _. True) (\<lambda>_ _. False) s"
proof -
  have "wp (find_bus (map Some as @ None # ys) nm acc) (\<lambda>_ _. True) (\<lambda>_ _. False) s" for ys
    by (induction as arbitrary: acc) (auto simp: wp_simps)
  moreover assume "adapters_inv arr as"
  moreover obtain k where "BUNCH * (length as div BUNCH + 1) - length as = Suc k"
    using bunch_room [of as] by (metis Suc_diff_Suc)
  ultimately show ?thesis by (simp add: adapters_inv_def)
qed

lemma find_bus_found:
  assumes "\<forall>a \<in> set as. 0 \<le> ad_nr a" and "0 \<le> n"
  shows "wp (find_bus (map Some as @ None # ys) nm n)
    (\<lambda>r t. r = unique_bus (n # matching as nm) \<and> world t = world s) (\<lambda>_ _. False) s"
  using assms
  by (induction as arbitrary: n) (auto simp: wp_simps matching_def unique_bus_def split: list.splits)

lemma find_bus_unique:
  assumes "adapters_inv arr as" and "\<forall>a \<in> set as. 0 \<le> ad_nr a"
  shows "wp (find_bus arr nm (-1))
    (\<lambda>r t. r = unique_bus (matching as nm) \<and> world t = world s) (\<lambda>_ _. False) s"
proof -
  have "wp (find_bus (map Some as @ None # ys) nm (-1))
      (\<lambda>r t. r = unique_bus (matching as nm) \<and> world t = world s) (\<lambda>_ _. False) s" for ys
    using assms(2)
  proof (induction as)
    case Nil
    then show ?case by (simp add: wp_simps matching_def unique_bus_def)
  next
    case (Cons a as)
    then show ?case
      using find_bus_found [where as = as and n = "ad_nr a" and ys = ys and s = s and nm = nm]
      by (auto simp: matching_def)
  qed
  moreover obtain k where "BUNCH * (length as div BUNCH + 1) - length as = Suc k"
    using bunch_room [of as] by (metis Suc_diff_Suc)
  ultimately show ?thesis using assms(1) by (simp add: adapters_inv_def)
qed

subsection \<open>Calls that touch no chip\<close>

text \<open>
  An invariant that opening and closing a file, asking for the adapter's functionality and
  allocating memory keep: finding the bus and opening its device do nothing else.
\<close>

definition setup_keeps :: "'w kernel \<Rightarrow> ('w \<Rightarrow> bool) \<Rightarrow> bool" where
  "setup_keeps K I \<longleftrightarrow> (\<forall>w. I w \<longrightarrow>
     (\<forall>p. I (snd (k_open K p w))) \<and> (\<forall>f. I (snd (k_close K f w))) \<and>
     (\<forall>f. I (snd (k_funcs K f w))) \<and> I (snd (k_malloc K w)))"

lemma keeps_setup [keeps_rules]:
  assumes "setup_keeps K I"
  shows "keeps I (sys (k_open K p))" "keeps I (sys (k_close K f))" "keeps I (sys (k_funcs K f))"
    "keeps I (sys (k_malloc K))"
  using assms by (auto simp: setup_keeps_def intro: keeps_sys)

lemma keeps_files [keeps_rules]:
  "keeps I (read_file K p)" "keeps I (read_dir K p)" "keeps I (sprintf_n t)"
  by (auto simp: read_file_def read_dir_def sprintf_n_def intro: keeps_sys keeps_rules)

lemma keeps_user_ack [keeps_rules]: "keeps I (user_ack def)"
  by (simp add: keeps_def user_ack_eq)

lemma keeps_parse_i2c_address [keeps_rules]: "keeps I (parse_i2c_address a)"
  unfolding parse_i2c_address_def by (intro keeps_rules)

lemma keeps_open_i2c_dev [keeps_rules]:
  assumes "setup_keeps K I"
  shows "keeps I (open_i2c_dev K bus sz quiet)"
  unfolding open_i2c_dev_def by (intro keeps_rules assms)

lemma keeps_i2c_get_funcs [keeps_rules]:
  assumes "setup_keeps K I"
  shows "keeps I (i2c_get_funcs K bus)"
  unfolding i2c_get_funcs_def by (intro keeps_rules assms)

lemma keeps_add_adapter [keeps_rules]:
  assumes "setup_keeps K I"
  shows "keeps I (add_adapter K arr n a)"
  unfolding add_adapter_def more_adapters_def by (intro keeps_rules assms)

lemma keeps_find_device_name [keeps_rules]: "keeps I (find_device_name K dir ds)"
  by (induction ds) (auto intro!: keeps_rules)

lemma keeps_sysfs_entry [keeps_rules]:
  assumes "setup_keeps K I"
  shows "keeps I (sysfs_entry K sysfs d)"
  unfolding sysfs_entry_def bus_name_file_def by (intro keeps_rules assms)

lemma keeps_gather_loops [keeps_rules]:
  assumes "setup_keeps K I"
  shows "keeps I (gather_proc K ss arr n)" and "keeps I (gather_sysfs K sysfs ds arr n)"
proof -
  show "keeps I (gather_proc K ss arr n)"
    by (induction ss arbitrary: arr n) (auto intro!: keeps_rules assms)
  show "keeps I (gather_sysfs K sysfs ds arr n)"
    by (induction ds arbitrary: arr n) (auto intro!: keeps_rules assms)
qed

lemma keeps_find_sysfs [keeps_rules]: "keeps I (find_sysfs ns a b)"
  by (induction ns arbitrary: a b) (auto intro!: keeps_rules simp: Let_def)

lemma keeps_find_bus [keeps_rules]: "keeps I (find_bus arr nm acc)"
  by (induction arr nm acc rule: find_bus.induct) (auto intro!: keeps_rules)

lemma keeps_lookup_i2c_bus [keeps_rules]:
  assumes "setup_keeps K I"
  shows "keeps I (lookup_i2c_bus K a)"
  unfolding lookup_i2c_bus_def lookup_i2c_bus_by_name_def gather_i2c_busses_def
  by (intro keeps_rules assms)

lemma keeps_set_slave_addr:
  assumes "\<And>w. I w \<Longrightarrow> I (snd (k_slave K fd force a w))"
  shows "keeps I (set_slave_addr K fd a force)"
  unfolding set_slave_addr_def by (intro keeps_rules keeps_sys assms)

end
