(* ===== verification/I2c_Session.thy ===== *)
theory I2c_Session
  imports I2c_Busses
begin

unbundle bit_operations_syntax

text \<open>
  What the tools need of the kernel to have a session with a chip, and the facts their proofs
  share: a bus that is up, the invariants that each group of system calls keeps, arguments written
  as the tools print numbers.  The simulated chip at the end is a kernel that has all of it.
\<close>

subsection \<open>A bus that is up\<close>

text \<open>
  A bus that is up: every call that sets a session up succeeds and leaves the registers alone, and
  behind every descriptor there is the chip with those registers.
\<close>

definition all_funcs :: "64 word \<Rightarrow> bool" where
  "all_funcs fs \<longleftrightarrow> has_func fs I2C_FUNC_SMBUS_QUICK \<and>
     has_func fs I2C_FUNC_SMBUS_READ_BYTE \<and> has_func fs I2C_FUNC_SMBUS_WRITE_BYTE \<and>
     has_func fs I2C_FUNC_SMBUS_READ_BYTE_DATA \<and> has_func fs I2C_FUNC_SMBUS_WRITE_BYTE_DATA \<and>
     has_func fs I2C_FUNC_SMBUS_READ_WORD_DATA \<and> has_func fs I2C_FUNC_SMBUS_WRITE_WORD_DATA \<and>
     has_func fs I2C_FUNC_SMBUS_READ_I2C_BLOCK \<and> has_func fs I2C_FUNC_SMBUS_WRITE_I2C_BLOCK \<and>
     has_func fs I2C_FUNC_SMBUS_READ_BLOCK_DATA \<and> has_func fs I2C_FUNC_SMBUS_WRITE_BLOCK_DATA"

definition live_bus :: "'w kernel \<Rightarrow> ('w \<Rightarrow> 8 word \<Rightarrow> 8 word) \<Rightarrow> bool" where
  "live_bus K regs \<longleftrightarrow>
     (\<forall>p w. \<exists>fd w'. k_open K p w = (Inr fd, w') \<and> regs w' = regs w) \<and>
     (\<forall>f w. \<exists>fs w'. k_funcs K f w = (Inr fs, w') \<and> all_funcs fs \<and> regs w' = regs w) \<and>
     (\<forall>f b a w. \<exists>w'. k_slave K f b a w = (None, w') \<and> regs w' = regs w) \<and>
     (\<forall>f w. regs (snd (k_close K f w)) = regs w) \<and>
     (\<forall>f. byte_chip K f regs)"

lemma live_byte_chip: "live_bus K regs \<Longrightarrow> byte_chip K f regs"
  by (simp add: live_bus_def)

text \<open>Setting a session up on a bus that is up.\<close>

lemma live_open:
  assumes "live_bus K regs"
    and "\<And>fd fn t. regs (world t) = regs (world s) \<Longrightarrow> same_io s t \<Longrightarrow> Q (int fd, fn) t"
  shows "wp (open_i2c_dev K bus sz quiet) Q E s"
proof -
  obtain fd w where "k_open K (take (sz - 1) (''/dev/i2c/'' @ fmt_d bus)) (world s) = (Inr fd, w)"
    "regs w = regs (world s)"
    using assms(1) unfolding live_bus_def by metis
  then show ?thesis
    using assms(2) [of "s\<lparr>world := w\<rparr>" fd] by (simp add: open_i2c_dev_def wp_simps wp_sys)
qed

lemma live_funcs:
  assumes "live_bus K regs"
    and "\<And>fs t. all_funcs fs \<Longrightarrow> regs (world t) = regs (world s) \<Longrightarrow> same_io s t \<Longrightarrow> Q (Inr fs) t"
  shows "wp (sys (k_funcs K f)) Q E s"
proof -
  obtain fs w where "k_funcs K f (world s) = (Inr fs, w)" "all_funcs fs" "regs w = regs (world s)"
    using assms(1) unfolding live_bus_def by metis
  then show ?thesis using assms(2) [of fs "s\<lparr>world := w\<rparr>"] by (simp add: wp_sys)
qed

lemma live_slave:
  assumes "live_bus K regs"
    and "\<And>t. regs (world t) = regs (world s) \<Longrightarrow> same_io s t \<Longrightarrow> Q 0 t"
  shows "wp (set_slave_addr K f a force) Q E s"
proof -
  obtain w where "k_slave K f force a (world s) = (None, w)" "regs w = regs (world s)"
    using assms(1) unfolding live_bus_def by metis
  then show ?thesis using assms(2) [of "s\<lparr>world := w\<rparr>"] by (simp add: set_slave_addr_def wp_simps wp_sys)
qed

lemma live_close:
  assumes "live_bus K regs"
    and "\<And>t. regs (world t) = regs (world s) \<Longrightarrow> same_io s t \<Longrightarrow> Q () t"
  shows "wp (sys (k_close K f)) Q E s"
proof -
  obtain w where w: "k_close K f (world s) = ((), w)" by (cases "k_close K f (world s)") simp
  moreover have "regs (snd (k_close K f (world s))) = regs (world s)"
    using assms(1) by (simp add: live_bus_def)
  ultimately show ?thesis using assms(2) [of "s\<lparr>world := w\<rparr>"] by (simp add: wp_sys)
qed

lemmas live_read = chip.rd_wp [of "(K, f, regs)" for K f regs, simplified]
lemmas live_write = chip.wr_wp [of "(K, f, regs)" for K f regs, simplified]

text \<open>Numbers written as the tools print them are accepted as arguments.\<close>

definition hex_arg :: "nat \<Rightarrow> string" where
  "hex_arg n = ''0x'' @ fmt_0x 2 n"

lemma strtol_hex_arg: "n < 2 ^ 31 \<Longrightarrow> strtol (hex_arg n) 0 = (int n, [])"
  unfolding hex_arg_def by (rule strtol_hex) (simp_all add: LONG_MAX_def)

lemma char_at_hex_arg [simp]: "char_at (hex_arg n) 0 = CHR ''0''"
  by (simp add: hex_arg_def char_at_def)

lemma hex_arg_nonempty [simp]: "hex_arg n \<noteq> []"
  by (simp add: hex_arg_def)

lemma lookup_hex_arg: "n \<le> 0xFFFFF \<Longrightarrow> lookup_i2c_bus K (hex_arg n) = ret (int n)"
proof -
  assume n: "n \<le> 0xFFFFF"
  have "strtoul (hex_arg n) 0 = (int n, [])"
    unfolding hex_arg_def by (rule strtoul_hex) (use n in \<open>simp_all add: ULONG_MAX_def\<close>)
  with n show ?thesis by (simp add: lookup_i2c_bus_def)
qed

lemma address_hex_arg: "n \<le> 0x80 \<Longrightarrow> parse_i2c_address (hex_arg n) = ret (int n)"
  using strtol_hex_arg [of n] by (simp add: parse_i2c_address_def)

lemma fmt_int_0x_uint: "fmt_int_0x w (uint (b :: 8 word)) = fmt_0x w (unat b)"
proof -
  have "uint b mod 2 ^ 32 = uint b"
    by (rule mod_pos_pos_trivial, simp)
      (rule order.strict_trans [OF conjunct2 [OF uint_u8_range [of b]]], simp)
  then show ?thesis by (simp add: fmt_int_0x_def)
qed

subsection \<open>Invariants of groups of system calls\<close>

definition slave_keeps :: "'w kernel \<Rightarrow> ('w \<Rightarrow> bool) \<Rightarrow> bool" where
  "slave_keeps K I \<longleftrightarrow> (\<forall>w f b a. I w \<longrightarrow> I (snd (k_slave K f b a w)))"

definition pec_keeps :: "'w kernel \<Rightarrow> ('w \<Rightarrow> bool) \<Rightarrow> bool" where
  "pec_keeps K I \<longleftrightarrow> (\<forall>w f b. I w \<longrightarrow> I (snd (k_pec K f b w)))"

definition reads_keep :: "'w kernel \<Rightarrow> ('w \<Rightarrow> bool) \<Rightarrow> bool" where
  "reads_keep K I \<longleftrightarrow>
     (\<forall>w f a. I w \<longrightarrow> a_read_write a = I2C_SMBUS_READ \<longrightarrow> I (snd (k_smbus K f a w)))"

lemma keeps_slave [keeps_rules]: "slave_keeps K I \<Longrightarrow> keeps I (set_slave_addr K f a force)"
  by (auto simp: slave_keeps_def intro!: keeps_set_slave_addr)

lemma keeps_pec [keeps_rules]: "pec_keeps K I \<Longrightarrow> keeps I (sys (k_pec K f b))"
  by (auto simp: pec_keeps_def intro!: keeps_sys)

lemma keeps_reads [keeps_rules]:
  assumes "reads_keep K I"
  shows "keeps I (i2c_smbus_access K f I2C_SMBUS_READ c sz d)"
  unfolding i2c_smbus_access_def
  by (intro keeps_rules keeps_sys) (use assms in \<open>simp add: reads_keep_def\<close>)

lemma keeps_read_ops [keeps_rules]:
  assumes "reads_keep K I"
  shows "keeps I (i2c_smbus_read_byte K f)" "keeps I (i2c_smbus_read_byte_data K f c)"
    "keeps I (i2c_smbus_read_word_data K f c)" "keeps I (i2c_smbus_read_block_data K f c)"
    "keeps I (i2c_smbus_read_i2c_block_data K f c n)"
  unfolding smbus_defs copy_out_def by (intro keeps_rules assms)+

lemma wp_setup_calls:
  assumes "setup_keeps K I" and "I (world s)"
  shows "wp (open_i2c_dev K bus sz quiet) (\<lambda>_ t. I (world t) \<and> stdin t = stdin s)
      (\<lambda>_ t. I (world t)) s"
proof -
  have "I (snd (k_open K p w))" if "I w" for p w using assms(1) that by (simp add: setup_keeps_def)
  then show ?thesis using assms(2)
    by (auto simp: open_i2c_dev_def wp_simps wp_sys Let_def split: prod.splits sum.splits)
      (metis snd_conv)+
qed

lemma wp_set_slave_calls:
  assumes "slave_keeps K I" and "I (world s)"
  shows "wp (set_slave_addr K f a force) (\<lambda>_ t. I (world t) \<and> stdin t = stdin s) E s"
  using assms
  by (auto simp: set_slave_addr_def wp_simps wp_sys slave_keeps_def split: prod.splits option.splits)
    (metis snd_conv)+

subsection \<open>Outcomes\<close>

text \<open>A system that lists no adapters: a bus is then named by its number only.\<close>

definition no_bus_lists :: "'w kernel \<Rightarrow> bool" where
  "no_bus_lists K \<longleftrightarrow>
     (\<forall>w. k_file K ''/proc/bus/i2c'' w = None \<and> k_file K ''/proc/mounts'' w = None)"

lemma gives_gather:
  assumes "no_bus_lists K"
  shows "gives C (gather_i2c_busses K) (\<lambda>r. r = None \<or> r = Some (replicate BUNCH None))"
  using assms
  by (auto simp: gives_def gather_i2c_busses_def wp_simps wp_sys read_file_def Let_def no_bus_lists_def
      split: prod.splits)

lemma gives_lookup:
  assumes "no_bus_lists K"
  shows "gives C (lookup_i2c_bus K a) (\<lambda>r. r \<le> 0xFFFFF)"
proof -
  have "gives C (lookup_i2c_bus_by_name K a) (\<lambda>r. r \<le> 0xFFFFF)"
    unfolding lookup_i2c_bus_by_name_def
    by (rule gives_bindP [OF gives_gather [OF assms]])
      (auto intro!: gives_rules simp: BUNCH_def numeral_eq_Suc)
  then show ?thesis
    unfolding lookup_i2c_bus_def by (intro gives_rules) auto
qed

lemma gives_open:
  assumes "0 \<le> bus" "bus < 2 ^ 31"
  shows "gives C (open_i2c_dev K bus 20 quiet) (\<lambda>_. True)"
  unfolding gives_def using assms by (auto intro: wp_open_i2c_dev)

lemma gives_parse_i2c_address: "gives C (parse_i2c_address a) (\<lambda>r. r \<le> 0x80)"
  unfolding gives_def by (auto intro!: wp_parse_i2c_address)

lemma gives_user_ack [gives_rules]: "(\<And>x. P x) \<Longrightarrow> gives C (user_ack def) P"
  by (simp add: gives_def wp_simps)

lemma gives_set_slave_addr [gives_rules]: "gives C (set_slave_addr K f a force) (\<lambda>_. True)"
  unfolding set_slave_addr_def by (intro gives_rules) auto

lemma gives_smbus [gives_rules]:
  "gives C (i2c_smbus_read_byte K f) (\<lambda>_. True)"
  "gives C (i2c_smbus_read_byte_data K f c) (\<lambda>_. True)"
  "gives C (i2c_smbus_read_word_data K f c) (\<lambda>_. True)"
  "gives C (i2c_smbus_write_quick K f q) (\<lambda>_. True)"
  "gives C (i2c_smbus_write_byte K f b) (\<lambda>_. True)"
  "gives C (i2c_smbus_write_byte_data K f c b) (\<lambda>_. True)"
  "gives C (i2c_smbus_write_word_data K f c h) (\<lambda>_. True)"
  by (auto simp: gives_def intro: read_byte_wp read_byte_data_wp read_word_data_wp write_wps)

subsection \<open>A simulated chip\<close>

text \<open>
  A kernel whose world is the registers of one chip.  It answers the byte-data transactions from
  the registers, reads a byte as register 0, accepts quick writes and refuses the others.
\<close>

type_synonym sim = "8 word \<Rightarrow> 8 word"

definition sim_smbus :: "int \<Rightarrow> i2c_smbus_ioctl_data \<Rightarrow> sim \<Rightarrow> (int + smbus_data) \<times> sim" where
  "sim_smbus f a w =
     (case a_size a of
        I2C_SMBUS_BYTE_DATA \<Rightarrow>
          (case a_read_write a of
             I2C_SMBUS_READ \<Rightarrow> (Inr (set_byte (w (a_command a)) uninit_data), w)
           | I2C_SMBUS_WRITE \<Rightarrow>
               (case a_data a of None \<Rightarrow> (Inl 22, w)
                | Some d \<Rightarrow> (Inr uninit_data, w(a_command a := d_byte d))))
      | I2C_SMBUS_BYTE \<Rightarrow>
          (case a_read_write a of I2C_SMBUS_READ \<Rightarrow> (Inr (set_byte (w 0) uninit_data), w)
           | I2C_SMBUS_WRITE \<Rightarrow> (Inr uninit_data, w))
      | I2C_SMBUS_QUICK \<Rightarrow> (Inr uninit_data, w)
      | _ \<Rightarrow> (Inl 95, w))"

definition sim_kernel :: "sim kernel" where
  "sim_kernel =
     \<lparr>k_open = (\<lambda>p w. (Inr 3, w)), k_close = (\<lambda>f w. ((), w)), k_funcs = (\<lambda>f w. (Inr (- 1), w)),
      k_slave = (\<lambda>f b a w. (None, w)), k_pec = (\<lambda>f b w. (None, w)), k_smbus = sim_smbus,
      k_malloc = (\<lambda>w. (True, w)), k_file = (\<lambda>p w. None), k_dir = (\<lambda>p w. None)\<rparr>"

definition sim_start :: "string \<Rightarrow> (sim, i2c_diag) proc" where
  "sim_start inp = \<lparr>world = (\<lambda>r. r + 1), stdin = inp, stdout = [], stderr = []\<rparr>"

lemma all_funcs_m1: "all_funcs (- 1)"
  by (simp add: all_funcs_def has_func_def func_defs)

lemma sim_byte_chip: "byte_chip sim_kernel f (\<lambda>w. w)"
  by (simp add: byte_chip_def sim_kernel_def sim_smbus_def)

lemma sim_live: "live_bus sim_kernel (\<lambda>w. w)"
  using sim_byte_chip by (auto simp: live_bus_def sim_kernel_def all_funcs_m1)

lemma sim_keeps:
  "setup_keeps sim_kernel I" "slave_keeps sim_kernel I" "pec_keeps sim_kernel I"
  "reads_keep sim_kernel I"
  by (auto simp: setup_keeps_def slave_keeps_def pec_keeps_def reads_keep_def sim_kernel_def
      sim_smbus_def split: smbus_size.splits rw.splits)

lemma sim_no_bus_lists: "no_bus_lists sim_kernel"
  by (simp add: no_bus_lists_def sim_kernel_def)

lemma sim_smbus_ok: "smbus_ok sim_kernel"
  by (auto simp: smbus_ok_def block_size_def sim_kernel_def sim_smbus_def set_byte_def
      uninit_data_def I2C_SMBUS_BLOCK_MAX_def split: smbus_size.splits rw.splits option.splits)

subsection \<open>Properties of the bus list and of the byte transactions\<close>

lemma gather_proc_listed:
  assumes "\<And>w. k_file K ''/proc/bus/i2c'' w = Some content"
    and "map Some as = map proc_line (fgets_all 120 content)"
    and "\<And>arr w. adapters_inv arr as \<Longrightarrow> Q (Some arr) (s\<lparr>world := w\<rparr>)"
    and "\<And>w. Q None (s\<lparr>world := w\<rparr>)"
  shows "wp (gather_i2c_busses K) Q E s"
proof -
  have n: "None \<notin> proc_line ` set (fgets_all 120 content)"
    by (metis assms(2) image_iff image_set option.distinct(1))
  have "wp (gather_proc K (fgets_all 120 content) (replicate BUNCH None) (length ([] :: i2c_adap list))) Q E
      (s\<lparr>world := w\<rparr>)" for w
  proof (rule gather_proc_inv [OF adapters_inv_start])
    show "Q (Some arr) (s\<lparr>world := w, world := w'\<rparr>)"
      if "adapters_inv arr as'" "map Some as' = map Some [] @ map proc_line (fgets_all 120 content)" for arr as' w'
    proof -
      have "as' = as" using that(2) assms(2) by (metis append_Nil list.inj_map_strong list.simps(8) option.inject)
      with that(1) show ?thesis using assms(3) by simp
    qed
  qed (use assms(4) n in auto)
  with assms(1,4) show ?thesis
    by (auto simp: gather_i2c_busses_def wp_simps wp_sys read_file_def Let_def split: prod.splits)
qed

text \<open>
  Looking a bus up by its name refines a search of the list of adapters: when every line of
  \<open>/proc/bus/i2c\<close> describes an adapter, \<open>lookup_i2c_bus\<close> on an argument that is not a number gives
  the number of the one adapter with that name, \<open>-1\<close> when there is none and \<open>-4\<close> when there are
  several (or says that memory ran out), whatever the number of adapters: the array that grows in
  bunches is never left and always has its terminator.
\<close>

theorem lookup_i2c_bus_unique:
  assumes "\<And>w. k_file K ''/proc/bus/i2c'' w = Some content"
    and "map Some as = map proc_line (fgets_all 120 content)"
    and "\<forall>a \<in> set as. 0 \<le> ad_nr a"
    and "snd (strtoul nm 0) \<noteq> []"
  shows "wp (lookup_i2c_bus K nm)
    (\<lambda>r t. r = unique_bus (matching as nm) \<or> r = -3 \<and> last (stderr t) = Out_of_memory)
    (\<lambda>_ _. False) s"
proof -
  have "wp (find_bus arr nm (-1))
      (\<lambda>r t. r = unique_bus (matching as nm) \<or> r = -3 \<and> last (stderr t) = Out_of_memory) (\<lambda>_ _. False) t"
    if "adapters_inv arr as" for arr t
    by (rule wp_mono [OF find_bus_unique [OF that assms(3)]]) auto
  moreover have "lookup_i2c_bus K nm = lookup_i2c_bus_by_name K nm"
    using assms(4) by (cases "strtoul nm 0") (simp add: lookup_i2c_bus_def)
  ultimately show ?thesis
    unfolding lookup_i2c_bus_by_name_def wp_bind
    by (auto simp: wp_simps intro!: gather_proc_listed [OF assms(1,2)])
qed

definition proc_kernel :: "sim kernel" where
  "proc_kernel = sim_kernel\<lparr>k_file := (\<lambda>p w. if p = ''/proc/bus/i2c''
     then Some (''i2c-0'' @ [CHR 0x09] @ ''i2c'' @ [CHR 0x09] @ ''DDC'' @ [CHR 0x09] @ ''Bit'' @ [nl] @
                ''i2c-4'' @ [CHR 0x09] @ ''smbus'' @ [CHR 0x09] @ ''PIIX4'' @ [CHR 0x09] @ ''SMB'' @ [nl]) else None)\<rparr>"

theorem lookup_i2c_bus_unique_witness:
  "wp (lookup_i2c_bus proc_kernel ''PIIX4'')
     (\<lambda>r t. r = 4 \<or> r = -3 \<and> last (stderr t) = Out_of_memory) (\<lambda>_ _. False) (sim_start '''')"
proof -
  define content where "content = ''i2c-0'' @ [CHR 0x09] @ ''i2c'' @ [CHR 0x09] @ ''DDC'' @ [CHR 0x09] @ ''Bit'' @ [nl] @
      ''i2c-4'' @ [CHR 0x09] @ ''smbus'' @ [CHR 0x09] @ ''PIIX4'' @ [CHR 0x09] @ ''SMB'' @ [nl]"
  let ?as = "[\<lparr>ad_nr = 0, ad_name = ''DDC'', ad_funcs = ''i2c'', ad_algo = ''Bit''\<rparr>,
      \<lparr>ad_nr = 4, ad_name = ''PIIX4'', ad_funcs = ''smbus'', ad_algo = ''SMB''\<rparr>]"
  have k: "\<And>w. k_file proc_kernel ''/proc/bus/i2c'' w = Some content"
    by (simp add: proc_kernel_def content_def)
  have l: "map Some ?as = map proc_line (fgets_all 120 content)"
    unfolding content_def by code_simp
  have m: "matching ?as ''PIIX4'' = [4]" "unique_bus [4] = 4"
    by (simp_all add: matching_def unique_bus_def)
  have n: "snd (strtoul ''PIIX4'' 0) \<noteq> []" by code_simp
  show ?thesis
    using lookup_i2c_bus_unique [OF k l _ n, of "sim_start ''''"] m by simp
qed

text \<open>
  On a chip with byte registers, \<open>i2c_smbus_read_byte_data\<close> after
  \<open>i2c_smbus_write_byte_data\<close> reads what was written, and the two change that register only.
\<close>

theorem smbus_write_read:
  assumes "byte_chip K file regs"
  shows "wp (bind_p (i2c_smbus_write_byte_data K file c v) (\<lambda>_. i2c_smbus_read_byte_data K file c))
    (\<lambda>r t. r = uint v \<and> regs (world t) = (regs (world s))(c := v) \<and> same_io s t) E s"
  using chip.write_read [of "(K, file, regs)" c v s E] assms by simp

theorem smbus_write_read_witness:
  "wp (bind_p (i2c_smbus_write_byte_data sim_kernel 3 7 0x42) (\<lambda>_. i2c_smbus_read_byte_data sim_kernel 3 7))
     (\<lambda>r t. r = 0x42 \<and> world t 7 = 0x42 \<and> world t 8 = 9) (\<lambda>_ _. False) (sim_start '''')"
  by (rule wp_mono [OF smbus_write_read [OF sim_byte_chip]]) (auto simp: sim_start_def)

end
