(* ===== verification/I2c_Get.thy ===== *)
theory I2c_Get
  imports I2c_Session
begin

unbundle bit_operations_syntax

text \<open>
  \<open>i2c-tools/tools/i2cget.c\<close>: read one register of a chip and print it.  The arguments are those
  after the program's name; \<open>main\<close> is split where it stops parsing (\<open>i2cget_main\<close>) and starts
  talking to the bus (\<open>i2cget_run\<close>).
\<close>

definition i2c_help :: "('w, 'a) i2c" where
  "i2c_help = then_p (eprint Usage) (exit_p 1)"

lemma gives_i2c_help [gives_rules]: "Exit 1 \<in> C \<Longrightarrow> gives C i2c_help P"
  unfolding i2c_help_def by (intro gives_rules) auto

record get_flags =
  gf_force :: bool
  gf_yes :: bool
  gf_version :: bool

fun i2cget_flags :: "string list \<Rightarrow> get_flags \<Rightarrow> ('w, get_flags \<times> string list) i2c" where
  "i2cget_flags [] fl = ret (fl, [])"
| "i2cget_flags (a # as) fl =
     (if char_at a 0 \<noteq> CHR ''-'' then ret (fl, a # as)
      else (let c = char_at a 1 in
            if c = CHR ''V'' then i2cget_flags as (fl\<lparr>gf_version := True\<rparr>)
            else if c = CHR ''f'' then i2cget_flags as (fl\<lparr>gf_force := True\<rparr>)
            else if c = CHR ''y'' then i2cget_flags as (fl\<lparr>gf_yes := True\<rparr>)
            else then_p (eprint (Unsupported_option a)) i2c_help))"

text \<open>The capability each kind of access needs of the adapter; the first one missing is reported.\<close>

definition i2cget_check_funcs ::
  "'w kernel \<Rightarrow> int \<Rightarrow> smbus_size \<Rightarrow> int \<Rightarrow> bool \<Rightarrow> ('w, int) i2c" where
  "i2cget_check_funcs K file sz daddress pec =
     bind_p (sys (k_funcs K file)) (\<lambda>r. case r of
       Inl e \<Rightarrow> then_p (eprint (Funcs_failed e)) (ret (-1))
     | Inr funcs \<Rightarrow>
         if sz = I2C_SMBUS_BYTE \<and> \<not> has_func funcs I2C_FUNC_SMBUS_READ_BYTE then
           then_p (eprint (Missing_func ''SMBus receive byte'')) (ret (-1))
         else if sz = I2C_SMBUS_BYTE \<and> daddress \<ge> 0 \<and>
                 \<not> has_func funcs I2C_FUNC_SMBUS_WRITE_BYTE then
           then_p (eprint (Missing_func ''SMBus send byte'')) (ret (-1))
         else if sz = I2C_SMBUS_BYTE_DATA \<and> \<not> has_func funcs I2C_FUNC_SMBUS_READ_BYTE_DATA then
           then_p (eprint (Missing_func ''SMBus read byte'')) (ret (-1))
         else if sz = I2C_SMBUS_WORD_DATA \<and> \<not> has_func funcs I2C_FUNC_SMBUS_READ_WORD_DATA then
           then_p (eprint (Missing_func ''SMBus read word'')) (ret (-1))
         else then_p
           (if pec \<and> \<not> has_func funcs (I2C_FUNC_SMBUS_PEC OR I2C_FUNC_I2C)
            then eprint Pec_unsupported else ret ())
           (ret 0))"

definition i2cget_confirm ::
  "string \<Rightarrow> int \<Rightarrow> smbus_size \<Rightarrow> int \<Rightarrow> bool \<Rightarrow> ('w, bool) i2c" where
  "i2cget_confirm filename address sz daddress pec =
     then_p (eprint Confuse_warning)
     (if address \<ge> 0x50 \<and> address \<le> 0x57 \<and> pec then
        then_p (eprint Eeprom_pec_stop) (ret False)
      else
        (let dont = (sz = I2C_SMBUS_BYTE \<and> daddress \<ge> 0 \<and> pec) in
         then_p (if dont then eprint Write_byte_pec_warning else ret ())
         (then_p (eprint (Will_read filename address daddress
            (if sz = I2C_SMBUS_BYTE then (if daddress < 0 then ''read byte'' else ''write byte/read byte'')
             else if sz = I2C_SMBUS_BYTE_DATA then ''read byte data'' else ''read word data'')))
         (then_p (if pec then eprint Pec_enabled else ret ())
         (then_p (eprint (Continue (\<not> dont)))
         (bind_p (user_ack (\<not> dont)) (\<lambda>ok.
            if \<not> ok then then_p (eprint Aborting) (ret False) else ret True)))))))"

text \<open>The transactions, by the kind of access.\<close>

definition i2cget_read :: "'w kernel \<Rightarrow> int \<Rightarrow> smbus_size \<Rightarrow> int \<Rightarrow> ('w, int) i2c" where
  "i2cget_read K file sz daddress =
     (case sz of
        I2C_SMBUS_BYTE \<Rightarrow>
          then_p
            (if daddress \<ge> 0 then
               bind_p (i2c_smbus_write_byte K file (to_u8 daddress)) (\<lambda>res.
                 if res < 0 then eprint Write_warning else ret ())
             else ret ())
            (i2c_smbus_read_byte K file)
      | I2C_SMBUS_WORD_DATA \<Rightarrow> i2c_smbus_read_word_data K file (to_u8 daddress)
      | _ \<Rightarrow> i2c_smbus_read_byte_data K file (to_u8 daddress))"

definition i2cget_transfer ::
  "'w kernel \<Rightarrow> int \<Rightarrow> smbus_size \<Rightarrow> int \<Rightarrow> bool \<Rightarrow> ('w, unit) i2c" where
  "i2cget_transfer K file sz daddress pec =
     bind_p (if pec then sys (k_pec K file True) else ret None) (\<lambda>r. case r of
       Some e \<Rightarrow>
         then_p (eprint (Set_pec_failed e)) (then_p (sys (k_close K file)) (exit_p 1))
     | None \<Rightarrow>
         bind_p (i2cget_read K file sz daddress) (\<lambda>res.
         then_p (sys (k_close K file))
         (if res < 0 then then_p (eprint Read_failed) (exit_p 2)
          else then_p
            (print (''0x'' @ fmt_int_0x (if sz = I2C_SMBUS_WORD_DATA then 4 else 2) res @ [nl]))
            (exit_p 0))))"

definition i2cget_run ::
  "'w kernel \<Rightarrow> bool \<Rightarrow> bool \<Rightarrow> int \<Rightarrow> int \<Rightarrow> smbus_size \<Rightarrow> int \<Rightarrow> bool \<Rightarrow> ('w, unit) i2c" where
  "i2cget_run K force yes i2cbus address sz daddress pec =
     bind_p (open_i2c_dev K i2cbus 20 False) (\<lambda>(file, filename).
     bind_p
       (if file < 0 then ret True
        else bind_p (i2cget_check_funcs K file sz daddress pec) (\<lambda>r.
          if r \<noteq> 0 then ret True
          else bind_p (set_slave_addr K file address force) (\<lambda>r. ret (r \<noteq> 0))))
     (\<lambda>failed. if failed then exit_p 1 else
     bind_p (if yes then ret True else i2cget_confirm filename address sz daddress pec) (\<lambda>go.
     if \<not> go then exit_p 0 else i2cget_transfer K file sz daddress pec)))"

text \<open>The data address, if there is one: it fits a byte.\<close>

definition parse_daddress :: "string \<Rightarrow> ('w, int) i2c" where
  "parse_daddress arg =
     (case strtol arg 0 of (v, end) \<Rightarrow>
      let daddress = to_int v in
      if end \<noteq> [] \<or> daddress < 0 \<or> daddress > 0xff then then_p (eprint Data_addr_invalid) i2c_help
      else ret daddress)"

definition i2cget_mode :: "string \<Rightarrow> ('w, smbus_size \<times> bool) i2c" where
  "i2cget_mode arg =
     (let c = char_at arg 0; pec = (char_at arg 1 = CHR ''p'') in
      if c = CHR ''b'' then ret (I2C_SMBUS_BYTE_DATA, pec)
      else if c = CHR ''w'' then ret (I2C_SMBUS_WORD_DATA, pec)
      else if c = CHR ''c'' then ret (I2C_SMBUS_BYTE, pec)
      else then_p (eprint Invalid_mode) i2c_help)"

definition i2cget_main :: "'w kernel \<Rightarrow> string list \<Rightarrow> ('w, unit) i2c" where
  "i2cget_main K args =
     bind_p (i2cget_flags args \<lparr>gf_force = False, gf_yes = False, gf_version = False\<rparr>) (\<lambda>(fl, pos).
     if gf_version fl then then_p (eprint Version_info) (exit_p 0)
     else if length pos < 2 then i2c_help
     else
       bind_p (lookup_i2c_bus K (pos ! 0)) (\<lambda>i2cbus. if i2cbus < 0 then i2c_help else
       bind_p (parse_i2c_address (pos ! 1)) (\<lambda>address. if address < 0 then i2c_help else
       bind_p (if 2 < length pos
               then bind_p (parse_daddress (pos ! 2)) (\<lambda>daddress. ret (I2C_SMBUS_BYTE_DATA, daddress))
               else ret (I2C_SMBUS_BYTE, -1)) (\<lambda>(sz, daddress).
       bind_p (if 3 < length pos then i2cget_mode (pos ! 3) else ret (sz, False)) (\<lambda>(sz, pec).
         i2cget_run K (gf_force fl) (gf_yes fl) i2cbus address sz daddress pec)))))"

subsection \<open>What the tool does\<close>

lemma daddress_hex_arg: "n \<le> 0xff \<Longrightarrow> parse_daddress (hex_arg n) = ret (int n)"
  using strtol_hex_arg [of n] to_int_id [of "int n"] by (simp add: parse_daddress_def)

text \<open>
  Reading register \<open>r\<close> of the chip, without a question (\<open>-y\<close>), prints its value and nothing else,
  leaves every register as it was and exits with success.
\<close>

lemma i2cget_run_reads:
  assumes "live_bus K regs"
  shows "wp (i2cget_run K force True bus a I2C_SMBUS_BYTE_DATA (uint r) False) (\<lambda>_ _. False)
    (\<lambda>c t. c = Exit 0 \<and> regs (world t) = regs (world s) \<and>
       stdout t = stdout s @ ''0x'' @ fmt_0x 2 (unat (regs (world s) r)) @ [nl]) s"
proof -
  note live = live_open [OF assms] live_funcs [OF assms] live_slave [OF assms] live_close [OF assms]
    live_read [OF live_byte_chip [OF assms]]
  show ?thesis
    unfolding i2cget_run_def i2cget_transfer_def i2cget_check_funcs_def i2cget_read_def
    by (auto intro!: live simp: wp_simps all_funcs_def fmt_int_0x_uint same_io_def)
qed

text \<open>
  C1.  \<open>i2cget -y BUS CHIP REG\<close> on a bus that is up prints the value of the register as a number
  that \<open>strtol\<close> reads back, leaves every register unchanged, and exits with status 0.
\<close>

theorem i2cget_prints_register:
  assumes "live_bus K regs" and "n \<le> 0xFFFFF" and "a \<le> 0x80"
  shows "\<exists>t out. i2cget_main K [''-y'', hex_arg n, hex_arg a, hex_arg (unat r)] s = (Inl (Exit 0), t) \<and>
     stdout t = stdout s @ out @ [nl] \<and> strtol out 0 = (uint (regs (world s) r), []) \<and>
     regs (world t) = regs (world s)"
proof -
  have r: "unat r \<le> 0xff" using unat_u8_less [of r] by simp
  have fl: "i2cget_flags [''-y'', hex_arg n, hex_arg a, hex_arg (unat r)] fl =
      ret (fl\<lparr>gf_yes := True\<rparr>, [hex_arg n, hex_arg a, hex_arg (unat r)])" for fl
    by simp
  have "i2cget_main K [''-y'', hex_arg n, hex_arg a, hex_arg (unat r)] =
      i2cget_run K False True (int n) (int a) I2C_SMBUS_BYTE_DATA (uint r) False"
    using assms(2,3) r
    by (simp add: i2cget_main_def fl lookup_hex_arg address_hex_arg daddress_hex_arg)
  moreover have "\<exists>c t. i2cget_run K False True (int n) (int a) I2C_SMBUS_BYTE_DATA (uint r) False s = (Inl c, t) \<and>
      c = Exit 0 \<and> regs (world t) = regs (world s) \<and>
      stdout t = stdout s @ hex_arg (unat (regs (world s) r)) @ [nl]"
    using wp_exitD [OF i2cget_run_reads [OF assms(1)]] by (simp add: hex_arg_def)
  moreover have "strtol (hex_arg (unat (regs (world s) r))) 0 = (uint (regs (world s) r), [])"
    using strtol_hex_arg [of "unat (regs (world s) r)"] unat_u8_less [of "regs (world s) r"] by simp
  ultimately show ?thesis by auto
qed

theorem i2cget_prints_register_witness:
  "live_bus sim_kernel (\<lambda>w. w) \<and>
   (\<exists>t out. i2cget_main sim_kernel [''-y'', hex_arg 1, hex_arg 0x50, hex_arg (unat (7 :: 8 word))]
        (sim_start []) = (Inl (Exit 0), t) \<and>
      stdout t = stdout (sim_start []) @ out @ [nl] \<and>
      strtol out 0 = (uint (world (sim_start []) 7), []) \<and>
      world t = world (sim_start []))"
  using sim_live i2cget_prints_register [OF sim_live, of 1 "0x50" 7 "sim_start []"] by simp

text \<open>
  Reading is read-only.  Unless the mode is a receive-byte behind a data address (\<open>c\<close>), every call
  the tool makes is one of: setting the session up, selecting the chip, switching PEC, a read
  transaction; an invariant of those calls is an invariant of the tool.
\<close>

lemma keeps_i2cget_check_funcs [keeps_rules]:
  assumes "setup_keeps K I"
  shows "keeps I (i2cget_check_funcs K f sz d pec)"
  unfolding i2cget_check_funcs_def by (intro keeps_rules assms)

lemma keeps_i2cget_confirm [keeps_rules]: "keeps I (i2cget_confirm fn a sz d pec)"
  unfolding i2cget_confirm_def by (intro keeps_rules)

text \<open>
  \<open>i2cget\<close> in its byte-data, word-data and receive-byte modes makes no write transaction.
\<close>

theorem i2cget_read_only:
  assumes "setup_keeps K I" and "slave_keeps K I" and "pec_keeps K I" and "reads_keep K I"
    and "sz \<noteq> I2C_SMBUS_BYTE \<or> daddress < 0"
  shows "keeps I (i2cget_run K force yes bus a sz daddress pec)"
proof -
  have "keeps I (i2cget_read K f sz daddress)" for f
    using assms(4,5) by (cases sz) (auto simp: i2cget_read_def intro!: keeps_rules)
  then show ?thesis
    unfolding i2cget_run_def i2cget_transfer_def by (intro keeps_rules assms(1-3))
qed

theorem i2cget_read_only_witness:
  "keeps (\<lambda>w. w 7 = 8) (i2cget_run sim_kernel False True 1 0x50 I2C_SMBUS_BYTE_DATA 7 False) \<and>
   world (sim_start []) 7 = 8"
  using i2cget_read_only [OF sim_keeps, of I2C_SMBUS_BYTE_DATA 7] by (simp add: sim_start_def)

text \<open>The tool asks before it touches the chip.\<close>

lemma wp_i2cget_check_funcs:
  assumes "setup_keeps K I" and "I (world s)"
  shows "wp (i2cget_check_funcs K f sz d pec) (\<lambda>_ t. I (world t) \<and> stdin t = stdin s) E s"
proof -
  have "I (snd (k_funcs K f w))" if "I w" for w using assms(1) that by (simp add: setup_keeps_def)
  then have "I w" if "k_funcs K f (world s) = (x, w)" for x w using assms(2) that by (metis snd_conv)
  then show ?thesis
    by (auto simp: i2cget_check_funcs_def wp_simps wp_sys split: prod.splits sum.splits)
qed

text \<open>
  Without \<open>-y\<close>, a no from the user (or the default answer no), and PEC on an EEPROM address
  whatever the answer, end the run before any transaction and before PEC is switched on.
\<close>

theorem i2cget_asks_first:
  assumes "setup_keeps K I" and "slave_keeps K I" and "I (world s)"
    and "(0x50 \<le> a \<and> a \<le> 0x57 \<and> pec) \<or>
         \<not> ack_line (\<not> (sz = I2C_SMBUS_BYTE \<and> 0 \<le> daddress \<and> pec)) (stdin s)"
  shows "I (world (snd (i2cget_run K force False bus a sz daddress pec s)))"
proof -
  have no: "wp (i2cget_confirm fn a sz daddress pec) (\<lambda>go t. \<not> go \<and> I (world t)) E t"
    if "I (world t)" "stdin t = stdin s" for fn t E
    using that assms(4)
    by (cases "sz = I2C_SMBUS_BYTE"; cases "0 \<le> daddress"; cases pec)
      (auto simp: i2cget_confirm_def Let_def wp_simps)
  have "wp (i2cget_run K force False bus a sz daddress pec) (\<lambda>_ t. I (world t)) (\<lambda>_ t. I (world t)) s"
    unfolding i2cget_run_def wp_bind
    by (rule wp_mono [OF wp_setup_calls [OF assms(1,3)]])
      (auto simp: wp_simps intro!: wp_mono [OF wp_i2cget_check_funcs [OF assms(1)]]
        wp_mono [OF wp_set_slave_calls [OF assms(2)]] wp_mono [OF no])
  then show ?thesis by (rule wp_anyD)
qed

theorem i2cget_asks_first_witness:
  "world (snd (i2cget_run sim_kernel False False 1 0x50 I2C_SMBUS_BYTE_DATA 7 False
     (sim_start ''n''))) 7 = 8"
  using i2cget_asks_first [OF sim_keeps(1,2), where I = "\<lambda>w. w 7 = 8" and s = "sim_start ''n''"
      and a = "0x50" and pec = False and sz = I2C_SMBUS_BYTE_DATA and daddress = 7]
  by (simp add: sim_start_def ack_line_def)

end
