(* ===== verification/I2c_Set.thy ===== *)
theory I2c_Set
  imports I2c_Get
begin

unbundle bit_operations_syntax

text \<open>
  \<open>i2c-tools/tools/i2cset.c\<close>: write one register of a chip, a masked part of it, or a block.  As
  for \<open>i2cget\<close>, \<open>main\<close> is the parsing of the arguments followed by the session.
\<close>

subsection \<open>Arguments\<close>

record set_flags =
  sf_force :: bool
  sf_yes :: bool
  sf_version :: bool
  sf_readback :: bool
  sf_maskp :: "string option"

fun i2cset_flags :: "string list \<Rightarrow> set_flags \<Rightarrow> ('w, set_flags \<times> string list) i2c" where
  "i2cset_flags [] fl = ret (fl, [])"
| "i2cset_flags (a # as) fl =
     (if char_at a 0 \<noteq> CHR ''-'' then ret (fl, a # as)
      else (let c = char_at a 1 in
            if c = CHR ''V'' then i2cset_flags as (fl\<lparr>sf_version := True\<rparr>)
            else if c = CHR ''f'' then i2cset_flags as (fl\<lparr>sf_force := True\<rparr>)
            else if c = CHR ''y'' then i2cset_flags as (fl\<lparr>sf_yes := True\<rparr>)
            else if c = CHR ''m'' then
              (case as of [] \<Rightarrow> ret (fl, [])
               | m # as' \<Rightarrow> i2cset_flags as' (fl\<lparr>sf_maskp := Some m\<rparr>))
            else if c = CHR ''r'' then i2cset_flags as (fl\<lparr>sf_readback := True\<rparr>)
            else then_p (eprint (Unsupported_option a)) i2c_help))"

text \<open>
  The mode, from the number of positional arguments (bus, chip, data address, then values and
  mode) and the last of them.
\<close>

definition is_block :: "smbus_size \<Rightarrow> bool" where
  "is_block sz \<longleftrightarrow> sz = I2C_SMBUS_BLOCK_DATA \<or> sz = I2C_SMBUS_I2C_BLOCK_DATA"

definition i2cset_mode :: "string list \<Rightarrow> string option \<Rightarrow> ('w, smbus_size \<times> bool) i2c" where
  "i2cset_mode pos maskp =
     (if length pos = 3 then ret (I2C_SMBUS_BYTE, False)
      else if length pos = 4 then
        (if pos ! 3 = ''c'' \<or> pos ! 3 = ''cp''
         then ret (I2C_SMBUS_BYTE, char_at (pos ! 3) 1 = CHR ''p'')
         else ret (I2C_SMBUS_BYTE_DATA, False))
      else
        (let m = last pos; pec = (char_at m 1 = CHR ''p'') in
         if length m > 2 \<or> (length m = 2 \<and> char_at m 1 \<noteq> CHR ''p'') then
           then_p (eprint Invalid_mode) i2c_help
         else bind_p
           (if char_at m 0 = CHR ''b'' then ret I2C_SMBUS_BYTE_DATA
            else if char_at m 0 = CHR ''w'' then ret I2C_SMBUS_WORD_DATA
            else if char_at m 0 = CHR ''s'' then ret I2C_SMBUS_BLOCK_DATA
            else if char_at m 0 = CHR ''i'' then ret I2C_SMBUS_I2C_BLOCK_DATA
            else then_p (eprint Invalid_mode) i2c_help)
           (\<lambda>sz.
            if is_block sz then
              (if pec \<and> sz = I2C_SMBUS_I2C_BLOCK_DATA then
                 then_p (eprint (Set_msg Pec_not_for_i2c_block)) i2c_help
               else if maskp \<noteq> None then then_p (eprint (Set_msg Mask_not_for_block)) i2c_help
               else if length pos > I2C_SMBUS_BLOCK_MAX + 4 then
                 then_p (eprint (Set_msg Too_many_arguments)) i2c_help
               else ret (sz, pec))
            else if length pos \<noteq> 5 then then_p (eprint (Set_msg Too_many_arguments)) i2c_help
            else ret (sz, pec))))"

text \<open>The values of a block, stored one by one into the 32 bytes of the array.\<close>

fun i2cset_block :: "string list \<Rightarrow> 8 word list \<Rightarrow> ('w, 8 word list) i2c" where
  "i2cset_block [] block = ret block"
| "i2cset_block (a # as) block =
     (case strtol a 0 of (v, end) \<Rightarrow>
      let value = to_int v in
      if end \<noteq> [] \<or> value < 0 then then_p (eprint (Set_msg Value_invalid)) i2c_help
      else if value > 0xff then then_p (eprint (Set_msg Value_out_of_range)) i2c_help
      else if I2C_SMBUS_BLOCK_MAX \<le> length block then undef_p
      else i2cset_block as (block @ [to_u8 value]))"

definition i2cset_values ::
  "string list \<Rightarrow> smbus_size \<Rightarrow> ('w, int \<times> 8 word list) i2c" where
  "i2cset_values pos sz =
     (if sz = I2C_SMBUS_BYTE_DATA \<or> sz = I2C_SMBUS_WORD_DATA then
        (case strtol (pos ! 3) 0 of (v, end) \<Rightarrow>
         let value = to_int v in
         if end \<noteq> [] \<or> value < 0 then then_p (eprint (Set_msg Value_invalid)) i2c_help
         else if (sz = I2C_SMBUS_BYTE_DATA \<and> value > 0xff) \<or>
                 (sz = I2C_SMBUS_WORD_DATA \<and> value > 0xffff) then
           then_p (eprint (Set_msg Value_out_of_range)) i2c_help
         else ret (value, []))
      else if is_block sz then
        bind_p (i2cset_block (take (length pos - 4) (drop 3 pos)) []) (\<lambda>block. ret (-1, block))
      else ret (-1, []))"

definition i2cset_mask :: "string option \<Rightarrow> smbus_size \<Rightarrow> ('w, int) i2c" where
  "i2cset_mask maskp sz =
     (case maskp of
        None \<Rightarrow> ret 0
      | Some m \<Rightarrow>
          (case strtol m 0 of (v, end) \<Rightarrow>
           let vmask = to_int v in
           if end \<noteq> [] \<or> vmask = 0 then then_p (eprint (Set_msg Mask_invalid)) i2c_help
           else if ((sz = I2C_SMBUS_BYTE \<or> sz = I2C_SMBUS_BYTE_DATA) \<and> vmask > 0xff) \<or>
                   vmask > 0xffff then
             then_p (eprint (Set_msg Mask_out_of_range)) i2c_help
           else ret vmask))"

subsection \<open>The session\<close>

definition i2cset_check_funcs :: "'w kernel \<Rightarrow> int \<Rightarrow> smbus_size \<Rightarrow> bool \<Rightarrow> ('w, int) i2c" where
  "i2cset_check_funcs K file sz pec =
     bind_p (sys (k_funcs K file)) (\<lambda>r. case r of
       Inl e \<Rightarrow> then_p (eprint (Funcs_failed e)) (ret (-1))
     | Inr funcs \<Rightarrow>
         if sz = I2C_SMBUS_BYTE \<and> \<not> has_func funcs I2C_FUNC_SMBUS_WRITE_BYTE then
           then_p (eprint (Missing_func ''SMBus send byte'')) (ret (-1))
         else if sz = I2C_SMBUS_BYTE_DATA \<and> \<not> has_func funcs I2C_FUNC_SMBUS_WRITE_BYTE_DATA then
           then_p (eprint (Missing_func ''SMBus write byte'')) (ret (-1))
         else if sz = I2C_SMBUS_WORD_DATA \<and> \<not> has_func funcs I2C_FUNC_SMBUS_WRITE_WORD_DATA then
           then_p (eprint (Missing_func ''SMBus write word'')) (ret (-1))
         else if sz = I2C_SMBUS_BLOCK_DATA \<and> \<not> has_func funcs I2C_FUNC_SMBUS_WRITE_BLOCK_DATA then
           then_p (eprint (Missing_func ''SMBus block write'')) (ret (-1))
         else if sz = I2C_SMBUS_I2C_BLOCK_DATA \<and> \<not> has_func funcs I2C_FUNC_SMBUS_WRITE_I2C_BLOCK then
           then_p (eprint (Missing_func ''I2C block write'')) (ret (-1))
         else then_p
           (if pec \<and> \<not> has_func funcs (I2C_FUNC_SMBUS_PEC OR I2C_FUNC_I2C)
            then eprint Pec_unsupported else ret ())
           (ret 0))"

definition i2cset_confirm ::
  "string \<Rightarrow> int \<Rightarrow> smbus_size \<Rightarrow> int \<Rightarrow> int \<Rightarrow> int \<Rightarrow> 8 word list \<Rightarrow> bool \<Rightarrow> ('w, bool) i2c" where
  "i2cset_confirm filename address sz daddress value vmask block pec =
     then_p (eprint Confuse_warning)
     (let dont = (address \<ge> 0x50 \<and> address \<le> 0x57) in
      then_p (if dont then eprint (Set_msg Eeprom_danger) else ret ())
      (then_p (eprint (Set_msg (Will_write filename address daddress sz value (vmask \<noteq> 0) block)))
      (then_p (if pec then eprint Pec_enabled else ret ())
      (then_p (eprint (Continue (\<not> dont)))
      (bind_p (user_ack (\<not> dont)) (\<lambda>ok.
         if \<not> ok then then_p (eprint Aborting) (ret False) else ret True))))))"

definition val_width :: "smbus_size \<Rightarrow> nat" where
  "val_width sz = (if sz = I2C_SMBUS_WORD_DATA then 4 else 2)"

text \<open>A masked write reads the old value first and merges.\<close>

definition merge_mask :: "int \<Rightarrow> int \<Rightarrow> int \<Rightarrow> int" where
  "merge_mask value vmask oldvalue = (value AND vmask) OR (oldvalue AND NOT vmask)"

definition i2cset_masked ::
  "'w kernel \<Rightarrow> int \<Rightarrow> bool \<Rightarrow> smbus_size \<Rightarrow> int \<Rightarrow> int \<Rightarrow> int \<Rightarrow> ('w, int) i2c" where
  "i2cset_masked K file yes sz daddress value vmask =
     (if vmask = 0 then ret value
      else
        bind_p (if sz = I2C_SMBUS_BYTE then i2c_smbus_read_byte K file
                else if sz = I2C_SMBUS_WORD_DATA then i2c_smbus_read_word_data K file (to_u8 daddress)
                else i2c_smbus_read_byte_data K file (to_u8 daddress)) (\<lambda>oldvalue.
        if oldvalue < 0 then then_p (eprint (Set_msg Old_value_failed)) (exit_p 1)
        else
          (let value = merge_mask value vmask oldvalue in
           if yes then ret value
           else
             then_p (eprint (Set_msg (Will_write_masked (val_width sz) oldvalue vmask value daddress)))
             (then_p (eprint (Continue True))
             (bind_p (user_ack True) (\<lambda>ok.
                if \<not> ok then then_p (eprint Aborting) (exit_p 0) else ret value))))))"

definition i2cset_write ::
  "'w kernel \<Rightarrow> int \<Rightarrow> smbus_size \<Rightarrow> int \<Rightarrow> int \<Rightarrow> 8 word list \<Rightarrow> ('w, int) i2c" where
  "i2cset_write K file sz daddress value block =
     (let len = word_of_nat (length block) in
      case sz of
        I2C_SMBUS_BYTE \<Rightarrow> i2c_smbus_write_byte K file (to_u8 daddress)
      | I2C_SMBUS_WORD_DATA \<Rightarrow> i2c_smbus_write_word_data K file (to_u8 daddress) (to_u16 value)
      | I2C_SMBUS_BLOCK_DATA \<Rightarrow> i2c_smbus_write_block_data K file (to_u8 daddress) len block
      | I2C_SMBUS_I2C_BLOCK_DATA \<Rightarrow> i2c_smbus_write_i2c_block_data K file (to_u8 daddress) len block
      | _ \<Rightarrow> i2c_smbus_write_byte_data K file (to_u8 daddress) (to_u8 value))"

definition i2cset_readback ::
  "'w kernel \<Rightarrow> int \<Rightarrow> smbus_size \<Rightarrow> int \<Rightarrow> int \<Rightarrow> ('w, unit) i2c" where
  "i2cset_readback K file sz daddress value =
     bind_p
       (if sz = I2C_SMBUS_BYTE then i2c_smbus_read_byte K file
        else if sz = I2C_SMBUS_WORD_DATA then i2c_smbus_read_word_data K file (to_u8 daddress)
        else i2c_smbus_read_byte_data K file (to_u8 daddress))
     (\<lambda>res.
       let value = (if sz = I2C_SMBUS_BYTE then daddress else value) in
       then_p (sys (k_close K file))
       (then_p
         (if res < 0 then print (''Warning - readback failed'' @ [nl])
          else if res \<noteq> value then
            print (''Warning - data mismatch - wrote 0x'' @ fmt_int_0x (val_width sz) value @
                   '', read back 0x'' @ fmt_int_0x (val_width sz) res @ [nl])
          else print (''Value 0x'' @ fmt_int_0x (val_width sz) value @
                      '' written, readback matched'' @ [nl]))
         (exit_p 0)))"

definition i2cset_transfer ::
  "'w kernel \<Rightarrow> int \<Rightarrow> bool \<Rightarrow> smbus_size \<Rightarrow> int \<Rightarrow> int \<Rightarrow> int \<Rightarrow> 8 word list \<Rightarrow> bool \<Rightarrow> bool \<Rightarrow>
     ('w, unit) i2c" where
  "i2cset_transfer K file yes sz daddress value vmask block pec readback =
     bind_p (i2cset_masked K file yes sz daddress value vmask) (\<lambda>value.
     bind_p (if pec then sys (k_pec K file True) else ret None) (\<lambda>r. case r of
       Some e \<Rightarrow> then_p (eprint (Set_pec_failed e)) (then_p (sys (k_close K file)) (exit_p 1))
     | None \<Rightarrow>
     bind_p (i2cset_write K file sz daddress value block) (\<lambda>res.
     if res < 0 then
       then_p (eprint (Set_msg Write_failed)) (then_p (sys (k_close K file)) (exit_p 1))
     else
     bind_p (if pec then sys (k_pec K file False) else ret None) (\<lambda>r. case r of
       Some e \<Rightarrow> then_p (eprint (Set_msg (Clear_pec_failed e)))
                  (then_p (sys (k_close K file)) (exit_p 1))
     | None \<Rightarrow>
     if \<not> readback then then_p (sys (k_close K file)) (exit_p 0)
     else i2cset_readback K file sz daddress value))))"

definition i2cset_run ::
  "'w kernel \<Rightarrow> bool \<Rightarrow> bool \<Rightarrow> bool \<Rightarrow> int \<Rightarrow> int \<Rightarrow> smbus_size \<Rightarrow> int \<Rightarrow> int \<Rightarrow> int \<Rightarrow> 8 word list \<Rightarrow> bool \<Rightarrow>
     ('w, unit) i2c" where
  "i2cset_run K force yes readback i2cbus address sz daddress value vmask block pec =
     bind_p (open_i2c_dev K i2cbus 20 False) (\<lambda>(file, filename).
     bind_p
       (if file < 0 then ret True
        else bind_p (i2cset_check_funcs K file sz pec) (\<lambda>r.
          if r \<noteq> 0 then ret True
          else bind_p (set_slave_addr K file address force) (\<lambda>r. ret (r \<noteq> 0))))
     (\<lambda>failed. if failed then exit_p 1 else
     bind_p (if yes then ret True
             else i2cset_confirm filename address sz daddress value vmask block pec) (\<lambda>go.
     if \<not> go then exit_p 0
     else i2cset_transfer K file yes sz daddress value vmask block pec readback)))"

definition i2cset_main :: "'w kernel \<Rightarrow> string list \<Rightarrow> ('w, unit) i2c" where
  "i2cset_main K args =
     bind_p (i2cset_flags args \<lparr>sf_force = False, sf_yes = False, sf_version = False,
                                sf_readback = False, sf_maskp = None\<rparr>) (\<lambda>(fl, pos).
     if sf_version fl then then_p (eprint Version_info) (exit_p 0)
     else if length pos < 3 then i2c_help
     else
       bind_p (lookup_i2c_bus K (pos ! 0)) (\<lambda>i2cbus. if i2cbus < 0 then i2c_help else
       bind_p (parse_i2c_address (pos ! 1)) (\<lambda>address. if address < 0 then i2c_help else
       bind_p (parse_daddress (pos ! 2)) (\<lambda>daddress.
       bind_p (i2cset_mode pos (sf_maskp fl)) (\<lambda>(sz, pec).
       bind_p (i2cset_values pos sz) (\<lambda>(value, block).
       bind_p (i2cset_mask (sf_maskp fl) sz) (\<lambda>vmask.
         i2cset_run K (sf_force fl) (sf_yes fl) (sf_readback fl) i2cbus address sz daddress value
           vmask block pec)))))))"

subsection \<open>Merging under a mask\<close>

lemma merge_mask_range:
  "0 \<le> merge_mask (uint (v :: 8 word)) m (uint (w :: 8 word)) \<and>
   merge_mask (uint v) m (uint w) < 256"
  using int_and_or_range [of "uint v" 8 "uint w" m] by (simp add: merge_mask_def)

lemma to_u8_merge_mask:
  "to_u8 (merge_mask (uint v) (uint m) (uint w)) = (v AND m) OR (w AND NOT m)"
  by (rule bit_word_eqI)
    (auto simp: to_u8_def merge_mask_def bit_simps)

lemma uint_merge_mask:
  "merge_mask (uint v) (uint m) (uint w) = uint ((v AND m) OR (w AND NOT m) :: 8 word)"
proof -
  have "uint (to_u8 (merge_mask (uint v) (uint m) (uint w))) = merge_mask (uint v) (uint m) (uint w)"
    using merge_mask_range [of v "uint m" w] by (simp add: uint_to_u8)
  then show ?thesis by (simp add: to_u8_merge_mask)
qed

subsection \<open>What a session writes\<close>

text \<open>The byte a session leaves in the register it writes.\<close>

definition set_result :: "8 word \<Rightarrow> 8 word \<Rightarrow> 8 word \<Rightarrow> 8 word" where
  "set_result v m old = (if m = 0 then v else (v AND m) OR (old AND NOT m))"

lemma i2cset_run_writes:
  assumes "live_bus K regs"
  shows "wp (i2cset_run K force True rb bus a I2C_SMBUS_BYTE_DATA (uint r) (uint v) (uint m) [] False)
    (\<lambda>_ _. False)
    (\<lambda>c t. c = Exit 0 \<and>
       regs (world t) = (regs (world s))(r := set_result v m (regs (world s) r)) \<and>
       stdout t = stdout s @
         (if rb then ''Value 0x'' @ fmt_0x 2 (unat (set_result v m (regs (world s) r))) @
            '' written, readback matched'' @ [nl] else [])) s"
proof -
  note chip = live_byte_chip [OF assms]
  note live = live_open [OF assms] live_funcs [OF assms] live_slave [OF assms] live_close [OF assms]
    live_read [OF chip] live_write [OF chip]
  show ?thesis
    unfolding i2cset_run_def i2cset_transfer_def i2cset_check_funcs_def i2cset_masked_def
      i2cset_write_def i2cset_readback_def
    by (auto intro!: live simp: wp_simps all_funcs_def Let_def fmt_int_0x_uint same_io_def
        set_result_def uint_merge_mask val_width_def uint_0_iff)
qed

text \<open>
  C2.  \<open>i2cset -y -r -m MASK BUS CHIP REG VALUE b\<close> on a bus that is up changes the bits of the
  register under the mask to those of the value, keeps its other bits and every other register,
  reports that the readback matched, and exits with status 0.
\<close>

theorem i2cset_masked_write:
  assumes "live_bus K regs" and "n \<le> 0xFFFFF" and "a \<le> 0x80" and "m \<noteq> 0"
  shows "\<exists>t. i2cset_main K [''-y'', ''-r'', ''-m'', hex_arg (unat m), hex_arg n, hex_arg a,
        hex_arg (unat r), hex_arg (unat v), ''b''] s = (Inl (Exit 0), t) \<and>
     regs (world t) = (regs (world s))(r := (v AND m) OR (regs (world s) r AND NOT m)) \<and>
     stdout t = stdout s @ ''Value 0x'' @
       fmt_0x 2 (unat ((v AND m) OR (regs (world s) r AND NOT m))) @
       '' written, readback matched'' @ [nl]"
proof -
  let ?pos = "[hex_arg n, hex_arg a, hex_arg (unat r), hex_arg (unat v), ''b'']"
  note b = unat_u8_bounds
  note i = to_int_u8
  have m0: "uint m \<noteq> 0" using assms(4) by (simp add: uint_0_iff)
  have um: "\<not> 255 < uint w" for w :: "8 word" using uint_u8_range [of w] by linarith
  have fl: "i2cset_flags (''-y'' # ''-r'' # ''-m'' # hex_arg (unat m) # ?pos) fl =
      ret (fl\<lparr>sf_yes := True, sf_readback := True, sf_maskp := Some (hex_arg (unat m))\<rparr>, ?pos)" for fl
    by simp
  have md: "i2cset_mode ?pos mp = ret (I2C_SMBUS_BYTE_DATA, False)" for mp
    by (simp add: i2cset_mode_def NUL_def is_block_def)
  have vl: "i2cset_values ?pos I2C_SMBUS_BYTE_DATA = ret (uint v, [])"
    using strtol_hex_arg [OF b(2), of v] um [of v] by (simp add: i2cset_values_def i)
  have mk: "i2cset_mask (Some (hex_arg (unat m))) I2C_SMBUS_BYTE_DATA = ret (uint m)"
    using strtol_hex_arg [OF b(2), of m] um [of m] m0 by (simp add: i2cset_mask_def i)
  have "i2cset_main K (''-y'' # ''-r'' # ''-m'' # hex_arg (unat m) # ?pos) =
      i2cset_run K False True True (int n) (int a) I2C_SMBUS_BYTE_DATA (uint r) (uint v) (uint m) [] False"
    using assms(2,3) b [of r]
    by (simp add: i2cset_main_def fl lookup_hex_arg address_hex_arg daddress_hex_arg md vl mk
        del: i2cset_flags.simps)
  then show ?thesis
    using wp_exitD [OF i2cset_run_writes [OF assms(1)], of False True "int n" "int a" r v m s] assms(4)
    by (auto simp: set_result_def)
qed

theorem i2cset_masked_write_witness:
  "live_bus sim_kernel (\<lambda>w. w) \<and>
   (\<exists>t. i2cset_main sim_kernel [''-y'', ''-r'', ''-m'', hex_arg (unat (0x0f :: 8 word)), hex_arg 1,
        hex_arg 0x20, hex_arg (unat (7 :: 8 word)), hex_arg (unat (0xa5 :: 8 word)), ''b'']
        (sim_start []) = (Inl (Exit 0), t) \<and>
     world t = (world (sim_start []))(7 := 0x05))"
  using sim_live i2cset_masked_write [OF sim_live, of 1 "0x20" "0x0f" 7 "0xa5" "sim_start []"]
  by (auto simp: sim_start_def)

subsection \<open>Asking first\<close>

lemma wp_i2cset_check_funcs:
  assumes "setup_keeps K I" and "I (world s)"
  shows "wp (i2cset_check_funcs K f sz pec) (\<lambda>_ t. I (world t) \<and> stdin t = stdin s) E s"
proof -
  have "I (snd (k_funcs K f w))" if "I w" for w using assms(1) that by (simp add: setup_keeps_def)
  then have "I w" if "k_funcs K f (world s) = (x, w)" for x w using assms(2) that by (metis snd_conv)
  then show ?thesis
    by (auto simp: i2cset_check_funcs_def wp_simps wp_sys split: prod.splits sum.splits)
qed

text \<open>
  Without \<open>-y\<close>, a no from the user ends the run before any transaction; on the addresses of
  memory EEPROMs (0x50 to 0x57) an empty answer is a no.
\<close>

theorem i2cset_asks_first:
  assumes "setup_keeps K I" and "slave_keeps K I" and "I (world s)"
    and "\<not> ack_line (\<not> (0x50 \<le> a \<and> a \<le> 0x57)) (stdin s)"
  shows "I (world (snd (i2cset_run K force False rb bus a sz daddress value vmask block pec s)))"
proof -
  have no: "wp (i2cset_confirm fn a sz daddress value vmask block pec) (\<lambda>go t. \<not> go \<and> I (world t)) E t"
    if "I (world t)" "stdin t = stdin s" for fn t E
    using that assms(4)
    by (cases "0x50 \<le> a"; cases "a \<le> 0x57") (auto simp: i2cset_confirm_def Let_def wp_simps)
  have "wp (i2cset_run K force False rb bus a sz daddress value vmask block pec)
      (\<lambda>_ t. I (world t)) (\<lambda>_ t. I (world t)) s"
    unfolding i2cset_run_def wp_bind
    by (rule wp_mono [OF wp_setup_calls [OF assms(1,3)]])
      (auto simp: wp_simps intro!: wp_mono [OF wp_i2cset_check_funcs [OF assms(1)]]
        wp_mono [OF wp_set_slave_calls [OF assms(2)]] wp_mono [OF no])
  then show ?thesis by (rule wp_anyD)
qed

theorem i2cset_asks_first_witness:
  "world (snd (i2cset_run sim_kernel False False False 1 0x50 I2C_SMBUS_BYTE_DATA 7 0xaa 0 [] False
     (sim_start [nl]))) 7 = 8"
  using i2cset_asks_first [OF sim_keeps(1,2), where I = "\<lambda>w. w 7 = 8" and s = "sim_start [nl]"
      and a = "0x50"]
  by (simp add: sim_start_def ack_line_def)

subsection \<open>Reading a block back\<close>

lemma fmt_int_0x_minus_one: "fmt_int_0x 2 (- 1) = ''ffffffff''"
  by (simp add: fmt_int_0x_def fmt_0x_def pad0_def fmt_x_def digits_of.simps hexchar_def char_of_def bit_Suc_0_iff)

text \<open>
  In the block modes the value compared with the readback is the one that was never set (-1):
  whatever the chip holds, a successful block write with \<open>-r\<close> reports that the readback failed or
  that the data differ from 0xffffffff, never that it matched.
\<close>

theorem i2cset_block_readback:
  assumes "i2cset_values pos sz s0 = (Inr (value, block), s1)" and "is_block sz"
  shows "wp (i2cset_readback K f sz daddress value)
    (\<lambda>_ _. False)
    (\<lambda>c t. c = Exit 0 \<and>
       (stdout t = stdout s @ ''Warning - readback failed'' @ [nl] \<or>
        (\<exists>r. stdout t = stdout s @ ''Warning - data mismatch - wrote 0xffffffff, read back 0x'' @ r @ [nl])))
    s"
proof -
  have "gives UNIV (i2cset_values pos sz) (\<lambda>(v, b). v = - 1)"
    using assms(2) by (auto simp: i2cset_values_def is_block_def intro!: gives_rules gives_any)
  then have "value = - 1"
    using assms(1) by (auto simp: gives_def dest: wp_runD_ret)
  then show ?thesis
    using assms(2)
    by (auto simp: i2cset_readback_def is_block_def wp_simps val_width_def fmt_int_0x_minus_one
        wp_sys Let_def same_io_def split: prod.splits intro!: read_byte_data_wp)
qed

theorem i2cset_block_readback_witness:
  "wp (i2cset_readback sim_kernel 3 I2C_SMBUS_BLOCK_DATA 7 (- 1))
    (\<lambda>_ _. False)
    (\<lambda>c t. c = Exit 0 \<and>
       (stdout t = ''Warning - readback failed'' @ [nl] \<or>
        (\<exists>r. stdout t = ''Warning - data mismatch - wrote 0xffffffff, read back 0x'' @ r @ [nl])))
    (sim_start [])"
proof -
  have "i2cset_values [''1'', ''0x20'', ''7'', ''1'', ''s''] I2C_SMBUS_BLOCK_DATA (sim_start []) =
      (Inr (- 1, [1]), sim_start [])"
    by (simp add: i2cset_values_def is_block_def run_defs) code_simp
  from i2cset_block_readback [OF this, of sim_kernel 3 7 "sim_start []"] show ?thesis
    by (simp add: is_block_def sim_start_def)
qed

subsection \<open>Outcomes\<close>

lemma gives_parse_daddress: "Exit 1 \<in> C \<Longrightarrow> gives C (parse_daddress a) (\<lambda>_. True)"
  unfolding parse_daddress_def by (intro gives_rules) auto

lemma gives_i2cset_flags: "Exit 1 \<in> C \<Longrightarrow> gives C (i2cset_flags as fl) (\<lambda>_. True)"
  by (induction as fl rule: i2cset_flags.induct)
    (auto intro!: gives_rules simp: Let_def split: list.split)

lemma gives_i2cset_mode:
  "Exit 1 \<in> C \<Longrightarrow> gives C (i2cset_mode pos mp) (\<lambda>(sz, pec). is_block sz \<longrightarrow> length pos \<le> 36)"
  unfolding i2cset_mode_def Let_def
  by (auto intro!: gives_rules simp: is_block_def I2C_SMBUS_BLOCK_MAX_def)

lemma gives_i2cset_block:
  "Exit 1 \<in> C \<Longrightarrow> length as + length block \<le> 32 \<Longrightarrow> gives C (i2cset_block as block) (\<lambda>_. True)"
  by (induction as arbitrary: block)
    (auto intro!: gives_rules simp: Let_def I2C_SMBUS_BLOCK_MAX_def)

lemma gives_i2cset_values:
  "Exit 1 \<in> C \<Longrightarrow> (is_block sz \<Longrightarrow> length pos \<le> 36) \<Longrightarrow> gives C (i2cset_values pos sz) (\<lambda>_. True)"
  unfolding i2cset_values_def
  by (intro gives_rules gives_i2cset_block) auto

lemma gives_i2cset_mask: "Exit 1 \<in> C \<Longrightarrow> gives C (i2cset_mask mp sz) (\<lambda>_. True)"
  unfolding i2cset_mask_def by (intro gives_rules) auto

lemma gives_i2cset_write: "gives C (i2cset_write K f sz d v block) (\<lambda>_. True)"
proof -
  have "unat (word_of_nat (length block) :: 8 word) \<le> length block"
    by (simp add: unat_of_nat)
  then have "gives C (i2c_smbus_write_block_data K f c (word_of_nat (length block)) block) (\<lambda>_. True)"
    "gives C (i2c_smbus_write_i2c_block_data K f c (word_of_nat (length block)) block) (\<lambda>_. True)" for c
    by (auto simp: gives_def intro: write_block_wps)
  then show ?thesis
    by (cases sz) (auto simp: i2cset_write_def Let_def intro!: gives_rules)
qed

lemma gives_i2cset_run:
  assumes "Exit 0 \<in> C" "Exit 1 \<in> C" "0 \<le> bus" "bus < 2 ^ 31"
  shows "gives C (i2cset_run K force yes rb bus a sz d v vm block pec) (\<lambda>_. False)"
  unfolding i2cset_run_def i2cset_transfer_def i2cset_check_funcs_def i2cset_confirm_def
    i2cset_masked_def i2cset_readback_def
  by (intro gives_rules gives_open gives_i2cset_write assms) auto

text \<open>
  Whatever the arguments, and whatever the kernel answers, \<open>i2cset\<close> ends with status 0 or 1:
  it never stores a value outside the block of 32 bytes or a path outside its buffer.  (The bus is
  given by number; looking one up by name reads files the kernel provides.)
\<close>

theorem i2cset_defined:
  assumes "no_bus_lists K"
  shows "\<exists>c t. i2cset_main K args s = (Inl (Exit c), t) \<and> c \<in> {0, 1}"
proof -
  let ?C = "{Exit 0, Exit 1}"
  have "gives ?C (i2cset_main K args) (\<lambda>_. False)"
    unfolding i2cset_main_def
    by (intro gives_rules gives_i2cset_flags gives_bindP [OF gives_lookup [OF assms]]
        gives_bindP [OF gives_i2cset_mode] gives_parse_daddress gives_i2cset_mask gives_i2cset_run
        gives_mono [OF gives_parse_i2c_address] gives_i2cset_values) auto
  then show ?thesis by (fastforce dest: gives_exitD [where s = s])
qed
theorem i2cset_defined_witness:
  "no_bus_lists sim_kernel \<and>
   (\<exists>c t. i2cset_main sim_kernel [''-y'', ''1'', ''0x20'', ''7'', ''1'', ''2'', ''s''] (sim_start []) =
      (Inl (Exit c), t) \<and> c \<in> {0, 1})"
  using sim_no_bus_lists i2cset_defined [OF sim_no_bus_lists] by blast

end
