(* ===== verification/I2c_Detect.thy ===== *)
theory I2c_Detect
  imports I2c_Get
begin

unbundle bit_operations_syntax

text \<open>
  \<open>i2c-tools/tools/i2cdetect.c\<close>: probe the addresses of a bus and print a table of the ones that
  answer; list what the adapter implements (\<open>-F\<close>); list the adapters (\<open>-l\<close>).
\<close>

subsection \<open>The scan\<close>

datatype detect_mode = MODE_AUTO | MODE_QUICK | MODE_READ | MODE_FUNC

definition probe :: "'w kernel \<Rightarrow> int \<Rightarrow> detect_mode \<Rightarrow> int \<Rightarrow> ('w, int) i2c" where
  "probe K file mode a =
     (case mode of
        MODE_QUICK \<Rightarrow> i2c_smbus_write_quick K file I2C_SMBUS_WRITE
      | MODE_READ \<Rightarrow> i2c_smbus_read_byte K file
      | _ \<Rightarrow>
          if (a \<ge> 0x30 \<and> a \<le> 0x37) \<or> (a \<ge> 0x50 \<and> a \<le> 0x5F) then i2c_smbus_read_byte K file
          else i2c_smbus_write_quick K file I2C_SMBUS_WRITE)"

text \<open>One cell of the table; \<open>False\<close> is the early return of the function with \<open>-1\<close>.\<close>

definition scan_cell ::
  "'w kernel \<Rightarrow> int \<Rightarrow> detect_mode \<Rightarrow> int \<Rightarrow> int \<Rightarrow> int \<Rightarrow> ('w, bool) i2c" where
  "scan_cell K file mode first lst a =
     (if a < first \<or> a > lst then then_p (print ''   '') (ret True)
      else bind_p (sys (k_slave K file False a)) (\<lambda>r. case r of
        Some e \<Rightarrow>
          if e = EBUSY then then_p (print ''UU '') (ret True)
          else then_p (eprint (Set_addr_failed a e)) (ret False)
      | None \<Rightarrow>
          bind_p (probe K file mode a) (\<lambda>res.
          then_p (print (if res < 0 then ''-- '' else fmt_int_0x 2 a @ '' ''))
          (ret True))))"

definition scan_header :: string where
  "scan_header = ''     0  1  2  3  4  5  6  7  8  9  a  b  c  d  e  f'' @ [nl]"

definition scan_row ::
  "'w kernel \<Rightarrow> int \<Rightarrow> detect_mode \<Rightarrow> int \<Rightarrow> int \<Rightarrow> int \<Rightarrow> ('w, bool) i2c" where
  "scan_row K file mode first lst i =
     then_p (print (fmt_int_0x 2 i @ '': ''))
     (bind_p (all_p [0..15] (\<lambda>j. scan_cell K file mode first lst (i + j))) (\<lambda>ok.
      if ok then then_p (print [nl]) (ret True) else ret False))"

definition scan_i2c_bus ::
  "'w kernel \<Rightarrow> int \<Rightarrow> detect_mode \<Rightarrow> int \<Rightarrow> int \<Rightarrow> ('w, int) i2c" where
  "scan_i2c_bus K file mode first lst =
     then_p (print scan_header)
     (bind_p (all_p (map (\<lambda>k. 16 * k) [0..7]) (scan_row K file mode first lst)) (\<lambda>ok.
      ret (if ok then 0 else -1)))"

subsection \<open>Functionalities and adapters\<close>

definition all_func :: "(64 word \<times> string) list" where
  "all_func =
     [(I2C_FUNC_I2C, ''I2C''),
      (I2C_FUNC_SMBUS_QUICK, ''SMBus Quick Command''),
      (I2C_FUNC_SMBUS_WRITE_BYTE, ''SMBus Send Byte''),
      (I2C_FUNC_SMBUS_READ_BYTE, ''SMBus Receive Byte''),
      (I2C_FUNC_SMBUS_WRITE_BYTE_DATA, ''SMBus Write Byte''),
      (I2C_FUNC_SMBUS_READ_BYTE_DATA, ''SMBus Read Byte''),
      (I2C_FUNC_SMBUS_WRITE_WORD_DATA, ''SMBus Write Word''),
      (I2C_FUNC_SMBUS_READ_WORD_DATA, ''SMBus Read Word''),
      (I2C_FUNC_SMBUS_PROC_CALL, ''SMBus Process Call''),
      (I2C_FUNC_SMBUS_WRITE_BLOCK_DATA, ''SMBus Block Write''),
      (I2C_FUNC_SMBUS_READ_BLOCK_DATA, ''SMBus Block Read''),
      (I2C_FUNC_SMBUS_BLOCK_PROC_CALL, ''SMBus Block Process Call''),
      (I2C_FUNC_SMBUS_PEC, ''SMBus PEC''),
      (I2C_FUNC_SMBUS_WRITE_I2C_BLOCK, ''I2C Block Write''),
      (I2C_FUNC_SMBUS_READ_I2C_BLOCK, ''I2C Block Read''),
      (0, '''')]"

definition print_functionality :: "64 word \<Rightarrow> ('w, unit) i2c" where
  "print_functionality funcs =
     for_p (takeWhile (\<lambda>(v, n). v \<noteq> 0) all_func) (\<lambda>(v, n).
       print (fmt_ljust 32 n @ '' '' @ (if has_func funcs v then ''yes'' else ''no'') @ [nl]))"

abbreviation tab :: char where
  "tab \<equiv> CHR 0x09"

definition adapter_line :: "i2c_adap \<Rightarrow> string" where
  "adapter_line a = ''i2c-'' @ fmt_d (ad_nr a) @ [tab] @ fmt_ljust 10 (ad_funcs a) @ [tab] @
     fmt_ljust 32 (ad_name a) @ [tab] @ ad_algo a @ [nl]"

text \<open>The walk of the array up to its terminator.\<close>

fun print_adapters :: "adapters \<Rightarrow> ('w, unit) i2c" where
  "print_adapters [] = undef_p"
| "print_adapters (None # as) = ret ()"
| "print_adapters (Some a # as) = then_p (print (adapter_line a)) (print_adapters as)"

definition print_i2c_busses :: "'w kernel \<Rightarrow> ('w, unit) i2c" where
  "print_i2c_busses K =
     bind_p (gather_i2c_busses K) (\<lambda>r. case r of
       None \<Rightarrow> eprint Out_of_memory
     | Some adapters \<Rightarrow> print_adapters adapters)"

subsection \<open>The program\<close>

record detect_flags =
  df_mode :: detect_mode
  df_first :: int
  df_last :: int
  df_yes :: bool
  df_version :: bool
  df_list :: bool

definition different_modes :: "('w, 'a) i2c" where
  "different_modes = then_p (eprint (Detect_msg Different_modes)) (exit_p 1)"

fun i2cdetect_flags ::
  "string list \<Rightarrow> detect_flags \<Rightarrow> ('w, detect_flags \<times> string list) i2c" where
  "i2cdetect_flags [] fl = ret (fl, [])"
| "i2cdetect_flags (a # as) fl =
     (if char_at a 0 \<noteq> CHR ''-'' then ret (fl, a # as)
      else (let c = char_at a 1 in
            if c = CHR ''V'' then i2cdetect_flags as (fl\<lparr>df_version := True\<rparr>)
            else if c = CHR ''y'' then i2cdetect_flags as (fl\<lparr>df_yes := True\<rparr>)
            else if c = CHR ''l'' then i2cdetect_flags as (fl\<lparr>df_list := True\<rparr>)
            else if c = CHR ''F'' then
              (if df_mode fl \<noteq> MODE_AUTO \<and> df_mode fl \<noteq> MODE_FUNC then different_modes
               else i2cdetect_flags as (fl\<lparr>df_mode := MODE_FUNC\<rparr>))
            else if c = CHR ''r'' then
              (if df_mode fl = MODE_QUICK then different_modes
               else i2cdetect_flags as (fl\<lparr>df_mode := MODE_READ\<rparr>))
            else if c = CHR ''q'' then
              (if df_mode fl = MODE_READ then different_modes
               else i2cdetect_flags as (fl\<lparr>df_mode := MODE_QUICK\<rparr>))
            else if c = CHR ''a'' then
              i2cdetect_flags as (fl\<lparr>df_first := 0x00, df_last := 0x7F\<rparr>)
            else then_p (eprint (Unsupported_option a)) i2c_help))"

text \<open>One end of the address range, within the bounds given.\<close>

definition range_end ::
  "i2c_diag \<Rightarrow> i2c_diag \<Rightarrow> int \<Rightarrow> int \<Rightarrow> string \<Rightarrow> ('w, int) i2c" where
  "range_end bad out first lst arg =
     (case strtol arg 0 of (v, end) \<Rightarrow>
      let tmp = to_int v in
      if end \<noteq> [] then then_p (eprint bad) i2c_help
      else if tmp < first \<or> tmp > lst then then_p (eprint out) i2c_help
      else ret tmp)"

definition i2cdetect_range ::
  "detect_mode \<Rightarrow> int \<Rightarrow> int \<Rightarrow> string list \<Rightarrow> ('w, int \<times> int) i2c" where
  "i2cdetect_range mode first lst pos =
     (if length pos = 3 \<and> mode \<noteq> MODE_FUNC then
        bind_p (range_end (Detect_msg First_not_number) (Detect_msg (First_out_of_range first lst))
                  first lst (pos ! 1)) (\<lambda>first.
        bind_p (range_end (Detect_msg Last_not_number) (Detect_msg (Last_out_of_range first lst))
                  first lst (pos ! 2)) (\<lambda>lst.
        ret (first, lst)))
      else if length pos \<noteq> 1 then i2c_help
      else ret (first, lst))"

definition i2cdetect_confirm :: "string \<Rightarrow> detect_mode \<Rightarrow> int \<Rightarrow> int \<Rightarrow> ('w, unit) i2c" where
  "i2cdetect_confirm filename mode first lst =
     then_p (eprint Confuse_warning)
     (then_p (eprint (Detect_msg (Will_probe filename
        (if mode = MODE_QUICK then '' using quick write commands''
         else if mode = MODE_READ then '' using read byte commands'' else ''''))))
     (then_p (eprint (Detect_msg (Will_probe_range first lst)))
     (then_p (eprint (Continue True))
     (bind_p (fgets_stdin 2) (\<lambda>l. case l of
        None \<Rightarrow> then_p (eprint Aborting) (exit_p 0)
      | Some s \<Rightarrow>
          if char_at s 0 \<noteq> nl \<and> char_at s 0 \<noteq> CHR ''y'' \<and> char_at s 0 \<noteq> CHR ''Y''
          then then_p (eprint Aborting) (exit_p 0) else ret ())))))"

definition i2cdetect_run ::
  "'w kernel \<Rightarrow> bool \<Rightarrow> int \<Rightarrow> detect_mode \<Rightarrow> int \<Rightarrow> int \<Rightarrow> ('w, unit) i2c" where
  "i2cdetect_run K yes i2cbus mode first lst =
     bind_p (open_i2c_dev K i2cbus 20 False) (\<lambda>(file, filename).
     if file < 0 then exit_p 1 else
     bind_p (sys (k_funcs K file)) (\<lambda>r. case r of
       Inl e \<Rightarrow> then_p (eprint (Funcs_failed e)) (then_p (sys (k_close K file)) (exit_p 1))
     | Inr funcs \<Rightarrow>
         if mode = MODE_FUNC then
           then_p (sys (k_close K file))
           (then_p (print (''Functionalities implemented by '' @ filename @ '':'' @ [nl]))
           (then_p (print_functionality funcs) (exit_p 0)))
         else if mode \<noteq> MODE_READ \<and> \<not> has_func funcs I2C_FUNC_SMBUS_QUICK then
           then_p (eprint (Detect_msg No_quick)) (then_p (sys (k_close K file)) (exit_p 1))
         else if mode \<noteq> MODE_QUICK \<and> \<not> has_func funcs I2C_FUNC_SMBUS_READ_BYTE then
           then_p (eprint (Detect_msg No_read_byte)) (then_p (sys (k_close K file)) (exit_p 1))
         else
           then_p (if yes then ret () else i2cdetect_confirm filename mode first lst)
           (bind_p (scan_i2c_bus K file mode first lst) (\<lambda>res.
            then_p (sys (k_close K file)) (exit_p (if res \<noteq> 0 then 1 else 0))))))"

definition i2cdetect_main :: "'w kernel \<Rightarrow> string list \<Rightarrow> ('w, unit) i2c" where
  "i2cdetect_main K args =
     bind_p (i2cdetect_flags args \<lparr>df_mode = MODE_AUTO, df_first = 0x00, df_last = 0x80,
               df_yes = False, df_version = False, df_list = False\<rparr>) (\<lambda>(fl, pos).
     if df_version fl then then_p (eprint Version_info) (exit_p 0)
     else if df_list fl then then_p (print_i2c_busses K) (exit_p 0)
     else if length pos < 1 then then_p (eprint No_bus) i2c_help
     else
       bind_p (lookup_i2c_bus K (pos ! 0)) (\<lambda>i2cbus. if i2cbus < 0 then i2c_help else
       bind_p (i2cdetect_range (df_mode fl) (df_first fl) (df_last fl) pos) (\<lambda>(first, lst).
         i2cdetect_run K (df_yes fl) i2cbus (df_mode fl) first lst)))"

subsection \<open>The table\<close>

text \<open>
  A bus with chips on it: selecting an address tells whether a driver is using it, and a probe of
  the selected address succeeds when a chip answers there.
\<close>

definition quick_req :: i2c_smbus_ioctl_data where
  "quick_req = \<lparr>a_read_write = I2C_SMBUS_WRITE, a_command = 0, a_size = I2C_SMBUS_QUICK, a_data = None\<rparr>"

definition byte_req :: i2c_smbus_ioctl_data where
  "byte_req = \<lparr>a_read_write = I2C_SMBUS_READ, a_command = 0, a_size = I2C_SMBUS_BYTE,
     a_data = Some uninit_data\<rparr>"

definition scan_bus ::
  "'w kernel \<Rightarrow> int \<Rightarrow> (int \<Rightarrow> bool) \<Rightarrow> (int \<Rightarrow> bool) \<Rightarrow> ('w \<Rightarrow> int) \<Rightarrow> bool" where
  "scan_bus K file busy ack cur \<longleftrightarrow>
     (\<forall>a w. \<exists>w'. k_slave K file False a w = (if busy a then Some EBUSY else None, w') \<and>
        (\<not> busy a \<longrightarrow> cur w' = a)) \<and>
     (\<forall>w. \<forall>r \<in> {quick_req, byte_req}. (\<exists>d. fst (k_smbus K file r w) = Inr d) \<longleftrightarrow> ack (cur w))"

text \<open>The table the tool prints of such a bus.\<close>

definition cell_text :: "int \<Rightarrow> int \<Rightarrow> (int \<Rightarrow> bool) \<Rightarrow> (int \<Rightarrow> bool) \<Rightarrow> int \<Rightarrow> string" where
  "cell_text first lst busy ack a =
     (if a < first \<or> lst < a then ''   '' else if busy a then ''UU ''
      else if ack a then fmt_int_0x 2 a @ '' '' else ''-- '')"

definition row_text :: "int \<Rightarrow> int \<Rightarrow> (int \<Rightarrow> bool) \<Rightarrow> (int \<Rightarrow> bool) \<Rightarrow> int \<Rightarrow> string" where
  "row_text first lst busy ack i =
     fmt_int_0x 2 i @ '': '' @ concat (map (\<lambda>j. cell_text first lst busy ack (i + j)) [0..15]) @ [nl]"

definition detect_table :: "int \<Rightarrow> int \<Rightarrow> (int \<Rightarrow> bool) \<Rightarrow> (int \<Rightarrow> bool) \<Rightarrow> string" where
  "detect_table first lst busy ack =
     scan_header @ concat (map (row_text first lst busy ack) (map (\<lambda>k. 16 * k) [0..7]))"

lemma wp_quick:
  "wp (i2c_smbus_write_quick K f I2C_SMBUS_WRITE) Q E s =
     (case k_smbus K f quick_req (world s) of
        (Inl e, w) \<Rightarrow> Q (- 1) (s\<lparr>world := w\<rparr>) | (Inr d, w) \<Rightarrow> Q 0 (s\<lparr>world := w\<rparr>))"
  by (simp add: i2c_smbus_write_quick_def wp_simps wp_access quick_req_def split: prod.splits sum.splits)

lemma wp_read_byte:
  "wp (i2c_smbus_read_byte K f) Q E s =
     (case k_smbus K f byte_req (world s) of
        (Inl e, w) \<Rightarrow> Q (- 1) (s\<lparr>world := w\<rparr>) | (Inr d, w) \<Rightarrow> Q (uint (d_byte d)) (s\<lparr>world := w\<rparr>))"
  by (simp add: i2c_smbus_read_byte_def wp_simps wp_access byte_req_def split: prod.splits sum.splits)

lemma probe_ack:
  assumes "scan_bus K f busy ack cur" and "cur (world s) = a"
  shows "wp (probe K f mode a) (\<lambda>r t. (r < 0) = (\<not> ack a) \<and> stdout t = stdout s) E s"
proof -
  have "(\<exists>d. fst (k_smbus K f r (world s)) = Inr d) \<longleftrightarrow> ack a" if "r \<in> {quick_req, byte_req}" for r
    using assms that unfolding scan_bus_def by metis
  from this [of quick_req] this [of byte_req] show ?thesis
    by (auto simp: probe_def wp_quick wp_read_byte split: prod.splits sum.splits detect_mode.split)
qed

lemma scan_cell_prints:
  assumes "scan_bus K f busy ack cur"
  shows "wp (scan_cell K f mode first lst a)
    (\<lambda>ok t. ok \<and> stdout t = stdout s @ cell_text first lst busy ack a) E s"
proof -
  obtain w where "k_slave K f False a (world s) = (if busy a then Some EBUSY else None, w)"
    "\<not> busy a \<longrightarrow> cur w = a"
    using assms unfolding scan_bus_def by blast
  then show ?thesis
    by (auto simp: scan_cell_def cell_text_def wp_simps wp_sys intro!: wp_mono [OF probe_ack [OF assms]])
qed

lemma scan_prints:
  assumes "scan_bus K f busy ack cur"
  shows "wp (scan_i2c_bus K f mode first lst)
    (\<lambda>r t. r = 0 \<and> stdout t = stdout s @ detect_table first lst busy ack) E s"
proof -
  let ?row = "row_text first lst busy ack"
  have row: "wp (scan_row K f mode first lst i) (\<lambda>ok u. ok \<and> stdout u = stdout t @ ?row i) E t" for i t
    unfolding scan_row_def wp_then wp_print wp_bind
    by (rule wp_mono [OF wp_all_prints [where I = "\<lambda>_. True"
            and g = "\<lambda>j. cell_text first lst busy ack (i + j)"]])
      (auto simp: wp_simps row_text_def scan_cell_prints [OF assms])
  show ?thesis
    unfolding scan_i2c_bus_def wp_then wp_print wp_bind
    by (rule wp_mono [OF wp_all_prints [where I = "\<lambda>_. True" and g = ?row]])
      (auto simp: wp_simps detect_table_def row)
qed

definition scan_kernel ::
  "'w kernel \<Rightarrow> (int \<Rightarrow> bool) \<Rightarrow> (int \<Rightarrow> bool) \<Rightarrow> ('w \<Rightarrow> int) \<Rightarrow> bool" where
  "scan_kernel K busy ack cur \<longleftrightarrow>
     (\<forall>p w. \<exists>fd w'. k_open K p w = (Inr fd, w')) \<and>
     (\<forall>f w. \<exists>fs w'. k_funcs K f w = (Inr fs, w') \<and> all_funcs fs) \<and>
     (\<forall>f. scan_bus K f busy ack cur)"

text \<open>
  C27.  \<open>i2cdetect -y BUS FIRST LAST\<close> prints the table of the bus: a cell for each of the 128
  addresses, blank outside the range, \<open>UU\<close> where a driver holds the address, the address where a
  chip answers and \<open>--\<close> where none does; and it exits with status 0.
\<close>

theorem i2cdetect_prints_table:
  assumes "scan_kernel K busy ack cur" and "n \<le> 0xFFFFF" and "a \<le> b" and "b \<le> 0x80"
  shows "\<exists>t. i2cdetect_main K [''-y'', hex_arg n, hex_arg a, hex_arg b] s = (Inl (Exit 0), t) \<and>
     stdout t = stdout s @ detect_table (int a) (int b) busy ack"
proof -
  have i: "to_int (int k) = int k" if "k \<le> 0x80" for k
    by (rule to_int_id) (use that in simp_all)
  have st: "strtol (hex_arg k) 0 = (int k, [])" if "k \<le> 0x80" for k
    by (rule strtol_hex_arg) (use that in simp)
  let ?pos = "[hex_arg n, hex_arg a, hex_arg b]"
  have rg: "i2cdetect_range MODE_AUTO 0 128 ?pos = ret (int a, int b)"
    using assms(3,4) i st by (simp add: i2cdetect_range_def range_end_def)
  have "wp (i2cdetect_run K True (int n) MODE_AUTO (int a) (int b)) (\<lambda>_ _. False)
      (\<lambda>c t. c = Exit 0 \<and> stdout t = stdout s @ detect_table (int a) (int b) busy ack) s"
  proof -
    obtain fd w fs w' where o: "k_open K (take 19 (''/dev/i2c/'' @ fmt_d (int n))) (world s) = (Inr fd, w)"
      and f: "k_funcs K (int fd) w = (Inr fs, w')" "all_funcs fs"
      using assms(1) unfolding scan_kernel_def by metis
    have sc: "scan_bus K (int fd) busy ack cur" using assms(1) by (simp add: scan_kernel_def)
    show ?thesis
      unfolding i2cdetect_run_def open_i2c_dev_def
      using o f
      by (auto simp: wp_simps wp_sys all_funcs_def intro!: wp_mono [OF scan_prints [OF sc, where E = "\<lambda>_ _. False"]]
          split: prod.splits)
  qed
  moreover have "i2cdetect_main K (''-y'' # ?pos) = i2cdetect_run K True (int n) MODE_AUTO (int a) (int b)"
    using assms(2) by (simp add: i2cdetect_main_def lookup_hex_arg rg)
  ultimately show ?thesis by (auto dest: wp_exitD)
qed

text \<open>A simulated bus: the world is the selected address and the log of the probes made.\<close>

type_synonym bus_sim = "int \<times> (int \<times> smbus_size) list"

definition bus_kernel :: "(int \<Rightarrow> bool) \<Rightarrow> (int \<Rightarrow> bool) \<Rightarrow> bus_sim kernel" where
  "bus_kernel busy ack =
     \<lparr>k_open = (\<lambda>p w. (Inr 3, w)), k_close = (\<lambda>f w. ((), w)), k_funcs = (\<lambda>f w. (Inr (- 1), w)),
      k_slave = (\<lambda>f b a w. if busy a then (Some EBUSY, w) else (None, (a, snd w))),
      k_pec = (\<lambda>f b w. (None, w)),
      k_smbus = (\<lambda>f r w. (if ack (fst w) then Inr uninit_data else Inl 6,
                          (fst w, snd w @ [(fst w, a_size r)]))),
      k_malloc = (\<lambda>w. (True, w)), k_file = (\<lambda>p w. None), k_dir = (\<lambda>p w. None)\<rparr>"

definition bus_start :: "string \<Rightarrow> (bus_sim, i2c_diag) proc" where
  "bus_start inp = \<lparr>world = (0, []), stdin = inp, stdout = [], stderr = []\<rparr>"

lemma bus_scan_kernel: "scan_kernel (bus_kernel busy ack) busy ack fst"
  by (auto simp: scan_kernel_def scan_bus_def bus_kernel_def all_funcs_m1)

theorem i2cdetect_prints_table_witness:
  "scan_kernel (bus_kernel (\<lambda>a. a = 0x4c) (\<lambda>a. a = 0x20)) (\<lambda>a. a = 0x4c) (\<lambda>a. a = 0x20) fst \<and>
   (\<exists>t. i2cdetect_main (bus_kernel (\<lambda>a. a = 0x4c) (\<lambda>a. a = 0x20))
        [''-y'', hex_arg 1, hex_arg 3, hex_arg 0x77] (bus_start []) = (Inl (Exit 0), t) \<and>
     stdout t = stdout (bus_start []) @
       detect_table (int 3) (int 0x77) (\<lambda>a. a = 0x4c) (\<lambda>a. a = 0x20))"
  using bus_scan_kernel i2cdetect_prints_table [OF bus_scan_kernel, of 1 3 "0x77"] by simp

subsection \<open>What is probed, and how\<close>

text \<open>Addresses where a quick write could do harm: memory EEPROMs and their write protection.\<close>

definition write_hazard :: "int \<Rightarrow> bool" where
  "write_hazard a \<longleftrightarrow> (0x30 \<le> a \<and> a \<le> 0x37) \<or> (0x50 \<le> a \<and> a \<le> 0x5F)"

text \<open>
  C28.  In the default mode, the addresses selected are those of the range (and below 128), and
  the probe of a selected address is a quick write only where that is harmless, a read of a byte
  elsewhere.  Said with an invariant of the outside world: \<open>J a\<close> holds while \<open>a\<close> is selected; if
  the probes the rule allows at \<open>a\<close> keep \<open>I\<close>, the run keeps \<open>I\<close>.
\<close>

theorem i2cdetect_safe_probes:
  assumes up: "setup_keeps K I"
    and select: "\<And>w f a. I w \<Longrightarrow> first \<le> a \<Longrightarrow> a \<le> lst \<Longrightarrow> 0 \<le> a \<Longrightarrow> a < 128 \<Longrightarrow>
        (case k_slave K f False a w of (None, w') \<Rightarrow> J a w' | (Some e, w') \<Rightarrow> I w')"
    and quick: "\<And>w f a. J a w \<Longrightarrow> \<not> write_hazard a \<Longrightarrow> I (snd (k_smbus K f quick_req w))"
    and byte: "\<And>w f a. J a w \<Longrightarrow> write_hazard a \<Longrightarrow> I (snd (k_smbus K f byte_req w))"
  shows "keeps I (i2cdetect_run K yes bus MODE_AUTO first lst)"
proof -
  have "keeps I (scan_cell K f MODE_AUTO first lst a)" if "0 \<le> a" "a < 128" for f a
  proof (rule keeps_wpI)
    fix s :: "('a, i2c_diag) proc" assume "I (world s)"
    from select [OF this _ _ that, where f = f]
    show "wp (scan_cell K f MODE_AUTO first lst a) (\<lambda>_ t. I (world t)) (\<lambda>_ t. I (world t)) s"
      using \<open>I (world s)\<close> quick [where f = f and a = a] byte [where f = f and a = a]
      by (auto simp: scan_cell_def probe_def wp_simps wp_sys wp_quick wp_read_byte write_hazard_def
          split: prod.splits sum.splits option.splits) (metis snd_conv)+
  qed
  then have scan: "keeps I (scan_i2c_bus K f MODE_AUTO first lst)" for f
    unfolding scan_i2c_bus_def scan_row_def by (intro keeps_rules) auto
  show ?thesis
    unfolding i2cdetect_run_def i2cdetect_confirm_def print_functionality_def
    by (intro keeps_rules up scan)
qed

theorem i2cdetect_safe_probes_witness:
  "list_all (\<lambda>(a, sz). 3 \<le> a \<and> a \<le> 0x77 \<and> \<not> (sz = I2C_SMBUS_QUICK \<and> write_hazard a))
     (snd (world (snd (i2cdetect_run (bus_kernel (\<lambda>a. a = 0x4c) (\<lambda>a. a = 0x20)) True 1
        MODE_AUTO 3 0x77 (bus_start [])))))"
proof -
  let ?K = "bus_kernel (\<lambda>a. a = 0x4c) (\<lambda>a. a = 0x20)"
  let ?I = "\<lambda>w. list_all (\<lambda>(a, sz). 3 \<le> a \<and> a \<le> 0x77 \<and> \<not> (sz = I2C_SMBUS_QUICK \<and> write_hazard a)) (snd w)"
  have "keeps ?I (i2cdetect_run ?K True 1 MODE_AUTO 3 0x77)"
    by (rule i2cdetect_safe_probes [where J = "\<lambda>a w. ?I w \<and> fst w = a \<and> 3 \<le> a \<and> a \<le> 0x77"])
      (auto simp: setup_keeps_def bus_kernel_def quick_req_def byte_req_def)
  moreover have "?I (world (bus_start []))" by (simp add: bus_start_def)
  ultimately show ?thesis unfolding keeps_def by blast
qed

text \<open>
  Without \<open>-y\<close>, an answer that is not an empty line and does not start with \<open>y\<close> or \<open>Y\<close>, or
  no answer, ends the run before an address is selected: an invariant of the calls that open the
  bus is an invariant of the run.
\<close>

theorem i2cdetect_asks_first:
  assumes "setup_keeps K I" and "I (world s)" and "mode \<noteq> MODE_FUNC"
    and "stdin s = [] \<or> hd (stdin s) \<notin> {nl, CHR ''y'', CHR ''Y''}"
  shows "I (world (snd (i2cdetect_run K False bus mode first lst s)))"
proof -
  have no: "wp (i2cdetect_confirm fn md first lst) (\<lambda>_ _. False) (\<lambda>_ t. I (world t)) t"
    if "I (world t)" "stdin t = stdin s" for fn md t
    using that assms(4)
    by (cases "stdin s")
      (auto simp: i2cdetect_confirm_def wp_simps fgets_stdin_def fgets_def wp_def [of "fgets_stdin 2"])
  have k: "I (snd (k_funcs K f w))" "I (snd (k_close K f w))" if "I w" for f w
    using assms(1) that by (simp_all add: setup_keeps_def)
  have "wp (i2cdetect_run K False bus mode first lst) (\<lambda>_ t. I (world t)) (\<lambda>_ t. I (world t)) s"
    unfolding i2cdetect_run_def wp_bind
    by (rule wp_mono [OF wp_setup_calls [OF assms(1,2)]])
      (auto simp: wp_simps assms(3) intro!: wp_mono [OF no] wp_sys_keeps [where I = I, OF k(1)]
        wp_sys_keeps [where I = I, OF k(2)] split: sum.split)
  then show ?thesis by (rule wp_anyD)
qed

theorem i2cdetect_asks_first_witness:
  "world (snd (i2cdetect_run (bus_kernel (\<lambda>a. False) (\<lambda>a. True)) False 1 MODE_AUTO 3 0x77
     (bus_start ''no''))) = (0, [])"
  using i2cdetect_asks_first [of "bus_kernel (\<lambda>a. False) (\<lambda>a. True)" "\<lambda>w. w = (0, [])"
      "bus_start ''no''" MODE_AUTO]
  by (simp add: setup_keeps_def bus_kernel_def bus_start_def)

subsection \<open>Outcomes\<close>

lemma gives_i2cdetect_flags: "Exit 1 \<in> C \<Longrightarrow> gives C (i2cdetect_flags as fl) (\<lambda>_. True)"
  by (induction as fl rule: i2cdetect_flags.induct)
    (auto intro!: gives_rules simp: Let_def different_modes_def i2c_help_def)

lemma gives_i2cdetect_range: "Exit 1 \<in> C \<Longrightarrow> gives C (i2cdetect_range mode first lst pos) (\<lambda>_. True)"
  unfolding i2cdetect_range_def range_end_def i2c_help_def by (intro gives_rules) auto

lemma gives_i2cdetect_run:
  assumes "Exit 0 \<in> C" "Exit 1 \<in> C" "0 \<le> bus" "bus < 2 ^ 31"
  shows "gives C (i2cdetect_run K yes bus mode first lst) (\<lambda>_. False)"
  unfolding i2cdetect_run_def scan_i2c_bus_def scan_row_def scan_cell_def i2cdetect_confirm_def
    print_functionality_def
  by (intro gives_rules gives_open assms) (auto simp: assms probe_def split: detect_mode.split intro!: gives_rules)

text \<open>
  \<open>i2cdetect\<close> ends with status 0 or 1 whatever its arguments and the answers of the kernel.
\<close>

theorem i2cdetect_defined:
  assumes "no_bus_lists K"
  shows "\<exists>c t. i2cdetect_main K args s = (Inl (Exit c), t) \<and> c \<in> {0, 1}"
proof -
  let ?C = "{Exit 0, Exit 1}"
  have "gives ?C (gather_i2c_busses K) (\<lambda>r. r = None \<or> r = Some (replicate BUNCH None))"
    by (rule gives_gather [OF assms])
  then have "gives ?C (print_i2c_busses K) (\<lambda>_. True)"
    unfolding print_i2c_busses_def
    by (rule gives_bindP) (auto intro!: gives_rules simp: BUNCH_def numeral_eq_Suc)
  then have "gives ?C (i2cdetect_main K args) (\<lambda>_. False)"
    unfolding i2cdetect_main_def i2c_help_def
    by (intro gives_rules gives_i2cdetect_flags gives_bindP [OF gives_lookup [OF assms]]
        gives_i2cdetect_range gives_i2cdetect_run) auto
  then show ?thesis by (fastforce dest: gives_exitD [where s = s])
qed

theorem i2cdetect_defined_witness:
  "no_bus_lists sim_kernel \<and>
   (\<exists>c t. i2cdetect_main sim_kernel [''-r'', ''-F'', ''1''] (sim_start []) = (Inl (Exit c), t) \<and>
      c \<in> {0, 1})"
  using sim_no_bus_lists i2cdetect_defined [OF sim_no_bus_lists] by blast

text \<open>The array \<open>-l\<close> prints is the one the gathering built: the walk stops at its terminator.\<close>

lemma print_adapters_all:
  assumes "adapters_inv arr as"
  shows "wp (print_adapters arr) (\<lambda>_ t. stdout t = stdout s @ concat (map adapter_line as)) E s"
proof -
  have "wp (print_adapters (map Some as @ None # ys))
      (\<lambda>_ t. stdout t = stdout s @ concat (map adapter_line as)) E s" for ys
  proof (induction as arbitrary: s)
    case (Cons a as)
    show ?case
      using Cons.IH [of "s\<lparr>stdout := stdout s @ adapter_line a\<rparr>"] by (simp add: wp_simps)
  qed (simp add: wp_simps)
  moreover obtain k where "BUNCH * (length as div BUNCH + 1) - length as = Suc k"
    using bunch_room [of as] by (metis Suc_diff_Suc)
  ultimately show ?thesis using assms by (simp add: adapters_inv_def)
qed

end
