(* ===== verification/I2c_Dump.thy ===== *)
theory I2c_Dump
  imports I2c_Get
begin

unbundle bit_operations_syntax

text \<open>
  \<open>i2c-tools/tools/i2cdump.c\<close>: print the registers of a chip as a table, by byte, word or block
  transactions, of a bank that is switched to first and switched back after.  The arrays of the
  source (\<open>block[256]\<close>, \<open>cblock[288]\<close>) are modelled with their bounds and with entries that are
  not yet set.
\<close>

subsection \<open>Arguments\<close>

record dump_flags =
  uf_force :: bool
  uf_yes :: bool
  uf_version :: bool
  uf_range :: "string option"

fun i2cdump_flags :: "string list \<Rightarrow> dump_flags \<Rightarrow> ('w, dump_flags \<times> string list) i2c" where
  "i2cdump_flags [] fl = ret (fl, [])"
| "i2cdump_flags (a # as) fl =
     (if char_at a 0 \<noteq> CHR ''-'' then ret (fl, a # as)
      else (let c = char_at a 1 in
            if c = CHR ''V'' then i2cdump_flags as (fl\<lparr>uf_version := True\<rparr>)
            else if c = CHR ''f'' then i2cdump_flags as (fl\<lparr>uf_force := True\<rparr>)
            else if c = CHR ''r'' then
              (case as of [] \<Rightarrow> ret (fl\<lparr>uf_range := None\<rparr>, [])
               | r # as' \<Rightarrow> i2cdump_flags as' (fl\<lparr>uf_range := Some r\<rparr>))
            else if c = CHR ''y'' then i2cdump_flags as (fl\<lparr>uf_yes := True\<rparr>)
            else then_p (eprint (Unsupported_option a)) i2c_help))"

text \<open>The kind of access, whether with PEC, and whether only even registers are read.\<close>

definition i2cdump_mode :: "string list \<Rightarrow> ('w, smbus_size \<times> bool \<times> bool) i2c" where
  "i2cdump_mode pos =
     (if length pos < 3 then then_p (eprint (Dump_msg No_size)) (ret (I2C_SMBUS_BYTE_DATA, False, False))
      else (let m = pos ! 2; c = char_at m 0; pec = (char_at m 1 = CHR ''p'') in
        if c = CHR ''b'' then ret (I2C_SMBUS_BYTE_DATA, pec, False)
        else if c = CHR ''w'' then ret (I2C_SMBUS_WORD_DATA, pec, False)
        else if c = CHR ''W'' then ret (I2C_SMBUS_WORD_DATA, False, True)
        else if c = CHR ''s'' then ret (I2C_SMBUS_BLOCK_DATA, pec, False)
        else if c = CHR ''c'' then ret (I2C_SMBUS_BYTE, pec, False)
        else if m = ''i'' then ret (I2C_SMBUS_I2C_BLOCK_DATA, False, False)
        else then_p (eprint Invalid_mode) i2c_help))"

definition i2cdump_bankreg :: "string list \<Rightarrow> smbus_size \<Rightarrow> ('w, int) i2c" where
  "i2cdump_bankreg pos sz =
     (if length pos > 4 then
        (case strtol (pos ! 4) 0 of (v, end) \<Rightarrow>
         let bankreg = to_int v in
         if end \<noteq> [] \<or> sz = I2C_SMBUS_BLOCK_DATA then
           then_p (eprint (Dump_msg Invalid_bank_register)) i2c_help
         else if bankreg < 0 \<or> bankreg > 0xff then
           then_p (eprint (Dump_msg Bankreg_out_of_range)) i2c_help
         else ret bankreg)
      else ret 0x4E)"

definition i2cdump_bank :: "string list \<Rightarrow> smbus_size \<Rightarrow> ('w, int \<times> int) i2c" where
  "i2cdump_bank pos sz =
     (if length pos > 3 then
        (case strtol (pos ! 3) 0 of (v, end) \<Rightarrow>
         let bank = to_int v in
         if end \<noteq> [] \<or> sz = I2C_SMBUS_I2C_BLOCK_DATA then
           then_p (eprint (Dump_msg Invalid_bank)) i2c_help
         else if (sz = I2C_SMBUS_BYTE_DATA \<or> sz = I2C_SMBUS_WORD_DATA) \<and> (bank < 0 \<or> bank > 15) then
           then_p (eprint (Dump_msg Bank_out_of_range)) i2c_help
         else if sz = I2C_SMBUS_BLOCK_DATA \<and> (bank < 0 \<or> bank > 0xff) then
           then_p (eprint (Dump_msg Command_out_of_range)) i2c_help
         else bind_p (i2cdump_bankreg pos sz) (\<lambda>bankreg. ret (bank, bankreg)))
      else ret (0, 0x4E))"

text \<open>The range \<open>first-last\<close>; the mode has to be able to honour it.\<close>

definition i2cdump_range :: "string option \<Rightarrow> smbus_size \<Rightarrow> bool \<Rightarrow> ('w, int \<times> int) i2c" where
  "i2cdump_range rng sz evn =
     (case rng of
        None \<Rightarrow> ret (0x00, 0xff)
      | Some r \<Rightarrow>
          (case strtol r 0 of (v, dash) \<Rightarrow>
           let first = to_int v in
           if length dash = length r \<or> char_at dash 0 \<noteq> CHR ''-'' \<or> first < 0 \<or> first > 0xff then
             then_p (eprint (Dump_msg Invalid_range)) (exit_p 1)
           else
             (case strtol (tl dash) 0 of (v, end) \<Rightarrow>
              let lst = to_int v in
              if length end = length (tl dash) \<or> end \<noteq> [] \<or> lst < first \<or> lst > 0xff then
                then_p (eprint (Dump_msg Invalid_range)) (exit_p 1)
              else if sz = I2C_SMBUS_BYTE \<or> sz = I2C_SMBUS_BYTE_DATA \<or>
                      (sz = I2C_SMBUS_WORD_DATA \<and> (\<not> evn \<or> (first mod 2 = 0 \<and> lst mod 2 \<noteq> 0))) then
                ret (first, lst)
              else then_p (eprint (Dump_msg Range_mode_mismatch)) (exit_p 1))))"

subsection \<open>Setting the session up\<close>

definition i2cdump_check_funcs :: "'w kernel \<Rightarrow> int \<Rightarrow> smbus_size \<Rightarrow> bool \<Rightarrow> ('w, int) i2c" where
  "i2cdump_check_funcs K file sz pec =
     bind_p (sys (k_funcs K file)) (\<lambda>r. case r of
       Inl e \<Rightarrow> then_p (eprint (Funcs_failed e)) (ret (-1))
     | Inr funcs \<Rightarrow>
         if sz = I2C_SMBUS_BYTE \<and> \<not> has_func funcs I2C_FUNC_SMBUS_READ_BYTE then
           then_p (eprint (Missing_func ''SMBus receive byte'')) (ret (-1))
         else if sz = I2C_SMBUS_BYTE \<and> \<not> has_func funcs I2C_FUNC_SMBUS_WRITE_BYTE then
           then_p (eprint (Missing_func ''SMBus send byte'')) (ret (-1))
         else if sz = I2C_SMBUS_BYTE_DATA \<and> \<not> has_func funcs I2C_FUNC_SMBUS_READ_BYTE_DATA then
           then_p (eprint (Missing_func ''SMBus read byte'')) (ret (-1))
         else if sz = I2C_SMBUS_WORD_DATA \<and> \<not> has_func funcs I2C_FUNC_SMBUS_READ_WORD_DATA then
           then_p (eprint (Missing_func ''SMBus read word'')) (ret (-1))
         else if sz = I2C_SMBUS_BLOCK_DATA \<and> \<not> has_func funcs I2C_FUNC_SMBUS_READ_BLOCK_DATA then
           then_p (eprint (Missing_func ''SMBus block read'')) (ret (-1))
         else if sz = I2C_SMBUS_I2C_BLOCK_DATA \<and> \<not> has_func funcs I2C_FUNC_SMBUS_READ_I2C_BLOCK then
           then_p (eprint (Missing_func ''I2C block read'')) (ret (-1))
         else then_p
           (if pec \<and> \<not> has_func funcs (I2C_FUNC_SMBUS_PEC OR I2C_FUNC_I2C)
            then eprint Pec_unsupported else ret ())
           (ret 0))"

definition i2cdump_confirm ::
  "string \<Rightarrow> int \<Rightarrow> smbus_size \<Rightarrow> bool \<Rightarrow> bool \<Rightarrow> int \<Rightarrow> int \<Rightarrow> bool \<Rightarrow> int \<Rightarrow> int \<Rightarrow> ('w, unit) i2c" where
  "i2cdump_confirm filename address sz pec evn bank bankreg ranged first lst =
     then_p (eprint Confuse_warning)
     (then_p (eprint (Dump_msg (Will_dump filename address
        (if sz = I2C_SMBUS_BLOCK_DATA then ''smbus block''
         else if sz = I2C_SMBUS_I2C_BLOCK_DATA then ''i2c block''
         else if sz = I2C_SMBUS_BYTE then ''byte consecutive read''
         else if sz = I2C_SMBUS_BYTE_DATA then ''byte'' else ''word''))))
     (then_p (if pec then eprint Pec_enabled else ret ())
     (then_p (if evn then eprint (Dump_msg Only_even) else ret ())
     (then_p (if bank \<noteq> 0 then
                (if sz = I2C_SMBUS_BLOCK_DATA then eprint (Dump_msg (Using_command bank))
                 else eprint (Dump_msg (Probing_bank bank bankreg)))
              else ret ())
     (then_p (if ranged then eprint (Dump_msg (Probe_range first lst)) else ret ())
     (then_p (eprint (Continue True))
     (bind_p (user_ack True) (\<lambda>ok.
        if \<not> ok then then_p (eprint Aborting) (exit_p 0) else ret ()))))))))"

text \<open>Switching the bank: the register keeps its high half; the old value is returned.\<close>

definition bank_switch :: "'w kernel \<Rightarrow> int \<Rightarrow> int \<Rightarrow> int \<Rightarrow> ('w, int) i2c" where
  "bank_switch K file bank bankreg =
     bind_p (i2c_smbus_read_byte_data K file (to_u8 bankreg)) (\<lambda>res.
     bind_p (if res \<ge> 0
             then i2c_smbus_write_byte_data K file (to_u8 bankreg) (to_u8 (bank OR (res AND 0xf0)))
             else ret res) (\<lambda>r.
     if r < 0 then then_p (eprint (Dump_msg Bank_switch_failed)) (exit_p 1) else ret res))"

subsection \<open>Block transactions\<close>

text \<open>
  \<open>block[256]\<close>: an entry that has not been set is \<open>None\<close>.  The I2C block loop fills \<open>cblock\<close> from
  its start, so the bytes read so far are the list of them; each turn reads at least one byte, and
  256 turns are enough (the loop would be undefined here if they were not).
\<close>

type_synonym dump_block = "int option list"

definition cblock_size :: nat where
  "cblock_size = 288"

fun read_i2c_blocks :: "'w kernel \<Rightarrow> int \<Rightarrow> nat \<Rightarrow> 8 word list \<Rightarrow> ('w, int \<times> 8 word list) i2c" where
  "read_i2c_blocks K file fuel cblock =
     (if 256 \<le> length cblock then ret (int (length cblock), cblock)
      else (case fuel of
        0 \<Rightarrow> undef_p
      | Suc n \<Rightarrow>
          bind_p (i2c_smbus_read_i2c_block_data K file (word_of_nat (length cblock)) 32) (\<lambda>(i, vals).
          if cblock_size < length cblock + length vals then undef_p
          else if i \<le> 0 then ret (i, cblock)
          else read_i2c_blocks K file n (cblock @ vals))))"

text \<open>The block, and the length of an SMBus block for the display.\<close>

definition dump_read_block :: "'w kernel \<Rightarrow> int \<Rightarrow> smbus_size \<Rightarrow> int \<Rightarrow> ('w, dump_block \<times> int) i2c" where
  "dump_read_block K file sz bank =
     (if sz = I2C_SMBUS_BLOCK_DATA \<or> sz = I2C_SMBUS_I2C_BLOCK_DATA then
        bind_p (if sz = I2C_SMBUS_BLOCK_DATA then i2c_smbus_read_block_data K file (to_u8 bank)
                else read_i2c_blocks K file 256 []) (\<lambda>(res, cblock).
        if cblock_size < length cblock then undef_p
        else if res \<le> 0 then then_p (eprint (Dump_msg (Block_read_failed res))) (exit_p 1)
        else
          (let n = min (nat res) 256 in
           if length cblock < n then undef_p
           else ret
             (map (\<lambda>b. Some (uint b)) (take n cblock) @
                replicate (256 - n) (if sz \<noteq> I2C_SMBUS_BLOCK_DATA then Some (-1) else None),
              if sz = I2C_SMBUS_BLOCK_DATA then res else 0)))
      else ret (replicate 256 None, 0))"

subsection \<open>The table\<close>

definition store_block :: "nat \<Rightarrow> int \<Rightarrow> dump_block \<Rightarrow> ('w, dump_block) i2c" where
  "store_block a v block = (if a < length block then ret (block[a := Some v]) else undef_p)"

definition load_block :: "dump_block \<Rightarrow> nat \<Rightarrow> ('w, int) i2c" where
  "load_block block a =
     (if a < length block then (case block ! a of Some v \<Rightarrow> ret v | None \<Rightarrow> undef_p) else undef_p)"

text \<open>
  Reading one cell.  In the block modes the value is in the block already; past the end of an
  SMBus block the entry that is read is not set (\<open>None\<close>), which is harmless as long as its value is not used.
\<close>

definition read_cell ::
  "'w kernel \<Rightarrow> int \<Rightarrow> smbus_size \<Rightarrow> nat \<Rightarrow> dump_block \<Rightarrow> ('w, int option \<times> dump_block) i2c" where
  "read_cell K file sz a block =
     (if sz = I2C_SMBUS_BYTE_DATA then
        bind_p (i2c_smbus_read_byte_data K file (word_of_nat a)) (\<lambda>res.
        bind_p (store_block a res block) (\<lambda>block. ret (Some res, block)))
      else if sz = I2C_SMBUS_WORD_DATA then
        bind_p (i2c_smbus_read_word_data K file (word_of_nat a)) (\<lambda>res.
        if res < 0 then
          bind_p (store_block a res block) (\<lambda>block.
          bind_p (store_block (a + 1) res block) (\<lambda>block. ret (Some res, block)))
        else
          bind_p (store_block a (res AND 0xff) block) (\<lambda>block.
          bind_p (store_block (a + 1) (res div 256) block) (\<lambda>block. ret (Some res, block))))
      else if sz = I2C_SMBUS_BYTE then
        bind_p (i2c_smbus_read_byte K file) (\<lambda>res.
        bind_p (store_block a res block) (\<lambda>block. ret (Some res, block)))
      else if a < length block then ret (block ! a, block) else undef_p)"

definition print_cell :: "smbus_size \<Rightarrow> nat \<Rightarrow> int \<Rightarrow> dump_block \<Rightarrow> ('w, unit) i2c" where
  "print_cell sz a res block =
     (if res < 0 then
        then_p (print ''XX '') (if sz = I2C_SMBUS_WORD_DATA then print ''XX '' else ret ())
      else
        bind_p (load_block block a) (\<lambda>v.
        then_p (print (fmt_int_0x 2 v @ '' ''))
        (if sz = I2C_SMBUS_WORD_DATA then
           bind_p (load_block block (a + 1)) (\<lambda>v. print (fmt_int_0x 2 v @ '' ''))
         else ret ())))"

text \<open>What is printed for the value that was read: nothing behind the length of an SMBus block, whatever was read.\<close>

definition show_cell :: "smbus_size \<Rightarrow> int \<Rightarrow> nat \<Rightarrow> int option \<Rightarrow> dump_block \<Rightarrow> ('w, unit) i2c" where
  "show_cell sz s_length a res block =
     (if sz = I2C_SMBUS_BLOCK_DATA \<and> s_length \<le> int a then print ''   ''
      else (case res of None \<Rightarrow> undef_p | Some res \<Rightarrow> print_cell sz a res block))"

text \<open>The cells of a row from column \<open>j\<close> on; a word takes two columns.\<close>

function dump_cells ::
  "'w kernel \<Rightarrow> int \<Rightarrow> smbus_size \<Rightarrow> int \<Rightarrow> int \<Rightarrow> int \<Rightarrow> nat \<Rightarrow> nat \<Rightarrow> dump_block \<Rightarrow>
     ('w, dump_block) i2c" where
  "dump_cells K file sz first lst s_length i j block =
     (if 16 \<le> j then ret block
      else (let a = i + j; next = (if sz = I2C_SMBUS_WORD_DATA then j + 2 else j + 1) in
        if int a < first \<or> int a > lst then
          then_p (print (if sz = I2C_SMBUS_WORD_DATA then ''      '' else ''   ''))
          (dump_cells K file sz first lst s_length i next block)
        else
          bind_p (read_cell K file sz a block) (\<lambda>(res, block).
          then_p (show_cell sz s_length a res block)
          (dump_cells K file sz first lst s_length i next block))))"
  by pat_completeness auto

termination
  by (relation "measure (\<lambda>(K, file, sz, first, lst, s_length, i, j, block). 16 - j)") auto

definition ascii_char :: "int \<Rightarrow> char" where
  "ascii_char res =
     (if res < 0 then CHR ''X''
      else (let b = res AND 0xff in
        if b = 0x00 \<or> b = 0xff then CHR ''.''
        else if b < 32 \<or> b \<ge> 127 then CHR ''?''
        else char_of (nat b)))"

fun dump_ascii ::
  "smbus_size \<Rightarrow> int \<Rightarrow> int \<Rightarrow> int \<Rightarrow> nat list \<Rightarrow> dump_block \<Rightarrow> ('w, unit) i2c" where
  "dump_ascii sz first lst s_length [] block = ret ()"
| "dump_ascii sz first lst s_length (a # as) block =
     (if sz = I2C_SMBUS_BLOCK_DATA \<and> s_length \<le> int a then ret ()
      else then_p
        (if int a < first \<or> int a > lst then print '' ''
         else bind_p (load_block block a) (\<lambda>res. print [ascii_char res]))
        (dump_ascii sz first lst s_length as block))"

fun dump_rows ::
  "'w kernel \<Rightarrow> int \<Rightarrow> smbus_size \<Rightarrow> int \<Rightarrow> int \<Rightarrow> int \<Rightarrow> nat list \<Rightarrow> dump_block \<Rightarrow> ('w, unit) i2c" where
  "dump_rows K file sz first lst s_length [] block = ret ()"
| "dump_rows K file sz first lst s_length (i # is) block =
     (if sz = I2C_SMBUS_BLOCK_DATA \<and> s_length \<le> int i then ret ()
      else if int i div 16 < first div 16 then dump_rows K file sz first lst s_length is block
      else if int i div 16 > lst div 16 then ret ()
      else
        then_p (print (fmt_0x 2 i @ '': ''))
        (bind_p (dump_cells K file sz first lst s_length i 0 block) (\<lambda>block.
         then_p (print ''   '')
         (then_p (dump_ascii sz first lst s_length (map (\<lambda>j. i + j) [0..<16]) block)
         (then_p (print [nl])
         (dump_rows K file sz first lst s_length is block))))))"

definition dump_header :: string where
  "dump_header =
     ''     0  1  2  3  4  5  6  7  8  9  a  b  c  d  e  f    0123456789abcdef'' @ [nl]"

definition row_starts :: "nat \<Rightarrow> nat list" where
  "row_starts w = map (\<lambda>k. w * k) [0..<256 div w]"

definition dump_bytes ::
  "'w kernel \<Rightarrow> int \<Rightarrow> smbus_size \<Rightarrow> int \<Rightarrow> int \<Rightarrow> int \<Rightarrow> ('w, unit) i2c" where
  "dump_bytes K file sz bank first lst =
     bind_p (dump_read_block K file sz bank) (\<lambda>(block, s_length).
     bind_p (if sz = I2C_SMBUS_BYTE then i2c_smbus_write_byte K file (to_u8 first) else ret 0) (\<lambda>res.
     if res \<noteq> 0 then then_p (eprint (Dump_msg (Start_address_failed res))) (exit_p 1)
     else then_p (print dump_header)
       (dump_rows K file sz first lst s_length (row_starts 16) block)))"

text \<open>The table of words at every address.\<close>

definition word_cell :: "'w kernel \<Rightarrow> int \<Rightarrow> int \<Rightarrow> int \<Rightarrow> nat \<Rightarrow> ('w, unit) i2c" where
  "word_cell K file first lst a =
     (if int a < first \<or> int a > lst then print ''     ''
      else bind_p (i2c_smbus_read_word_data K file (word_of_nat a)) (\<lambda>res.
        print (if res < 0 then ''XXXX '' else fmt_int_0x 4 (res AND 0xffff) @ '' '')))"

fun word_rows :: "'w kernel \<Rightarrow> int \<Rightarrow> int \<Rightarrow> int \<Rightarrow> nat list \<Rightarrow> ('w, unit) i2c" where
  "word_rows K file first lst [] = ret ()"
| "word_rows K file first lst (i # is) =
     (if int i div 8 < first div 8 then word_rows K file first lst is
      else if int i div 8 > lst div 8 then ret ()
      else
        then_p (print (fmt_0x 2 i @ '': ''))
        (then_p (for_p [0..<8] (\<lambda>j. word_cell K file first lst (i + j)))
        (then_p (print [nl]) (word_rows K file first lst is))))"

definition dump_words :: "'w kernel \<Rightarrow> int \<Rightarrow> int \<Rightarrow> int \<Rightarrow> ('w, unit) i2c" where
  "dump_words K file first lst =
     then_p (print (''     0,8  1,9  2,a  3,b  4,c  5,d  6,e  7,f'' @ [nl]))
     (word_rows K file first lst (row_starts 8))"

subsection \<open>The program\<close>

definition dump_session ::
  "'w kernel \<Rightarrow> int \<Rightarrow> smbus_size \<Rightarrow> bool \<Rightarrow> int \<Rightarrow> int \<Rightarrow> int \<Rightarrow> int \<Rightarrow> ('w, unit) i2c" where
  "dump_session K file sz evn bank bankreg first lst =
     bind_p (if bank \<noteq> 0 \<and> sz \<noteq> I2C_SMBUS_BLOCK_DATA then bank_switch K file bank bankreg else ret 0)
     (\<lambda>old_bank.
     then_p (if sz \<noteq> I2C_SMBUS_WORD_DATA \<or> evn then dump_bytes K file sz bank first lst
             else dump_words K file first lst)
     (then_p
       (if bank \<noteq> 0 \<and> sz \<noteq> I2C_SMBUS_BLOCK_DATA
        then bind_p (i2c_smbus_write_byte_data K file (to_u8 bankreg) (to_u8 old_bank)) (\<lambda>_. ret ())
        else ret ())
       (exit_p 0)))"

definition i2cdump_run ::
  "'w kernel \<Rightarrow> bool \<Rightarrow> bool \<Rightarrow> int \<Rightarrow> int \<Rightarrow> smbus_size \<Rightarrow> bool \<Rightarrow> bool \<Rightarrow> int \<Rightarrow> int \<Rightarrow> bool \<Rightarrow> int \<Rightarrow> int \<Rightarrow>
     ('w, unit) i2c" where
  "i2cdump_run K force yes i2cbus address sz pec evn bank bankreg ranged first lst =
     bind_p (open_i2c_dev K i2cbus 20 False) (\<lambda>(file, filename).
     bind_p
       (if file < 0 then ret True
        else bind_p (i2cdump_check_funcs K file sz pec) (\<lambda>r.
          if r \<noteq> 0 then ret True
          else bind_p (set_slave_addr K file address force) (\<lambda>r. ret (r \<noteq> 0))))
     (\<lambda>failed. if failed then exit_p 1 else
     bind_p (if pec then sys (k_pec K file True) else ret None) (\<lambda>r. case r of
       Some e \<Rightarrow> then_p (eprint (Set_pec_failed e)) (exit_p 1)
     | None \<Rightarrow>
         then_p (if yes then ret ()
                 else i2cdump_confirm filename address sz pec evn bank bankreg ranged first lst)
         (dump_session K file sz evn bank bankreg first lst))))"

definition i2cdump_main :: "'w kernel \<Rightarrow> string list \<Rightarrow> ('w, unit) i2c" where
  "i2cdump_main K args =
     bind_p (i2cdump_flags args \<lparr>uf_force = False, uf_yes = False, uf_version = False,
                                 uf_range = None\<rparr>) (\<lambda>(fl, pos).
     if uf_version fl then then_p (eprint Version_info) (exit_p 0)
     else if length pos < 1 then then_p (eprint No_bus) i2c_help
     else
       bind_p (lookup_i2c_bus K (pos ! 0)) (\<lambda>i2cbus. if i2cbus < 0 then i2c_help
       else if length pos < 2 then then_p (eprint (Dump_msg No_address)) i2c_help
       else
       bind_p (parse_i2c_address (pos ! 1)) (\<lambda>address. if address < 0 then i2c_help else
       bind_p (i2cdump_mode pos) (\<lambda>(sz, pec, evn).
       bind_p (i2cdump_bank pos sz) (\<lambda>(bank, bankreg).
       bind_p (i2cdump_range (uf_range fl) sz evn) (\<lambda>(first, lst).
         i2cdump_run K (uf_force fl) (uf_yes fl) i2cbus address sz pec evn bank bankreg
           (uf_range fl \<noteq> None) first lst))))))"

declare dump_cells.simps [simp del] read_i2c_blocks.simps [simp del]

subsection \<open>The arrays are not overrun\<close>

lemma gives_block_reads:
  assumes "smbus_ok K"
  shows "gives C (i2c_smbus_read_block_data K f c)
      (\<lambda>(r, vs). length vs \<le> 32 \<and> (r \<le> 0 \<or> r = int (length vs)))"
    and "gives C (i2c_smbus_read_i2c_block_data K f c n)
      (\<lambda>(r, vs). length vs \<le> 32 \<and> (r \<le> 0 \<or> r = int (length vs)))"
  unfolding gives_def by (auto intro!: read_block_wps [OF assms])

lemma gives_read_i2c_blocks:
  assumes "smbus_ok K"
  shows "256 \<le> fuel + length cb \<Longrightarrow> length cb < cblock_size \<Longrightarrow>
    gives C (read_i2c_blocks K f fuel cb)
      (\<lambda>(r, vs). length vs < cblock_size \<and> (r \<le> 0 \<or> r = int (length vs)))"
proof (induction fuel arbitrary: cb)
  case 0
  then show ?case by (subst read_i2c_blocks.simps) (auto intro!: gives_rules)
next
  case (Suc n)
  have step: "gives C (if cblock_size < length cb + length vals then undef_p else if i \<le> 0 then ret (i, cb)
        else read_i2c_blocks K f n (cb @ vals))
      (\<lambda>(r, vs). length vs < cblock_size \<and> (r \<le> 0 \<or> r = int (length vs)))"
    if "length cb < 256" "length vals \<le> 32" "i \<le> 0 \<or> i = int (length vals)" for i vals
  proof (cases "i \<le> 0")
    case False
    with that(3) have "0 < length vals" by linarith
    then have "256 \<le> n + length (cb @ vals)" using Suc.prems(1) unfolding length_append by linarith
    then have "gives C (read_i2c_blocks K f n (cb @ vals))
        (\<lambda>(r, vs). length vs < cblock_size \<and> (r \<le> 0 \<or> r = int (length vs)))"
      by (rule Suc.IH) (use that(1,2) in \<open>simp add: cblock_size_def\<close>)
    then show ?thesis using that False by (auto intro!: gives_rules simp: cblock_size_def)
  qed (use that in \<open>auto intro!: gives_rules simp: cblock_size_def\<close>)
  show ?case
  proof (cases "256 \<le> length cb")
    case True
    then show ?thesis using Suc.prems by (subst read_i2c_blocks.simps) (auto intro!: gives_rules)
  next
    case False
    have "gives C (bind_p (i2c_smbus_read_i2c_block_data K f (word_of_nat (length cb)) 32) (\<lambda>(i, vals).
        if cblock_size < length cb + length vals then undef_p else if i \<le> 0 then ret (i, cb)
        else read_i2c_blocks K f n (cb @ vals)))
      (\<lambda>(r, vs). length vs < cblock_size \<and> (r \<le> 0 \<or> r = int (length vs)))"
      by (rule gives_bindP [OF gives_block_reads(2) [OF assms]], clarify, rule step) (use False in simp_all)
    with False show ?thesis by (subst read_i2c_blocks.simps) simp
  qed
qed

text \<open>The entry of a register that the display uses has been set.\<close>

definition cell_set :: "smbus_size \<Rightarrow> int \<Rightarrow> dump_block \<Rightarrow> nat \<Rightarrow> bool" where
  "cell_set sz s_length block a \<longleftrightarrow> (sz = I2C_SMBUS_BLOCK_DATA \<and> s_length \<le> int a) \<or> block ! a \<noteq> None"

definition block_ready :: "smbus_size \<Rightarrow> int \<Rightarrow> dump_block \<Rightarrow> bool" where
  "block_ready sz s_length block \<longleftrightarrow> length block = 256 \<and>
     (sz \<in> {I2C_SMBUS_BLOCK_DATA, I2C_SMBUS_I2C_BLOCK_DATA} \<longrightarrow>
        (\<forall>a < 256. cell_set sz s_length block a))"

lemma gives_dump_read_block:
  assumes "smbus_ok K" and "Exit 1 \<in> C"
  shows "gives C (dump_read_block K f sz bank) (\<lambda>(block, s_length). block_ready sz s_length block)"
proof -
  have rd: "gives C (if sz = I2C_SMBUS_BLOCK_DATA then i2c_smbus_read_block_data K f (to_u8 bank)
      else read_i2c_blocks K f 256 [])
      (\<lambda>(r, vs). length vs < cblock_size \<and> (r \<le> 0 \<or> r = int (length vs)))"
    by (intro gives_if gives_mono [OF gives_block_reads(1) [OF assms(1)]] gives_read_i2c_blocks [OF assms(1)])
      (auto simp: cblock_size_def)
  show ?thesis
    unfolding dump_read_block_def Let_def
    by (rule gives_if, rule gives_bindP [OF rd])
      (use assms(2) in \<open>auto intro!: gives_rules simp: block_ready_def cell_set_def nth_append\<close>)
qed

definition word_aligned :: "smbus_size \<Rightarrow> int \<Rightarrow> int \<Rightarrow> bool" where
  "word_aligned sz first lst \<longleftrightarrow> (sz = I2C_SMBUS_WORD_DATA \<longrightarrow> even first \<and> odd lst)"

lemma gives_store_block:
  "a < length block \<Longrightarrow> gives C (store_block a v block) (\<lambda>b. b = block[a := Some v])"
  by (auto simp: store_block_def intro!: gives_rules)

lemma gives_load_block: "a < length block \<Longrightarrow> block ! a \<noteq> None \<Longrightarrow> gives C (load_block block a) (\<lambda>_. True)"
  by (auto simp: load_block_def intro!: gives_rules)

definition read_done :: "smbus_size \<Rightarrow> int \<Rightarrow> nat \<Rightarrow> dump_block \<Rightarrow> int option \<times> dump_block \<Rightarrow> bool" where
  "read_done sz s_length a block = (\<lambda>(res, b). length b = 256 \<and> cell_set sz s_length b a \<and>
     (res = None \<longrightarrow> sz = I2C_SMBUS_BLOCK_DATA \<and> s_length \<le> int a) \<and>
     (\<forall>k. block ! k \<noteq> None \<longrightarrow> b ! k \<noteq> None) \<and> (sz = I2C_SMBUS_WORD_DATA \<longrightarrow> b ! (a + 1) \<noteq> None))"

lemma gives_read_cell:
  assumes "length block = 256" "a < 256" "sz = I2C_SMBUS_WORD_DATA \<longrightarrow> a + 1 < 256"
    and "block_ready sz s_length block"
    and "sz \<in> {I2C_SMBUS_BYTE, I2C_SMBUS_BYTE_DATA, I2C_SMBUS_WORD_DATA, I2C_SMBUS_BLOCK_DATA,
                I2C_SMBUS_I2C_BLOCK_DATA}"
  shows "gives C (read_cell (K :: 'w kernel) f sz a block) (read_done sz s_length a block)"
proof -
  have by1: "gives C (bind_p m (\<lambda>res. bind_p (store_block a res block) (\<lambda>b. ret (Some res, b)))) (read_done sz s_length a block)"
    if "gives C m (\<lambda>_. True)" "sz \<noteq> I2C_SMBUS_WORD_DATA" for m :: "('w, int) i2c"
    using that(1)
    by (rule gives_bind, intro gives_bindP [OF gives_store_block])
      (use assms(1,2) that(2) in \<open>auto intro!: gives_rules simp: nth_list_update read_done_def cell_set_def\<close>)
  have st2: "gives C (bind_p (store_block a v block) (\<lambda>b. bind_p (store_block (a + 1) v' b) (\<lambda>b. ret (Some res, b))))
      (read_done sz s_length a block)" if "a + 1 < 256" for v v' res
    by (rule gives_bindP [OF gives_store_block], use assms(1,2) in simp,
        rule gives_bindP [OF gives_store_block])
      (use assms(1,2) that in \<open>auto intro!: gives_rules simp: nth_list_update read_done_def cell_set_def\<close>)
  from assms(5) consider "sz = I2C_SMBUS_BYTE" | "sz = I2C_SMBUS_BYTE_DATA" | "sz = I2C_SMBUS_WORD_DATA"
    | "sz \<in> {I2C_SMBUS_BLOCK_DATA, I2C_SMBUS_I2C_BLOCK_DATA}"
    by auto
  then show ?thesis
  proof cases
    case 3
    have "gives C (bind_p (i2c_smbus_read_word_data K f (word_of_nat a)) (\<lambda>res.
        if res < 0 then
          bind_p (store_block a res block) (\<lambda>b. bind_p (store_block (a + 1) res b) (\<lambda>b. ret (Some res, b)))
        else bind_p (store_block a (res AND 0xff) block) (\<lambda>b.
          bind_p (store_block (a + 1) (res div 256) b) (\<lambda>b. ret (Some res, b))))) (read_done sz s_length a block)"
      by (intro gives_bind [OF gives_smbus(3)] gives_if st2) (use 3 assms(3) in simp_all)
    with 3 show ?thesis by (simp add: read_cell_def)
  next
    case 4
    then have "cell_set sz s_length block a" using assms(2,4) by (auto simp: block_ready_def)
    with 4 have "read_done sz s_length a block (block ! a, block)" using assms(1) by (auto simp: read_done_def cell_set_def)
    with 4 show ?thesis using assms(1,2) by (auto simp: read_cell_def intro!: gives_ret)
  qed (use by1 [OF gives_smbus(1)] by1 [OF gives_smbus(2)] in \<open>simp_all add: read_cell_def\<close>)
qed

lemma gives_print_cell:
  assumes "length block = 256" "a < 256" "block ! a \<noteq> None"
    and "sz = I2C_SMBUS_WORD_DATA \<longrightarrow> a + 1 < 256 \<and> block ! (a + 1) \<noteq> None"
  shows "gives C (print_cell sz a res block) (\<lambda>_. True)"
  unfolding print_cell_def using assms by (intro gives_rules gives_load_block) auto

lemma block_ready_grow:
  "block_ready sz s_length block \<Longrightarrow> length b = 256 \<Longrightarrow> \<forall>k. block ! k \<noteq> None \<longrightarrow> b ! k \<noteq> None \<Longrightarrow>
     block_ready sz s_length b"
  unfolding block_ready_def cell_set_def by blast

definition in_range :: "int \<Rightarrow> int \<Rightarrow> nat \<Rightarrow> bool" where
  "in_range first lst a \<longleftrightarrow> first \<le> int a \<and> int a \<le> lst"

lemma gives_dump_cells:
  assumes "sz \<in> {I2C_SMBUS_BYTE, I2C_SMBUS_BYTE_DATA, I2C_SMBUS_WORD_DATA, I2C_SMBUS_BLOCK_DATA,
                I2C_SMBUS_I2C_BLOCK_DATA}"
    and "word_aligned sz first lst" "i + 16 \<le> 256" "even i"
  shows "block_ready sz s_length block \<Longrightarrow> (sz = I2C_SMBUS_WORD_DATA \<longrightarrow> even j) \<Longrightarrow>
    \<forall>a. i \<le> a \<and> a < i + j \<and> in_range first lst a \<longrightarrow> cell_set sz s_length block a \<Longrightarrow>
    gives C (dump_cells K f sz first lst s_length i j block)
      (\<lambda>b. block_ready sz s_length b \<and>
         (\<forall>a. i \<le> a \<and> a < i + 16 \<and> in_range first lst a \<longrightarrow> cell_set sz s_length b a))"
proof (induction "16 - j" arbitrary: j block rule: less_induct)
  case less
  let ?next = "if sz = I2C_SMBUS_WORD_DATA then j + 2 else j + 1"
  let ?P = "\<lambda>b. block_ready sz s_length b \<and>
         (\<forall>a. i \<le> a \<and> a < i + 16 \<and> in_range first lst a \<longrightarrow> cell_set sz s_length b a)"
  have aligned: "in_range first lst (i + j) = in_range first lst (i + j + 1)" if "sz = I2C_SMBUS_WORD_DATA"
  proof -
    have "even (int (i + j))" using that less.prems(2) assms(4) by simp
    with that assms(2) show ?thesis unfolding word_aligned_def in_range_def by presburger
  qed
  show ?case
  proof (cases "16 \<le> j")
    case True
    then show ?thesis using less.prems by (subst dump_cells.simps) (auto intro!: gives_rules)
  next
    case False
    have rest: "gives C (dump_cells K f sz first lst s_length i ?next b) ?P"
      if b: "block_ready sz s_length b" "\<forall>k. block ! k \<noteq> None \<longrightarrow> b ! k \<noteq> None"
        and now: "in_range first lst (i + j) \<longrightarrow> cell_set sz s_length b (i + j) \<and>
          (sz = I2C_SMBUS_WORD_DATA \<longrightarrow> cell_set sz s_length b (i + j + 1))" for b
    proof (rule less.hyps)
      show "\<forall>a. i \<le> a \<and> a < i + ?next \<and> in_range first lst a \<longrightarrow> cell_set sz s_length b a"
      proof (intro allI impI)
        fix a assume a: "i \<le> a \<and> a < i + ?next \<and> in_range first lst a"
        then consider "a < i + j" | "a = i + j" | "a = i + j + 1" "sz = I2C_SMBUS_WORD_DATA"
          by (auto simp: less_Suc_eq split: if_splits)
        then show "cell_set sz s_length b a"
          using a less.prems(3) b(2) now aligned by cases (auto simp: cell_set_def)
      qed
    qed (use False less.prems(2) b(1) in auto)
    have a1: "i + j < 256" using False assms(3) by linarith
    have a2: "sz = I2C_SMBUS_WORD_DATA \<longrightarrow> i + j + 1 < 256"
    proof
      assume "sz = I2C_SMBUS_WORD_DATA"
      then have "even (i + j)" using less.prems(2) assms(4) by simp
      with a1 show "i + j + 1 < 256" by presburger
    qed
    have cell: "gives C (bind_p (read_cell K f sz (i + j) block) (\<lambda>(res, block).
        then_p (show_cell sz s_length (i + j) res block) (dump_cells K f sz first lst s_length i ?next block))) ?P"
    proof (rule gives_bindP [OF gives_read_cell [OF _ a1 a2 less.prems(1) assms(1)]], goal_cases)
      case 1
      then show ?case using less.prems(1) by (simp add: block_ready_def)
    next
      case (2 x)
      obtain res b where x: "x = (res, b)" by (cases x)
      with 2 have b: "length b = 256" "cell_set sz s_length b (i + j)" "\<forall>k. block ! k \<noteq> None \<longrightarrow> b ! k \<noteq> None"
        "sz = I2C_SMBUS_WORD_DATA \<longrightarrow> b ! (i + j + 1) \<noteq> None" "res = None \<longrightarrow> sz = I2C_SMBUS_BLOCK_DATA \<and> s_length \<le> int (i + j)"
        by (auto simp: read_done_def)
      then have "gives C (show_cell sz s_length (i + j) res b) (\<lambda>_. True)" using a1 a2
        by (auto simp: show_cell_def cell_set_def split: option.split intro!: gives_print gives_print_cell)
      moreover have "gives C (dump_cells K f sz first lst s_length i ?next b) ?P"
        by (rule rest) (use b block_ready_grow [OF less.prems(1) b(1,3)] in \<open>auto simp: cell_set_def\<close>)
      ultimately show ?case unfolding x case_prod_conv by (rule gives_then)
    qed
    show ?thesis
      by (subst dump_cells.simps)
        (use False cell rest [OF less.prems(1)] in \<open>auto intro!: gives_then gives_print
          simp: Let_def in_range_def cell_set_def\<close>)
  qed
qed

lemma gives_dump_ascii:
  assumes "block_ready sz s_length block"
    and "\<forall>a \<in> set as. a < 256 \<and> (in_range first lst a \<longrightarrow> cell_set sz s_length block a)"
  shows "gives C (dump_ascii sz first lst s_length as block) (\<lambda>_. True)"
  using assms(2)
proof (induction as)
  case (Cons a as)
  then show ?case
    using assms(1)
    by (auto intro!: gives_ret gives_then gives_print gives_bind gives_load_block
        simp: in_range_def cell_set_def block_ready_def)
qed (simp add: gives_ret)

lemma gives_dump_rows:
  assumes "sz \<in> {I2C_SMBUS_BYTE, I2C_SMBUS_BYTE_DATA, I2C_SMBUS_WORD_DATA, I2C_SMBUS_BLOCK_DATA,
                I2C_SMBUS_I2C_BLOCK_DATA}"
    and "word_aligned sz first lst" and "\<forall>i \<in> set is. i + 16 \<le> 256 \<and> even i"
    and "block_ready sz s_length block"
  shows "gives C (dump_rows K f sz first lst s_length is block) (\<lambda>_. True)"
  using assms(3,4)
proof (induction "is" arbitrary: block)
  case (Cons i "is")
  have i: "i + 16 \<le> 256" "even i" and r: "\<forall>i \<in> set is. i + 16 \<le> 256 \<and> even i"
    using Cons.prems(1) by simp_all
  have "gives C (bind_p (dump_cells K f sz first lst s_length i 0 block) (\<lambda>block.
         then_p (print ''   '')
         (then_p (dump_ascii sz first lst s_length (map (\<lambda>j. i + j) [0..<16]) block)
         (then_p (print [nl]) (dump_rows K f sz first lst s_length is block))))) (\<lambda>_. True)"
    by (rule gives_bindP [OF gives_dump_cells [OF assms(1,2) i Cons.prems(2)]])
      (auto, intro gives_then gives_print gives_dump_ascii Cons.IH [OF r], use i in auto)
  then show ?case using Cons.IH [OF r Cons.prems(2)] by (auto intro!: gives_ret gives_then gives_print)
qed (simp add: gives_ret)

lemma row_starts_16: "\<forall>i \<in> set (row_starts 16). i + 16 \<le> 256 \<and> even i"
  by (auto simp: row_starts_def)

lemma gives_dump_bytes:
  assumes "smbus_ok K" "Exit 1 \<in> C" "word_aligned sz first lst"
    and "sz \<in> {I2C_SMBUS_BYTE, I2C_SMBUS_BYTE_DATA, I2C_SMBUS_WORD_DATA, I2C_SMBUS_BLOCK_DATA,
                I2C_SMBUS_I2C_BLOCK_DATA}"
  shows "gives C (dump_bytes K f sz bank first lst) (\<lambda>_. True)"
  unfolding dump_bytes_def
  by (rule gives_bindP [OF gives_dump_read_block [OF assms(1,2)]])
    (clarify, intro gives_rules gives_dump_rows [OF assms(4,3) row_starts_16] assms(2), simp_all)

lemma gives_word_rows: "gives C (word_rows K f first lst is) (\<lambda>_. True)"
  by (induction "is") (auto intro!: gives_rules simp: word_cell_def)

lemma gives_dump_session:
  assumes "smbus_ok K" "Exit 0 \<in> C" "Exit 1 \<in> C" "evn \<longrightarrow> word_aligned sz first lst"
    and "sz \<in> {I2C_SMBUS_BYTE, I2C_SMBUS_BYTE_DATA, I2C_SMBUS_WORD_DATA, I2C_SMBUS_BLOCK_DATA,
                I2C_SMBUS_I2C_BLOCK_DATA}"
  shows "gives C (dump_session K f sz evn bank bankreg first lst) (\<lambda>_. False)"
proof -
  have "word_aligned sz first lst" if "sz \<noteq> I2C_SMBUS_WORD_DATA \<or> evn"
    using that assms(4) by (auto simp: word_aligned_def)
  then show ?thesis
    unfolding dump_session_def bank_switch_def dump_words_def
    by (intro gives_rules gives_dump_bytes [OF assms(1,3) _ assms(5)] gives_word_rows assms) auto
qed

lemma gives_i2cdump_run:
  assumes "smbus_ok K" "Exit 0 \<in> C" "Exit 1 \<in> C" "evn \<longrightarrow> word_aligned sz first lst"
    and "sz \<in> {I2C_SMBUS_BYTE, I2C_SMBUS_BYTE_DATA, I2C_SMBUS_WORD_DATA, I2C_SMBUS_BLOCK_DATA,
                I2C_SMBUS_I2C_BLOCK_DATA}" "0 \<le> bus" "bus < 2 ^ 31"
  shows "gives C (i2cdump_run K force yes bus a sz pec evn bank bankreg ranged first lst) (\<lambda>_. False)"
  unfolding i2cdump_run_def i2cdump_check_funcs_def i2cdump_confirm_def
  by (intro gives_rules gives_open gives_dump_session assms(1-5) assms(6,7)) (auto simp: assms(2,3))

lemma gives_i2cdump_flags: "Exit 1 \<in> C \<Longrightarrow> gives C (i2cdump_flags as fl) (\<lambda>_. True)"
  by (induction as fl rule: i2cdump_flags.induct)
    (auto intro!: gives_rules simp: Let_def split: list.split)

lemma gives_i2cdump_mode:
  "Exit 1 \<in> C \<Longrightarrow> gives C (i2cdump_mode pos) (\<lambda>(sz, pec, evn).
     sz \<in> {I2C_SMBUS_BYTE, I2C_SMBUS_BYTE_DATA, I2C_SMBUS_WORD_DATA, I2C_SMBUS_BLOCK_DATA,
           I2C_SMBUS_I2C_BLOCK_DATA})"
  unfolding i2cdump_mode_def Let_def by (auto intro!: gives_rules)

lemma gives_i2cdump_bank: "Exit 1 \<in> C \<Longrightarrow> gives C (i2cdump_bank pos sz) (\<lambda>_. True)"
  unfolding i2cdump_bank_def i2cdump_bankreg_def by (intro gives_rules) auto

lemma gives_i2cdump_range:
  "Exit 1 \<in> C \<Longrightarrow> gives C (i2cdump_range rng sz evn)
     (\<lambda>(first, lst). 0 \<le> first \<and> first \<le> lst \<and> lst \<le> 0xff \<and> (evn \<longrightarrow> word_aligned sz first lst))"
  unfolding i2cdump_range_def Let_def
  by (auto intro!: gives_rules simp: word_aligned_def even_iff_mod_2_eq_zero split: option.split)

text \<open>
  C26.  \<open>i2cdump\<close> ends with status 0 or 1 whatever its arguments, for every kernel whose block
  transactions return at most 32 bytes, on a system without the files that list the buses: the loop of block reads ends and stays within
  the 288 bytes of \<open>cblock\<close>, no access leaves \<open>block[256]\<close>, and no value of an entry that was never set is used (entries behind the end of
  an SMBus block are read, but neither compared nor printed).
\<close>

theorem i2cdump_defined:
  assumes "smbus_ok K" and "no_bus_lists K"
  shows "\<exists>c t. i2cdump_main K args s = (Inl (Exit c), t) \<and> c \<in> {0, 1}"
proof -
  let ?C = "{Exit 0, Exit 1}"
  have "gives ?C (i2cdump_main K args) (\<lambda>_. False)"
    unfolding i2cdump_main_def
    by (intro gives_rules gives_i2cdump_flags gives_bindP [OF gives_lookup [OF assms(2)]]
        gives_bindP [OF gives_i2cdump_mode] gives_i2cdump_bank gives_bindP [OF gives_i2cdump_range]
        gives_mono [OF gives_parse_i2c_address] gives_i2cdump_run [OF assms(1)]) auto
  then show ?thesis by (fastforce dest: gives_exitD [where s = s])
qed

theorem i2cdump_defined_witness:
  "smbus_ok sim_kernel \<and> no_bus_lists sim_kernel \<and>
   (\<exists>c t. i2cdump_main sim_kernel [''-y'', ''-r'', ''0x20-0x3f'', ''1'', ''0x50'', ''W''] (sim_start []) =
      (Inl (Exit c), t) \<and> c \<in> {0, 1})"
  using sim_smbus_ok sim_no_bus_lists i2cdump_defined [OF sim_smbus_ok sim_no_bus_lists] by blast

subsection \<open>The table of a chip\<close>

definition hex_cell :: "int \<Rightarrow> int \<Rightarrow> (8 word \<Rightarrow> 8 word) \<Rightarrow> nat \<Rightarrow> string" where
  "hex_cell first lst R a = (if in_range first lst a then fmt_0x 2 (unat (R (word_of_nat a))) @ '' '' else ''   '')"

definition asc_cell :: "int \<Rightarrow> int \<Rightarrow> (8 word \<Rightarrow> 8 word) \<Rightarrow> nat \<Rightarrow> string" where
  "asc_cell first lst R a = (if in_range first lst a then [ascii_char (uint (R (word_of_nat a)))] else '' '')"

definition dump_line :: "int \<Rightarrow> int \<Rightarrow> (8 word \<Rightarrow> 8 word) \<Rightarrow> nat \<Rightarrow> string" where
  "dump_line first lst R i =
     fmt_0x 2 i @ '': '' @ concat (map (hex_cell first lst R) [i..<i + 16]) @ ''   '' @
     concat (map (asc_cell first lst R) [i..<i + 16]) @ [nl]"

definition dump_table :: "int \<Rightarrow> int \<Rightarrow> (8 word \<Rightarrow> 8 word) \<Rightarrow> string" where
  "dump_table first lst R =
     dump_header @ concat (map (dump_line first lst R)
       (filter (\<lambda>i. first div 16 \<le> int i div 16 \<and> int i div 16 \<le> lst div 16) (row_starts 16)))"

lemma dump_cells_chip:
  assumes "byte_chip K f regs" "i + 16 \<le> 256"
  shows "length block = 256 \<Longrightarrow> wp (dump_cells K f I2C_SMBUS_BYTE_DATA first lst sl i j block)
    (\<lambda>b t. length b = 256 \<and>
       (\<forall>a. i + j \<le> a \<and> a < i + 16 \<and> in_range first lst a \<longrightarrow>
          b ! a = Some (uint (regs (world s) (word_of_nat a)))) \<and>
       (\<forall>a < i + j. b ! a = block ! a) \<and> regs (world t) = regs (world s) \<and>
       stdout t = stdout s @ concat (map (hex_cell first lst (regs (world s))) [i + j..<i + 16])) E s"
proof (induction "16 - j" arbitrary: j block s rule: less_induct)
  case less
  let ?R = "regs (world s)"
  let ?P = "\<lambda>b t. length b = 256 \<and>
       (\<forall>a. i + j \<le> a \<and> a < i + 16 \<and> in_range first lst a \<longrightarrow> b ! a = Some (uint (?R (word_of_nat a)))) \<and>
       (\<forall>a < i + j. b ! a = block ! a) \<and> regs (world t) = ?R \<and>
       stdout t = stdout s @ concat (map (hex_cell first lst ?R) [i + j..<i + 16])"
  show ?case
  proof (cases "16 \<le> j")
    case True
    then show ?thesis using less.prems by (subst dump_cells.simps) (auto simp: wp_simps)
  next
    case False
    then have j: "[i + j..<i + 16] = (i + j) # [i + (j + 1)..<i + 16]" by (simp add: upt_conv_Cons)
    have a: "i + j < 256" using False assms(2) by linarith
    have rest: "wp (dump_cells K f I2C_SMBUS_BYTE_DATA first lst sl i (j + 1) b) ?P E t"
      if "length b = 256" "\<forall>a < i + j. b ! a = block ! a" "regs (world t) = ?R"
        "in_range first lst (i + j) \<longrightarrow> b ! (i + j) = Some (uint (?R (word_of_nat (i + j))))"
        "stdout t = stdout s @ hex_cell first lst ?R (i + j)" for b t
    proof (rule wp_mono [OF less.hyps [of "j + 1"]])
      fix x u
      assume u: "length x = 256 \<and>
       (\<forall>a. i + (j + 1) \<le> a \<and> a < i + 16 \<and> in_range first lst a \<longrightarrow>
          x ! a = Some (uint (regs (world t) (word_of_nat a)))) \<and>
       (\<forall>a < i + (j + 1). x ! a = b ! a) \<and> regs (world u) = regs (world t) \<and>
       stdout u = stdout t @ concat (map (hex_cell first lst (regs (world t))) [i + (j + 1)..<i + 16])"
      have "x ! a = Some (uint (?R (word_of_nat a)))" if "i + j \<le> a" "a < i + 16" "in_range first lst a" for a
        using that u \<open>regs (world t) = ?R\<close>
          \<open>in_range first lst (i + j) \<longrightarrow> b ! (i + j) = Some (uint (?R (word_of_nat (i + j))))\<close>
        by (cases "a = i + j") auto
      then show "?P x u" using u that by (simp add: j)
    qed (use False that in auto)
    show ?thesis
    proof (cases "in_range first lst (i + j)")
      case True
      let ?v = "?R (word_of_nat (i + j))"
      have "wp (dump_cells K f I2C_SMBUS_BYTE_DATA first lst sl i (j + 1) (block[i + j := Some (uint ?v)])) ?P E
          (t\<lparr>stdout := stdout t @ fmt_int_0x 2 (uint ?v) @ '' ''\<rparr>)"
        if "regs (world t) = ?R" "same_io s t" for t
        by (rule rest) (use that True less.prems a in \<open>auto simp: hex_cell_def same_io_def fmt_int_0x_uint\<close>)
      then show ?thesis
        using True False a less.prems
        by (subst dump_cells.simps)
          (auto simp: wp_simps Let_def in_range_def read_cell_def store_block_def show_cell_def print_cell_def
            load_block_def intro!: live_read [OF assms(1)])
    next
      case out: False
      have "wp (dump_cells K f I2C_SMBUS_BYTE_DATA first lst sl i (j + 1) block) ?P E
          (s\<lparr>stdout := stdout s @ ''   ''\<rparr>)"
        by (rule rest) (use out less.prems in \<open>auto simp: hex_cell_def\<close>)
      then show ?thesis
        using out False
        by (subst dump_cells.simps) (auto simp: wp_simps Let_def in_range_def)
    qed
  qed
qed

lemma dump_ascii_chip:
  assumes "length block = 256"
    and "\<forall>a \<in> set as. a < 256 \<and> (in_range first lst a \<longrightarrow> block ! a = Some (uint (R (word_of_nat a))))"
  shows "wp (dump_ascii I2C_SMBUS_BYTE_DATA first lst sl as block)
    (\<lambda>_ t. world t = world s \<and> stdout t = stdout s @ concat (map (asc_cell first lst R) as)) E s"
  using assms(2)
proof (induction as arbitrary: s)
  case (Cons a as)
  have "wp (dump_ascii I2C_SMBUS_BYTE_DATA first lst sl as block)
      (\<lambda>_ t. world t = world s \<and> stdout t = stdout s @ asc_cell first lst R a @ concat (map (asc_cell first lst R) as))
      E (s\<lparr>stdout := stdout s @ asc_cell first lst R a\<rparr>)"
    using Cons.IH [of "s\<lparr>stdout := stdout s @ asc_cell first lst R a\<rparr>"] Cons.prems by simp
  then show ?case
    using Cons.prems assms(1) 
    by (auto simp: wp_simps load_block_def asc_cell_def [of _ _ _ a] in_range_def [of _ _ a])
qed (simp add: wp_simps)

lemma dump_row_chip:
  assumes "byte_chip K f regs" "i + 16 \<le> 256" "length block = 256"
    and k: "\<And>b t. length b = 256 \<Longrightarrow> regs (world t) = regs (world s) \<Longrightarrow>
      stdout t = stdout s @ concat (map (hex_cell first lst (regs (world s))) [i..<i + 16]) @ ''   '' @
        concat (map (asc_cell first lst (regs (world s))) [i..<i + 16]) @ [nl] \<Longrightarrow> wp (k b) Q E t"
  shows "wp (bind_p (dump_cells K f I2C_SMBUS_BYTE_DATA first lst sl i 0 block) (\<lambda>b.
     then_p (print ''   '')
     (then_p (dump_ascii I2C_SMBUS_BYTE_DATA first lst sl (map (\<lambda>j. i + j) [0..<16]) b)
     (then_p (print [nl]) (k b))))) Q E s"
proof -
  have cols: "map (\<lambda>j. i + j) [0..<16] = [i..<i + 16]"
    by (rule nth_equalityI) simp_all
  have asc: "wp (dump_ascii I2C_SMBUS_BYTE_DATA first lst sl [i..<i + 16] b)
      (\<lambda>_ t. wp (k b) Q E (t\<lparr>stdout := stdout t @ [nl]\<rparr>)) E (t\<lparr>stdout := stdout t @ ''   ''\<rparr>)"
    if "length b = 256" "regs (world t) = regs (world s)"
      "\<forall>a. i \<le> a \<and> a < i + 16 \<and> in_range first lst a \<longrightarrow> b ! a = Some (uint (regs (world s) (word_of_nat a)))"
      "stdout t = stdout s @ concat (map (hex_cell first lst (regs (world s))) [i..<i + 16])" for b t
    by (rule wp_mono [OF dump_ascii_chip [where R = "regs (world s)" and E = E]])
      (use that assms(2) in \<open>auto intro!: k\<close>)
  show ?thesis
    unfolding cols wp_bind wp_then wp_print
    by (rule wp_mono [OF dump_cells_chip [OF assms(1-3), where E = E and j = 0]], rule asc) auto
qed

lemma dump_rows_chip:
  assumes "byte_chip K f regs"
  shows "\<forall>i \<in> set is. i + 16 \<le> 256 \<Longrightarrow> sorted is \<Longrightarrow> length block = 256 \<Longrightarrow>
    wp (dump_rows K f I2C_SMBUS_BYTE_DATA first lst sl is block)
      (\<lambda>_ t. regs (world t) = regs (world s) \<and>
         stdout t = stdout s @ concat (map (dump_line first lst (regs (world s)))
           (filter (\<lambda>i. first div 16 \<le> int i div 16 \<and> int i div 16 \<le> lst div 16) is))) E s"
proof (induction "is" arbitrary: block s)
  case (Cons i "is")
  let ?sel = "\<lambda>i. first div 16 \<le> int i div 16 \<and> int i div 16 \<le> lst div 16"
  let ?Q = "\<lambda>l. \<lambda>_ t. regs (world t) = regs (world s) \<and>
     stdout t = stdout s @ concat (map (dump_line first lst (regs (world s))) l)"
  have prems: "\<forall>i \<in> set is. i + 16 \<le> 256" "sorted is" "i + 16 \<le> 256" using Cons.prems by simp_all
  note IH = Cons.IH [OF prems(1,2)]
  have past: "filter ?sel is = []" if "int i div 16 > lst div 16"
  proof -
    have "int i div 16 \<le> int k div 16" if "k \<in> set is" for k
      using Cons.prems(2) that by (auto intro!: zdiv_mono1)
    with that show ?thesis by (fastforce simp: filter_empty_conv)
  qed
  have rest: "wp (dump_rows K f I2C_SMBUS_BYTE_DATA first lst sl is b) (?Q (i # filter ?sel is)) E t"
    if "length b = 256" "regs (world t) = regs (world s)"
      "stdout t = stdout s @ dump_line first lst (regs (world s)) i" for b t
    by (rule wp_mono [OF IH [OF that(1)]]) (use that in auto)
  have "wp (dump_rows K f I2C_SMBUS_BYTE_DATA first lst sl (i # is) block) (?Q (i # filter ?sel is)) E s"
    if "?sel i"
    using that
    by (simp add: wp_then wp_print, intro dump_row_chip [OF assms prems(3) Cons.prems(3)],
        intro wp_mono [OF rest]) (auto simp: dump_line_def [of _ _ _ i])
  then show ?case
    using IH [OF Cons.prems(3), of s] past by (cases "?sel i") (auto simp: wp_simps)
qed (simp add: wp_simps)

text \<open>The registers as they are while the bank is switched.\<close>

definition banked :: "int \<Rightarrow> 8 word \<Rightarrow> (8 word \<Rightarrow> 8 word) \<Rightarrow> 8 word \<Rightarrow> 8 word" where
  "banked bank c R = (if bank = 0 then R else R(c := to_u8 (bank OR (uint (R c) AND 0xf0))))"

lemma row_starts_sorted: "sorted (row_starts 16)" "\<forall>i \<in> set (row_starts 16). i + 16 \<le> 256"
  by (auto simp: row_starts_def sorted_map intro!: sorted_wrt_mono_rel [OF _ sorted_upt])

lemma dump_session_chip:
  assumes "byte_chip K f regs"
  shows "wp (dump_session K f I2C_SMBUS_BYTE_DATA False bank (uint c) first lst)
    (\<lambda>_ _. False)
    (\<lambda>x t. x = Exit 0 \<and> regs (world t) = regs (world s) \<and>
       stdout t = stdout s @ dump_table first lst (banked bank c (regs (world s)))) s"
proof -
  have tab: "wp (dump_bytes K f I2C_SMBUS_BYTE_DATA b first lst)
      (\<lambda>_ t. regs (world t) = regs (world u) \<and>
         stdout t = stdout u @ dump_table first lst (regs (world u))) E u" for b E u
    unfolding dump_bytes_def
    by (auto simp: dump_read_block_def wp_simps dump_table_def
        intro!: wp_mono [OF dump_rows_chip [OF assms row_starts_sorted(2,1), where E = E]])
  have restore: "(R(c := b))(c := R c) = R" for R :: "8 word \<Rightarrow> 8 word" and b by simp
  show ?thesis
    unfolding dump_session_def bank_switch_def
    by (auto simp: wp_simps banked_def same_io_def restore fun_upd_idem
        intro!: live_read [OF assms] live_write [OF assms] wp_mono [OF tab [where E = "\<lambda>_ _. False"]])
qed

text \<open>
  C25.  \<open>i2cdump -y BUS CHIP b BANK BANKREG\<close> on a bus that is up prints the table of the registers
  as they are with the bank switched (the bank in the low half of the bank register, whose high
  half it keeps), leaves every register as it was, and exits with status 0.
\<close>

theorem i2cdump_prints_bank:
  fixes K :: "'w kernel"
  assumes "live_bus K regs" and "n \<le> 0xFFFFF" and "a \<le> 0x80" and "k \<le> 15"
  shows "\<exists>t. i2cdump_main K [''-y'', hex_arg n, hex_arg a, ''b'', hex_arg k, hex_arg (unat c)] s =
       (Inl (Exit 0), t) \<and>
     regs (world t) = regs (world s) \<and>
     stdout t = stdout s @ dump_table 0 0xff (banked (int k) c (regs (world s)))"
proof -
  let ?pos = "[hex_arg n, hex_arg a, ''b'', hex_arg k, hex_arg (unat c)]"
  have k: "strtol (hex_arg k) 0 = (int k, [])" "to_int (int k) = int k"
    by (rule strtol_hex_arg, use assms(4) in simp) (rule to_int_id, use assms(4) in simp_all)
  have c: "\<not> 255 < uint c" using uint_u8_range [of c] by linarith
  have bank: "(i2cdump_bank ?pos I2C_SMBUS_BYTE_DATA :: ('w, int \<times> int) i2c) = ret (int k, uint c)"
    using k c assms(4) strtol_hex_arg [OF unat_u8_bounds(2), of c] to_int_u8 [of c]
    by (simp add: i2cdump_bank_def i2cdump_bankreg_def)
  note live = live_open [OF assms(1)] live_funcs [OF assms(1)] live_slave [OF assms(1)]
  have "wp (i2cdump_run K False True (int n) (int a) I2C_SMBUS_BYTE_DATA False False (int k) (uint c)
      False 0 0xff) (\<lambda>_ _. False)
      (\<lambda>x t. x = Exit 0 \<and> regs (world t) = regs (world s) \<and>
         stdout t = stdout s @ dump_table 0 0xff (banked (int k) c (regs (world s)))) s"
    unfolding i2cdump_run_def i2cdump_check_funcs_def
    by (auto simp: wp_simps all_funcs_def same_io_def
        intro!: live wp_mono [OF dump_session_chip [OF live_byte_chip [OF assms(1)]]])
  moreover have "i2cdump_main K (''-y'' # ?pos) =
      i2cdump_run K False True (int n) (int a) I2C_SMBUS_BYTE_DATA False False (int k) (uint c) False 0 0xff"
    using assms(2,3) bank
    by (simp add: i2cdump_main_def lookup_hex_arg address_hex_arg i2cdump_mode_def i2cdump_range_def Let_def NUL_def)
  ultimately show ?thesis by (auto dest: wp_exitD)
qed

theorem i2cdump_prints_bank_witness:
  "live_bus sim_kernel (\<lambda>w. w) \<and>
   (\<exists>t. i2cdump_main sim_kernel [''-y'', hex_arg 1, hex_arg 0x2d, ''b'', hex_arg 2, hex_arg (unat (0x4e :: 8 word))]
        (sim_start []) = (Inl (Exit 0), t) \<and>
     world t = world (sim_start []) \<and>
     stdout t = stdout (sim_start []) @ dump_table 0 0xff (banked (int 2) 0x4e (world (sim_start []))))"
  using sim_live i2cdump_prints_bank [OF sim_live, of 1 "0x2d" 2 "0x4e" "sim_start []"] by simp

text \<open>
  Without \<open>-y\<close>, a no from the user ends the run before any transaction with the chip.
\<close>

theorem i2cdump_asks_first:
  assumes "setup_keeps K I" and "slave_keeps K I" and "pec_keeps K I" and "I (world s)"
    and "\<not> ack_line True (stdin s)"
  shows "I (world (snd (i2cdump_run K force False bus a sz pec evn bank bankreg ranged first lst s)))"
proof -
  have no: "wp (i2cdump_confirm fn a sz p evn bank bankreg ranged first lst) (\<lambda>_ _. False)
      (\<lambda>_ t. I (world t)) t" if "I (world t)" "stdin t = stdin s" for fn p t
    using that assms(5) unfolding i2cdump_confirm_def by (simp add: wp_simps)
  have k: "I (snd (k_funcs K f w))" "I (snd (k_pec K f b w))" if "I w" for f b w
    using assms(1,3) that by (simp_all add: setup_keeps_def pec_keeps_def)
  have ck: "wp (i2cdump_check_funcs K f sz p) (\<lambda>_ u. I (world u) \<and> stdin u = stdin t) E t"
    if "I (world t)" for f p t E
    unfolding i2cdump_check_funcs_def wp_bind
    by (rule wp_sys_keeps [where I = I, OF k(1) that]) (auto simp: wp_simps split: sum.split)
  have "wp (i2cdump_run K force False bus a sz pec evn bank bankreg ranged first lst)
      (\<lambda>_ t. I (world t)) (\<lambda>_ t. I (world t)) s"
    unfolding i2cdump_run_def wp_bind
    by (rule wp_mono [OF wp_setup_calls [OF assms(1,4)]])
      (auto simp: wp_simps intro!: wp_mono [OF ck [where E = "\<lambda>_ _. False"]]
        wp_mono [OF wp_set_slave_calls [OF assms(2), where E = "\<lambda>_ _. False"]]
        wp_sys_keeps [where I = I, OF k(2)] wp_mono [OF no] split: option.split)
  then show ?thesis by (rule wp_anyD)
qed

theorem i2cdump_asks_first_witness:
  "world (snd (i2cdump_run sim_kernel False False 1 0x2d I2C_SMBUS_BYTE_DATA False False 2 0x4e False 0 0xff
     (sim_start ''n''))) 0x4e = 0x4f"
  using i2cdump_asks_first [OF sim_keeps(1-3), where I = "\<lambda>w. w 0x4e = 0x4f" and s = "sim_start ''n''"]
  by (simp add: sim_start_def ack_line_def)

end
