(* ===== verification/Iw_Text.thy ===== *)
theory Iw_Text
  imports CString
begin

unbundle bit_operations_syntax

text \<open>
  The text formats of \<open>iw\<close> (\<open>wifi_tools/iw/util.c\<close>): MAC addresses, colon-separated hexadecimal
  bytes with an optional mask, escaped SSIDs, hexadecimal key data and the key arguments.  A parser
  is a function to an error or a result; an access outside an allocated buffer is one of the
  errors.  What it means that a printer and a parser belong together is the locale \<open>text_codec\<close>.
\<close>

subsection \<open>Codecs\<close>

locale text_codec =
  fixes enc :: "'a \<Rightarrow> string" and dec :: "string \<Rightarrow> 'a option" and valid :: "'a \<Rightarrow> bool"
  assumes dec_enc: "valid x \<Longrightarrow> dec (enc x) = Some x"
begin

lemma enc_inj: "valid x \<Longrightarrow> valid y \<Longrightarrow> enc x = enc y \<longleftrightarrow> x = y"
  by (metis dec_enc option.inject)

lemma dec_range: "valid x \<Longrightarrow> \<exists>s. dec s = Some x"
  using dec_enc by blast

end

subsection \<open>Fields\<close>

text \<open>
  The step that both parsers share: \<open>strchr(s, ':')\<close>, the colon overwritten by a NUL.  The field,
  and the rest behind the colon if there was one.
\<close>

definition next_field :: "string \<Rightarrow> string \<times> string option" where
  "next_field s = (case split_at (CHR '':'') s of None \<Rightarrow> (s, None) | Some (a, b) \<Rightarrow> (a, Some b))"

lemma next_field_shorter: "next_field s = (f, Some r) \<Longrightarrow> length r < length s"
  by (auto simp: next_field_def dest: split_at_length split: option.splits)

text \<open>\<open>sscanf(s, "%x", &temp)\<close> into an \<open>int\<close>.\<close>

definition sscanf_x :: "string \<Rightarrow> int option" where
  "sscanf_x s = (case scan_num 16 s of None \<Rightarrow> None | Some _ \<Rightarrow> Some (to_int (fst (strtoul s 16))))"

subsection \<open>MAC addresses\<close>

definition ETH_ALEN :: nat where
  "ETH_ALEN = 6"

definition mac_addr_n2a :: "8 word list \<Rightarrow> string" where
  "mac_addr_n2a arg =
     concat (map (\<lambda>i. if i = 0 then fmt_0x 2 (unat (arg ! i)) else '':'' @ fmt_0x 2 (unat (arg ! i)))
       [0..<ETH_ALEN])"

text \<open>The loop: \<open>Inl\<close> is its \<open>return -1\<close>; \<open>Inr\<close> its end, with the value of \<open>i\<close> there.\<close>

function a2n_loop :: "nat \<Rightarrow> 8 word list \<Rightarrow> string \<Rightarrow> 8 word list + nat \<times> 8 word list" where
  "a2n_loop i mac arg =
     (if ETH_ALEN \<le> i then Inr (i, mac)
      else (case next_field arg of (fld, cp) \<Rightarrow>
        case sscanf_x fld of
          None \<Rightarrow> Inl mac
        | Some temp \<Rightarrow>
            if temp < 0 \<or> temp > 255 then Inl mac
            else (let mac = mac[i := to_u8 temp] in
              case cp of None \<Rightarrow> Inr (i, mac) | Some r \<Rightarrow> a2n_loop (i + 1) mac r)))"
  by pat_completeness auto

termination
  by (relation "measure (\<lambda>(i, mac, arg). ETH_ALEN - i)") auto

declare a2n_loop.simps [simp del]

definition mac_addr_a2n :: "8 word list \<Rightarrow> string \<Rightarrow> int \<times> 8 word list" where
  "mac_addr_a2n mac arg =
     (case a2n_loop 0 mac arg of
        Inl m \<Rightarrow> (-1, m)
      | Inr (i, m) \<Rightarrow> if i < ETH_ALEN - 1 then (-1, m) else (0, m))"

subsection \<open>Hexadecimal bytes\<close>

datatype hex_error = No_memory | Bad_hex | Out_of_bounds

definition skipped :: "string \<Rightarrow> bool" where
  "skipped fld \<longleftrightarrow> fld = ''-'' \<or> fld = ''xx'' \<or> fld = ''--''"

text \<open>One byte stored into the result and its bit into the mask.\<close>

definition store_byte ::
  "bool \<Rightarrow> nat \<Rightarrow> string \<Rightarrow> 8 word list \<times> 8 word list \<Rightarrow> hex_error + 8 word list \<times> 8 word list" where
  "store_byte masked pos fld = (\<lambda>(val, msk).
     if masked \<and> skipped fld then Inr (val, msk)
     else (case strtoul fld 16 of (v, end) \<Rightarrow>
       let temp = to_int v in
       if end \<noteq> [] \<or> temp < 0 \<or> temp > 255 then Inl Bad_hex
       else if length val \<le> pos then Inl Out_of_bounds
       else if masked then
         (if length msk \<le> pos div 8 then Inl Out_of_bounds
          else Inr (val[pos := to_u8 temp],
                    msk[pos div 8 := msk ! (pos div 8) OR push_bit (pos mod 8) 1]))
       else Inr (val[pos := to_u8 temp], msk)))"

function hex_loop ::
  "bool \<Rightarrow> nat \<Rightarrow> 8 word list \<times> 8 word list \<Rightarrow> string \<Rightarrow> hex_error + nat \<times> 8 word list \<times> 8 word list" where
  "hex_loop masked pos bufs hexmask =
     (case next_field hexmask of (fld, cp) \<Rightarrow>
      case store_byte masked pos fld bufs of
        Inl e \<Rightarrow> Inl e
      | Inr bufs \<Rightarrow>
          (case cp of None \<Rightarrow> Inr (pos + 1, bufs) | Some r \<Rightarrow> hex_loop masked (pos + 1) bufs r))"
  by pat_completeness auto

termination
  by (relation "measure (\<lambda>(masked, pos, bufs, hexmask). length hexmask)")
    (auto dest: next_field_shorter [OF sym])

declare hex_loop.simps [simp del]

text \<open>
  \<open>parse_hex_mask\<close>: the length of the result, the two buffers.  \<open>calloc\<close> says whether an
  allocation of that many bytes succeeds; a buffer it gives is zeroed.
\<close>

definition parse_hex_mask ::
  "(nat \<Rightarrow> bool) \<Rightarrow> bool \<Rightarrow> string \<Rightarrow> hex_error + nat \<times> 8 word list \<times> 8 word list" where
  "parse_hex_mask calloc masked hexmask =
     (let len = length hexmask div 2; mlen = (len + 7) div 8 + 2 in
      if \<not> calloc (len + 2) then Inl No_memory
      else if masked \<and> \<not> calloc mlen then Inl No_memory
      else hex_loop masked 0
        (replicate (len + 2) 0, if masked then replicate mlen 0 else []) hexmask)"

text \<open>The bytes \<open>parse_hex\<close> gives to its caller.\<close>

definition parse_hex :: "(nat \<Rightarrow> bool) \<Rightarrow> string \<Rightarrow> hex_error + 8 word list" where
  "parse_hex calloc hex =
     (case parse_hex_mask calloc False hex of
        Inl e \<Rightarrow> Inl e | Inr (n, val, msk) \<Rightarrow> Inr (take n val))"

subsection \<open>SSIDs\<close>

definition escape_byte :: "nat \<Rightarrow> nat \<Rightarrow> char \<Rightarrow> string" where
  "escape_byte len i c =
     (if isprint c \<and> c \<noteq> CHR '' '' \<and> c \<noteq> CHR 0x5C then [c]
      else if c = CHR '' '' \<and> (i \<noteq> 0 \<and> i \<noteq> len - 1) then '' ''
      else [CHR 0x5C, CHR ''x''] @ fmt_0x 2 (ord c))"

definition print_ssid_escaped :: "string \<Rightarrow> string" where
  "print_ssid_escaped data =
     concat (map (\<lambda>i. escape_byte (length data) i (data ! i)) [0..<length data])"

subsection \<open>Keys\<close>

definition hex2num :: "char \<Rightarrow> int" where
  "hex2num digit =
     (if \<not> isxdigit digit then -1
      else if isdigit digit then int (ord digit) - 48
      else int (ord (tolower digit)) - 97 + 10)"

definition hex2byte :: "string \<Rightarrow> int" where
  "hex2byte hex =
     (let d1 = hex2num (char_at hex 0) in
      if d1 < 0 then -1
      else let d2 = hex2num (char_at hex 1) in
        if d2 < 0 then -1 else (d1 * 16) OR d2)"

text \<open>The bytes written to the buffer, or \<open>None\<close> for the null result.\<close>

fun hex2bin :: "string \<Rightarrow> 8 word list option" where
  "hex2bin [] = Some []"
| "hex2bin (c # cs) =
     (let d = hex2byte (c # cs) in
      if d < 0 then None
      else (case hex2bin (tl cs) of None \<Rightarrow> None | Some bs \<Rightarrow> Some (to_u8 d # bs)))"

text \<open>
  The attributes put into a netlink message, in order.  Whether there is room for another one is
  up to the message (\<open>libnl\<close>): \<open>fits\<close> of the attributes with it.
\<close>

datatype nla =
    Nla_flag nat | Nla_u8 nat "8 word" | Nla_u16 nat "16 word" | Nla_u32 nat "32 word" | Nla_u64 nat "64 word" | Nla_bytes nat "8 word list"
  | Nest_start nat | Nest_end

type_synonym nl_msg = "nla list"

definition nla_put :: "(nl_msg \<Rightarrow> bool) \<Rightarrow> nla \<Rightarrow> nl_msg \<Rightarrow> nl_msg option" where
  "nla_put fits a msg = (if fits (msg @ [a]) then Some (msg @ [a]) else None)"

definition NL80211_ATTR_PRIVACY :: nat where "NL80211_ATTR_PRIVACY = 70"
definition NL80211_ATTR_KEYS :: nat where "NL80211_ATTR_KEYS = 81"
definition NL80211_KEY_DATA :: nat where "NL80211_KEY_DATA = 1"
definition NL80211_KEY_IDX :: nat where "NL80211_KEY_IDX = 2"
definition NL80211_KEY_CIPHER :: nat where "NL80211_KEY_CIPHER = 3"
definition NL80211_KEY_DEFAULT :: nat where "NL80211_KEY_DEFAULT = 5"

text \<open>
  What ends \<open>parse_keys\<close> early: no room (\<open>-ENOBUFS\<close>), or a malformed key, which prints the
  explanation and returns 2.
\<close>

datatype key_error = No_bufs | Explain

fun put_all :: "(nl_msg \<Rightarrow> bool) \<Rightarrow> nla list \<Rightarrow> nl_msg \<Rightarrow> key_error + nl_msg" where
  "put_all fits [] msg = Inr msg"
| "put_all fits (a # as) msg =
     (case nla_put fits a msg of None \<Rightarrow> Inl No_bufs | Some msg \<Rightarrow> put_all fits as msg)"

definition bytes_of :: "string \<Rightarrow> 8 word list" where
  "bytes_of s = map (\<lambda>c. word_of_nat (ord c)) s"

text \<open>
  The data of a key by its length: the cipher suite, and the bytes (\<open>None\<close>: not hexadecimal).
\<close>

definition key_data :: "string \<Rightarrow> (32 word \<times> 8 word list option) option" where
  "key_data keydata =
     (if length keydata = 10 then Some (0x000FAC01, hex2bin keydata)
      else if length keydata = 5 then Some (0x000FAC01, Some (bytes_of keydata))
      else if length keydata = 26 then Some (0x000FAC05, hex2bin keydata)
      else if length keydata = 13 then Some (0x000FAC05, Some (bytes_of keydata))
      else None)"

text \<open>One turn of the loop on the key number \<open>i\<close>; \<open>final\<close> is the test for the last argument.\<close>

definition put_key ::
  "(nl_msg \<Rightarrow> bool) \<Rightarrow> nat \<Rightarrow> bool \<Rightarrow> bool \<Rightarrow> string \<Rightarrow> nl_msg \<Rightarrow> key_error + bool \<times> nl_msg" where
  "put_key fits i have_default final arg msg =
     (case nla_put fits (Nest_start i) msg of None \<Rightarrow> Inl No_bufs
      | Some msg \<Rightarrow>
      let d = (char_at arg 0 = CHR ''d'');
          pos = (if d then (if char_at arg 1 = CHR '':'' then 2 else 1) else 0);
          have_default = (have_default \<or> d)
      in case put_all fits (if d then [Nla_flag NL80211_KEY_DEFAULT] else []) msg of Inl e \<Rightarrow> Inl e
      | Inr msg \<Rightarrow>
      if \<not> isdigit (char_at arg pos) then Inl Explain
      else case put_all fits [Nla_u8 NL80211_KEY_IDX (word_of_nat (ord (char_at arg pos) - 48))] msg of
        Inl e \<Rightarrow> Inl e
      | Inr msg \<Rightarrow>
      if char_at arg (pos + 1) \<noteq> CHR '':'' then Inl Explain
      else case key_data (drop (pos + 2) arg) of None \<Rightarrow> Inl Explain
      | Some (cipher, data) \<Rightarrow>
      case put_all fits [Nla_u32 NL80211_KEY_CIPHER cipher] msg of Inl e \<Rightarrow> Inl e
      | Inr msg \<Rightarrow>
      case data of None \<Rightarrow> Inl Explain
      | Some bytes \<Rightarrow>
      case put_all fits (Nla_bytes NL80211_KEY_DATA bytes #
                         (if \<not> have_default \<and> final then [Nla_flag NL80211_KEY_DEFAULT] else [])) msg of
        Inl e \<Rightarrow> Inl e
      | Inr msg \<Rightarrow> Inr (have_default, msg @ [Nest_end]))"

fun put_keys ::
  "(nl_msg \<Rightarrow> bool) \<Rightarrow> nat \<Rightarrow> bool \<Rightarrow> string list \<Rightarrow> nl_msg \<Rightarrow> key_error + nl_msg" where
  "put_keys fits i have_default [] msg = Inr msg"
| "put_keys fits i have_default (a # as) msg =
     (case put_key fits (i + 1) have_default (as = []) a msg of
        Inl e \<Rightarrow> Inl e
      | Inr (have_default, msg) \<Rightarrow> put_keys fits (i + 1) have_default as msg)"

definition ENOBUFS :: int where "ENOBUFS = 105"

definition key_code :: "key_error \<Rightarrow> int" where
  "key_code e = (case e of No_bufs \<Rightarrow> - ENOBUFS | Explain \<Rightarrow> 2)"

definition parse_keys :: "(nl_msg \<Rightarrow> bool) \<Rightarrow> string list \<Rightarrow> nl_msg \<Rightarrow> int + nl_msg" where
  "parse_keys fits argv msg =
     (if argv = [] then Inl 1
      else case put_all fits [Nla_flag NL80211_ATTR_PRIVACY, Nest_start NL80211_ATTR_KEYS] msg of
        Inl e \<Rightarrow> Inl (key_code e)
      | Inr msg \<Rightarrow>
          (case put_keys fits 0 False argv msg of
             Inl e \<Rightarrow> Inl (key_code e)
           | Inr msg \<Rightarrow> Inr (msg @ [Nest_end])))"

subsection \<open>The fields of a string\<close>

function fields :: "string \<Rightarrow> string list" where
  "fields s = (case next_field s of (f, None) \<Rightarrow> [f] | (f, Some r) \<Rightarrow> f # fields r)"
  by pat_completeness auto

termination
  by (relation "measure length") (auto dest: next_field_shorter [OF sym])

declare fields.simps [simp del]

lemma fields_step: "next_field s = (f, cp) \<Longrightarrow> fields s = f # (case cp of None \<Rightarrow> [] | Some r \<Rightarrow> fields r)"
  by (subst fields.simps) (simp split: option.split)

lemma fields_nonempty [simp]: "fields s \<noteq> []"
  by (subst fields.simps) (simp split: prod.split option.split)

fun colon_join :: "string list \<Rightarrow> string" where
  "colon_join [] = []"
| "colon_join [f] = f"
| "colon_join (f # fs) = f @ '':'' @ colon_join fs"

lemma next_field_last: "CHR '':'' \<notin> set f \<Longrightarrow> next_field f = (f, None)"
  by (simp add: next_field_def split_at_None [THEN iffD2])

lemma next_field_more: "CHR '':'' \<notin> set f \<Longrightarrow> next_field (f @ CHR '':'' # r) = (f, Some r)"
  by (simp add: next_field_def)

lemma fields_colon_join:
  "fs \<noteq> [] \<Longrightarrow> \<forall>f \<in> set fs. CHR '':'' \<notin> set f \<Longrightarrow> fields (colon_join fs) = fs"
  by (induction fs rule: colon_join.induct)
    (auto simp: fields_step [OF next_field_last] fields_step [OF next_field_more])

lemma colon_join_fields: "colon_join (fields s) = s"
proof (induction "length s" arbitrary: s rule: less_induct)
  case less
  show ?case
  proof (cases "split_at (CHR '':'') s")
    case None
    then show ?thesis by (subst fields.simps) (simp add: next_field_def)
  next
    case (Some p)
    then obtain a b where "split_at (CHR '':'') s = Some (a, b)" by (cases p) auto
    then have n: "next_field s = (a, Some b)" and e: "s = a @ CHR '':'' # b"
      by (auto simp: next_field_def split_at_Some)
    obtain f fs where b: "fields b = f # fs" using fields_nonempty [of b] by (cases "fields b") auto
    have "fields s = a # f # fs" by (subst fields.simps) (simp add: n b)
    moreover have "colon_join (f # fs) = b" using less [of b] e b by simp
    ultimately show ?thesis using e by simp
  qed
qed

lemma length_colon_join: "fs \<noteq> [] \<Longrightarrow> length (colon_join fs) = sum_list (map length fs) + length fs - 1"
  by (induction fs rule: colon_join.induct) auto

text \<open>Two hexadecimal digits: what the printers write for a byte, and what the parsers make of it.\<close>

lemma hex2_no_colon [simp]: "CHR '':'' \<notin> set (fmt_0x 2 n)"
proof
  assume "CHR '':'' \<in> set (fmt_0x 2 n)"
  from hex2_digits [OF this] show False by (simp add: isxdigit_def isdigit_def)
qed

lemma strtoul_hex2: "strtoul (fmt_0x 2 (unat (b :: 8 word))) 16 = (uint b, [])"
proof -
  have "\<not> ULONG_MAX < uint b"
    using order.strict_trans [OF conjunct2 [OF uint_u8_range [of b]], of ULONG_MAX]
    by (simp add: ULONG_MAX_def)
  then show ?thesis by (simp add: strtoul_def scan_hex2)
qed

subsection \<open>MAC addresses\<close>

text \<open>The value of a field as an octet.\<close>

definition octet :: "string \<Rightarrow> 8 word option" where
  "octet f = (case sscanf_x f of None \<Rightarrow> None | Some t \<Rightarrow> if t < 0 \<or> t > 255 then None else Some (to_u8 t))"

lemma octet_hex2: "octet (fmt_0x 2 (unat b)) = Some b"
proof -
  have "\<not> 255 < uint b" using uint_u8_range [of b] by linarith
  then show ?thesis by (simp add: octet_def sscanf_x_def scan_hex2 strtoul_hex2 to_int_u8)
qed

lemma take_Suc_update: "i < length xs \<Longrightarrow> take (Suc i) (xs[i := b]) = take i xs @ [b]"
  by (simp add: take_Suc_conv_app_nth)

lemma a2n_loop_step:
  assumes "i < ETH_ALEN" and "next_field arg = (f, cp)"
  shows "a2n_loop i mac arg = (case octet f of None \<Rightarrow> Inl mac
    | Some b \<Rightarrow> (case cp of None \<Rightarrow> Inr (i, mac[i := b]) | Some r \<Rightarrow> a2n_loop (i + 1) (mac[i := b]) r))"
  using assms by (subst a2n_loop.simps) (simp add: octet_def Let_def split: option.split)

lemma a2n_loop_ok:
  "i \<le> ETH_ALEN \<Longrightarrow> length mac = ETH_ALEN \<Longrightarrow> fs = take (ETH_ALEN - i) (fields arg) \<Longrightarrow>
     \<forall>f \<in> set fs. octet f \<noteq> None \<Longrightarrow>
     a2n_loop i mac arg =
       Inr (if ETH_ALEN - i < length (fields arg) then ETH_ALEN else i + length fs - 1,
            take i mac @ map (\<lambda>f. the (octet f)) fs @ drop (i + length fs) mac)"
proof (induction "ETH_ALEN - i" arbitrary: i mac arg fs)
  case 0
  then show ?case by (subst a2n_loop.simps) simp
next
  case (Suc k)
  obtain f cp where nf: "next_field arg = (f, cp)" by (cases "next_field arg")
  have i: "i < ETH_ALEN" and k: "k = ETH_ALEN - (i + 1)" using Suc.hyps(2) by auto
  define gs where "gs = take k (case cp of None \<Rightarrow> [] | Some r \<Rightarrow> fields r)"
  have "ETH_ALEN - i = Suc k" using Suc.hyps(2) by simp
  then have fs: "fs = f # gs" by (simp add: Suc.prems(3) fields_step [OF nf] gs_def)
  then obtain b where b: "octet f = Some b" using Suc.prems(4) by auto
  have gs: "\<forall>g \<in> set gs. octet g \<noteq> None" using Suc.prems(4) fs by simp
  show ?case
  proof (cases cp)
    case None
    then show ?thesis
      using i b Suc.prems(2) fs take_Suc_update [of i mac b] Suc.hyps(2)
      by (simp add: a2n_loop_step [OF i nf] fields_step [OF nf] gs_def upd_conv_take_nth_drop)
  next
    case (Some r)
    have "a2n_loop (i + 1) (mac[i := b]) r =
       Inr (if ETH_ALEN - (i + 1) < length (fields r) then ETH_ALEN else i + 1 + length gs - 1,
            take (i + 1) (mac[i := b]) @ map (\<lambda>f. the (octet f)) gs @ drop (i + 1 + length gs) (mac[i := b]))"
      by (rule Suc.hyps(1) [OF k]) (use i Suc.prems(2) gs Some k in \<open>simp_all add: gs_def\<close>)
    then show ?thesis
      using i b Suc.prems(2) fs Some take_Suc_update [of i mac b]
      by (auto simp: a2n_loop_step [OF i nf] fields_step [OF nf])
  qed
qed

lemma a2n_loop_bad:
  "i \<le> ETH_ALEN \<Longrightarrow> \<exists>f \<in> set (take (ETH_ALEN - i) (fields arg)). octet f = None \<Longrightarrow>
     \<exists>m. a2n_loop i mac arg = Inl m"
proof (induction "ETH_ALEN - i" arbitrary: i mac arg)
  case (Suc k)
  obtain f cp where nf: "next_field arg = (f, cp)" by (cases "next_field arg")
  have i: "i < ETH_ALEN" and k: "k = ETH_ALEN - (i + 1)" using Suc.hyps(2) by auto
  from Suc.prems(2) have "octet f = None \<or> (\<exists>r. cp = Some r \<and>
      (\<exists>g \<in> set (take (ETH_ALEN - (i + 1)) (fields r)). octet g = None))"
    using k by (auto simp: fields_step [OF nf] simp flip: Suc.hyps(2) split: option.splits)
  then show ?case
    using Suc.hyps(1) [OF k] i by (auto simp: a2n_loop_step [OF i nf] split: option.split)
qed simp

lemma mac_a2n_iff:
  assumes "length mac = ETH_ALEN"
  shows "mac_addr_a2n mac arg = (0, m) \<longleftrightarrow>
    ETH_ALEN \<le> length (fields arg) \<and> map octet (take ETH_ALEN (fields arg)) = map Some m"
proof -
  let ?fs = "take ETH_ALEN (fields arg)"
  show ?thesis
  proof (cases "\<forall>f \<in> set ?fs. octet f \<noteq> None")
    case True
    then have l: "a2n_loop 0 mac arg = Inr (if ETH_ALEN < length (fields arg) then ETH_ALEN
        else length ?fs - 1, map (\<lambda>f. the (octet f)) ?fs @ drop (length ?fs) mac)"
      using a2n_loop_ok [of 0 mac ?fs arg] assms by simp
    have "map octet ?fs = map Some m \<longleftrightarrow> m = map (\<lambda>f. the (octet f)) ?fs"
    proof
      assume "map octet ?fs = map Some m"
      then have "map the (map octet ?fs) = map the (map Some m)" by simp
      then show "m = map (\<lambda>f. the (octet f)) ?fs" by (simp add: comp_def)
    next
      assume "m = map (\<lambda>f. the (octet f)) ?fs"
      then show "map octet ?fs = map Some m" using True by simp
    qed
    moreover have "mac_addr_a2n mac arg = (if ETH_ALEN \<le> length (fields arg)
        then (0, map (\<lambda>f. the (octet f)) ?fs)
        else (- 1, map (\<lambda>f. the (octet f)) ?fs @ drop (length ?fs) mac))"
    proof (cases "ETH_ALEN \<le> length (fields arg)")
      case True
      then show ?thesis by (simp add: mac_addr_a2n_def l assms ETH_ALEN_def)
    next
      case False
      then have "length (fields arg) - 1 < 5" by (simp add: ETH_ALEN_def)
      with False show ?thesis by (simp add: mac_addr_a2n_def l ETH_ALEN_def)
    qed
    ultimately show ?thesis by auto
  next
    case False
    then obtain m' where "a2n_loop 0 mac arg = Inl m'" using a2n_loop_bad [of 0 arg mac] by auto
    moreover have "map octet ?fs \<noteq> map Some m"
    proof
      assume "map octet ?fs = map Some m"
      then have "octet ` set ?fs = Some ` set m" by (metis set_map)
      with False show False by (metis imageE imageI option.distinct(1))
    qed
    ultimately show ?thesis by (simp add: mac_addr_a2n_def)
  qed
qed

text \<open>
  \<open>mac_addr_a2n\<close> accepts exactly the strings with at least six fields between colons whose
  first six begin with a hexadecimal number from 0 to 255, and stores these six values.
\<close>

theorem mac_addr_a2n_iff:
  assumes "length mac = ETH_ALEN"
  shows "mac_addr_a2n mac arg = (0, m) \<longleftrightarrow>
    ETH_ALEN \<le> length (fields arg) \<and> map octet (take ETH_ALEN (fields arg)) = map Some m"
  by (rule mac_a2n_iff [OF assms])

theorem mac_addr_a2n_iff_witness:
  "mac_addr_a2n (replicate ETH_ALEN 0) ''0:1:2:ff:4:5'' = (0, [0, 1, 2, 0xff, 4, 5])"
proof -
  have "ETH_ALEN \<le> length (fields ''0:1:2:ff:4:5'')" by code_simp
  moreover have "map octet (take ETH_ALEN (fields ''0:1:2:ff:4:5'')) = map Some [0, 1, 2, 0xff, 4, 5]"
    by code_simp
  ultimately show ?thesis by (simp add: mac_addr_a2n_iff)
qed

lemma mac_addr_n2a_join: "mac_addr_n2a m = colon_join (map (\<lambda>i. fmt_0x 2 (unat (m ! i))) [0..<ETH_ALEN])"
  by (simp add: mac_addr_n2a_def ETH_ALEN_def upt_rec)

lemma mac_fields:
  assumes "length m = ETH_ALEN"
  shows "fields (mac_addr_n2a m) = map (\<lambda>b. fmt_0x 2 (unat b)) m"
proof -
  have "map (\<lambda>i. fmt_0x 2 (unat (m ! i))) [0..<ETH_ALEN] = map (\<lambda>b. fmt_0x 2 (unat b)) m"
    using assms by (auto intro: nth_equalityI)
  then show ?thesis
    unfolding mac_addr_n2a_join using assms
    by (subst fields_colon_join) (auto simp: ETH_ALEN_def)
qed

definition mac_dec :: "string \<Rightarrow> 8 word list option" where
  "mac_dec s = (case mac_addr_a2n (replicate ETH_ALEN 0) s of (r, m) \<Rightarrow> if r = 0 then Some m else None)"

text \<open>The printer and the parser of MAC addresses are a codec for the addresses of six bytes.\<close>

lemma mac_dec_n2a:
  assumes "length m = ETH_ALEN"
  shows "mac_dec (mac_addr_n2a m) = Some m"
proof -
  have "map octet (take ETH_ALEN (fields (mac_addr_n2a m))) = map Some m"
    using assms by (simp add: mac_fields octet_hex2 comp_def)
  then have "mac_addr_a2n (replicate ETH_ALEN 0) (mac_addr_n2a m) = (0, m)"
    using assms by (subst mac_a2n_iff) (simp_all add: mac_fields)
  then show ?thesis by (simp add: mac_dec_def)
qed

interpretation mac: text_codec mac_addr_n2a mac_dec "\<lambda>m. length m = ETH_ALEN"
  by unfold_locales (rule mac_dec_n2a)

text \<open>
  Printing a MAC address and parsing the text gives the address back; different addresses
  are printed differently.
\<close>

theorem mac_addr_round_trip:
  assumes "length m = ETH_ALEN" and "length m' = ETH_ALEN"
  shows "mac_dec (mac_addr_n2a m) = Some m \<and> (mac_addr_n2a m = mac_addr_n2a m' \<longleftrightarrow> m = m')"
  using mac.dec_enc [OF assms(1)] mac.enc_inj [OF assms] by blast

theorem mac_addr_round_trip_witness:
  "mac_dec (mac_addr_n2a [0, 0x1c, 0xb3, 9, 0x85, 0xff]) = Some [0, 0x1c, 0xb3, 9, 0x85, 0xff]"
  using mac_addr_round_trip [of "[0, 0x1c, 0xb3, 9, 0x85, 0xff]" "[0, 0x1c, 0xb3, 9, 0x85, 0xff]"]
  by (simp add: ETH_ALEN_def)

subsection \<open>Hexadecimal bytes\<close>

fun hex_fields ::
  "bool \<Rightarrow> nat \<Rightarrow> 8 word list \<times> 8 word list \<Rightarrow> string list \<Rightarrow> hex_error + nat \<times> 8 word list \<times> 8 word list" where
  "hex_fields masked pos bufs [] = Inr (pos, bufs)"
| "hex_fields masked pos bufs (f # fs) =
     (case store_byte masked pos f bufs of Inl e \<Rightarrow> Inl e
      | Inr bufs \<Rightarrow> hex_fields masked (pos + 1) bufs fs)"

lemma hex_loop_fields: "hex_loop masked pos bufs s = hex_fields masked pos bufs (fields s)"
proof (induction "length s" arbitrary: pos bufs s rule: less_induct)
  case less
  obtain f cp where nf: "next_field s = (f, cp)" by (cases "next_field s")
  show ?case
    using less next_field_shorter [of s f] nf
    by (subst hex_loop.simps) (auto simp: fields_step [OF nf] split: sum.split option.split)
qed

text \<open>A buffer that is long enough for the fields is never overrun.\<close>

lemma store_byte_length:
  "store_byte masked pos f (val, msk) = Inr (val', msk') \<Longrightarrow> length val' = length val \<and> length msk' = length msk"
  by (auto simp: store_byte_def Let_def split: if_splits prod.splits)

lemma hex_fields_in_bounds:
  "pos + length fs \<le> length val \<Longrightarrow> masked \<longrightarrow> pos + length fs \<le> 8 * length msk \<Longrightarrow>
     hex_fields masked pos (val, msk) fs \<noteq> Inl Out_of_bounds"
proof (induction fs arbitrary: pos val msk)
  case (Cons f fs)
  have b: "pos < length val" "masked \<longrightarrow> pos div 8 < length msk" using Cons.prems by auto
  then have "store_byte masked pos f (val, msk) \<noteq> Inl Out_of_bounds"
    by (auto simp: store_byte_def Let_def split: prod.split)
  moreover have "hex_fields masked (pos + 1) (val', msk') fs \<noteq> Inl Out_of_bounds"
    if "store_byte masked pos f (val, msk) = Inr (val', msk')" for val' msk'
    using Cons.prems store_byte_length [OF that] by (intro Cons.IH) simp_all
  ultimately show ?case by (cases "store_byte masked pos f (val, msk)") auto
qed simp

lemma sum_list_ge_length: "\<forall>f \<in> set fs. f \<noteq> [] \<Longrightarrow> length fs \<le> sum_list (map length fs)"
proof (induction fs)
  case (Cons f fs)
  then have "1 \<le> length f" by (cases f) auto
  with Cons show ?case by simp
qed simp

text \<open>The buffer has room for every field when none is empty.\<close>

lemma fields_fit:
  assumes "\<forall>f \<in> set (fields s). f \<noteq> []"
  shows "length (fields s) \<le> length s div 2 + 2"
proof -
  have "length s = sum_list (map length (fields s)) + length (fields s) - 1"
    using length_colon_join [of "fields s"] by (simp add: colon_join_fields)
  then have "2 * length (fields s) - 1 \<le> length s" using sum_list_ge_length [OF assms] by linarith
  then show ?thesis by linarith
qed

text \<open>
  With no empty field in the text, \<open>parse_hex_mask\<close> stays within the buffers it allocates.
\<close>

theorem parse_hex_mask_in_bounds:
  assumes "\<forall>f \<in> set (fields s). f \<noteq> []"
  shows "parse_hex_mask calloc masked s \<noteq> Inl Out_of_bounds"
proof -
  let ?n = "length (fields s)"
  define q where "q = (length s div 2 + 7) div 8"
  have "length s div 2 \<le> 8 * q" unfolding q_def by presburger
  then have "?n \<le> 8 * (q + 2)" using fields_fit [OF assms] by simp
  then show ?thesis
    using hex_fields_in_bounds [of 0 "fields s"] fields_fit [OF assms]
    by (simp add: q_def parse_hex_mask_def Let_def hex_loop_fields)
qed

theorem parse_hex_mask_in_bounds_witness:
  "parse_hex_mask (\<lambda>_. True) True ''a:--:ff'' \<noteq> Inl Out_of_bounds"
proof -
  have "\<forall>f \<in> set (fields ''a:--:ff''). f \<noteq> []" by code_simp
  then show ?thesis by (rule parse_hex_mask_in_bounds)
qed

text \<open>
  Empty fields are read as zero but not counted when the buffer is allocated: the text of
  three colons is four bytes, and the fourth is stored behind the three bytes allocated for it.
\<close>

theorem parse_hex_overrun: "parse_hex (\<lambda>_. True) '':::'' = Inl Out_of_bounds"
  by code_simp

lemma store_byte_hex2:
  "pos < length val \<Longrightarrow> store_byte False pos (fmt_0x 2 (unat b)) (val, msk) = Inr (val[pos := b], msk)"
proof -
  have "\<not> 255 < uint b" using uint_u8_range [of b] by linarith
  then show "pos < length val \<Longrightarrow> ?thesis"
    by (simp add: store_byte_def strtoul_hex2 to_int_u8)
qed

lemma hex_fields_bytes:
  "pos + length bs \<le> length val \<Longrightarrow>
     hex_fields False pos (val, msk) (map (\<lambda>b. fmt_0x 2 (unat b)) bs) =
       Inr (pos + length bs, take pos val @ bs @ drop (pos + length bs) val, msk)"
proof (induction bs arbitrary: pos val)
  case (Cons b bs)
  then have "pos < length val" by simp
  then show ?case
    using Cons by (simp add: store_byte_hex2 take_Suc_update)
qed simp

definition hex_text :: "8 word list \<Rightarrow> string" where
  "hex_text bs = colon_join (map (\<lambda>b. fmt_0x 2 (unat b)) bs)"

definition hex_dec :: "string \<Rightarrow> 8 word list option" where
  "hex_dec s = (case parse_hex (\<lambda>_. True) s of Inl e \<Rightarrow> None | Inr bs \<Rightarrow> Some bs)"

lemma hex_dec_text:
  assumes "bs \<noteq> []"
  shows "hex_dec (hex_text bs) = Some bs"
proof -
  let ?fs = "map (\<lambda>b. fmt_0x 2 (unat b)) bs"
  have f: "fields (hex_text bs) = ?fs"
    unfolding hex_text_def using assms by (intro fields_colon_join) auto
  have "sum_list (map length ?fs) = 2 * length bs"
    by (induction bs) (simp_all add: unat_u8_less)
  then have "length (hex_text bs) = 3 * length bs - 1"
    using length_colon_join [of ?fs] assms by (simp add: hex_text_def)
  moreover have "1 \<le> length bs" using assms by (cases bs) auto
  ultimately have "length bs \<le> length (hex_text bs) div 2 + 2" by linarith
  then show ?thesis
    using hex_fields_bytes [of 0 bs]
    by (simp add: hex_dec_def parse_hex_def parse_hex_mask_def Let_def hex_loop_fields f)
qed

interpretation hex: text_codec hex_text hex_dec "\<lambda>bs. bs \<noteq> []"
  by unfold_locales (rule hex_dec_text)

text \<open>
  Bytes written as two hexadecimal digits with colons between them are parsed to the same
  bytes, however many there are.
\<close>

theorem parse_hex_round_trip:
  assumes "bs \<noteq> []"
  shows "parse_hex (\<lambda>_. True) (hex_text bs) = Inr bs"
  using hex.dec_enc [OF assms] by (simp add: hex_dec_def split: sum.splits)

theorem parse_hex_round_trip_witness:
  "parse_hex (\<lambda>_. True) (hex_text [0xde, 0xad, 0]) = Inr [0xde, 0xad, 0]"
  using parse_hex_round_trip [of "[0xde, 0xad, 0]"] by simp

text \<open>The value and the mask bit of every field.\<close>

definition mask_bit :: "8 word list \<Rightarrow> nat \<Rightarrow> bool" where
  "mask_bit msk k \<longleftrightarrow> bit (msk ! (k div 8)) (k mod 8)"

lemma mask_bit_set:
  assumes "pos div 8 < length msk"
  shows "mask_bit (msk[pos div 8 := msk ! (pos div 8) OR push_bit (pos mod 8) 1]) k \<longleftrightarrow>
    k = pos \<or> mask_bit msk k"
proof (cases "k div 8 = pos div 8")
  case True
  then have "k mod 8 = pos mod 8 \<longleftrightarrow> k = pos" by (metis div_mult_mod_eq)
  moreover have "bit (push_bit (pos mod 8) 1 :: 8 word) (k mod 8) \<longleftrightarrow> k mod 8 = pos mod 8"
    by (auto simp: push_bit_of_1 bit_exp_iff)
  ultimately show ?thesis using True assms by (auto simp: mask_bit_def bit_or_iff)
next
  case False
  then show ?thesis by (auto simp: mask_bit_def)
qed

text \<open>What storing a field does to the value and the mask bit at its position, and elsewhere.\<close>

definition field_stored :: "string \<Rightarrow> 8 word list \<Rightarrow> 8 word list \<Rightarrow> nat \<Rightarrow> bool" where
  "field_stored f val msk k \<longleftrightarrow>
     (if skipped f then \<not> mask_bit msk k \<and> val ! k = 0
      else mask_bit msk k \<and> snd (strtoul f 16) = [] \<and> to_int (fst (strtoul f 16)) = uint (val ! k))"

lemma store_byte_masked:
  assumes "store_byte True pos f (val, msk) = Inr (val', msk')"
    and "\<not> mask_bit msk pos" "val ! pos = 0"
  shows "field_stored f val' msk' pos"
    and "k \<noteq> pos \<Longrightarrow> mask_bit msk' k = mask_bit msk k \<and> val' ! k = val ! k"
proof -
  have "field_stored f val' msk' pos \<and> (k \<noteq> pos \<longrightarrow> mask_bit msk' k = mask_bit msk k \<and> val' ! k = val ! k)"
    using assms mask_bit_set [of pos msk]
    by (auto simp: store_byte_def field_stored_def Let_def uint_to_u8 split: if_splits prod.splits)
  then show "field_stored f val' msk' pos"
    and "k \<noteq> pos \<Longrightarrow> mask_bit msk' k = mask_bit msk k \<and> val' ! k = val ! k" by auto
qed

lemma hex_fields_masked:
  "hex_fields True pos (val, msk) fs = Inr (n, val', msk') \<Longrightarrow>
     \<forall>k. pos \<le> k \<and> k < pos + length fs \<longrightarrow> \<not> mask_bit msk k \<and> val ! k = 0 \<Longrightarrow>
     n = pos + length fs \<and> (\<forall>k < length fs. field_stored (fs ! k) val' msk' (pos + k)) \<and>
     (\<forall>k < pos. mask_bit msk' k = mask_bit msk k \<and> val' ! k = val ! k)"
proof (induction fs arbitrary: pos val msk)
  case (Cons f fs)
  obtain v1 m1 where s: "store_byte True pos f (val, msk) = Inr (v1, m1)"
    and r: "hex_fields True (pos + 1) (v1, m1) fs = Inr (n, val', msk')"
    using Cons.prems(1) by (auto split: sum.splits)
  note st = store_byte_masked [OF s]
  have z: "\<not> mask_bit msk pos" "val ! pos = 0" using Cons.prems(2) by auto
  have "\<forall>k. pos + 1 \<le> k \<and> k < pos + 1 + length fs \<longrightarrow> \<not> mask_bit m1 k \<and> v1 ! k = 0"
    using st(2) [OF z] Cons.prems(2) by simp
  from Cons.IH [OF r this] have IH: "n = pos + 1 + length fs"
    "\<forall>k < length fs. field_stored (fs ! k) val' msk' (pos + 1 + k)"
    "\<forall>k < pos + 1. mask_bit msk' k = mask_bit m1 k \<and> val' ! k = v1 ! k" by auto
  have "field_stored f val' msk' pos" using st(1) [OF z] IH(3) by (simp add: field_stored_def)
  then have "field_stored ((f # fs) ! k) val' msk' (pos + k)" if "k < length (f # fs)" for k
    using that IH(2) by (cases k) auto
  moreover have "mask_bit msk' k = mask_bit msk k \<and> val' ! k = val ! k" if "k < pos" for k
    using that IH(3) st(2) [OF z, of k] by simp
  ultimately show ?case using IH(1) by simp
qed simp

text \<open>
  When \<open>parse_hex_mask\<close> accepts a text without empty fields, with a mask, the result has one
  byte per field; the mask bit of a byte is clear exactly when the field is one of the wildcards,
  and then the byte is zero; otherwise the byte is the value of the field.
\<close>

theorem parse_hex_mask_fields:
  assumes "parse_hex_mask calloc True s = Inr (n, val, msk)" and "\<forall>f \<in> set (fields s). f \<noteq> []"
  shows "n = length (fields s) \<and> (\<forall>k < n. field_stored (fields s ! k) val msk k)"
proof -
  let ?len = "length s div 2"
  have run: "hex_fields True 0 (replicate (?len + 2) 0, replicate ((?len + 7) div 8 + 2) 0) (fields s) =
      Inr (n, val, msk)"
    using assms(1) by (simp add: parse_hex_mask_def Let_def hex_loop_fields split: if_splits)
  have "\<not> mask_bit (replicate ((?len + 7) div 8 + 2) 0) k \<and> replicate (?len + 2) (0 :: 8 word) ! k = 0"
    if "k < length (fields s)" for k
  proof -
    have k: "k < ?len + 2" using that fields_fit [OF assms(2)] by simp
    then have "k div 8 \<le> (?len + 7) div 8" by (intro div_le_mono) simp
    then have "k div 8 < (?len + 7) div 8 + 2" by (rule order.strict_trans1) simp
    note z = nth_replicate [OF k, of "0 :: 8 word"] nth_replicate [OF this, of "0 :: 8 word"]
    show ?thesis unfolding mask_bit_def z by simp
  qed
  then show ?thesis using hex_fields_masked [OF run] by simp
qed

theorem parse_hex_mask_fields_witness:
  "parse_hex_mask (\<lambda>_. True) True ''a:--:ff'' = Inr (3, [0x0a, 0, 0xff, 0, 0], [5, 0, 0]) \<and>
   list_all (\<lambda>k. field_stored ([''a'', ''--'', ''ff''] ! k) [0x0a, 0, 0xff, 0, 0] [5, 0, 0] k) [0..<3]"
proof -
  have r: "parse_hex_mask (\<lambda>_. True) True ''a:--:ff'' = Inr (3, [0x0a, 0, 0xff, 0, 0], [5, 0, 0])"
    by code_simp
  have f: "fields ''a:--:ff'' = [''a'', ''--'', ''ff'']" by code_simp
  show ?thesis using parse_hex_mask_fields [OF r] r by (simp add: f list_all_length)
qed

subsection \<open>SSIDs\<close>

text \<open>Reading the escaped form back.\<close>

fun unescape :: "string \<Rightarrow> string option" where
  "unescape [] = Some []"
| "unescape (c # cs) =
     (if c = CHR 0x5C then
        (case cs of
           x # a # b # r \<Rightarrow>
             if x = CHR ''x'' \<and> isxdigit a \<and> isxdigit b
             then map_option (\<lambda>t. char_of (digits_val 16 0 [a, b]) # t) (unescape r) else None
         | _ \<Rightarrow> None)
      else map_option (\<lambda>t. c # t) (unescape cs))"

lemma fmt_02x_pair:
  assumes "n < 256"
  obtains a b where "fmt_0x 2 n = [a, b]" "isxdigit a" "isxdigit b" "digits_val 16 0 [a, b] = n"
proof -
  have "length (fmt_0x 2 n) = 2" using assms by simp
  then obtain a b where e: "fmt_0x 2 n = [a, b]" by (auto simp: length_Suc_conv numeral_2_eq_2)
  moreover have "isxdigit a" "isxdigit b" using hex2_digits [of _ n] e by simp_all
  moreover have "digits_val 16 0 [a, b] = n" using digits_val_fmt_0x [of 2 n] e by simp
  ultimately show ?thesis by (rule that)
qed

lemma unescape_byte: "unescape (escape_byte len i c @ r) = map_option (\<lambda>t. c # t) (unescape r)"
proof -
  obtain a b where ab: "fmt_0x 2 (ord c) = [a, b]" "isxdigit a" "isxdigit b" "digits_val 16 0 [a, b] = ord c"
    by (rule fmt_02x_pair [OF nat_of_char_less_256])
  have "unescape (([CHR 0x5C, CHR ''x''] @ fmt_0x 2 (ord c)) @ r) =
      map_option (\<lambda>t. char_of (digits_val 16 0 [a, b]) # t) (unescape r)"
    by (simp add: ab(1-3))
  then have esc: "unescape (([CHR 0x5C, CHR ''x''] @ fmt_0x 2 (ord c)) @ r) = map_option (\<lambda>t. c # t) (unescape r)"
    unfolding ab(4) by simp
  moreover have "unescape ([x] @ r) = map_option (\<lambda>t. x # t) (unescape r)" if "x \<noteq> CHR 0x5C" for x
    using that by simp
  ultimately show ?thesis unfolding escape_byte_def by (simp del: append_Cons append_assoc)
qed

lemma unescape_bytes:
  "unescape (concat (map (\<lambda>(i, c). escape_byte len i c) ps)) = Some (map snd ps)"
  by (induction ps) (auto simp: unescape_byte)

lemma print_ssid_zip:
  "print_ssid_escaped d = concat (map (\<lambda>(i, c). escape_byte (length d) i c) (zip [0..<length d] d))"
proof -
  have "map (\<lambda>i. escape_byte (length d) i (d ! i)) [0..<length d] =
      map (\<lambda>(i, c). escape_byte (length d) i c) (zip [0..<length d] d)"
    by (rule nth_equalityI) auto
  then show ?thesis by (simp add: print_ssid_escaped_def)
qed

interpretation ssid: text_codec print_ssid_escaped unescape "\<lambda>_. True"
  by unfold_locales (simp add: print_ssid_zip unescape_bytes)

lemma isxdigit_isprint: "isxdigit c \<Longrightarrow> isprint c"
  by (auto simp: isxdigit_def isdigit_def isprint_def)

lemma escape_byte_printable: "x \<in> set (escape_byte len i c) \<Longrightarrow> isprint x"
  using hex2_digits [of x "ord c"] isxdigit_isprint [of x]
  by (auto simp: escape_byte_def isprint_def split: if_splits)

text \<open>
  C33.  The escaped form of an SSID has printable characters only, and it determines the SSID: two
  SSIDs with the same escaped form are equal.
\<close>

theorem print_ssid_escaped_faithful:
  "list_all isprint (print_ssid_escaped d) \<and> (print_ssid_escaped d = print_ssid_escaped d' \<longleftrightarrow> d = d')"
proof -
  have "isprint x" if "x \<in> set (print_ssid_escaped d)" for x
    using that escape_byte_printable by (auto simp: print_ssid_escaped_def)
  then show ?thesis using ssid.enc_inj [of d d'] by (simp add: list_all_iff)
qed

theorem print_ssid_escaped_faithful_witness:
  "list_all isprint (print_ssid_escaped '' guest '') \<and>
   print_ssid_escaped '' guest '' \<noteq> print_ssid_escaped ''guest''"
  using print_ssid_escaped_faithful [of "'' guest ''" "''guest''"] by simp

subsection \<open>Keys\<close>

lemma hex2num_digit: "isxdigit c \<Longrightarrow> hex2num c = int (digit_val c) \<and> digit_val c < 16"
  by (auto simp: hex2num_def digit_val_def isxdigit_def isdigit_def tolower_def isupper_def)

lemma or_nibbles: "0 \<le> a \<Longrightarrow> 0 \<le> b \<Longrightarrow> b < 16 \<Longrightarrow> (a * 16) OR b = a * 16 + (b :: int)"
proof -
  assume "0 \<le> b" "b < 16"
  then have "take_bit 4 b = b" by (simp add: take_bit_int_eq_self)
  moreover have "(push_bit 4 a) OR (take_bit 4 b) = push_bit 4 a + take_bit 4 b"
    by (rule disjunctive_add [symmetric]) (simp add: bit_push_bit_iff bit_take_bit_iff)
  ultimately show ?thesis by (simp add: push_bit_eq_mult)
qed

lemma hex2byte_pair:
  assumes "isxdigit a" "isxdigit b"
  shows "hex2byte (a # b # r) = int (digits_val 16 0 [a, b])"
  using hex2num_digit [OF assms(1)] hex2num_digit [OF assms(2)]
  by (simp add: hex2byte_def Let_def or_nibbles)

lemma hex2bin_bytes: "hex2bin (concat (map (\<lambda>b. fmt_0x 2 (unat b)) bs)) = Some bs"
proof (induction bs)
  case (Cons b bs)
  obtain x y where xy: "fmt_0x 2 (unat b) = [x, y]" "isxdigit x" "isxdigit y" "digits_val 16 0 [x, y] = unat b"
    by (rule fmt_02x_pair [OF unat_u8_less])
  have "to_u8 (int (digits_val 16 0 [x, y])) = b" unfolding xy(4) by (simp add: to_u8_def)
  then show ?case using Cons xy hex2byte_pair [OF xy(2,3)] by simp
qed simp

text \<open>
  A key of 5 or 13 characters and the 10 or 26 hexadecimal digits of its bytes are the same
  key, as the usage text says (\<open>d:2:6162636465\<close> is the same as \<open>d:2:abcde\<close>).
\<close>

theorem key_hex_same_as_ascii:
  assumes "length k = 5 \<or> length k = 13"
  shows "key_data (concat (map (\<lambda>b. fmt_0x 2 (unat b)) (bytes_of k))) = key_data k"
proof -
  have l: "length (concat (map (\<lambda>b. fmt_0x 2 (unat b)) bs)) = 2 * length bs" for bs :: "8 word list"
    by (induction bs) (simp_all add: unat_u8_less)
  have "length (bytes_of k) = length k" by (simp add: bytes_of_def)
  then show ?thesis using assms l [of "bytes_of k"] by (auto simp: key_data_def hex2bin_bytes)
qed

theorem key_hex_same_as_ascii_witness:
  "key_data ''6162636465'' = key_data ''abcde''"
proof -
  have "concat (map (\<lambda>b. fmt_0x 2 (unat b)) (bytes_of ''abcde'')) = ''6162636465''" by code_simp
  then show ?thesis using key_hex_same_as_ascii [of "''abcde''"] by simp
qed

lemma put_all_Inr: "put_all fits as msg = Inr m \<Longrightarrow> m = msg @ as"
  by (induction as arbitrary: msg) (fastforce simp: nla_put_def split: if_splits)+

lemma put_all_fits: "(\<And>m. fits m) \<Longrightarrow> put_all fits as msg = Inr (msg @ as)"
  by (induction as arbitrary: msg) (simp_all add: nla_put_def)

definition tx_flag :: nla where
  "tx_flag = Nla_flag NL80211_KEY_DEFAULT"

definition is_tx :: "string \<Rightarrow> bool" where
  "is_tx arg \<longleftrightarrow> char_at arg 0 = CHR ''d''"

lemma put_key_tx:
  assumes "put_key fits i def1 fin arg msg = Inr (def2, m)"
  shows "def2 = (def1 \<or> is_tx arg) \<and> (\<exists>as. m = msg @ as \<and>
    count_list as tx_flag = (if is_tx arg then 1 else 0) + (if \<not> def1 \<and> \<not> is_tx arg \<and> fin then 1 else 0))"
  using assms
  by (auto simp: put_key_def Let_def nla_put_def is_tx_def tx_flag_def dest!: put_all_Inr
      split: option.splits sum.splits if_splits prod.splits)

lemma put_keys_tx:
  "put_keys fits i def1 as msg = Inr m \<Longrightarrow> as \<noteq> [] \<Longrightarrow> \<exists>ts. m = msg @ ts \<and>
     count_list ts tx_flag = length (filter is_tx as) + (if \<not> def1 \<and> filter is_tx as = [] then 1 else 0)"
proof (induction as arbitrary: i def1 msg)
  case (Cons a as)
  obtain def2 m' where k: "put_key fits (i + 1) def1 (as = []) a msg = Inr (def2, m')"
    and r: "put_keys fits (i + 1) def2 as m' = Inr m"
    using Cons.prems(1) by (auto split: sum.splits)
  obtain ts where def2: "def2 = (def1 \<or> is_tx a)" and m': "m' = msg @ ts"
    and c: "count_list ts tx_flag = (if is_tx a then 1 else 0) + (if \<not> def1 \<and> \<not> is_tx a \<and> as = [] then 1 else 0)"
    using put_key_tx [OF k] by blast
  show ?case
  proof (cases "as = []")
    case True
    then show ?thesis using r m' c by auto
  next
    case False
    then obtain us where "m = m' @ us"
      and "count_list us tx_flag = length (filter is_tx as) + (if \<not> def2 \<and> filter is_tx as = [] then 1 else 0)"
      using Cons.IH [OF r] by blast
    then show ?thesis using False def2 m' c by (intro exI [of _ "ts @ us"]) auto
  qed
qed simp

text \<open>
  A list of keys that is accepted marks a transmit key: as many keys as are given with \<open>d\<close>,
  and the last one when none is.
\<close>

theorem parse_keys_transmit_key:
  assumes "parse_keys fits argv msg = Inr m"
  shows "\<exists>as. m = msg @ as \<and> count_list as tx_flag = max 1 (length (filter is_tx argv))"
proof -
  obtain m1 m2 where 1: "put_all fits [Nla_flag NL80211_ATTR_PRIVACY, Nest_start NL80211_ATTR_KEYS] msg = Inr m1"
    and 2: "put_keys fits 0 False argv m1 = Inr m2" and m: "m = m2 @ [Nest_end]" and ne: "argv \<noteq> []"
    using assms by (auto simp: parse_keys_def split: if_splits sum.splits)
  obtain ts where "m2 = m1 @ ts"
    "count_list ts tx_flag = length (filter is_tx argv) + (if filter is_tx argv = [] then 1 else 0)"
    using put_keys_tx [OF 2 ne] by auto
  moreover have "length (filter is_tx argv) \<noteq> 0" if "filter is_tx argv \<noteq> []" using that by simp
  ultimately show ?thesis
    using put_all_Inr [OF 1] m
    by (intro exI [of _ "[Nla_flag NL80211_ATTR_PRIVACY, Nest_start NL80211_ATTR_KEYS] @ ts @ [Nest_end]"])
      (auto simp: tx_flag_def NL80211_ATTR_PRIVACY_def NL80211_KEY_DEFAULT_def max_def Suc_le_eq)
qed

theorem parse_keys_transmit_key_witness:
  "\<exists>m as. parse_keys (\<lambda>_. True) [''0:abcde'', ''1:6162636465''] [] = Inr m \<and> m = [] @ as \<and>
     count_list as tx_flag = max 1 (length (filter is_tx [''0:abcde'', ''1:6162636465'']))"
proof -
  have "\<not> isl (parse_keys (\<lambda>_. True) [''0:abcde'', ''1:6162636465''] [])" by code_simp
  then obtain m where "parse_keys (\<lambda>_. True) [''0:abcde'', ''1:6162636465''] [] = Inr m"
    by (cases "parse_keys (\<lambda>_. True) [''0:abcde'', ''1:6162636465''] []") auto
  then show ?thesis using parse_keys_transmit_key by blast
qed

end
