(* ===== verification/Iw_Phy.thy ===== *)
theory Iw_Phy
  imports CString "HOL-Library.Signed_Division"
begin

unbundle bit_operations_syntax

text \<open>
  The second half of \<open>wifi_tools/iw/util.c\<close>: the names of interface types and commands, channel
  numbers and frequencies, and the text printed for the HT and VHT capabilities of a device.  A
  function that prints is the text it prints.
\<close>

abbreviation tabs :: string where
  "tabs \<equiv> [CHR 0x09, CHR 0x09]"

abbreviation tabs3 :: string where
  "tabs3 \<equiv> [CHR 0x09, CHR 0x09, CHR 0x09]"

subsection \<open>Names\<close>

text \<open>The arrays of names, indexed by the enumerations of \<open>nl80211.h\<close>; \<open>None\<close> is a null entry.\<close>

definition NL80211_IFTYPE_MAX :: nat where "NL80211_IFTYPE_MAX = 11"
definition NL80211_CMD_MAX :: nat where "NL80211_CMD_MAX = 113"

definition ifmodes :: "string option list" where
  "ifmodes = map Some [''unspecified'', ''IBSS'', ''managed'', ''AP'', ''AP/VLAN'', ''WDS'', ''monitor'',
     ''mesh point'', ''P2P-client'', ''P2P-GO'', ''P2P-device''] @ [None]"

definition iftype_name :: "nat \<Rightarrow> string" where
  "iftype_name iftype =
     (case (if iftype \<le> NL80211_IFTYPE_MAX then ifmodes ! iftype else None) of
        Some s \<Rightarrow> s | None \<Rightarrow> ''Unknown mode ('' @ fmt_d (int iftype) @ '')'')"

definition commands :: "string option list" where
  "commands =
     [
      Some ''unspec'', Some ''get_wiphy'', Some ''set_wiphy'', Some ''new_wiphy'',
      Some ''del_wiphy'', Some ''get_interface'', Some ''set_interface'', Some ''new_interface'',
      Some ''del_interface'', Some ''get_key'', Some ''set_key'', Some ''new_key'',
      Some ''del_key'', Some ''get_beacon'', Some ''set_beacon'', Some ''start_ap'',
      Some ''stop_ap'', Some ''get_station'', Some ''set_station'', Some ''new_station'',
      Some ''del_station'', Some ''get_mpath'', Some ''set_mpath'', Some ''new_mpath'',
      Some ''del_mpath'', Some ''set_bss'', Some ''set_reg'', Some ''req_set_reg'',
      Some ''get_mesh_config'', Some ''set_mesh_config'', None, Some ''get_reg'',
      Some ''get_scan'', Some ''trigger_scan'', Some ''new_scan_results'', Some ''scan_aborted'',
      Some ''reg_change'', Some ''authenticate'', Some ''associate'', Some ''deauthenticate'',
      Some ''disassociate'', Some ''michael_mic_failure'', Some ''reg_beacon_hint'',
      Some ''join_ibss'', Some ''leave_ibss'', Some ''testmode'', Some ''connect'',
      Some ''roam'', Some ''disconnect'', Some ''set_wiphy_netns'', Some ''get_survey'',
      Some ''new_survey_results'', Some ''set_pmksa'', Some ''del_pmksa'', Some ''flush_pmksa'',
      Some ''remain_on_channel'', Some ''cancel_remain_on_channel'',
      Some ''set_tx_bitrate_mask'', Some ''register_frame'', Some ''frame'',
      Some ''frame_tx_status'', Some ''set_power_save'', Some ''get_power_save'',
      Some ''set_cqm'', Some ''notify_cqm'', Some ''set_channel'', Some ''set_wds_peer'',
      Some ''frame_wait_cancel'', Some ''join_mesh'', Some ''leave_mesh'',
      Some ''unprot_deauthenticate'', Some ''unprot_disassociate'', Some ''new_peer_candidate'',
      Some ''get_wowlan'', Some ''set_wowlan'', Some ''start_sched_scan'',
      Some ''stop_sched_scan'', Some ''sched_scan_results'', Some ''sched_scan_stopped'',
      Some ''set_rekey_offload'', Some ''pmksa_candidate'', Some ''tdls_oper'',
      Some ''tdls_mgmt'', Some ''unexpected_frame'', Some ''probe_client'',
      Some ''register_beacons'', Some ''unexpected_4addr_frame'', Some ''set_noack_map'',
      Some ''ch_switch_notify'', Some ''start_p2p_device'', Some ''stop_p2p_device'',
      Some ''conn_failed'', Some ''set_mcast_rate'', Some ''set_mac_acl'', Some ''radar_detect'',
      Some ''get_protocol_features'', Some ''update_ft_ies'', Some ''ft_event'',
      Some ''crit_protocol_start'', Some ''crit_protocol_stop'', Some ''get_coalesce'',
      Some ''set_coalesce'', Some ''channel_switch'', Some ''vendor'', Some ''set_qos_map'',
      Some ''add_tx_ts'', Some ''del_tx_ts'', Some ''get_mpp'', Some ''join_ocb'',
      Some ''leave_ocb'', Some ''ch_switch_started_notify'', None, None, None
     ]"

definition command_name :: "nat \<Rightarrow> string" where
  "command_name cmd =
     (case (if cmd \<le> NL80211_CMD_MAX then commands ! cmd else None) of
        Some s \<Rightarrow> s | None \<Rightarrow> ''Unknown command ('' @ fmt_d (int cmd) @ '')'')"

subsection \<open>Channels\<close>

datatype nl80211_band = NL80211_BAND_2GHZ | NL80211_BAND_5GHZ | NL80211_BAND_60GHZ

definition ieee80211_channel_to_frequency :: "int \<Rightarrow> nl80211_band \<Rightarrow> int" where
  "ieee80211_channel_to_frequency chan band =
     (if chan \<le> 0 then 0
      else (case band of
        NL80211_BAND_2GHZ \<Rightarrow> if chan = 14 then 2484 else if chan < 14 then 2407 + chan * 5 else 0
      | NL80211_BAND_5GHZ \<Rightarrow> if chan \<ge> 182 \<and> chan \<le> 196 then 4000 + chan * 5 else 5000 + chan * 5
      | NL80211_BAND_60GHZ \<Rightarrow> if chan < 5 then 56160 + chan * 2160 else 0))"

text \<open>Division truncates towards zero.\<close>

definition ieee80211_frequency_to_channel :: "int \<Rightarrow> int" where
  "ieee80211_frequency_to_channel freq =
     (if freq = 2484 then 14
      else if freq < 2484 then (freq - 2407) sdiv 5
      else if freq \<ge> 4910 \<and> freq \<le> 4980 then (freq - 4000) sdiv 5
      else if freq \<le> 45000 then (freq - 5000) sdiv 5
      else if freq \<ge> 58320 \<and> freq \<le> 64800 then (freq - 56160) sdiv 2160
      else 0)"

subsection \<open>HT\<close>

text \<open>
  The loop over the 77 bits of the MCS set, with the two variables it keeps between turns: the
  last bit that was set (\<open>-2\<close>: none yet) and whether a range is open.
\<close>

definition mcs_set :: "8 word list \<Rightarrow> nat \<Rightarrow> bool" where
  "mcs_set mcs b \<longleftrightarrow> bit (mcs ! (b div 8)) (b mod 8)"

fun mcs_loop :: "(nat \<Rightarrow> bool) \<Rightarrow> nat list \<Rightarrow> int \<Rightarrow> bool \<Rightarrow> string" where
  "mcs_loop on [] prev_bit prev_cont = (if prev_cont then fmt_d prev_bit else '''')"
| "mcs_loop on (b # bs) prev_bit prev_cont =
     (if \<not> on b then mcs_loop on bs prev_bit prev_cont
      else if prev_bit \<noteq> int b - 1 then
        (if prev_bit \<noteq> -2 then fmt_d prev_bit @ '', '' else '' '') @ fmt_d (int b) @
        mcs_loop on bs (int b) False
      else if \<not> prev_cont then ''-'' @ mcs_loop on bs (int b) True
      else mcs_loop on bs (int b) True)"

definition print_mcs_index :: "8 word list \<Rightarrow> string" where
  "print_mcs_index mcs = mcs_loop (mcs_set mcs) [0..<77] (-2) False @ [CHR 0x0A]"

definition compute_ampdu_length :: "8 word \<Rightarrow> nat" where
  "compute_ampdu_length exponent =
     (if exponent = 0 then 8191 else if exponent = 1 then 16383 else if exponent = 2 then 32767
      else if exponent = 3 then 65535 else 0)"

definition print_ampdu_space :: "8 word \<Rightarrow> string" where
  "print_ampdu_space space =
     (if space = 0 then ''No restriction'' else if space = 1 then ''1/4 usec''
      else if space = 2 then ''1/2 usec'' else if space = 3 then ''1 usec''
      else if space = 4 then ''2 usec'' else if space = 5 then ''4 usec''
      else if space = 6 then ''8 usec'' else if space = 7 then ''16 usec''
      else ''BUG (spacing more than 3 bits!)'')"

definition print_ampdu_length :: "8 word \<Rightarrow> string" where
  "print_ampdu_length exponent =
     (let max_ampdu_length = compute_ampdu_length exponent in
      if max_ampdu_length \<noteq> 0 then
        tabs @ ''Maximum RX AMPDU length '' @ fmt_d (int max_ampdu_length) @
        '' bytes (exponent: 0x0'' @ fmt_0x 2 (unat exponent) @ '')'' @ [CHR 0x0A]
      else
        tabs @ ''Maximum RX AMPDU length: unrecognized bytes (exponent: '' @
        fmt_d (uint exponent) @ '')'' @ [CHR 0x0A])"

definition print_ampdu_spacing :: "8 word \<Rightarrow> string" where
  "print_ampdu_spacing spacing =
     tabs @ ''Minimum RX AMPDU time spacing: '' @ print_ampdu_space spacing @ '' (0x'' @
     fmt_0x 2 (unat spacing) @ '')'' @ [CHR 0x0A]"

definition cap_line :: "bool \<Rightarrow> string \<Rightarrow> string" where
  "cap_line cond str = (if cond then tabs3 @ str @ [CHR 0x0A] else '''')"

text \<open>The lines of the capabilities word, each with its condition, in order.\<close>

definition ht_cap_lines :: "16 word \<Rightarrow> (bool \<times> string) list" where
  "ht_cap_lines cap =
     (let sm = drop_bit 2 cap AND 3; stbc = drop_bit 8 cap AND 3 in
      [(bit cap 0, ''RX LDPC''),
       (bit cap 1, ''HT20/HT40''),
       (\<not> bit cap 1, ''HT20''),
       (sm = 0, ''Static SM Power Save''),
       (sm = 1, ''Dynamic SM Power Save''),
       (sm = 3, ''SM Power Save disabled''),
       (bit cap 4, ''RX Greenfield''),
       (bit cap 5, ''RX HT20 SGI''),
       (bit cap 6, ''RX HT40 SGI''),
       (bit cap 7, ''TX STBC''),
       (stbc = 0, ''No RX STBC''),
       (stbc = 1, ''RX STBC 1-stream''),
       (stbc = 2, ''RX STBC 2-streams''),
       (stbc = 3, ''RX STBC 3-streams''),
       (bit cap 10, ''HT Delayed Block Ack''),
       (\<not> bit cap 11, ''Max AMSDU length: 3839 bytes''),
       (bit cap 11, ''Max AMSDU length: 7935 bytes''),
       (bit cap 12, ''DSSS/CCK HT40''),
       (\<not> bit cap 12, ''No DSSS/CCK HT40''),
       (bit cap 14, ''40 MHz Intolerant''),
       (bit cap 15, ''L-SIG TXOP protection'')])"

definition print_ht_capability :: "16 word \<Rightarrow> string" where
  "print_ht_capability cap =
     tabs @ ''Capabilities: 0x'' @ fmt_0x 2 (unat cap) @ [CHR 0x0A] @
     concat (map (\<lambda>(c, s). cap_line c s) (ht_cap_lines cap))"

definition print_ht_mcs :: "8 word list \<Rightarrow> string" where
  "print_ht_mcs mcs =
     (let max_rx_supp_data_rate = uint (mcs ! 10) OR ((uint (mcs ! 11) AND 3) * 256);
          tx_mcs_set_defined = bit (mcs ! 12) 0;
          tx_mcs_set_equal = (\<not> bit (mcs ! 12) 1);
          tx_max_num_spatial_streams = (uint (drop_bit 2 (mcs ! 12)) AND 3) + 1;
          tx_unequal_modulation = bit (mcs ! 12) 4
      in (if max_rx_supp_data_rate \<noteq> 0
          then tabs @ ''HT Max RX data rate: '' @ fmt_d max_rx_supp_data_rate @ '' Mbps'' @ [CHR 0x0A]
          else '''') @
         (if tx_mcs_set_defined then
            (if tx_mcs_set_equal then
               tabs @ ''HT TX/RX MCS rate indexes supported:'' @ print_mcs_index mcs
             else
               tabs @ ''HT RX MCS rate indexes supported:'' @ print_mcs_index mcs @
               (if tx_unequal_modulation
                then tabs @ ''TX unequal modulation supported'' @ [CHR 0x0A]
                else tabs @ ''TX unequal modulation not supported'' @ [CHR 0x0A]) @
               tabs @ ''HT TX Max spatial streams: '' @ fmt_d tx_max_num_spatial_streams @ [CHR 0x0A] @
               tabs @ ''HT TX MCS rate indexes supported may differ'' @ [CHR 0x0A])
          else
            tabs @ ''HT RX MCS rate indexes supported:'' @ print_mcs_index mcs @
            tabs @ ''HT TX MCS rate indexes are undefined'' @ [CHR 0x0A]))"

subsection \<open>VHT\<close>

definition vht_mpdu :: "32 word \<Rightarrow> string" where
  "vht_mpdu capa =
     (if capa AND 3 = 0 then ''3895'' else if capa AND 3 = 1 then ''7991''
      else if capa AND 3 = 2 then ''11454'' else ''(reserved)'')"

definition vht_width :: "32 word \<Rightarrow> string" where
  "vht_width capa =
     (let w = drop_bit 2 capa AND 3 in
      if w = 0 then ''neither 160 nor 80+80'' else if w = 1 then ''160 MHz''
      else if w = 2 then ''160 MHz, 80+80 MHz'' else ''(reserved)'')"

definition vht_capa_lines :: "(nat \<times> string) list" where
  "vht_capa_lines =
     [(4, ''RX LDPC''), (5, ''short GI (80 MHz)''), (6, ''short GI (160/80+80 MHz)''), (7, ''TX STBC''),
      (11, ''SU Beamformer''), (12, ''SU Beamformee''), (19, ''MU Beamformer''), (20, ''MU Beamformee''),
      (21, ''VHT TXOP PS''), (22, ''+HTC-VHT''), (28, ''RX antenna pattern consistency''),
      (29, ''TX antenna pattern consistency'')]"

definition le16 :: "8 word list \<Rightarrow> nat \<Rightarrow> 16 word" where
  "le16 mcs i = word_of_int (uint (mcs ! i) + 256 * uint (mcs ! (i + 1)))"

definition vht_streams :: "16 word \<Rightarrow> nat \<Rightarrow> string" where
  "vht_streams tmp i =
     (let v = drop_bit ((i - 1) * 2) tmp AND 3 in
      tabs3 @ fmt_d (int i) @ '' streams: '' @
      (if v = 0 then ''MCS 0-7'' else if v = 1 then ''MCS 0-8'' else if v = 2 then ''MCS 0-9''
       else ''not supported'') @ [CHR 0x0A])"

definition print_vht_info :: "32 word \<Rightarrow> 8 word list \<Rightarrow> string" where
  "print_vht_info capa mcs =
     tabs @ ''VHT Capabilities (0x'' @ fmt_0x 8 (unat capa) @ ''):'' @ [CHR 0x0A] @
     tabs3 @ ''Max MPDU length: '' @ vht_mpdu capa @ [CHR 0x0A] @
     tabs3 @ ''Supported Channel Width: '' @ vht_width capa @ [CHR 0x0A] @
     concat (map (\<lambda>(b, s). cap_line (bit capa b) s) vht_capa_lines) @
     tabs @ ''VHT RX MCS set:'' @ [CHR 0x0A] @ concat (map (vht_streams (le16 mcs 0)) [1..<9]) @
     tabs @ ''VHT RX highest supported: '' @ fmt_d (uint (le16 mcs 2 AND 0x1fff)) @ '' Mbps'' @ [CHR 0x0A] @
     tabs @ ''VHT TX MCS set:'' @ [CHR 0x0A] @ concat (map (vht_streams (le16 mcs 4)) [1..<9]) @
     tabs @ ''VHT TX highest supported: '' @ fmt_d (uint (le16 mcs 6 AND 0x1fff)) @ '' Mbps'' @ [CHR 0x0A]"

definition iw_hexdump :: "string \<Rightarrow> 8 word list \<Rightarrow> string" where
  "iw_hexdump prefix buf =
     prefix @ '': '' @
     concat (map (\<lambda>i. (if i \<noteq> 0 \<and> i mod 16 = 0 then [CHR 0x0A] @ prefix @ '': '' else '''') @
       fmt_0x 2 (unat (buf ! i)) @ '' '') [0..<length buf]) @
     [CHR 0x0A, CHR 0x0A]"

subsection \<open>Names identify their numbers\<close>

text \<open>
  A table of names in which every name is there once and none looks like the text for an unknown
  number gives different names to different numbers.
\<close>

definition table_name :: "string option list \<Rightarrow> string \<Rightarrow> nat \<Rightarrow> string" where
  "table_name tab unknown n =
     (case (if n < length tab then tab ! n else None) of
        Some s \<Rightarrow> s | None \<Rightarrow> unknown @ fmt_d (int n) @ '')'')"

definition good_table :: "string option list \<Rightarrow> bool" where
  "good_table tab \<longleftrightarrow> distinct (map the (filter (\<lambda>x. x \<noteq> None) tab)) \<and>
     list_all (\<lambda>x. case x of None \<Rightarrow> True | Some s \<Rightarrow> char_at s 0 \<noteq> CHR ''U'') tab"

lemma nth_eq_distinct_filter:
  assumes "distinct (map the (filter (\<lambda>x. x \<noteq> None) tab))" "i < length tab" "j < length tab"
    and "tab ! i = Some s" "tab ! j = Some s"
  shows "i = j"
  using assms
proof (induction tab arbitrary: i j)
  case (Cons x tab)
  have notin: "Some s \<notin> set tab" if "x = Some s" using Cons.prems(1) that by force
  show ?case
  proof (cases i; cases j)
    fix i' j' assume "i = Suc i'" "j = Suc j'"
    then show ?thesis using Cons.IH [of i' j'] Cons.prems by (auto split: if_splits)
  qed (use Cons.prems notin in \<open>auto dest: nth_mem\<close>)
qed simp

lemma fmt_d_inj: "fmt_d (int m) = fmt_d (int n) \<longleftrightarrow> m = n"
proof
  have "fst (snd (the (scan_num 10 (fmt_d (int k))))) = k" for k by (simp add: scan_num_fmt_d)
  then show "fmt_d (int m) = fmt_d (int n) \<Longrightarrow> m = n" by metis
qed simp

lemma table_name_inj:
  assumes "good_table tab" and "char_at unknown 0 = CHR ''U''" "unknown \<noteq> []"
  shows "table_name tab unknown m = table_name tab unknown n \<longleftrightarrow> m = n"
proof
  assume e: "table_name tab unknown m = table_name tab unknown n"
  let ?get = "\<lambda>n. if n < length tab then tab ! n else None"
  have U: "char_at (unknown @ r) 0 = CHR ''U''" for r using assms(2,3) by (cases unknown) auto
  have known: "char_at s 0 \<noteq> CHR ''U''" if "?get k = Some s" for k s
    using that assms(1) by (auto simp: good_table_def list_all_length split: if_splits option.splits)
  show "m = n"
  proof (cases "?get m"; cases "?get n")
    assume "?get m = None" "?get n = None"
    then show ?thesis using e by (simp add: table_name_def fmt_d_inj)
  next
    fix s assume "?get m = None" "?get n = Some s"
    then show ?thesis using e known [of n s] U [of "fmt_d (int m) @ '')''"] by (simp add: table_name_def)
  next
    fix s assume "?get m = Some s" "?get n = None"
    then show ?thesis using e known [of m s] U [of "fmt_d (int n) @ '')''"] by (simp add: table_name_def)
  next
    fix s s' assume g: "?get m = Some s" "?get n = Some s'"
    then have "s = s'" using e by (simp add: table_name_def)
    with g assms(1) show ?thesis
      by (intro nth_eq_distinct_filter [of tab m n s]) (auto simp: good_table_def split: if_splits)
  qed
qed simp

lemma good_ifmodes: "good_table ifmodes" and length_ifmodes: "length ifmodes = Suc NL80211_IFTYPE_MAX"
  by code_simp+

lemma good_commands: "good_table commands" and length_commands: "length commands = Suc NL80211_CMD_MAX"
  by code_simp+

text \<open>
  The name of an interface type identifies its number, and so does the name of a command:
  two numbers with the same name are equal, known or not.
\<close>

theorem names_identify:
  "(iftype_name m = iftype_name n \<longleftrightarrow> m = n) \<and> (command_name m = command_name n \<longleftrightarrow> m = n)"
proof -
  have "iftype_name k = table_name ifmodes ''Unknown mode ('' k" for k
    by (simp add: iftype_name_def table_name_def length_ifmodes less_Suc_eq_le)
  moreover have "command_name k = table_name commands ''Unknown command ('' k" for k
    by (simp add: command_name_def table_name_def length_commands less_Suc_eq_le)
  ultimately show ?thesis
    using table_name_inj [OF good_ifmodes, of "''Unknown mode (''"]
      table_name_inj [OF good_commands, of "''Unknown command (''"] by simp
qed

subsection \<open>Channels\<close>

definition channel_ok :: "int \<Rightarrow> nl80211_band \<Rightarrow> bool" where
  "channel_ok c band \<longleftrightarrow> 1 \<le> c \<and>
     (case band of NL80211_BAND_2GHZ \<Rightarrow> c \<le> 14 | NL80211_BAND_5GHZ \<Rightarrow> c \<le> 8000 | NL80211_BAND_60GHZ \<Rightarrow> c \<le> 4)"

lemma sdiv_mult_pos: "0 < k \<Longrightarrow> 0 \<le> c \<Longrightarrow> (c * k) sdiv k = (c :: int)"
  by (cases "c = 0") (simp_all add: signed_divide_int_def)

text \<open>
  The frequency of a channel leads back to the channel: in the 2.4 GHz band for channels 1
  to 14, in the 5 GHz band (with its 4.9 GHz channels) up to 8000, in the 60 GHz band for 1 to 4.
\<close>

theorem channel_frequency_round_trip:
  assumes "channel_ok c band"
  shows "ieee80211_frequency_to_channel (ieee80211_channel_to_frequency c band) = c"
proof (cases band)
  case NL80211_BAND_2GHZ
  then show ?thesis
    using assms sdiv_mult_pos [of 5 c]
    by (auto simp: channel_ok_def ieee80211_channel_to_frequency_def ieee80211_frequency_to_channel_def)
next
  case NL80211_BAND_5GHZ
  then show ?thesis
    using assms sdiv_mult_pos [of 5 c]
    by (auto simp: channel_ok_def ieee80211_channel_to_frequency_def ieee80211_frequency_to_channel_def)
next
  case NL80211_BAND_60GHZ
  then show ?thesis
    using assms sdiv_mult_pos [of 2160 c]
    by (auto simp: channel_ok_def ieee80211_channel_to_frequency_def ieee80211_frequency_to_channel_def)
qed

theorem channel_frequency_round_trip_witness:
  "channel_ok 184 NL80211_BAND_5GHZ \<and>
   ieee80211_frequency_to_channel (ieee80211_channel_to_frequency 184 NL80211_BAND_5GHZ) = 184"
proof -
  have "channel_ok 184 NL80211_BAND_5GHZ" by (simp add: channel_ok_def)
  then show ?thesis using channel_frequency_round_trip by blast
qed

subsection \<open>A-MPDU lengths\<close>

lemma word_below_4:
  assumes "unat (w :: 'a :: len word) < 4"
  shows "w \<in> {0, 1, 2, 3}"
proof -
  have "w = word_of_nat k" if "unat w = k" for k by (simp add: that [symmetric])
  moreover have "unat w = 0 \<or> unat w = 1 \<or> unat w = 2 \<or> unat w = 3" using assms by linarith
  ultimately have "w = word_of_nat 0 \<or> w = word_of_nat 1 \<or> w = word_of_nat 2 \<or> w = word_of_nat 3" by blast
  then show ?thesis by simp
qed

text \<open>
  The table of the A-MPDU lengths is the formula of the comment above it: two to the power
  of 13 plus the exponent, less one, for exponents up to 3; and 0 (unknown) beyond.
\<close>

theorem compute_ampdu_length_formula:
  "compute_ampdu_length e = (if unat e \<le> 3 then 2 ^ (13 + unat e) - 1 else 0)"
proof (cases "unat e \<le> 3")
  case True
  then have "e \<in> {0, 1, 2, 3}" by (intro word_below_4) simp
  then show ?thesis by (auto simp: compute_ampdu_length_def)
next
  case False
  then have "e \<noteq> 0" "e \<noteq> 1" "e \<noteq> 2" "e \<noteq> 3" by auto
  with False show ?thesis by (simp add: compute_ampdu_length_def)
qed

subsection \<open>MCS sets\<close>

lemma mcs_loop_off:
  "\<forall>b \<in> set bs. \<not> on b \<Longrightarrow> mcs_loop on (bs @ cs) p c = mcs_loop on cs p c"
  by (induction bs) auto

lemma mcs_loop_run:
  "a < m \<Longrightarrow> \<forall>b. a < b \<and> b < m \<longrightarrow> on b \<Longrightarrow>
     mcs_loop on ([Suc a..<m] @ cs) (int a) True = mcs_loop on cs (int (m - 1)) True"
proof (induction "m - a" arbitrary: a)
  case (Suc d)
  show ?case
  proof (cases "Suc a < m")
    case True
    then have "[Suc a..<m] = Suc a # [Suc (Suc a)..<m]" by (simp add: upt_conv_Cons)
    then show ?thesis
      using Suc.hyps(1) [of "Suc a"] Suc.hyps(2) Suc.prems True by simp
  next
    case False
    then have "m = Suc a" using Suc.prems by simp
    then show ?thesis by simp
  qed
qed simp

lemma upt_split: "i \<le> j \<Longrightarrow> j \<le> k \<Longrightarrow> [i..<k] = [i..<j] @ [j..<k]"
  by (metis le_Suc_ex upt_add_eq_append)

text \<open>
  A contiguous set of MCS indexes is printed as its range.
\<close>

theorem print_mcs_range:
  assumes "a < n" "n \<le> 76" and on: "\<forall>b < 77. mcs_set mcs b \<longleftrightarrow> a \<le> b \<and> b \<le> n"
  shows "print_mcs_index mcs = '' '' @ fmt_d (int a) @ ''-'' @ fmt_d (int n) @ [CHR 0x0A]"
proof -
  have split: "[0..<77] = [0..<a] @ a # (Suc a) # [Suc (Suc a)..<Suc n] @ [Suc n..<77]"
  proof -
    have "[0..<77] = [0..<a] @ [a..<77]" using assms(1,2) by (intro upt_split) auto
    moreover have "[a..<77] = a # Suc a # [Suc (Suc a)..<77]" using assms(1,2) by (simp add: upt_conv_Cons)
    moreover have "[Suc (Suc a)..<77] = [Suc (Suc a)..<Suc n] @ [Suc n..<77]"
      using assms(1,2) by (intro upt_split) auto
    ultimately show ?thesis by simp
  qed
  have "mcs_loop (mcs_set mcs) [Suc n..<77] (int n) True = fmt_d (int n)"
    using mcs_loop_off [of "[Suc n..<77]" "mcs_set mcs" "[]"] on by simp
  moreover have "mcs_loop (mcs_set mcs) ([Suc (Suc a)..<Suc n] @ [Suc n..<77]) (int (Suc a)) True =
      mcs_loop (mcs_set mcs) [Suc n..<77] (int n) True"
    using mcs_loop_run [of "Suc a" "Suc n" "mcs_set mcs"] on assms by simp
  moreover have "mcs_set mcs a" "mcs_set mcs (Suc a)" "\<forall>b \<in> set [0..<a]. \<not> mcs_set mcs b"
    using on assms by auto
  ultimately show ?thesis
    unfolding print_mcs_index_def split by (simp add: mcs_loop_off)
qed

theorem print_mcs_range_witness:
  "print_mcs_index ([0xff, 0xff] @ replicate 14 0) = '' '' @ fmt_d (int 0) @ ''-'' @ fmt_d (int 15) @ [CHR 0x0A]"
proof -
  have "\<forall>b < 77. mcs_set ([0xff, 0xff] @ replicate 14 0) b \<longleftrightarrow> 0 \<le> b \<and> b \<le> 15"
    by code_simp
  then show ?thesis by (intro print_mcs_range) simp_all
qed

text \<open>
  Of two separate MCS indexes the first is printed twice: the set of 0 and 2 gives
  \<open>00, 2\<close>.
\<close>

theorem print_mcs_repeats: "print_mcs_index ([0x05] @ replicate 15 0) = '' 00, 2'' @ [CHR 0x0A]"
  by code_simp

subsection \<open>HT capabilities\<close>

lemma two_bits: "(w :: 16 word) AND 3 \<in> {0, 1, 2, 3}"
proof (rule word_below_4)
  have "w AND 3 = take_bit 2 w" by (simp add: take_bit_eq_mask mask_eq_exp_minus_1)
  then show "unat (w AND 3) < 4" unfolding take_bit_eq_mod by (simp add: unat_mod)
qed

definition printed :: "16 word \<Rightarrow> string set \<Rightarrow> nat" where
  "printed cap names = length (filter (\<lambda>(c, s). c \<and> s \<in> names) (ht_cap_lines cap))"

text \<open>
  Of the lines that exclude each other the HT capabilities print one: of the channel widths,
  of the RX STBC streams, of the A-MSDU lengths and of DSSS/CCK; of the SM power save modes one,
  and none for the reserved value.
\<close>

theorem ht_capability_exclusive:
  "printed cap {''HT20/HT40'', ''HT20''} = 1 \<and>
   printed cap {''No RX STBC'', ''RX STBC 1-stream'', ''RX STBC 2-streams'', ''RX STBC 3-streams''} = 1 \<and>
   printed cap {''Max AMSDU length: 3839 bytes'', ''Max AMSDU length: 7935 bytes''} = 1 \<and>
   printed cap {''DSSS/CCK HT40'', ''No DSSS/CCK HT40''} = 1 \<and>
   printed cap {''Static SM Power Save'', ''Dynamic SM Power Save'', ''SM Power Save disabled''} =
     (if drop_bit 2 cap AND 3 = 2 then 0 else 1)"
proof (intro conjI)
  note defs = printed_def ht_cap_lines_def Let_def
  show "printed cap {''HT20/HT40'', ''HT20''} = 1" by (simp add: defs)
  show "printed cap {''No RX STBC'', ''RX STBC 1-stream'', ''RX STBC 2-streams'', ''RX STBC 3-streams''} = 1"
    using two_bits [of "drop_bit 8 cap"] by (elim insertE emptyE) (simp_all add: defs)
  show "printed cap {''Max AMSDU length: 3839 bytes'', ''Max AMSDU length: 7935 bytes''} = 1"
    by (simp add: defs)
  show "printed cap {''DSSS/CCK HT40'', ''No DSSS/CCK HT40''} = 1" by (simp add: defs)
  show "printed cap {''Static SM Power Save'', ''Dynamic SM Power Save'', ''SM Power Save disabled''} =
     (if drop_bit 2 cap AND 3 = 2 then 0 else 1)"
    using two_bits [of "drop_bit 2 cap"] by (elim insertE emptyE) (simp_all add: defs)
qed

end
