(* ===== verification/Iw_Bitrate.thy ===== *)
theory Iw_Bitrate
  imports Iw_Text Complex_Main
begin

unbundle bit_operations_syntax

text \<open>
  \<open>wifi_tools/iw/bitrate.c\<close>: the argument language of \<open>iw set bitrates\<close>.  The arguments are read
  by a state machine; a keyword selects the array the following numbers go to.  The arrays have the
  sizes of the source, and a store outside one, or a conversion C leaves undefined, is an outcome
  of its own.
\<close>

subsection \<open>VHT rates\<close>

definition NL80211_VHT_NSS_MAX :: nat where "NL80211_VHT_NSS_MAX = 8"

text \<open>
  \<open>sscanf\<close> of a sequence of \<open>%u\<close> with a separator between two of them: the values converted.
\<close>

definition scan_u :: "string \<Rightarrow> (nat \<times> string) option" where
  "scan_u s =
     (case scan_num 10 s of None \<Rightarrow> None
      | Some (neg, n, r) \<Rightarrow> Some (nat (fst (strtoul s 10) mod 2 ^ 32), r))"

fun sscanf_us :: "string \<Rightarrow> string \<Rightarrow> nat list" where
  "sscanf_us seps s =
     (case scan_u s of
        None \<Rightarrow> []
      | Some (v, r) \<Rightarrow>
          v # (case seps of
                 [] \<Rightarrow> []
               | c # cs \<Rightarrow> (case r of [] \<Rightarrow> [] | x # r' \<Rightarrow> if x = c then sscanf_us cs r' else [])))"

definition mcs_mask :: "nat list \<Rightarrow> 16 word" where
  "mcs_mask is = foldl (\<lambda>m i. m OR push_bit i 1) 0 is"

text \<open>A chunk: the number of spatial streams and the set of MCS indexes; \<open>None\<close> is a result of 0.\<close>

definition parse_vht_chunk :: "string \<Rightarrow> (nat \<times> 16 word) option" where
  "parse_vht_chunk arg =
     (if split_at (CHR ''-'') arg \<noteq> None then
        (case sscanf_us '':-'' arg of
           [inss, mcs_start, mcs_end] \<Rightarrow>
             if inss < 1 \<or> inss > NL80211_VHT_NSS_MAX then None
             else if mcs_start > mcs_end then None
             else if mcs_start > 9 \<or> mcs_end > 9 then None
             else Some (inss, mcs_mask [mcs_start..<Suc mcs_end])
         | _ \<Rightarrow> None)
      else
        (case sscanf_us ('':'' @ replicate 9 (CHR '','')) arg of
           inss # t # tab \<Rightarrow>
             if inss < 1 \<or> inss > NL80211_VHT_NSS_MAX then None
             else if \<exists>i \<in> set (t # tab). i > 9 then None
             else Some (inss, mcs_mask (t # tab))
         | _ \<Rightarrow> None))"

text \<open>The MCS bitmap per number of streams; a chunk adds to the entry of its number of streams.\<close>

type_synonym txrate_vht = "16 word list"

fun add_chunks :: "string list \<Rightarrow> txrate_vht \<Rightarrow> txrate_vht option" where
  "add_chunks [] tx = Some tx"
| "add_chunks (a # as) tx =
     (case parse_vht_chunk a of
        None \<Rightarrow> None
      | Some (nss, mcs) \<Rightarrow> add_chunks as (tx[nss - 1 := tx ! (nss - 1) OR mcs]))"

definition setup_vht :: "string list \<Rightarrow> txrate_vht option" where
  "setup_vht argv = add_chunks argv (replicate NL80211_VHT_NSS_MAX 0)"

subsection \<open>The state machine\<close>

text \<open>
  Doubles as \<open>strtod\<close> gives them (the C library's, a parameter): a rational, an infinity or a NaN,
  which is neither below nor above anything.
\<close>

datatype dbl = Fin rat | Inf bool | NaN

definition dbl_less :: "dbl \<Rightarrow> rat \<Rightarrow> bool" where
  "dbl_less d q = (case d of Fin r \<Rightarrow> r < q | Inf pos \<Rightarrow> \<not> pos | NaN \<Rightarrow> False)"

definition dbl_greater :: "dbl \<Rightarrow> rat \<Rightarrow> bool" where
  "dbl_greater d q = (case d of Fin r \<Rightarrow> q < r | Inf pos \<Rightarrow> pos | NaN \<Rightarrow> False)"

text \<open>\<open>(uint8_t)(d * 2)\<close>: undefined (\<open>None\<close>) when the truncated value does not fit.\<close>

definition twice_u8 :: "dbl \<Rightarrow> 8 word option" where
  "twice_u8 d =
     (case d of
        Fin r \<Rightarrow> if 0 \<le> 2 * r \<and> 2 * r < 256 then Some (word_of_int \<lfloor>2 * r\<rfloor>) else None
      | _ \<Rightarrow> None)"

datatype band = B24 | B5

datatype parser_state = S_NONE | S_LEGACY band | S_HT band | S_VHT band | S_GI

record rates =
  have_legacy :: bool
  legacy :: "8 word list"
  have_ht :: bool
  ht_mcs :: "8 word list"
  have_vht :: bool
  vht_argv :: "string list"
  sgi :: bool
  lgi :: bool

definition no_rates :: rates where
  "no_rates = \<lparr>have_legacy = False, legacy = [], have_ht = False, ht_mcs = [], have_vht = False,
     vht_argv = [], sgi = False, lgi = False\<rparr>"

record bitrates =
  pstate :: parser_state
  r24 :: rates
  r5 :: rates

definition get_band :: "band \<Rightarrow> bitrates \<Rightarrow> rates" where
  "get_band b st = (case b of B24 \<Rightarrow> r24 st | B5 \<Rightarrow> r5 st)"

definition set_band :: "band \<Rightarrow> rates \<Rightarrow> bitrates \<Rightarrow> bitrates" where
  "set_band b r st = (case b of B24 \<Rightarrow> st\<lparr>r24 := r\<rparr> | B5 \<Rightarrow> st\<lparr>r5 := r\<rparr>)"

text \<open>\<open>Ret\<close> is a return with that value; \<open>Undefined\<close> what C leaves undefined.\<close>

datatype br_stop = Ret int | Undefined

definition VHT_ARGC_MAX :: nat where "VHT_ARGC_MAX = 100"
definition LEGACY_MAX :: nat where "LEGACY_MAX = 32"
definition HT_MCS_MAX :: nat where "HT_MCS_MAX = 77"

datatype keyword = K_legacy band | K_ht band | K_vht band | K_sgi band | K_lgi band

fun keyword_text :: "keyword \<Rightarrow> string" where
  "keyword_text (K_legacy b) = (case b of B24 \<Rightarrow> ''legacy-2.4'' | B5 \<Rightarrow> ''legacy-5'')"
| "keyword_text (K_ht b) = (case b of B24 \<Rightarrow> ''ht-mcs-2.4'' | B5 \<Rightarrow> ''ht-mcs-5'')"
| "keyword_text (K_vht b) = (case b of B24 \<Rightarrow> ''vht-mcs-2.4'' | B5 \<Rightarrow> ''vht-mcs-5'')"
| "keyword_text (K_sgi b) = (case b of B24 \<Rightarrow> ''sgi-2.4'' | B5 \<Rightarrow> ''sgi-5'')"
| "keyword_text (K_lgi b) = (case b of B24 \<Rightarrow> ''lgi-2.4'' | B5 \<Rightarrow> ''lgi-5'')"

text \<open>The chain of comparisons, in the order of the source.\<close>

definition keyword_of :: "string \<Rightarrow> keyword option" where
  "keyword_of a =
     find (\<lambda>k. a = keyword_text k)
       [K_legacy B24, K_legacy B5, K_ht B24, K_ht B5, K_vht B24, K_vht B5, K_sgi B24, K_sgi B5,
        K_lgi B24, K_lgi B5]"

text \<open>A keyword of the first three kinds is refused the second time.\<close>

definition on_keyword :: "keyword \<Rightarrow> bitrates \<Rightarrow> br_stop + bitrates" where
  "on_keyword k st =
     (case k of
        K_legacy b \<Rightarrow>
          if have_legacy (get_band b st) then Inl (Ret 1)
          else Inr (set_band b (get_band b st\<lparr>have_legacy := True\<rparr>) (st\<lparr>pstate := S_LEGACY b\<rparr>))
      | K_ht b \<Rightarrow>
          if have_ht (get_band b st) then Inl (Ret 1)
          else Inr (set_band b (get_band b st\<lparr>have_ht := True\<rparr>) (st\<lparr>pstate := S_HT b\<rparr>))
      | K_vht b \<Rightarrow>
          if have_vht (get_band b st) then Inl (Ret 1)
          else Inr (set_band b (get_band b st\<lparr>have_vht := True\<rparr>) (st\<lparr>pstate := S_VHT b\<rparr>))
      | K_sgi b \<Rightarrow> Inr (set_band b (get_band b st\<lparr>sgi := True\<rparr>) (st\<lparr>pstate := S_GI\<rparr>))
      | K_lgi b \<Rightarrow> Inr (set_band b (get_band b st\<lparr>lgi := True\<rparr>) (st\<lparr>pstate := S_GI\<rparr>)))"

definition on_value :: "(string \<Rightarrow> dbl \<times> string) \<Rightarrow> string \<Rightarrow> bitrates \<Rightarrow> br_stop + bitrates" where
  "on_value strtod a st =
     (case pstate st of
        S_NONE \<Rightarrow> Inl (Ret 1)
      | S_LEGACY b \<Rightarrow>
          (case strtod a of (tmpd, end) \<Rightarrow>
           if end \<noteq> [] then Inl (Ret 1)
           else if dbl_less tmpd 1 \<or> dbl_greater tmpd (255 * 2) then Inl (Ret 1)
           else (let r = get_band b st in
             case twice_u8 tmpd of None \<Rightarrow> Inl Undefined
             | Some v \<Rightarrow>
                 if LEGACY_MAX \<le> length (legacy r) then Inl Undefined
                 else Inr (set_band b (r\<lparr>legacy := legacy r @ [v]\<rparr>) st)))
      | S_HT b \<Rightarrow>
          (case strtol a 0 of (tmpl, end) \<Rightarrow>
           if end \<noteq> [] then Inl (Ret 1)
           else if tmpl < 0 \<or> tmpl > 255 then Inl (Ret 1)
           else (let r = get_band b st in
             if HT_MCS_MAX \<le> length (ht_mcs r) then Inl Undefined
             else Inr (set_band b (r\<lparr>ht_mcs := ht_mcs r @ [to_u8 tmpl]\<rparr>) st)))
      | S_VHT b \<Rightarrow>
          (let r = get_band b st in
           if VHT_ARGC_MAX \<le> length (vht_argv r) then Inl (Ret 1)
           else Inr (set_band b (r\<lparr>vht_argv := vht_argv r @ [a]\<rparr>) st))
      | S_GI \<Rightarrow> Inr st)"

definition br_step :: "(string \<Rightarrow> dbl \<times> string) \<Rightarrow> string \<Rightarrow> bitrates \<Rightarrow> br_stop + bitrates" where
  "br_step strtod a st =
     (case keyword_of a of Some k \<Rightarrow> on_keyword k st | None \<Rightarrow> on_value strtod a st)"

fun br_parse :: "(string \<Rightarrow> dbl \<times> string) \<Rightarrow> string list \<Rightarrow> bitrates \<Rightarrow> br_stop + bitrates" where
  "br_parse strtod [] st = Inr st"
| "br_parse strtod (a # as) st =
     (case br_step strtod a st of Inl e \<Rightarrow> Inl e | Inr st \<Rightarrow> br_parse strtod as st)"

subsection \<open>The message\<close>

definition NL80211_ATTR_TX_RATES :: nat where "NL80211_ATTR_TX_RATES = 90"
definition NL80211_TXRATE_LEGACY :: nat where "NL80211_TXRATE_LEGACY = 1"
definition NL80211_TXRATE_HT :: nat where "NL80211_TXRATE_HT = 2"
definition NL80211_TXRATE_VHT :: nat where "NL80211_TXRATE_VHT = 3"
definition NL80211_TXRATE_GI :: nat where "NL80211_TXRATE_GI = 4"
definition NL80211_TXRATE_FORCE_SGI :: "8 word" where "NL80211_TXRATE_FORCE_SGI = 1"
definition NL80211_TXRATE_FORCE_LGI :: "8 word" where "NL80211_TXRATE_FORCE_LGI = 2"

definition band_attr :: "band \<Rightarrow> nat" where
  "band_attr b = (case b of B24 \<Rightarrow> 0 | B5 \<Rightarrow> 1)"

definition EINVAL :: int where "EINVAL = 22"

text \<open>\<open>nla_put\<close> called for its effect: without room the attribute is dropped.\<close>

definition nla_try :: "(nl_msg \<Rightarrow> bool) \<Rightarrow> nla \<Rightarrow> nl_msg \<Rightarrow> nl_msg" where
  "nla_try fits a msg = (case nla_put fits a msg of None \<Rightarrow> msg | Some m \<Rightarrow> m)"

definition vht_bytes :: "txrate_vht \<Rightarrow> 8 word list" where
  "vht_bytes tx = concat (map (\<lambda>w. [word_of_int (uint w mod 256), word_of_int (uint w div 256)]) tx)"

definition band_attrs :: "rates \<Rightarrow> txrate_vht \<Rightarrow> nla list" where
  "band_attrs r tx =
     (if have_legacy r then [Nla_bytes NL80211_TXRATE_LEGACY (legacy r)] else []) @
     (if have_ht r then [Nla_bytes NL80211_TXRATE_HT (ht_mcs r)] else []) @
     (if have_vht r then [Nla_bytes NL80211_TXRATE_VHT (vht_bytes tx)] else []) @
     (if sgi r then [Nla_u8 NL80211_TXRATE_GI NL80211_TXRATE_FORCE_SGI] else []) @
     (if lgi r then [Nla_u8 NL80211_TXRATE_GI NL80211_TXRATE_FORCE_LGI] else [])"

definition put_band ::
  "(nl_msg \<Rightarrow> bool) \<Rightarrow> band \<Rightarrow> rates \<Rightarrow> txrate_vht \<Rightarrow> nl_msg \<Rightarrow> nl_msg option" where
  "put_band fits b r tx msg =
     (if have_legacy r \<or> have_ht r \<or> have_vht r \<or> sgi r \<or> lgi r then
        (case nla_put fits (Nest_start (band_attr b)) msg of
           None \<Rightarrow> None
         | Some m \<Rightarrow> Some (foldl (\<lambda>m a. nla_try fits a m) m (band_attrs r tx) @ [Nest_end]))
      else Some msg)"

definition band_vht :: "rates \<Rightarrow> txrate_vht option" where
  "band_vht r =
     (if have_vht r then setup_vht (vht_argv r) else Some (replicate NL80211_VHT_NSS_MAX 0))"

definition handle_bitrates ::
  "(string \<Rightarrow> dbl \<times> string) \<Rightarrow> (nl_msg \<Rightarrow> bool) \<Rightarrow> string list \<Rightarrow> nl_msg \<Rightarrow> br_stop + nl_msg" where
  "handle_bitrates strtod fits argv msg =
     (case br_parse strtod argv \<lparr>pstate = S_NONE, r24 = no_rates, r5 = no_rates\<rparr> of
        Inl e \<Rightarrow> Inl e
      | Inr st \<Rightarrow>
      case band_vht (r24 st) of None \<Rightarrow> Inl (Ret (- EINVAL))
      | Some tx24 \<Rightarrow>
      case band_vht (r5 st) of None \<Rightarrow> Inl (Ret (- EINVAL))
      | Some tx5 \<Rightarrow>
      if sgi (r5 st) \<and> lgi (r5 st) then Inl (Ret 1)
      else if sgi (r24 st) \<and> lgi (r24 st) then Inl (Ret 1)
      else case nla_put fits (Nest_start NL80211_ATTR_TX_RATES) msg of
        None \<Rightarrow> Inl (Ret (- ENOBUFS))
      | Some m \<Rightarrow>
      case put_band fits B24 (r24 st) tx24 m of None \<Rightarrow> Inl (Ret (- ENOBUFS))
      | Some m \<Rightarrow>
      case put_band fits B5 (r5 st) tx5 m of None \<Rightarrow> Inl (Ret (- ENOBUFS))
      | Some m \<Rightarrow> Inr (m @ [Nest_end]))"

subsection \<open>Scanning numbers\<close>

lemma scan_num_digits:
  assumes "r = [] \<or> \<not> digit_val (hd r) < 10"
  shows "scan_num 10 (fmt_d (int n) @ r) = Some (False, n, r)"
proof -
  let ?ds = "digits_of 10 n"
  obtain c cs where ds: "?ds = c # cs" using digits_of_nonempty by (cases ?ds) auto
  obtain k where k: "k < 10" "c = hexchar k" using digits_of_digit [of 10 c n] ds by auto
  have c: "\<not> isspace c" "c \<noteq> CHR ''-''" "c \<noteq> CHR ''+''"
    using k hexchar_not_space [of k] hexchar_not_sign [of k] by auto
  have d: "\<forall>c \<in> set ?ds. digit_val c < 10" by (simp add: digits_of_digit_val)
  have r: "takeWhile (\<lambda>c. digit_val c < 10) r = []" "dropWhile (\<lambda>c. digit_val c < 10) r = r"
    using assms by (cases r; simp)+
  have t: "takeWhile (\<lambda>c. digit_val c < 10) (?ds @ r) = ?ds" "dropWhile (\<lambda>c. digit_val c < 10) (?ds @ r) = r"
    using d r by (simp_all add: takeWhile_append2 dropWhile_append2)
  have f: "fmt_d (int n) = ?ds" by (simp add: fmt_d_def)
  have sg: "num_sign (dropWhile isspace (?ds @ r)) = (False, ?ds @ r)" using c by (simp add: ds num_sign_def)
  show ?thesis
    unfolding f scan_num_def sg prod.case
    by (simp add: num_base_def t digits_of_nonempty digits_val_digits_of)
qed

lemma scan_u_digits:
  assumes "r = [] \<or> \<not> digit_val (hd r) < 10" and "n < 2 ^ 32"
  shows "scan_u (fmt_d (int n) @ r) = Some (n, r)"
proof -
  have "\<not> ULONG_MAX < int n" using assms(2) by (simp add: ULONG_MAX_def)
  then have "strtoul (fmt_d (int n) @ r) 10 = (int n, r)"
    by (simp add: strtoul_def scan_num_digits [OF assms(1)])
  with assms(2) show ?thesis by (simp add: scan_u_def scan_num_digits [OF assms(1)])
qed

fun sep_join :: "char \<Rightarrow> nat list \<Rightarrow> string" where
  "sep_join c [] = []"
| "sep_join c [n] = fmt_d (int n)"
| "sep_join c (n # ns) = fmt_d (int n) @ c # sep_join c ns"

lemma sscanf_us_join:
  "ns \<noteq> [] \<Longrightarrow> length ns \<le> Suc k \<Longrightarrow> \<forall>n \<in> set ns. n < 2 ^ 32 \<Longrightarrow> \<not> digit_val c < 10 \<Longrightarrow>
     sscanf_us (replicate k c) (sep_join c ns) = ns"
proof (induction c ns arbitrary: k rule: sep_join.induct)
  case (2 c n)
  then show ?case using scan_u_digits [of "[]" n] by (cases k) simp_all
next
  case (3 c n m ns)
  obtain k' where "k = Suc k'" using 3(3) by (cases k) auto
  then show ?case using 3 scan_u_digits [of "c # sep_join c (m # ns)" n] by simp
qed simp

lemma digit_val_seps: "\<not> digit_val (CHR '':'') < 10" "\<not> digit_val (CHR ''-'') < 10" "\<not> digit_val (CHR '','') < 10"
  by (simp_all add: digit_val_def isdigit_def)

lemma fmt_d_no_dash: "CHR ''-'' \<notin> set (fmt_d (int n))"
  using fmt_d_digits [of "CHR ''-''" n] by (auto simp: isdigit_def)

lemma sep_join_no_dash: "CHR ''-'' \<notin> set (sep_join (CHR '','') ns)"
  by (induction "CHR '',''" ns rule: sep_join.induct) (auto simp: fmt_d_no_dash)

subsection \<open>VHT rates\<close>

lemma bit_mcs_mask: "k < 16 \<Longrightarrow> bit (mcs_mask is) k \<longleftrightarrow> k \<in> set is"
proof -
  assume k: "k < 16"
  have "bit (foldl (\<lambda>m i. m OR push_bit i 1) m is) k \<longleftrightarrow> bit m k \<or> k \<in> set is" for m :: "16 word"
  proof (induction "is" arbitrary: m)
    case (Cons i "is")
    have "bit (push_bit i 1 :: 16 word) k \<longleftrightarrow> k = i" using k by (auto simp: push_bit_of_1 bit_exp_iff)
    with Cons show ?case by (auto simp: bit_or_iff)
  qed simp
  then show ?thesis by (simp add: mcs_mask_def)
qed

lemma parse_vht_range:
  assumes "1 \<le> n" "n \<le> 8" "a \<le> b" "b \<le> 9"
  shows "parse_vht_chunk (fmt_d (int n) @ '':'' @ fmt_d (int a) @ ''-'' @ fmt_d (int b)) =
    Some (n, mcs_mask [a..<Suc b])"
proof -
  have "sscanf_us '':-'' (fmt_d (int n) @ '':'' @ fmt_d (int a) @ ''-'' @ fmt_d (int b)) = [n, a, b]"
    using assms scan_u_digits [of "'':'' @ fmt_d (int a) @ ''-'' @ fmt_d (int b)" n]
      scan_u_digits [of "''-'' @ fmt_d (int b)" a] scan_u_digits [of "[]" b]
    by (simp add: digit_val_seps)
  moreover have "split_at (CHR ''-'') (fmt_d (int n) @ '':'' @ fmt_d (int a) @ ''-'' @ fmt_d (int b)) \<noteq> None"
    by (simp add: split_at_None)
  ultimately show ?thesis
    using assms unfolding parse_vht_chunk_def by (simp add: NL80211_VHT_NSS_MAX_def del: upt_Suc)
qed

lemma parse_vht_list:
  assumes "1 \<le> n" "n \<le> 8" "is \<noteq> []" "length is \<le> 10" "\<forall>i \<in> set is. i \<le> 9"
  shows "parse_vht_chunk (fmt_d (int n) @ '':'' @ sep_join (CHR '','') is) = Some (n, mcs_mask is)"
proof -
  obtain t tab where e: "is = t # tab" using assms(3) by (cases "is") auto
  have "sscanf_us (replicate 9 (CHR '','')) (sep_join (CHR '','') is) = is"
    using assms by (intro sscanf_us_join) (auto simp: digit_val_seps intro: order.strict_trans1)
  then have "sscanf_us ('':'' @ replicate 9 (CHR '','')) (fmt_d (int n) @ '':'' @ sep_join (CHR '','') is) = n # is"
    using assms(2) scan_u_digits [of "'':'' @ sep_join (CHR '','') is" n] by (simp add: digit_val_seps)
  moreover have "split_at (CHR ''-'') (fmt_d (int n) @ '':'' @ sep_join (CHR '','') is) = None"
    by (simp add: split_at_None fmt_d_no_dash sep_join_no_dash)
  ultimately show ?thesis
    using assms unfolding parse_vht_chunk_def by (auto simp: e NL80211_VHT_NSS_MAX_def)
qed

text \<open>
  C34.  The two formats of a VHT chunk agree: a range \<open>NSS:a-b\<close> is the list of the indexes from
  \<open>a\<close> to \<open>b\<close>, and both give the bitmap of exactly these indexes.
\<close>

theorem vht_range_is_list:
  assumes "1 \<le> n" "n \<le> 8" "a \<le> b" "b \<le> 9"
  shows "parse_vht_chunk (fmt_d (int n) @ '':'' @ fmt_d (int a) @ ''-'' @ fmt_d (int b)) =
      parse_vht_chunk (fmt_d (int n) @ '':'' @ sep_join (CHR '','') [a..<Suc b]) \<and>
    (\<exists>m. parse_vht_chunk (fmt_d (int n) @ '':'' @ fmt_d (int a) @ ''-'' @ fmt_d (int b)) = Some (n, m) \<and>
      (\<forall>k. k < 16 \<longrightarrow> bit m k \<longleftrightarrow> a \<le> k \<and> k \<le> b))"
proof -
  have "parse_vht_chunk (fmt_d (int n) @ '':'' @ sep_join (CHR '','') [a..<Suc b]) =
      Some (n, mcs_mask [a..<Suc b])"
    by (rule parse_vht_list) (use assms in auto)
  then show ?thesis unfolding parse_vht_range [OF assms] by (auto simp: bit_mcs_mask)
qed

theorem vht_range_is_list_witness:
  "parse_vht_chunk (fmt_d (int 2) @ '':'' @ fmt_d (int 0) @ ''-'' @ fmt_d (int 7)) =
   parse_vht_chunk (fmt_d (int 2) @ '':'' @ sep_join (CHR '','') [0..<Suc 7])"
  using vht_range_is_list [of 2 0 7] by simp

lemma parse_vht_chunk_range:
  assumes "parse_vht_chunk a = Some (nss, mcs)"
  shows "1 \<le> nss \<and> nss \<le> NL80211_VHT_NSS_MAX \<and> (\<forall>k. bit mcs k \<longrightarrow> k \<le> 9)"
proof -
  obtain "is" where nss: "1 \<le> nss" "nss \<le> NL80211_VHT_NSS_MAX" and m: "mcs = mcs_mask is" and le: "\<forall>i \<in> set is. i \<le> 9"
    using assms unfolding parse_vht_chunk_def
    by (fastforce split: if_splits list.splits)
  have "k \<le> 9" if "bit mcs k" for k
    using that m le bit_imp_le_length [of mcs k] bit_mcs_mask [of k "is"] by auto
  with nss show ?thesis by blast
qed

lemma add_chunks_bits:
  "length tx = NL80211_VHT_NSS_MAX \<Longrightarrow> \<forall>w \<in> set tx. \<forall>k. bit w k \<longrightarrow> k \<le> 9 \<Longrightarrow> add_chunks as tx = Some tx' \<Longrightarrow>
     length tx' = NL80211_VHT_NSS_MAX \<and> (\<forall>w \<in> set tx'. \<forall>k. bit w k \<longrightarrow> k \<le> 9)"
proof (induction as arbitrary: tx)
  case (Cons a as)
  obtain nss mcs where p: "parse_vht_chunk a = Some (nss, mcs)"
    and r: "add_chunks as (tx[nss - 1 := tx ! (nss - 1) OR mcs]) = Some tx'"
    using Cons.prems(3) by (auto split: option.splits)
  have n: "nss - 1 < length tx" using parse_vht_chunk_range [OF p] Cons.prems(1) by linarith
  have "\<forall>k. bit (tx ! (nss - 1)) k \<longrightarrow> k \<le> 9" using Cons.prems(2) nth_mem [OF n] by blast
  then have "bit w k \<longrightarrow> k \<le> 9" if "w \<in> set (tx[nss - 1 := tx ! (nss - 1) OR mcs])" for w k
    using that n parse_vht_chunk_range [OF p] Cons.prems(2)
    by (auto simp: bit_or_iff dest!: set_update_subset_insert [THEN subsetD])
  then show ?case using Cons.IH [OF _ _ r] Cons.prems(1) by simp
qed simp

text \<open>
  \<open>setup_vht\<close> never leaves the table of 8 entries, and the bitmaps it makes have bits 0 to 9
  only.
\<close>

theorem setup_vht_bounds:
  assumes "setup_vht argv = Some tx"
  shows "length tx = NL80211_VHT_NSS_MAX \<and> (\<forall>w \<in> set tx. \<forall>k. bit w k \<longrightarrow> k \<le> 9)"
  using add_chunks_bits [of "replicate NL80211_VHT_NSS_MAX 0"] assms
  by (auto simp: setup_vht_def)

theorem setup_vht_bounds_witness:
  "\<exists>tx. setup_vht [''1:0-9'', ''8:7,8''] = Some tx \<and> length tx = NL80211_VHT_NSS_MAX"
proof -
  have "setup_vht [''1:0-9'', ''8:7,8''] \<noteq> None" by code_simp
  then obtain tx where "setup_vht [''1:0-9'', ''8:7,8''] = Some tx" by auto
  then show ?thesis using setup_vht_bounds by blast
qed

subsection \<open>The state machine\<close>

definition br_start :: bitrates where
  "br_start = \<lparr>pstate = S_NONE, r24 = no_rates, r5 = no_rates\<rparr>"

text \<open>The states reached by reading arguments one by one.\<close>

inductive br_reach :: "(string \<Rightarrow> dbl \<times> string) \<Rightarrow> string list \<Rightarrow> bitrates \<Rightarrow> bool" for strtod where
  reach_start: "br_reach strtod [] br_start"
| reach_step: "br_reach strtod as st \<Longrightarrow> br_step strtod a st = Inr st' \<Longrightarrow> br_reach strtod (as @ [a]) st'"

lemma br_parse_append:
  "br_parse strtod (as @ bs) st =
     (case br_parse strtod as st of Inl e \<Rightarrow> Inl e | Inr st \<Rightarrow> br_parse strtod bs st)"
  by (induction as arbitrary: st) (auto split: sum.splits)

lemma br_parse_reach: "br_parse strtod argv br_start = Inr st \<Longrightarrow> br_reach strtod argv st"
proof (induction argv arbitrary: st rule: rev_induct)
  case Nil
  then show ?case by (simp add: br_reach.reach_start)
next
  case (snoc a as)
  then obtain st1 where "br_parse strtod as br_start = Inr st1" "br_step strtod a st1 = Inr st"
    by (auto simp: br_parse_append split: sum.splits)
  then show ?case using snoc.IH br_reach.reach_step by blast
qed

lemma get_set_band [simp]:
  "get_band b (set_band c r st) = (if b = c then r else get_band b st)"
  "get_band b (st\<lparr>pstate := p\<rparr>) = get_band b st" "pstate (set_band c r st) = pstate st"
  by (cases b; cases c; simp add: get_band_def set_band_def)+

text \<open>Reading the text of a keyword gives the keyword.\<close>

lemma keyword_of_text: "keyword_of (keyword_text k) = Some k"
  by (cases k; rename_tac b; case_tac b) (simp_all add: keyword_of_def)

lemma keyword_of_Some: "keyword_of a = Some k \<longleftrightarrow> a = keyword_text k"
proof
  show "keyword_of a = Some k \<Longrightarrow> a = keyword_text k" unfolding keyword_of_def find_Some_iff by blast
qed (simp only: keyword_of_text)

text \<open>What has been seen of each keyword.\<close>

fun seen :: "keyword \<Rightarrow> bitrates \<Rightarrow> bool" where
  "seen (K_legacy b) st = have_legacy (get_band b st)"
| "seen (K_ht b) st = have_ht (get_band b st)"
| "seen (K_vht b) st = have_vht (get_band b st)"
| "seen (K_sgi b) st = sgi (get_band b st)"
| "seen (K_lgi b) st = lgi (get_band b st)"

definition once :: "keyword \<Rightarrow> bool" where
  "once k = (case k of K_sgi b \<Rightarrow> False | K_lgi b \<Rightarrow> False | _ \<Rightarrow> True)"

lemma on_keyword_seen:
  assumes "on_keyword k st = Inr st'"
  shows "seen k' st' \<longleftrightarrow> k' = k \<or> seen k' st" and "once k \<Longrightarrow> \<not> seen k st"
  using assms by (cases k; cases k'; auto simp: on_keyword_def once_def split: if_splits)+

lemma on_value_seen: "on_value strtod a st = Inr st' \<Longrightarrow> seen k st' = seen k st"
  by (cases k)
    (auto simp: on_value_def Let_def split: parser_state.splits prod.splits if_splits option.splits)

lemma reach_seen:
  assumes "br_reach strtod as st"
  shows "(seen k st \<longleftrightarrow> keyword_text k \<in> set as) \<and> (once k \<longrightarrow> count_list as (keyword_text k) \<le> 1)"
  using assms
proof induction
  case reach_start
  then show ?case by (cases k) (simp_all add: br_start_def no_rates_def get_band_def split: band.split)
next
  case (reach_step as st a st')
  show ?case
  proof (cases "keyword_of a")
    case None
    then have "a \<noteq> keyword_text k" using keyword_of_text [of k] by auto
    with None reach_step show ?thesis by (auto simp: br_step_def dest: on_value_seen)
  next
    case (Some k')
    then have a: "a = keyword_text k'" by (simp only: keyword_of_Some)
    have k: "on_keyword k' st = Inr st'" using Some reach_step.hyps(2) by (simp add: br_step_def)
    note IH = reach_step.IH [simplified]
    show ?thesis
    proof (cases "k = k'")
      case True
      then have "once k \<longrightarrow> keyword_text k \<notin> set as" using IH on_keyword_seen(2) [OF k] by blast
      then show ?thesis using True a on_keyword_seen(1) [OF k, of k] by (auto simp del: keyword_text.simps)
    next
      case False
      then have "keyword_text k \<noteq> a" using a keyword_of_text by (metis option.inject)
      then show ?thesis using False IH on_keyword_seen(1) [OF k, of k] by (simp del: keyword_text.simps)
    qed
  qed
qed

text \<open>
  Arguments that \<open>handle_bitrates\<close> accepts name each of the six rate keywords at most once,
  and do not ask for the short and the long guard interval of the same band.
\<close>

theorem bitrates_keywords_once:
  assumes "handle_bitrates strtod fits argv msg = Inr m"
  shows "(once k \<longrightarrow> count_list argv (keyword_text k) \<le> 1) \<and>
    \<not> (keyword_text (K_sgi b) \<in> set argv \<and> keyword_text (K_lgi b) \<in> set argv)"
proof -
  obtain st where p: "br_parse strtod argv br_start = Inr st"
    and g: "\<not> (sgi (r5 st) \<and> lgi (r5 st))" "\<not> (sgi (r24 st) \<and> lgi (r24 st))"
    using assms by (auto simp: handle_bitrates_def br_start_def split: sum.splits option.splits if_splits)
  note reach = reach_seen [OF br_parse_reach [OF p]]
  have "\<not> (sgi (get_band b st) \<and> lgi (get_band b st))" using g by (cases b) (auto simp: get_band_def)
  then show ?thesis
    using reach [of k] reach [of "K_sgi b"] reach [of "K_lgi b"] by (auto simp del: keyword_text.simps)
qed

theorem bitrates_keywords_once_witness:
  "count_list [''ht-mcs-5'', ''7'', ''sgi-5''] (keyword_text (K_ht B5)) \<le> 1 \<and>
    \<not> (keyword_text (K_sgi B5) \<in> set [''ht-mcs-5'', ''7'', ''sgi-5''] \<and>
       keyword_text (K_lgi B5) \<in> set [''ht-mcs-5'', ''7'', ''sgi-5''])"
proof -
  have "\<not> isl (handle_bitrates (\<lambda>s. (NaN, s)) (\<lambda>_. True) [''ht-mcs-5'', ''7'', ''sgi-5''] [])" by code_simp
  then obtain m where "handle_bitrates (\<lambda>s. (NaN, s)) (\<lambda>_. True) [''ht-mcs-5'', ''7'', ''sgi-5''] [] = Inr m"
    by (cases "handle_bitrates (\<lambda>s. (NaN, s)) (\<lambda>_. True) [''ht-mcs-5'', ''7'', ''sgi-5''] []") auto
  moreover have "once (K_ht B5)" by code_simp
  ultimately show ?thesis using bitrates_keywords_once by blast
qed

subsection \<open>The arrays\<close>

definition stored :: "bitrates \<Rightarrow> nat" where
  "stored st = length (legacy (r24 st)) + length (legacy (r5 st)) + length (ht_mcs (r24 st)) + length (ht_mcs (r5 st))"

lemma stored_band:
  "length (legacy (get_band b st)) \<le> stored st" "length (ht_mcs (get_band b st)) \<le> stored st"
  by (cases b; simp add: stored_def get_band_def)+

lemma stored_set_band:
  "stored (set_band b (get_band b st\<lparr>have_legacy := x\<rparr>) st) = stored st"
  "stored (set_band b (get_band b st\<lparr>have_ht := x\<rparr>) st) = stored st"
  "stored (set_band b (get_band b st\<lparr>have_vht := x\<rparr>) st) = stored st"
  "stored (set_band b (get_band b st\<lparr>sgi := x\<rparr>) st) = stored st"
  "stored (set_band b (get_band b st\<lparr>lgi := x\<rparr>) st) = stored st"
  "stored (set_band b (get_band b st\<lparr>vht_argv := vs\<rparr>) st) = stored st"
  "stored (set_band b (get_band b st\<lparr>legacy := legacy (get_band b st) @ [v]\<rparr>) st) = Suc (stored st)"
  "stored (set_band b (get_band b st\<lparr>ht_mcs := ht_mcs (get_band b st) @ [v]\<rparr>) st) = Suc (stored st)"
  by (cases b; simp add: stored_def get_band_def set_band_def)+

lemma stored_pstate [simp]: "stored (set_band b r (st\<lparr>pstate := p\<rparr>)) = stored (set_band b r st)"
  by (cases b) (simp_all add: stored_def set_band_def)

lemma on_keyword_stored: "on_keyword k st = Inr st' \<Longrightarrow> stored st' = stored st \<and> pstate st' \<noteq> S_NONE"
  by (cases k) (auto simp: on_keyword_def stored_set_band split: if_splits)

lemma on_value_stored:
  "on_value strtod a st = Inr st' \<Longrightarrow> stored st' \<le> Suc (stored st) \<and> pstate st' = pstate st \<and> pstate st \<noteq> S_NONE"
  by (auto simp: on_value_def Let_def stored_set_band
      split: parser_state.splits prod.splits if_splits option.splits)

text \<open>The rates \<open>strtod\<close> may give: those that are refused, or fit a byte when doubled.\<close>

definition small_rate :: "dbl \<Rightarrow> bool" where
  "small_rate d \<longleftrightarrow> (case d of Fin q \<Rightarrow> q < 128 | Inf pos \<Rightarrow> True | NaN \<Rightarrow> False)"

lemma small_rate_fits: "small_rate d \<Longrightarrow> \<not> dbl_less d 1 \<Longrightarrow> \<not> dbl_greater d 510 \<Longrightarrow> twice_u8 d \<noteq> None"
  by (auto simp: small_rate_def dbl_less_def dbl_greater_def twice_u8_def split: dbl.splits)

lemma br_parse_defined:
  assumes "\<forall>a. snd (strtod a) = [] \<longrightarrow> small_rate (fst (strtod a))"
  shows "stored st + length as \<le> LEGACY_MAX + (if pstate st = S_NONE then 1 else 0) \<Longrightarrow>
    br_parse strtod as st \<noteq> Inl Undefined"
proof (induction as arbitrary: st)
  case (Cons a as)
  have "br_step strtod a st \<noteq> Inl Undefined"
  proof (cases "keyword_of a")
    case None
    have b: "\<not> LEGACY_MAX \<le> length (legacy (get_band b st))" "\<not> HT_MCS_MAX \<le> length (ht_mcs (get_band b st))"
      if "pstate st \<noteq> S_NONE" for b
      using Cons.prems that stored_band [where b = b and st = st] by (auto simp: LEGACY_MAX_def HT_MCS_MAX_def)
    have "small_rate (fst (strtod a))" if "snd (strtod a) = []" using assms that by blast
    then have "on_value strtod a st \<noteq> Inl Undefined"
      using b small_rate_fits [of "fst (strtod a)"]
      by (auto simp: on_value_def Let_def split: parser_state.split prod.split option.split)
    with None show ?thesis by (simp add: br_step_def)
  qed (auto simp: br_step_def on_keyword_def split: keyword.splits)
  moreover have "br_parse strtod as st' \<noteq> Inl Undefined" if "br_step strtod a st = Inr st'" for st'
    using that Cons.prems on_keyword_stored on_value_stored
    by (intro Cons.IH) (fastforce simp: br_step_def split: option.splits if_splits)
  ultimately show ?case by (cases "br_step strtod a st") auto
qed simp

text \<open>
  With at most 33 arguments, and rates below 128 Mbps, \<open>handle_bitrates\<close> stays within its
  arrays and converts no rate that does not fit.
\<close>

theorem bitrates_defined:
  assumes "\<forall>a. snd (strtod a) = [] \<longrightarrow> small_rate (fst (strtod a))" and "length argv \<le> 33"
  shows "handle_bitrates strtod fits argv msg \<noteq> Inl Undefined"
  using br_parse_defined [OF assms(1), of br_start argv] assms(2)
  by (auto simp: handle_bitrates_def br_start_def stored_def no_rates_def LEGACY_MAX_def
      split: sum.splits option.splits)

theorem bitrates_defined_witness:
  "handle_bitrates (\<lambda>s. (Fin 11, '''')) (\<lambda>_. True) [''legacy-2.4'', ''11''] [] \<noteq> Inl Undefined"
  by (rule bitrates_defined) (simp_all add: small_rate_def)

text \<open>
  The bound is sharp: one rate more than the 32 of the array is stored behind it, and a rate
  that the check lets pass (up to 510) but that does not fit a byte when doubled is undefined.
\<close>

theorem bitrates_overrun:
  assumes "strtod ''1'' = (Fin 1, [])" and "strtod ''200'' = (Fin 200, [])"
  shows "handle_bitrates strtod fits (''legacy-2.4'' # replicate 33 ''1'') msg = Inl Undefined \<and>
    handle_bitrates strtod fits [''legacy-2.4'', ''200''] msg = Inl Undefined"
proof -
  have k: "keyword_of ''legacy-2.4'' = Some (K_legacy B24)" "keyword_of ''1'' = None" "keyword_of ''200'' = None"
    by code_simp+
  have run: "br_parse strtod (replicate n ''1'') st = Inl Undefined"
    if "pstate st = S_LEGACY B24" "length (legacy (r24 st)) + n = 33" "length (legacy (r24 st)) \<le> 32" for n st
    using that
  proof (induction n arbitrary: st)
    case (Suc n)
    then show ?case
      by (auto simp: br_step_def k on_value_def assms(1) dbl_less_def dbl_greater_def twice_u8_def Let_def
          get_band_def set_band_def LEGACY_MAX_def)
  qed simp
  have "br_parse strtod (''legacy-2.4'' # replicate 33 ''1'') br_start = Inl Undefined"
    by (simp add: br_step_def k on_keyword_def br_start_def no_rates_def get_band_def set_band_def run)
  moreover have "br_parse strtod [''legacy-2.4'', ''200''] br_start = Inl Undefined"
    by (simp add: br_step_def k on_keyword_def on_value_def br_start_def no_rates_def get_band_def set_band_def
        assms(2) dbl_less_def dbl_greater_def twice_u8_def)
  ultimately show ?thesis by (simp add: handle_bitrates_def flip: br_start_def del: br_parse.simps)
qed

theorem bitrates_overrun_witness:
  "handle_bitrates (\<lambda>s. (if s = ''1'' then Fin 1 else Fin 200, '''')) (\<lambda>_. True)
     [''legacy-2.4'', ''200''] [] = Inl Undefined"
  using bitrates_overrun [of "\<lambda>s. (if s = ''1'' then Fin 1 else Fin 200, '''')" "\<lambda>_. True" "[]"] by simp

end
