(* ===== verification/Iw_Elem.thy ===== *)
theory Iw_Elem
  imports Iw_Text Iw_Phy "HOL-Library.Monad_Syntax"
begin

unbundle bit_operations_syntax

text \<open>
  The printers of the information elements of a scan result (\<open>wifi_tools/iw/scan.c\<close>).  A pointer
  into the received message is the list of the bytes from there to the end of the message, so that
  a read behind the element but within the message gives the byte that is there, and a read behind
  the message is \<open>None\<close>.  The printers give the text they print; the \<open>uint8_t\<close> lengths are natural
  numbers, with the wrap written out where a subtraction can go below zero.
\<close>

subsection \<open>Reading\<close>

type_synonym bytes = "8 word list"

definition rd :: "bytes \<Rightarrow> nat \<Rightarrow> nat option" where
  "rd data i = (if i < length data then Some (unat (data ! i)) else None)"

definition rd_n :: "bytes \<Rightarrow> nat \<Rightarrow> bytes option" where
  "rd_n data n = (if n \<le> length data then Some (take n data) else None)"

definition rd_le16 :: "bytes \<Rightarrow> nat \<Rightarrow> nat option" where
  "rd_le16 data i = do { a \<leftarrow> rd data i; b \<leftarrow> rd data (i + 1); Some (a + 256 * b) }"

definition rd_be16 :: "bytes \<Rightarrow> nat \<Rightarrow> nat option" where
  "rd_be16 data i = do { a \<leftarrow> rd data i; b \<leftarrow> rd data (i + 1); Some (256 * a + b) }"

text \<open>\<open>len -= n\<close> on a \<open>uint8_t\<close>.\<close>

definition sub8 :: "nat \<Rightarrow> nat \<Rightarrow> nat" where
  "sub8 len n = nat ((int len - int n) mod 256)"

text \<open>\<open>printf("%.*s", n, data)\<close>: at most \<open>n\<close> bytes, up to a NUL byte.\<close>

definition byte_char :: "8 word \<Rightarrow> char" where
  "byte_char b = char_of (unat b)"

fun str_n :: "nat \<Rightarrow> bytes \<Rightarrow> string option" where
  "str_n 0 data = Some ''''"
| "str_n (Suc n) [] = None"
| "str_n (Suc n) (b # bs) = (if b = 0 then Some '''' else map_option (Cons (byte_char b)) (str_n n bs))"

subsection \<open>Printing\<close>

abbreviation tab :: char where
  "tab \<equiv> CHR 0x09"

definition dec :: "nat \<Rightarrow> string" where
  "dec n = fmt_d (int n)"

definition hex_byte :: "8 word \<Rightarrow> string" where
  "hex_byte b = fmt_0x 2 (unat b)"

definition hex_bytes :: "bytes \<Rightarrow> string" where
  "hex_bytes bs = concat (map (\<lambda>b. '' '' @ hex_byte b) bs)"

text \<open>\<open>%#.nx\<close>: at least \<open>n\<close> digits, with \<open>0x\<close> in front unless the number is zero.\<close>

definition alt_x :: "nat \<Rightarrow> nat \<Rightarrow> string" where
  "alt_x w n = (if n = 0 then replicate w (CHR ''0'') else ''0x'' @ fmt_0x w n)"

definition flag_text :: "bool \<Rightarrow> string \<Rightarrow> string" where
  "flag_text b s = (if b then s else '''')"

text \<open>What \<open>tab_on_first\<close> prints; after the first call \<open>first\<close> is false.\<close>

definition tab_on_first :: "bool \<Rightarrow> string" where
  "tab_on_first first = (if first then '''' else [tab])"

definition star :: "bool \<Rightarrow> string \<Rightarrow> string" where
  "star first s = tab_on_first first @ [tab] @ '' * '' @ s"

definition bogus_tail :: "bool \<Rightarrow> nat \<Rightarrow> bytes \<Rightarrow> string option" where
  "bogus_tail first len data =
     (if len = 0 then Some ''''
      else do { bs \<leftarrow> rd_n data len;
                Some (star first (''bogus tail data ('' @ dec len @ ''):'') @ hex_bytes bs @ [nl]) })"

subsection \<open>Basic elements\<close>

definition print_ssid :: "nat \<Rightarrow> bytes \<Rightarrow> string option" where
  "print_ssid len data = do { d \<leftarrow> rd_n data len; Some ('' '' @ print_ssid_escaped (map byte_char d) @ [nl]) }"

definition BSS_MEMBERSHIP_SELECTOR_VHT_PHY :: nat where "BSS_MEMBERSHIP_SELECTOR_VHT_PHY = 126"
definition BSS_MEMBERSHIP_SELECTOR_HT_PHY :: nat where "BSS_MEMBERSHIP_SELECTOR_HT_PHY = 127"

definition supprate :: "8 word \<Rightarrow> string" where
  "supprate b =
     (let r = unat (b AND 0x7f); basic = b AND 0x80 \<noteq> 0 in
      (if r = BSS_MEMBERSHIP_SELECTOR_VHT_PHY \<and> basic then ''VHT''
       else if r = BSS_MEMBERSHIP_SELECTOR_HT_PHY \<and> basic then ''HT''
       else dec (r div 2) @ ''.'' @ dec (5 * (r mod 2))) @ flag_text basic ''*'' @ '' '')"

definition print_supprates :: "nat \<Rightarrow> bytes \<Rightarrow> string option" where
  "print_supprates len data =
     do { d \<leftarrow> rd_n data len; Some ('' '' @ concat (map supprate d) @ [nl]) }"

definition print_ds :: "nat \<Rightarrow> bytes \<Rightarrow> string option" where
  "print_ds len data = do { c \<leftarrow> rd data 0; Some ('' channel '' @ dec c @ [nl]) }"

definition country_env_str :: "char \<Rightarrow> string" where
  "country_env_str environment =
     (if environment = CHR ''I'' then ''Indoor only'' else if environment = CHR ''O'' then ''Outdoor only''
      else if environment = CHR '' '' then ''Indoor/Outdoor'' else ''bogus'')"

definition IEEE80211_COUNTRY_EXTENSION_ID :: nat where "IEEE80211_COUNTRY_EXTENSION_ID = 201"

definition triplet_text :: "nat \<Rightarrow> nat \<Rightarrow> nat \<Rightarrow> string" where
  "triplet_text a b c =
     (if IEEE80211_COUNTRY_EXTENSION_ID \<le> a then
        tabs @ ''Extension ID: '' @ dec a @ '' Regulatory Class: '' @ dec b @ '' Coverage class: '' @ dec c @
        '' (up to '' @ dec (c * 450) @ ''m)'' @ [nl]
      else
        (let end_channel = (if a \<le> 14 then int a + (int b - 1) else int a + 4 * (int b - 1)) in
         tabs @ ''Channels ['' @ dec a @ '' - '' @ fmt_d end_channel @ ''] @ '' @
         fmt_d (if c < 128 then int c else int c - 256) @ '' dBm'' @ [nl]))"

fun country_loop :: "nat \<Rightarrow> bytes \<Rightarrow> string option" where
  "country_loop len data =
     (if len < 3 then Some ''''
      else do { a \<leftarrow> rd data 0; b \<leftarrow> rd data 1; c \<leftarrow> rd data 2;
                t \<leftarrow> country_loop (len - 3) (drop 3 data);
                Some (triplet_text a b c @ t) })"

declare country_loop.simps [simp del]

definition print_country :: "nat \<Rightarrow> bytes \<Rightarrow> string option" where
  "print_country len data =
     do { name \<leftarrow> str_n 2 data; e \<leftarrow> rd data 2;
          let len = sub8 len 3;
          t \<leftarrow> (if len < 3 then Some (tabs @ ''No country IE triplets present'' @ [nl])
               else country_loop len (drop 3 data));
          Some ('' '' @ name @ [tab] @ ''Environment: '' @ country_env_str (char_of e) @ [nl] @ t) }"

definition print_powerconstraint :: "nat \<Rightarrow> bytes \<Rightarrow> string option" where
  "print_powerconstraint len data = do { c \<leftarrow> rd data 0; Some ('' '' @ dec c @ '' dB'' @ [nl]) }"

definition print_tpcreport :: "nat \<Rightarrow> bytes \<Rightarrow> string option" where
  "print_tpcreport len data = do { c \<leftarrow> rd data 0; Some ('' TX power: '' @ dec c @ '' dBm'' @ [nl]) }"

definition print_erp :: "nat \<Rightarrow> bytes \<Rightarrow> string option" where
  "print_erp len data =
     do { b \<leftarrow> rd data 0;
          Some (flag_text (b = 0) '' <no flags>'' @ flag_text (bit b 0) '' NonERP_Present'' @
                flag_text (bit b 1) '' Use_Protection'' @ flag_text (bit b 2) '' Barker_Preamble_Mode'' @ [nl]) }"

subsection \<open>RSN\<close>

definition ms_oui :: bytes where "ms_oui = [0x00, 0x50, 0xf2]"
definition ieee80211_oui :: bytes where "ieee80211_oui = [0x00, 0x0f, 0xac]"
definition wfa_oui :: bytes where "wfa_oui = [0x50, 0x6f, 0x9a]"

definition suite_text :: "bytes \<Rightarrow> string" where
  "suite_text d = hex_byte (d ! 0) @ ''-'' @ hex_byte (d ! 1) @ ''-'' @ hex_byte (d ! 2) @ '':'' @ dec (unat (d ! 3))"

definition cipher_text :: "bytes \<Rightarrow> string" where
  "cipher_text d =
     (let known = [(0, ''Use group cipher suite''), (1, ''WEP-40''), (2, ''TKIP''), (4, ''CCMP''), (5, ''WEP-104'')];
          more = [(6, ''AES-128-CMAC''), (8, ''GCMP'')];
          names = (if take 3 d = ms_oui then known
                   else if take 3 d = ieee80211_oui then known @ more else [])
      in case map_of names (unat (d ! 3)) of Some s \<Rightarrow> s | None \<Rightarrow> suite_text d)"

definition auth_text :: "bytes \<Rightarrow> string" where
  "auth_text d =
     (let known = [(1, ''IEEE 802.1X''), (2, ''PSK'')];
          more = [(3, ''FT/IEEE 802.1X''), (4, ''FT/PSK''), (5, ''IEEE 802.1X/SHA-256''), (6, ''PSK/SHA-256''),
                  (7, ''TDLS/TPK'')];
          names = (if take 3 d = ms_oui then known
                   else if take 3 d = ieee80211_oui then known @ more else [])
      in case map_of names (unat (d ! 3)) of Some s \<Rightarrow> s | None \<Rightarrow> suite_text d)"

definition print_cipher :: "bytes \<Rightarrow> string option" where
  "print_cipher data = map_option cipher_text (rd_n data 4)"

definition print_auth :: "bytes \<Rightarrow> string option" where
  "print_auth data = map_option auth_text (rd_n data 4)"

fun print_suites :: "(bytes \<Rightarrow> string option) \<Rightarrow> nat \<Rightarrow> bytes \<Rightarrow> string option" where
  "print_suites suite 0 data = Some ''''"
| "print_suites suite (Suc n) data =
     do { s \<leftarrow> suite data; t \<leftarrow> print_suites suite n (drop 4 data); Some ('' '' @ s @ t) }"

text \<open>
  \<open>print_rsn_ie\<close>, from its end: the label \<open>invalid\<close>, the group management cipher, the PMKIDs, the
  capabilities, the authentication suites, the pairwise ciphers.
\<close>

definition rsn_invalid :: "nat \<Rightarrow> bytes \<Rightarrow> string option" where
  "rsn_invalid len data =
     (if len = 0 then Some ''''
      else do { bs \<leftarrow> rd_n data len;
                Some (tabs @ '' * bogus tail data ('' @ dec len @ ''):'' @ hex_bytes bs @ [nl]) })"

definition rsn_mgmt :: "nat \<Rightarrow> bytes \<Rightarrow> string option" where
  "rsn_mgmt len data =
     (if 4 \<le> len then
        do { c \<leftarrow> print_cipher data; t \<leftarrow> rsn_invalid (len - 4) (drop 4 data);
             Some (star False ''Group mgmt cipher suite: '' @ c @ [nl] @ t) }
      else rsn_invalid len data)"

definition rsn_pmkid :: "nat \<Rightarrow> bytes \<Rightarrow> string option" where
  "rsn_pmkid len data =
     (if 2 \<le> len then
        do { pmkid_count \<leftarrow> rd_le16 data 0;
             if 2 + 16 * pmkid_count \<le> len then
               do { t \<leftarrow> rsn_mgmt (len - (2 + 16 * pmkid_count)) (drop (2 + 16 * pmkid_count) data);
                    Some (star False (dec pmkid_count @ '' PMKIDs'' @ [nl]) @ t) }
             else rsn_invalid len data }
      else rsn_mgmt len data)"

definition replay_counters :: "nat \<Rightarrow> string" where
  "replay_counters n = (if n = 0 then ''1'' else if n = 1 then ''2'' else if n = 2 then ''4'' else ''16'')"

definition rsn_capa_text :: "nat \<Rightarrow> string" where
  "rsn_capa_text capa =
     flag_text (bit capa 0) '' PreAuth'' @ flag_text (bit capa 1) '' NoPairwise'' @
     '' '' @ replay_counters (capa div 4 mod 4) @ ''-PTKSA-RC'' @
     '' '' @ replay_counters (capa div 16 mod 4) @ ''-GTKSA-RC'' @
     flag_text (bit capa 6) '' MFP-required'' @ flag_text (bit capa 7) '' MFP-capable'' @
     flag_text (bit capa 9) '' Peerkey-enabled'' @ flag_text (bit capa 10) '' SPP-AMSDU-capable'' @
     flag_text (bit capa 11) '' SPP-AMSDU-required'' @ '' (0x'' @ fmt_0x 4 capa @ '')'' @ [nl]"

definition rsn_capa :: "nat \<Rightarrow> bytes \<Rightarrow> string option" where
  "rsn_capa len data =
     (if 2 \<le> len then
        do { capa \<leftarrow> rd_le16 data 0; t \<leftarrow> rsn_pmkid (len - 2) (drop 2 data);
             Some (star False ''Capabilities:'' @ rsn_capa_text capa @ t) }
      else rsn_pmkid len data)"

definition rsn_auth :: "string \<Rightarrow> nat \<Rightarrow> bytes \<Rightarrow> string option" where
  "rsn_auth defauth len data =
     (if len < 2 then Some (star False (''Authentication suites: '' @ defauth @ [nl]))
      else do { count \<leftarrow> rd_le16 data 0;
        if len < 2 + count * 4 then rsn_invalid len data
        else do { s \<leftarrow> print_suites print_auth count (drop 2 data);
                  t \<leftarrow> rsn_capa (len - (2 + count * 4)) (drop (2 + count * 4) data);
                  Some (star False ''Authentication suites:'' @ s @ [nl] @ t) } })"

definition rsn_pairwise :: "string \<Rightarrow> string \<Rightarrow> nat \<Rightarrow> bytes \<Rightarrow> string option" where
  "rsn_pairwise defcipher defauth len data =
     (if len < 2 then Some (star False (''Pairwise ciphers: '' @ defcipher @ [nl]))
      else do { count \<leftarrow> rd_le16 data 0;
        if len < 2 + count * 4 then rsn_invalid len data
        else do { s \<leftarrow> print_suites print_cipher count (drop 2 data);
                  t \<leftarrow> rsn_auth defauth (len - (2 + count * 4)) (drop (2 + count * 4) data);
                  Some (star False ''Pairwise ciphers:'' @ s @ [nl] @ t) } })"

definition print_rsn_ie :: "string \<Rightarrow> string \<Rightarrow> nat \<Rightarrow> bytes \<Rightarrow> string option" where
  "print_rsn_ie defcipher defauth len data =
     do { version \<leftarrow> rd_le16 data 0;
          let data = drop 2 data; let len = sub8 len 2;
          t \<leftarrow> (if len < 4 then
                 Some (star False (''Group cipher: '' @ defcipher @ [nl]) @
                       [tab] @ '' * Pairwise ciphers: '' @ defcipher @ [nl])
               else do { c \<leftarrow> print_cipher data;
                         t \<leftarrow> rsn_pairwise defcipher defauth (len - 4) (drop 4 data);
                         Some (star False ''Group cipher: '' @ c @ [nl] @ t) });
          Some (star True (''Version: '' @ dec version @ [nl]) @ t) }"

definition print_rsn :: "nat \<Rightarrow> bytes \<Rightarrow> string option" where
  "print_rsn len data = print_rsn_ie ''CCMP'' ''IEEE 802.1X'' len data"

subsection \<open>HT and VHT\<close>

definition print_ht_capa :: "nat \<Rightarrow> bytes \<Rightarrow> string option" where
  "print_ht_capa len data =
     do { cap \<leftarrow> rd_le16 data 0; b \<leftarrow> rd data 2; mcs \<leftarrow> rd_n (drop 3 data) 13;
          Some ([nl] @ print_ht_capability (word_of_nat cap) @ print_ampdu_length (word_of_nat (b mod 4)) @
                print_ampdu_spacing (word_of_nat (b div 4 mod 8)) @ print_ht_mcs mcs) }"

definition ht_secondary_offset :: "nat \<Rightarrow> string" where
  "ht_secondary_offset i = [''no secondary'', ''above'', ''[reserved!]'', ''below''] ! i"

definition item :: "string \<Rightarrow> string \<Rightarrow> string" where
  "item name val = tabs @ '' * '' @ name @ '': '' @ val @ [nl]"

definition print_ht_op :: "nat \<Rightarrow> bytes \<Rightarrow> string option" where
  "print_ht_op len data =
     do { d0 \<leftarrow> rd data 0; d1 \<leftarrow> rd data 1; d2 \<leftarrow> rd data 2; d4 \<leftarrow> rd data 4; d5 \<leftarrow> rd data 5;
          Some ([nl] @ item ''primary channel'' (dec d0) @
            item ''secondary channel offset'' (ht_secondary_offset (d1 mod 4)) @
            item ''STA channel width'' ([''20 MHz'', ''any''] ! (d1 div 4 mod 2)) @
            item ''RIFS'' (dec (d1 div 8 mod 2)) @
            item ''HT protection'' ([''no'', ''nonmember'', ''20 MHz'', ''non-HT mixed''] ! (d2 mod 4)) @
            item ''non-GF present'' (dec (d2 div 4 mod 2)) @
            item ''OBSS non-GF present'' (dec (d2 div 16 mod 2)) @
            item ''dual beacon'' (dec (d4 div 64 mod 2)) @
            item ''dual CTS protection'' (dec (d4 div 128 mod 2)) @
            item ''STBC beacon'' (dec (d5 mod 2)) @
            item ''L-SIG TXOP Prot'' (dec (d5 div 2 mod 2)) @
            item ''PCO active'' (dec (d5 div 4 mod 2)) @
            item ''PCO phase'' (dec (d5 div 8 mod 2))) }"

definition print_vht_capa :: "nat \<Rightarrow> bytes \<Rightarrow> string option" where
  "print_vht_capa len data =
     do { lo \<leftarrow> rd_le16 data 0; hi \<leftarrow> rd_le16 data 2; mcs \<leftarrow> rd_n (drop 4 data) 8;
          Some ([nl] @ print_vht_info (word_of_nat (lo + 65536 * hi)) mcs) }"

definition print_vht_oper :: "nat \<Rightarrow> bytes \<Rightarrow> string option" where
  "print_vht_oper len data =
     do { d0 \<leftarrow> rd data 0; d1 \<leftarrow> rd data 1; d2 \<leftarrow> rd data 2; d3 \<leftarrow> rd data 3; d4 \<leftarrow> rd data 4;
          let chandwidths = [''20 or 40 MHz'', ''80 MHz'', ''160 MHz'', ''80+80 MHz''];
          Some ([nl] @ item ''channel width'' (dec d0 @ '' ('' @
                  (if d0 < length chandwidths then chandwidths ! d0 else ''unknown'') @ '')'') @
                item ''center freq segment 1'' (dec d1) @ item ''center freq segment 2'' (dec d2) @
                item ''VHT basic MCS set'' (''0x'' @ fmt_0x 2 d4 @ fmt_0x 2 d3)) }"

definition print_obss_scan_params :: "nat \<Rightarrow> bytes \<Rightarrow> string option" where
  "print_obss_scan_params len data =
     do { a \<leftarrow> rd_le16 data 0; b \<leftarrow> rd_le16 data 2; c \<leftarrow> rd_le16 data 4; d \<leftarrow> rd_le16 data 6;
          e \<leftarrow> rd_le16 data 8; f \<leftarrow> rd_le16 data 10; g \<leftarrow> rd_le16 data 12;
          Some ([nl] @ item ''passive dwell'' (dec a @ '' TUs'') @ item ''active dwell'' (dec b @ '' TUs'') @
                item ''channel width trigger scan interval'' (dec c @ '' s'') @
                item ''scan passive total per channel'' (dec d @ '' TUs'') @
                item ''scan active total per channel'' (dec e @ '' TUs'') @
                item ''BSS width channel transition delay factor'' (dec f) @
                item ''OBSS Scan Activity Threshold'' (dec (g div 100) @ ''.'' @ pad0 2 (dec (g mod 100)) @ '' %'')) }"

definition print_secchan_offs :: "nat \<Rightarrow> bytes \<Rightarrow> string option" where
  "print_secchan_offs len data =
     do { b \<leftarrow> rd data 0;
          Some (if b < 4 then '' '' @ ht_secondary_offset b @ '' ('' @ dec b @ '')'' @ [nl]
                else '' '' @ dec b @ [nl]) }"

subsection \<open>802.11u\<close>

definition ntype_11u :: "nat \<Rightarrow> string" where
  "ntype_11u t =
     (case map_of [(0, ''Private''), (1, ''Private with Guest''), (2, ''Chargeable Public''), (3, ''Free Public''),
        (4, ''Personal Device''), (5, ''Emergency Services Only''), (14, ''Test or Experimental''),
        (15, ''Wildcard'')] t of Some s \<Rightarrow> s | None \<Rightarrow> ''Reserved'')"

definition vgroup_11u :: "nat \<Rightarrow> string" where
  "vgroup_11u t =
     (case map_of [(0, ''Unspecified''), (1, ''Assembly''), (2, ''Business''), (3, ''Educational''),
        (4, ''Factory and Industrial''), (5, ''Institutional''), (6, ''Mercantile''), (7, ''Residential''),
        (8, ''Storage''), (9, ''Utility and Miscellaneous''), (10, ''Vehicular''), (11, ''Outdoor'')] t of
        Some s \<Rightarrow> s | None \<Rightarrow> ''Reserved'')"

definition hessid_text :: "bytes \<Rightarrow> string" where
  "hessid_text d =
     tabs @ ''HESSID: '' @ hex_byte (d ! 0) @ concat (map (\<lambda>i. '':'' @ hex_byte (d ! i)) [1..<6]) @ [nl]"

definition print_interworking :: "nat \<Rightarrow> bytes \<Rightarrow> string option" where
  "print_interworking len data =
     do { net \<leftarrow> (if 1 \<le> len then
                   do { ano \<leftarrow> rd data 0;
                        Some (tabs @ ''Network Options: 0x'' @ fmt_x ano @ [nl] @
                          tabs3 @ ''Network Type: '' @ dec (ano mod 16) @ '' ('' @ ntype_11u (ano mod 16) @ '')'' @ [nl] @
                          flag_text (bit ano 4) (tabs3 @ ''Internet'' @ [nl]) @
                          flag_text (bit ano 5) (tabs3 @ ''ASRA'' @ [nl]) @
                          flag_text (bit ano 6) (tabs3 @ ''ESR'' @ [nl]) @
                          flag_text (bit ano 7) (tabs3 @ ''UESA'' @ [nl])) }
                 else Some '''');
          venue \<leftarrow> (if len = 3 \<or> len = 9 then
                     do { g \<leftarrow> rd data 1; t \<leftarrow> rd data 2;
                          Some (tabs @ ''Venue Group: '' @ dec g @ '' ('' @ vgroup_11u g @ '')'' @ [nl] @
                                tabs @ ''Venue Type: '' @ dec t @ [nl]) }
                   else Some '''');
          hessid \<leftarrow> (if len = 9 then map_option hessid_text (rd_n (drop 3 data) 6)
                    else if len = 7 then map_option hessid_text (rd_n (drop 1 data) 6)
                    else Some '''');
          Some ([nl] @ net @ venue @ hessid) }"

definition advert_text :: "nat \<Rightarrow> nat \<Rightarrow> string" where
  "advert_text qri proto_id =
     tabs @ ''Query Response Info: 0x'' @ fmt_x qri @ [nl] @
     tabs3 @ ''Query Response Length Limit: '' @ dec (qri mod 128) @ [nl] @
     flag_text (bit qri 7) (tabs3 @ ''PAME-BI'' @ [nl]) @
     tabs3 @ (case map_of [(0, ''ANQP''), (1, ''MIH Information Service''),
        (2, ''MIH Command and Event Services Capability Discovery''), (3, ''Emergency Alert System (EAS)''),
        (221, ''Vendor Specific'')] proto_id of Some s \<Rightarrow> s | None \<Rightarrow> ''Reserved: '' @ dec proto_id) @ [nl]"

fun advert_loop :: "nat \<Rightarrow> bytes \<Rightarrow> string option" where
  "advert_loop len data =
     (if len < 2 then Some ''''
      else do { qri \<leftarrow> rd data 0; proto_id \<leftarrow> rd data 1; t \<leftarrow> advert_loop (len - 2) (drop 2 data);
                Some (advert_text qri proto_id @ t) })"

declare advert_loop.simps [simp del]

definition print_11u_advert :: "nat \<Rightarrow> bytes \<Rightarrow> string option" where
  "print_11u_advert len data = map_option (\<lambda>t. [nl] @ t) (advert_loop len data)"

definition rcon_oi :: "string \<Rightarrow> nat \<Rightarrow> int \<Rightarrow> nat \<Rightarrow> bytes \<Rightarrow> string option" where
  "rcon_oi name pos ln len data =
     (if 0 < ln then
        (if int len < int pos + ln then Some (tabs @ name @ ''Invalid IE length.'' @ [nl])
         else do { d \<leftarrow> rd_n (drop pos data) (nat ln);
                   Some (tabs @ name @ concat (map hex_byte d) @ [nl]) })
      else Some '''')"

definition print_11u_rcon :: "nat \<Rightarrow> bytes \<Rightarrow> string option" where
  "print_11u_rcon len data =
     do { d1 \<leftarrow> rd data 1;
          let ln0 = d1 mod 16; let ln1 = d1 div 16 mod 16;
          let ln2 = (if ln1 \<noteq> 0 then int len - 2 - int ln0 - int ln1 else 0);
          d0 \<leftarrow> rd data 0;
          o1 \<leftarrow> rcon_oi ''OI 1: '' 2 (int ln0) len data;
          o2 \<leftarrow> rcon_oi ''OI 2: '' (2 + ln0) (int ln1) len data;
          o3 \<leftarrow> rcon_oi ''OI 3: '' (2 + ln0 + ln1) ln2 len data;
          Some ([nl] @ tabs @ ''ANQP OIs: '' @ dec d0 @ [nl] @ o1 @ o2 @ o3) }"

subsection \<open>Capabilities, traffic and mesh\<close>

definition capa_names :: "string option list" where
  "capa_names =
     map Some [''HT Information Exchange Supported'', ''reserved (On-demand Beacon)'', ''Extended Channel Switching'',
       ''reserved (Wave Indication)'', ''PSMP Capability'', ''reserved (Service Interval Granularity)'',
       ''S-PSMP Capability'', ''Event'', ''Diagnostics'', ''Multicast Diagnostics'', ''Location Tracking'', ''FMS'',
       ''Proxy ARP Service'', ''Collocated Interference Reporting'', ''Civic Location'', ''Geospatial Location'',
       ''TFS'', ''WNM-Sleep Mode'', ''TIM Broadcast'', ''BSS Transition'', ''QoS Traffic Capability'',
       ''AC Station Count'', ''Multiple BSSID'', ''Timing Measurement'', ''Channel Usage'', ''SSID List'', ''DMS'',
       ''UTC TSF Offset'', ''TDLS Peer U-APSD Buffer STA Support'', ''TDLS Peer PSM Support'',
       ''TDLS channel switching'', ''Interworking'', ''QoS Map'', ''EBR'', ''SSPN Interface'', ''Reserved'',
       ''MSGCF Capability'', ''TDLS Support'', ''TDLS Prohibited'', ''TDLS Channel Switching Prohibited'',
       ''Reject Unadmitted Frame''] @
     [None, None, None] @
     map Some [''Identifier Location'', ''U-APSD Coexistence'', ''WNM-Notification'', ''Reserved'', ''UTF-8 SSID'']"

text \<open>The default case prints the number of the bit within its byte.\<close>

definition capa_text :: "nat \<Rightarrow> string" where
  "capa_text k =
     '' '' @ (case (if k < length capa_names then capa_names ! k else None) of
                Some s \<Rightarrow> s | None \<Rightarrow> dec (k mod 8))"

fun comma_sep :: "string list \<Rightarrow> string" where
  "comma_sep [] = ''''"
| "comma_sep [s] = s"
| "comma_sep (s # t # ss) = s @ '','' @ comma_sep (t # ss)"

definition print_capabilities :: "nat \<Rightarrow> bytes \<Rightarrow> string option" where
  "print_capabilities len data =
     do { d \<leftarrow> rd_n data len;
          Some (comma_sep (map capa_text (filter (\<lambda>k. bit (d ! (k div 8)) (k mod 8)) [0..<8 * len])) @ [nl]) }"

text \<open>The table of the printers gives \<open>print_tim\<close> at least the four bytes it reads.\<close>

definition print_tim :: "nat \<Rightarrow> bytes \<Rightarrow> string option" where
  "print_tim len data =
     do { d0 \<leftarrow> rd data 0; d1 \<leftarrow> rd data 1; d2 \<leftarrow> rd data 2; d3 \<leftarrow> rd data 3;
          Some ('' DTIM Count '' @ dec d0 @ '' DTIM Period '' @ dec d1 @ '' Bitmap Control 0x'' @ fmt_x d2 @
                '' Bitmap[0] 0x'' @ fmt_x d3 @
                (if len = 4 then '''' else '' (+ '' @ dec (len - 4) @ '' octet'' @ (if len - 4 = 1 then '''' else ''s'') @ '')'') @
                [nl]) }"

definition print_ibssatim :: "nat \<Rightarrow> bytes \<Rightarrow> string option" where
  "print_ibssatim len data = do { n \<leftarrow> rd_le16 data 0; Some ('' '' @ dec n @ '' TUs'') }"

definition print_bss_load :: "nat \<Rightarrow> bytes \<Rightarrow> string option" where
  "print_bss_load len data =
     do { n \<leftarrow> rd_le16 data 0; u \<leftarrow> rd data 2; a \<leftarrow> rd_le16 data 3;
          Some ([nl] @ item ''station count'' (dec n) @ item ''channel utilisation'' (dec u @ ''/255'') @
                item ''available admission capacity'' (dec a @ '' [*32us]'')) }"

definition print_mesh_conf :: "nat \<Rightarrow> bytes \<Rightarrow> string option" where
  "print_mesh_conf len data =
     do { d0 \<leftarrow> rd data 0; d1 \<leftarrow> rd data 1; d2 \<leftarrow> rd data 2; d3 \<leftarrow> rd data 3; d4 \<leftarrow> rd data 4; d5 \<leftarrow> rd data 5;
          d6 \<leftarrow> rd data 6;
          let line = (\<lambda>b s. flag_text b (tabs3 @ '' '' @ s @ [nl]));
          Some ([nl] @ item ''Active Path Selection Protocol ID'' (dec d0) @
            item ''Active Path Selection Metric ID'' (dec d1) @ item ''Congestion Control Mode ID'' (dec d2) @
            item ''Synchronization Method ID'' (dec d3) @ item ''Authentication Protocol ID'' (dec d4) @
            tabs @ '' * Mesh Formation Info:'' @ [nl] @
            tabs3 @ '' Number of Peerings: '' @ dec (d5 div 2 mod 64) @ [nl] @
            line (bit d5 0) ''Connected to Mesh Gate'' @ line (bit d5 7) ''Connected to AS'' @
            tabs @ '' * Mesh Capability'' @ [nl] @
            line (bit d6 0) ''Accepting Additional Mesh Peerings'' @ line (bit d6 1) ''MCCA Supported'' @
            line (bit d6 2) ''MCCA Enabled'' @ line (bit d6 3) ''Forwarding'' @ line (bit d6 4) ''MBCA Supported'' @
            line (bit d6 5) ''TBTT Adjusting'' @ line (bit d6 6) ''Mesh Power Save Level'') }"

subsection \<open>How much a printer reads\<close>

text \<open>
  \<open>reads n f\<close>: with \<open>n\<close> bytes in front of it \<open>f\<close> succeeds, and the bytes behind them do not matter.
\<close>

named_theorems reads_rules \<open>composition rules for the bytes a printer reads\<close>

definition reads :: "nat \<Rightarrow> (bytes \<Rightarrow> 'a option) \<Rightarrow> bool" where
  "reads n f \<longleftrightarrow> (\<forall>d. n \<le> length d \<longrightarrow> f d \<noteq> None \<and> f d = f (take n d))"

lemma readsI: "(\<And>d. n \<le> length d \<Longrightarrow> \<exists>x. f d = Some x \<and> f (take n d) = Some x) \<Longrightarrow> reads n f"
  unfolding reads_def by fastforce

lemma readsE:
  assumes "reads n f" "n \<le> length d"
  obtains x where "f d = Some x" "f (take n d) = Some x"
  using assms unfolding reads_def by (metis not_Some_eq)

lemma reads_append: "reads n f \<Longrightarrow> length d = n \<Longrightarrow> f (d @ r) = f d"
  unfolding reads_def by (metis append_eq_conv_conj le_add1 length_append)

lemma reads_Some [reads_rules]: "reads n (\<lambda>d. Some x)"
  by (rule readsI) simp

lemma reads_rd [reads_rules]: "i < n \<Longrightarrow> reads n (\<lambda>d. rd d i)"
  by (rule readsI) (simp add: rd_def)

lemma reads_rd_n [reads_rules]: "k \<le> n \<Longrightarrow> reads n (\<lambda>d. rd_n d k)"
  by (rule readsI) (simp add: rd_n_def min_absorb1)

lemma reads_bind [reads_rules]:
  assumes "reads n f" "\<And>x. reads n (g x)"
  shows "reads n (\<lambda>d. Option.bind (f d) (\<lambda>x. g x d))"
proof (rule readsI)
  fix d :: bytes assume "n \<le> length d"
  then obtain x where "f d = Some x" "f (take n d) = Some x" using assms(1) by (blast elim: readsE)
  then show "\<exists>y. Option.bind (f d) (\<lambda>x. g x d) = Some y \<and> Option.bind (f (take n d)) (\<lambda>x. g x (take n d)) = Some y"
    using assms(2) [of x] \<open>n \<le> length d\<close> by (auto elim: readsE)
qed

lemma reads_map [reads_rules]: "reads n f \<Longrightarrow> reads n (\<lambda>d. map_option h (f d))"
  by (rule readsI) (auto elim: readsE)

lemma reads_drop: "reads (n - k) f \<Longrightarrow> k \<le> n \<Longrightarrow> reads n (\<lambda>d. f (drop k d))"
proof (rule readsI)
  fix d :: bytes assume "reads (n - k) f" "k \<le> n" "n \<le> length d"
  then have "n - k \<le> length (drop k d)" by simp
  then obtain x where "f (drop k d) = Some x" "f (take (n - k) (drop k d)) = Some x"
    using readsE [OF \<open>reads (n - k) f\<close>] by blast
  then show "\<exists>x. f (drop k d) = Some x \<and> f (drop k (take n d)) = Some x" by (simp add: drop_take)
qed

lemma reads_if [reads_rules]:
  "(b \<Longrightarrow> reads n f) \<Longrightarrow> (\<not> b \<Longrightarrow> reads n g) \<Longrightarrow> reads n (\<lambda>d. if b then f d else g d)"
  by (cases b) simp_all

lemma reads_Let [reads_rules]: "(\<And>x. x = e \<Longrightarrow> reads n (\<lambda>d. f x d)) \<Longrightarrow> reads n (\<lambda>d. let x = e in f x d)"
  by simp

lemma reads_mono: "reads m f \<Longrightarrow> m \<le> n \<Longrightarrow> reads n f"
proof (rule readsI)
  fix d :: bytes assume *: "reads m f" "m \<le> n" "n \<le> length d"
  obtain x where x: "f d = Some x" "f (take m d) = Some x" using * by (auto elim: readsE [of m f d])
  obtain y where "f (take n d) = Some y" "f (take m (take n d)) = Some y"
    using * by (auto elim: readsE [of m f "take n d"])
  with x * show "\<exists>x. f d = Some x \<and> f (take n d) = Some x" by (simp add: min_absorb1)
qed

lemma reads_le16 [reads_rules]: "i + 2 \<le> n \<Longrightarrow> reads n (\<lambda>d. rd_le16 d i)"
  and reads_be16 [reads_rules]: "i + 2 \<le> n \<Longrightarrow> reads n (\<lambda>d. rd_be16 d i)"
  unfolding rd_le16_def rd_be16_def by (intro reads_rules; simp)+

lemma reads_str [reads_rules]: "k \<le> n \<Longrightarrow> reads n (str_n k)"
proof (induction k arbitrary: n)
  case (Suc k)
  show ?case
  proof (rule readsI)
    fix d :: bytes assume "n \<le> length d"
    then obtain b bs m where d: "d = b # bs" "n = Suc m" "m \<le> length bs" using Suc.prems by (cases d; cases n) auto
    with Suc.prems show "\<exists>x. str_n (Suc k) d = Some x \<and> str_n (Suc k) (take n d) = Some x"
      using Suc.IH [of m] by (auto elim: readsE)
  qed
qed (rule readsI, simp)

lemma sub8_le: "n \<le> len \<Longrightarrow> len \<le> 255 \<Longrightarrow> sub8 len n = len - n"
  by (simp add: sub8_def mod_pos_pos_trivial)

lemma reads_ssid: "reads len (print_ssid len)"
  and reads_supprates: "reads len (print_supprates len)"
  and reads_capabilities: "reads len (print_capabilities len)"
  unfolding print_ssid_def [abs_def] print_supprates_def [abs_def] print_capabilities_def [abs_def]
  by (intro reads_rules; simp)+

lemma reads_one:
  assumes "1 \<le> len"
  shows "reads len (print_ds len)" "reads len (print_powerconstraint len)" "reads len (print_tpcreport len)"
    "reads len (print_erp len)" "reads len (print_secchan_offs len)"
  using assms
  unfolding print_ds_def [abs_def] print_powerconstraint_def [abs_def] print_tpcreport_def [abs_def]
    print_erp_def [abs_def] print_secchan_offs_def [abs_def]
  by (intro reads_rules; simp)+

lemma reads_fixed:
  shows "4 \<le> len \<Longrightarrow> reads len (print_tim len)" "2 \<le> len \<Longrightarrow> reads len (print_ibssatim len)"
    "5 \<le> len \<Longrightarrow> reads len (print_bss_load len)" "7 \<le> len \<Longrightarrow> reads len (print_mesh_conf len)"
    "22 \<le> len \<Longrightarrow> reads len (print_ht_op len)" "5 \<le> len \<Longrightarrow> reads len (print_vht_oper len)"
    "14 \<le> len \<Longrightarrow> reads len (print_obss_scan_params len)"
  unfolding print_tim_def [abs_def] print_ibssatim_def [abs_def] print_bss_load_def [abs_def]
    print_mesh_conf_def [abs_def] print_ht_op_def [abs_def] print_vht_oper_def [abs_def]
    print_obss_scan_params_def [abs_def]
  by (intro reads_rules; simp)+

lemma reads_rd_n_drop [reads_rules]: "k + m \<le> n \<Longrightarrow> reads n (\<lambda>d. rd_n (drop k d) m)"
  by (rule reads_drop) (auto intro: reads_rules)

lemma reads_ht_vht:
  shows "26 \<le> len \<Longrightarrow> reads len (print_ht_capa len)" "12 \<le> len \<Longrightarrow> reads len (print_vht_capa len)"
  unfolding print_ht_capa_def [abs_def] print_vht_capa_def [abs_def] by (intro reads_rules; simp)+

lemma reads_country_loop: "reads len (country_loop len)"
proof (induction len rule: less_induct)
  case (less len)
  show ?case
  proof (cases "len < 3")
    case True
    then show ?thesis by (subst country_loop.simps [abs_def]) (simp add: reads_rules)
  next
    case False
    then have "reads (len - 3) (country_loop (len - 3))" by (intro less) simp
    then have "reads len (\<lambda>d. country_loop (len - 3) (drop 3 d))" using False by (intro reads_drop) auto
    with False show ?thesis by (subst country_loop.simps [abs_def]) (auto intro!: reads_rules)
  qed
qed

lemma reads_country: "3 \<le> len \<Longrightarrow> len \<le> 255 \<Longrightarrow> reads len (print_country len)"
  unfolding print_country_def [abs_def]
  by (intro reads_rules) (auto simp: sub8_le intro!: reads_drop reads_country_loop)

lemma reads_advert: "reads len (print_11u_advert len)"
proof -
  have "reads len (advert_loop len)"
  proof (induction len rule: less_induct)
    case (less len)
    show ?case
    proof (cases "len < 2")
      case True
      then show ?thesis by (subst advert_loop.simps [abs_def]) (simp add: reads_rules)
    next
      case False
      then have "reads (len - 2) (advert_loop (len - 2))" by (intro less) simp
      then have "reads len (\<lambda>d. advert_loop (len - 2) (drop 2 d))" using False by (intro reads_drop) auto
      with False show ?thesis by (subst advert_loop.simps [abs_def]) (auto intro!: reads_rules)
    qed
  qed
  then show ?thesis unfolding print_11u_advert_def [abs_def] by (rule reads_map)
qed

lemma reads_interworking: "reads len (print_interworking len)"
  unfolding print_interworking_def [abs_def] by (intro reads_rules) auto

lemma reads_rcon_oi [reads_rules]: "reads len (rcon_oi name pos ln len)"
proof -
  have "pos + nat ln \<le> len" if "0 < ln" "\<not> int len < int pos + ln" using that by linarith
  then show ?thesis unfolding rcon_oi_def [abs_def] by (intro reads_rules)
qed

lemma reads_rcon: "2 \<le> len \<Longrightarrow> reads len (print_11u_rcon len)"
  unfolding print_11u_rcon_def [abs_def] by (intro reads_rules) auto

subsection \<open>RSN\<close>

lemma reads_cipher [reads_rules]: "4 \<le> n \<Longrightarrow> reads n print_cipher"
  and reads_auth [reads_rules]: "4 \<le> n \<Longrightarrow> reads n print_auth"
  unfolding print_cipher_def [abs_def] print_auth_def [abs_def] by (intro reads_rules; simp)+

lemma reads_suites:
  assumes "\<And>n. 4 \<le> n \<Longrightarrow> reads n suite" "4 * k \<le> n"
  shows "reads n (print_suites suite k)"
  using assms(2)
proof (induction k arbitrary: n)
  case (Suc k)
  then have "reads n (\<lambda>d. print_suites suite k (drop 4 d))" by (intro reads_drop) auto
  then show ?case using Suc.prems assms(1) by (subst print_suites.simps(2) [abs_def]) (auto intro!: reads_rules)
qed (rule readsI, simp)

lemma reads_rsn_invalid: "reads len (rsn_invalid len)"
  unfolding rsn_invalid_def [abs_def] by (intro reads_rules; simp)

lemma reads_rsn_mgmt: "reads len (rsn_mgmt len)"
  unfolding rsn_mgmt_def [abs_def] by (auto intro!: reads_rules reads_drop reads_rsn_invalid)

lemma reads_rsn_pmkid: "reads len (rsn_pmkid len)"
  unfolding rsn_pmkid_def [abs_def] by (auto intro!: reads_rules reads_drop reads_rsn_mgmt reads_rsn_invalid)

lemma reads_rsn_capa: "reads len (rsn_capa len)"
  unfolding rsn_capa_def [abs_def] by (auto intro!: reads_rules reads_drop reads_rsn_pmkid)

lemma reads_rsn_auth: "reads len (rsn_auth defauth len)"
  unfolding rsn_auth_def [abs_def]
  by (auto intro!: reads_rules reads_drop reads_rsn_capa reads_rsn_invalid reads_suites)

lemma reads_rsn_pairwise: "reads len (rsn_pairwise defcipher defauth len)"
  unfolding rsn_pairwise_def [abs_def]
  by (auto intro!: reads_rules reads_drop reads_rsn_auth reads_rsn_invalid reads_suites)

lemma reads_rsn_ie: "2 \<le> len \<Longrightarrow> len \<le> 255 \<Longrightarrow> reads len (print_rsn_ie defcipher defauth len)"
  unfolding print_rsn_ie_def [abs_def]
  by (auto intro!: reads_rules reads_drop reads_rsn_pairwise simp: sub8_le)

end
