(* ===== verification/Iw_Scan.thy ===== *)
theory Iw_Scan
  imports Iw_Elem
begin

unbundle bit_operations_syntax

text \<open>
  The walk over the information elements of a scan result (\<open>print_ies\<close> of
  \<open>wifi_tools/iw/scan.c\<close>): the tables of the printers with the lengths they accept, the elements of
  vendors, and the nested attributes of WPS and P2P.
\<close>

subsection \<open>The tables\<close>

datatype print_ie_type = PRINT_SCAN | PRINT_LINK

record ie_print =
  ie_name :: string
  ie_printer :: "nat \<Rightarrow> bytes \<Rightarrow> string option"
  ie_minlen :: nat
  ie_maxlen :: nat
  ie_flags :: "print_ie_type list"

definition ie_entry ::
  "string \<Rightarrow> (nat \<Rightarrow> bytes \<Rightarrow> string option) \<Rightarrow> nat \<Rightarrow> nat \<Rightarrow> print_ie_type list \<Rightarrow> ie_print" where
  "ie_entry name pr minlen maxlen flags =
     \<lparr>ie_name = name, ie_printer = pr, ie_minlen = minlen, ie_maxlen = maxlen, ie_flags = flags\<rparr>"

definition print_ie :: "ie_print \<Rightarrow> nat \<Rightarrow> bytes \<Rightarrow> string option" where
  "print_ie p len data =
     map_option (\<lambda>t. [tab] @ ie_name p @ '':'' @ t)
       (if len < ie_minlen p \<or> ie_maxlen p < len then
          (if 1 < len then
             do { d \<leftarrow> rd_n data len; Some ('' <invalid: '' @ dec len @ '' bytes:'' @ hex_bytes d @ ''>'' @ [nl]) }
           else if len \<noteq> 0 then
             do { d \<leftarrow> rd_n data 1; Some ('' <invalid: 1 byte: '' @ hex_byte (d ! 0) @ ''>'' @ [nl]) }
           else Some ('' <invalid: no data>'' @ [nl]))
        else ie_printer p len data)"

definition ieprinters :: "(nat \<times> ie_print) list" where
  "ieprinters =
     [(0, ie_entry ''SSID'' print_ssid 0 32 [PRINT_SCAN, PRINT_LINK]),
      (1, ie_entry ''Supported rates'' print_supprates 0 255 [PRINT_SCAN]),
      (3, ie_entry ''DS Parameter set'' print_ds 1 1 [PRINT_SCAN]),
      (5, ie_entry ''TIM'' print_tim 4 255 [PRINT_SCAN]),
      (6, ie_entry ''IBSS ATIM window'' print_ibssatim 2 2 [PRINT_SCAN]),
      (7, ie_entry ''Country'' print_country 3 255 [PRINT_SCAN]),
      (11, ie_entry ''BSS Load'' print_bss_load 5 5 [PRINT_SCAN]),
      (32, ie_entry ''Power constraint'' print_powerconstraint 1 1 [PRINT_SCAN]),
      (35, ie_entry ''TPC report'' print_tpcreport 2 2 [PRINT_SCAN]),
      (42, ie_entry ''ERP'' print_erp 1 255 [PRINT_SCAN]),
      (45, ie_entry ''HT capabilities'' print_ht_capa 26 26 [PRINT_SCAN]),
      (47, ie_entry ''ERP D4.0'' print_erp 1 255 [PRINT_SCAN]),
      (74, ie_entry ''Overlapping BSS scan params'' print_obss_scan_params 14 255 [PRINT_SCAN]),
      (61, ie_entry ''HT operation'' print_ht_op 22 22 [PRINT_SCAN]),
      (62, ie_entry ''Secondary Channel Offset'' print_secchan_offs 1 1 [PRINT_SCAN]),
      (191, ie_entry ''VHT capabilities'' print_vht_capa 12 255 [PRINT_SCAN]),
      (192, ie_entry ''VHT operation'' print_vht_oper 5 255 [PRINT_SCAN]),
      (48, ie_entry ''RSN'' print_rsn 2 255 [PRINT_SCAN]),
      (50, ie_entry ''Extended supported rates'' print_supprates 0 255 [PRINT_SCAN]),
      (113, ie_entry ''MESH Configuration'' print_mesh_conf 7 7 [PRINT_SCAN]),
      (114, ie_entry ''MESH ID'' print_ssid 0 32 [PRINT_SCAN, PRINT_LINK]),
      (127, ie_entry ''Extended capabilities'' print_capabilities 0 255 [PRINT_SCAN]),
      (107, ie_entry ''802.11u Interworking'' print_interworking 0 255 [PRINT_SCAN]),
      (108, ie_entry ''802.11u Advertisement'' print_11u_advert 0 255 [PRINT_SCAN]),
      (111, ie_entry ''802.11u Roaming Consortium'' print_11u_rcon 0 255 [PRINT_SCAN])]"

subsection \<open>WPA and WMM\<close>

definition print_wifi_wpa :: "nat \<Rightarrow> bytes \<Rightarrow> string option" where
  "print_wifi_wpa len data = print_rsn_ie ''TKIP'' ''IEEE 802.1X'' len data"

definition wmm_ac :: "bytes \<Rightarrow> string" where
  "wmm_ac d =
     (let d0 = unat (d ! 0); d1 = unat (d ! 1); d2 = unat (d ! 2); d3 = unat (d ! 3) in
      [nl] @ tabs @ '' * '' @ [''BE'', ''BK'', ''VI'', ''VO''] ! (d0 div 32 mod 4) @ '':'' @
      flag_text (bit d0 4) '' acm'' @
      '' CW '' @ dec (2 ^ (d1 mod 16) - 1) @ ''-'' @ dec (2 ^ (d1 div 16) - 1) @
      '', AIFSN '' @ dec (d0 mod 16) @
      flag_text (d2 \<noteq> 0 \<or> d3 \<noteq> 0) ('', TXOP '' @ dec ((d2 + 256 * d3) * 32) @ '' usec''))"

text \<open>The parameters; whether they were valid, with the text.\<close>

definition print_wifi_wmm_param :: "bytes \<Rightarrow> nat \<Rightarrow> (bool \<times> string) option" where
  "print_wifi_wmm_param data len =
     (if len < 19 then Some (False, ''invalid: '')
      else do { v \<leftarrow> rd data 0;
        if v \<noteq> 1 then Some (False, ''Parameter: not version 1: '')
        else do { q \<leftarrow> rd data 1; d \<leftarrow> rd_n (drop 3 data) 16;
          Some (True, [tab] @ '' * Parameter version 1'' @ flag_text (bit q 7) ([nl] @ tabs @ '' * u-APSD'') @
            concat (map (\<lambda>i. wmm_ac (drop (4 * i) d)) [0..<4]) @ [nl]) } })"

definition print_wifi_wmm :: "nat \<Rightarrow> bytes \<Rightarrow> string option" where
  "print_wifi_wmm len data =
     do { k \<leftarrow> rd data 0;
          r \<leftarrow> (if k = 0 then Some (False, '' information:'')
               else if k = 1 then print_wifi_wmm_param (drop 1 data) (sub8 len 1)
               else Some (False, '' type '' @ dec k @ '':''));
          if fst r then Some (snd r)
          else do { d \<leftarrow> rd_n (drop 1 data) (len - 1); Some (snd r @ hex_bytes d @ [nl]) } }"

subsection \<open>WPS\<close>

definition wifi_wps_dev_passwd_id :: "nat \<Rightarrow> string" where
  "wifi_wps_dev_passwd_id i =
     (case map_of [(0, ''Default (PIN)''), (1, ''User-specified''), (2, ''Machine-specified''), (3, ''Rekey''),
        (4, ''PushButton''), (5, ''Registrar-specified'')] i of Some s \<Rightarrow> s | None \<Rightarrow> ''??'')"

definition wps_methods :: "(nat \<times> string) list" where
  "wps_methods =
     [(0, ''USB''), (1, ''Ethernet''), (2, ''Label''), (3, ''Display''), (4, ''Ext. NFC''), (5, ''Int. NFC''),
      (6, ''NFC Intf.''), (7, ''PBC''), (8, ''Keypad'')]"

definition uuid_text :: "bytes \<Rightarrow> string" where
  "uuid_text d =
     (let h = (\<lambda>is. concat (map (\<lambda>i. hex_byte (d ! i)) is)) in
      h [0..<4] @ ''-'' @ h [4, 5] @ ''-'' @ h [6, 7] @ ''-'' @ h [8, 9] @ ''-'' @ h [10..<16])"

text \<open>One attribute; \<open>v\<close> is where its value begins (\<open>data + 4\<close>).\<close>

definition wps_attr :: "nat \<Rightarrow> nat \<Rightarrow> bytes \<Rightarrow> string option" where
  "wps_attr subtype sublen v =
     (let text = (\<lambda>name. map_option (\<lambda>s. name @ '': '' @ s @ [nl]) (str_n sublen v)) in
      if subtype = 0x104a then
        do { b \<leftarrow> rd v 0; Some (''Version: '' @ dec (b div 16) @ ''.'' @ dec (b mod 16) @ [nl]) }
      else if subtype = 0x1011 then text ''Device name''
      else if subtype = 0x1012 then
        (if sublen \<noteq> 2 then Some (''Device Password ID: (invalid length '' @ dec sublen @ '')'' @ [nl])
         else do { i \<leftarrow> rd_be16 v 0;
                   Some (''Device Password ID: '' @ dec i @ '' ('' @ wifi_wps_dev_passwd_id i @ '')'' @ [nl]) })
      else if subtype = 0x1021 then text ''Manufacturer''
      else if subtype = 0x1023 then text ''Model''
      else if subtype = 0x1024 then text ''Model Number''
      else if subtype = 0x103b then
        do { b \<leftarrow> rd v 0; Some (''Response Type: '' @ dec b @ flag_text (b = 3) '' (AP)'' @ [nl]) }
      else if subtype = 0x103c then do { b \<leftarrow> rd v 0; Some (''RF Bands: 0x'' @ fmt_x b @ [nl]) }
      else if subtype = 0x1041 then do { b \<leftarrow> rd v 0; Some (''Selected Registrar: 0x'' @ fmt_x b @ [nl]) }
      else if subtype = 0x1042 then text ''Serial Number''
      else if subtype = 0x1044 then
        do { b \<leftarrow> rd v 0;
             Some (''Wi-Fi Protected Setup State: '' @ dec b @ flag_text (b = 1) '' (Unconfigured)'' @
                   flag_text (b = 2) '' (Configured)'' @ [nl]) }
      else if subtype = 0x1047 then
        (if sublen \<noteq> 16 then Some (''UUID: (invalid, length='' @ dec sublen @ '')'' @ [nl])
         else do { d \<leftarrow> rd_n v 16; Some (''UUID: '' @ uuid_text d @ [nl]) })
      else if subtype = 0x1054 then
        (if sublen \<noteq> 8 then Some (''Primary Device Type: (invalid length '' @ dec sublen @ '')'' @ [nl])
         else do { c \<leftarrow> rd_be16 v 0; d \<leftarrow> rd_n (drop 2 v) 4; s \<leftarrow> rd_be16 v 6;
                   Some (''Primary Device Type: '' @ dec c @ ''-'' @ concat (map hex_byte d) @ ''-'' @ dec s @ [nl]) })
      else if subtype = 0x1057 then do { b \<leftarrow> rd v 0; Some (''AP setup locked: 0x'' @ fmt_0x 2 b @ [nl]) }
      else if subtype = 0x1008 \<or> subtype = 0x1053 then
        do { meth \<leftarrow> rd_be16 v 0;
             Some (flag_text (subtype = 0x1053) ''Selected Registrar '' @ ''Config methods:'' @
                   comma_sep (map (\<lambda>(b, name). '' '' @ name) (filter (\<lambda>(b, name). bit meth b) wps_methods)) @ [nl]) }
      else
        do { d \<leftarrow> rd_n v sublen;
             Some (''Unknown TLV ('' @ alt_x 4 subtype @ '', '' @ dec sublen @ '' bytes):'' @ hex_bytes d @ [nl]) })"

text \<open>
  The loop.  Its test compares the length of the attribute with all that is left, its header
  included, and the length left is a \<open>uint8_t\<close>.
\<close>

function wps_loop :: "bool \<Rightarrow> nat \<Rightarrow> bytes \<Rightarrow> string option" where
  "wps_loop first len data =
     (if len < 4 then rsn_invalid len data
      else if length data < 4 then None
      else do { subtype \<leftarrow> rd_be16 data 0; sublen \<leftarrow> rd_be16 data 2;
        if len < sublen then rsn_invalid len data
        else do { s \<leftarrow> wps_attr subtype sublen (drop 4 data);
                  t \<leftarrow> wps_loop False (sub8 len (sublen + 4)) (drop (sublen + 4) data);
                  Some (star first s @ t) } })"
  by pat_completeness auto
termination
  by (relation "measure (\<lambda>(first, len, data). length data)") auto

declare wps_loop.simps [simp del]

definition print_wifi_wps :: "nat \<Rightarrow> bytes \<Rightarrow> string option" where
  "print_wifi_wps len data = wps_loop True len data"

definition wifiprinters :: "(nat \<times> ie_print) list" where
  "wifiprinters =
     [(1, ie_entry ''WPA'' print_wifi_wpa 2 255 [PRINT_SCAN]),
      (2, ie_entry ''WMM'' print_wifi_wmm 1 255 [PRINT_SCAN]),
      (4, ie_entry ''WPS'' print_wifi_wps 0 255 [PRINT_SCAN])]"

subsection \<open>P2P and Hotspot 2.0\<close>

text \<open>
  One attribute, with whether \<open>tab_on_first\<close> was called.  The bytes of an attribute are printed from
  \<open>data + 4\<close>, one behind the three bytes of its header.
\<close>

definition p2p_attr :: "bool \<Rightarrow> nat \<Rightarrow> nat \<Rightarrow> bytes \<Rightarrow> (bool \<times> string) option" where
  "p2p_attr first subtype sublen data =
     (if subtype = 0x02 then
        (if sublen < 2 then Some (True, star first (''malformed capability'' @ [nl]))
         else do { g \<leftarrow> rd data 3; d \<leftarrow> rd data 4;
                   Some (True, star first (''Group capa: 0x'' @ fmt_0x 2 g @ '', Device capa: 0x'' @ fmt_0x 2 d @ [nl])) })
      else if subtype = 0x0d \<and> sublen < 6 + 2 + 8 + 1 then
        Some (False, [tab] @ '' * malformed device info'' @ [nl])
      else do { d \<leftarrow> rd_n (drop 4 data) sublen;
                Some (True, star first (''Unknown TLV ('' @ alt_x 2 subtype @ '', '' @ dec sublen @ '' bytes):'' @
                  hex_bytes d @ [nl])) })"

fun p2p_loop :: "bool \<Rightarrow> nat \<Rightarrow> bytes \<Rightarrow> string option" where
  "p2p_loop first len data =
     (if len < 3 then bogus_tail first len data
      else do { subtype \<leftarrow> rd data 0; sublen \<leftarrow> rd_le16 data 1;
        if len - 3 < sublen then bogus_tail first len data
        else do { s \<leftarrow> p2p_attr first subtype sublen data;
                  t \<leftarrow> p2p_loop (first \<and> \<not> fst s) (len - (sublen + 3)) (drop (sublen + 3) data);
                  Some (snd s @ t) } })"

declare p2p_loop.simps [simp del]

definition print_p2p :: "nat \<Rightarrow> bytes \<Rightarrow> string option" where
  "print_p2p len data = p2p_loop True len data"

definition print_hs20_ind :: "nat \<Rightarrow> bytes \<Rightarrow> string option" where
  "print_hs20_ind len data =
     (if 0 < len then do { b \<leftarrow> rd data 0; Some ([nl] @ tabs @ ''DGAF: '' @ dec (b mod 2) @ [nl]) }
      else Some ([nl] @ tabs @ ''Unexpected length: '' @ dec len @ [nl]))"

definition wfa_printers :: "(nat \<times> ie_print) list" where
  "wfa_printers =
     [(9, ie_entry ''P2P'' print_p2p 2 255 [PRINT_SCAN]),
      (16, ie_entry ''HotSpot 2.0 Indication'' print_hs20_ind 1 255 [PRINT_SCAN])]"

subsection \<open>The walk\<close>

definition find_printer :: "(nat \<times> ie_print) list \<Rightarrow> print_ie_type \<Rightarrow> nat \<Rightarrow> ie_print option" where
  "find_printer table ptype t =
     (case map_of table t of None \<Rightarrow> None | Some p \<Rightarrow> if ptype \<in> set (ie_flags p) then Some p else None)"

definition print_oui :: "(nat \<times> ie_print) list \<Rightarrow> string \<Rightarrow> nat \<Rightarrow> bytes \<Rightarrow> bool \<Rightarrow> print_ie_type \<Rightarrow> string option" where
  "print_oui table name len data unknown ptype =
     do { t \<leftarrow> rd data 3;
          case find_printer table ptype t of
            Some p \<Rightarrow> print_ie p (len - 4) (drop 4 data)
          | None \<Rightarrow>
              if \<not> unknown then Some ''''
              else do { d \<leftarrow> rd_n (drop 4 data) (len - 4);
                        Some ([tab] @ name @ '' '' @ alt_x 2 t @ '', data:'' @ hex_bytes d @ [nl]) } }"

definition print_vendor :: "nat \<Rightarrow> bytes \<Rightarrow> bool \<Rightarrow> print_ie_type \<Rightarrow> string option" where
  "print_vendor len data unknown ptype =
     (if len < 3 then
        do { d \<leftarrow> rd_n data len; Some ([tab] @ ''Vendor specific: <too short> data:'' @ hex_bytes d @ [nl]) }
      else do { oui \<leftarrow> rd_n data 3;
        if 4 \<le> len \<and> oui = ms_oui then print_oui wifiprinters ''MS/WiFi'' len data unknown ptype
        else if 4 \<le> len \<and> oui = wfa_oui then print_oui wfa_printers ''WFA'' len data unknown ptype
        else if \<not> unknown then Some ''''
        else do { d \<leftarrow> rd_n (drop 3 data) (len - 3);
                  Some ([tab] @ ''Vendor specific: OUI '' @ hex_byte (oui ! 0) @ '':'' @ hex_byte (oui ! 1) @ '':'' @
                        hex_byte (oui ! 2) @ '', data:'' @ hex_bytes d @ [nl]) } })"

text \<open>One element: its type, its length, and where its contents begin.\<close>

definition print_element :: "bool \<Rightarrow> print_ie_type \<Rightarrow> nat \<Rightarrow> nat \<Rightarrow> bytes \<Rightarrow> string option" where
  "print_element unknown ptype t len data =
     (case find_printer ieprinters ptype t of
        Some p \<Rightarrow> print_ie p len data
      | None \<Rightarrow>
          if t = 221 then print_vendor len data unknown ptype
          else if unknown then
            do { d \<leftarrow> rd_n data len; Some ([tab] @ ''Unknown IE ('' @ dec t @ ''):'' @ hex_bytes d @ [nl]) }
          else Some '''')"

function print_ies :: "bytes \<Rightarrow> int \<Rightarrow> bool \<Rightarrow> print_ie_type \<Rightarrow> string option" where
  "print_ies ie ielen unknown ptype =
     (if ielen < 2 then Some ''''
      else do { len \<leftarrow> rd ie 1;
        if ielen < int len then Some ''''
        else do { t \<leftarrow> rd ie 0; s \<leftarrow> print_element unknown ptype t len (drop 2 ie);
                  r \<leftarrow> print_ies (drop (len + 2) ie) (ielen - (int len + 2)) unknown ptype;
                  Some (s @ r) } })"
  by pat_completeness auto
termination
  by (relation "measure (\<lambda>(ie, ielen, unknown, ptype). nat ielen)") auto

declare print_ies.simps [simp del]

subsection \<open>The lengths of the tables are enough\<close>

text \<open>
  The contract of an entry of a table: with a length that the entry accepts, the printer reads no
  more than that many bytes.
\<close>

definition entry_ok :: "ie_print \<Rightarrow> bool" where
  "entry_ok p \<longleftrightarrow> (\<forall>len. ie_minlen p \<le> len \<longrightarrow> len \<le> ie_maxlen p \<longrightarrow> len \<le> 255 \<longrightarrow> reads len (ie_printer p len))"

lemma entry_okI:
  "(\<And>len. minlen \<le> len \<Longrightarrow> len \<le> maxlen \<Longrightarrow> len \<le> 255 \<Longrightarrow> reads len (pr len)) \<Longrightarrow>
     entry_ok (ie_entry name pr minlen maxlen flags)"
  by (simp add: entry_ok_def ie_entry_def)

lemma reads_print_ie: "entry_ok p \<Longrightarrow> len \<le> 255 \<Longrightarrow> reads len (print_ie p len)"
  unfolding print_ie_def [abs_def] by (intro reads_rules) (auto simp: entry_ok_def)

lemmas reads_basic = reads_ssid reads_supprates reads_capabilities reads_one reads_fixed reads_ht_vht
  reads_country reads_advert reads_interworking reads_rcon

lemma reads_rsn: "2 \<le> len \<Longrightarrow> len \<le> 255 \<Longrightarrow> reads len (print_rsn len)"
  and reads_wpa: "2 \<le> len \<Longrightarrow> len \<le> 255 \<Longrightarrow> reads len (print_wifi_wpa len)"
  unfolding print_rsn_def [abs_def] print_wifi_wpa_def [abs_def] by (auto intro: reads_rsn_ie)

lemma ieprinters_ok: "(t, p) \<in> set ieprinters \<Longrightarrow> t \<noteq> 111 \<Longrightarrow> entry_ok p"
  unfolding ieprinters_def
  by (auto intro!: entry_okI reads_basic reads_rsn)

lemma reads_wmm: "1 \<le> len \<Longrightarrow> len \<le> 255 \<Longrightarrow> reads len (print_wifi_wmm len)"
proof -
  assume len: "1 \<le> len" "len \<le> 255"
  have "reads (len - 1) (\<lambda>d. print_wifi_wmm_param d (len - 1))"
    unfolding print_wifi_wmm_param_def by (intro reads_rules) auto
  then have "reads len (\<lambda>d. print_wifi_wmm_param (drop 1 d) (sub8 len 1))"
    using len by (auto simp: sub8_le intro: reads_drop)
  then show ?thesis using len unfolding print_wifi_wmm_def [abs_def]
    by (auto intro!: reads_rules)
qed

lemma reads_hs20: "reads len (print_hs20_ind len)"
  unfolding print_hs20_ind_def [abs_def] by (intro reads_rules) auto

text \<open>
  The elements whose printers keep to their element: not the roaming consortium element with
  less than two bytes, and not the nested attributes of WPS and P2P.
\<close>

definition nested :: "bytes \<Rightarrow> bool" where
  "nested d \<longleftrightarrow> 4 \<le> length d \<and>
     (take 3 d = ms_oui \<and> d ! 3 = 4 \<or> take 3 d = wfa_oui \<and> d ! 3 = 9)"

definition plain :: "nat \<times> bytes \<Rightarrow> bool" where
  "plain = (\<lambda>(t, d). length d \<le> 255 \<and> t < 256 \<and>
     (if t = 111 then 2 \<le> length d else if t = 221 then \<not> nested d else True))"

lemma find_printer_in: "find_printer table ptype t = Some p \<Longrightarrow> (t, p) \<in> set table"
  by (auto simp: find_printer_def dest: map_of_SomeD split: option.splits if_splits)

lemma reads_same:
  assumes "reads (length d) f"
  shows "\<exists>x. f (d @ r) = Some x \<and> f d = Some x"
  using readsE [OF assms, of "d @ r"] by auto

lemma print_oui_plain:
  assumes "4 \<le> length d" "length d \<le> 255" "\<And>p. (unat (d ! 3), p) \<in> set table \<Longrightarrow> entry_ok p"
  shows "\<exists>x. print_oui table name (length d) (d @ r) unknown ptype = Some x \<and>
     print_oui table name (length d) d unknown ptype = Some x"
proof -
  have rd: "rd (d @ r) 3 = Some (unat (d ! 3))" "rd d 3 = Some (unat (d ! 3))"
    using assms(1) by (simp_all add: rd_def nth_append)
  let ?f = "\<lambda>d'. case find_printer table ptype (unat (d ! 3)) of
      Some p \<Rightarrow> print_ie p (length d - 4) (drop 4 d')
    | None \<Rightarrow> if \<not> unknown then Some ''''
        else do { x \<leftarrow> rd_n (drop 4 d') (length d - 4);
          Some ([tab] @ name @ '' '' @ alt_x 2 (unat (d ! 3)) @ '', data:'' @ hex_bytes x @ [nl]) }"
  have "reads (length d) ?f"
    using assms
    by (cases "find_printer table ptype (unat (d ! 3))")
      (auto intro!: reads_rules reads_drop reads_print_ie dest: find_printer_in)
  from reads_same [OF this, of r] show ?thesis by (simp add: print_oui_def rd)
qed

lemma print_vendor_plain:
  assumes "length d \<le> 255" "\<not> nested d"
  shows "\<exists>x. print_vendor (length d) (d @ r) unknown ptype = Some x \<and>
     print_vendor (length d) d unknown ptype = Some x"
proof -
  have four: "unat w = 4 \<Longrightarrow> w = 4" and nine: "unat w = 9 \<Longrightarrow> w = 9" for w :: "8 word"
    by (simp_all add: word_unat_eq_iff)
  have wifi: "entry_ok p" if "4 \<le> length d" "take 3 d = ms_oui" "(unat (d ! 3), p) \<in> set wifiprinters" for p
  proof -
    have "unat (d ! 3) \<noteq> 4" using that(1,2) assms(2) four [of "d ! 3"] by (auto simp: nested_def)
    then show ?thesis using that(3) by (auto simp: wifiprinters_def intro!: entry_okI reads_wpa reads_wmm)
  qed
  have wfa: "entry_ok p" if "4 \<le> length d" "take 3 d = wfa_oui" "(unat (d ! 3), p) \<in> set wfa_printers" for p
  proof -
    have "unat (d ! 3) \<noteq> 9" using that(1,2) assms(2) nine [of "d ! 3"] by (auto simp: nested_def)
    then show ?thesis using that(3) by (auto simp: wfa_printers_def intro!: entry_okI reads_hs20)
  qed
  have t3: "take 3 (d @ r) = take 3 d" if "\<not> length d < 3" using that by simp
  have "\<exists>x. print_oui wifiprinters ''MS/WiFi'' (length d) (d @ r) unknown ptype = Some x \<and>
      print_oui wifiprinters ''MS/WiFi'' (length d) d unknown ptype = Some x"
    if "4 \<le> length d" "take 3 d = ms_oui" using print_oui_plain [OF that(1) assms(1) wifi [OF that]] by blast
  moreover have "\<exists>x. print_oui wfa_printers ''WFA'' (length d) (d @ r) unknown ptype = Some x \<and>
      print_oui wfa_printers ''WFA'' (length d) d unknown ptype = Some x"
    if "4 \<le> length d" "take 3 d = wfa_oui" using print_oui_plain [OF that(1) assms(1) wfa [OF that]] by blast
  ultimately show ?thesis by (auto simp: print_vendor_def rd_n_def t3)
qed

lemma print_element_plain:
  assumes "plain (t, d)"
  shows "\<exists>x. print_element unknown ptype t (length d) (d @ r) = Some x \<and>
     print_element unknown ptype t (length d) d = Some x"
proof (cases "find_printer ieprinters ptype t")
  case None
  then show ?thesis using assms print_vendor_plain [of d r unknown ptype]
    by (auto simp: print_element_def plain_def rd_n_def)
next
  case (Some p)
  have "reads (length d) (print_ie p (length d))"
  proof (cases "t = 111")
    case True
    then have "p = ie_entry ''802.11u Roaming Consortium'' print_11u_rcon 0 255 [PRINT_SCAN]"
      using Some by (auto simp: find_printer_def ieprinters_def split: if_splits)
    then show ?thesis using assms True unfolding print_ie_def [abs_def]
      by (intro reads_rules) (auto simp: plain_def ie_entry_def intro: reads_rcon)
  next
    case False
    then show ?thesis using assms ieprinters_ok [OF find_printer_in [OF Some]]
      by (intro reads_print_ie) (auto simp: plain_def)
  qed
  from reads_same [OF this, of r] show ?thesis using Some by (simp add: print_element_def)
qed

subsection \<open>The walk\<close>

text \<open>The bytes of a list of elements, and the text of an element alone.\<close>

definition ies_bytes :: "(nat \<times> bytes) list \<Rightarrow> bytes" where
  "ies_bytes es = concat (map (\<lambda>(t, d). word_of_nat t # word_of_nat (length d) # d) es)"

definition element_text :: "bool \<Rightarrow> print_ie_type \<Rightarrow> nat \<times> bytes \<Rightarrow> string" where
  "element_text unknown ptype = (\<lambda>(t, d).
     case print_element unknown ptype t (length d) d of Some s \<Rightarrow> s | None \<Rightarrow> '''')"

text \<open>
  C24.  A well-formed list of elements is printed as the texts of its elements one after the other,
  each printed from its own bytes alone, and nothing behind the list is read.  Excepted are the
  vendor elements of WPS and P2P with nested attributes, which can be read past the buffer even when
  they are complete, and a roaming consortium without the two bytes its printer takes for granted.
\<close>

theorem print_ies_elements:
  assumes "list_all plain es"
  shows "print_ies (ies_bytes es) (int (length (ies_bytes es))) unknown ptype =
     Some (concat (map (element_text unknown ptype) es))"
  using assms
proof (induction es)
  case Nil
  then show ?case by (simp add: ies_bytes_def print_ies.simps)
next
  case (Cons e es)
  obtain t d where e: "e = (t, d)" by (cases e)
  with Cons.prems have ok: "plain (t, d)" "length d < 256" "t < 256" by (auto simp: plain_def)
  obtain x where x: "print_element unknown ptype t (length d) (d @ ies_bytes es) = Some x"
      "print_element unknown ptype t (length d) d = Some x"
    using print_element_plain [OF ok(1)] by blast
  have bytes: "ies_bytes (e # es) = word_of_nat t # word_of_nat (length d) # d @ ies_bytes es"
    by (simp add: ies_bytes_def e)
  have "rd (ies_bytes (e # es)) 1 = Some (length d)" "rd (ies_bytes (e # es)) 0 = Some t"
    using ok by (simp_all add: rd_def bytes unat_of_nat)
  moreover have "print_ies (ies_bytes es) (int (length (ies_bytes es))) unknown ptype =
      Some (concat (map (element_text unknown ptype) es))" using Cons by simp
  ultimately show ?case
    using x unfolding bytes by (subst print_ies.simps) (simp add: e element_text_def)
qed

theorem print_ies_elements_witness:
  "print_ies (ies_bytes [(0, [0x68, 0x69]), (3, [6]), (221, [0, 0x50, 0xf2, 1, 1, 0])]) 15 False PRINT_SCAN =
     Some (concat (map (element_text False PRINT_SCAN) [(0, [0x68, 0x69]), (3, [6]), (221, [0, 0x50, 0xf2, 1, 1, 0])]))"
proof -
  have p: "list_all plain [(0, [0x68, 0x69]), (3, [6]), (221, [0, 0x50, 0xf2, 1, 1, 0])]" by code_simp
  have "int (length (ies_bytes [(0, [0x68, 0x69]), (3, [6]), (221, [0, 0x50, 0xf2, 1, 1, 0])])) = 15" by code_simp
  then show ?thesis using print_ies_elements [OF p, of False PRINT_SCAN] by simp
qed

text \<open>
  A last element whose length is beyond the end of the message is skipped only when more than
  two bytes are missing: the test forgets the two bytes of the header, and with one or two missing
  bytes the printing of an unknown element reads behind the message.
\<close>

theorem print_ies_truncated:
  assumes "find_printer ieprinters ptype (unat t) = None" and "unat t \<noteq> 221" and "length d < unat n"
  shows "print_ies (t # n # d) (int (length d + 2)) True ptype =
     (if unat n \<le> length d + 2 then None else Some '''')"
proof -
  have "rd (t # n # d) 1 = Some (unat n)" "rd (t # n # d) 0 = Some (unat t)" by (simp_all add: rd_def)
  moreover have "uint n = int (unat n)" by simp
  then have "uint n \<le> 2 + int (length d) \<longleftrightarrow> unat n \<le> length d + 2" by linarith
  ultimately show ?thesis using assms
    by (subst print_ies.simps) (simp add: print_element_def rd_n_def not_le [symmetric])
qed

theorem print_ies_truncated_witness:
  "print_ies [200, 3, 1, 2] 4 True PRINT_SCAN = None \<and> print_ies [200, 5, 1, 2] 4 True PRINT_SCAN = Some ''''"
proof -
  have "find_printer ieprinters PRINT_SCAN (unat (200 :: 8 word)) = None" "unat (200 :: 8 word) \<noteq> 221" by code_simp+
  from print_ies_truncated [OF this, of "[1, 2]"] show ?thesis by simp
qed

subsection \<open>WPS\<close>

definition wps_min :: "nat \<Rightarrow> nat" where
  "wps_min subtype =
     (if subtype \<in> {0x104a, 0x103b, 0x103c, 0x1041, 0x1044, 0x1057} then 1
      else if subtype \<in> {0x1008, 0x1053} then 2 else 0)"

lemma reads_wps_attr: "wps_min subtype \<le> sublen \<Longrightarrow> reads sublen (wps_attr subtype sublen)"
  unfolding wps_attr_def [abs_def] Let_def
  by (intro reads_rules) (auto simp: wps_min_def split: if_splits)

definition wps_bytes :: "(nat \<times> bytes) list \<Rightarrow> bytes" where
  "wps_bytes as = concat (map (\<lambda>(t, v).
     [word_of_nat (t div 256), word_of_nat (t mod 256), word_of_nat (length v div 256), word_of_nat (length v mod 256)] @ v) as)"

definition wps_ok :: "nat \<times> bytes \<Rightarrow> bool" where
  "wps_ok = (\<lambda>(t, v). t < 65536 \<and> wps_min t \<le> length v)"

fun wps_text :: "bool \<Rightarrow> (nat \<times> bytes) list \<Rightarrow> string" where
  "wps_text first [] = ''''"
| "wps_text first ((t, v) # as) =
     star first (case wps_attr t (length v) v of Some s \<Rightarrow> s | None \<Rightarrow> '''') @ wps_text False as"

lemma unat_byte: "n < 256 \<Longrightarrow> unat (word_of_nat n :: 8 word) = n"
  by (simp add: unat_of_nat)

lemma wps_loop_ok:
  "list_all wps_ok as \<Longrightarrow> length (wps_bytes as) \<le> 255 \<Longrightarrow>
     wps_loop first (length (wps_bytes as)) (wps_bytes as @ r) = Some (wps_text first as)"
proof (induction as arbitrary: first)
  case Nil
  then show ?case by (simp add: wps_bytes_def wps_loop.simps rsn_invalid_def)
next
  case (Cons a as)
  obtain t v where a: "a = (t, v)" by (cases a)
  let ?rest = "wps_bytes as @ r"
  let ?all = "word_of_nat (t div 256) # word_of_nat (t mod 256) # word_of_nat (length v div 256) #
     word_of_nat (length v mod 256) # v @ ?rest :: bytes"
  have bytes: "wps_bytes (a # as) @ r = ?all" and len: "length (wps_bytes (a # as)) = 4 + length v + length (wps_bytes as)"
    by (simp_all add: wps_bytes_def a)
  have v: "length v \<le> 251" "t < 65536" "wps_min t \<le> length v"
    using Cons.prems len by (simp_all add: wps_ok_def a)
  have rd: "rd_be16 ?all 0 = Some t" "rd_be16 ?all 2 = Some (length v)"
    using v by (simp_all add: rd_be16_def rd_def unat_byte numeral_2_eq_2 numeral_3_eq_3)
  obtain s where s: "wps_attr t (length v) (v @ ?rest) = Some s" "wps_attr t (length v) v = Some s"
    using reads_same [OF reads_wps_attr [OF v(3)]] by blast
  have "wps_loop False (length (wps_bytes as)) ?rest = Some (wps_text False as)" using Cons len by simp
  moreover have "sub8 (4 + length v + length (wps_bytes as)) (length v + 4) = length (wps_bytes as)"
    using Cons.prems(2) len by (simp add: sub8_le)
  moreover have "drop (length v + 4) ?all = drop (length v) (drop 4 ?all)" by (simp only: drop_drop)
  then have "drop (length v + 4) ?all = ?rest" by simp
  ultimately show ?case
    using s rd unfolding bytes len by (subst wps_loop.simps) (simp add: a add.commute)
qed

text \<open>
  A WPS element made of whole attributes, those with a value being long enough for it, is
  printed attribute by attribute, and read no further than its end.
\<close>

theorem print_wps_attributes:
  assumes "list_all wps_ok as" and "length (wps_bytes as) \<le> 255"
  shows "print_wifi_wps (length (wps_bytes as)) (wps_bytes as @ r) = Some (wps_text True as)"
  using wps_loop_ok [OF assms] by (simp add: print_wifi_wps_def)

theorem print_wps_attributes_witness:
  "print_wifi_wps 12 (wps_bytes [(0x104a, [0x10]), (0x1011, [0x61, 0x70, 0x31])] @ [7]) =
     Some (wps_text True [(0x104a, [0x10]), (0x1011, [0x61, 0x70, 0x31])])"
proof -
  let ?as = "[(0x104a, [0x10]), (0x1011, [0x61, 0x70, 0x31])] :: (nat \<times> bytes) list"
  have ok: "list_all wps_ok ?as" by (simp add: wps_ok_def wps_min_def)
  have n: "length (wps_bytes ?as) = 12" by (simp add: wps_bytes_def)
  then have "length (wps_bytes ?as) \<le> 255" by simp
  from print_wps_attributes [OF ok this, of "[7]"] show ?thesis by (simp add: n)
qed

text \<open>
  An attribute that is longer than what is left of the WPS element by less than its header of
  four bytes passes the test of the loop; the length left then wraps around below zero, and at the
  end of a message the printing runs off the message, whatever the attribute is.
\<close>

theorem print_wps_wraps:
  assumes "length data = len" and "4 \<le> len" and "len \<le> 255"
    and "rd_be16 data 2 = Some sublen" and "sublen \<le> len" and "len < sublen + 4"
  shows "print_wifi_wps len data = None"
proof -
  have "int len - int sublen + 252 = (int len - int (sublen + 4)) + 256" by simp
  then have "(int len - int (sublen + 4)) mod 256 = (int len - int sublen + 252) mod 256"
    by (simp only: mod_add_self2)
  also have "\<dots> = int len - int sublen + 252" using assms by (intro mod_pos_pos_trivial) auto
  finally have "(int len - int (sublen + 4)) mod 256 = int len - int sublen + 252" .
  then have "4 \<le> sub8 len (sublen + 4)" using assms by (simp add: sub8_def)
  then have "wps_loop False (sub8 len (sublen + 4)) (drop (sublen + 4) data) = None"
    using assms by (subst wps_loop.simps) simp
  then show ?thesis
    using assms unfolding print_wifi_wps_def by (subst wps_loop.simps) (auto split: bind_splits)
qed

theorem print_wps_wraps_witness: "print_wifi_wps 5 [0x10, 0x11, 0, 2, 0] = None"
proof -
  have "rd_be16 [0x10, 0x11, 0, 2, 0] 2 = Some 2" by code_simp
  from print_wps_wraps [OF _ _ _ this, of 5] show ?thesis by simp
qed

subsection \<open>P2P\<close>

text \<open>
  The bytes of a P2P attribute that is not decoded are printed from one byte too far: the first
  byte of the attribute is left out and the byte behind it is printed instead; when the message ends
  with the attribute, that byte is behind the message.
\<close>

theorem print_p2p_shifted:
  assumes "d \<noteq> []" and "length d \<le> 252" and "t \<noteq> 0x02" and "t \<noteq> 0x0d"
  shows "print_p2p (length d + 3) (t # word_of_nat (length d) # 0 # d @ r) =
     (case r of [] \<Rightarrow> None
      | x # _ \<Rightarrow> Some (star True (''Unknown TLV ('' @ alt_x 2 (unat t) @ '', '' @ dec (length d) @ '' bytes):'' @
          hex_bytes (tl d @ [x]) @ [nl])))"
proof -
  let ?data = "t # word_of_nat (length d) # 0 # d @ r"
  have rd: "rd ?data 0 = Some (unat t)" "rd_le16 ?data 1 = Some (length d)"
    using assms(2) by (simp_all add: rd_def rd_le16_def unat_byte)
  have t: "unat t \<noteq> 2" "unat t \<noteq> 13" using assms(3,4) by (auto simp: word_unat_eq_iff)
  obtain b d' where d: "d = b # d'" using assms(1) by (cases d) auto
  have "drop 4 ?data = d' @ r" by (simp add: d)
  then have "p2p_attr True (unat t) (length d) ?data =
     (case r of [] \<Rightarrow> None
      | x # _ \<Rightarrow> Some (True, star True (''Unknown TLV ('' @ alt_x 2 (unat t) @ '', '' @ dec (length d) @ '' bytes):'' @
          hex_bytes (tl d @ [x]) @ [nl])))"
    using t by (simp add: p2p_attr_def rd_n_def d split: list.splits)
  moreover have "p2p_loop first 0 x = Some ''''" for first x
    by (simp add: p2p_loop.simps [of first 0] bogus_tail_def)
  ultimately show ?thesis
    using rd unfolding print_p2p_def by (subst p2p_loop.simps) (simp split: list.splits)
qed

theorem print_p2p_shifted_witness:
  "print_p2p 5 [0x03, 2, 0, 0xaa, 0xbb] = None \<and>
   print_p2p 5 [0x03, 2, 0, 0xaa, 0xbb, 0xcc] =
     Some (star True (''Unknown TLV (0x03, 2 bytes): bb cc'' @ [nl]))"
proof -
  have "alt_x 2 3 = ''0x03''" "dec (Suc (Suc 0)) = ''2''" "hex_bytes [0xbb, 0xcc] = '' bb cc''" by code_simp+
  then show ?thesis
    using print_p2p_shifted [of "[0xaa, 0xbb]" "0x03" "[]"] print_p2p_shifted [of "[0xaa, 0xbb]" "0x03" "[0xcc]"]
    by simp
qed

subsection \<open>RSN\<close>

definition le16_bytes :: "nat \<Rightarrow> bytes" where
  "le16_bytes n = [word_of_nat (n mod 256), word_of_nat (n div 256)]"

definition rsn_bytes :: "nat \<Rightarrow> bytes \<Rightarrow> bytes list \<Rightarrow> bytes list \<Rightarrow> bytes" where
  "rsn_bytes version g ps as =
     le16_bytes version @ g @ le16_bytes (length ps) @ concat ps @ le16_bytes (length as) @ concat as"

lemma rd_le16_bytes: "n < 65536 \<Longrightarrow> rd_le16 (le16_bytes n @ r) 0 = Some n"
  by (simp add: rd_le16_def rd_def le16_bytes_def unat_byte)

lemma print_suites_list:
  assumes "\<forall>p \<in> set ps. length p = 4" "\<And>p r. length p = 4 \<Longrightarrow> suite (p @ r) = Some (txt p)"
  shows "print_suites suite (length ps) (concat ps @ r) = Some (concat (map (\<lambda>p. '' '' @ txt p) ps))"
  using assms(1)
proof (induction ps)
  case (Cons p ps)
  then show ?case using assms(2) [of p "concat ps @ r"] by simp
qed simp

lemma length_concat_suites: "\<forall>p \<in> set ps. length p = 4 \<Longrightarrow> length (concat ps) = length ps * 4"
  by (induction ps) auto

lemma suite_cipher: "length p = 4 \<Longrightarrow> print_cipher (p @ r) = Some (cipher_text p)"
  and suite_auth: "length p = 4 \<Longrightarrow> print_auth (p @ r) = Some (auth_text p)"
  by (simp_all add: print_cipher_def print_auth_def rd_n_def)

text \<open>
  An RSN element is printed as what it says: its version, its group cipher, its pairwise ciphers
  and its authentication suites, each by its name, in order.
\<close>

theorem print_rsn_suites:
  assumes "version < 65536" and "length g = 4"
    and "\<forall>p \<in> set ps. length p = 4" and "\<forall>a \<in> set as. length a = 4"
    and "length (rsn_bytes version g ps as) \<le> 255"
  shows "print_rsn (length (rsn_bytes version g ps as)) (rsn_bytes version g ps as) =
     Some (star True (''Version: '' @ dec version @ [nl]) @
       star False ''Group cipher: '' @ cipher_text g @ [nl] @
       star False ''Pairwise ciphers:'' @ concat (map (\<lambda>p. '' '' @ cipher_text p) ps) @ [nl] @
       star False ''Authentication suites:'' @ concat (map (\<lambda>a. '' '' @ auth_text a) as) @ [nl])"
proof -
  let ?as = "le16_bytes (length as) @ concat as" let ?ps = "le16_bytes (length ps) @ concat ps @ ?as"
  have len: "length (rsn_bytes version g ps as) = 10 + length ps * 4 + length as * 4"
    using assms length_concat_suites [of ps] length_concat_suites [of as] by (simp add: rsn_bytes_def le16_bytes_def)
  then have n: "length ps < 65536" "length as < 65536" using assms(5) by simp_all
  have asuites: "print_suites print_auth (length as) (concat as) = Some (concat (map (\<lambda>a. '' '' @ auth_text a) as))"
    using print_suites_list [OF assms(4), of print_auth auth_text "[]"] suite_auth by simp
  have psuites: "print_suites print_cipher (length ps) (concat ps @ ?as) =
      Some (concat (map (\<lambda>p. '' '' @ cipher_text p) ps))"
    using print_suites_list [OF assms(3), of print_cipher cipher_text ?as] suite_cipher by simp
  have "rsn_capa 0 x = Some ''''" for x
    by (simp add: rsn_capa_def rsn_pmkid_def rsn_mgmt_def rsn_invalid_def)
  then have auth: "rsn_auth ''IEEE 802.1X'' (2 + length as * 4) ?as =
      Some (star False ''Authentication suites:'' @ concat (map (\<lambda>a. '' '' @ auth_text a) as) @ [nl])"
    using n rd_le16_bytes [of "length as" "concat as"] asuites
    by (simp add: rsn_auth_def) (simp add: le16_bytes_def)
  have "drop (2 + length ps * 4) ?ps = ?as" using length_concat_suites [OF assms(3)] by (simp add: le16_bytes_def)
  then have pair: "rsn_pairwise ''CCMP'' ''IEEE 802.1X'' (4 + length ps * 4 + length as * 4) ?ps =
      Some (star False ''Pairwise ciphers:'' @ concat (map (\<lambda>p. '' '' @ cipher_text p) ps) @ [nl] @
        star False ''Authentication suites:'' @ concat (map (\<lambda>a. '' '' @ auth_text a) as) @ [nl])"
    using n rd_le16_bytes [of "length ps" "concat ps @ ?as"] psuites auth
    by (simp add: rsn_pairwise_def) (simp add: le16_bytes_def)
  have "drop 2 (rsn_bytes version g ps as) = g @ ?ps" by (simp add: rsn_bytes_def le16_bytes_def)
  moreover have "sub8 (10 + length ps * 4 + length as * 4) 2 = 8 + length ps * 4 + length as * 4"
    using assms(5) len by (simp add: sub8_le)
  moreover have "rd_le16 (rsn_bytes version g ps as) 0 = Some version"
    using assms(1) by (simp add: rsn_bytes_def rd_le16_bytes)
  ultimately show ?thesis
    using pair assms(2) by (simp add: print_rsn_def print_rsn_ie_def len suite_cipher add.assoc)
qed

theorem print_rsn_suites_witness:
  "print_rsn 18 (rsn_bytes 1 [0, 0x0f, 0xac, 4] [[0, 0x0f, 0xac, 4]] [[0, 0x0f, 0xac, 2]]) =
     Some (star True (''Version: 1'' @ [nl]) @ star False (''Group cipher: CCMP'' @ [nl]) @
       star False (''Pairwise ciphers: CCMP'' @ [nl]) @ star False (''Authentication suites: PSK'' @ [nl]))"
proof -
  let ?c = "[0, 0x0f, 0xac, 4] :: bytes" let ?a = "[0, 0x0f, 0xac, 2] :: bytes"
  have "cipher_text ?c = ''CCMP''" "auth_text ?a = ''PSK''" "dec 1 = ''1''" by code_simp+
  moreover have "length (rsn_bytes 1 ?c [?c] [?a]) = 18" by (simp add: rsn_bytes_def le16_bytes_def)
  ultimately show ?thesis using print_rsn_suites [of 1 ?c "[?c]" "[?a]"] by (simp add: star_def)
qed

end
