(* ===== verification/Iw_Cmd.thy ===== *)
theory Iw_Cmd
  imports Iw_Text
begin

unbundle bit_operations_syntax

text \<open>
  The core of \<open>iw\<close> (\<open>wifi_tools/iw/iw.c\<close>, \<open>iw.h\<close> and the group lookup of \<open>genl.c\<close>): the table of commands, the choice of a
  command by the words on the command line, the message it builds, the exchange with the kernel, and
  \<open>main\<close> with its usage texts.  \<open>libnl\<close>, the kernel and the file system are the record \<open>E\<close> of calls
  over the state of the outside world.  A message on its way to the kernel is the list of what was put
  into it; a received one is a tree of attributes.  A pointer to an entry of the table is the symbol
  of the entry.
\<close>

subsection \<open>The outside\<close>

datatype nlattr =
    At_flag nat | At_u8 nat "8 word" | At_u16 nat "16 word" | At_u32 nat "32 word" | At_u64 nat "64 word"
  | At_bytes nat "8 word list" | At_nest nat "nlattr list"

record rx_msg =
  rx_cmd :: nat
  rx_attrs :: "nlattr list"

text \<open>What \<open>nl_recvmsgs\<close> calls back for: a message with data, the end of a dump, an acknowledgement, an error.\<close>

datatype nl_event = Valid rx_msg | Finish | Ack | Error int

record tx_msg =
  tx_family :: int
  tx_cmd :: nat
  tx_flags :: nat
  tx_attrs :: nl_msg

record 'w netlink =
  n_sock :: "'w \<Rightarrow> bool \<times> 'w"
  n_connect :: "'w \<Rightarrow> bool \<times> 'w"
  n_resolve :: "string \<Rightarrow> 'w \<Rightarrow> int \<times> 'w"
  n_ifindex :: "string \<Rightarrow> 'w \<Rightarrow> nat \<times> 'w"
  n_ifname :: "nat \<Rightarrow> 'w \<Rightarrow> string option \<times> 'w"
  n_read :: "string \<Rightarrow> nat \<Rightarrow> 'w \<Rightarrow> string option \<times> 'w"
  n_file :: "string \<Rightarrow> 'w \<Rightarrow> string option \<times> 'w"
  n_errno :: "'w \<Rightarrow> int \<times> 'w"
  n_alloc :: "'w \<Rightarrow> bool \<times> 'w"
  n_cbs :: "'w \<Rightarrow> bool \<times> 'w"
  n_calloc :: "nat \<Rightarrow> 'w \<Rightarrow> bool \<times> 'w"
  n_join :: "int \<Rightarrow> 'w \<Rightarrow> int \<times> 'w"
  n_send :: "tx_msg \<Rightarrow> 'w \<Rightarrow> int \<times> 'w"
  n_recv :: "'w \<Rightarrow> nl_event list \<times> 'w"
  n_fits :: "nl_msg \<Rightarrow> bool"
  n_strerror :: "int \<Rightarrow> string"

type_synonym ('w, 'a) iw = "('w, string, 'a) prog"

definition ENOENT :: int where "ENOENT = 2"
definition ENOMEM :: int where "ENOMEM = 12"
definition ENOSPC :: int where "ENOSPC = 28"
definition ENOLINK :: int where "ENOLINK = 67"

text \<open>A line of output.\<close>

definition line :: "string \<Rightarrow> string" where
  "line s = s @ [nl]"

text \<open>A \<open>long long\<close> holding an \<open>unsigned long\<close>.\<close>

definition to_s64 :: "int \<Rightarrow> int" where
  "to_s64 x = (x + 2 ^ 63) mod 2 ^ 64 - 2 ^ 63"

text \<open>\<open>%d\<close> of an unsigned value of 32 bits.\<close>

definition fmt_du :: "nat \<Rightarrow> string" where
  "fmt_du v = fmt_d (to_int (int v))"

subsection \<open>Received attributes\<close>

fun nla_type :: "nlattr \<Rightarrow> nat" where
  "nla_type (At_flag n) = n" | "nla_type (At_u8 n _) = n" | "nla_type (At_u32 n _) = n"
| "nla_type (At_u16 n _) = n" | "nla_type (At_u64 n _) = n" | "nla_type (At_bytes n _) = n" | "nla_type (At_nest n _) = n"

text \<open>
  \<open>nla_parse\<close>: the entry of the table of pointers for a type is the last attribute of that type.  An
  attribute that is read as another kind than the kernel sends it as is undefined here, and so is the
  use of a null entry.
\<close>

definition nla_tb :: "nlattr list \<Rightarrow> nat \<Rightarrow> nlattr option" where
  "nla_tb as n = find (\<lambda>a. nla_type a = n) (rev as)"

definition nla_get_u32 :: "nlattr option \<Rightarrow> ('w, nat) iw" where
  "nla_get_u32 a = (case a of Some (At_u32 _ v) \<Rightarrow> ret (unat v) | _ \<Rightarrow> undef_p)"

definition nla_get_u8 :: "nlattr option \<Rightarrow> ('w, nat) iw" where
  "nla_get_u8 a = (case a of Some (At_u8 _ v) \<Rightarrow> ret (unat v) | _ \<Rightarrow> undef_p)"

definition nla_get_u16 :: "nlattr option \<Rightarrow> ('w, nat) iw" where
  "nla_get_u16 a = (case a of Some (At_u16 _ v) \<Rightarrow> ret (unat v) | _ \<Rightarrow> undef_p)"

definition nla_data :: "nlattr option \<Rightarrow> ('w, 8 word list) iw" where
  "nla_data a = (case a of Some (At_bytes _ bs) \<Rightarrow> ret bs | _ \<Rightarrow> undef_p)"

definition nla_nested :: "nlattr option \<Rightarrow> ('w, nlattr list) iw" where
  "nla_nested a = (case a of Some (At_nest _ as) \<Rightarrow> ret as | _ \<Rightarrow> undef_p)"

lemmas nla_gets = nla_get_u32_def nla_get_u16_def nla_get_u8_def nla_data_def nla_nested_def

subsection \<open>The exchange with the kernel\<close>

text \<open>
  One call of \<open>nl_recvmsgs\<close>: the callbacks of the messages of a datagram in order.  \<open>error_handler\<close> and
  \<open>ack_handler\<close> return \<open>NL_STOP\<close>, which drops the rest of the datagram; \<open>fin\<close> says whether
  \<open>finish_handler\<close> is installed.  The value carried is \<open>err\<close> and what the callback for valid messages keeps.
\<close>

fun run_events ::
  "bool \<Rightarrow> (rx_msg \<Rightarrow> 'a \<Rightarrow> ('w, 'a) iw) \<Rightarrow> nl_event list \<Rightarrow> int \<times> 'a \<Rightarrow> ('w, int \<times> 'a) iw" where
  "run_events fin cb [] x = ret x"
| "run_events fin cb (Valid m # es) (err, a) = bind_p (cb m a) (\<lambda>a. run_events fin cb es (err, a))"
| "run_events fin cb (Finish # es) (err, a) = run_events fin cb es (if fin then 0 else err, a)"
| "run_events fin cb (Ack # es) (err, a) = ret (0, a)"
| "run_events fin cb (Error e # es) (err, a) = ret (e, a)"

definition recv_loop ::
  "'w netlink \<Rightarrow> bool \<Rightarrow> (rx_msg \<Rightarrow> 'a \<Rightarrow> ('w, 'a) iw) \<Rightarrow> 'a \<Rightarrow> ('w, int \<times> 'a) iw" where
  "recv_loop E fin cb a =
     while_p (\<lambda>(err, a). err > 0)
       (\<lambda>x. bind_p (sys (n_recv E)) (\<lambda>es. run_events fin cb es x)) (1, a)"

subsection \<open>The group of a family\<close>

definition CTRL_CMD_GETFAMILY :: nat where "CTRL_CMD_GETFAMILY = 3"
definition CTRL_ATTR_FAMILY_NAME :: nat where "CTRL_ATTR_FAMILY_NAME = 2"
definition CTRL_ATTR_MCAST_GROUPS :: nat where "CTRL_ATTR_MCAST_GROUPS = 7"
definition CTRL_ATTR_MCAST_GRP_NAME :: nat where "CTRL_ATTR_MCAST_GRP_NAME = 1"
definition CTRL_ATTR_MCAST_GRP_ID :: nat where "CTRL_ATTR_MCAST_GRP_ID = 2"

text \<open>
  \<open>strncmp\<close> of the name in the attribute, \<open>len\<close> bytes with or without a NUL, with a string.
\<close>

definition name_matches :: "8 word list \<Rightarrow> string \<Rightarrow> bool" where
  "name_matches bs s =
     (let t = map (\<lambda>b. char_of (unat b)) bs in
      strncmp_eq (takeWhile (\<lambda>c. c \<noteq> NUL) t) s (length bs))"

fun find_group :: "string \<Rightarrow> nlattr list \<Rightarrow> int \<Rightarrow> ('w, int) iw" where
  "find_group grp [] gid = ret gid"
| "find_group grp (g # gs) gid =
     bind_p (nla_nested (Some g)) (\<lambda>tb.
       let name = nla_tb tb CTRL_ATTR_MCAST_GRP_NAME; ident = nla_tb tb CTRL_ATTR_MCAST_GRP_ID in
       if name = None \<or> ident = None then find_group grp gs gid
       else bind_p (nla_data name) (\<lambda>bs.
         if \<not> name_matches bs grp then find_group grp gs gid
         else bind_p (nla_get_u32 ident) (\<lambda>v. ret (to_int (int v)))))"

definition family_handler :: "string \<Rightarrow> rx_msg \<Rightarrow> int \<Rightarrow> ('w, int) iw" where
  "family_handler grp m gid =
     (case nla_tb (rx_attrs m) CTRL_ATTR_MCAST_GROUPS of
        None \<Rightarrow> ret gid
      | Some gs \<Rightarrow> bind_p (nla_nested (Some gs)) (\<lambda>gs. find_group grp gs gid))"

definition nl_get_multicast_id :: "'w netlink \<Rightarrow> string \<Rightarrow> string \<Rightarrow> ('w, int) iw" where
  "nl_get_multicast_id E family grp =
     bind_p (sys (n_alloc E)) (\<lambda>ok. if \<not> ok then ret (- ENOMEM) else
     bind_p (sys (n_cbs E)) (\<lambda>ok. if \<not> ok then ret (- ENOMEM) else
     bind_p (sys (n_resolve E ''nlctrl'')) (\<lambda>ctrlid.
     case nla_put (n_fits E) (Nla_bytes CTRL_ATTR_FAMILY_NAME (bytes_of family @ [0])) [] of
       None \<Rightarrow> ret (- ENOBUFS)
     | Some msg \<Rightarrow>
     bind_p (sys (n_send E \<lparr>tx_family = ctrlid, tx_cmd = CTRL_CMD_GETFAMILY, tx_flags = 0, tx_attrs = msg\<rparr>)) (\<lambda>r.
     if r < 0 then ret r else
     bind_p (recv_loop E False (family_handler grp) (- ENOENT)) (\<lambda>(r, gid).
     ret (if r = 0 then gid else r))))))"

subsection \<open>The table of commands\<close>

datatype command_identify_by = CIB_NONE | CIB_PHY | CIB_NETDEV | CIB_WDEV
datatype id_input = II_NONE | II_NETDEV | II_PHY_NAME | II_PHY_IDX | II_WDEV

text \<open>
  A handler gets \<open>handle_cmd\<close> (for the commands that run others), the message (\<open>None\<close> is the null pointer
  that a command without a message gets), the arguments and the kind of device.  It returns its
  result, the message as it leaves it and the callback for the messages it asks for.
\<close>

type_synonym 'w valid_cb = "rx_msg \<Rightarrow> unit \<Rightarrow> ('w, unit) iw"
type_synonym 'w dispatch = "id_input \<Rightarrow> string list \<Rightarrow> ('w, int) iw"
type_synonym 'w iw_handler =
  "'w dispatch \<Rightarrow> nl_msg option \<Rightarrow> string list \<Rightarrow> id_input \<Rightarrow> ('w, int \<times> nl_msg \<times> 'w valid_cb) iw"

definition no_cb :: "'w valid_cb" where
  "no_cb m u = ret ()"

record 'w cmd =
  c_sym :: string
  c_name :: string
  c_args :: "string option"
  c_help :: "string option"
  c_cmd :: nat
  c_flags :: nat
  c_hidden :: bool
  c_idby :: command_identify_by
  c_handler :: "'w iw_handler option"
  c_selector :: "(string list \<Rightarrow> string option) option"
  c_parent :: "string option"

text \<open>The macros that make an entry.\<close>

definition SECTION :: "string \<Rightarrow> 'w cmd" where
  "SECTION name = \<lparr>c_sym = ''__section_'' @ name, c_name = name, c_args = None, c_help = None, c_cmd = 0,
     c_flags = 0, c_hidden = True, c_idby = CIB_NONE, c_handler = None, c_selector = None, c_parent = None\<rparr>"

definition TOPLEVEL ::
  "string \<Rightarrow> string option \<Rightarrow> nat \<Rightarrow> nat \<Rightarrow> command_identify_by \<Rightarrow> 'w iw_handler option \<Rightarrow> string \<Rightarrow> 'w cmd" where
  "TOPLEVEL name args cmd flags idby handler help = \<lparr>c_sym = ''__section_'' @ name, c_name = name, c_args = args,
     c_help = Some help, c_cmd = cmd, c_flags = flags, c_hidden = False, c_idby = idby, c_handler = handler,
     c_selector = None, c_parent = None\<rparr>"

definition COMMAND ::
  "string \<Rightarrow> string \<Rightarrow> string \<Rightarrow> string option \<Rightarrow> nat \<Rightarrow> nat \<Rightarrow> command_identify_by \<Rightarrow> 'w iw_handler \<Rightarrow> string \<Rightarrow> 'w cmd" where
  "COMMAND sect symb name args cmd flags idby handler help = \<lparr>c_sym = ''__cmd_'' @ symb, c_name = name, c_args = args,
     c_help = Some help, c_cmd = cmd, c_flags = flags, c_hidden = False, c_idby = idby, c_handler = Some handler,
     c_selector = None, c_parent = Some (''__section_'' @ sect)\<rparr>"

definition HIDDEN ::
  "string \<Rightarrow> string \<Rightarrow> string \<Rightarrow> string option \<Rightarrow> nat \<Rightarrow> nat \<Rightarrow> command_identify_by \<Rightarrow> 'w iw_handler \<Rightarrow> 'w cmd" where
  "HIDDEN sect symb name args cmd flags idby handler = \<lparr>c_sym = ''__cmd_'' @ symb, c_name = name, c_args = args,
     c_help = None, c_cmd = cmd, c_flags = flags, c_hidden = True, c_idby = idby, c_handler = Some handler,
     c_selector = None, c_parent = Some (''__section_'' @ sect)\<rparr>"

definition entry :: "'w cmd list \<Rightarrow> string \<Rightarrow> 'w cmd option" where
  "entry tbl symb = find (\<lambda>c. c_sym c = symb) tbl"

subsection \<open>The choice of a command\<close>

definition idby_ok :: "command_identify_by \<Rightarrow> 'w cmd \<Rightarrow> bool" where
  "idby_ok command_idby c \<longleftrightarrow>
     c_idby c = command_idby \<or> (c_idby c = CIB_NETDEV \<and> command_idby = CIB_WDEV)"

definition find_section :: "'w cmd list \<Rightarrow> command_identify_by \<Rightarrow> string \<Rightarrow> 'w cmd option" where
  "find_section tbl command_idby sect =
     foldl (\<lambda>match c.
        if c_parent c \<noteq> None then match
        else if match \<noteq> None \<and> c_idby c \<noteq> command_idby then match
        else if c_name c = sect then Some c else match) None tbl"

definition find_command :: "'w cmd list \<Rightarrow> command_identify_by \<Rightarrow> 'w cmd \<Rightarrow> string list \<Rightarrow> 'w cmd option" where
  "find_command tbl command_idby sectcmd argv =
     (case argv of [] \<Rightarrow> None
      | command # r \<Rightarrow>
          find (\<lambda>c. c_handler c \<noteq> None \<and> c_parent c = Some (c_sym sectcmd) \<and> idby_ok command_idby c \<and>
                    c_name c = command \<and> (r = [] \<or> c_args c \<noteq> None)) tbl)"

text \<open>
  The command for the words behind the device, with the arguments that are left for it; \<open>None\<close> is the
  return value 1.
\<close>

definition pick_cmd :: "'w cmd list \<Rightarrow> command_identify_by \<Rightarrow> string \<Rightarrow> string list \<Rightarrow> ('w cmd \<times> string list) option" where
  "pick_cmd tbl command_idby sect argv =
     (case find_section tbl command_idby sect of
        None \<Rightarrow> None
      | Some sectcmd \<Rightarrow>
          (case find_command tbl command_idby sectcmd argv of
             Some c \<Rightarrow> Some (c, tl argv)
           | None \<Rightarrow>
               if (argv \<noteq> [] \<and> c_args sectcmd = None) \<or> \<not> idby_ok command_idby sectcmd \<or> c_handler sectcmd = None then None
               else Some (sectcmd, argv)))"

definition select_cmd :: "'w cmd list \<Rightarrow> command_identify_by \<Rightarrow> string \<Rightarrow> string list \<Rightarrow> ('w cmd \<times> string list) option" where
  "select_cmd tbl command_idby sect argv =
     (case pick_cmd tbl command_idby sect argv of
        None \<Rightarrow> None
      | Some (c, argv) \<Rightarrow>
          (case c_selector c of
             None \<Rightarrow> Some (c, argv)
           | Some sel \<Rightarrow> (case Option.bind (sel argv) (entry tbl) of None \<Rightarrow> None | Some c \<Rightarrow> Some (c, argv))))"

subsection \<open>Running a command\<close>

definition NL80211_ATTR_WIPHY :: nat where "NL80211_ATTR_WIPHY = 1"
definition NL80211_ATTR_IFINDEX :: nat where "NL80211_ATTR_IFINDEX = 3"
definition NL80211_ATTR_WDEV :: nat where "NL80211_ATTR_WDEV = 153"

definition phy_lookup :: "'w netlink \<Rightarrow> string \<Rightarrow> ('w, int) iw" where
  "phy_lookup E name =
     bind_p (sys (n_read E (take 199 (''/sys/class/ieee80211/'' @ name @ ''/index'')) 199)) (\<lambda>r.
       ret (case r of None \<Rightarrow> -1 | Some buf \<Rightarrow> atoi (takeWhile (\<lambda>c. c \<noteq> NUL) buf)))"

text \<open>The device: how the command must be identified, its index and the words behind it.\<close>

definition identify :: "'w netlink \<Rightarrow> id_input \<Rightarrow> string list \<Rightarrow> ('w, (command_identify_by \<times> int \<times> string list) option) iw" where
  "identify E idby argv =
     (case idby of
        II_NONE \<Rightarrow> ret (Some (CIB_NONE, 0, argv))
      | II_PHY_IDX \<Rightarrow>
          if length (hd argv) < 4 then undef_p
          else (case strtoul (drop 4 (hd argv)) 0 of (v, tmp) \<Rightarrow>
            ret (if tmp \<noteq> [] then None else Some (CIB_PHY, to_s64 v, tl argv)))
      | II_PHY_NAME \<Rightarrow> bind_p (phy_lookup E (hd argv)) (\<lambda>v. ret (Some (CIB_PHY, v, tl argv)))
      | II_NETDEV \<Rightarrow>
          bind_p (sys (n_ifindex E (hd argv))) (\<lambda>v.
          ret (Some (CIB_NETDEV, if v = 0 then -1 else int v, tl argv)))
      | II_WDEV \<Rightarrow>
          (case strtol (hd argv) 0 of (v, tmp) \<Rightarrow>
            ret (if tmp \<noteq> [] then None else Some (CIB_WDEV, v, tl argv))))"

definition dev_attr :: "command_identify_by \<Rightarrow> int \<Rightarrow> nla list" where
  "dev_attr command_idby devidx =
     (case command_idby of
        CIB_NONE \<Rightarrow> []
      | CIB_PHY \<Rightarrow> [Nla_u32 NL80211_ATTR_WIPHY (word_of_int devidx)]
      | CIB_NETDEV \<Rightarrow> [Nla_u32 NL80211_ATTR_IFINDEX (word_of_int devidx)]
      | CIB_WDEV \<Rightarrow> [Nla_u64 NL80211_ATTR_WDEV (word_of_int devidx)])"

definition run_cmd ::
  "'w dispatch \<Rightarrow> 'w netlink \<Rightarrow> int \<Rightarrow> 'w cmd \<Rightarrow> nla list \<Rightarrow> string list \<Rightarrow> string list \<Rightarrow> id_input \<Rightarrow> ('w, int) iw" where
  "run_cmd again E fam c dev argv o_argv idby =
     (case c_handler c of None \<Rightarrow> undef_p
      | Some handler \<Rightarrow>
     if c_cmd c = 0 then bind_p (handler again None o_argv idby) (\<lambda>(err, _). ret err) else
     bind_p (sys (n_alloc E)) (\<lambda>ok.
     if \<not> ok then then_p (eprint (line ''failed to allocate netlink message'')) (ret 2) else
     bind_p (sys (n_cbs E)) (\<lambda>ok.
     if \<not> ok then then_p (eprint (line ''failed to allocate netlink callbacks'')) (ret 2) else
     case put_all (n_fits E) dev [] of
       Inl _ \<Rightarrow> then_p (eprint (line ''building message failed'')) (ret 2)
     | Inr msg \<Rightarrow>
     bind_p (handler again (Some msg) argv idby) (\<lambda>(err, msg, cb).
     if err \<noteq> 0 then ret err else
     bind_p (sys (n_send E \<lparr>tx_family = fam, tx_cmd = c_cmd c, tx_flags = c_flags c, tx_attrs = msg\<rparr>)) (\<lambda>err.
     if err < 0 then ret err else
     bind_p (recv_loop E True cb ()) (\<lambda>(err, _). ret err))))))"

definition handle_cmd_out ::
  "'w dispatch \<Rightarrow> 'w netlink \<Rightarrow> int \<Rightarrow> 'w cmd list \<Rightarrow> id_input \<Rightarrow> string list \<Rightarrow> ('w, int \<times> 'w cmd option) iw" where
  "handle_cmd_out again E fam tbl idby argv =
     (if length argv \<le> 1 \<and> idby \<noteq> II_NONE then ret (1, None) else
      bind_p (identify E idby argv) (\<lambda>dev. case dev of None \<Rightarrow> ret (1, None)
      | Some (command_idby, devidx, av) \<Rightarrow>
      if devidx < 0 then bind_p (sys (n_errno E)) (\<lambda>e. ret (- e, None)) else
      (case av of [] \<Rightarrow> undef_p
       | sect # r \<Rightarrow>
           (case select_cmd tbl command_idby sect r of
              None \<Rightarrow> ret (1, None)
            | Some (c, rest) \<Rightarrow>
                bind_p (run_cmd again E fam c (dev_attr command_idby devidx) rest argv idby) (\<lambda>err.
                ret (err, Some c))))))"

text \<open>
  A handler may run another command, and that one another: \<open>n\<close> bounds how deep.  No command of \<open>iw\<close>
  goes deeper than two.
\<close>

primrec handle_cmd :: "nat \<Rightarrow> 'w netlink \<Rightarrow> int \<Rightarrow> 'w cmd list \<Rightarrow> 'w dispatch" where
  "handle_cmd 0 E fam tbl idby argv = endless_p"
| "handle_cmd (Suc n) E fam tbl idby argv =
     bind_p (handle_cmd_out (handle_cmd n E fam tbl) E fam tbl idby argv) (\<lambda>(err, _). ret err)"

subsection \<open>Usage\<close>

definition iw_version :: string where "iw_version = ''3.17''"

abbreviation tb :: string where
  "tb \<equiv> [CHR 0x09]"

definition quoted :: "string \<Rightarrow> string" where
  "quoted s = [CHR 0x27] @ s @ [CHR 0x27]"

definition dquoted :: "string \<Rightarrow> string" where
  "dquoted s = [CHR 0x22] @ s @ [CHR 0x22]"

function text_lines :: "string \<Rightarrow> string list" where
  "text_lines s = (case split_at nl s of None \<Rightarrow> [s] | Some (a, b) \<Rightarrow> a # text_lines b)"
  by pat_completeness auto
termination
  by (relation "measure length") (auto dest: split_at_length)

declare text_lines.simps [simp del]

definition idby_text :: "command_identify_by \<Rightarrow> string" where
  "idby_text i = (case i of CIB_NONE \<Rightarrow> '''' | CIB_PHY \<Rightarrow> ''phy <phyname> '' | CIB_NETDEV \<Rightarrow> ''dev <devname> ''
     | CIB_WDEV \<Rightarrow> ''wdev <idx> '')"

definition parent_text :: "'w cmd list \<Rightarrow> 'w cmd \<Rightarrow> string" where
  "parent_text tbl c =
     (case Option.bind (c_parent c) (entry tbl) of None \<Rightarrow> '''' | Some p \<Rightarrow> c_name p @ '' '')"

definition usage_cmd_text :: "'w cmd list \<Rightarrow> 'w cmd \<Rightarrow> string \<Rightarrow> bool \<Rightarrow> string" where
  "usage_cmd_text tbl c indent full =
     (let path = idby_text (c_idby c) @ parent_text tbl c @ c_name c in
      indent @ path @
      (case c_args c of None \<Rightarrow> line ''''
       | Some args \<Rightarrow>
           '' '' @ line (hd (text_lines args)) @
           concat (map (\<lambda>l. tb @ path @ '' '' @ line l) (tl (text_lines args)))) @
      (case c_help c of
         Some help \<Rightarrow>
           if \<not> full then ''''
           else (if indent \<noteq> '''' then '''' else line '''') @
             concat (map (\<lambda>l. (if indent \<noteq> '''' then tb @ tb else '''') @ line l) (text_lines help)) @ line ''''
       | None \<Rightarrow> ''''))"

definition usage_options :: string where
  "usage_options = line ''Options:'' @ line (tb @ ''--debug'' @ tb @ tb @ ''enable netlink debugging'')"

definition usage_section :: "'w cmd list \<Rightarrow> bool \<Rightarrow> string option \<Rightarrow> string option \<Rightarrow> 'w cmd \<Rightarrow> string" where
  "usage_section tbl full sect_filt cmd_filt sect =
     (if c_parent sect \<noteq> None \<or> (sect_filt \<noteq> None \<and> sect_filt \<noteq> Some (c_name sect)) then ''''
      else (if c_handler sect \<noteq> None \<and> \<not> c_hidden sect then usage_cmd_text tbl sect tb full else '''') @
        concat (map (\<lambda>c.
          if c_parent c \<noteq> Some (c_sym sect) \<or> c_handler c = None \<or> c_hidden c \<or>
             (cmd_filt \<noteq> None \<and> cmd_filt \<noteq> Some (c_name c)) then ''''
          else usage_cmd_text tbl c tb full) tbl))"

text \<open>\<open>usage(argc, argv)\<close>: \<open>full\<close> is whether \<open>argc\<close> is not negative.\<close>

definition usage :: "'w cmd list \<Rightarrow> string \<Rightarrow> bool \<Rightarrow> string list \<Rightarrow> string" where
  "usage tbl argv0 full argv =
     (let sect_filt = (case argv of [] \<Rightarrow> None | a # _ \<Rightarrow> Some a);
          cmd_filt = (case argv of _ # a # _ \<Rightarrow> Some a | _ \<Rightarrow> None)
      in line (''Usage:'' @ tb @ argv0 @ '' [options] command'') @ usage_options @
         line (tb @ ''--version'' @ tb @ ''show version ('' @ iw_version @ '')'') @ line ''Commands:'' @
         concat (map (usage_section tbl full sect_filt cmd_filt) tbl) @
         line '''' @ line (''Commands that use the netdev ('' @ quoted ''dev'' @ '') can also be given the'') @
         line (quoted ''wdev'' @ '' instead to identify the device.'') @
         line '''' @ line (''You can omit the '' @ quoted ''phy'' @ '' or '' @ quoted ''dev'' @ '' if the identification is unique,'') @
         line (''e.g. '' @ dquoted ''iw wlan0 info'' @ '' or '' @ dquoted ''iw phy0 info'' @ ''. (Don'' @ [CHR 0x27] @
           ''t when scripting.)'') @ line '''' @
         line (''Do NOT screenscrape this tool, we don'' @ [CHR 0x27] @ ''t consider its output stable.'') @ line '''')"

definition usage_cmd :: "'w cmd list \<Rightarrow> string \<Rightarrow> 'w cmd \<Rightarrow> string" where
  "usage_cmd tbl argv0 c =
     ''Usage:'' @ tb @ argv0 @ '' [options] '' @ usage_cmd_text tbl c '''' True @ usage_options"

definition print_help :: "'w iw_handler" where
  "print_help again msg argv idby = exit_p 3"

definition help_cmd :: "'w cmd" where
  "help_cmd = TOPLEVEL ''help'' (Some ''[command]'') 0 0 CIB_NONE (Some print_help)
     (line ''Print usage for all or a specific command, e.g.'' @
      dquoted ''help wowlan'' @ '' or '' @ dquoted ''help wowlan enable'' @ ''.'')"

subsection \<open>main\<close>

definition nl80211_init :: "'w netlink \<Rightarrow> ('w, int + int) iw" where
  "nl80211_init E =
     bind_p (sys (n_sock E)) (\<lambda>ok.
     if \<not> ok then then_p (eprint (line ''Failed to allocate netlink socket.'')) (ret (Inl (- ENOMEM))) else
     bind_p (sys (n_connect E)) (\<lambda>ok.
     if \<not> ok then then_p (eprint (line ''Failed to connect to generic netlink.'')) (ret (Inl (- ENOLINK))) else
     bind_p (sys (n_resolve E ''nl80211'')) (\<lambda>fam.
     if fam < 0 then then_p (eprint (line ''nl80211 not found.'')) (ret (Inl (- ENOENT))) else ret (Inr fam))))"

text \<open>The kind of device that the first word names when neither \<open>dev\<close>, \<open>phy\<close> nor \<open>wdev\<close> says so.\<close>

definition detect :: "'w netlink \<Rightarrow> string \<Rightarrow> ('w, id_input) iw" where
  "detect E name =
     bind_p (sys (n_ifindex E name)) (\<lambda>idx.
     if idx \<noteq> 0 then ret II_NETDEV
     else bind_p (phy_lookup E name) (\<lambda>idx. ret (if idx \<ge> 0 then II_PHY_NAME else II_NONE)))"

definition device_words :: "'w netlink \<Rightarrow> string \<Rightarrow> string list \<Rightarrow> ('w, id_input \<times> string list) iw" where
  "device_words E a r =
     (if a = ''dev'' \<and> r \<noteq> [] then ret (II_NETDEV, r)
      else if strncmp_eq a ''phy'' 3 \<and> r \<noteq> [] then
        (if length a = 3 then ret (II_PHY_NAME, r)
         else if char_at a 3 = CHR ''#'' then ret (II_PHY_IDX, a # r)
         else bind_p (detect E a) (\<lambda>idby. ret (idby, a # r)))
      else if a = ''wdev'' \<and> r \<noteq> [] then ret (II_WDEV, r)
      else bind_p (detect E a) (\<lambda>idby. ret (idby, a # r)))"

definition iw_main :: "'w netlink \<Rightarrow> 'w cmd list \<Rightarrow> string \<Rightarrow> string list \<Rightarrow> ('w, int) iw" where
  "iw_main E tbl argv0 argv =
     (case (if take 1 argv = [''--debug''] then tl argv else argv) of
        [] \<Rightarrow> then_p (print (usage tbl argv0 False [])) (ret 0)
      | a # r \<Rightarrow>
          if a = ''--version'' then then_p (print (line (''iw version '' @ iw_version))) (ret 0)
          else if a = ''help'' then then_p (print (usage tbl argv0 True r)) (ret 0)
          else bind_p (nl80211_init E) (\<lambda>i. case i of Inl _ \<Rightarrow> ret 1
          | Inr fam \<Rightarrow>
          bind_p (device_words E a r) (\<lambda>(idby, argv).
          bind_p (handle_cmd_out (handle_cmd 1 E fam tbl) E fam tbl idby argv) (\<lambda>(err, c).
          then_p
            (if err = 1 then print (case c of Some c \<Rightarrow> usage_cmd tbl argv0 c | None \<Rightarrow> usage tbl argv0 True [])
             else if err < 0 then eprint (line (''command failed: '' @ n_strerror E (- err) @ '' ('' @ fmt_d err @ '')''))
             else ret ())
            (ret err)))))"

subsection \<open>The loop for the answers\<close>

text \<open>What the events of a datagram make of \<open>err\<close>: nothing, or the value of the last handler that runs.\<close>

fun decisive :: "bool \<Rightarrow> nl_event list \<Rightarrow> int option" where
  "decisive fin [] = None"
| "decisive fin (Valid m # es) = decisive fin es"
| "decisive fin (Finish # es) = (case decisive fin es of None \<Rightarrow> if fin then Some 0 else None | Some e \<Rightarrow> Some e)"
| "decisive fin (Ack # es) = Some 0"
| "decisive fin (Error e # es) = Some e"

definition settled :: "bool \<Rightarrow> nl_event list \<Rightarrow> bool" where
  "settled fin es \<longleftrightarrow> (case decisive fin es of None \<Rightarrow> False | Some e \<Rightarrow> e \<le> 0)"

text \<open>
  A callback may print, call the system, and stop the program.  What is asked of it is that its system calls leave the datagrams
  that wait as they are: \<open>waits k w\<close> says that in the world \<open>w\<close> the datagrams from the \<open>k\<close>-th of the stream on are still to come.
\<close>

definition streams :: "'w netlink \<Rightarrow> (nat \<Rightarrow> 'w \<Rightarrow> bool) \<Rightarrow> (nat \<Rightarrow> nl_event list) \<Rightarrow> bool" where
  "streams E waits stream \<longleftrightarrow> (\<forall>k w. waits k w \<longrightarrow> fst (n_recv E w) = stream k \<and> waits (Suc k) (snd (n_recv E w)))"

definition cb_stops :: "(rx_msg \<Rightarrow> 'a \<Rightarrow> ('w, 'a) iw) \<Rightarrow> stop \<Rightarrow> bool" where
  "cb_stops cb c \<longleftrightarrow> (\<exists>m a t. fst (cb m a t) = Inl c)"

lemma cb_wp:
  assumes "keeps I (cb m a)" "I (world s)"
  shows "wp (cb m a) (\<lambda>_ t. I (world t)) (\<lambda>c _. cb_stops cb c) s"
proof (cases "cb m a s")
  case (Pair r t)
  have "cb_stops cb c" if "r = Inl c" for c
    unfolding cb_stops_def using Pair that by (metis fst_conv)
  then show ?thesis using Pair keepsD [OF assms Pair] by (simp add: wp_def split: sum.split)
qed

lemma run_events_decisive:
  assumes "\<And>m a. keeps I (cb m a)" "I (world s)"
  shows "wp (run_events fin cb es (err, a))
    (\<lambda>x t. fst x = (case decisive fin es of None \<Rightarrow> err | Some e \<Rightarrow> e) \<and> I (world t)) (\<lambda>c _. cb_stops cb c) s"
  using assms(2)
proof (induction es arbitrary: err a s)
  case (Cons ev es)
  show ?case
  proof (cases ev)
    case (Valid m)
    show ?thesis unfolding Valid run_events.simps wp_bind decisive.simps
      by (rule wp_mono [OF cb_wp [where I = I, OF assms(1) Cons.prems]]) (use Cons.IH in auto)
  next
    case Finish
    show ?thesis unfolding Finish run_events.simps
      by (rule wp_mono [OF Cons.IH [OF Cons.prems]]) (auto split: option.splits)
  qed (simp_all add: wp_simps Cons.prems)
qed (simp add: wp_simps)

lemma recv_turn:
  assumes "streams E waits stream" "\<And>k m a. keeps (waits k) (cb m a)" and "waits k (world s)"
  shows "wp (bind_p (sys (n_recv E)) (\<lambda>es. run_events fin cb es x))
    (\<lambda>y t. waits (Suc k) (world t) \<and>
       fst y = (case decisive fin (stream k) of None \<Rightarrow> fst x | Some e \<Rightarrow> e)) (\<lambda>c _. cb_stops cb c) s"
proof -
  obtain err a where x: "x = (err, a)" by (cases x)
  obtain w where w: "n_recv E (world s) = (stream k, w)" "waits (Suc k) w"
    using assms(1,3) by (auto simp: streams_def prod_eq_iff)
  have "wp (run_events fin cb (stream k) (err, a))
      (\<lambda>y t. fst y = (case decisive fin (stream k) of None \<Rightarrow> err | Some e \<Rightarrow> e) \<and> waits (Suc k) (world t))
      (\<lambda>c _. cb_stops cb c) (s\<lparr>world := w\<rparr>)"
    using w(2) by (intro run_events_decisive assms(2)) simp
  then show ?thesis unfolding x wp_bind wp_sys w(1) by (simp add: conj_commute cong: option.case_cong)
qed

text \<open>A turn of a loop, when the outcomes are looked at without the state.\<close>

lemma wp_while_turn:
  assumes "b x \<Longrightarrow> wp (f x) (\<lambda>y t. wp (while_p b f y) Q (\<lambda>c _. E c) t) (\<lambda>c _. E c) s" and "\<not> b x \<Longrightarrow> Q x s"
  shows "wp (while_p b f x) Q (\<lambda>c _. E c) s"
  using assms
  by (auto simp: wp_def while_p_def loop_run.simps [of b f x] split: prod.splits sum.splits option.splits)

lemma recv_while_ends:
  assumes q: "streams E waits stream" "\<And>k m a. keeps (waits k) (cb m a)"
  shows "settled fin (stream (k + n)) \<Longrightarrow> \<forall>j < n. \<not> settled fin (stream (k + j)) \<Longrightarrow>
    waits k (world s) \<Longrightarrow> fst x > 0 \<Longrightarrow>
    wp (while_p (\<lambda>(err, a). err > 0) (\<lambda>x. bind_p (sys (n_recv E)) (\<lambda>es. run_events fin cb es x)) x)
      (\<lambda>y t. decisive fin (stream (k + n)) = Some (fst y)) (\<lambda>c _. cb_stops cb c) s"
proof (induction n arbitrary: k x s)
  case 0
  then obtain e where e: "decisive fin (stream k) = Some e" "e \<le> 0"
    by (auto simp: settled_def split: option.splits)
  show ?case
    by (rule wp_while_turn, rule wp_mono [OF recv_turn [OF q 0(3)]])
      (use 0 e in \<open>auto intro!: wp_while_turn split: prod.splits\<close>)
next
  case (Suc n)
  have "\<not> settled fin (stream k)" using Suc.prems(2) by force
  then have "fst y > 0" if "fst y = (case decisive fin (stream k) of None \<Rightarrow> fst x | Some e \<Rightarrow> e)" for y :: "int \<times> 'c"
    using that Suc.prems(4) by (auto simp: settled_def split: option.splits)
  moreover have "\<forall>j < n. \<not> settled fin (stream (Suc k + j))" using Suc.prems(2) by force
  ultimately show ?case
    by (intro wp_while_turn, intro wp_mono [OF recv_turn [OF q Suc.prems(3)]])
      (use Suc.IH [of "Suc k"] Suc.prems in \<open>auto split: prod.splits\<close>)
qed

lemma recv_loop_endless:
  assumes q: "streams E waits stream" "\<And>k m a. keeps (waits k) (cb m a)"
    and s: "waits 0 (world s)" "\<forall>k. \<not> settled fin (stream k)"
  shows "case fst (recv_loop E fin cb a s) of Inl c \<Rightarrow> c = Endless \<or> cb_stops cb c | Inr _ \<Rightarrow> False"
proof -
  let ?b = "\<lambda>(err, a :: 'c). (err :: int) > 0" and ?f = "\<lambda>x. bind_p (sys (n_recv E)) (\<lambda>es. run_events fin cb es x)"
  let ?I = "\<lambda>x t. fst x > 0 \<and> (\<exists>k. waits k (world t))"
  have step: "wp (?f x) ?I (\<lambda>c _. cb_stops cb c) t" if i: "?I x t" for x t
  proof -
    obtain k where k: "waits k (world t)" using i by blast
    have "\<not> settled fin (stream k)" using s(2) by blast
    then show ?thesis
      by (intro wp_mono [OF recv_turn [OF q k]]) (use i in \<open>auto simp: settled_def split: option.splits\<close>)
  qed
  have "case r of Inl c \<Rightarrow> cb_stops cb c | Inr y \<Rightarrow> False" if "loop_run ?b ?f (1, a) s = Some (r, t)" for r t
  proof -
    have "case r of Inl c \<Rightarrow> cb_stops cb c | Inr y \<Rightarrow> ?I y t \<and> \<not> ?b y"
      using that by (rule loop_run_inv) (use step s(1) in auto)
    then show ?thesis by (auto split: sum.splits prod.splits)
  qed
  then show ?thesis by (auto simp: recv_loop_def while_p_def split: option.splits sum.splits)
qed

text \<open>
  C12.  Waiting for the kernel, whose datagrams come as some stream that the system calls of the callback leave alone: when the
  loop ends, then with the first datagram of the stream that settles the request, and its result is the value of the last handler
  that runs in that datagram, the error code of an error, or 0 of an acknowledgement or of the end of a dump.  When it does not
  end, no datagram settles the request.  The only other outcome is that a callback itself stopped the program.
\<close>

theorem recv_loop_outcome:
  assumes "streams E waits stream" and "\<And>k m a. keeps (waits k) (cb m a)" and "waits 0 (world s)"
  shows "case fst (recv_loop E fin cb a s) of
      Inl c \<Rightarrow> cb_stops cb c \<or> c = Endless \<and> (\<forall>k. \<not> settled fin (stream k))
    | Inr (err, _) \<Rightarrow> (\<exists>n. settled fin (stream n) \<and> (\<forall>k < n. \<not> settled fin (stream k)) \<and>
        decisive fin (stream n) = Some err)"
proof (cases "\<exists>k. settled fin (stream k)")
  case True
  then obtain n where n: "settled fin (stream n)" "\<forall>k < n. \<not> settled fin (stream k)"
    using exists_least_iff [of "\<lambda>k. settled fin (stream k)"] by blast
  have "wp (recv_loop E fin cb a) (\<lambda>y t. decisive fin (stream (0 + n)) = Some (fst y)) (\<lambda>c _. cb_stops cb c) s"
    unfolding recv_loop_def by (rule recv_while_ends [where waits = waits and k = 0, OF assms(1,2) _ _ assms(3)]) (use n in simp_all)
  then show ?thesis using n by (auto simp: wp_def split: prod.splits sum.splits)
next
  case False
  then show ?thesis using recv_loop_endless [where cb = cb, OF assms, of fin a] by (auto split: sum.splits)
qed

text \<open>A kernel that delivers the datagrams of a list and then nothing.\<close>

definition null_netlink :: "'w netlink" where
  "null_netlink = \<lparr>n_sock = Pair True, n_connect = Pair True, n_resolve = (\<lambda>_. Pair 28), n_ifindex = (\<lambda>_. Pair 0),
     n_ifname = (\<lambda>_. Pair None), n_read = (\<lambda>_ _. Pair None), n_file = (\<lambda>_. Pair None), n_errno = Pair 0, n_alloc = Pair True, n_cbs = Pair True, n_calloc = (\<lambda>_. Pair True),
     n_join = (\<lambda>_. Pair 0), n_send = (\<lambda>_. Pair 0), n_recv = Pair [], n_fits = (\<lambda>_. True), n_strerror = (\<lambda>_. [])\<rparr>"

definition scripted :: "nl_event list list netlink" where
  "scripted = null_netlink\<lparr>n_recv := \<lambda>w. case w of [] \<Rightarrow> ([], []) | es # r \<Rightarrow> (es, r)\<rparr>"

theorem recv_loop_outcome_witness:
  "\<exists>err x. fst (recv_loop scripted True (\<lambda>m u. then_p (bind_p (sys (n_errno scripted)) (\<lambda>e. print (fmt_d e))) (ret ())) ()
      \<lparr>world = [[], [Valid \<lparr>rx_cmd = 7, rx_attrs = []\<rparr>], [Error (-16), Ack]], stdin = [], stdout = [], stderr = []\<rparr>) =
    Inr (err, x) \<and> err = -16"
proof -
  let ?w = "[[], [Valid \<lparr>rx_cmd = 7, rx_attrs = []\<rparr>], [Error (-16), Ack]]"
  let ?s = "\<lparr>world = ?w, stdin = [], stdout = [], stderr = []\<rparr>"
  let ?waits = "\<lambda>k w. w = drop k ?w" and ?stream = "\<lambda>k. if k < 3 then ?w ! k else []"
  let ?cb = "\<lambda>m u. then_p (bind_p (sys (n_errno scripted)) (\<lambda>e. print (fmt_d e))) (ret ())"
  have st: "streams scripted ?waits ?stream"
    unfolding streams_def
  proof (intro allI impI)
    fix k w assume "w = drop k ?w"
    note w = this
    consider "k = 0" | "k = 1" | "k = 2" | "3 \<le> k" by linarith
    then show "fst (n_recv scripted w) = ?stream k \<and> snd (n_recv scripted w) = drop (Suc k) ?w"
      by cases (simp_all add: w scripted_def)
  qed
  have kp: "keeps (?waits k) (?cb m u)" for k m u
    by (intro keeps_rules keeps_sys) (simp add: scripted_def null_netlink_def)
  have no_stop: "\<not> cb_stops ?cb c" for c
    by (auto simp: cb_stops_def then_p_def bind_p_def sys_def print_def ret_def split: prod.splits)
  have n: "n = 2" if "settled True (?stream n)" "\<forall>k < n. \<not> settled True (?stream k)" for n
  proof -
    have "settled True (?stream 2)" by (simp add: settled_def)
    then have "n \<le> 2" using that(2) by (meson not_le)
    moreover have "\<not> settled True (?stream 0)" "\<not> settled True (?stream 1)" by (simp_all add: settled_def)
    then have "n \<noteq> 0" "n \<noteq> 1" using that(1) by metis+
    ultimately show ?thesis by linarith
  qed
  have ex: "\<exists>k. settled True (?stream k)" by (rule exI [of _ 2]) (simp add: settled_def)
  have out: "case fst (recv_loop scripted True ?cb () ?s) of
      Inl c \<Rightarrow> cb_stops ?cb c \<or> c = Endless \<and> (\<forall>k. \<not> settled True (?stream k))
    | Inr (err, _) \<Rightarrow> (\<exists>n. settled True (?stream n) \<and> (\<forall>k < n. \<not> settled True (?stream k)) \<and>
        decisive True (?stream n) = Some err)"
    by (rule recv_loop_outcome [where waits = ?waits and cb = ?cb, OF st kp]) simp
  show ?thesis
  proof (cases "fst (recv_loop scripted True ?cb () ?s)")
    case (Inl c)
    then show ?thesis using out no_stop ex by simp
  next
    case (Inr y)
    obtain err x where y: "y = (err, x)" by (cases y)
    obtain m where m: "settled True (?stream m)" "\<forall>k < m. \<not> settled True (?stream k)" "decisive True (?stream m) = Some err"
      using out unfolding Inr y by auto
    have "m = 2" by (rule n [OF m(1,2)])
    then have "err = -16" using m(3) by simp
    then show ?thesis using Inr y by (intro exI [of _ err] exI [of _ x]) simp
  qed
qed

subsection \<open>The choice of a command\<close>

lemma find_section_inv:
  assumes "find_section tbl i sect = Some c"
  shows "c \<in> set tbl \<and> c_parent c = None \<and> c_name c = sect"
proof -
  have "c \<in> set tbl \<and> c_parent c = None \<and> c_name c = sect"
    if "foldl (\<lambda>match c. if c_parent c \<noteq> None then match
        else if match \<noteq> None \<and> c_idby c \<noteq> i then match
        else if c_name c = sect then Some c else match) m xs = Some c"
      and "\<And>c. m = Some c \<Longrightarrow> c \<in> set tbl \<and> c_parent c = None \<and> c_name c = sect" "set xs \<subseteq> set tbl" for m xs
    using that by (induction xs arbitrary: m) (auto split: if_splits)
  then show ?thesis using assms by (auto simp: find_section_def)
qed

lemma pick_cmd_inv:
  assumes "pick_cmd tbl i sect argv = Some (c, rest)"
  shows "c \<in> set tbl \<and> c_handler c \<noteq> None \<and> idby_ok i c \<and> (rest = [] \<or> c_args c \<noteq> None) \<and>
    (c_parent c = None \<and> c_name c = sect \<and> rest = argv \<or>
     (\<exists>s \<in> set tbl. c_parent s = None \<and> c_name s = sect \<and> c_parent c = Some (c_sym s) \<and> argv = c_name c # rest))"
  using assms
  by (auto simp: pick_cmd_def find_command_def find_Some_iff split: option.splits if_splits list.splits
      dest!: find_section_inv)

subsection \<open>No undefined behaviour\<close>

definition sound :: "('w, 'a) iw \<Rightarrow> bool" where
  "sound m \<longleftrightarrow> gives {c. c \<noteq> Undef} m (\<lambda>_. True)"

lemma soundI: "(\<And>C. Undef \<notin> C \<Longrightarrow> C = {c. c \<noteq> Undef} \<Longrightarrow> gives C m (\<lambda>_. True)) \<Longrightarrow> sound m"
  by (simp add: sound_def)

definition kind_of :: "id_input \<Rightarrow> command_identify_by" where
  "kind_of idby = (case idby of II_NONE \<Rightarrow> CIB_NONE | II_NETDEV \<Rightarrow> CIB_NETDEV | II_PHY_NAME \<Rightarrow> CIB_PHY
     | II_PHY_IDX \<Rightarrow> CIB_PHY | II_WDEV \<Rightarrow> CIB_WDEV)"

text \<open>
  The words that \<open>handle_cmd\<close> can be called with, and those that a command without a message gets: the
  device, when there is one, in front of the words that chose the command.
\<close>

definition cmd_words :: "id_input \<Rightarrow> string list \<Rightarrow> bool" where
  "cmd_words idby argv \<longleftrightarrow> argv \<noteq> [] \<and> (idby = II_PHY_IDX \<longrightarrow> 4 \<le> length (hd argv))"

definition whole_words :: "'w cmd \<Rightarrow> id_input \<Rightarrow> string list \<Rightarrow> bool" where
  "whole_words c idby argv \<longleftrightarrow>
     cmd_words idby argv \<and> (idby \<noteq> II_NONE \<longrightarrow> 2 \<le> length argv) \<and> idby_ok (kind_of idby) c"

text \<open>
  What the dispatch asks of the table: every handler is defined on all arguments as long as the
  commands it runs are, and so are the callbacks it installs; a selector names commands with a message
  and a handler.
\<close>

definition sound_cmd :: "'w cmd \<Rightarrow> 'w iw_handler \<Rightarrow> bool" where
  "sound_cmd c h \<longleftrightarrow> (\<forall>again msg argv idby. (\<forall>i av. cmd_words i av \<longrightarrow> sound (again i av)) \<longrightarrow>
     (msg = None \<longrightarrow> whole_words c idby argv) \<longrightarrow> (msg = None \<longleftrightarrow> c_cmd c = 0) \<longrightarrow>
     gives {c. c \<noteq> Undef} (h again msg argv idby) (\<lambda>(_, _, cb). \<forall>m. sound (cb m ())))"

definition sound_table :: "'w cmd list \<Rightarrow> bool" where
  "sound_table tbl \<longleftrightarrow>
     list_all (\<lambda>c. (\<forall>h. c_handler c = Some h \<longrightarrow> sound_cmd c h) \<and>
       (\<forall>sel argv d. c_selector c = Some sel \<longrightarrow> Option.bind (sel argv) (entry tbl) = Some d \<longrightarrow>
          c_handler d \<noteq> None \<and> c_cmd d \<noteq> 0)) tbl"

lemma select_cmd_handler:
  assumes "sound_table tbl" "select_cmd tbl i sect argv = Some (c, rest)"
  shows "(\<exists>h. c_handler c = Some h \<and> sound_cmd c h) \<and> (c_cmd c = 0 \<longrightarrow> idby_ok i c)"
proof -
  obtain d argv' where d: "pick_cmd tbl i sect argv = Some (d, argv')" using assms(2)
    by (auto simp: select_cmd_def split: option.splits prod.splits)
  have "c \<in> set tbl \<and> c_handler c \<noteq> None \<and> (c_cmd c = 0 \<longrightarrow> idby_ok i c)"
  proof (cases "c_selector d")
    case None
    then show ?thesis using assms(2) d pick_cmd_inv [OF d] by (simp add: select_cmd_def)
  next
    case (Some sel)
    then have b: "Option.bind (sel argv') (entry tbl) = Some c" using assms(2) d
      by (auto simp: select_cmd_def split: option.splits)
    then have "c \<in> set tbl" by (auto simp: entry_def find_Some_iff bind_eq_Some_conv)
    moreover have "c_handler c \<noteq> None \<and> c_cmd c \<noteq> 0"
      using assms(1) pick_cmd_inv [OF d] Some b unfolding sound_table_def list_all_iff by blast
    ultimately show ?thesis by blast
  qed
  then show ?thesis using assms(1) by (auto simp: sound_table_def list_all_iff)
qed

lemma gives_run_events:
  assumes "\<And>m a. sound (cb m a)"
  shows "gives {c. c \<noteq> Undef} (run_events fin cb es x) (\<lambda>_. True)"
proof (cases x)
  case (Pair err a)
  show ?thesis unfolding Pair
    using assms by (induction fin cb es "(err, a)" arbitrary: err a rule: run_events.induct)
      (auto simp: sound_def intro!: gives_rules)
qed

lemma gives_recv_loop:
  "(\<And>m a. sound (cb m a)) \<Longrightarrow> gives {c. c \<noteq> Undef} (recv_loop E fin cb a) (\<lambda>_. True)"
  unfolding recv_loop_def by (intro gives_rules gives_run_events) simp_all

lemma gives_run_cmd:
  assumes "c_handler c = Some h" "sound_cmd c h" "\<And>i av. cmd_words i av \<Longrightarrow> sound (again i av)"
    and "c_cmd c = 0 \<Longrightarrow> whole_words c idby o_argv"
  shows "gives {c. c \<noteq> Undef} (run_cmd again E fam c dev argv o_argv idby) (\<lambda>_. True)"
proof (cases "c_cmd c = 0")
  case True
  then have "gives {c. c \<noteq> Undef} (h again None o_argv idby) (\<lambda>_. True)"
    using assms(2-4) by (auto simp: sound_cmd_def intro: gives_mono)
  then show ?thesis unfolding run_cmd_def assms(1) option.case True by (simp, intro gives_bind gives_case_prod gives_ret TrueI)
next
  case False
  then have h: "gives {c. c \<noteq> Undef} (h again (Some msg) argv idby) (\<lambda>(_, _, cb). \<forall>m. sound (cb m ()))" for msg argv
    using assms(2,3) by (auto simp: sound_cmd_def)
  have sent: "gives {c. c \<noteq> Undef} (bind_p (h again (Some msg) argv idby) (\<lambda>(err, msg, cb).
     if err \<noteq> 0 then ret err else
     bind_p (sys (n_send E \<lparr>tx_family = fam, tx_cmd = c_cmd c, tx_flags = c_flags c, tx_attrs = msg\<rparr>)) (\<lambda>err.
     if err < 0 then ret err else bind_p (recv_loop E True cb ()) (\<lambda>(err, _). ret err)))) (\<lambda>_. True)" for msg
  proof (rule gives_bindP [OF h], clarify)
    fix err msg and cb :: "'a valid_cb" assume "\<forall>m. sound (cb m ())"
    then have "gives {c. c \<noteq> Undef} (recv_loop E True cb ()) (\<lambda>_. True)" by (intro gives_recv_loop) simp
    then show "gives {c. c \<noteq> Undef} (if err \<noteq> 0 then ret err else
     bind_p (sys (n_send E \<lparr>tx_family = fam, tx_cmd = c_cmd c, tx_flags = c_flags c, tx_attrs = msg\<rparr>)) (\<lambda>err.
     if err < 0 then ret err else bind_p (recv_loop E True cb ()) (\<lambda>(err, _). ret err))) (\<lambda>_. True)"
      by (intro gives_if gives_ret gives_bind gives_sys gives_case_prod TrueI)
  qed
  show ?thesis unfolding run_cmd_def assms(1) option.case if_not_P [OF False]
    by (rule sent gives_rules TrueI)+
qed

lemma gives_identify:
  assumes "idby \<noteq> II_NONE \<Longrightarrow> 2 \<le> length argv" "cmd_words idby argv"
  shows "gives {c. c \<noteq> Undef} (identify E idby argv) (\<lambda>r. \<forall>x. r = Some x \<longrightarrow> fst x = kind_of idby \<and> snd (snd x) \<noteq> [])"
proof -
  have tl: "idby \<noteq> II_NONE \<Longrightarrow> tl argv \<noteq> []" using assms(1) by (cases argv; cases "tl argv") auto
  have hd: "idby = II_PHY_IDX \<Longrightarrow> \<not> length (hd argv) < 4" "argv \<noteq> []" using assms(2) by (auto simp: cmd_words_def)
  show ?thesis unfolding identify_def phy_lookup_def
    using tl hd by (cases idby) (auto intro!: gives_ret gives_bind gives_sys split: prod.split simp: kind_of_def)
qed

lemma gives_handle_cmd_out:
  assumes "sound_table tbl" "\<And>i av. cmd_words i av \<Longrightarrow> sound (again i av)" "cmd_words idby argv"
  shows "gives {c. c \<noteq> Undef} (handle_cmd_out again E fam tbl idby argv) (\<lambda>_. True)"
  unfolding handle_cmd_out_def
proof (rule gives_if, rule gives_ret, rule TrueI)
  assume n: "\<not> (length argv \<le> 1 \<and> idby \<noteq> II_NONE)"
  then have i: "gives {c. c \<noteq> Undef} (identify E idby argv) (\<lambda>r. \<forall>x. r = Some x \<longrightarrow> fst x = kind_of idby \<and> snd (snd x) \<noteq> [])"
    by (intro gives_identify assms(3)) auto
  have run: "gives {c. c \<noteq> Undef} (run_cmd again E fam c dev rest argv idby) (\<lambda>_. True)"
    if s: "select_cmd tbl (kind_of idby) sect r = Some (c, rest)" for sect r c rest dev
  proof -
    obtain h where h: "c_handler c = Some h" "sound_cmd c h" and z: "c_cmd c = 0 \<longrightarrow> idby_ok (kind_of idby) c"
      using select_cmd_handler [OF assms(1) s] by (elim conjE exE, intro that)
    have "idby \<noteq> II_NONE \<longrightarrow> 2 \<le> length argv" using n by linarith
    then have w: "c_cmd c = 0 \<Longrightarrow> whole_words c idby argv" using assms(3) z unfolding whole_words_def by blast
    show ?thesis by (rule gives_run_cmd [OF h assms(2) w])
  qed
  show "gives {c. c \<noteq> Undef} (bind_p (identify E idby argv) (\<lambda>dev. case dev of None \<Rightarrow> ret (1, None)
      | Some (command_idby, devidx, av) \<Rightarrow>
      if devidx < 0 then bind_p (sys (n_errno E)) (\<lambda>e. ret (- e, None)) else
      (case av of [] \<Rightarrow> undef_p
       | sect # r \<Rightarrow>
           (case select_cmd tbl command_idby sect r of
              None \<Rightarrow> ret (1, None)
            | Some (c, rest) \<Rightarrow>
                bind_p (run_cmd again E fam c (dev_attr command_idby devidx) rest argv idby) (\<lambda>err.
                ret (err, Some c)))))) (\<lambda>_. True)"
    by (rule gives_bindP [OF i])
      (auto intro!: gives_ret gives_if gives_bind gives_sys run split: option.splits prod.splits list.splits)
qed

lemma sound_handle_cmd:
  assumes "sound_table tbl" "cmd_words idby argv"
  shows "sound (handle_cmd n E fam tbl idby argv)"
  using assms(2)
proof (induction n arbitrary: idby argv)
  case 0
  show ?case by (simp add: sound_def gives_endless)
next
  case (Suc n)
  show ?case unfolding sound_def handle_cmd.simps
    by (intro gives_bind gives_handle_cmd_out [OF assms(1)] gives_case_prod gives_ret TrueI Suc)
qed

lemma gives_detect: "gives {c. c \<noteq> Undef} (detect E a) (\<lambda>idby. idby \<noteq> II_PHY_IDX)"
  unfolding detect_def phy_lookup_def
  by (intro gives_bind gives_sys gives_if gives_ret TrueI) auto

lemma gives_device_words:
  "gives {c. c \<noteq> Undef} (device_words E a r) (\<lambda>(idby, argv). cmd_words idby argv)"
proof -
  have d: "gives {c. c \<noteq> Undef} (bind_p (detect E a) (\<lambda>idby. ret (idby, a # r))) (\<lambda>(idby, argv). cmd_words idby argv)"
    by (rule gives_bindP [OF gives_detect]) (simp add: gives_ret cmd_words_def)
  show ?thesis unfolding device_words_def
    by (intro gives_if gives_ret d) (auto simp: cmd_words_def char_at_def NUL_def split: if_splits)
qed
lemma gives_nl80211_init: "gives {c. c \<noteq> Undef} (nl80211_init E) (\<lambda>_. True)"
  unfolding nl80211_init_def by (rule gives_rules TrueI)+

text \<open>
  C11.  No command line makes \<open>iw\<close> look behind the end of its arguments, use a null pointer as a word, or call a
  command without a handler: when the handlers in the table are defined on what they are given, the run of the
  program is, whatever the kernel does.
\<close>

theorem iw_main_defined:
  assumes "sound_table tbl"
  shows "gives {c. c \<noteq> Undef} (iw_main E tbl argv0 argv) (\<lambda>_. True)"
proof -
  have again: "sound (handle_cmd 1 E fam tbl i av)" if "cmd_words i av" for fam i av
    using assms that by (rule sound_handle_cmd)
  have h: "gives {c. c \<noteq> Undef} (bind_p (device_words E a r) (\<lambda>(idby, argv).
      bind_p (handle_cmd_out (handle_cmd 1 E fam tbl) E fam tbl idby argv) (k fam))) (\<lambda>_. True)"
    if k: "\<And>x. gives {c. c \<noteq> Undef} (k fam x) (\<lambda>_. True)" for k fam a r
    by (rule gives_bindP [OF gives_device_words])
      (clarify, intro gives_bind gives_handle_cmd_out [OF assms again] k)
  show ?thesis unfolding iw_main_def
    by (rule h gives_nl80211_init gives_rules TrueI)+
qed
text \<open>
  A negative index of a device is refused with the error number of the last failed system call; for an
  index that was only parsed no call has failed, and \<open>iw wdev -1 ...\<close> reports success without having
  looked at the command or sent anything.
\<close>

theorem negative_wdev_succeeds:
  assumes "n_sock E (world s) = (True, w1)" "n_connect E w1 = (True, w2)" "n_resolve E ''nl80211'' w2 = (fam, w3)"
    and "0 \<le> fam" "n_errno E w3 = (0, w4)" "strtol idx 0 = (i, [])" "i < 0"
  shows "iw_main E tbl argv0 (''wdev'' # idx # c # r) s = (Inr 0, s\<lparr>world := w4\<rparr>)"
proof -
  have "identify E II_WDEV (idx # c # r) = ret (Some (CIB_WDEV, i, c # r))"
    using assms(6) by (simp add: identify_def)
  then show ?thesis using assms
    by (simp add: iw_main_def nl80211_init_def device_words_def strncmp_eq_def handle_cmd_out_def run_defs)
qed

theorem negative_wdev_succeeds_witness:
  "fst (iw_main scripted [help_cmd] ''iw'' [''wdev'', ''-1'', ''p2p'', ''start''] \<lparr>world = [], stdin = [], stdout = [], stderr = []\<rparr>) = Inr 0"
proof -
  have "strtol ''-1'' 0 = (-1, [])" by code_simp
  then show ?thesis
    using negative_wdev_succeeds [of scripted "\<lparr>world = [], stdin = [], stdout = [], stderr = []\<rparr>" "[]" "[]" 28 "[]" "[]" "''-1''" "-1"
        "[help_cmd]" "''iw''" "''p2p''" "[''start'']"]
    by (simp add: scripted_def null_netlink_def)
qed

text \<open>
  Words that name no command are answered with the usage, status 1 and not a single message to the kernel.
\<close>

lemma unknown_command_sends_nothing:
  assumes "n_sock E (world s) = (True, w1)" "n_connect E w1 = (True, w2)" "n_resolve E ''nl80211'' w2 = (fam, w3)" "0 \<le> fam"
    and "n_ifindex E dev w3 = (ifindex, w4)" "0 < ifindex"
    and "select_cmd tbl CIB_NETDEV sect r = None"
  shows "iw_main E tbl argv0 (''dev'' # dev # sect # r) s =
    (Inr 1, s\<lparr>world := w4, stdout := stdout s @ usage tbl argv0 True []\<rparr>)"
  using assms
  by (simp add: iw_main_def nl80211_init_def device_words_def handle_cmd_out_def identify_def run_defs)

end
