(* ===== verification/Iw_Tree.thy ===== *)
theory Iw_Tree
  imports Iw_Cmd
begin

text \<open>
  What a message says: a handler puts attributes and the marks of nested attributes one behind the other,
  and the receiver sees a tree.  \<open>flat\<close> writes a tree out; it is injective, so that a message stands for at
  most one tree.
\<close>

fun flat :: "nlattr \<Rightarrow> nl_msg" where
  "flat (At_flag n) = [Nla_flag n]"
| "flat (At_u8 n v) = [Nla_u8 n v]"
| "flat (At_u16 n v) = [Nla_u16 n v]"
| "flat (At_u32 n v) = [Nla_u32 n v]"
| "flat (At_u64 n v) = [Nla_u64 n v]"
| "flat (At_bytes n bs) = [Nla_bytes n bs]"
| "flat (At_nest n as) = Nest_start n # concat (map flat as) @ [Nest_end]"

definition flats :: "nlattr list \<Rightarrow> nl_msg" where
  "flats as = concat (map flat as)"

lemma flats_simps [simp]:
  "flats [] = []" "flats (a # as) = flat a @ flats as" "flats (as @ bs) = flats as @ flats bs"
  by (simp_all add: flats_def)

lemma flat_nest: "flat (At_nest n as) = Nest_start n # flats as @ [Nest_end]"
  by (simp add: flats_def)

lemma flat_not_end: "flat a \<noteq> []" "hd (flat a) \<noteq> Nest_end"
  by (cases a; simp)+

text \<open>What is behind an attribute does not matter for reading it.\<close>

lemma flats_prefix:
  assumes "\<And>a b x y. a \<in> set as \<Longrightarrow> flat a @ x = flat b @ y \<Longrightarrow> a = b \<and> x = y"
    and "flats as @ Nest_end # x = flats bs @ Nest_end # y"
  shows "as = bs \<and> x = y"
  using assms
proof (induction as arbitrary: bs)
  case Nil
  show ?case
  proof (cases bs)
    case (Cons b bs')
    then show ?thesis using Nil.prems(2) flat_not_end [of b] by (cases "flat b") auto
  qed (use Nil.prems(2) in simp)
next
  case (Cons a as)
  show ?case
  proof (cases bs)
    case Nil
    then show ?thesis using Cons.prems(2) flat_not_end [of a] by (cases "flat a") auto
  next
    case (Cons b bs')
    then have "flat a @ (flats as @ Nest_end # x) = flat b @ (flats bs' @ Nest_end # y)" using Cons.prems(2) by simp
    from Cons.prems(1) [OF _ this] have ab: "a = b" and r: "flats as @ Nest_end # x = flats bs' @ Nest_end # y" by simp_all
    have "as = bs' \<and> x = y" by (rule Cons.IH [OF _ r]) (rule Cons.prems(1), simp_all)
    then show ?thesis using Cons ab by simp
  qed
qed

lemma flat_prefix: "flat a @ x = flat b @ y \<Longrightarrow> a = b \<and> x = y"
proof (induction a arbitrary: b x y)
  case (At_nest n as)
  then obtain bs where b: "b = At_nest n bs" and e: "flats as @ Nest_end # x = flats bs @ Nest_end # y"
    by (cases b) (auto simp: flats_def)
  have "as = bs \<and> x = y" by (rule flats_prefix [OF _ e]) (rule At_nest.IH)
  then show ?case using b by simp
qed (case_tac b; simp)+

lemma flats_inject: "flats as = flats bs \<longleftrightarrow> as = bs"
  using flats_prefix [OF flat_prefix, of as "[]" bs "[]"] by auto

end
