(* ===== verification/Iw_Join.thy ===== *)
theory Iw_Join
  imports Iw_Cmd Iw_Bitrate
begin

unbundle bit_operations_syntax

text \<open>
  Joining a network: \<open>wifi_tools/iw/connect.c\<close> (\<open>connect\<close>, \<open>disconnect\<close>, \<open>auth\<close>), \<open>ibss.c\<close>, and the part of
  \<open>event.c\<close> that waits for an event.  A handler reads its arguments from the left and puts attributes
  into the message; an argument that is not there is a null pointer.  The printer of an event (that of Iw_Event) is a
  parameter, and so is the reading and rounding of \<open>float\<close> numbers.
\<close>

subsection \<open>Arguments and attributes\<close>

definition NL80211_ATTR_MAC :: nat where "NL80211_ATTR_MAC = 6"
definition NL80211_ATTR_BEACON_INTERVAL :: nat where "NL80211_ATTR_BEACON_INTERVAL = 12"
definition NL80211_ATTR_BSS_BASIC_RATES :: nat where "NL80211_ATTR_BSS_BASIC_RATES = 36"
definition NL80211_ATTR_WIPHY_FREQ :: nat where "NL80211_ATTR_WIPHY_FREQ = 38"
definition NL80211_ATTR_WIPHY_CHANNEL_TYPE :: nat where "NL80211_ATTR_WIPHY_CHANNEL_TYPE = 39"
definition NL80211_ATTR_SSID :: nat where "NL80211_ATTR_SSID = 52"
definition NL80211_ATTR_AUTH_TYPE :: nat where "NL80211_ATTR_AUTH_TYPE = 53"
definition NL80211_ATTR_FREQ_FIXED :: nat where "NL80211_ATTR_FREQ_FIXED = 60"
definition NL80211_ATTR_MCAST_RATE :: nat where "NL80211_ATTR_MCAST_RATE = 107"
definition NL80211_ATTR_CHANNEL_WIDTH :: nat where "NL80211_ATTR_CHANNEL_WIDTH = 159"
definition NL80211_ATTR_CENTER_FREQ1 :: nat where "NL80211_ATTR_CENTER_FREQ1 = 160"

definition NL80211_CMD_AUTHENTICATE :: nat where "NL80211_CMD_AUTHENTICATE = 37"
definition NL80211_CMD_JOIN_IBSS :: nat where "NL80211_CMD_JOIN_IBSS = 43"
definition NL80211_CMD_LEAVE_IBSS :: nat where "NL80211_CMD_LEAVE_IBSS = 44"
definition NL80211_CMD_CONNECT :: nat where "NL80211_CMD_CONNECT = 46"
definition NL80211_CMD_DISCONNECT :: nat where "NL80211_CMD_DISCONNECT = 48"

type_synonym 'w outcome = "('w, int \<times> nl_msg \<times> 'w valid_cb) iw"

definition result :: "int \<Rightarrow> nl_msg \<Rightarrow> 'w outcome" where
  "result r msg = ret (r, msg, no_cb)"

text \<open>A handler of a command with a message: the null pointer is never read.\<close>

definition with_msg :: "nl_msg option \<Rightarrow> (nl_msg \<Rightarrow> 'w outcome) \<Rightarrow> 'w outcome" where
  "with_msg msg k = (case msg of None \<Rightarrow> undef_p | Some msg \<Rightarrow> k msg)"

text \<open>\<open>NLA_PUT\<close> in a row, with the error code of the label \<open>nla_put_failure\<close>.\<close>

definition put :: "'w netlink \<Rightarrow> int \<Rightarrow> nla list \<Rightarrow> nl_msg \<Rightarrow> (nl_msg \<Rightarrow> 'w outcome) \<Rightarrow> 'w outcome" where
  "put E code as msg k =
     (case put_all (n_fits E) as msg of Inl _ \<Rightarrow> result (- code) msg | Inr msg \<Rightarrow> k msg)"

lemma put_fits: "(\<And>m. n_fits E m) \<Longrightarrow> put E code as msg k = k (msg @ as)"
  by (simp add: put_def put_all_fits)

definition key_explanation :: string where
  "key_explanation = line ''key must be [d:]index:data where'' @
     line (''  '' @ quoted ''d:'' @ ''     means default (transmit) key'') @
     line (''  '' @ quoted ''index:'' @ '' is a single digit (0-3)'') @
     line (''  '' @ quoted ''data'' @ ''   must be 5 or 13 ascii chars'') @
     line ''           or 10 or 26 hex digits'' @
     line ''for example: d:2:6162636465 is the same as d:2:abcde''"

definition keys_result :: "'w netlink \<Rightarrow> string list \<Rightarrow> nl_msg \<Rightarrow> 'w outcome" where
  "keys_result E argv msg =
     (case parse_keys (n_fits E) argv msg of
        Inl e \<Rightarrow> then_p (if e = 2 then eprint key_explanation else ret ()) (result e msg)
      | Inr msg \<Rightarrow> result 0 msg)"

text \<open>The optional arguments that several commands share.\<close>

definition take_freq :: "'w netlink \<Rightarrow> string list \<Rightarrow> nl_msg \<Rightarrow> (string list \<Rightarrow> nl_msg \<Rightarrow> 'w outcome) \<Rightarrow> 'w outcome" where
  "take_freq E argv msg k =
     (case argv of [] \<Rightarrow> k argv msg
      | a # r \<Rightarrow>
          (case strtoul a 10 of (freq, end) \<Rightarrow>
             if end \<noteq> [] then k argv msg
             else put E ENOSPC [Nla_u32 NL80211_ATTR_WIPHY_FREQ (word_of_int freq)] msg (k r)))"

text \<open>\<open>mac_addr_a2n\<close> cuts its argument in place: a word that is no address is left with what was before its first colon.\<close>

definition take_bssid :: "'w netlink \<Rightarrow> string list \<Rightarrow> nl_msg \<Rightarrow> (string list \<Rightarrow> nl_msg \<Rightarrow> 'w outcome) \<Rightarrow> 'w outcome" where
  "take_bssid E argv msg k =
     (case argv of [] \<Rightarrow> k argv msg
      | a # r \<Rightarrow>
          (case mac_addr_a2n (replicate ETH_ALEN 0) a of (res, bssid) \<Rightarrow>
             if res \<noteq> 0 then k (takeWhile (\<lambda>c. c \<noteq> CHR '':'') a # r) msg
             else put E ENOSPC [Nla_bytes NL80211_ATTR_MAC bssid] msg (k r)))"

definition take_keys :: "'w netlink \<Rightarrow> string list \<Rightarrow> nl_msg \<Rightarrow> 'w outcome" where
  "take_keys E argv msg =
     (case argv of [] \<Rightarrow> result 0 msg
      | a # r \<Rightarrow> if a \<noteq> ''key'' \<and> a \<noteq> ''keys'' then result 1 msg else keys_result E r msg)"

subsection \<open>connect\<close>

definition iw_conn :: "'w netlink \<Rightarrow> 'w iw_handler" where
  "iw_conn E again msg argv idby = with_msg msg (\<lambda>msg.
     case argv of [] \<Rightarrow> result 1 msg
     | ssid # argv \<Rightarrow>
         put E ENOSPC [Nla_bytes NL80211_ATTR_SSID (bytes_of ssid)] msg (\<lambda>msg.
         take_freq E argv msg (\<lambda>argv msg.
         take_bssid E argv msg (\<lambda>argv msg.
         take_keys E argv msg))))"

definition no_change :: "'w iw_handler" where
  "no_change again msg argv idby = with_msg msg (\<lambda>msg. result 0 msg)"

text \<open>Waiting for events (\<open>event.c\<close>).\<close>

fun join_groups :: "'w netlink \<Rightarrow> string list \<Rightarrow> ('w, int) iw" where
  "join_groups E [] = ret 0"
| "join_groups E (g # gs) =
     bind_p (nl_get_multicast_id E ''nl80211'' g) (\<lambda>mcid.
     if mcid < 0 then join_groups E gs
     else bind_p (sys (n_join E mcid)) (\<lambda>r. if r \<noteq> 0 then ret r else join_groups E gs))"

definition prepare_listen_events :: "'w netlink \<Rightarrow> ('w, int) iw" where
  "prepare_listen_events E =
     bind_p (nl_get_multicast_id E ''nl80211'' ''config'') (\<lambda>mcid.
     if mcid < 0 then ret mcid
     else bind_p (sys (n_join E mcid)) (\<lambda>r.
     if r \<noteq> 0 then ret r else join_groups E [''scan'', ''regulatory'', ''mlme'', ''vendor'']))"

definition wait_event :: "(rx_msg \<Rightarrow> ('w, unit) iw) \<Rightarrow> nat list \<Rightarrow> rx_msg \<Rightarrow> nat \<Rightarrow> ('w, nat) iw" where
  "wait_event pr waits m cmd =
     then_p (for_p (filter (\<lambda>c. c = rx_cmd m) waits) (\<lambda>_. pr m))
       (ret (if rx_cmd m \<in> set waits then rx_cmd m else cmd))"

text \<open>Without handlers for them, acknowledgements and ends are passed over and an error ends the datagram.\<close>

fun listen_batch :: "(rx_msg \<Rightarrow> nat \<Rightarrow> ('w, nat) iw) \<Rightarrow> nl_event list \<Rightarrow> nat \<Rightarrow> ('w, nat) iw" where
  "listen_batch cb [] cmd = ret cmd"
| "listen_batch cb (Valid m # es) cmd = bind_p (cb m cmd) (\<lambda>cmd. listen_batch cb es cmd)"
| "listen_batch cb (Finish # es) cmd = listen_batch cb es cmd"
| "listen_batch cb (Ack # es) cmd = listen_batch cb es cmd"
| "listen_batch cb (Error e # es) cmd = ret cmd"

definition do_listen_events :: "'w netlink \<Rightarrow> (rx_msg \<Rightarrow> ('w, unit) iw) \<Rightarrow> nat list \<Rightarrow> ('w, nat) iw" where
  "do_listen_events E pr waits =
     bind_p (sys (n_cbs E)) (\<lambda>ok.
     if \<not> ok then then_p (eprint (line ''failed to allocate netlink callbacks'')) (ret (2 ^ 32 - nat ENOMEM))
     else while_p (\<lambda>cmd. cmd = 0)
       (\<lambda>cmd. bind_p (sys (n_recv E)) (\<lambda>es. listen_batch
          (if waits \<noteq> [] then wait_event pr waits else (\<lambda>m cmd. then_p (pr m) (ret cmd))) es cmd)) 0)"

definition iw_connect :: "'w netlink \<Rightarrow> (rx_msg \<Rightarrow> ('w, unit) iw) \<Rightarrow> 'w iw_handler" where
  "iw_connect E pr again msg argv idby =
     (case argv of
        dev # _ # argv \<Rightarrow>
          (case (if take 1 argv = [''-w''] then (True, tl argv) else (False, argv)) of (wait, argv) \<Rightarrow>
          bind_p (prepare_listen_events E) (\<lambda>err.
          if err \<noteq> 0 then result err [] else
          bind_p (sys (n_calloc E (3 + length argv))) (\<lambda>ok.
          if \<not> ok then result (- ENOMEM) [] else
          bind_p (again idby ([dev, ''connect'', ''establish''] @ argv)) (\<lambda>err.
          if err \<noteq> 0 then result err []
          else if \<not> wait then result 0 []
          else bind_p (do_listen_events E pr [NL80211_CMD_CONNECT]) (\<lambda>_. result 0 [])))))
      | _ \<Rightarrow> undef_p)"

definition iw_auth :: "'w netlink \<Rightarrow> 'w iw_handler" where
  "iw_auth E again msg argv idby = with_msg msg (\<lambda>msg.
     case argv of ssid # bssid # type # freq # argv \<Rightarrow>
       put E ENOSPC [Nla_bytes NL80211_ATTR_SSID (bytes_of ssid)] msg (\<lambda>msg.
       case mac_addr_a2n (replicate ETH_ALEN 0) bssid of (res, mac) \<Rightarrow>
       if res \<noteq> 0 then result 1 msg else
       put E ENOSPC [Nla_bytes NL80211_ATTR_MAC mac] msg (\<lambda>msg.
       if type \<noteq> ''open'' \<and> type \<noteq> ''shared'' then result 1 msg else
       let need_key = (type = ''shared'') in
       put E ENOSPC [Nla_u32 NL80211_ATTR_AUTH_TYPE (if need_key then 1 else 0)] msg (\<lambda>msg.
       case strtoul freq 10 of (f, end) \<Rightarrow>
       if end \<noteq> [] then result 1 msg else
       put E ENOSPC [Nla_u32 NL80211_ATTR_WIPHY_FREQ (word_of_int f)] msg (\<lambda>msg.
       if (argv = []) = need_key then result 1 msg
       else take_keys E argv msg))))
     | _ \<Rightarrow> result 1 msg)"

text \<open>The entries of the table.\<close>

definition disconnect_cmd :: "'w cmd" where
  "disconnect_cmd = TOPLEVEL ''disconnect'' None NL80211_CMD_DISCONNECT 0 CIB_NETDEV (Some no_change)
     ''Disconnect from the current network.''"

definition connect_cmd :: "'w netlink \<Rightarrow> (rx_msg \<Rightarrow> ('w, unit) iw) \<Rightarrow> 'w cmd" where
  "connect_cmd E pr = TOPLEVEL ''connect'' (Some ''[-w] <SSID> [<freq in MHz>] [<bssid>] [key 0:abcde d:1:6162636465]'')
     0 0 CIB_NETDEV (Some (iw_connect E pr))
     (line ''Join the network with the given SSID (and frequency, BSSID).'' @
      ''With -w, wait for the connect to finish or fail.'')"

definition establish_cmd :: "'w netlink \<Rightarrow> 'w cmd" where
  "establish_cmd E = HIDDEN ''connect'' ''establish'' ''establish'' (Some '''') NL80211_CMD_CONNECT 0 CIB_NETDEV (iw_conn E)"

definition auth_cmd :: "'w netlink \<Rightarrow> 'w cmd" where
  "auth_cmd E = TOPLEVEL ''auth'' (Some ''<SSID> <bssid> <type:open|shared> <freq in MHz> [key 0:abcde d:1:6162636465]'')
     NL80211_CMD_AUTHENTICATE 0 CIB_NETDEV (Some (iw_auth E)) (line ''Authenticate with the given network.'')"

definition connect_cmds :: "'w netlink \<Rightarrow> (rx_msg \<Rightarrow> ('w, unit) iw) \<Rightarrow> 'w cmd list" where
  "connect_cmds E pr = [disconnect_cmd, connect_cmd E pr, establish_cmd E, auth_cmd E]"

subsection \<open>ibss\<close>

text \<open>The table of the channel modes: name, width, offset of the centre frequency, channel type.\<close>

definition chanmodes :: "(string \<times> nat \<times> int \<times> nat option) list" where
  "chanmodes = [(''HT20'', 1, 0, Some 1), (''HT40+'', 2, 10, Some 3), (''HT40-'', 2, -10, Some 2),
     (''NOHT'', 0, 0, Some 0), (''5MHZ'', 6, 0, None), (''10MHZ'', 7, 0, None)]"

definition NL80211_MAX_SUPP_RATES :: nat where "NL80211_MAX_SUPP_RATES = 32"

text \<open>
  The basic rates; \<open>strtof\<close> is \<open>strtod\<close> with the value rounded to \<open>float\<close>.  \<open>Inl None\<close> is what C
  leaves undefined, \<open>Inl (Some r)\<close> a return.
\<close>

function basic_rates :: "(string \<Rightarrow> dbl \<times> string) \<Rightarrow> string \<Rightarrow> 8 word list \<Rightarrow> int option + 8 word list" where
  "basic_rates strtof s rates =
     (if NL80211_MAX_SUPP_RATES \<le> length rates then Inr rates
      else (case strtok (CHR '','') s of None \<Rightarrow> Inr rates
      | Some (value, s) \<Rightarrow>
          (case strtof value of (rate, end) \<Rightarrow>
           case twice_u8 rate of None \<Rightarrow> Inl None
           | Some r \<Rightarrow>
               if end \<noteq> [] \<or> r = 0 \<or> (case rate of Fin q \<Rightarrow> 2 * q \<noteq> of_nat (unat r) | _ \<Rightarrow> True) then Inl (Some 1)
               else basic_rates strtof s (rates @ [r]))))"
  by pat_completeness auto
termination
  by (relation "measure (\<lambda>(f, s, rates). length s)") (auto dest: strtok_shorter)

declare basic_rates.simps [simp del]

text \<open>\<open>(int)(rate * 10)\<close>, with the product rounded to \<open>float\<close> by \<open>rnd\<close>.\<close>

definition ten_int :: "(rat \<Rightarrow> rat) \<Rightarrow> dbl \<Rightarrow> int option" where
  "ten_int rnd d =
     (case d of
        Fin r \<Rightarrow> (let i = (if rnd (r * 10) < 0 then \<lceil>rnd (r * 10)\<rceil> else \<lfloor>rnd (r * 10)\<rfloor>) in
          if - (2 ^ 31) \<le> i \<and> i < 2 ^ 31 then Some i else None)
      | _ \<Rightarrow> None)"

definition take_chanmode ::
  "'w netlink \<Rightarrow> int \<Rightarrow> (string \<times> nat \<times> int \<times> nat option) list \<Rightarrow> int \<Rightarrow> string list \<Rightarrow> nl_msg \<Rightarrow> (string list \<Rightarrow> nl_msg \<Rightarrow> 'w outcome) \<Rightarrow> 'w outcome" where
  "take_chanmode E code modes freq argv msg k =
     (case argv of [] \<Rightarrow> k argv msg
      | a # r \<Rightarrow>
          (case find (\<lambda>(name, _). strcasecmp_eq name a) modes of
             None \<Rightarrow> k argv msg
           | Some (_, width, diff, chantype) \<Rightarrow>
               put E code
                 ([Nla_u32 NL80211_ATTR_CHANNEL_WIDTH (word_of_nat width),
                   Nla_u32 NL80211_ATTR_CENTER_FREQ1 (word_of_int (freq + diff))] @
                  (case chantype of None \<Rightarrow> [] | Some t \<Rightarrow> [Nla_u32 NL80211_ATTR_WIPHY_CHANNEL_TYPE (word_of_nat t)]))
                 msg (k r)))"

definition take_fixed :: "'w netlink \<Rightarrow> string list \<Rightarrow> nl_msg \<Rightarrow> (string list \<Rightarrow> nl_msg \<Rightarrow> 'w outcome) \<Rightarrow> 'w outcome" where
  "take_fixed E argv msg k =
     (if take 1 argv = [''fixed-freq''] then put E ENOSPC [Nla_flag NL80211_ATTR_FREQ_FIXED] msg (k (tl argv))
      else k argv msg)"

definition take_number ::
  "'w netlink \<Rightarrow> int \<Rightarrow> string \<Rightarrow> nat \<Rightarrow> string list \<Rightarrow> nl_msg \<Rightarrow> (string list \<Rightarrow> nl_msg \<Rightarrow> 'w outcome) \<Rightarrow> 'w outcome" where
  "take_number E code keyw attr argv msg k =
     (case argv of
        w # a # r \<Rightarrow>
          if w \<noteq> keyw then k argv msg
          else (case strtoul a 10 of (v, end) \<Rightarrow>
            if end \<noteq> [] then result 1 msg
            else put E code [Nla_u32 attr (word_of_int v)] msg (k r))
      | _ \<Rightarrow> k argv msg)"

definition take_rates ::
  "'w netlink \<Rightarrow> int \<Rightarrow> (string \<Rightarrow> dbl \<times> string) \<Rightarrow> string list \<Rightarrow> nl_msg \<Rightarrow> (string list \<Rightarrow> nl_msg \<Rightarrow> 'w outcome) \<Rightarrow> 'w outcome" where
  "take_rates E code strtof argv msg k =
     (case argv of
        w # a # r \<Rightarrow>
          if w \<noteq> ''basic-rates'' then k argv msg
          else (case basic_rates strtof a [] of
            Inl None \<Rightarrow> undef_p
          | Inl (Some e) \<Rightarrow> result e msg
          | Inr rates \<Rightarrow> put E code [Nla_bytes NL80211_ATTR_BSS_BASIC_RATES rates] msg (k r))
      | _ \<Rightarrow> k argv msg)"

definition take_mcast ::
  "'w netlink \<Rightarrow> int \<Rightarrow> (string \<Rightarrow> dbl \<times> string) \<Rightarrow> (rat \<Rightarrow> rat) \<Rightarrow> string list \<Rightarrow> nl_msg \<Rightarrow>
     (string list \<Rightarrow> nl_msg \<Rightarrow> 'w outcome) \<Rightarrow> 'w outcome" where
  "take_mcast E code strtof rnd argv msg k =
     (case argv of
        w # a # r \<Rightarrow>
          if w \<noteq> ''mcast-rate'' then k argv msg
          else (case strtof a of (rate, end) \<Rightarrow>
            if end \<noteq> [] then result 1 msg
            else (case ten_int rnd rate of None \<Rightarrow> undef_p
              | Some i \<Rightarrow> put E code [Nla_u32 NL80211_ATTR_MCAST_RATE (word_of_int i)] msg (k r)))
      | _ \<Rightarrow> k argv msg)"

definition join_ibss :: "'w netlink \<Rightarrow> (string \<Rightarrow> dbl \<times> string) \<Rightarrow> (rat \<Rightarrow> rat) \<Rightarrow> 'w iw_handler" where
  "join_ibss E strtof rnd again msg argv idby = with_msg msg (\<lambda>msg.
     case argv of ssid # f # argv \<Rightarrow>
       put E ENOSPC [Nla_bytes NL80211_ATTR_SSID (bytes_of ssid)] msg (\<lambda>msg.
       case strtoul f 10 of (freq, end) \<Rightarrow>
       if end \<noteq> [] then result 1 msg else
       put E ENOSPC [Nla_u32 NL80211_ATTR_WIPHY_FREQ (word_of_int freq)] msg (\<lambda>msg.
       take_chanmode E ENOSPC chanmodes freq argv msg (\<lambda>argv msg.
       take_fixed E argv msg (\<lambda>argv msg.
       take_bssid E argv msg (\<lambda>argv msg.
       take_number E ENOSPC ''beacon-interval'' NL80211_ATTR_BEACON_INTERVAL argv msg (\<lambda>argv msg.
       take_rates E ENOSPC strtof argv msg (\<lambda>argv msg.
       take_mcast E ENOSPC strtof rnd argv msg (\<lambda>argv msg.
       take_keys E argv msg))))))))
     | _ \<Rightarrow> result 1 msg)"

definition ibss_cmds :: "'w netlink \<Rightarrow> (string \<Rightarrow> dbl \<times> string) \<Rightarrow> (rat \<Rightarrow> rat) \<Rightarrow> 'w cmd list" where
  "ibss_cmds E strtof rnd =
     [SECTION ''ibss'',
      COMMAND ''ibss'' ''leave'' ''leave'' None NL80211_CMD_LEAVE_IBSS 0 CIB_NETDEV no_change ''Leave the current IBSS cell.'',
      COMMAND ''ibss'' ''join'' ''join''
        (Some (''<SSID> <freq in MHz> [HT20|HT40+|HT40-|NOHT|5MHZ|10MHZ] [fixed-freq] [<fixed bssid>] [beacon-interval <TU>]'' @
               '' [basic-rates <rate in Mbps,rate2,...>] [mcast-rate <rate in Mbps>] '' @ ''[key d:0:abcde]''))
        NL80211_CMD_JOIN_IBSS 0 CIB_NETDEV (join_ibss E strtof rnd)
        (line (''Join the IBSS cell with the given SSID, if it doesn'' @ [CHR 0x27] @ ''t exist create'') @
         line (''it on the given frequency. When fixed frequency is requested, don'' @ [CHR 0x27] @ ''t'') @
         line ''join/create a cell on a different frequency. When a fixed BSSID is'' @
         line (''requested use that BSSID and do not adopt another cell'' @ [CHR 0x27] @ ''s BSSID even'') @
         line ''if it has higher TSF and the same SSID. If an IBSS is created, create'' @
         ''it with the specified basic-rates, multicast-rate and beacon-interval.'')]"

subsection \<open>The group of a family\<close>

lemma bytes_text: "map (\<lambda>b. char_of (unat b) :: char) (bytes_of s) = s"
proof -
  have "char_of (unat (word_of_nat (ord c) :: 8 word)) = c" for c :: char
    by (simp add: unat_of_nat)
  then show ?thesis by (simp add: bytes_of_def o_def)
qed

lemma name_matches_text:
  assumes "NUL \<notin> set n" "NUL \<notin> set g"
  shows "name_matches (bytes_of n @ [0]) g \<longleftrightarrow> n = g"
proof -
  have "char_of (unat (0 :: 8 word)) = NUL" by (simp add: NUL_def char_of_def)
  then have t: "takeWhile (\<lambda>c. c \<noteq> NUL) (map (\<lambda>b. char_of (unat b)) (bytes_of n @ [0])) = n"
    using assms(1) by (simp add: bytes_text token_split)
  have l: "length (bytes_of n) = length n" by (simp add: bytes_of_def)
  have "take (Suc (length n)) n = take (Suc (length n)) g \<longleftrightarrow> n = g"
  proof
    assume a: "take (Suc (length n)) n = take (Suc (length n)) g"
    then have "length (take (Suc (length n)) g) = length n" by (metis take_all le_Suc_eq le_refl)
    then have "length g = length n" by (simp add: min_def split: if_splits)
    with a show "n = g" by simp
  qed simp
  then show ?thesis using t l by (simp add: name_matches_def Let_def strncmp_eq_def)
qed

text \<open>The message with the groups of a family, as the kernel sends it.\<close>

definition group_attr :: "string \<times> 32 word \<Rightarrow> nlattr" where
  "group_attr = (\<lambda>(n, i). At_nest 1 [At_bytes CTRL_ATTR_MCAST_GRP_NAME (bytes_of n @ [0]), At_u32 CTRL_ATTR_MCAST_GRP_ID i])"

definition family_msg :: "(string \<times> 32 word) list \<Rightarrow> rx_msg" where
  "family_msg gs = \<lparr>rx_cmd = 1, rx_attrs = [At_nest CTRL_ATTR_MCAST_GROUPS (map group_attr gs)]\<rparr>"

lemma to_int_u32: "to_int (int (unat (i :: 32 word))) = int (unat i)" if "unat i < 2 ^ 31"
proof (rule to_int_id)
  show "- (2 ^ 31) \<le> int (unat i)" by (rule order_trans [of _ 0]) simp_all
  show "int (unat i) < 2 ^ 31" using that by (simp only: of_nat_less_numeral_power_cancel_iff)
qed

lemma find_group_lookup:
  assumes "NUL \<notin> set g" "list_all (\<lambda>(n, i). NUL \<notin> set n \<and> unat i < 2 ^ 31) gs"
  shows "find_group g (map group_attr gs) d = ret (case map_of gs g of None \<Rightarrow> d | Some i \<Rightarrow> int (unat i))"
  using assms(2)
proof (induction gs)
  case (Cons a gs)
  obtain n i where a: "a = (n, i)" by (cases a)
  have "to_int (int (unat i)) = int (unat i)" using Cons.prems a by (intro to_int_u32) simp
  then show ?case using Cons a assms(1)
    by (simp add: group_attr_def nla_gets nla_tb_def CTRL_ATTR_MCAST_GRP_NAME_def CTRL_ATTR_MCAST_GRP_ID_def
        name_matches_text Let_def)
qed simp

subsection \<open>A kernel that works\<close>

text \<open>
  Every call succeeds and every request is acknowledged, except that the controller answers one request only, that for the
  family \<open>nl80211\<close>, for which it sends the groups first.  \<open>sent\<close> reads the requests off the state of the world; no other call changes them.
\<close>

definition family_request :: "int \<Rightarrow> tx_msg" where
  "family_request ctrl = \<lparr>tx_family = ctrl, tx_cmd = CTRL_CMD_GETFAMILY, tx_flags = 0,
     tx_attrs = [Nla_bytes CTRL_ATTR_FAMILY_NAME (bytes_of ''nl80211'' @ [0])]\<rparr>"

definition answer :: "int \<Rightarrow> (string \<times> 32 word) list \<Rightarrow> tx_msg \<Rightarrow> nl_event list" where
  "answer ctrl gs m = (if tx_family m \<noteq> ctrl then [Ack]
     else if m = family_request ctrl then [Valid (family_msg gs), Ack] else [Error (- ENOENT)])"

definition answers_all :: "'w netlink \<Rightarrow> ('w \<Rightarrow> tx_msg list) \<Rightarrow> int \<Rightarrow> (string \<times> 32 word) list \<Rightarrow> bool" where
  "answers_all E sent ctrl gs \<longleftrightarrow>
     (\<forall>m w r w1 es w2. n_send E m w = (r, w1) \<longrightarrow> n_recv E w1 = (es, w2) \<longrightarrow> 0 \<le> r \<and> sent w2 = sent w @ [m] \<and>
        es = answer ctrl gs m)"

definition live_nl :: "'w netlink \<Rightarrow> ('w \<Rightarrow> tx_msg list) \<Rightarrow> int \<Rightarrow> int \<Rightarrow> (string \<times> 32 word) list \<Rightarrow> bool" where
  "live_nl E sent fam ctrl gs \<longleftrightarrow>
     (\<forall>w. fst (n_sock E w) \<and> sent (snd (n_sock E w)) = sent w) \<and>
     (\<forall>w. fst (n_connect E w) \<and> sent (snd (n_connect E w)) = sent w) \<and>
     (\<forall>w. fst (n_resolve E ''nl80211'' w) = fam \<and> sent (snd (n_resolve E ''nl80211'' w)) = sent w) \<and>
     (\<forall>w. fst (n_resolve E ''nlctrl'' w) = ctrl \<and> sent (snd (n_resolve E ''nlctrl'' w)) = sent w) \<and>
     (\<forall>w d. sent (snd (n_ifindex E d w)) = sent w) \<and>
     (\<forall>w. fst (n_alloc E w) \<and> sent (snd (n_alloc E w)) = sent w) \<and>
     (\<forall>w. fst (n_cbs E w) \<and> sent (snd (n_cbs E w)) = sent w) \<and>
     (\<forall>w n. fst (n_calloc E n w) \<and> sent (snd (n_calloc E n w)) = sent w) \<and>
     (\<forall>w i. fst (n_join E i w) = 0 \<and> sent (snd (n_join E i w)) = sent w) \<and>
     (\<forall>m. n_fits E m) \<and> 0 \<le> fam \<and> fam \<noteq> ctrl \<and>
     answers_all E sent ctrl gs"

lemma live_calls:
  assumes "live_nl E sent fam ctrl gs"
  shows "wp (sys (n_sock E)) Q0 X s \<longleftrightarrow> Q0 True (s\<lparr>world := snd (n_sock E (world s))\<rparr>)"
    and "wp (sys (n_connect E)) Q1 X s \<longleftrightarrow> Q1 True (s\<lparr>world := snd (n_connect E (world s))\<rparr>)"
    and "wp (sys (n_alloc E)) Q2 X s \<longleftrightarrow> Q2 True (s\<lparr>world := snd (n_alloc E (world s))\<rparr>)"
    and "wp (sys (n_cbs E)) Q3 X s \<longleftrightarrow> Q3 True (s\<lparr>world := snd (n_cbs E (world s))\<rparr>)"
    and "wp (sys (n_calloc E n)) Q4 X s \<longleftrightarrow> Q4 True (s\<lparr>world := snd (n_calloc E n (world s))\<rparr>)"
    and "wp (sys (n_join E i)) Q5 X s \<longleftrightarrow> Q5 0 (s\<lparr>world := snd (n_join E i (world s))\<rparr>)"
    and "wp (sys (n_resolve E ''nl80211'')) Q6 X s \<longleftrightarrow> Q6 fam (s\<lparr>world := snd (n_resolve E ''nl80211'' (world s))\<rparr>)"
    and "wp (sys (n_resolve E ''nlctrl'')) Q7 X s \<longleftrightarrow> Q7 ctrl (s\<lparr>world := snd (n_resolve E ''nlctrl'' (world s))\<rparr>)"
  using assms unfolding live_nl_def wp_sys by (simp_all add: split_beta)

lemma live_sent:
  assumes "live_nl E sent fam ctrl gs"
  shows "sent (snd (n_sock E w)) = sent w" "sent (snd (n_connect E w)) = sent w" "sent (snd (n_alloc E w)) = sent w"
    "sent (snd (n_cbs E w)) = sent w" "sent (snd (n_calloc E n w)) = sent w" "sent (snd (n_join E i w)) = sent w"
    "sent (snd (n_resolve E ''nl80211'' w)) = sent w" "sent (snd (n_resolve E ''nlctrl'' w)) = sent w"
    "n_fits E m" "0 \<le> fam" "sent (snd (n_ifindex E d w)) = sent w" "fam \<noteq> ctrl"
  using assms unfolding live_nl_def by simp_all

text \<open>A request and its answer.\<close>

lemma live_exchange:
  assumes l: "live_nl E sent fam ctrl gs" and m: "tx_family m = ctrl \<Longrightarrow> m = family_request ctrl"
    and run: "\<And>t. sent (world t) = sent (world s) @ [m] \<Longrightarrow> same_io t s \<Longrightarrow>
      wp (if tx_family m = ctrl then cb (family_msg gs) a else ret a) (\<lambda>a u. Q (0, a) u) X t"
  shows "wp (sys (n_send E m)) (\<lambda>r t. 0 \<le> r \<and> wp (recv_loop E fin cb a) Q X t) X' s"
proof -
  obtain r w1 es w2 where c: "n_send E m (world s) = (r, w1)" "n_recv E w1 = (es, w2)"
    by (cases "n_send E m (world s)"; cases "n_recv E (snd (n_send E m (world s)))") auto
  have a: "0 \<le> r" "sent w2 = sent (world s) @ [m]"
    "es = (if tx_family m = ctrl then [Valid (family_msg gs), Ack] else [Ack])"
    using l c m unfolding live_nl_def answers_all_def answer_def by (blast, blast, metis)
  let ?t = "s\<lparr>world := w2\<rparr>"
  have "wp (if tx_family m = ctrl then cb (family_msg gs) a else ret a) (\<lambda>a u. Q (0, a) u) X ?t"
    by (rule run) (simp_all add: a same_io_def)
  then have e: "wp (run_events fin cb es (1, a)) (\<lambda>y t. \<not> (case y of (err, a) \<Rightarrow> err > 0) \<and> Q y t) X ?t"
  proof (cases "tx_family m = ctrl")
    case True
    then have "wp (cb (family_msg gs) a) (\<lambda>a u. Q (0, a) u) X ?t"
      using \<open>wp (if _ then _ else _) _ X ?t\<close> by simp
    then have "wp (cb (family_msg gs) a) (\<lambda>a. wp (run_events fin cb [Ack] (1, a)) (\<lambda>y t. \<not> (case y of (err, a) \<Rightarrow> err > 0) \<and> Q y t) X) X ?t"
      by (rule wp_mono) (simp_all add: wp_ret)
    then show ?thesis unfolding a(3) if_P [OF True] by (simp add: wp_bind)
  next
    case False
    then show ?thesis using \<open>wp (if _ then _ else _) _ X ?t\<close> unfolding a(3) by (auto simp: wp_ret)
  qed
  have "wp (recv_loop E fin cb a) Q X (s\<lparr>world := w1\<rparr>)"
    unfolding recv_loop_def by (rule wp_while_once) (simp_all add: wp_bind wp_sys c e)
  then show ?thesis using a(1) by (simp add: wp_sys c)
qed

lemma live_request:
  assumes l: "live_nl E sent fam ctrl gs" and m: "tx_family m = ctrl \<Longrightarrow> m = family_request ctrl"
    and run: "\<And>t. sent (world t) = sent (world s) @ [m] \<Longrightarrow> same_io t s \<Longrightarrow>
      wp (if tx_family m = ctrl then cb (family_msg gs) a else ret a)
        (\<lambda>a. wp (h (0, a)) Q X) X t"
  shows "wp (sys (n_send E m)) (\<lambda>r. wp (if r < 0 then k r else bind_p (recv_loop E fin cb a) h) Q X) X s"
  by (rule wp_mono [OF live_exchange [OF l m, where Q = "\<lambda>x. wp (h x) Q X" and cb = cb and a = a and fin = fin and X = X and X' = X]])
    (simp_all add: run wp_bind)

lemma live_fits:
  assumes "live_nl E sent fam ctrl gs"
  shows "put_all (n_fits E) as m = Inr (m @ as)" "nla_put (n_fits E) a m = Some (m @ [a])"
  using live_sent(9) [OF assms] by (induction as arbitrary: m) (simp_all add: nla_put_def)

definition good_groups :: "(string \<times> 32 word) list \<Rightarrow> bool" where
  "good_groups gs \<longleftrightarrow> list_all (\<lambda>(n, i). NUL \<notin> set n \<and> unat i < 2 ^ 31) gs"

lemma multicast_id_wp:
  assumes l: "live_nl E sent fam ctrl gs" and g: "NUL \<notin> set g" "good_groups gs"
    and Q: "\<And>t. sent (world t) = sent (world s) @ [family_request ctrl] \<Longrightarrow> same_io t s \<Longrightarrow>
      Q (case map_of gs g of None \<Rightarrow> - ENOENT | Some i \<Rightarrow> int (unat i)) t"
  shows "wp (nl_get_multicast_id E ''nl80211'' g) Q X s"
proof -
  let ?r = "case map_of gs g of None \<Rightarrow> - ENOENT | Some i \<Rightarrow> int (unat i)"
  have h: "family_handler g (family_msg gs) (- ENOENT) = ret ?r"
    using g by (simp add: family_handler_def family_msg_def nla_tb_def nla_gets find_group_lookup good_groups_def)
  show ?thesis
    unfolding nl_get_multicast_id_def
    by (simp add: wp_simps live_calls [OF l] live_fits [OF l] family_request_def [symmetric])
      (rule live_request [OF l], simp, simp add: family_request_def h wp_simps, rule Q,
        simp_all add: family_request_def live_sent [OF l])
qed


text \<open>A kernel that keeps the requests it got; the device 3 has every name.\<close>

definition sim_nl :: "(string \<times> 32 word) list \<Rightarrow> tx_msg list netlink" where
  "sim_nl gs = null_netlink\<lparr>n_resolve := \<lambda>f. Pair (if f = ''nlctrl'' then 16 else 28), n_ifindex := \<lambda>_. Pair 3,
     n_send := \<lambda>m w. (0, w @ [m]),
     n_recv := \<lambda>w. (if w \<noteq> [] then answer 16 gs (last w) else [Ack], w)\<rparr>"

lemma sim_nl_live: "live_nl (sim_nl gs) (\<lambda>w. w) 28 16 gs"
  by (simp add: live_nl_def answers_all_def sim_nl_def null_netlink_def)

definition nl80211_groups :: "(string \<times> 32 word) list" where
  "nl80211_groups = [(''config'', 5), (''scan'', 6), (''regulatory'', 7), (''mlme'', 8)]"

lemma nl80211_groups_good: "good_groups nl80211_groups"
  by (simp add: good_groups_def nl80211_groups_def NUL_def)


subsection \<open>connect\<close>

lemma join_groups_wp:
  assumes l: "live_nl E sent fam ctrl gs" and g: "good_groups gs"
  shows "list_all (\<lambda>n. NUL \<notin> set n) ns \<Longrightarrow>
    (\<And>t. sent (world t) = sent (world s) @ replicate (length ns) (family_request ctrl) \<Longrightarrow> same_io t s \<Longrightarrow> Q 0 t) \<Longrightarrow> wp (join_groups E ns) Q X s"
proof (induction ns arbitrary: s)
  case (Cons n ns)
  have j: "wp (join_groups E ns) Q X t" if "sent (world t) = sent (world s) @ [family_request ctrl]" "same_io t s" for t
    by (rule Cons.IH) (use Cons.prems that in \<open>auto intro: same_io_trans\<close>)
  show ?case unfolding join_groups.simps wp_bind
    by (rule multicast_id_wp [OF l _ g])
      (use Cons.prems j in \<open>auto simp: wp_simps live_calls [OF l] live_sent [OF l] same_io_def split: option.splits\<close>)
qed (simp add: wp_ret same_io_def)

lemma prepare_listen_wp:
  assumes l: "live_nl E sent fam ctrl gs" and g: "good_groups gs" and c: "map_of gs ''config'' \<noteq> None"
    and Q: "\<And>t. sent (world t) = sent (world s) @ replicate 5 (family_request ctrl) \<Longrightarrow> same_io t s \<Longrightarrow> Q 0 t"
  shows "wp (prepare_listen_events E) Q X s"
proof -
  obtain i where i: "map_of gs ''config'' = Some i" using c by auto
  have five: "replicate 5 x = x # replicate (length [''scan'', ''regulatory'', ''mlme'', ''vendor'']) x" for x :: tx_msg
    by (simp add: numeral_eq_Suc)
  show ?thesis unfolding prepare_listen_events_def wp_bind
    by (rule multicast_id_wp [OF l _ g])
      (auto simp: NUL_def i wp_simps live_calls [OF l] live_sent [OF l] same_io_def
        simp del: join_groups.simps replicate.simps intro!: join_groups_wp [OF l g] Q [unfolded five])
qed

lemma a2n_n2a: "length m = ETH_ALEN \<Longrightarrow> mac_addr_a2n (replicate ETH_ALEN 0) (mac_addr_n2a m) = (0, m)"
  using mac.dec_enc [of m] by (auto simp: mac_dec_def split: prod.splits if_splits)

lemma strtoul_fmt_d: "n < 2 ^ 64 \<Longrightarrow> strtoul (fmt_d (int n)) 10 = (int n, [])"
  by (simp add: strtoul_def scan_num_fmt_d ULONG_MAX_def)

text \<open>The entry that words lead to when it is the only one of its kind.\<close>

lemma find_section_unique:
  assumes "c_parent c = None" "c_name c = sect"
    and "\<forall>d \<in> set as \<union> set bs. c_parent d \<noteq> None \<or> c_name d \<noteq> sect"
  shows "find_section (as @ c # bs) i sect = Some c"
proof -
  let ?f = "\<lambda>match d. if c_parent d \<noteq> None then match else if match \<noteq> None \<and> c_idby d \<noteq> i then match
    else if c_name d = sect then Some d else match"
  have "foldl ?f m xs = m" if "\<forall>d \<in> set xs. c_parent d \<noteq> None \<or> c_name d \<noteq> sect" for m xs
    using that by (induction xs) auto
  then have "foldl ?f None as = None" "foldl ?f (Some c) bs = Some c" using assms(3) by blast+
  then show ?thesis unfolding find_section_def foldl_append foldl.simps using assms(1,2) by simp
qed

lemma find_unique:
  assumes "P c" "\<forall>d \<in> set as. \<not> P d"
  shows "find P (as @ c # bs) = Some c"
  using assms by (induction as) auto

text \<open>Entries of other commands.\<close>

definition apart :: "string \<Rightarrow> 'w cmd list \<Rightarrow> bool" where
  "apart name tbl \<longleftrightarrow> list_all (\<lambda>d. (c_parent d \<noteq> None \<or> c_name d \<noteq> name) \<and> c_parent d \<noteq> Some (''__section_'' @ name)) tbl"

lemmas cmd_defs = disconnect_cmd_def connect_cmd_def establish_cmd_def auth_cmd_def TOPLEVEL_def HIDDEN_def COMMAND_def SECTION_def

lemma connect_section:
  assumes "apart ''connect'' as" "apart ''connect'' bs"
  shows "find_section (as @ connect_cmds E pr @ bs) i ''connect'' = Some (connect_cmd E pr)"
  using find_section_unique [of "connect_cmd E pr" "''connect''" "as @ [disconnect_cmd]" "[establish_cmd E, auth_cmd E] @ bs" i] assms
  by (auto simp: connect_cmds_def apart_def list_all_iff cmd_defs)

lemma connect_select:
  assumes "apart ''connect'' as" "apart ''connect'' bs" "ssid \<noteq> ''establish''"
  shows "select_cmd (as @ connect_cmds E pr @ bs) CIB_NETDEV ''connect'' (ssid # r) = Some (connect_cmd E pr, ssid # r)"
    and "select_cmd (as @ connect_cmds E pr @ bs) CIB_NETDEV ''connect'' (''establish'' # r) = Some (establish_cmd E, r)"
proof -
  have "find_command (as @ connect_cmds E pr @ bs) CIB_NETDEV (connect_cmd E pr) (ssid # r) = None"
    using assms by (auto simp: find_command_def find_None_iff connect_cmds_def apart_def list_all_iff cmd_defs)
  then show "select_cmd (as @ connect_cmds E pr @ bs) CIB_NETDEV ''connect'' (ssid # r) = Some (connect_cmd E pr, ssid # r)"
    by (simp add: select_cmd_def pick_cmd_def connect_section [OF assms(1,2)]) (simp add: cmd_defs idby_ok_def)
  have "find_command (as @ connect_cmds E pr @ bs) CIB_NETDEV (connect_cmd E pr) (''establish'' # r) = Some (establish_cmd E)"
    unfolding find_command_def list.case
    using find_unique [of "\<lambda>c. c_handler c \<noteq> None \<and> c_parent c = Some (c_sym (connect_cmd E pr)) \<and> idby_ok CIB_NETDEV c \<and>
                    c_name c = ''establish'' \<and> (r = [] \<or> c_args c \<noteq> None)" "establish_cmd E"
        "as @ [disconnect_cmd, connect_cmd E pr]" "auth_cmd E # bs"] assms
    by (auto simp: connect_cmds_def apart_def list_all_iff cmd_defs idby_ok_def)
  then show "select_cmd (as @ connect_cmds E pr @ bs) CIB_NETDEV ''connect'' (''establish'' # r) = Some (establish_cmd E, r)"
    by (simp add: select_cmd_def pick_cmd_def connect_section [OF assms(1,2)]) (simp add: cmd_defs)
qed

lemma iw_conn_wp:
  assumes l: "live_nl E sent fam ctrl gs" and m: "length mac = ETH_ALEN" "f < 2 ^ 32"
  shows "iw_conn E again (Some msg) [ssid, fmt_d (int f), mac_addr_n2a mac] idby =
    ret (0, msg @ [Nla_bytes NL80211_ATTR_SSID (bytes_of ssid), Nla_u32 NL80211_ATTR_WIPHY_FREQ (word_of_nat f),
      Nla_bytes NL80211_ATTR_MAC mac], no_cb)"
  using m by (simp add: iw_conn_def with_msg_def put_def live_fits [OF l] take_freq_def strtoul_fmt_d take_bssid_def
      a2n_n2a take_keys_def result_def)

text \<open>A command whose handler builds its message has it sent, once.\<close>

lemma run_cmd_sends:
  assumes l: "live_nl E sent fam ctrl gs" and c: "c_handler c = Some h" "c_cmd c \<noteq> 0"
    and h: "h again (Some dev) argv idby = ret (0, msg, cb)"
    and Q: "\<And>t. sent (world t) = sent (world s) @ [\<lparr>tx_family = fam, tx_cmd = c_cmd c, tx_flags = c_flags c, tx_attrs = msg\<rparr>] \<Longrightarrow>
      same_io t s \<Longrightarrow> Q 0 t"
  shows "wp (run_cmd again E fam c dev argv o_argv idby) Q X s"
  using c(2)
  by (simp add: run_cmd_def c(1) wp_simps live_calls [OF l] live_fits [OF l] h)
    (rule live_request [OF l], simp add: live_sent [OF l], simp add: wp_simps live_sent [OF l], rule Q, simp_all add: live_sent [OF l])

lemma handle_establish_wp:
  assumes l: "live_nl E sent fam ctrl gs" and t: "apart ''connect'' as" "apart ''connect'' bs"
    and d: "\<And>w. fst (n_ifindex E dev w) = ifi" "0 < ifi" and m: "length mac = ETH_ALEN" "f < 2 ^ 32"
    and Q: "\<And>t. same_io t s \<Longrightarrow> sent (world t) = sent (world s) @ [\<lparr>tx_family = fam, tx_cmd = NL80211_CMD_CONNECT, tx_flags = 0,
      tx_attrs = [Nla_u32 NL80211_ATTR_IFINDEX (word_of_nat ifi), Nla_bytes NL80211_ATTR_SSID (bytes_of ssid),
        Nla_u32 NL80211_ATTR_WIPHY_FREQ (word_of_nat f), Nla_bytes NL80211_ATTR_MAC mac]\<rparr>] \<Longrightarrow> Q 0 t"
  shows "wp (handle_cmd (Suc n) E fam (as @ connect_cmds E pr @ bs) II_NETDEV
      [dev, ''connect'', ''establish'', ssid, fmt_d (int f), mac_addr_n2a mac]) Q X s"
proof -
  have i: "wp (sys (n_ifindex E dev)) Q X s \<longleftrightarrow> Q ifi (s\<lparr>world := snd (n_ifindex E dev (world s))\<rparr>)" for Q X and s :: "('a, string) proc"
    by (simp add: wp_sys split_beta d(1))
  show ?thesis
    unfolding handle_cmd.simps handle_cmd_out_def identify_def
    using d(2) apply (simp add: wp_simps i connect_select [OF t, of "[]"])
    by (rule run_cmd_sends [OF l, where h = "iw_conn E", OF _ _ iw_conn_wp [OF l m]])
      (simp_all add: cmd_defs NL80211_CMD_CONNECT_def wp_simps, rule Q, simp_all add: dev_attr_def live_sent [OF l] NL80211_CMD_CONNECT_def)
qed

text \<open>
  C7.  \<open>iw dev DEV connect SSID FREQ BSSID\<close> runs two commands one inside the other: the one on the command line,
  which has no message, listens for events and hands its words on to the hidden \<open>establish\<close>.  What the
  kernel gets are the five lookups of the multicast groups and behind them one request \<open>NL80211_CMD_CONNECT\<close> with the device, the
  name, the frequency and the address that were asked for, and nothing else, in whatever place the commands stand in the table; and \<open>iw\<close>
  exits with 0.  The name is any but \<open>establish\<close> and \<open>-w\<close>, which are taken for words of the command, and the kernel has the group \<open>config\<close>.
\<close>

theorem connect_request:
  assumes l: "live_nl E sent fam ctrl gs" and g: "good_groups gs" "map_of gs ''config'' \<noteq> None"
    and t: "apart ''connect'' as" "apart ''connect'' bs" and s: "ssid \<noteq> ''establish''" "ssid \<noteq> ''-w''"
    and d: "\<And>w. fst (n_ifindex E dev w) = ifi" "0 < ifi" and m: "length mac = ETH_ALEN" "f < 2 ^ 32"
  shows "wp (iw_main E (as @ connect_cmds E pr @ bs) argv0 [''dev'', dev, ''connect'', ssid, fmt_d (int f), mac_addr_n2a mac])
    (\<lambda>r t. r = 0 \<and> same_io t s \<and> sent (world t) = sent (world s) @ replicate 5 (family_request ctrl) @
      [\<lparr>tx_family = fam, tx_cmd = NL80211_CMD_CONNECT, tx_flags = 0,
        tx_attrs = [Nla_u32 NL80211_ATTR_IFINDEX (word_of_nat ifi), Nla_bytes NL80211_ATTR_SSID (bytes_of ssid),
          Nla_u32 NL80211_ATTR_WIPHY_FREQ (word_of_nat f), Nla_bytes NL80211_ATTR_MAC mac]\<rparr>])
    (\<lambda>_ _. False) s"
proof -
  have i: "wp (sys (n_ifindex E dev)) Q X s \<longleftrightarrow> Q ifi (s\<lparr>world := snd (n_ifindex E dev (world s))\<rparr>)" for Q X and s :: "('a, string) proc"
    by (simp add: wp_sys split_beta d(1))
  have z: "c_handler (connect_cmd E pr) = Some (iw_connect E pr)" "c_cmd (connect_cmd E pr) = 0" by (simp_all add: cmd_defs)
  have f: "\<not> fam < 0" using live_sent(10) [OF l] by simp
  show ?thesis
    unfolding iw_main_def nl80211_init_def device_words_def handle_cmd_out_def identify_def run_cmd_def
    using d(2)
    by (simp add: wp_simps i connect_select(1) [OF t s(1)] live_calls [OF l] f z iw_connect_def s del: handle_cmd.simps)
      (rule prepare_listen_wp [OF l g], simp add: wp_simps live_calls [OF l] del: handle_cmd.simps,
        rule handle_establish_wp [OF l t d m], simp add: wp_simps result_def same_io_def live_sent [OF l])
qed

theorem connect_request_witness:
  "\<exists>t. iw_main (sim_nl nl80211_groups) (SECTION ''set'' # connect_cmds (sim_nl nl80211_groups) (\<lambda>_. ret ()) @ [help_cmd]) ''iw''
      [''dev'', ''wlan0'', ''connect'', ''guest'', ''2412'', ''00:11:22:33:44:55''] \<lparr>world = [], stdin = [], stdout = [], stderr = []\<rparr> =
    (Inr 0, t) \<and>
    world t = replicate 5 (family_request 16) @ [\<lparr>tx_family = 28, tx_cmd = NL80211_CMD_CONNECT, tx_flags = 0,
      tx_attrs = [Nla_u32 NL80211_ATTR_IFINDEX 3, Nla_bytes NL80211_ATTR_SSID [0x67, 0x75, 0x65, 0x73, 0x74],
        Nla_u32 NL80211_ATTR_WIPHY_FREQ 2412, Nla_bytes NL80211_ATTR_MAC [0, 0x11, 0x22, 0x33, 0x44, 0x55]]\<rparr>]"
proof -
  let ?s = "\<lparr>world = [], stdin = [], stdout = [], stderr = []\<rparr> :: (tx_msg list, string) proc"
  have x: "fmt_d (int 2412) = ''2412''" "mac_addr_n2a [0, 0x11, 0x22, 0x33, 0x44, 0x55] = ''00:11:22:33:44:55''"
    "bytes_of ''guest'' = [0x67, 0x75, 0x65, 0x73, 0x74]" by code_simp+
  have a: "apart ''connect'' [SECTION ''set'']" "apart ''connect'' [help_cmd]" by (simp_all add: apart_def cmd_defs help_cmd_def)
  show ?thesis
    using connect_request [OF sim_nl_live nl80211_groups_good _ a, where ssid = "''guest''" and dev = "''wlan0''" and ifi = 3 and f = 2412
      and mac = "[0, 0x11, 0x22, 0x33, 0x44, 0x55]" and s = ?s and pr = "\<lambda>_. ret ()" and ?argv0.0 = "''iw''"]
    unfolding x
    by (auto simp: nl80211_groups_def sim_nl_def null_netlink_def ETH_ALEN_def wp_def split: prod.splits sum.splits)
qed

text \<open>
  A network named \<open>establish\<close> cannot be joined: its name is taken for the name of the hidden command, which
  then misses the name of a network, and the usage is printed.
\<close>

lemma connect_establish_network:
  assumes "apart ''connect'' as" "apart ''connect'' bs"
  shows "select_cmd (as @ connect_cmds E pr @ bs) CIB_NETDEV ''connect'' [''establish''] = Some (establish_cmd E, []) \<and>
    iw_conn E again (Some msg) [] idby = ret (1, msg, no_cb)"
  using connect_select(2) [OF assms, of "[]" E pr "[]"] by (simp add: iw_conn_def with_msg_def result_def)

subsection \<open>The handlers are defined\<close>

definition sound_out :: "'w outcome \<Rightarrow> bool" where
  "sound_out m \<longleftrightarrow> gives {c. c \<noteq> Undef} m (\<lambda>(_, _, cb). \<forall>m. sound (cb m ()))"

lemma sound_result [intro!]: "sound_out (result r msg)"
  by (simp add: sound_out_def result_def gives_ret no_cb_def sound_def)

lemma sound_put [intro!]: "(\<And>m. sound_out (k m)) \<Longrightarrow> sound_out (put E code as msg k)"
  by (auto simp: put_def split: sum.splits)

lemma sound_then_out: "sound m \<Longrightarrow> sound_out k \<Longrightarrow> sound_out (then_p m k)"
  unfolding sound_out_def sound_def then_p_def by (rule gives_bindP)

lemma sound_bind_out: "sound m \<Longrightarrow> (\<And>x. sound_out (k x)) \<Longrightarrow> sound_out (bind_p m k)"
  unfolding sound_out_def sound_def by (rule gives_bindP)

lemma sound_basic: "sound (ret x)" "sound (print t)" "sound (eprint d)" "sound (sys f)"
  by (simp_all add: sound_def gives_ret gives_print gives_sys)

lemma sound_take [intro!]:
  "(\<And>a m. sound_out (k a m)) \<Longrightarrow> sound_out (take_freq E argv msg k)"
  "(\<And>a m. sound_out (k a m)) \<Longrightarrow> sound_out (take_bssid E argv msg k)"
  "sound_out (take_keys E argv msg)"
  by (auto simp: take_freq_def take_bssid_def take_keys_def keys_result_def sound_basic intro!: sound_then_out
      split: list.splits prod.splits sum.splits)

lemma sound_handlerI:
  assumes "c_cmd c \<noteq> 0" "\<And>again msg argv idby. sound_out (h again (Some msg) argv idby)"
  shows "sound_cmd c h"
  using assms by (auto simp: sound_cmd_def sound_out_def)

lemma sound_no_change [intro!]: "sound_out (no_change again (Some msg) argv idby)"
  by (auto simp: no_change_def with_msg_def)

lemma sound_iw_conn [intro!]: "sound_out (iw_conn E again (Some msg) argv idby)"
  by (auto simp: iw_conn_def with_msg_def split: list.splits)

lemma sound_iw_auth [intro!]: "sound_out (iw_auth E again (Some msg) argv idby)"
  by (auto simp: iw_auth_def with_msg_def Let_def split: list.splits prod.splits)

lemma sound_prepare:
  assumes "live_nl E sent fam ctrl gs" "good_groups gs" "map_of gs ''config'' \<noteq> None"
  shows "sound (prepare_listen_events E)"
  unfolding sound_def gives_def by (auto intro: prepare_listen_wp [OF assms])

lemma sound_listen:
  assumes "\<And>m. sound (pr m)"
  shows "sound (do_listen_events E pr waits)"
proof -
  define cb where "cb = (if waits \<noteq> [] then wait_event pr waits else (\<lambda>m cmd. then_p (pr m) (ret cmd)))"
  have cb: "gives {c. c \<noteq> Undef} (cb m cmd) (\<lambda>_. True)" for m cmd
    using assms by (auto simp: cb_def wait_event_def sound_def intro!: gives_then gives_ret gives_for)
  have "gives {c. c \<noteq> Undef} (listen_batch cb es cmd) (\<lambda>_. True)" for es cmd
  proof (induction es arbitrary: cmd)
    case (Cons e es)
    then show ?case by (cases e) (auto intro!: gives_bind gives_ret cb)
  qed (simp add: gives_ret)
  then show ?thesis unfolding sound_def do_listen_events_def cb_def [symmetric]
    by (intro gives_bind gives_sys gives_if gives_then gives_print gives_ret gives_while TrueI) auto
qed

lemma sound_iw_connect:
  assumes "sound (prepare_listen_events E)" "\<And>m. sound (pr m)"
  shows "sound_cmd (connect_cmd E pr) (iw_connect E pr)"
  unfolding sound_cmd_def
proof (intro allI impI)
  fix again :: "'a dispatch" and msg :: "nl_msg option" and argv idby
  assume ag: "\<forall>i av. cmd_words i av \<longrightarrow> sound (again i av)" and w: "msg = None \<longrightarrow> whole_words (connect_cmd E pr) idby argv"
    and "(msg = None) = (c_cmd (connect_cmd E pr) = 0)"
  then have w: "whole_words (connect_cmd E pr) idby argv" by (simp add: cmd_defs)
  then have "2 \<le> length argv" by (auto simp: whole_words_def kind_of_def idby_ok_def cmd_defs split: id_input.splits)
  then obtain dev x r where v: "argv = dev # x # r" by (cases argv; cases "tl argv") auto
  have "cmd_words idby ([dev, ''connect'', ''establish''] @ r')" for r' using w v by (auto simp: whole_words_def cmd_words_def)
  then have "sound (again idby ([dev, ''connect'', ''establish''] @ r'))" for r' using ag by blast
  then have "sound_out (iw_connect E pr again msg argv idby)"
    unfolding v iw_connect_def
    by (auto intro!: sound_bind_out assms sound_listen sound_basic split: prod.splits)
  then show "gives {c. c \<noteq> Undef} (iw_connect E pr again msg argv idby) (\<lambda>(_, _, cb). \<forall>m. sound (cb m ()))"
    by (simp add: sound_out_def)
qed

text \<open>The commands of \<open>connect.c\<close> are what the dispatch asks of a table, so \<open>iw\<close> with them is defined.\<close>

lemma sound_connect_cmds:
  assumes "sound (prepare_listen_events E)" "\<And>m. sound (pr m)"
  shows "sound_table (connect_cmds E pr)"
proof -
  have "sound_cmd disconnect_cmd (no_change :: 'a iw_handler)" "sound_cmd (establish_cmd E) (iw_conn E)" "sound_cmd (auth_cmd E) (iw_auth E)"
    by (rule sound_handlerI; (rule sound_no_change sound_iw_conn sound_iw_auth |
          simp add: cmd_defs NL80211_CMD_DISCONNECT_def NL80211_CMD_CONNECT_def NL80211_CMD_AUTHENTICATE_def))+
  then show ?thesis using sound_iw_connect [of E pr] assms
    by (simp add: sound_table_def connect_cmds_def) (simp add: cmd_defs)
qed

theorem iw_main_defined_witness:
  "gives {c. c \<noteq> Undef} (iw_main (sim_nl nl80211_groups) (connect_cmds (sim_nl nl80211_groups) (\<lambda>_. ret ())) ''iw''
     [''phy#'', ''auth'', ''x'']) (\<lambda>_. True)"
proof -
  have "map_of nl80211_groups ''config'' \<noteq> None" by (simp add: nl80211_groups_def)
  then show ?thesis
    by (intro iw_main_defined sound_connect_cmds sound_prepare [OF sim_nl_live nl80211_groups_good]) (simp_all add: sound_basic)
qed

end
