(* ===== verification/Iw_Commands.thy ===== *)
theory Iw_Commands
  imports Iw_Join
begin

unbundle bit_operations_syntax

text \<open>
  Small commands of \<open>iw\<close>: \<open>p2p.c\<close>, \<open>roc.c\<close>, \<open>offch.c\<close>, \<open>cqm.c\<close>, \<open>ps.c\<close>, \<open>vendor.c\<close>, and the mesh paths of
  \<open>mpath.c\<close> and \<open>mpp.c\<close> (all in \<open>wifi_tools/iw\<close>).
\<close>

definition NL80211_ATTR_MPATH_NEXT_HOP :: nat where "NL80211_ATTR_MPATH_NEXT_HOP = 26"
definition NL80211_ATTR_MPATH_INFO :: nat where "NL80211_ATTR_MPATH_INFO = 27"
definition NL80211_ATTR_DURATION :: nat where "NL80211_ATTR_DURATION = 87"
definition NL80211_ATTR_PS_STATE :: nat where "NL80211_ATTR_PS_STATE = 93"
definition NL80211_ATTR_CQM :: nat where "NL80211_ATTR_CQM = 94"
definition NL80211_ATTR_VENDOR_ID :: nat where "NL80211_ATTR_VENDOR_ID = 195"
definition NL80211_ATTR_VENDOR_SUBCMD :: nat where "NL80211_ATTR_VENDOR_SUBCMD = 196"
definition NL80211_ATTR_VENDOR_DATA :: nat where "NL80211_ATTR_VENDOR_DATA = 197"
definition NL80211_ATTR_SCAN_FREQUENCIES :: nat where "NL80211_ATTR_SCAN_FREQUENCIES = 44"

definition NLM_F_DUMP :: nat where "NLM_F_DUMP = 0x300"

subsection \<open>Peer to peer, remain on channel, off channel\<close>

definition p2p_cmds :: "'w cmd list" where
  "p2p_cmds = [SECTION ''p2p'',
     COMMAND ''p2p'' ''p2p_start'' ''start'' (Some '''') 89 0 CIB_WDEV no_change '''',
     COMMAND ''p2p'' ''p2p_stop'' ''stop'' (Some '''') 90 0 CIB_WDEV no_change '''']"

definition roc_start :: "'w netlink \<Rightarrow> 'w iw_handler" where
  "roc_start E again msg argv idby = with_msg msg (\<lambda>msg.
     case argv of [a, b] \<Rightarrow>
       (case strtol a 0 of (freq, end) \<Rightarrow> if end \<noteq> [] then result 1 msg else
        (case strtol b 0 of (time, end) \<Rightarrow> if end \<noteq> [] then result 1 msg else
         put E ENOBUFS [Nla_u32 NL80211_ATTR_WIPHY_FREQ (word_of_int freq), Nla_u32 NL80211_ATTR_DURATION (word_of_int time)]
           msg (result 0)))
     | _ \<Rightarrow> result 1 msg)"

definition roc_cmds :: "'w netlink \<Rightarrow> 'w cmd list" where
  "roc_cmds E = [SECTION ''roc'',
     COMMAND ''roc'' ''roc_start'' ''start'' (Some ''<freq> <time in ms>'') 55 0 CIB_NETDEV (roc_start E) '''']"

text \<open>The number in the first argument, which is a null pointer when it is not there.\<close>

definition number_arg ::
  "'w netlink \<Rightarrow> nat \<Rightarrow> string list \<Rightarrow> nl_msg \<Rightarrow> (string list \<Rightarrow> nl_msg \<Rightarrow> 'w outcome) \<Rightarrow> 'w outcome" where
  "number_arg E attr argv msg k =
     (case argv of [] \<Rightarrow> undef_p
      | a # r \<Rightarrow>
          (case strtoul a 10 of (v, end) \<Rightarrow>
             put E ENOSPC [Nla_u32 attr (word_of_int v)] msg (\<lambda>msg. if end \<noteq> [] then result 1 msg else k r msg)))"

definition offchannel :: "'w netlink \<Rightarrow> 'w iw_handler" where
  "offchannel E again msg argv idby = with_msg msg (\<lambda>msg.
     number_arg E NL80211_ATTR_WIPHY_FREQ argv msg (\<lambda>argv msg.
     number_arg E NL80211_ATTR_DURATION argv msg (\<lambda>argv msg.
     if argv \<noteq> [] then result 1 msg else result 0 msg)))"

definition offchannel_cmd :: "'w netlink \<Rightarrow> 'w cmd" where
  "offchannel_cmd E = TOPLEVEL ''offchannel'' (Some ''<freq> <duration>'') 55 0 CIB_NETDEV (Some (offchannel E))
     ''Leave operating channel and go to the given channel for a while.''"

subsection \<open>Connection quality and power save\<close>

definition NL80211_ATTR_CQM_RSSI_THOLD :: nat where "NL80211_ATTR_CQM_RSSI_THOLD = 1"
definition NL80211_ATTR_CQM_RSSI_HYST :: nat where "NL80211_ATTR_CQM_RSSI_HYST = 2"

text \<open>\<open>nla_put_nested\<close>, whose result is ignored, adds the attributes of the inner message or nothing.\<close>

definition put_nested :: "'w netlink \<Rightarrow> nat \<Rightarrow> nl_msg \<Rightarrow> nl_msg \<Rightarrow> nl_msg" where
  "put_nested E n inner msg =
     (let m = msg @ [Nest_start n] @ inner @ [Nest_end] in if n_fits E m then m else msg)"

definition iw_cqm_rssi :: "'w netlink \<Rightarrow> 'w iw_handler" where
  "iw_cqm_rssi E again msg argv idby = with_msg msg (\<lambda>msg.
     if length argv < 1 \<or> length argv > 2 then result 1 msg else
     let off = (hd argv = ''off''); thold = (if off then 0 else atoi (hd argv));
         hyst = (if off \<or> length argv < 2 then 0 else atoi (argv ! 1)) in
     if \<not> off \<and> thold = 0 then result (- EINVAL) msg else
     bind_p (sys (n_alloc E)) (\<lambda>ok.
     if \<not> ok then undef_p else
     case put_all (n_fits E) [Nla_u32 NL80211_ATTR_CQM_RSSI_THOLD (word_of_int thold),
         Nla_u32 NL80211_ATTR_CQM_RSSI_HYST (word_of_int hyst)] [] of
       Inl _ \<Rightarrow> result (- ENOSPC) msg
     | Inr cqm \<Rightarrow> result 0 (put_nested E NL80211_ATTR_CQM cqm msg)))"

definition cqm_cmds :: "'w netlink \<Rightarrow> 'w cmd list" where
  "cqm_cmds E =
     [TOPLEVEL ''cqm'' (Some '''') 0 0 CIB_NETDEV None (line ''Configure the WLAN connection quality monitor.''),
      COMMAND ''cqm'' ''rssi'' ''rssi'' (Some ''<threshold|off> [<hysteresis>]'') 63 0 CIB_NETDEV (iw_cqm_rssi E)
        (line ''Set connection quality monitor RSSI threshold.'')]"

definition set_power_save :: "'w netlink \<Rightarrow> 'w iw_handler" where
  "set_power_save E again msg argv idby = with_msg msg (\<lambda>msg.
     case argv of [a] \<Rightarrow>
       if a \<noteq> ''on'' \<and> a \<noteq> ''off'' then then_p (print (line (''Invalid parameter: '' @ a))) (result 2 msg)
       else put E ENOBUFS [Nla_u32 NL80211_ATTR_PS_STATE (if a = ''on'' then 1 else 0)] msg (result 0)
     | _ \<Rightarrow> then_p (print (line ''Invalid parameters!'')) (result 2 msg))"

definition print_power_save :: "'w valid_cb" where
  "print_power_save m u =
     (case nla_tb (rx_attrs m) NL80211_ATTR_PS_STATE of
        None \<Rightarrow> ret ()
      | Some a \<Rightarrow> bind_p (nla_get_u32 (Some a)) (\<lambda>v.
          print (line (''Power save: '' @ (if v = 1 then ''on'' else ''off'')))))"

definition with_cb :: "'w valid_cb \<Rightarrow> nl_msg \<Rightarrow> 'w outcome" where
  "with_cb cb msg = ret (0, msg, cb)"

definition get_power_save :: "'w iw_handler" where
  "get_power_save again msg argv idby = with_msg msg (with_cb print_power_save)"

definition ps_cmds :: "'w netlink \<Rightarrow> 'w cmd list" where
  "ps_cmds E =
     [COMMAND ''set'' ''set_power_save'' ''power_save'' (Some ''<on|off>'') 61 0 CIB_NETDEV (set_power_save E)
        ''Set power save state to on or off.'',
      COMMAND ''get'' ''get_power_save'' ''power_save'' (Some ''<param>'') 62 0 CIB_NETDEV get_power_save
        ''Retrieve power save state.'']"

subsection \<open>Vendor commands\<close>

definition VENDOR_BUF :: nat where "VENDOR_BUF = 2048"

definition read_file :: "string \<Rightarrow> int + 8 word list" where
  "read_file content = (if VENDOR_BUF < length content then Inl (- EINVAL) else Inr (bytes_of content))"

text \<open>\<open>sscanf(s, "0x%x", &data)\<close> into an \<open>unsigned int\<close>.\<close>

definition sscanf_0x :: "string \<Rightarrow> 32 word option" where
  "sscanf_0x s = (if take 2 s = ''0x'' then map_option word_of_int (sscanf_x (drop 2 s)) else None)"

fun read_bytes :: "string list \<Rightarrow> 8 word list option" where
  "read_bytes [] = Some []"
| "read_bytes (a # r) =
     (case sscanf_0x a of None \<Rightarrow> None
      | Some data \<Rightarrow>
          if 0xff < data then None else (case read_bytes r of None \<Rightarrow> None | Some bs \<Rightarrow> Some (word_of_nat (unat data) # bs)))"

definition read_hex :: "string list \<Rightarrow> int + 8 word list" where
  "read_hex argv =
     (if VENDOR_BUF < length argv then Inl (- EINVAL)
      else (case read_bytes argv of None \<Rightarrow> Inl (- EINVAL) | Some bs \<Rightarrow> Inr bs))"

text \<open>Everything on the standard input.\<close>

definition read_stdin :: "('w, string option) iw" where
  "read_stdin s = (Inr (Some (stdin s)), s\<lparr>stdin := []\<rparr>)"

definition handle_vendor :: "'w netlink \<Rightarrow> 'w iw_handler" where
  "handle_vendor E again msg argv idby = with_msg msg (\<lambda>msg.
     case argv of oui # subcmd # data # r \<Rightarrow>
       (case sscanf_0x oui of None \<Rightarrow> result (- EINVAL) msg | Some oui \<Rightarrow>
       (case sscanf_0x subcmd of None \<Rightarrow> result (- EINVAL) msg | Some subcmd \<Rightarrow>
       bind_p (if data = ''-'' then read_stdin else sys (n_file E data)) (\<lambda>file.
       put E ENOBUFS [Nla_u32 NL80211_ATTR_VENDOR_ID oui, Nla_u32 NL80211_ATTR_VENDOR_SUBCMD subcmd] msg (\<lambda>msg.
       case (case file of Some content \<Rightarrow> read_file content | None \<Rightarrow> read_hex (data # r)) of
         Inl _ \<Rightarrow> result (- EINVAL) msg
       | Inr bs \<Rightarrow> if bs = [] then result 0 msg else put E ENOBUFS [Nla_bytes NL80211_ATTR_VENDOR_DATA bs] msg (result 0)))))
     | _ \<Rightarrow> result (- EINVAL) msg)"

definition vendor_cmds :: "'w netlink \<Rightarrow> 'w cmd list" where
  "vendor_cmds E = [SECTION ''vendor'',
     COMMAND ''vendor'' ''send'' ''send'' (Some ''<oui> <subcmd> <filename|-|hex data>'') 103 0 CIB_NETDEV (handle_vendor E) '''']"

subsection \<open>Mesh paths\<close>

definition MPATH_INFO_FRAME_QLEN :: nat where "MPATH_INFO_FRAME_QLEN = 1"
definition MPATH_INFO_SN :: nat where "MPATH_INFO_SN = 2"
definition MPATH_INFO_METRIC :: nat where "MPATH_INFO_METRIC = 3"
definition MPATH_INFO_EXPTIME :: nat where "MPATH_INFO_EXPTIME = 4"
definition MPATH_INFO_FLAGS :: nat where "MPATH_INFO_FLAGS = 5"
definition MPATH_INFO_DISCOVERY_TIMEOUT :: nat where "MPATH_INFO_DISCOVERY_TIMEOUT = 6"
definition MPATH_INFO_DISCOVERY_RETRIES :: nat where "MPATH_INFO_DISCOVERY_RETRIES = 7"

text \<open>
  \<open>nla_parse_nested\<close> with a policy: the types of which an attribute must be a number of 32 bits, and those of 8.
\<close>

definition policy_ok :: "nat list \<Rightarrow> nat list \<Rightarrow> nlattr list \<Rightarrow> bool" where
  "policy_ok u32s u8s as \<longleftrightarrow>
     list_all (\<lambda>a. (nla_type a \<in> set u32s \<longrightarrow> (case a of At_u32 _ _ \<Rightarrow> True | _ \<Rightarrow> False)) \<and>
                   (nla_type a \<in> set u8s \<longrightarrow> (case a of At_u8 _ _ \<Rightarrow> True | _ \<Rightarrow> False))) as"

text \<open>The address in an attribute, printed; fewer than six bytes are read past.\<close>

definition mac_text_of :: "nlattr option \<Rightarrow> ('w, string) iw" where
  "mac_text_of a = bind_p (nla_data a) (\<lambda>bs. if length bs < ETH_ALEN then undef_p else ret (mac_addr_n2a bs))"

text \<open>The name of the interface in a message; without one the buffer for it is printed as it is.\<close>

definition ifname_of :: "'w netlink \<Rightarrow> nlattr option \<Rightarrow> ('w, string) iw" where
  "ifname_of E a =
     bind_p (nla_get_u32 a) (\<lambda>i. bind_p (sys (n_ifname E i)) (\<lambda>r. case r of None \<Rightarrow> undef_p | Some dev \<Rightarrow> ret dev))"

definition opt_u32 :: "nlattr list \<Rightarrow> nat \<Rightarrow> ('w, string) iw" where
  "opt_u32 as n =
     (case nla_tb as n of None \<Rightarrow> ret ''''
      | Some a \<Rightarrow> bind_p (nla_get_u32 (Some a)) (\<lambda>v. ret (tb @ fmt_d (int v))))"

definition opt_u8 :: "nlattr list \<Rightarrow> nat \<Rightarrow> (nat \<Rightarrow> string) \<Rightarrow> ('w, string) iw" where
  "opt_u8 as n f =
     (case nla_tb as n of None \<Rightarrow> ret ''''
      | Some a \<Rightarrow> bind_p (nla_get_u8 (Some a)) (\<lambda>v. ret (tb @ f v)))"

definition print_mpath :: "'w netlink \<Rightarrow> 'w valid_cb" where
  "print_mpath E m u =
     (let as = rx_attrs m in
      case nla_tb as NL80211_ATTR_MPATH_INFO of
        None \<Rightarrow> eprint (line ''mpath info missing!'')
      | Some info \<Rightarrow>
      bind_p (nla_nested (Some info)) (\<lambda>pinfo.
      if \<not> policy_ok [MPATH_INFO_FRAME_QLEN, MPATH_INFO_SN, MPATH_INFO_METRIC, MPATH_INFO_EXPTIME, MPATH_INFO_DISCOVERY_TIMEOUT]
             [MPATH_INFO_DISCOVERY_RETRIES, MPATH_INFO_FLAGS] pinfo
      then eprint (line ''failed to parse nested attributes!'')
      else
      bind_p (mac_text_of (nla_tb as NL80211_ATTR_MAC)) (\<lambda>dst.
      bind_p (mac_text_of (nla_tb as NL80211_ATTR_MPATH_NEXT_HOP)) (\<lambda>next_hop.
      bind_p (ifname_of E (nla_tb as NL80211_ATTR_IFINDEX)) (\<lambda>dev.
      bind_p (opt_u32 pinfo MPATH_INFO_SN) (\<lambda>sn.
      bind_p (opt_u32 pinfo MPATH_INFO_METRIC) (\<lambda>metric.
      bind_p (opt_u32 pinfo MPATH_INFO_FRAME_QLEN) (\<lambda>qlen.
      bind_p (opt_u32 pinfo MPATH_INFO_EXPTIME) (\<lambda>exptime.
      bind_p (opt_u32 pinfo MPATH_INFO_DISCOVERY_TIMEOUT) (\<lambda>dtim.
      bind_p (opt_u8 pinfo MPATH_INFO_DISCOVERY_RETRIES (\<lambda>v. fmt_d (int v))) (\<lambda>dret.
      bind_p (opt_u8 pinfo MPATH_INFO_FLAGS (\<lambda>v. ''0x'' @ fmt_x v)) (\<lambda>flags.
      print (line (dst @ '' '' @ next_hop @ '' '' @ dev @ sn @ metric @ qlen @ exptime @ dtim @ dret @ flags))))))))))))))"

definition mpath_header :: string where
  "mpath_header = line (''DEST ADDR         NEXT HOP          IFACE'' @ tb @ ''SN'' @ tb @ ''METRIC'' @ tb @ ''QLEN'' @ tb @
     ''EXPTIME'' @ tb @ tb @ ''DTIM'' @ tb @ ''DRET'' @ tb @ ''FLAGS'')"

text \<open>An address argument, with the message for one that is none.\<close>

definition mac_arg :: "string \<Rightarrow> string \<Rightarrow> nl_msg \<Rightarrow> (8 word list \<Rightarrow> 'w outcome) \<Rightarrow> 'w outcome" where
  "mac_arg complaint a msg k =
     (case mac_addr_a2n (replicate ETH_ALEN 0) a of (r, mac) \<Rightarrow>
        if r \<noteq> 0 then then_p (eprint (line complaint)) (result 2 msg) else k mac)"

definition get_by_mac :: "'w netlink \<Rightarrow> 'w valid_cb \<Rightarrow> 'w iw_handler" where
  "get_by_mac E cb again msg argv idby = with_msg msg (\<lambda>msg.
     case argv of [] \<Rightarrow> result 1 msg
     | a # r \<Rightarrow> mac_arg ''invalid mac address'' a msg (\<lambda>dst.
         if r \<noteq> [] then result 1 msg
         else put E ENOBUFS [Nla_bytes NL80211_ATTR_MAC dst] msg (with_cb cb)))"

definition handle_mpath_get :: "'w netlink \<Rightarrow> 'w iw_handler" where
  "handle_mpath_get E = get_by_mac E (print_mpath E)"

definition handle_mpath_set :: "'w netlink \<Rightarrow> 'w iw_handler" where
  "handle_mpath_set E again msg argv idby = with_msg msg (\<lambda>msg.
     case argv of a # w # b # r \<Rightarrow>
       mac_arg ''invalid destination mac address'' a msg (\<lambda>dst.
       if w \<noteq> ''next_hop'' then result 1 msg else
       mac_arg ''invalid next hop mac address'' b msg (\<lambda>next_hop.
       if r \<noteq> [] then result 1 msg
       else put E ENOBUFS [Nla_bytes NL80211_ATTR_MAC dst, Nla_bytes NL80211_ATTR_MPATH_NEXT_HOP next_hop] msg
         (with_cb (print_mpath E))))
     | _ \<Rightarrow> result 1 msg)"

definition handle_mpath_dump :: "'w netlink \<Rightarrow> 'w iw_handler" where
  "handle_mpath_dump E again msg argv idby = with_msg msg (\<lambda>msg.
     then_p (print mpath_header) (with_cb (print_mpath E) msg))"

definition mpath_cmds :: "'w netlink \<Rightarrow> 'w cmd list" where
  "mpath_cmds E = [SECTION ''mpath'',
     COMMAND ''mpath'' ''mpath_get'' ''get'' (Some ''<MAC address>'') 21 0 CIB_NETDEV (handle_mpath_get E)
       ''Get information on mesh path to the given node.'',
     COMMAND ''mpath'' ''mpath_del'' ''del'' (Some ''<MAC address>'') 24 0 CIB_NETDEV (handle_mpath_get E)
       ''Remove the mesh path to the given node.'',
     COMMAND ''mpath'' ''mpath_new'' ''new'' (Some ''<destination MAC address> next_hop <next hop MAC address>'') 23 0 CIB_NETDEV
       (handle_mpath_set E) ''Create a new mesh path (instead of relying on automatic discovery).'',
     COMMAND ''mpath'' ''mpath_set'' ''set'' (Some ''<destination MAC address> next_hop <next hop MAC address>'') 22 0 CIB_NETDEV
       (handle_mpath_set E) (''Set an existing mesh path'' @ [CHR 0x27] @ ''s next hop.''),
     COMMAND ''mpath'' ''mpath_dump'' ''dump'' None 21 NLM_F_DUMP CIB_NETDEV (handle_mpath_dump E) ''List known mesh paths.'']"

definition print_mpp :: "'w netlink \<Rightarrow> 'w valid_cb" where
  "print_mpp E m u =
     (let as = rx_attrs m in
      bind_p (mac_text_of (nla_tb as NL80211_ATTR_MAC)) (\<lambda>dst.
      bind_p (mac_text_of (nla_tb as NL80211_ATTR_MPATH_NEXT_HOP)) (\<lambda>next_hop.
      bind_p (ifname_of E (nla_tb as NL80211_ATTR_IFINDEX)) (\<lambda>dev.
      print (line (dst @ '' '' @ next_hop @ '' '' @ dev))))))"

definition handle_mpp_get :: "'w netlink \<Rightarrow> 'w iw_handler" where
  "handle_mpp_get E = get_by_mac E (print_mpp E)"

definition handle_mpp_dump :: "'w netlink \<Rightarrow> 'w iw_handler" where
  "handle_mpp_dump E again msg argv idby = with_msg msg (\<lambda>msg.
     then_p (print (line ''DEST ADDR         PROXY NODE        IFACE'')) (with_cb (print_mpp E) msg))"

definition mpp_cmds :: "'w netlink \<Rightarrow> 'w cmd list" where
  "mpp_cmds E = [SECTION ''mpp'',
     COMMAND ''mpp'' ''mpp_get'' ''get'' (Some ''<MAC address>'') 107 0 CIB_NETDEV (handle_mpp_get E)
       ''Get information on mesh proxy path to the given node.'',
     COMMAND ''mpp'' ''mpp_dump'' ''dump'' None 107 NLM_F_DUMP CIB_NETDEV (handle_mpp_dump E) ''List known mesh proxy paths.'']"

subsection \<open>Properties\<close>

text \<open>
  The vendor commands carry the bytes that the user asks for, one by one, however they are given: as
  hexadecimal numbers, in a file, or on the standard input.
\<close>

lemma sscanf_0x_byte: "sscanf_0x (''0x'' @ fmt_0x 2 (unat b)) = Some (word_of_int (uint (b :: 8 word)))"
  by (simp add: sscanf_0x_def sscanf_x_def scan_hex2 strtoul_hex2 to_int_u8)

lemma read_bytes_hex: "read_bytes (map (\<lambda>b. ''0x'' @ fmt_0x 2 (unat b)) bs) = Some bs"
proof (induction bs)
  case (Cons b bs)
  have u: "\<not> 255 < uint b" using uint_u8_range [of b] by linarith
  have e: "uint (word_of_int (uint b) :: 32 word) = uint b" by (simp add: is_up uint_up_ucast)
  have "\<not> (0xff :: 32 word) < word_of_int (uint b)" unfolding word_less_alt e using u by simp
  moreover have "word_of_nat (unat (word_of_int (uint b) :: 32 word)) = b"
    by (metis e of_int_uint of_nat_unat word_of_int_uint)
  ultimately show ?case using Cons sscanf_0x_byte [of b] by simp
qed simp

text \<open>
  \<open>iw dev DEV offchannel\<close> without a frequency or without a duration reads the null pointer behind its
  arguments; with both it is defined.
\<close>

theorem offchannel_missing_argument:
  "(\<exists>t. offchannel E again (Some msg) argv idby s = (Inl Undef, t)) \<longleftrightarrow>
     argv = [] \<or> (\<exists>a. argv = [a] \<and> snd (strtoul a 10) = [] \<and> n_fits E (msg @ [Nla_u32 NL80211_ATTR_WIPHY_FREQ (word_of_int (fst (strtoul a 10)))]))"
  by (cases argv; cases "tl argv")
    (auto simp: offchannel_def with_msg_def number_arg_def put_def result_def nla_put_def run_defs split: prod.splits list.splits)

end
