(* ===== verification/Iw_Mesh.thy ===== *)
theory Iw_Mesh
  imports Iw_Tree Iw_Commands
begin

unbundle bit_operations_syntax

text \<open>
  Mesh networks: \<open>wifi_tools/iw/mesh.c\<close>.  The table of the mesh parameters refers to functions that put, parse and
  print a value; a pointer to one of them is its name here, and \<open>nla_put_fn\<close>, \<open>parse_fn\<close> and \<open>nla_print_fn\<close> call
  it.  The union \<open>_any\<close> is its 32 bits, with the smaller members in the low ones.  \<open>nomem\<close> is the error
  code of \<open>nla_put\<close> when there is no room.
\<close>

definition NL80211_ATTR_DTIM_PERIOD :: nat where "NL80211_ATTR_DTIM_PERIOD = 13"
definition NL80211_ATTR_MESH_ID :: nat where "NL80211_ATTR_MESH_ID = 24"
definition NL80211_ATTR_MESH_PARAMS :: nat where "NL80211_ATTR_MESH_PARAMS = 35"
definition NL80211_ATTR_MESH_SETUP :: nat where "NL80211_ATTR_MESH_SETUP = 112"
definition NL80211_MESH_SETUP_ENABLE_VENDOR_SYNC :: nat where "NL80211_MESH_SETUP_ENABLE_VENDOR_SYNC = 6"
definition NL80211_MESHCONF_POWER_MODE :: nat where "NL80211_MESHCONF_POWER_MODE = 26"

subsection \<open>Values\<close>

type_synonym any = "32 word"

datatype put_name = my_nla_put_u8 | my_nla_put_u16 | my_nla_put_u32
datatype parse_name = parse_u8 | parse_u8_as_bool | parse_u16 | parse_u32 | parse_s32 | parse_u32_power_mode
datatype print_name =
    print_u8 | print_u16 | print_u16_timeout | print_u16_in_TUs | print_u32 | print_u32_timeout
  | print_u32_in_seconds | print_u32_in_TUs | print_u32_power_mode | print_s32_in_dBm

fun nla_put_fn :: "put_name \<Rightarrow> nat \<Rightarrow> any \<Rightarrow> nla" where
  "nla_put_fn my_nla_put_u8 n v = Nla_u8 n (ucast v)"
| "nla_put_fn my_nla_put_u16 n v = Nla_u16 n (ucast v)"
| "nla_put_fn my_nla_put_u32 n v = Nla_u32 n v"

text \<open>\<open>Inl\<close> is a return value other than 0.\<close>

fun parse_fn :: "parse_name \<Rightarrow> string \<Rightarrow> nat + any" where
  "parse_fn parse_u8 s =
     (case strtoul s 10 of (v, endptr) \<Rightarrow> if endptr \<noteq> [] \<or> v > 0xff then Inl 0xff else Inr (word_of_int v))"
| "parse_fn parse_u8_as_bool s =
     (case strtoul s 10 of (v, endptr) \<Rightarrow> if endptr \<noteq> [] \<or> v > 1 then Inl 1 else Inr (word_of_int v))"
| "parse_fn parse_u16 s =
     (case strtol s 10 of (v, endptr) \<Rightarrow> if endptr \<noteq> [] \<or> v < 0 \<or> v > 0xffff then Inl 0xffff else Inr (word_of_int v))"
| "parse_fn parse_u32 s =
     (case strtol s 10 of (v, endptr) \<Rightarrow> if endptr \<noteq> [] \<or> v < 0 \<or> v > 0xffffffff then Inl 0xffffffff else Inr (word_of_int v))"
| "parse_fn parse_s32 s =
     (case strtol s 10 of (v, endptr) \<Rightarrow> if endptr \<noteq> [] \<or> v > 0xff then Inl 0xffffffff else Inr (word_of_int v))"
| "parse_fn parse_u32_power_mode s =
     (if s = ''active'' then Inr 1 else if s = ''light'' then Inr 2 else if s = ''deep'' then Inr 3 else Inl 0xff)"

fun nla_print_fn :: "print_name \<Rightarrow> nlattr option \<Rightarrow> ('w, string) iw" where
  "nla_print_fn print_u8 a = bind_p (nla_get_u8 a) (\<lambda>v. ret (fmt_d (int v)))"
| "nla_print_fn print_u16 a = bind_p (nla_get_u16 a) (\<lambda>v. ret (fmt_d (int v)))"
| "nla_print_fn print_u16_timeout a = bind_p (nla_get_u16 a) (\<lambda>v. ret (fmt_d (int v) @ '' milliseconds''))"
| "nla_print_fn print_u16_in_TUs a = bind_p (nla_get_u16 a) (\<lambda>v. ret (fmt_d (int v) @ '' TUs''))"
| "nla_print_fn print_u32 a = bind_p (nla_get_u32 a) (\<lambda>v. ret (fmt_du v))"
| "nla_print_fn print_u32_timeout a = bind_p (nla_get_u32 a) (\<lambda>v. ret (fmt_d (int v) @ '' milliseconds''))"
| "nla_print_fn print_u32_in_seconds a = bind_p (nla_get_u32 a) (\<lambda>v. ret (fmt_du v @ '' seconds''))"
| "nla_print_fn print_u32_in_TUs a = bind_p (nla_get_u32 a) (\<lambda>v. ret (fmt_du v @ '' TUs''))"
| "nla_print_fn print_u32_power_mode a = bind_p (nla_get_u32 a) (\<lambda>v.
     ret (if v = 1 then ''active'' else if v = 2 then ''light'' else if v = 3 then ''deep'' else ''undefined''))"
| "nla_print_fn print_s32_in_dBm a = bind_p (nla_get_u32 a) (\<lambda>v. ret (fmt_du v @ '' dBm''))"

subsection \<open>The table\<close>

record mesh_param_descr =
  mp_name :: string
  mesh_param_num :: nat
  mp_put :: put_name
  mp_parse :: parse_name
  mp_print :: print_name

definition descr :: "string \<Rightarrow> nat \<Rightarrow> put_name \<Rightarrow> parse_name \<Rightarrow> print_name \<Rightarrow> mesh_param_descr" where
  "descr name num pu pa pr =
     \<lparr>mp_name = name, mesh_param_num = num, mp_put = pu, mp_parse = pa, mp_print = pr\<rparr>"

definition mesh_param_descrs :: "mesh_param_descr list" where
  "mesh_param_descrs = [
     descr ''mesh_retry_timeout'' 1 my_nla_put_u16 parse_u16 print_u16_timeout,
     descr ''mesh_confirm_timeout'' 2 my_nla_put_u16 parse_u16 print_u16_timeout,
     descr ''mesh_holding_timeout'' 3 my_nla_put_u16 parse_u16 print_u16_timeout,
     descr ''mesh_max_peer_links'' 4 my_nla_put_u16 parse_u16 print_u16,
     descr ''mesh_max_retries'' 5 my_nla_put_u8 parse_u8 print_u8,
     descr ''mesh_ttl'' 6 my_nla_put_u8 parse_u8 print_u8,
     descr ''mesh_element_ttl'' 15 my_nla_put_u8 parse_u8 print_u8,
     descr ''mesh_auto_open_plinks'' 7 my_nla_put_u8 parse_u8_as_bool print_u8,
     descr ''mesh_hwmp_max_preq_retries'' 8 my_nla_put_u8 parse_u8 print_u8,
     descr ''mesh_path_refresh_time'' 9 my_nla_put_u32 parse_u32 print_u32_timeout,
     descr ''mesh_min_discovery_timeout'' 10 my_nla_put_u16 parse_u16 print_u16_timeout,
     descr ''mesh_hwmp_active_path_timeout'' 11 my_nla_put_u32 parse_u32 print_u32_in_TUs,
     descr ''mesh_hwmp_preq_min_interval'' 12 my_nla_put_u16 parse_u16 print_u16_in_TUs,
     descr ''mesh_hwmp_net_diameter_traversal_time'' 13 my_nla_put_u16 parse_u16 print_u16_in_TUs,
     descr ''mesh_hwmp_rootmode'' 14 my_nla_put_u8 parse_u8 print_u8,
     descr ''mesh_hwmp_rann_interval'' 16 my_nla_put_u16 parse_u16 print_u16_in_TUs,
     descr ''mesh_gate_announcements'' 17 my_nla_put_u8 parse_u8 print_u8,
     descr ''mesh_fwding'' 19 my_nla_put_u8 parse_u8_as_bool print_u8,
     descr ''mesh_sync_offset_max_neighor'' 21 my_nla_put_u32 parse_u32 print_u32,
     descr ''mesh_rssi_threshold'' 20 my_nla_put_u32 parse_s32 print_s32_in_dBm,
     descr ''mesh_hwmp_active_path_to_root_timeout'' 23 my_nla_put_u32 parse_u32 print_u32_in_TUs,
     descr ''mesh_hwmp_root_interval'' 24 my_nla_put_u16 parse_u16 print_u16_in_TUs,
     descr ''mesh_hwmp_confirmation_interval'' 25 my_nla_put_u16 parse_u16 print_u16_in_TUs,
     descr ''mesh_power_mode'' 26 my_nla_put_u32 parse_u32_power_mode print_u32_power_mode,
     descr ''mesh_awake_window'' 27 my_nla_put_u16 parse_u16 print_u16_in_TUs,
     descr ''mesh_plink_timeout'' 28 my_nla_put_u32 parse_u32 print_u32_in_seconds]"

definition mesh_param_names :: string where
  "mesh_param_names = line ''Possible mesh parameters are:'' @ concat (map (\<lambda>d. line ('' - '' @ mp_name d)) mesh_param_descrs)"

definition find_mesh_param :: "string \<Rightarrow> (mesh_param_descr \<Rightarrow> 'w outcome) \<Rightarrow> nl_msg \<Rightarrow> 'w outcome" where
  "find_mesh_param name k msg =
     (case find (\<lambda>d. mp_name d = name) mesh_param_descrs of
        Some d \<Rightarrow> k d
      | None \<Rightarrow> then_p (print mesh_param_names) (result 2 msg))"

subsection \<open>Setting and getting\<close>

definition bad_value :: "mesh_param_descr \<Rightarrow> nat \<Rightarrow> string" where
  "bad_value d r =
     (if mesh_param_num d = NL80211_MESHCONF_POWER_MODE then line (mp_name d @ '' must be set to active, light or deep.'')
      else line (mp_name d @ '' must be set to a number between 0 and '' @ fmt_d (int r)))"

definition set_param :: "'w netlink \<Rightarrow> int \<Rightarrow> string \<Rightarrow> string \<Rightarrow> nl_msg \<Rightarrow> (nl_msg \<Rightarrow> 'w outcome) \<Rightarrow> 'w outcome" where
  "set_param E nomem name val msg k =
     find_mesh_param name (\<lambda>d.
       case parse_fn (mp_parse d) val of
         Inl r \<Rightarrow> then_p (print (bad_value d r)) (result 2 msg)
       | Inr v \<Rightarrow> put E nomem [nla_put_fn (mp_put d) (mesh_param_num d) v] msg k) msg"

fun set_params :: "'w netlink \<Rightarrow> int \<Rightarrow> string list \<Rightarrow> nl_msg \<Rightarrow> 'w outcome" where
  "set_params E nomem [] msg = result 0 (msg @ [Nest_end])"
| "set_params E nomem (name # r) msg =
     (case split_at (CHR ''='') name of
        Some (name, val) \<Rightarrow> set_param E nomem name val msg (set_params E nomem r)
      | None \<Rightarrow>
          (case r of
             [] \<Rightarrow> then_p (print (line (''Must specify a value for '' @ name @ ''.''))) (result 2 msg)
           | val # r \<Rightarrow> set_param E nomem name val msg (set_params E nomem r)))"

definition set_interface_meshparam :: "'w netlink \<Rightarrow> int \<Rightarrow> 'w iw_handler" where
  "set_interface_meshparam E nomem again msg argv idby = with_msg msg (\<lambda>msg.
     put E ENOBUFS [Nest_start NL80211_ATTR_MESH_PARAMS] msg (\<lambda>msg.
     if argv = [] then result 1 msg else set_params E nomem argv msg))"

text \<open>
  The printer of the answer.  An answer without the parameters is passed over (the source returns an error to
  \<open>libnl\<close>, which then drops what else is in the datagram).
\<close>

definition print_mesh_param :: "mesh_param_descr option \<Rightarrow> 'w valid_cb" where
  "print_mesh_param mdescr m u =
     (case nla_tb (rx_attrs m) NL80211_ATTR_MESH_PARAMS of
        None \<Rightarrow> ret ()
      | Some parent \<Rightarrow>
          bind_p (nla_nested (Some parent)) (\<lambda>mesh_params.
          case mdescr of
            None \<Rightarrow> for_p mesh_param_descrs (\<lambda>d.
              then_p (print (mp_name d @ '' = ''))
                (bind_p (nla_print_fn (mp_print d) (nla_tb mesh_params (mesh_param_num d))) (\<lambda>t. print (line t))))
          | Some d \<Rightarrow> bind_p (nla_print_fn (mp_print d) (nla_tb mesh_params (mesh_param_num d))) (\<lambda>t. print (line t))))"

definition get_interface_meshparam :: "'w iw_handler" where
  "get_interface_meshparam again msg argv idby = with_msg msg (\<lambda>msg.
     case argv of
       [] \<Rightarrow> with_cb (print_mesh_param None) msg
     | [name] \<Rightarrow> find_mesh_param name (\<lambda>d. with_cb (print_mesh_param (Some d)) msg) msg
     | _ \<Rightarrow> result 1 msg)"

subsection \<open>Joining and leaving\<close>

text \<open>The frequency, which the centre frequency of the channel type is reckoned from; 0 when it is not given.\<close>

definition take_mesh_freq :: "'w netlink \<Rightarrow> string list \<Rightarrow> nl_msg \<Rightarrow> (int \<Rightarrow> string list \<Rightarrow> nl_msg \<Rightarrow> 'w outcome) \<Rightarrow> 'w outcome" where
  "take_mesh_freq E argv msg k =
     (case argv of
        w # a # r \<Rightarrow>
          if w \<noteq> ''freq'' then k 0 argv msg
          else (case strtoul a 10 of (freq, end) \<Rightarrow>
            if end \<noteq> [] then result 1 msg
            else put E ENOBUFS [Nla_u32 NL80211_ATTR_WIPHY_FREQ (word_of_int freq)] msg (k freq r))
      | _ \<Rightarrow> k 0 argv msg)"

definition take_vendor_sync :: "'w netlink \<Rightarrow> string list \<Rightarrow> nl_msg \<Rightarrow> (string list \<Rightarrow> nl_msg \<Rightarrow> 'w outcome) \<Rightarrow> 'w outcome" where
  "take_vendor_sync E argv msg k =
     (case argv of
        w # a # r \<Rightarrow>
          if w \<noteq> ''vendor_sync'' then k argv msg
          else put E ENOBUFS [Nla_u8 NL80211_MESH_SETUP_ENABLE_VENDOR_SYNC (if a = ''on'' then 1 else 0)] msg (k r)
      | _ \<Rightarrow> k argv msg)"

definition join_mesh :: "'w netlink \<Rightarrow> int \<Rightarrow> (string \<Rightarrow> dbl \<times> string) \<Rightarrow> (rat \<Rightarrow> rat) \<Rightarrow> 'w iw_handler" where
  "join_mesh E nomem strtof rnd again msg argv idby = with_msg msg (\<lambda>msg.
     case argv of [] \<Rightarrow> result 1 msg
     | mesh_id # argv \<Rightarrow>
       put E ENOBUFS [Nla_bytes NL80211_ATTR_MESH_ID (bytes_of mesh_id)] msg (\<lambda>msg.
       take_mesh_freq E argv msg (\<lambda>freq argv msg.
       take_chanmode E ENOBUFS (take 4 chanmodes) freq argv msg (\<lambda>argv msg.
       take_rates E ENOBUFS strtof argv msg (\<lambda>argv msg.
       take_mcast E ENOBUFS strtof rnd argv msg (\<lambda>argv msg.
       take_number E ENOBUFS ''beacon-interval'' NL80211_ATTR_BEACON_INTERVAL argv msg (\<lambda>argv msg.
       take_number E ENOBUFS ''dtim-period'' NL80211_ATTR_DTIM_PERIOD argv msg (\<lambda>argv msg.
       put E ENOBUFS [Nest_start NL80211_ATTR_MESH_SETUP] msg (\<lambda>msg.
       take_vendor_sync E argv msg (\<lambda>argv msg.
       let msg = msg @ [Nest_end] in
       if argv = [] then result 0 msg else set_interface_meshparam E nomem again (Some msg) argv idby))))))))))"

definition leave_mesh :: "'w iw_handler" where
  "leave_mesh again msg argv idby = with_msg msg (\<lambda>msg. if argv \<noteq> [] then result 1 msg else result 0 msg)"

definition mesh_cmds :: "'w netlink \<Rightarrow> int \<Rightarrow> (string \<Rightarrow> dbl \<times> string) \<Rightarrow> (rat \<Rightarrow> rat) \<Rightarrow> 'w cmd list" where
  "mesh_cmds E nomem strtof rnd = [SECTION ''mesh'',
     COMMAND ''set'' ''mesh_param_set'' ''mesh_param'' (Some ''<param>=<value> [<param>=<value>]*'') 29 0 CIB_NETDEV
       (set_interface_meshparam E nomem) ''Set mesh parameter (run command without any to see available ones).'',
     COMMAND ''get'' ''mesh_param_get'' ''mesh_param'' (Some ''[<param>]'') 28 0 CIB_NETDEV get_interface_meshparam
       ''Retrieve mesh parameter (run command without any to see available ones).'',
     COMMAND ''mesh'' ''mesh_join'' ''join''
       (Some (''<mesh ID> [[freq <freq in MHz> <HT20|HT40+|HT40-|NOHT>]'' @
              '' [basic-rates <rate in Mbps,rate2,...>]], [mcast-rate <rate in Mbps>]'' @
              '' [beacon-interval <time in TUs>] [dtim-period <value>]'' @ '' [vendor_sync on|off] [<param>=<value>]*''))
       68 0 CIB_NETDEV (join_mesh E nomem strtof rnd)
       (line ''Join a mesh with the given mesh ID with frequency, basic-rates,'' @
        line ''mcast-rate and mesh parameters. Basic-rates are applied only if'' @ ''frequency is provided.''),
     COMMAND ''mesh'' ''mesh_leave'' ''leave'' None 69 0 CIB_NETDEV leave_mesh ''Leave a mesh.'']"

subsection \<open>Set and shown\<close>


















end
