(* ===== verification/Iw_Pattern.thy ===== *)
theory Iw_Pattern
  imports Iw_Tree Iw_Commands
begin

unbundle bit_operations_syntax

text \<open>
  Packet patterns as \<open>coalesce.c\<close> and \<open>wowlan.c\<close> (in \<open>wifi_tools/iw\<close>) read, send and print them; the two
  files have the code twice, and what is mapped here is that of \<open>coalesce.c\<close>.  \<open>calloc\<close> says whether an
  allocation of that many bytes succeeds.
\<close>

definition NL80211_PKTPAT_MASK :: nat where "NL80211_PKTPAT_MASK = 1"
definition NL80211_PKTPAT_PATTERN :: nat where "NL80211_PKTPAT_PATTERN = 2"
definition NL80211_PKTPAT_OFFSET :: nat where "NL80211_PKTPAT_OFFSET = 3"

subsection \<open>Patterns\<close>

text \<open>
  A pattern with the offset in front of it: \<open>None\<close> is undefined, \<open>Inl ()\<close> a refusal; \<open>Inr\<close> has the offset, the
  length, the bytes and the mask.  \<open>nothing\<close> is what happens when there is no token in the text at all.
\<close>

type_synonym pattern = "int \<times> nat \<times> 8 word list \<times> 8 word list"

definition masked_bytes :: "(nat \<Rightarrow> bool) \<Rightarrow> int \<Rightarrow> string \<Rightarrow> (unit + pattern) option" where
  "masked_bytes calloc off s =
     (case parse_hex_mask calloc True s of
        Inl Out_of_bounds \<Rightarrow> None
      | Inl _ \<Rightarrow> Some (Inl ())
      | Inr (n, val, msk) \<Rightarrow> Some (Inr (off, n, val, msk)))"

definition read_pattern :: "(unit + pattern) option \<Rightarrow> (nat \<Rightarrow> bool) \<Rightarrow> string \<Rightarrow> (unit + pattern) option" where
  "read_pattern nothing calloc s =
     (case strtok (CHR ''+'') s of
        None \<Rightarrow> nothing
      | Some (value1, sptr) \<Rightarrow>
          (case strtok (CHR ''+'') sptr of
             None \<Rightarrow> masked_bytes calloc 0 value1
           | Some (value2, _) \<Rightarrow>
               (case strtoul value1 10 of (v, eptr) \<Rightarrow>
                  if eptr \<noteq> [] then Some (Inl ()) else masked_bytes calloc (to_int v) value2)))"

text \<open>
  A nested attribute whose beginning is not checked for success: without room for it what is nested lands in the
  message itself, and its end is marked through a null pointer.
\<close>

definition nest_unchecked :: "'w netlink \<Rightarrow> nat \<Rightarrow> nl_msg \<Rightarrow> (nl_msg \<Rightarrow> (nl_msg \<Rightarrow> 'w outcome) \<Rightarrow> 'w outcome) \<Rightarrow>
    (nl_msg \<Rightarrow> 'w outcome) \<Rightarrow> 'w outcome" where
  "nest_unchecked E n msg body k =
     (case nla_put (n_fits E) (Nest_start n) msg of
        Some m \<Rightarrow> body m (\<lambda>m. k (m @ [Nest_end]))
      | None \<Rightarrow> body msg (\<lambda>_. undef_p))"

definition pattern_attrs :: "pattern \<Rightarrow> nla list" where
  "pattern_attrs = (\<lambda>(off, n, val, msk).
     [Nla_bytes NL80211_PKTPAT_MASK (take ((n + 7) div 8) msk), Nla_bytes NL80211_PKTPAT_PATTERN (take n val),
      Nla_u32 NL80211_PKTPAT_OFFSET (word_of_int off)])"

definition put_pattern :: "'w netlink \<Rightarrow> nat \<Rightarrow> pattern \<Rightarrow> nl_msg \<Rightarrow> (nl_msg \<Rightarrow> 'w outcome) \<Rightarrow> 'w outcome" where
  "put_pattern E num p msg k = nest_unchecked E num msg (\<lambda>m. put E ENOBUFS (pattern_attrs p) m) k"

text \<open>The bytes of a pattern, printed; the masks of both have the length for their number.\<close>

definition pattern_text :: "8 word list \<Rightarrow> 8 word list \<Rightarrow> string" where
  "pattern_text pat msk =
     concat (map (\<lambda>i. (if (msk ! (i div 8)) AND push_bit (i mod 8) 1 \<noteq> 0 then fmt_0x 2 (unat (pat ! i)) else ''--'') @
        (if i \<noteq> length pat - 1 then '':'' else '''')) [0..<length pat])"

subsection \<open>The lines of a configuration file\<close>

definition CO_BUF :: nat where "CO_BUF = 16768"

text \<open>The end of a line is looked for from the sixth character on.\<close>

definition cut_line :: "string \<Rightarrow> string" where
  "cut_line s =
     (let cut = (\<lambda>c s. take 5 s @ takeWhile (\<lambda>x. x \<noteq> c) (drop 5 s)) in cut nl (cut (CHR 0x0D) (c_str s)))"

subsection \<open>A pattern and its text\<close>

text \<open>A pattern as it is meant: a byte or any byte at each place; and the text for it.\<close>

definition pat_field :: "8 word option \<Rightarrow> string" where
  "pat_field x = (case x of None \<Rightarrow> ''--'' | Some b \<Rightarrow> fmt_0x 2 (unat b))"

definition pat_text :: "8 word option list \<Rightarrow> string" where
  "pat_text ps = colon_join (map pat_field ps)"

definition pat_stored :: "8 word option list \<Rightarrow> 8 word list \<Rightarrow> 8 word list \<Rightarrow> bool" where
  "pat_stored ps val msk \<longleftrightarrow> length ps \<le> length val \<and> (length ps + 7) div 8 \<le> length msk \<and>
     (\<forall>k < length ps. case ps ! k of None \<Rightarrow> \<not> mask_bit msk k | Some b \<Rightarrow> mask_bit msk k \<and> val ! k = b)"

lemma pat_field_plain: "pat_field x \<noteq> []" "CHR '':'' \<notin> set (pat_field x)" "CHR ''+'' \<notin> set (pat_field x)" "CHR '','' \<notin> set (pat_field x)"
proof -
  have h: "c \<notin> set (fmt_0x 2 n)" if "\<not> isxdigit c" for c n using hex2_digits [of c n] that by auto
  show "pat_field x \<noteq> []" by (cases x) (simp_all add: pat_field_def fmt_0x_nonempty)
  show "CHR '':'' \<notin> set (pat_field x)" "CHR ''+'' \<notin> set (pat_field x)" "CHR '','' \<notin> set (pat_field x)"
    by (cases x; simp add: pat_field_def h isxdigit_def isdigit_def)+
qed

lemma pat_fields: "ps \<noteq> [] \<Longrightarrow> Iw_Text.fields (pat_text ps) = map pat_field ps"
  unfolding pat_text_def by (rule fields_colon_join) (auto simp: pat_field_plain)

lemma hex_not_skipped: "\<not> skipped (fmt_0x 2 n)"
proof -
  have "CHR ''-'' \<notin> set (fmt_0x 2 n)" "CHR ''x'' \<notin> set (fmt_0x 2 n)"
    using hex2_digits [of "CHR ''-''" n] hex2_digits [of "CHR ''x''" n] by (auto simp: isxdigit_def isdigit_def)
  then show ?thesis by (auto simp: skipped_def)
qed

lemma skipped_field: "skipped (pat_field x) \<longleftrightarrow> x = None"
  by (cases x) (simp_all add: pat_field_def hex_not_skipped, simp add: skipped_def)

lemma store_pat_field:
  assumes "pos < length val" "pos div 8 < length msk"
  obtains val' msk' where "store_byte True pos (pat_field x) (val, msk) = Inr (val', msk')"
proof (cases x)
  case None
  then show ?thesis using that by (simp add: store_byte_def pat_field_def skipped_def)
next
  case (Some b)
  have "\<not> 255 < uint b" using uint_u8_range [of b] by linarith
  then show ?thesis
    using Some that assms by (simp add: store_byte_def pat_field_def hex_not_skipped strtoul_hex2 to_int_u8 Let_def)
qed

lemma hex_fields_pat:
  "pos + length ps \<le> length val \<Longrightarrow> pos + length ps \<le> 8 * length msk \<Longrightarrow>
     \<exists>val' msk'. hex_fields True pos (val, msk) (map pat_field ps) = Inr (pos + length ps, val', msk') \<and>
       length val' = length val \<and> length msk' = length msk"
proof (induction ps arbitrary: pos val msk)
  case (Cons x ps)
  then have "pos < length val" "pos div 8 < length msk" by auto
  then obtain val' msk' where s: "store_byte True pos (pat_field x) (val, msk) = Inr (val', msk')" by (rule store_pat_field)
  have "length val' = length val" "length msk' = length msk" using store_byte_length [OF s] by simp_all
  then show ?case using Cons.IH [of "pos + 1" val' msk'] Cons.prems s by auto
qed simp

lemma mask_length: "n \<le> l + 2 \<Longrightarrow> (n + 7) div 8 \<le> (l + 7) div 8 + (2 :: nat)"
proof -
  assume "n \<le> l + 2"
  then have "(n + 7) div 8 \<le> (l + 7 + 2 * 8) div 8" by (intro div_le_mono) simp
  also have "\<dots> = (l + 7) div 8 + 2" by (subst div_mult_self1) simp_all
  finally show ?thesis .
qed

lemma byte_of_bit: "i < n \<Longrightarrow> i div 8 < (n + 7) div (8 :: nat)"
proof -
  assume "i < n"
  then have "(i + 8) div 8 \<le> (n + 7) div 8" by (intro div_le_mono) simp
  then show ?thesis by simp
qed

lemma parse_pat_text:
  assumes "ps \<noteq> []" "\<And>n. calloc n"
  obtains val msk where "parse_hex_mask calloc True (pat_text ps) = Inr (length ps, val, msk)" "pat_stored ps val msk"
proof -
  let ?len = "length (pat_text ps) div 2"
  let ?mlen = "(?len + 7) div 8 + 2"
  have ne: "\<forall>f \<in> set (Iw_Text.fields (pat_text ps)). f \<noteq> []" by (simp add: pat_fields [OF assms(1)] pat_field_plain)
  have fit: "length ps \<le> ?len + 2" using fields_fit [OF ne] by (simp add: pat_fields [OF assms(1)])
  have "?len \<le> 8 * ((?len + 7) div 8)" by presburger
  then have m: "length ps \<le> 8 * ?mlen" using fit by simp
  obtain val msk where h: "hex_fields True 0 (replicate (?len + 2) 0, replicate ?mlen 0) (map pat_field ps) = Inr (length ps, val, msk)"
    "length val = ?len + 2" "length msk = ?mlen"
    using hex_fields_pat [of 0 ps "replicate (?len + 2) 0" "replicate ?mlen 0"] fit m by auto
  then have p: "parse_hex_mask calloc True (pat_text ps) = Inr (length ps, val, msk)"
    by (simp add: parse_hex_mask_def Let_def assms(2) hex_loop_fields pat_fields [OF assms(1)])
  have st: "field_stored (pat_field (ps ! k)) val msk k" if "k < length ps" for k
    using parse_hex_mask_fields [OF p ne] that by (simp add: pat_fields [OF assms(1)])
  have "case ps ! k of None \<Rightarrow> \<not> mask_bit msk k | Some b \<Rightarrow> mask_bit msk k \<and> val ! k = b" if "k < length ps" for k
  proof (cases "ps ! k")
    case None
    then show ?thesis using st [OF that] by (simp add: field_stored_def skipped_field)
  next
    case (Some b)
    then show ?thesis using st [OF that]
      by (simp add: field_stored_def skipped_field) (auto simp: pat_field_def strtoul_hex2 to_int_u8 word_uint_eq_iff)
  qed
  then have "pat_stored ps val msk" using h(2,3) fit mask_length [OF fit] by (simp add: pat_stored_def)
  with p show ?thesis by (rule that)
qed

text \<open>What is printed for a stored pattern is its text.\<close>

lemma colon_join_upt:
  "concat (map (\<lambda>i. fs ! i @ (if i \<noteq> length fs - 1 then '':'' else '''')) [0..<length fs]) = colon_join fs"
proof (induction fs rule: colon_join.induct)
  case (3 f g fs)
  have "[0..<Suc n] = 0 # map Suc [0..<n]" for n by (simp only: map_Suc_upt upt_conv_Cons [OF zero_less_Suc])
  from this [of "length (g # fs)"] have u: "[0..<length (f # g # fs)] = 0 # map Suc [0..<length (g # fs)]" by (simp only: length_Cons)
  show ?case unfolding u using 3 by (simp add: comp_def del: upt_Suc)
qed simp_all

lemma and_push_bit: "(w :: 8 word) AND push_bit n 1 \<noteq> 0 \<longleftrightarrow> bit w n"
  by (simp add: push_bit_of_1 and_exp_eq_0_iff_not_bit)

lemma pattern_text_stored:
  assumes "pat_stored ps val msk"
  shows "pattern_text (take (length ps) val) (take ((length ps + 7) div 8) msk) = pat_text ps"
proof -
  have l: "length (take (length ps) val) = length ps" using assms by (simp add: pat_stored_def)
  have "(if (take ((length ps + 7) div 8) msk ! (i div 8)) AND push_bit (i mod 8) 1 \<noteq> 0
      then fmt_0x 2 (unat (take (length ps) val ! i)) else ''--'') = map pat_field ps ! i" if "i < length ps" for i
  proof -
    have "i div 8 < (length ps + 7) div 8" by (rule byte_of_bit [OF that])
    then have "take ((length ps + 7) div 8) msk ! (i div 8) = msk ! (i div 8)" by simp
    then show ?thesis
      using assms that unfolding and_push_bit pat_stored_def
      by (auto simp: mask_bit_def pat_field_def split: option.splits)
  qed
  then have "pattern_text (take (length ps) val) (take ((length ps + 7) div 8) msk) =
      concat (map (\<lambda>i. map pat_field ps ! i @ (if i \<noteq> length (map pat_field ps) - 1 then '':'' else '''')) [0..<length (map pat_field ps)])"
    unfolding pattern_text_def l by (intro arg_cong [where f = concat] map_cong) simp_all
  then show ?thesis by (simp only: colon_join_upt pat_text_def)
qed

subsection \<open>A pattern in a message\<close>

text \<open>
  A pattern with its offset, its text as an argument, and the attribute for it; \<open>stored_as\<close> says which stored
  patterns stand for it.
\<close>

type_synonym pat = "nat \<times> 8 word option list"

definition pat_arg :: "pat \<Rightarrow> string" where
  "pat_arg = (\<lambda>(off, ps). fmt_d (int off) @ CHR ''+'' # pat_text ps)"

definition good_pat :: "pat \<Rightarrow> bool" where
  "good_pat = (\<lambda>(off, ps). off < 2 ^ 31 \<and> ps \<noteq> [])"

definition stored_as :: "pat \<Rightarrow> pattern \<Rightarrow> bool" where
  "stored_as = (\<lambda>(off, ps) (off', n, val, msk). off' = int off \<and> n = length ps \<and> pat_stored ps val msk)"

definition pattern_tree :: "nat \<Rightarrow> pattern \<Rightarrow> nlattr" where
  "pattern_tree num = (\<lambda>(off, n, val, msk). At_nest num
     [At_bytes NL80211_PKTPAT_MASK (take ((n + 7) div 8) msk), At_bytes NL80211_PKTPAT_PATTERN (take n val),
      At_u32 NL80211_PKTPAT_OFFSET (word_of_int off)])"

lemma flat_pattern_tree: "flat (pattern_tree num p) = Nest_start num # pattern_attrs p @ [Nest_end]"
  by (simp add: pattern_tree_def pattern_attrs_def split: prod.splits)

lemma colon_join_chars: "c \<in> set (colon_join fs) \<Longrightarrow> c = CHR '':'' \<or> (\<exists>f \<in> set fs. c \<in> set f)"
  by (induction fs rule: colon_join.induct) auto

lemma pat_field_chars: "c \<in> set (pat_field x) \<Longrightarrow> c = CHR ''-'' \<or> isxdigit c"
  by (cases x) (auto simp: pat_field_def intro: hex2_digits)

lemma pat_text_chars: "c \<in> set (pat_text ps) \<Longrightarrow> c = CHR '':'' \<or> c = CHR ''-'' \<or> isxdigit c"
  unfolding pat_text_def using colon_join_chars pat_field_chars by fastforce

lemma pat_arg_chars: "c \<in> set (pat_arg p) \<Longrightarrow> c \<in> {CHR '':'', CHR ''-'', CHR ''+''} \<or> isxdigit c"
  by (auto simp: pat_arg_def isxdigit_def dest: fmt_d_digits split: prod.splits dest!: pat_text_chars)

lemma pat_text_nonempty: "ps \<noteq> [] \<Longrightarrow> pat_text ps \<noteq> []"
  using pat_fields [of ps] pat_field_plain by (cases ps; cases "tl ps") (auto simp: pat_text_def)

lemma read_pat_arg:
  assumes "good_pat p" "\<And>n. calloc n"
  obtains q where "read_pattern z calloc (pat_arg p) = Some (Inr q)" "stored_as p q"
proof -
  obtain off ps where p: "p = (off, ps)" by (cases p)
  have g: "off < 2 ^ 31" "ps \<noteq> []" using assms(1) by (simp_all add: p good_pat_def)
  obtain val msk where m: "parse_hex_mask calloc True (pat_text ps) = Inr (length ps, val, msk)" "pat_stored ps val msk"
    by (rule parse_pat_text [OF g(2) assms(2)])
  have plus: "CHR ''+'' \<notin> set (fmt_d (int off))" "CHR ''+'' \<notin> set (pat_text ps)"
    by (auto dest!: fmt_d_digits pat_text_chars simp: isxdigit_def isdigit_def)
  have "to_int (int off) = int off" using g(1) by (simp add: to_int_id)
  then have "read_pattern z calloc (pat_arg p) = Some (Inr (int off, length ps, val, msk))"
    using g(1) by (simp add: read_pattern_def pat_arg_def p strtok_first [OF fmt_d_nonempty plus(1)]
      strtok_last [OF pat_text_nonempty [OF g(2)] plus(2)] strtoul_fmt_d masked_bytes_def m(1))
  then show ?thesis by (rule that) (simp add: stored_as_def p m(2))
qed

text \<open>What the printers of both files read from the attribute.\<close>

lemma pattern_tree_read:
  assumes "stored_as (off, ps) q" "off < 2 ^ 31"
  obtains msk pat where "pattern_tree num q = At_nest num
     [At_bytes NL80211_PKTPAT_MASK msk, At_bytes NL80211_PKTPAT_PATTERN pat, At_u32 NL80211_PKTPAT_OFFSET (word_of_nat off)]"
    "(length pat + 7) div 8 = length msk" "pattern_text pat msk = pat_text ps" "fmt_du (unat (word_of_nat off :: 32 word)) = fmt_d (int off)"
proof -
  obtain val msk where q: "q = (int off, length ps, val, msk)" and st: "pat_stored ps val msk"
    using assms(1) by (cases q) (auto simp: stored_as_def)
  have o: "unat (word_of_nat off :: 32 word) = off" using assms(2) by (simp add: unat_of_nat)
  show ?thesis
    by (rule that [OF _ _ pattern_text_stored [OF st]])
      (use st assms(2) in \<open>simp_all add: q pattern_tree_def pat_stored_def o fmt_du_def to_int_id\<close>)
qed

lemma pkt_tb:
  "nla_tb [At_bytes NL80211_PKTPAT_MASK m, At_bytes NL80211_PKTPAT_PATTERN p, At_u32 NL80211_PKTPAT_OFFSET v] NL80211_PKTPAT_MASK =
     Some (At_bytes NL80211_PKTPAT_MASK m)"
  "nla_tb [At_bytes NL80211_PKTPAT_MASK m, At_bytes NL80211_PKTPAT_PATTERN p, At_u32 NL80211_PKTPAT_OFFSET v] NL80211_PKTPAT_PATTERN =
     Some (At_bytes NL80211_PKTPAT_PATTERN p)"
  "nla_tb [At_bytes NL80211_PKTPAT_MASK m, At_bytes NL80211_PKTPAT_PATTERN p, At_u32 NL80211_PKTPAT_OFFSET v] NL80211_PKTPAT_OFFSET =
     Some (At_u32 NL80211_PKTPAT_OFFSET v)"
  by (simp_all add: nla_tb_def NL80211_PKTPAT_MASK_def NL80211_PKTPAT_PATTERN_def NL80211_PKTPAT_OFFSET_def)

text \<open>Several patterns, numbered from \<open>k\<close> on.\<close>

fun number_patterns :: "nat \<Rightarrow> pattern list \<Rightarrow> nlattr list" where
  "number_patterns k [] = []"
| "number_patterns k (q # qs) = pattern_tree k q # number_patterns (k + 1) qs"

lemma read_pat_args:
  assumes "list_all good_pat ps" "\<And>n. calloc n"
  shows "\<exists>qs. list_all2 (\<lambda>p q. read_pattern z calloc (pat_arg p) = Some (Inr q) \<and> stored_as p q) ps qs"
  using assms(1)
proof (induction ps)
  case (Cons p ps)
  then obtain qs where qs: "list_all2 (\<lambda>p q. read_pattern z calloc (pat_arg p) = Some (Inr q) \<and> stored_as p q) ps qs" by auto
  obtain q where "read_pattern z calloc (pat_arg p) = Some (Inr q)" "stored_as p q"
    using read_pat_arg [of p calloc z] assms(2) Cons.prems by (metis list.pred_inject(2))
  then show ?case using qs by (intro exI [of _ "q # qs"]) simp
qed (auto intro: exI [of _ "[]"])

end
