(* ===== verification/Iw_Coalesce.thy ===== *)
theory Iw_Coalesce
  imports Iw_Pattern
begin

unbundle bit_operations_syntax

text \<open>
  The coalescing of packets: \<open>wifi_tools/iw/coalesce.c\<close>.  \<open>calloc\<close> says whether an allocation of that many bytes
  succeeds.
\<close>

definition NL80211_ATTR_COALESCE_RULE :: nat where "NL80211_ATTR_COALESCE_RULE = 182"
definition NL80211_ATTR_COALESCE_RULE_DELAY :: nat where "NL80211_ATTR_COALESCE_RULE_DELAY = 1"
definition NL80211_ATTR_COALESCE_RULE_CONDITION :: nat where "NL80211_ATTR_COALESCE_RULE_CONDITION = 2"
definition NL80211_ATTR_COALESCE_RULE_PKT_PATTERN :: nat where "NL80211_ATTR_COALESCE_RULE_PKT_PATTERN = 3"
subsection \<open>The configuration file\<close>

datatype co_state = PS_DELAY | PS_CONDITION | PS_PATTERNS

text \<open>The text behind \<open>patterns=\<close>: the patterns between commas, numbered on from \<open>patnum\<close>.\<close>

function co_patterns ::
  "'w netlink \<Rightarrow> (nat \<Rightarrow> bool) \<Rightarrow> nat \<Rightarrow> string \<Rightarrow> nl_msg \<Rightarrow> (nat \<Rightarrow> nl_msg \<Rightarrow> 'w outcome) \<Rightarrow> 'w outcome" where
  "co_patterns E calloc patnum s msg k =
     (case split_at (CHR '','') s of
        None \<Rightarrow>
          (case read_pattern (Some (Inl ())) calloc s of
             None \<Rightarrow> undef_p
           | Some (Inl _) \<Rightarrow> result 1 msg
           | Some (Inr p) \<Rightarrow> put_pattern E (patnum + 1) p msg (k (patnum + 1)))
      | Some (cur_pat, next_pat) \<Rightarrow>
          (case read_pattern (Some (Inl ())) calloc cur_pat of
             None \<Rightarrow> undef_p
           | Some (Inl _) \<Rightarrow> result 1 msg
           | Some (Inr p) \<Rightarrow> put_pattern E (patnum + 1) p msg (\<lambda>msg. co_patterns E calloc (patnum + 1) next_pat msg k)))"
  by pat_completeness auto
termination
  by (relation "measure (\<lambda>(E, calloc, patnum, s, msg, k). length s)") (auto dest: split_at_length)

declare co_patterns.simps [simp del]

definition co_delay :: "'w netlink \<Rightarrow> nat \<Rightarrow> string \<Rightarrow> nl_msg \<Rightarrow> (nl_msg \<Rightarrow> 'w outcome) \<Rightarrow> 'w outcome" where
  "co_delay E rule_num buf msg k =
     (if \<not> strncmp_eq buf ''delay='' 6 then result 1 msg
      else (case nla_put (n_fits E) (Nest_start rule_num) msg of
        None \<Rightarrow> result 1 msg
      | Some msg \<Rightarrow>
          (case strtoul (drop 6 buf) 10 of (v, end) \<Rightarrow>
            put E ENOBUFS [Nla_u32 NL80211_ATTR_COALESCE_RULE_DELAY (word_of_int v)] msg (\<lambda>msg.
            if end \<noteq> [] then result 1 msg else k msg))))"

definition co_condition :: "'w netlink \<Rightarrow> string \<Rightarrow> nl_msg \<Rightarrow> (nl_msg \<Rightarrow> 'w outcome) \<Rightarrow> 'w outcome" where
  "co_condition E buf msg k =
     (if \<not> strncmp_eq buf ''condition='' 10 then result 1 msg
      else (case strtoul (drop 10 buf) 10 of (v, end) \<Rightarrow>
        if end \<noteq> [] then result 1 msg
        else put E ENOBUFS [Nla_u32 NL80211_ATTR_COALESCE_RULE_CONDITION (word_of_int v)] msg k))"

definition co_pattern_line ::
  "'w netlink \<Rightarrow> (nat \<Rightarrow> bool) \<Rightarrow> nat \<Rightarrow> string \<Rightarrow> nl_msg \<Rightarrow> (nat \<Rightarrow> nl_msg \<Rightarrow> 'w outcome) \<Rightarrow> 'w outcome" where
  "co_pattern_line E calloc patnum buf msg k =
     (if \<not> strncmp_eq buf ''patterns='' 9 then result 1 msg
      else (case nla_put (n_fits E) (Nest_start NL80211_ATTR_COALESCE_RULE_PKT_PATTERN) msg of
        Some m \<Rightarrow> co_patterns E calloc patnum (drop 9 buf) m (\<lambda>n m. k n (m @ [Nest_end, Nest_end]))
      | None \<Rightarrow> co_patterns E calloc patnum (drop 9 buf) msg (\<lambda>_ _. undef_p)))"

text \<open>
  The loop over the lines.  A line of fewer than five characters is behind \<open>buf + 5\<close>: there is what an
  earlier, longer line left, and in front of the first line nothing is set.  A short line is in no state
  what is expected.
\<close>

function co_loop :: "'w netlink \<Rightarrow> (nat \<Rightarrow> bool) \<Rightarrow> bool \<Rightarrow> co_state \<Rightarrow> nat \<Rightarrow> nat \<Rightarrow> string \<Rightarrow> nl_msg \<Rightarrow> 'w outcome" where
  "co_loop E calloc first st rule_num patnum f msg =
     (case fgets CO_BUF f of
        None \<Rightarrow> if st = PS_DELAY then result 0 (msg @ [Nest_end]) else result 1 msg
      | Some (l, f) \<Rightarrow>
          if first \<and> length l < 5 then undef_p
          else let buf = cut_line l in
            (case st of
               PS_DELAY \<Rightarrow> co_delay E (rule_num + 1) buf msg (co_loop E calloc False PS_CONDITION (rule_num + 1) patnum f)
             | PS_CONDITION \<Rightarrow> co_condition E buf msg (co_loop E calloc False PS_PATTERNS rule_num patnum f)
             | PS_PATTERNS \<Rightarrow> co_pattern_line E calloc patnum buf msg (\<lambda>patnum. co_loop E calloc False PS_DELAY rule_num patnum f)))"
  by pat_completeness auto
termination
  by (relation "measure (\<lambda>(E, calloc, first, st, rule_num, patnum, f, msg). length f)")
    (auto dest: fgets_progress simp: CO_BUF_def)

declare co_loop.simps [simp del]

definition handle_coalesce_enable :: "'w netlink \<Rightarrow> (nat \<Rightarrow> bool) \<Rightarrow> 'w iw_handler" where
  "handle_coalesce_enable E calloc again msg argv idby = with_msg msg (\<lambda>msg.
     case argv of [] \<Rightarrow> undef_p
     | fn # _ \<Rightarrow> bind_p (sys (n_file E fn)) (\<lambda>f.
         case f of None \<Rightarrow> result 1 msg
         | Some content \<Rightarrow> put E ENOBUFS [Nest_start NL80211_ATTR_COALESCE_RULE] msg (co_loop E calloc True PS_DELAY 0 0 content)))"

subsection \<open>Showing the rules\<close>

definition invalid_pattern :: string where
  "invalid_pattern = line '' * (invalid pattern specification)''"

definition print_co_pattern :: "nlattr \<Rightarrow> ('w, unit) iw" where
  "print_co_pattern pattern =
     bind_p (nla_nested (Some pattern)) (\<lambda>as.
     let m = nla_tb as NL80211_PKTPAT_MASK; p = nla_tb as NL80211_PKTPAT_PATTERN; off = nla_tb as NL80211_PKTPAT_OFFSET in
     if m = None \<or> p = None \<or> off = None then print invalid_pattern
     else bind_p (nla_data m) (\<lambda>msk. bind_p (nla_data p) (\<lambda>pat. bind_p (nla_get_u32 off) (\<lambda>pkt_offset.
       if (length pat + 7) div 8 \<noteq> length msk then print invalid_pattern
       else print (line ('' * packet offset: '' @ fmt_du pkt_offset @ '' pattern: '' @ pattern_text pat msk))))))"

definition print_rule :: "nlattr \<Rightarrow> ('w, unit) iw" where
  "print_rule rule =
     bind_p (nla_nested (Some rule)) (\<lambda>as.
     bind_p (nla_get_u32 (nla_tb as NL80211_ATTR_COALESCE_RULE_DELAY)) (\<lambda>delay.
     bind_p (nla_get_u32 (nla_tb as NL80211_ATTR_COALESCE_RULE_CONDITION)) (\<lambda>condition.
     then_p (print (line (''Rule - max coalescing delay: '' @ fmt_du delay @ ''msec condition:'' @
       (if condition \<noteq> 0 then ''not match'' else ''match''))))
     (case nla_tb as NL80211_ATTR_COALESCE_RULE_PKT_PATTERN of
        None \<Rightarrow> ret ()
      | Some ps \<Rightarrow> bind_p (nla_nested (Some ps)) (\<lambda>ps. for_p ps print_co_pattern)))))"

definition print_coalesce :: "'w valid_cb" where
  "print_coalesce m u =
     (case nla_tb (rx_attrs m) NL80211_ATTR_COALESCE_RULE of
        None \<Rightarrow> print (line ''Coalesce is disabled.'')
      | Some rules \<Rightarrow>
          then_p (print (line ''Coalesce is enabled:''))
            (bind_p (nla_nested (Some rules)) (\<lambda>rules. for_p rules print_rule)))"

definition handle_coalesce_show :: "'w iw_handler" where
  "handle_coalesce_show again msg argv idby = with_msg msg (with_cb print_coalesce)"

definition coalesce_cmds :: "'w netlink \<Rightarrow> (nat \<Rightarrow> bool) \<Rightarrow> 'w cmd list" where
  "coalesce_cmds E calloc = [SECTION ''coalesce'',
     COMMAND ''coalesce'' ''coalesce_enable'' ''enable'' (Some ''<config-file>'') 101 0 CIB_PHY (handle_coalesce_enable E calloc)
       (line ''Enable coalesce with given configuration.'' @
        line ''The configuration file contains coalesce rules:'' @
        concat (replicate 2 (line ''  delay=<delay>'' @ line ''  condition=<condition>'' @
          line ''  patterns=<[offset1+]<pattern1>,<[offset2+]<pattern2>,...>'')) @
        line ''  ...'' @ line ''delay: maximum coalescing delay in msec.'' @
        line (''condition: 1/0 i.e. '' @ quoted ''not match'' @ ''/'' @ quoted ''match'' @ '' the patterns'') @
        line (''patterns: each pattern is given as a bytestring with '' @ quoted ''-'' @ '' in'') @
        line ''places where any byte may be present, e.g. 00:11:22:-:44 will'' @
        line ''match 00:11:22:33:44 and 00:11:22:33:ff:44 etc. Offset and'' @
        line (''pattern should be separated by '' @ quoted ''+'' @ '', e.g. 18+43:34:00:12 will'') @
        line (''match '' @ quoted ''43:34:00:12'' @ '' after 18 bytes of offset in Rx packet.'')),
     COMMAND ''coalesce'' ''coalesce_disable'' ''disable'' (Some '''') 101 0 CIB_PHY no_change ''Disable coalesce.'',
     COMMAND ''coalesce'' ''coalesce_show'' ''show'' (Some '''') 100 0 CIB_PHY handle_coalesce_show ''Show coalesce status.'']"

subsection \<open>Rules set and shown\<close>

















subsection \<open>Reading the rules\<close>








subsection \<open>Showing the rules\<close>










end
