(* ===== verification/Iw_Wowlan.thy ===== *)
theory Iw_Wowlan
  imports Iw_Pattern
begin

unbundle bit_operations_syntax

text \<open>
  Waking up on wireless LAN: \<open>wifi_tools/iw/wowlan.c\<close>, with the file for a TCP connection, the detection of networks and
  the patterns of packets.  \<open>calloc\<close> says whether an allocation of that many bytes succeeds.
\<close>

definition NL80211_ATTR_WOWLAN_TRIGGERS :: nat where "NL80211_ATTR_WOWLAN_TRIGGERS = 117"
definition NL80211_ATTR_SCHED_SCAN_INTERVAL :: nat where "NL80211_ATTR_SCHED_SCAN_INTERVAL = 119"
definition NL80211_ATTR_SCHED_SCAN_MATCH :: nat where "NL80211_ATTR_SCHED_SCAN_MATCH = 132"
definition NL80211_SCHED_SCAN_MATCH_ATTR_SSID :: nat where "NL80211_SCHED_SCAN_MATCH_ATTR_SSID = 1"
definition NL80211_WOWLAN_TRIG_ANY :: nat where "NL80211_WOWLAN_TRIG_ANY = 1"
definition NL80211_WOWLAN_TRIG_DISCONNECT :: nat where "NL80211_WOWLAN_TRIG_DISCONNECT = 2"
definition NL80211_WOWLAN_TRIG_MAGIC_PKT :: nat where "NL80211_WOWLAN_TRIG_MAGIC_PKT = 3"
definition NL80211_WOWLAN_TRIG_PKT_PATTERN :: nat where "NL80211_WOWLAN_TRIG_PKT_PATTERN = 4"
definition NL80211_WOWLAN_TRIG_GTK_REKEY_FAILURE :: nat where "NL80211_WOWLAN_TRIG_GTK_REKEY_FAILURE = 6"
definition NL80211_WOWLAN_TRIG_EAP_IDENT_REQUEST :: nat where "NL80211_WOWLAN_TRIG_EAP_IDENT_REQUEST = 7"
definition NL80211_WOWLAN_TRIG_4WAY_HANDSHAKE :: nat where "NL80211_WOWLAN_TRIG_4WAY_HANDSHAKE = 8"
definition NL80211_WOWLAN_TRIG_RFKILL_RELEASE :: nat where "NL80211_WOWLAN_TRIG_RFKILL_RELEASE = 9"
definition NL80211_WOWLAN_TRIG_TCP_CONNECTION :: nat where "NL80211_WOWLAN_TRIG_TCP_CONNECTION = 14"
definition NL80211_WOWLAN_TRIG_NET_DETECT :: nat where "NL80211_WOWLAN_TRIG_NET_DETECT = 18"
definition NL80211_WOWLAN_TCP_SRC_IPV4 :: nat where "NL80211_WOWLAN_TCP_SRC_IPV4 = 1"
definition NL80211_WOWLAN_TCP_DST_IPV4 :: nat where "NL80211_WOWLAN_TCP_DST_IPV4 = 2"
definition NL80211_WOWLAN_TCP_DST_MAC :: nat where "NL80211_WOWLAN_TCP_DST_MAC = 3"
definition NL80211_WOWLAN_TCP_SRC_PORT :: nat where "NL80211_WOWLAN_TCP_SRC_PORT = 4"
definition NL80211_WOWLAN_TCP_DST_PORT :: nat where "NL80211_WOWLAN_TCP_DST_PORT = 5"
definition NL80211_WOWLAN_TCP_DATA_PAYLOAD :: nat where "NL80211_WOWLAN_TCP_DATA_PAYLOAD = 6"
definition NL80211_WOWLAN_TCP_DATA_PAYLOAD_SEQ :: nat where "NL80211_WOWLAN_TCP_DATA_PAYLOAD_SEQ = 7"
definition NL80211_WOWLAN_TCP_DATA_PAYLOAD_TOKEN :: nat where "NL80211_WOWLAN_TCP_DATA_PAYLOAD_TOKEN = 8"
definition NL80211_WOWLAN_TCP_DATA_INTERVAL :: nat where "NL80211_WOWLAN_TCP_DATA_INTERVAL = 9"
definition NL80211_WOWLAN_TCP_WAKE_PAYLOAD :: nat where "NL80211_WOWLAN_TCP_WAKE_PAYLOAD = 10"
definition NL80211_WOWLAN_TCP_WAKE_MASK :: nat where "NL80211_WOWLAN_TCP_WAKE_MASK = 11"

subsection \<open>The file for a TCP connection\<close>

text \<open>
  \<open>inet_aton\<close>: one to four parts between dots, each in base 8, 10 or 16; the last one fills the bytes that are left.
  The address is its four bytes in the order of the network.
\<close>

fun inet_parts :: "nat \<Rightarrow> string \<Rightarrow> (int list \<times> string) option" where
  "inet_parts n s =
     (if \<not> isdigit (char_at s 0) then None
      else (case strtoul s 0 of (v, r) \<Rightarrow>
        if v > 0xffffffff then None
        else if char_at r 0 \<noteq> CHR ''.'' then Some ([v], r)
        else (case n of 0 \<Rightarrow> None
          | Suc m \<Rightarrow> if v > 0xff then None
              else (case inet_parts m (tl r) of None \<Rightarrow> None | Some (vs, r) \<Rightarrow> Some (v # vs, r)))))"

declare inet_parts.simps [simp del]

definition inet_aton :: "string \<Rightarrow> 8 word list option" where
  "inet_aton s =
     (case inet_parts 3 s of None \<Rightarrow> None
      | Some (vs, r) \<Rightarrow>
          if r \<noteq> [] \<and> \<not> isspace (hd r) then None
          else let n = length vs - 1; rest = last vs in
            if rest \<ge> 256 ^ (4 - n) then None
            else Some (map word_of_int (butlast vs) @ rev (map (\<lambda>i. word_of_int (rest div 256 ^ i)) [0..<4 - n])))"

text \<open>The four bytes of a number in the order of the machine, which is little-endian here.\<close>

definition le32 :: "int \<Rightarrow> 8 word list" where
  "le32 v = map (\<lambda>i. word_of_int (v div 256 ^ i)) [0..<4]"

definition hex_arg :: "(nat \<Rightarrow> bool) \<Rightarrow> string \<Rightarrow> nl_msg \<Rightarrow> (8 word list \<Rightarrow> 'w outcome) \<Rightarrow> 'w outcome" where
  "hex_arg calloc s msg k =
     (case parse_hex calloc s of Inl Out_of_bounds \<Rightarrow> undef_p | Inl _ \<Rightarrow> result 1 msg | Inr bs \<Rightarrow> k bs)"

definition tcp_source :: "'w netlink \<Rightarrow> string \<Rightarrow> nl_msg \<Rightarrow> (nl_msg \<Rightarrow> 'w outcome) \<Rightarrow> 'w outcome" where
  "tcp_source E s msg k =
     (case (case split_at (CHR '':'') s of None \<Rightarrow> (s, None) | Some (a, p) \<Rightarrow> (a, Some p)) of (addr, port) \<Rightarrow>
        (case inet_aton addr of None \<Rightarrow> result 1 msg
         | Some ip \<Rightarrow> put E ENOBUFS (Nla_bytes NL80211_WOWLAN_TCP_SRC_IPV4 ip #
             (case port of None \<Rightarrow> [] | Some p \<Rightarrow> [Nla_u16 NL80211_WOWLAN_TCP_SRC_PORT (word_of_int (atoi p))])) msg k))"

definition tcp_dest :: "'w netlink \<Rightarrow> string \<Rightarrow> nl_msg \<Rightarrow> (nl_msg \<Rightarrow> 'w outcome) \<Rightarrow> 'w outcome" where
  "tcp_dest E s msg k =
     (case split_at (CHR '':'') s of None \<Rightarrow> result 1 msg
      | Some (addr, s) \<Rightarrow>
     (case split_at (CHR ''@'') s of None \<Rightarrow> result 1 msg
      | Some (port, mac) \<Rightarrow>
     (case inet_aton addr of None \<Rightarrow> result 1 msg
      | Some ip \<Rightarrow>
          put E ENOBUFS [Nla_bytes NL80211_WOWLAN_TCP_DST_IPV4 ip, Nla_u16 NL80211_WOWLAN_TCP_DST_PORT (word_of_int (atoi port))] msg (\<lambda>msg.
          case mac_addr_a2n (replicate ETH_ALEN 0) mac of (r, macbuf) \<Rightarrow>
            if r \<noteq> 0 then result 1 msg else put E ENOBUFS [Nla_bytes NL80211_WOWLAN_TCP_DST_MAC macbuf] msg k))))"

definition tcp_wake :: "'w netlink \<Rightarrow> (nat \<Rightarrow> bool) \<Rightarrow> string \<Rightarrow> nl_msg \<Rightarrow> (nl_msg \<Rightarrow> 'w outcome) \<Rightarrow> 'w outcome" where
  "tcp_wake E calloc s msg k =
     (case parse_hex_mask calloc True s of
        Inl Out_of_bounds \<Rightarrow> undef_p
      | Inl _ \<Rightarrow> result 1 msg
      | Inr (n, val, msk) \<Rightarrow>
          put E ENOBUFS [Nla_bytes NL80211_WOWLAN_TCP_WAKE_MASK (take ((n + 7) div 8) msk),
            Nla_bytes NL80211_WOWLAN_TCP_WAKE_PAYLOAD (take n val)] msg k)"

definition tcp_seq :: "'w netlink \<Rightarrow> string \<Rightarrow> nl_msg \<Rightarrow> (nl_msg \<Rightarrow> 'w outcome) \<Rightarrow> 'w outcome" where
  "tcp_seq E s msg k =
     (case split_at (CHR '','') s of None \<Rightarrow> result 1 msg
      | Some (len, s) \<Rightarrow>
     (case (case split_at (CHR '','') s of None \<Rightarrow> (s, 0) | Some (offs, start) \<Rightarrow> (offs, atoi start)) of (offs, start) \<Rightarrow>
        put E ENOBUFS [Nla_bytes NL80211_WOWLAN_TCP_DATA_PAYLOAD_SEQ (le32 start @ le32 (atoi offs) @ le32 (atoi len))] msg k))"

definition tcp_tok :: "'w netlink \<Rightarrow> (nat \<Rightarrow> bool) \<Rightarrow> string \<Rightarrow> nl_msg \<Rightarrow> (nl_msg \<Rightarrow> 'w outcome) \<Rightarrow> 'w outcome" where
  "tcp_tok E calloc s msg k =
     (case split_at (CHR '','') s of None \<Rightarrow> result 1 msg
      | Some (len, s) \<Rightarrow>
     (case split_at (CHR '','') s of None \<Rightarrow> result 1 msg
      | Some (offs, toks) \<Rightarrow>
     hex_arg calloc toks msg (\<lambda>stream.
     if \<not> calloc (8 + length stream) then result (- ENOMEM) msg
     else put E ENOBUFS [Nla_bytes NL80211_WOWLAN_TCP_DATA_PAYLOAD_TOKEN (le32 (atoi offs) @ le32 (atoi len) @ stream)] msg k)))"

definition tcp_line :: "'w netlink \<Rightarrow> (nat \<Rightarrow> bool) \<Rightarrow> string \<Rightarrow> nl_msg \<Rightarrow> (nl_msg \<Rightarrow> 'w outcome) \<Rightarrow> 'w outcome" where
  "tcp_line E calloc buf msg k =
     (if strncmp_eq buf ''source='' 7 then tcp_source E (drop 7 buf) msg k
      else if strncmp_eq buf ''dest='' 5 then tcp_dest E (drop 5 buf) msg k
      else if strncmp_eq buf ''data='' 5 then
        hex_arg calloc (drop 5 buf) msg (\<lambda>pkt. put E ENOBUFS [Nla_bytes NL80211_WOWLAN_TCP_DATA_PAYLOAD pkt] msg k)
      else if strncmp_eq buf ''data.interval='' 14 then
        put E ENOBUFS [Nla_u32 NL80211_WOWLAN_TCP_DATA_INTERVAL (word_of_int (atoi (drop 14 buf)))] msg k
      else if strncmp_eq buf ''wake='' 5 then tcp_wake E calloc (drop 5 buf) msg k
      else if strncmp_eq buf ''data.seq='' 9 then tcp_seq E (drop 9 buf) msg k
      else if strncmp_eq buf ''data.tok='' 9 then tcp_tok E calloc (drop 9 buf) msg k
      else if char_at buf 0 = CHR ''#'' then k msg
      else result 1 msg)"

function tcp_lines :: "'w netlink \<Rightarrow> (nat \<Rightarrow> bool) \<Rightarrow> bool \<Rightarrow> string \<Rightarrow> nl_msg \<Rightarrow> (nl_msg \<Rightarrow> 'w outcome) \<Rightarrow> 'w outcome" where
  "tcp_lines E calloc first f msg k =
     (case fgets CO_BUF f of
        None \<Rightarrow> k (msg @ [Nest_end])
      | Some (l, f) \<Rightarrow>
          if first \<and> length l < 5 then undef_p
          else tcp_line E calloc (cut_line l) msg (\<lambda>msg. tcp_lines E calloc False f msg k))"
  by pat_completeness auto
termination
  by (relation "measure (\<lambda>(E, calloc, first, f, msg, k). length f)") (auto dest: fgets_progress simp: CO_BUF_def)

declare tcp_lines.simps [simp del]

text \<open>Without room for the nested attribute its end is marked through a null pointer.\<close>

definition wowlan_parse_tcp_file ::
  "'w netlink \<Rightarrow> (nat \<Rightarrow> bool) \<Rightarrow> string \<Rightarrow> nl_msg \<Rightarrow> (nl_msg \<Rightarrow> 'w outcome) \<Rightarrow> 'w outcome" where
  "wowlan_parse_tcp_file E calloc fn msg k =
     bind_p (sys (n_file E fn)) (\<lambda>f.
     case f of None \<Rightarrow> result 1 msg
     | Some content \<Rightarrow>
         (case nla_put (n_fits E) (Nest_start NL80211_WOWLAN_TRIG_TCP_CONNECTION) msg of
            None \<Rightarrow> undef_p
          | Some msg \<Rightarrow> tcp_lines E calloc True content msg k))"

subsection \<open>Detection of networks\<close>

datatype nd_parse_state = ND_TOPLEVEL | ND_MATCH | ND_FREQS

record net_detect =
  nd_i :: nat
  nd_interval :: "32 word"
  have_matchset :: bool
  have_freqs :: bool
  matchset :: nl_msg
  freqs :: nl_msg

definition start_nd :: net_detect where
  "start_nd = \<lparr>nd_i = 0, nd_interval = 0, have_matchset = False, have_freqs = False, matchset = [], freqs = []\<rparr>"

text \<open>
  The loop over the arguments: \<open>Inl\<close> an error, or the arguments that are left and the message.  The label
  \<open>nla_put_failure\<close>, where the loop leaves for a word that is not its own and for an attribute without room, is behind
  the two nested attributes; the error code is 0 there.
\<close>

function nd_loop ::
  "'w netlink \<Rightarrow> nd_parse_state \<Rightarrow> net_detect \<Rightarrow> string list \<Rightarrow> nl_msg \<Rightarrow> int + string list \<times> nl_msg" where
  "nd_loop E st d argv msg =
     (case argv of
        [] \<Rightarrow>
          (let msg = (if have_freqs d then put_nested E NL80211_ATTR_SCAN_FREQUENCIES (freqs d) msg else msg);
               msg = (if have_matchset d then put_nested E NL80211_ATTR_SCHED_SCAN_MATCH (matchset d) msg else msg)
           in Inr ([], msg @ [Nest_end]))
      | w # r \<Rightarrow>
     (case st of
        ND_TOPLEVEL \<Rightarrow>
          if w = ''interval'' then
            (case r of [] \<Rightarrow> Inl (- EINVAL)
             | a # r \<Rightarrow>
                 if nd_interval d \<noteq> 0 then Inl (- EINVAL)
                 else (case strtoul a 10 of (v, end) \<Rightarrow>
                   let interval = word_of_int v in
                   if end \<noteq> [] \<or> interval = 0 then Inl (- EINVAL)
                   else (case nla_put (n_fits E) (Nla_u32 NL80211_ATTR_SCHED_SCAN_INTERVAL interval) msg of
                     None \<Rightarrow> Inr (a # r, msg @ [Nest_end])
                   | Some msg \<Rightarrow> nd_loop E ND_TOPLEVEL (d\<lparr>nd_interval := interval\<rparr>) r msg)))
          else if w = ''matches'' then
            (if have_matchset d then Inl (- EINVAL) else nd_loop E ND_MATCH (d\<lparr>nd_i := 0\<rparr>) r msg)
          else if w = ''freqs'' then
            (if have_freqs d then Inl (- EINVAL) else nd_loop E ND_FREQS (d\<lparr>have_freqs := True, nd_i := 0\<rparr>) r msg)
          else Inr (w # r, msg @ [Nest_end])
      | ND_MATCH \<Rightarrow>
          if w = ''ssid'' then
            (case r of [] \<Rightarrow> Inl (- EINVAL)
             | a # r \<Rightarrow>
                 (case nla_put (n_fits E) (Nest_start (nd_i d)) (matchset d) of None \<Rightarrow> Inl (- ENOBUFS)
                  | Some ms \<Rightarrow>
                 (case nla_put (n_fits E) (Nla_bytes NL80211_SCHED_SCAN_MATCH_ATTR_SSID (bytes_of a)) ms of
                    None \<Rightarrow> Inr (a # r, msg @ [Nest_end])
                  | Some ms \<Rightarrow>
                      nd_loop E ND_MATCH (d\<lparr>matchset := ms @ [Nest_end], have_matchset := True, nd_i := nd_i d + 1\<rparr>) r msg)))
          else if nd_i d = 0 then Inl (- EINVAL)
          else nd_loop E ND_TOPLEVEL d argv msg
      | ND_FREQS \<Rightarrow>
          (case strtoul w 10 of (freq, end) \<Rightarrow>
             if end \<noteq> [] then (if nd_i d = 0 then Inl (- EINVAL) else nd_loop E ND_TOPLEVEL d argv msg)
             else (case nla_put (n_fits E) (Nla_u32 (nd_i d) (word_of_int freq)) (freqs d) of
                     None \<Rightarrow> Inr (argv, msg @ [Nest_end])
                   | Some fs \<Rightarrow> nd_loop E ND_FREQS (d\<lparr>freqs := fs, nd_i := nd_i d + 1\<rparr>) r msg))))"
  by pat_completeness auto
termination
  by (relation "measure (\<lambda>(E, st, d, argv, msg). 2 * length argv + (if st = ND_TOPLEVEL then 0 else 1))") auto

declare nd_loop.simps [simp del]

lemma nd_loop_shorter: "nd_loop E st d argv msg = Inr (argv', msg') \<Longrightarrow> length argv' \<le> length argv"
proof (induction "2 * length argv + (if st = ND_TOPLEVEL then 0 else 1 :: nat)" arbitrary: st d argv msg rule: less_induct)
  case less
  have shorter: "length argv' \<le> length argv"
    if "nd_loop E st' d' r msg'' = Inr (argv', msg')" "length r < length argv" for st' d' r msg''
    using less.hyps [OF _ that(1)] that(2) by (cases "st' = ND_TOPLEVEL"; cases "st = ND_TOPLEVEL") simp_all
  have same: "length argv' \<le> length argv" if "nd_loop E ND_TOPLEVEL d argv msg = Inr (argv', msg')" "st \<noteq> ND_TOPLEVEL"
    using less.hyps [OF _ that(1)] that(2) by simp
  show ?case
  proof (cases argv)
    case Nil
    then show ?thesis using less.prems by (simp add: nd_loop.simps [of E st d "[]" msg] Let_def)
  next
    case (Cons w r)
    have p: "nd_loop E st d (w # r) msg = Inr (argv', msg')" using less.prems Cons by simp
    note eq = p [unfolded nd_loop.simps [of E st d "w # r" msg] list.case]
    show ?thesis
    proof (cases st)
      case ND_TOPLEVEL
      then show ?thesis using eq shorter Cons
        by (fastforce simp: Let_def split: list.splits if_splits prod.splits option.splits)
    next
      case ND_MATCH
      then show ?thesis using eq shorter same Cons
        by (fastforce simp: Let_def split: list.splits if_splits prod.splits option.splits)
    next
      case ND_FREQS
      then show ?thesis using eq shorter same Cons
        by (fastforce simp: Let_def split: list.splits if_splits prod.splits option.splits)
    qed
  qed
qed

subsection \<open>The triggers\<close>

definition wow_flags :: "(string \<times> nat) list" where
  "wow_flags = [(''any'', NL80211_WOWLAN_TRIG_ANY), (''disconnect'', NL80211_WOWLAN_TRIG_DISCONNECT),
     (''magic-packet'', NL80211_WOWLAN_TRIG_MAGIC_PKT), (''gtk-rekey-failure'', NL80211_WOWLAN_TRIG_GTK_REKEY_FAILURE),
     (''eap-identity-request'', NL80211_WOWLAN_TRIG_EAP_IDENT_REQUEST),
     (''4way-handshake'', NL80211_WOWLAN_TRIG_4WAY_HANDSHAKE), (''rfkill-release'', NL80211_WOWLAN_TRIG_RFKILL_RELEASE)]"

text \<open>
  The loop over the arguments.  \<open>err\<close> is what the label \<open>nla_put_failure\<close> returns: \<open>-ENOBUFS\<close>, until a file or a
  detection has been read and has left 0 there.  \<open>patterns\<close> is the message for the patterns, once the word is read.
  A pattern without a text is a null pointer.
\<close>

function wow_loop ::
  "'w netlink \<Rightarrow> (nat \<Rightarrow> bool) \<Rightarrow> int \<Rightarrow> nat \<Rightarrow> nl_msg option \<Rightarrow> string list \<Rightarrow> nl_msg \<Rightarrow> 'w outcome" where
  "wow_loop E calloc err patnum patterns argv msg =
     (case argv of
        [] \<Rightarrow> result 0 ((case patterns of None \<Rightarrow> msg | Some p \<Rightarrow> put_nested E NL80211_WOWLAN_TRIG_PKT_PATTERN p msg) @ [Nest_end])
      | w # r \<Rightarrow>
     (case patterns of
        None \<Rightarrow>
          (case map_of wow_flags w of
             Some n \<Rightarrow> put E (- err) [Nla_flag n] msg (wow_loop E calloc err patnum None r)
           | None \<Rightarrow>
               if w = ''tcp'' then
                 (case r of [] \<Rightarrow> result 1 msg
                  | fn # r \<Rightarrow> wowlan_parse_tcp_file E calloc fn msg (wow_loop E calloc 0 patnum None r))
               else if w = ''patterns'' then
                 bind_p (sys (n_alloc E)) (\<lambda>ok.
                 if \<not> ok then result (- ENOMEM) msg else wow_loop E calloc err patnum (Some []) r msg)
               else if w = ''net-detect'' then
                 (if r = [] then result 1 msg else
                  case nla_put (n_fits E) (Nest_start NL80211_WOWLAN_TRIG_NET_DETECT) msg of
                    None \<Rightarrow> result (- ENOBUFS) msg
                  | Some m \<Rightarrow>
                      bind_p (sys (n_alloc E)) (\<lambda>ok. if \<not> ok then result (- ENOBUFS) m else
                      bind_p (sys (n_alloc E)) (\<lambda>ok. if \<not> ok then result (- ENOBUFS) m else
                      case nd_loop E ND_TOPLEVEL start_nd r m of
                        Inl e \<Rightarrow> result e m
                      | Inr (r', m') \<Rightarrow> wow_loop E calloc 0 patnum None r' m')))
               else result 1 msg)
      | Some ps \<Rightarrow>
          (case read_pattern None calloc w of
             None \<Rightarrow> undef_p
           | Some (Inl _) \<Rightarrow> result 1 msg
           | Some (Inr p) \<Rightarrow>
               (case nla_put (n_fits E) (Nest_start (patnum + 1)) ps of
                  None \<Rightarrow> (case put_all (n_fits E) (pattern_attrs p) ps of Inl _ \<Rightarrow> result err msg | Inr _ \<Rightarrow> undef_p)
                | Some m \<Rightarrow>
                    (case put_all (n_fits E) (pattern_attrs p) m of
                       Inl _ \<Rightarrow> result err msg
                     | Inr m \<Rightarrow> wow_loop E calloc err (patnum + 1) (Some (m @ [Nest_end])) r msg)))))"
  by pat_completeness auto
termination
  by (relation "measure (\<lambda>(E, calloc, err, patnum, patterns, argv, msg). length argv)")
    (auto dest: nd_loop_shorter simp: le_imp_less_Suc)

declare wow_loop.simps [simp del]

definition handle_wowlan_enable :: "'w netlink \<Rightarrow> (nat \<Rightarrow> bool) \<Rightarrow> 'w iw_handler" where
  "handle_wowlan_enable E calloc again msg argv idby = with_msg msg (\<lambda>msg.
     put E ENOBUFS [Nest_start NL80211_ATTR_WOWLAN_TRIGGERS] msg (wow_loop E calloc (- ENOBUFS) 0 None argv))"

subsection \<open>Showing the triggers\<close>

definition print_wow_pattern :: "nlattr \<Rightarrow> ('w, unit) iw" where
  "print_wow_pattern pattern =
     bind_p (nla_nested (Some pattern)) (\<lambda>as.
     let m = nla_tb as NL80211_PKTPAT_MASK; p = nla_tb as NL80211_PKTPAT_PATTERN; off = nla_tb as NL80211_PKTPAT_OFFSET in
     if m = None \<or> p = None then print (line '' * (invalid pattern specification)'')
     else bind_p (nla_data m) (\<lambda>msk. bind_p (nla_data p) (\<lambda>pat.
       if (length pat + 7) div 8 \<noteq> length msk then print (line '' * (invalid pattern specification)'')
       else then_p
         (if off = None then ret ()
          else bind_p (nla_get_u32 off) (\<lambda>pkt_offset. print ('' * wake up on packet offset: '' @ fmt_du pkt_offset)))
         (print (line ('' pattern: '' @ pattern_text pat msk))))))"

definition print_nd_match :: "nlattr \<Rightarrow> ('w, unit) iw" where
  "print_nd_match match =
     bind_p (nla_nested (Some match)) (\<lambda>as.
     then_p (print (tb @ tb @ ''SSID: ''))
       (bind_p (nla_data (nla_tb as NL80211_SCHED_SCAN_MATCH_ATTR_SSID)) (\<lambda>bs.
        print (line (print_ssid_escaped (map (\<lambda>b. char_of (unat b)) bs))))))"

text \<open>
  \<open>nla_parse\<close> is told that the arrays \<open>nd\<close> and \<open>tb\<close> have one entry more than they have, and clears it.
  \<open>spare\<close> says that what lies behind them is not needed; otherwise what follows is undefined.
\<close>

definition print_net_detect :: "bool \<Rightarrow> nlattr \<Rightarrow> ('w, unit) iw" where
  "print_net_detect spare trig =
     then_p (print (line '' * wake up on network detection''))
     (if \<not> spare then undef_p else
      bind_p (nla_nested (Some trig)) (\<lambda>nd.
      then_p (case nla_tb nd NL80211_ATTR_SCHED_SCAN_INTERVAL of None \<Rightarrow> ret ()
        | Some a \<Rightarrow> bind_p (nla_get_u32 (Some a)) (\<lambda>v. print (line (tb @ ''scan interval: '' @ fmt_du v @ '' msecs''))))
      (then_p (case nla_tb nd NL80211_ATTR_SCHED_SCAN_MATCH of None \<Rightarrow> ret ()
        | Some a \<Rightarrow> then_p (print (line (tb @ ''matches:'')))
            (bind_p (nla_nested (Some a)) (\<lambda>ms. for_p ms print_nd_match)))
      (case nla_tb nd NL80211_ATTR_SCAN_FREQUENCIES of None \<Rightarrow> ret ()
        | Some a \<Rightarrow> then_p (print (tb @ ''frequencies:''))
            (bind_p (nla_nested (Some a)) (\<lambda>fs.
             then_p (for_p fs (\<lambda>f. bind_p (nla_get_u32 (Some f)) (\<lambda>v. print ('' '' @ fmt_du v)))) (print [nl])))))))"

definition wow_lines :: "(nat \<times> string) list" where
  "wow_lines = [(NL80211_WOWLAN_TRIG_ANY, ''special any trigger''), (NL80211_WOWLAN_TRIG_DISCONNECT, ''disconnect''),
     (NL80211_WOWLAN_TRIG_MAGIC_PKT, ''magic packet''), (NL80211_WOWLAN_TRIG_GTK_REKEY_FAILURE, ''GTK rekeying failure''),
     (NL80211_WOWLAN_TRIG_EAP_IDENT_REQUEST, ''EAP identity request''),
     (NL80211_WOWLAN_TRIG_4WAY_HANDSHAKE, ''4-way handshake''), (NL80211_WOWLAN_TRIG_RFKILL_RELEASE, ''RF-kill release'')]"

definition print_wowlan :: "bool \<Rightarrow> 'w valid_cb" where
  "print_wowlan spare m u =
     (case nla_tb (rx_attrs m) NL80211_ATTR_WOWLAN_TRIGGERS of
        None \<Rightarrow> print (line ''WoWLAN is disabled.'')
      | Some a \<Rightarrow>
          bind_p (nla_nested (Some a)) (\<lambda>trig.
          then_p (print (line ''WoWLAN is enabled:''))
          (then_p (for_p wow_lines (\<lambda>(n, t). if nla_tb trig n = None then ret () else print (line ('' * wake up on '' @ t))))
          (then_p (case nla_tb trig NL80211_WOWLAN_TRIG_NET_DETECT of None \<Rightarrow> ret () | Some a \<Rightarrow> print_net_detect spare a)
          (then_p (case nla_tb trig NL80211_WOWLAN_TRIG_PKT_PATTERN of None \<Rightarrow> ret ()
             | Some a \<Rightarrow> bind_p (nla_nested (Some a)) (\<lambda>ps. for_p ps print_wow_pattern))
          (if nla_tb trig NL80211_WOWLAN_TRIG_TCP_CONNECTION = None then ret ()
           else print (line '' * wake up on TCP connection'')))))))"

definition handle_wowlan_show :: "bool \<Rightarrow> 'w iw_handler" where
  "handle_wowlan_show spare again msg argv idby = with_msg msg (with_cb (print_wowlan spare))"

definition wowlan_cmds :: "'w netlink \<Rightarrow> (nat \<Rightarrow> bool) \<Rightarrow> bool \<Rightarrow> 'w cmd list" where
  "wowlan_cmds E calloc spare = [SECTION ''wowlan'',
     COMMAND ''wowlan'' ''wowlan_enable'' ''enable''
       (Some (''[any] [disconnect] [magic-packet] [gtk-rekey-failure] [eap-identity-request]'' @
          '' [4way-handshake] [rfkill-release] [net-detect interval <in_msecs> [freqs <freq>+] [matches [ssid <ssid>]+]]'' @
          '' [tcp <config-file>] [patterns [offset1+]<pattern1> ...]'')) 74 0 CIB_PHY (handle_wowlan_enable E calloc)
       (line ''Enable WoWLAN with the given triggers.'' @
        line (''Each pattern is given as a bytestring with '' @ quoted ''-'' @ '' in places where any byte'') @
        line ''may be present, e.g. 00:11:22:-:44 will match 00:11:22:33:44 and'' @
        line ''00:11:22:33:ff:44 etc.'' @
        ''Offset and pattern should be separated by '' @ quoted ''+'' @ '', e.g. 18+43:34:00:12 will match '' @
        line (quoted ''43:34:00:12'' @ '' after 18 bytes of offset in Rx packet.'') @ [nl] @
        line ''The TCP configuration file contains:'' @ line ''  source=ip[:port]'' @ line ''  dest=ip:port@mac'' @
        line ''  data=<hex data packet>'' @ line ''  data.interval=seconds'' @
        line (''  [wake=<hex packet with masked out bytes indicated by '' @ quoted ''-'' @ ''>]'') @
        line ''  [data.seq=len,offset[,start]]'' @ line ''  [data.tok=len,offset,<token stream>]'' @ [nl] @
        line ''Net-detect configuration example:'' @
        '' iw phy0 wowlan enable net-detect interval 5000 freqs 2412 2422 matches ssid foo ssid bar''),
     COMMAND ''wowlan'' ''wowlan_disable'' ''disable'' (Some '''') 74 0 CIB_PHY no_change ''Disable WoWLAN.'',
     COMMAND ''wowlan'' ''wowlan_show'' ''show'' (Some '''') 73 0 CIB_PHY (handle_wowlan_show spare) ''Show WoWLAN status.'']"

subsection \<open>Patterns set and shown\<close>

lemma wow_flag:
  assumes "(w, n) \<in> set wow_flags"
  shows "map_of wow_flags w = Some n" "w \<notin> {''interval'', ''matches'', ''freqs'', ''ssid''}" "n \<noteq> NL80211_WOWLAN_TRIG_PKT_PATTERN"
    "n \<noteq> NL80211_WOWLAN_TRIG_NET_DETECT" "n \<noteq> NL80211_WOWLAN_TRIG_TCP_CONNECTION"
proof -
  have "distinct (map fst wow_flags)" by code_simp
  then show "map_of wow_flags w = Some n" using assms by simp
  have "list_all (\<lambda>(w, n). w \<notin> {''interval'', ''matches'', ''freqs'', ''ssid''} \<and> n \<noteq> NL80211_WOWLAN_TRIG_PKT_PATTERN \<and>
     n \<noteq> NL80211_WOWLAN_TRIG_NET_DETECT \<and> n \<noteq> NL80211_WOWLAN_TRIG_TCP_CONNECTION) wow_flags" by code_simp
  then show "w \<notin> {''interval'', ''matches'', ''freqs'', ''ssid''}" "n \<noteq> NL80211_WOWLAN_TRIG_PKT_PATTERN"
    "n \<noteq> NL80211_WOWLAN_TRIG_NET_DETECT" "n \<noteq> NL80211_WOWLAN_TRIG_TCP_CONNECTION" using assms by (auto simp: list_all_iff)
qed

lemma not_flags: "map_of wow_flags ''patterns'' = None" "map_of wow_flags ''net-detect'' = None"
  by code_simp+

lemma wow_flags_run:
  assumes "\<And>m. n_fits E m"
  shows "set fl \<subseteq> set wow_flags \<Longrightarrow>
    wow_loop E calloc err num None (map fst fl @ r) msg = wow_loop E calloc err num None r (msg @ map (Nla_flag \<circ> snd) fl)"
proof (induction fl arbitrary: msg)
  case (Cons f fl)
  obtain w n where f: "f = (w, n)" by (cases f)
  have m: "map_of wow_flags w = Some n" using wow_flag(1) Cons.prems f by simp
  show ?case using Cons by (subst wow_loop.simps) (simp add: f m put_fits assms comp_def)
qed simp

lemma wow_patterns_run:
  assumes "\<And>m. n_fits E m"
  shows "list_all2 (\<lambda>p q. read_pattern None calloc (pat_arg p) = Some (Inr q) \<and> stored_as p q) ps qs \<Longrightarrow>
    wow_loop E calloc err num (Some m) (map pat_arg ps) msg =
      result 0 (msg @ Nest_start NL80211_WOWLAN_TRIG_PKT_PATTERN # m @ flats (number_patterns (num + 1) qs) @ [Nest_end, Nest_end])"
proof (induction ps qs arbitrary: num m rule: list_all2_induct)
  case Nil
  show ?case by (subst wow_loop.simps) (simp add: put_nested_def Let_def assms)
next
  case (Cons p ps q qs)
  show ?case
    using Cons.hyps(1) Cons.IH by (subst wow_loop.simps) (simp add: nla_put_def assms put_all_fits flat_pattern_tree)
qed

lemma nla_tb_None: "nla_tb as n = None \<longleftrightarrow> n \<notin> nla_type ` set as"
  by (auto simp: nla_tb_def find_None_iff)

text \<open>The lines that \<open>iw wowlan show\<close> prints for triggers and for a pattern.\<close>

definition flag_text :: "nat set \<Rightarrow> string" where
  "flag_text ns = concat (map (\<lambda>(n, t). if n \<in> ns then line ('' * wake up on '' @ t) else '''') wow_lines)"

definition wow_pat_line :: "pat \<Rightarrow> string" where
  "wow_pat_line = (\<lambda>(off, ps). line ('' * wake up on packet offset: '' @ fmt_d (int off) @ '' pattern: '' @ pat_text ps))"

lemma print_wow_tree: "good_pat p \<Longrightarrow> stored_as p q \<Longrightarrow> print_wow_pattern (pattern_tree k q) = print (wow_pat_line p)"
proof -
  assume a: "good_pat p" "stored_as p q"
  obtain off ps where p: "p = (off, ps)" by (cases p)
  have o: "off < 2 ^ 31" using a(1) by (simp add: p good_pat_def)
  obtain msk pat where t: "pattern_tree k q = At_nest k
     [At_bytes NL80211_PKTPAT_MASK msk, At_bytes NL80211_PKTPAT_PATTERN pat, At_u32 NL80211_PKTPAT_OFFSET (word_of_nat off)]"
    "(length pat + 7) div 8 = length msk" "pattern_text pat msk = pat_text ps" "fmt_du (unat (word_of_nat off :: 32 word)) = fmt_d (int off)"
    using pattern_tree_read [of off ps q k] a(2) o p by metis
  show ?thesis
    by (simp add: print_wow_pattern_def t(1,2) nla_gets pkt_tb Let_def then_print)
      (simp add: t(3,4) wow_pat_line_def p line_def)
qed

lemma print_wow_trees:
  "list_all2 (\<lambda>p q. good_pat p \<and> stored_as p q) ps qs \<Longrightarrow>
    for_p (number_patterns k qs) print_wow_pattern = print (concat (map wow_pat_line ps))"
proof (induction ps qs arbitrary: k rule: list_all2_induct)
  case (Cons p ps q qs)
  then have "print_wow_pattern (pattern_tree k q) = (print (wow_pat_line p) :: ('a, unit) iw)" by (intro print_wow_tree) simp_all
  then show ?case using Cons by (simp add: then_print)
qed (simp add: print_nothing)

lemma print_wow_flags:
  assumes "\<And>n t. (n, t) \<in> set wow_lines \<Longrightarrow> nla_tb trig n = None \<longleftrightarrow> n \<notin> ns"
  shows "for_p wow_lines (\<lambda>(n, t). if nla_tb trig n = None then ret () else print (line ('' * wake up on '' @ t))) = print (flag_text ns)"
  unfolding flag_text_def
proof (rule for_print)
  fix x
  assume x: "x \<in> set wow_lines"
  obtain n t where nt: "x = (n, t)" by (cases x)
  show "(case x of (n, t) \<Rightarrow> if nla_tb trig n = None then ret () else print (line ('' * wake up on '' @ t))) =
    print (case x of (n, t) \<Rightarrow> if n \<in> ns then line ('' * wake up on '' @ t) else '''')"
    using assms [of n t] x by (cases "n \<in> ns") (auto simp: nt print_nothing)
qed

lemma wow_lines_other: "(n, t) \<in> set wow_lines \<Longrightarrow> n \<noteq> NL80211_WOWLAN_TRIG_PKT_PATTERN"
proof -
  have "list_all (\<lambda>(n, t). n \<noteq> NL80211_WOWLAN_TRIG_PKT_PATTERN) wow_lines" by code_simp
  then show "(n, t) \<in> set wow_lines \<Longrightarrow> n \<noteq> NL80211_WOWLAN_TRIG_PKT_PATTERN" by (auto simp: list_all_iff)
qed

lemma print_wowlan_prints:
  assumes "nla_tb trig NL80211_WOWLAN_TRIG_NET_DETECT = None" "nla_tb trig NL80211_WOWLAN_TRIG_TCP_CONNECTION = None"
    and "nla_tb trig NL80211_WOWLAN_TRIG_PKT_PATTERN = Some (At_nest n trees)"
    and "for_p wow_lines (\<lambda>(n, t). if nla_tb trig n = None then ret () else print (line ('' * wake up on '' @ t))) = (print ft :: ('w, unit) iw)"
    and "for_p trees print_wow_pattern = (print pt :: ('w, unit) iw)"
  shows "print_wowlan spare \<lparr>rx_cmd = c, rx_attrs = [At_nest NL80211_ATTR_WOWLAN_TRIGGERS trig]\<rparr> () =
    (print (line ''WoWLAN is enabled:'' @ ft @ pt) :: ('w, unit) iw)"
proof -
  have t: "nla_tb [At_nest NL80211_ATTR_WOWLAN_TRIGGERS trig] NL80211_ATTR_WOWLAN_TRIGGERS = Some (At_nest NL80211_ATTR_WOWLAN_TRIGGERS trig)"
    by (simp add: nla_tb_def)
  show ?thesis
    by (simp add: print_wowlan_def t nla_gets assms) (simp add: print_nothing [symmetric] then_print)
qed

text \<open>
  C19.  Triggers that were enabled are shown: for any of the simple triggers in any order and any patterns with
  offsets, \<open>iw wowlan enable\<close> puts them into the message, and \<open>iw wowlan show\<close> prints from such a message one line for each
  trigger and each pattern as it was written, byte for byte.
\<close>

theorem wowlan_shown:
  assumes "set fl \<subseteq> set wow_flags" "list_all good_pat ps"
    and fits: "\<And>m. n_fits E m" and alloc: "\<And>w. n_alloc E w = (True, w)" and calloc: "\<And>n. calloc n"
  shows "\<exists>trees. handle_wowlan_enable E calloc again (Some msg) (map fst fl @ ''patterns'' # map pat_arg ps) idby s =
      (Inr (0, msg @ flats [At_nest NL80211_ATTR_WOWLAN_TRIGGERS (map (At_flag \<circ> snd) fl @ [At_nest NL80211_WOWLAN_TRIG_PKT_PATTERN trees])], no_cb), s) \<and>
    print_wowlan spare \<lparr>rx_cmd = c, rx_attrs = [At_nest NL80211_ATTR_WOWLAN_TRIGGERS
        (map (At_flag \<circ> snd) fl @ [At_nest NL80211_WOWLAN_TRIG_PKT_PATTERN trees])]\<rparr> () s =
      (Inr (), s\<lparr>stdout := stdout s @ line ''WoWLAN is enabled:'' @ flag_text (snd ` set fl) @ concat (map wow_pat_line ps)\<rparr>)"
proof -
  obtain qs where q: "list_all2 (\<lambda>p q. read_pattern None calloc (pat_arg p) = Some (Inr q) \<and> stored_as p q) ps qs"
    using read_pat_args [of ps calloc None] assms(2) calloc by blast
  have st: "list_all2 (\<lambda>p q. good_pat p \<and> stored_as p q) ps qs"
    using q assms(2) by (simp add: list_all2_conv_all_nth list_all_length)
  let ?trees = "number_patterns 1 qs"
  let ?trig = "map (At_flag \<circ> snd) fl @ [At_nest NL80211_WOWLAN_TRIG_PKT_PATTERN ?trees]"
  have flat_flags: "flats (map (At_flag \<circ> snd) fl) = map (Nla_flag \<circ> snd) fl" for fl :: "(string \<times> nat) list"
    by (induction fl) simp_all
  have run: "handle_wowlan_enable E calloc again (Some msg) (map fst fl @ ''patterns'' # map pat_arg ps) idby s =
      (Inr (0, msg @ flats [At_nest NL80211_ATTR_WOWLAN_TRIGGERS ?trig], no_cb), s)"
    unfolding handle_wowlan_enable_def with_msg_def option.case put_fits [OF fits] wow_flags_run [OF fits assms(1)]
    by (subst wow_loop.simps)
      (simp add: not_flags wow_patterns_run [OF fits q] bind_p_def sys_def alloc result_def ret_def flat_nest flat_flags del: flat.simps(7))
  have types: "nla_type ` set ?trig = insert NL80211_WOWLAN_TRIG_PKT_PATTERN (snd ` set fl)"
    by (simp add: image_comp comp_def)
  have other: "nla_tb ?trig NL80211_WOWLAN_TRIG_NET_DETECT = None" "nla_tb ?trig NL80211_WOWLAN_TRIG_TCP_CONNECTION = None"
    unfolding nla_tb_None types using wow_flag(4,5) assms(1)
    by (auto simp: NL80211_WOWLAN_TRIG_PKT_PATTERN_def NL80211_WOWLAN_TRIG_NET_DETECT_def NL80211_WOWLAN_TRIG_TCP_CONNECTION_def)
  have fl: "for_p wow_lines (\<lambda>(n, t). if nla_tb ?trig n = None then ret () else print (line ('' * wake up on '' @ t))) =
      (print (flag_text (snd ` set fl)) :: ('a, unit) iw)"
    by (rule print_wow_flags, unfold nla_tb_None types, frule wow_lines_other) simp
  have pk: "nla_tb ?trig NL80211_WOWLAN_TRIG_PKT_PATTERN = Some (At_nest NL80211_WOWLAN_TRIG_PKT_PATTERN ?trees)"
    by (simp add: nla_tb_def)
  have "print_wowlan spare \<lparr>rx_cmd = c, rx_attrs = [At_nest NL80211_ATTR_WOWLAN_TRIGGERS ?trig]\<rparr> () =
      (print (line ''WoWLAN is enabled:'' @ flag_text (snd ` set fl) @ concat (map wow_pat_line ps)) :: ('a, unit) iw)"
    by (rule print_wowlan_prints [OF other pk fl print_wow_trees [OF st]])
  with run show ?thesis by (intro exI [of _ ?trees]) (simp add: print_def)
qed

theorem wowlan_shown_witness:
  "\<exists>trees. print_wowlan False \<lparr>rx_cmd = 73, rx_attrs = [At_nest NL80211_ATTR_WOWLAN_TRIGGERS
       [At_flag NL80211_WOWLAN_TRIG_MAGIC_PKT, At_nest NL80211_WOWLAN_TRIG_PKT_PATTERN trees]]\<rparr> () \<lparr>world = (), stdin = [], stdout = [], stderr = []\<rparr> =
     (Inr (), \<lparr>world = (), stdin = [], stdout = line ''WoWLAN is enabled:'' @ line '' * wake up on magic packet'' @
       line '' * wake up on packet offset: 18 pattern: 00:--:ff'', stderr = []\<rparr>)"
proof -
  have "flag_text {NL80211_WOWLAN_TRIG_MAGIC_PKT} = line '' * wake up on magic packet''" by code_simp
  moreover have "wow_pat_line (18, [Some 0, None, Some 255]) = line '' * wake up on packet offset: 18 pattern: 00:--:ff''" by code_simp
  ultimately show ?thesis
    using wowlan_shown [of "[(''magic-packet'', NL80211_WOWLAN_TRIG_MAGIC_PKT)]" "[(18, [Some 0, None, Some 255])]"
        "null_netlink :: unit netlink" "\<lambda>_. True" "\<lambda>_ _. ret 0" "[]" II_PHY_NAME
        "\<lparr>world = (), stdin = [], stdout = [], stderr = []\<rparr>" False 73]
    by (auto simp: null_netlink_def wow_flags_def good_pat_def)
qed

subsection \<open>A detection of networks\<close>

text \<open>The words of a detection with an interval, frequencies and SSIDs, and the attributes for the last two.\<close>

definition nd_words :: "nat \<Rightarrow> nat list \<Rightarrow> string list \<Rightarrow> string list" where
  "nd_words n fs ss =
     [''interval'', fmt_d (int n), ''freqs''] @ map (\<lambda>f. fmt_d (int f)) fs @ [''matches''] @ concat (map (\<lambda>s. [''ssid'', s]) ss)"

fun freq_attrs :: "nat \<Rightarrow> nat list \<Rightarrow> nlattr list" where
  "freq_attrs k [] = []"
| "freq_attrs k (f # fs) = At_u32 k (word_of_nat f) # freq_attrs (k + 1) fs"

fun ssid_attrs :: "nat \<Rightarrow> string list \<Rightarrow> nlattr list" where
  "ssid_attrs k [] = []"
| "ssid_attrs k (s # ss) = At_nest k [At_bytes NL80211_SCHED_SCAN_MATCH_ATTR_SSID (bytes_of s)] # ssid_attrs (k + 1) ss"

lemma nd_freqs_run:
  assumes "\<And>m. n_fits E m"
  shows "\<forall>f \<in> set fs. f < 2 ^ 32 \<Longrightarrow>
    nd_loop E ND_FREQS d (map (\<lambda>f. fmt_d (int f)) fs @ r) msg =
      nd_loop E ND_FREQS (d\<lparr>freqs := freqs d @ flats (freq_attrs (nd_i d) fs), nd_i := nd_i d + length fs\<rparr>) r msg"
proof (induction fs arbitrary: d)
  case (Cons f fs)
  have n: "strtoul (fmt_d (int f)) 10 = (int f, [])" using strtoul_fmt_d [of f] Cons.prems by simp
  show ?case using Cons by (subst nd_loop.simps) (simp add: n nla_put_def assms)
qed simp

lemma nd_ssids_run:
  assumes "\<And>m. n_fits E m"
  shows "nd_loop E ND_MATCH d (concat (map (\<lambda>s. [''ssid'', s]) ss) @ r) msg =
      nd_loop E ND_MATCH (d\<lparr>matchset := matchset d @ flats (ssid_attrs (nd_i d) ss), have_matchset := (ss \<noteq> [] \<or> have_matchset d),
        nd_i := nd_i d + length ss\<rparr>) r msg"
proof (induction ss arbitrary: d)
  case (Cons s ss)
  show ?case using Cons by (subst nd_loop.simps) (simp add: nla_put_def assms)
qed simp

lemma nd_words_run:
  assumes "\<And>m. n_fits E m" "n \<noteq> 0" "n < 2 ^ 32" "fs \<noteq> []" "\<forall>f \<in> set fs. f < 2 ^ 32" "ss \<noteq> []"
  shows "nd_loop E ND_TOPLEVEL start_nd (nd_words n fs ss @ r) msg =
    nd_loop E ND_MATCH \<lparr>nd_i = length ss, nd_interval = word_of_nat n, have_matchset = True, have_freqs = True,
      matchset = flats (ssid_attrs 0 ss), freqs = flats (freq_attrs 0 fs)\<rparr> r (msg @ [Nla_u32 NL80211_ATTR_SCHED_SCAN_INTERVAL (word_of_nat n)])"
proof -
  have n: "strtoul (fmt_d (int n)) 10 = (int n, [])" using strtoul_fmt_d [of n] assms(3) by simp
  have z: "(word_of_nat n :: 32 word) \<noteq> 0" using assms(2,3) by (simp add: word_of_nat_eq_0_iff nat_dvd_not_less)
  let ?m = "msg @ [Nla_u32 NL80211_ATTR_SCHED_SCAN_INTERVAL (word_of_nat n)]"
  let ?r = "concat (map (\<lambda>s. [''ssid'', s]) ss) @ r"
  have "nd_loop E ND_TOPLEVEL start_nd (nd_words n fs ss @ r) msg =
      nd_loop E ND_TOPLEVEL (start_nd\<lparr>nd_interval := word_of_nat n\<rparr>) (''freqs'' # map (\<lambda>f. fmt_d (int f)) fs @ ''matches'' # ?r) ?m"
    by (subst nd_loop.simps) (simp add: nd_words_def n z nla_put_def assms(1) start_nd_def Let_def)
  also have "\<dots> = nd_loop E ND_FREQS (start_nd\<lparr>nd_interval := word_of_nat n, have_freqs := True\<rparr>)
      (map (\<lambda>f. fmt_d (int f)) fs @ ''matches'' # ?r) ?m"
    by (subst nd_loop.simps) (simp add: start_nd_def)
  also have "\<dots> = nd_loop E ND_FREQS (start_nd\<lparr>nd_interval := word_of_nat n, have_freqs := True,
      freqs := flats (freq_attrs 0 fs), nd_i := length fs\<rparr>) (''matches'' # ?r) ?m"
    by (subst nd_freqs_run [OF assms(1,5)]) (simp add: start_nd_def)
  also have "\<dots> = nd_loop E ND_TOPLEVEL (start_nd\<lparr>nd_interval := word_of_nat n, have_freqs := True,
      freqs := flats (freq_attrs 0 fs), nd_i := length fs\<rparr>) (''matches'' # ?r) ?m"
  proof -
    have "strtoul ''matches'' 10 = (0, ''matches'')" by code_simp
    then show ?thesis using assms(4) by (subst nd_loop.simps) (simp add: start_nd_def)
  qed
  also have "\<dots> = nd_loop E ND_MATCH (start_nd\<lparr>nd_interval := word_of_nat n, have_freqs := True,
      freqs := flats (freq_attrs 0 fs)\<rparr>) ?r ?m"
    by (subst nd_loop.simps) (simp add: start_nd_def)
  also have "\<dots> = nd_loop E ND_MATCH \<lparr>nd_i = length ss, nd_interval = word_of_nat n, have_matchset = True, have_freqs = True,
      matchset = flats (ssid_attrs 0 ss), freqs = flats (freq_attrs 0 fs)\<rparr> r ?m"
    by (subst nd_ssids_run [OF assms(1)]) (simp add: start_nd_def assms(6))
  finally show ?thesis .
qed

text \<open>
  C20.  A detection of networks as the last trigger is put into the message as it was asked for.  With another
  trigger behind it, it is put there without its frequencies and without its SSIDs, and the command succeeds: the
  word of the other trigger makes the loop leave for the label behind the two nested attributes.
\<close>

theorem net_detect_request:
  assumes "n \<noteq> 0" "n < 2 ^ 32" "fs \<noteq> []" "\<forall>f \<in> set fs. f < 2 ^ 32" "ss \<noteq> []" "set fl \<subseteq> set wow_flags"
    and fits: "\<And>m. n_fits E m" and alloc: "\<And>w. n_alloc E w = (True, w)"
  shows "handle_wowlan_enable E calloc again (Some msg) (''net-detect'' # nd_words n fs ss @ map fst fl) idby =
    result 0 (msg @ flats [At_nest NL80211_ATTR_WOWLAN_TRIGGERS
      (At_nest NL80211_WOWLAN_TRIG_NET_DETECT (At_u32 NL80211_ATTR_SCHED_SCAN_INTERVAL (word_of_nat n) #
         (if fl = [] then [At_nest NL80211_ATTR_SCAN_FREQUENCIES (freq_attrs 0 fs), At_nest NL80211_ATTR_SCHED_SCAN_MATCH (ssid_attrs 0 ss)]
          else [])) #
       map (At_flag \<circ> snd) fl)])"
proof -
  let ?iv = "Nla_u32 NL80211_ATTR_SCHED_SCAN_INTERVAL (word_of_nat n)"
  let ?nd = "if fl = [] then flats [At_nest NL80211_ATTR_SCAN_FREQUENCIES (freq_attrs 0 fs), At_nest NL80211_ATTR_SCHED_SCAN_MATCH (ssid_attrs 0 ss)] else []"
  have nd: "nd_loop E ND_TOPLEVEL start_nd (nd_words n fs ss @ map fst fl) m = Inr (map fst fl, m @ ?iv # ?nd @ [Nest_end])" for m
  proof (cases fl)
    case Nil
    show ?thesis unfolding nd_words_run [OF fits assms(1-5)]
      by (subst nd_loop.simps) (simp add: Nil put_nested_def Let_def fits flat_nest del: flat.simps(7))
  next
    case (Cons f fl')
    obtain w k where f: "f = (w, k)" by (cases f)
    have w: "w \<notin> {''interval'', ''matches'', ''freqs'', ''ssid''}" using wow_flag(2) [of w k] assms(6) Cons f by simp
    show ?thesis unfolding nd_words_run [OF fits assms(1-5)]
      by (subst nd_loop.simps) (use w assms(5) in \<open>simp add: Cons f nd_loop.simps [of _ ND_TOPLEVEL]\<close>)
  qed
  have flat_flags: "flats (map (At_flag \<circ> snd) fl) = map (Nla_flag \<circ> snd) fl"
    by (induction fl) simp_all
  have flags_end: "wow_loop E calloc e 0 None (map fst fl) m = result 0 (m @ map (Nla_flag \<circ> snd) fl @ [Nest_end])" for e m
    using wow_flags_run [OF fits assms(6), of calloc e 0 "[]" m] by (simp add: wow_loop.simps [of _ _ _ _ _ "[]"])
  have ne: "nd_words n fs ss \<noteq> []" by (simp add: nd_words_def)
  show ?thesis
    unfolding handle_wowlan_enable_def with_msg_def option.case put_fits [OF fits]
    by (subst wow_loop.simps)
      (simp add: not_flags ne nla_put_def fits bind_p_def sys_def alloc nd flags_end flat_nest flat_flags fun_eq_iff del: flat.simps(7))
qed

theorem net_detect_request_witness:
  "handle_wowlan_enable (null_netlink :: unit netlink) (\<lambda>_. True) (\<lambda>_ _. ret 0) (Some []) (''net-detect'' # nd_words 5000 [2412] [''foo''] @ [''any'']) II_PHY_NAME =
     result 0 (flats [At_nest NL80211_ATTR_WOWLAN_TRIGGERS [At_nest NL80211_WOWLAN_TRIG_NET_DETECT [At_u32 NL80211_ATTR_SCHED_SCAN_INTERVAL 5000],
       At_flag NL80211_WOWLAN_TRIG_ANY]])"
  using net_detect_request [of 5000 "[2412]" "[''foo'']" "[(''any'', NL80211_WOWLAN_TRIG_ANY)]" "null_netlink :: unit netlink"
      "\<lambda>_. True" "\<lambda>_ _. ret 0" "[]" II_PHY_NAME]
  by (simp add: null_netlink_def wow_flags_def)

end
