(* ===== verification/Iw_Attr.thy ===== *)
theory Iw_Attr
  imports Iw_Phy Iw_Commands
begin

text \<open>
  What the printers of the answers of the kernel share: strings and numbers in attributes, attributes that are
  printed when they are there, and the static variables that a callback keeps from one message to the next.
\<close>

text \<open>A string in an attribute ends with a NUL, or is read past.\<close>

definition nla_get_string :: "nlattr option \<Rightarrow> ('w, string) iw" where
  "nla_get_string a = bind_p (nla_data a) (\<lambda>bs.
     if 0 \<notin> set bs then undef_p else ret (map (\<lambda>b. char_of (unat b)) (takeWhile (\<lambda>b. b \<noteq> 0) bs)))"

definition nla_get_u64 :: "nlattr option \<Rightarrow> ('w, nat) iw" where
  "nla_get_u64 a = (case a of Some (At_u64 _ v) \<Rightarrow> ret (unat v) | _ \<Rightarrow> undef_p)"

definition on_attr :: "nlattr list \<Rightarrow> nat \<Rightarrow> (nlattr \<Rightarrow> ('w, unit) iw) \<Rightarrow> ('w, unit) iw" where
  "on_attr as n f = (case nla_tb as n of None \<Rightarrow> ret () | Some a \<Rightarrow> f a)"

definition on_u32 :: "nlattr list \<Rightarrow> nat \<Rightarrow> (nat \<Rightarrow> ('w, unit) iw) \<Rightarrow> ('w, unit) iw" where
  "on_u32 as n f = on_attr as n (\<lambda>a. bind_p (nla_get_u32 (Some a)) f)"

definition on_u16 :: "nlattr list \<Rightarrow> nat \<Rightarrow> (nat \<Rightarrow> ('w, unit) iw) \<Rightarrow> ('w, unit) iw" where
  "on_u16 as n f = on_attr as n (\<lambda>a. bind_p (nla_get_u16 (Some a)) f)"

definition on_u8 :: "nlattr list \<Rightarrow> nat \<Rightarrow> (nat \<Rightarrow> ('w, unit) iw) \<Rightarrow> ('w, unit) iw" where
  "on_u8 as n f = on_attr as n (\<lambda>a. bind_p (nla_get_u8 (Some a)) f)"

definition on_u64 :: "nlattr list \<Rightarrow> nat \<Rightarrow> (nat \<Rightarrow> ('w, unit) iw) \<Rightarrow> ('w, unit) iw" where
  "on_u64 as n f = on_attr as n (\<lambda>a. bind_p (nla_get_u64 (Some a)) f)"

definition on_mac :: "nlattr list \<Rightarrow> nat \<Rightarrow> (string \<Rightarrow> ('w, unit) iw) \<Rightarrow> ('w, unit) iw" where
  "on_mac as n f = on_attr as n (\<lambda>a. bind_p (mac_text_of (Some a)) f)"

definition on_ssid :: "nlattr list \<Rightarrow> nat \<Rightarrow> (string \<Rightarrow> ('w, unit) iw) \<Rightarrow> ('w, unit) iw" where
  "on_ssid as n f = on_attr as n (\<lambda>a. bind_p (nla_data (Some a)) (\<lambda>bs.
     f (print_ssid_escaped (map (\<lambda>b. char_of (unat b)) bs))))"

lemmas on_defs = on_attr_def on_u32_def on_u16_def on_u8_def on_u64_def on_mac_def on_ssid_def nla_get_u64_def nla_get_string_def

fun seq_p :: "('w, unit) iw list \<Rightarrow> ('w, unit) iw" where
  "seq_p [] = ret ()"
| "seq_p (p # ps) = then_p p (seq_p ps)"

lemma wp_seq_p [wp_simps]:
  "wp (seq_p []) Q X s = Q () s" "wp (seq_p (p # ps)) Q X s = wp p (\<lambda>_. wp (seq_p ps) Q X) X s"
  by (simp_all add: wp_simps)

lemma stops_wp: "(fst (m s) = Inl Undef) = (\<not> wp m (\<lambda>_ _. True) (\<lambda>c _. c \<noteq> Undef) s)"
  by (auto simp: wp_def split: prod.splits sum.splits)

text \<open>A static variable of the program: how it is read and written in the state of the outside.\<close>

type_synonym ('w, 'v) cell = "('w \<Rightarrow> 'v) \<times> ('v \<Rightarrow> 'w \<Rightarrow> 'w)"
type_synonym 'w var = "('w, int) cell"

definition get_var :: "('w, 'v) cell \<Rightarrow> ('w, 'v) iw" where
  "get_var v = sys (\<lambda>w. (fst v w, w))"

definition set_var :: "('w, 'v) cell \<Rightarrow> 'v \<Rightarrow> ('w, unit) iw" where
  "set_var v x = sys (\<lambda>w. ((), snd v x w))"

text \<open>What a static variable promises to the code that uses it: it holds what was written last.\<close>

locale static_var =
  fixes v :: "('w, 'v) cell"
  assumes read_write: "fst v (snd v x w) = x"
    and write_write: "snd v y (snd v x w) = snd v y w"
    and write_read: "snd v (fst v w) w = w"
begin

lemma wp_get_var: "wp (get_var v) Q X s = Q (fst v (world s)) s"
  by (simp add: get_var_def wp_sys)

lemma wp_set_var: "wp (set_var v x) Q X s = Q () (s\<lparr>world := snd v x (world s)\<rparr>)"
  by (simp add: set_var_def wp_sys)

lemma get_after_set: "bind_p (set_var v x) (\<lambda>_. bind_p (get_var v) f) = bind_p (set_var v x) (\<lambda>_. f x)"
  by (simp add: fun_eq_iff bind_p_def set_var_def get_var_def sys_def read_write)

lemma set_after_set: "bind_p (set_var v x) (\<lambda>_. set_var v y) = set_var v y"
  by (simp add: fun_eq_iff bind_p_def set_var_def sys_def write_write)

end

text \<open>A variable that is not a part of what \<open>libnl\<close> works on.\<close>

locale kept_var = static_var v for v :: "('w, 'v) cell" +
  fixes E :: "'w netlink"
  assumes kept: "fst v (snd (n_ifname E i w)) = fst v w" "fst v (snd (n_ifindex E d w)) = fst v w" "fst v (snd (n_alloc E w)) = fst v w"
    "fst v (snd (n_cbs E w)) = fst v w" "fst v (snd (n_send E m w)) = fst v w" "fst v (snd (n_recv E w)) = fst v w"

text \<open>
  \<open>nla_parse_nested\<close> with a policy: an attribute shorter than the policy asks for makes it fail.  \<open>nla_len\<close> is
  the length of what an attribute holds, with the headers of nested ones and their alignment.
\<close>

fun nla_len :: "nlattr \<Rightarrow> nat" where
  "nla_len (At_flag _) = 0" | "nla_len (At_u8 _ _) = 1" | "nla_len (At_u16 _ _) = 2" | "nla_len (At_u32 _ _) = 4"
| "nla_len (At_u64 _ _) = 8" | "nla_len (At_bytes _ bs) = length bs"
| "nla_len (At_nest _ as) = sum_list (map (\<lambda>a. 4 + (nla_len a + 3) div 4 * 4) as)"

datatype nla_policy = NLA_U8 | NLA_U16 | NLA_U32 | NLA_U64 | NLA_FLAG | NLA_NESTED | NLA_MINLEN nat

fun minlen :: "nla_policy \<Rightarrow> nat" where
  "minlen NLA_U8 = 1" | "minlen NLA_U16 = 2" | "minlen NLA_U32 = 4" | "minlen NLA_U64 = 8" | "minlen NLA_FLAG = 0"
| "minlen NLA_NESTED = 0" | "minlen (NLA_MINLEN n) = n"

definition attr_fits :: "(nat \<times> nla_policy) list \<Rightarrow> nlattr \<Rightarrow> bool" where
  "attr_fits pol a \<longleftrightarrow> (case map_of pol (nla_type a) of None \<Rightarrow> True | Some p \<Rightarrow> minlen p \<le> nla_len a)"

definition long_enough :: "(nat \<times> nla_policy) list \<Rightarrow> nlattr list \<Rightarrow> bool" where
  "long_enough pol as \<longleftrightarrow> list_all (attr_fits pol) as"

text \<open>\<open>nla_parse\<close> with a policy, whose result is ignored: the attributes before the first one that is too short.\<close>

definition parsed :: "(nat \<times> nla_policy) list \<Rightarrow> nlattr list \<Rightarrow> nlattr list" where
  "parsed pol as = takeWhile (attr_fits pol) as"

definition on_parsed ::
  "(nat \<times> nla_policy) list \<Rightarrow> nlattr \<Rightarrow> ('w, 'a) iw \<Rightarrow> (nlattr list \<Rightarrow> ('w, 'a) iw) \<Rightarrow> ('w, 'a) iw" where
  "on_parsed pol a bad k = bind_p (nla_nested (Some a)) (\<lambda>as. if long_enough pol as then k as else bad)"

text \<open>
  \<open>snprintf\<close> again and again at the end of what is there, in a buffer of \<open>n\<close> bytes: the position moves by the
  length of the text even when it does not fit, and once it is behind the buffer the room left wraps around.
\<close>

fun snprintfs :: "nat \<Rightarrow> string \<Rightarrow> string list \<Rightarrow> string option" where
  "snprintfs n t [] = Some (take (n - 1) t)"
| "snprintfs n t (p # ps) = (if n < length t then None else snprintfs n (t @ p) ps)"

fun collect :: "('w, 'a list) iw list \<Rightarrow> ('w, 'a list) iw" where
  "collect [] = ret []"
| "collect (m # ms) = bind_p m (\<lambda>xs. bind_p (collect ms) (\<lambda>ys. ret (xs @ ys)))"

fun map_p :: "('i \<Rightarrow> ('w, 'a) iw) \<Rightarrow> 'i list \<Rightarrow> ('w, 'a list) iw" where
  "map_p f [] = ret []"
| "map_p f (i # is) = bind_p (f i) (\<lambda>x. bind_p (map_p f is) (\<lambda>xs. ret (x # xs)))"

definition if_attr :: "nlattr list \<Rightarrow> nat \<Rightarrow> (nlattr \<Rightarrow> ('w, 'a list) iw) \<Rightarrow> ('w, 'a list) iw" where
  "if_attr as n f = (case nla_tb as n of None \<Rightarrow> ret [] | Some a \<Rightarrow> f a)"

text \<open>\<open>int8_t\<close> of a byte, and a number of 32 bits in the order of the machine.\<close>

definition s8 :: "nat \<Rightarrow> int" where
  "s8 v = (if v < 128 then int v else int v - 256)"

definition get32 :: "8 word list \<Rightarrow> nat \<Rightarrow> nat" where
  "get32 bs i = (\<Sum>j \<leftarrow> [0..<4]. unat (bs ! (i + j)) * 256 ^ j)"

text \<open>A number in the first argument, with what is behind it.\<close>

definition number_of :: "string \<Rightarrow> nl_msg \<Rightarrow> (int \<Rightarrow> 'w outcome) \<Rightarrow> 'w outcome" where
  "number_of a msg k = (case strtoul a 10 of (v, end) \<Rightarrow> if a = [] \<or> end \<noteq> [] then result 1 msg else k v)"

end
