(* ===== verification/Iw_Device.thy ===== *)
theory Iw_Device
  imports Iw_Attr
begin

unbundle bit_operations_syntax

text \<open>
  Interfaces and devices: \<open>interface.c\<close> and \<open>phy.c\<close> of \<open>wifi_tools/iw\<close>.
\<close>

definition NL80211_ATTR_WIPHY_NAME :: nat where "NL80211_ATTR_WIPHY_NAME = 2"
definition NL80211_ATTR_IFNAME :: nat where "NL80211_ATTR_IFNAME = 4"
definition NL80211_ATTR_IFTYPE :: nat where "NL80211_ATTR_IFTYPE = 5"
definition NL80211_ATTR_MNTR_FLAGS :: nat where "NL80211_ATTR_MNTR_FLAGS = 23"
definition NL80211_ATTR_MESH_ID :: nat where "NL80211_ATTR_MESH_ID = 24"
definition NL80211_ATTR_WIPHY_RETRY_SHORT :: nat where "NL80211_ATTR_WIPHY_RETRY_SHORT = 61"
definition NL80211_ATTR_WIPHY_RETRY_LONG :: nat where "NL80211_ATTR_WIPHY_RETRY_LONG = 62"
definition NL80211_ATTR_WIPHY_FRAG_THRESHOLD :: nat where "NL80211_ATTR_WIPHY_FRAG_THRESHOLD = 63"
definition NL80211_ATTR_WIPHY_RTS_THRESHOLD :: nat where "NL80211_ATTR_WIPHY_RTS_THRESHOLD = 64"
definition NL80211_ATTR_PID :: nat where "NL80211_ATTR_PID = 82"
definition NL80211_ATTR_4ADDR :: nat where "NL80211_ATTR_4ADDR = 83"
definition NL80211_ATTR_WIPHY_COVERAGE_CLASS :: nat where "NL80211_ATTR_WIPHY_COVERAGE_CLASS = 89"
definition NL80211_ATTR_WIPHY_TX_POWER_SETTING :: nat where "NL80211_ATTR_WIPHY_TX_POWER_SETTING = 97"
definition NL80211_ATTR_WIPHY_TX_POWER_LEVEL :: nat where "NL80211_ATTR_WIPHY_TX_POWER_LEVEL = 98"
definition NL80211_ATTR_WIPHY_ANTENNA_TX :: nat where "NL80211_ATTR_WIPHY_ANTENNA_TX = 105"
definition NL80211_ATTR_WIPHY_ANTENNA_RX :: nat where "NL80211_ATTR_WIPHY_ANTENNA_RX = 106"
definition NL80211_ATTR_NOACK_MAP :: nat where "NL80211_ATTR_NOACK_MAP = 149"
definition NL80211_ATTR_CENTER_FREQ2 :: nat where "NL80211_ATTR_CENTER_FREQ2 = 161"
definition NL80211_ATTR_WIPHY_DYN_ACK :: nat where "NL80211_ATTR_WIPHY_DYN_ACK = 209"
definition NL80211_IFTYPE_MONITOR :: nat where "NL80211_IFTYPE_MONITOR = 6"

subsection \<open>Monitor flags and interface types\<close>

definition mntr_flags :: "string list" where
  "mntr_flags = [''none'', ''fcsfail'', ''plcpfail'', ''control'', ''otherbss'', ''cook'', ''active'']"

text \<open>\<open>Inl\<close> an error, with the words that are left.\<close>

fun mntr_loop :: "'w netlink \<Rightarrow> string list \<Rightarrow> nl_msg \<Rightarrow> int \<times> string list + nl_msg" where
  "mntr_loop E [] flags = Inr flags"
| "mntr_loop E (w # r) flags =
     (case find (\<lambda>flag. mntr_flags ! flag = w) [0..<7] of
        None \<Rightarrow> Inl (- EINVAL, w # r)
      | Some flag \<Rightarrow>
          (case nla_put (n_fits E) (Nla_flag flag) flags of None \<Rightarrow> Inl (- ENOBUFS, w # r) | Some flags \<Rightarrow> mntr_loop E r flags))"

definition parse_mntr_flags ::
  "'w netlink \<Rightarrow> string list \<Rightarrow> nl_msg \<Rightarrow> (int \<Rightarrow> string list \<Rightarrow> 'w outcome) \<Rightarrow> (nl_msg \<Rightarrow> 'w outcome) \<Rightarrow> 'w outcome" where
  "parse_mntr_flags E argv msg fail k =
     bind_p (sys (n_alloc E)) (\<lambda>ok.
     if \<not> ok then fail (- ENOMEM) argv
     else (case mntr_loop E argv [] of
       Inl (e, argv) \<Rightarrow> fail e argv
     | Inr flags \<Rightarrow> k (put_nested E NL80211_ATTR_MNTR_FLAGS flags msg)))"

definition if_types :: "(string \<times> nat) list" where
  "if_types = [(''adhoc'', 1), (''ibss'', 1), (''monitor'', NL80211_IFTYPE_MONITOR), (''__ap'', 3), (''__ap_vlan'', 4), (''wds'', 5),
     (''managed'', 2), (''mgd'', 2), (''station'', 2), (''mp'', 7), (''mesh'', 7), (''__p2pcl'', 8), (''__p2pdev'', 10),
     (''__p2pgo'', 9)]"

definition ap_help :: string where
  "ap_help = line ''You need to run a management daemon, e.g. hostapd,'' @
     line ''see http://wireless.kernel.org/en/users/Documentation/hostapd'' @ line ''for more information on how to do that.''"

definition get_if_type :: "bool \<Rightarrow> string list \<Rightarrow> nl_msg \<Rightarrow> (nat \<Rightarrow> string list \<Rightarrow> 'w outcome) \<Rightarrow> 'w outcome" where
  "get_if_type need_type argv msg k =
     (let n = (if need_type then 1 else 0) in
      if length argv < 1 + n then result 1 msg
      else if need_type \<and> hd argv \<noteq> ''type'' then result 1 msg
      else let tpstr = argv ! n; argv = drop (1 + n) argv in
        if tpstr = ''master'' \<or> tpstr = ''ap'' then then_p (eprint ap_help) (result 2 msg)
        else (case map_of if_types tpstr of
            Some type \<Rightarrow> k type argv
          | None \<Rightarrow> then_p (eprint (line (''invalid interface type '' @ tpstr))) (result 2 msg)))"

definition parse_4addr_flag :: "'w netlink \<Rightarrow> string \<Rightarrow> nl_msg \<Rightarrow> nl_msg option" where
  "parse_4addr_flag E value msg =
     (if value = ''on'' then nla_put (n_fits E) (Nla_u8 NL80211_ATTR_4ADDR 1) msg
      else if value = ''off'' then nla_put (n_fits E) (Nla_u8 NL80211_ATTR_4ADDR 0) msg
      else None)"

subsection \<open>Adding an interface\<close>

text \<open>The options; only \<open>addr\<close> has others behind it.  A value that is missing is a null pointer, except for \<open>mesh_id\<close>.\<close>

fun add_opts :: "'w netlink \<Rightarrow> string list \<Rightarrow> 8 word list option \<Rightarrow> nl_msg \<Rightarrow>
    (string option \<Rightarrow> 8 word list option \<Rightarrow> nl_msg \<Rightarrow> 'w outcome) \<Rightarrow> 'w outcome" where
  "add_opts E [] mac msg k = k None mac msg"
| "add_opts E (w # argv) mac msg k =
     (if w = ''mesh_id'' then (case argv of [m] \<Rightarrow> k (Some m) mac msg | _ \<Rightarrow> result 1 msg)
      else if w = ''addr'' then
        (case argv of [] \<Rightarrow> undef_p
         | a # argv \<Rightarrow> mac_arg ''Invalid MAC address'' a msg (\<lambda>mac. add_opts E argv (Some mac) msg k))
      else if w = ''4addr'' then
        (case argv of [] \<Rightarrow> undef_p
         | a # argv \<Rightarrow>
             (case parse_4addr_flag E a msg of
                None \<Rightarrow> then_p (eprint (line ''4addr error'')) (result 2 msg)
              | Some msg \<Rightarrow> if argv \<noteq> [] then result 1 msg else k None mac msg))
      else if w = ''flags'' then
        parse_mntr_flags E argv msg (\<lambda>_ _. then_p (eprint (line ''flags error'')) (result 2 msg)) (k None mac)
      else result 1 msg)"

definition handle_interface_add :: "'w netlink \<Rightarrow> 'w iw_handler" where
  "handle_interface_add E again msg argv idby = with_msg msg (\<lambda>msg.
     case argv of [] \<Rightarrow> result 1 msg
     | name # argv \<Rightarrow>
         get_if_type True argv msg (\<lambda>type argv.
         add_opts E argv None msg (\<lambda>mesh_id mac msg.
         put E ENOBUFS ([Nla_bytes NL80211_ATTR_IFNAME (bytes_of name @ [0]), Nla_u32 NL80211_ATTR_IFTYPE (word_of_nat type)] @
           (case mesh_id of None \<Rightarrow> [] | Some m \<Rightarrow> [Nla_bytes NL80211_ATTR_MESH_ID (bytes_of m)]) @
           (case mac of None \<Rightarrow> [] | Some m \<Rightarrow> [Nla_bytes NL80211_ATTR_MAC m])) msg (result 0))))"

subsection \<open>Showing interfaces\<close>

definition channel_type_name :: "nat \<Rightarrow> string" where
  "channel_type_name t = (if t = 0 then ''NO HT'' else if t = 1 then ''HT20'' else if t = 2 then ''HT40-''
     else if t = 3 then ''HT40+'' else ''unknown'')"

definition channel_width_name :: "nat \<Rightarrow> string" where
  "channel_width_name w = (if w = 0 then ''20 MHz (no HT)'' else if w = 1 then ''20 MHz'' else if w = 2 then ''40 MHz''
     else if w = 3 then ''80 MHz'' else if w = 4 then ''80+80 MHz'' else if w = 5 then ''160 MHz'' else ''unknown'')"

text \<open>\<open>wiphy\<close> is the variable with the number of the device printed last, if there is one.\<close>

definition print_channel :: "string \<Rightarrow> nlattr list \<Rightarrow> ('w, unit) iw" where
  "print_channel indent as =
     on_u32 as NL80211_ATTR_WIPHY_FREQ (\<lambda>freq. seq_p
       [print (indent @ tb @ ''channel '' @ fmt_d (ieee80211_frequency_to_channel (to_int (int freq))) @ '' ('' @ fmt_du freq @ '' MHz)''),
        (if nla_tb as NL80211_ATTR_CHANNEL_WIDTH \<noteq> None then seq_p
          [on_u32 as NL80211_ATTR_CHANNEL_WIDTH (\<lambda>w. print ('', width: '' @ channel_width_name w)),
           on_u32 as NL80211_ATTR_CENTER_FREQ1 (\<lambda>f. print ('', center1: '' @ fmt_du f @ '' MHz'')),
           on_u32 as NL80211_ATTR_CENTER_FREQ2 (\<lambda>f. print ('', center2: '' @ fmt_du f @ '' MHz''))]
         else on_u32 as NL80211_ATTR_WIPHY_CHANNEL_TYPE (\<lambda>t. print ('' '' @ channel_type_name t))),
        print [nl]])"

definition print_iface :: "'w var option \<Rightarrow> 'w valid_cb" where
  "print_iface wiphy m u =
     (let as = rx_attrs m; has = (wiphy \<noteq> None \<and> nla_tb as NL80211_ATTR_WIPHY \<noteq> None); indent = (if has then tb else '''') in seq_p
       [(case wiphy of None \<Rightarrow> ret ()
         | Some v \<Rightarrow> on_u32 as NL80211_ATTR_WIPHY (\<lambda>this. bind_p (get_var v) (\<lambda>old.
             then_p (if old \<noteq> int this then print (line (''phy#'' @ fmt_du this)) else ret ()) (set_var v (int this))))),
        (case nla_tb as NL80211_ATTR_IFNAME of
           Some a \<Rightarrow> bind_p (nla_get_string (Some a)) (\<lambda>name. print (line (indent @ ''Interface '' @ name)))
         | None \<Rightarrow> print (line (indent @ ''Unnamed/non-netdev interface''))),
        on_u32 as NL80211_ATTR_IFINDEX (\<lambda>i. print (line (indent @ tb @ ''ifindex '' @ fmt_du i))),
        on_u64 as NL80211_ATTR_WDEV (\<lambda>i. print (line (indent @ tb @ ''wdev 0x'' @ fmt_x i))),
        on_mac as NL80211_ATTR_MAC (\<lambda>a. print (line (indent @ tb @ ''addr '' @ a))),
        on_ssid as NL80211_ATTR_SSID (\<lambda>s. print (line (indent @ tb @ ''ssid '' @ s))),
        on_u32 as NL80211_ATTR_IFTYPE (\<lambda>t. print (line (indent @ tb @ ''type '' @ iftype_name t))),
        (if wiphy = None then on_u32 as NL80211_ATTR_WIPHY (\<lambda>i. print (line (indent @ tb @ ''wiphy '' @ fmt_du i))) else ret ()),
        print_channel indent as])"

definition handle_interface_info :: "'w iw_handler" where
  "handle_interface_info again msg argv idby = with_msg msg (with_cb (print_iface None))"

text \<open>All bits of \<open>dev_dump_wiphy\<close>, a variable of 32 bits, are set first.\<close>

definition handle_dev_dump :: "'w var \<Rightarrow> 'w iw_handler" where
  "handle_dev_dump dev_dump_wiphy again msg argv idby = with_msg msg (\<lambda>msg.
     then_p (set_var dev_dump_wiphy 0xffffffff) (with_cb (print_iface (Some dev_dump_wiphy)) msg))"

subsection \<open>Setting up an interface\<close>

definition handle_interface_set :: "'w netlink \<Rightarrow> 'w iw_handler" where
  "handle_interface_set E again msg argv idby = with_msg msg (\<lambda>msg.
     if argv = [] then result 1 msg else
     put E ENOBUFS [Nla_u32 NL80211_ATTR_IFTYPE (word_of_nat NL80211_IFTYPE_MONITOR)] msg (\<lambda>msg.
     parse_mntr_flags E argv msg (\<lambda>e argv.
       if e = - ENOMEM then then_p (eprint (line ''failed to allocate flags'')) (result 2 msg)
       else if e = - EINVAL then then_p (eprint (line (''unknown flag '' @ hd argv))) (result 2 msg)
       else result 2 msg) (result 0)))"

definition handle_interface_meshid :: "'w netlink \<Rightarrow> 'w iw_handler" where
  "handle_interface_meshid E again msg argv idby = with_msg msg (\<lambda>msg.
     case argv of [mesh_id] \<Rightarrow> put E ENOBUFS [Nla_bytes NL80211_ATTR_MESH_ID (bytes_of mesh_id)] msg (result 0)
     | _ \<Rightarrow> result 1 msg)"

definition handle_interface_type :: "'w netlink \<Rightarrow> 'w iw_handler" where
  "handle_interface_type E again msg argv idby = with_msg msg (\<lambda>msg.
     get_if_type False argv msg (\<lambda>type argv.
     if argv \<noteq> [] then result 1 msg
     else put E ENOBUFS [Nla_u32 NL80211_ATTR_IFTYPE (word_of_nat type)] msg (result 0)))"

definition handle_interface_4addr :: "'w netlink \<Rightarrow> 'w iw_handler" where
  "handle_interface_4addr E again msg argv idby = with_msg msg (\<lambda>msg.
     case argv of [a] \<Rightarrow> (case parse_4addr_flag E a msg of None \<Rightarrow> result 1 msg | Some msg \<Rightarrow> result 0 msg)
     | _ \<Rightarrow> result 1 msg)"

definition handle_interface_noack_map :: "'w netlink \<Rightarrow> 'w iw_handler" where
  "handle_interface_noack_map E again msg argv idby = with_msg msg (\<lambda>msg.
     case argv of [a] \<Rightarrow>
       (case strtoul a 16 of (v, end) \<Rightarrow>
          if end \<noteq> [] then result 1 msg else put E ENOBUFS [Nla_u16 NL80211_ATTR_NOACK_MAP (word_of_int v)] msg (result 0))
     | _ \<Rightarrow> result 1 msg)"

definition handle_interface_wds_peer :: "'w netlink \<Rightarrow> 'w iw_handler" where
  "handle_interface_wds_peer E again msg argv idby = with_msg msg (\<lambda>msg.
     case argv of [] \<Rightarrow> result 1 msg
     | a # argv \<Rightarrow> mac_arg ''Invalid MAC address'' a msg (\<lambda>mac.
         if argv \<noteq> [] then result 1 msg else put E ENOBUFS [Nla_bytes NL80211_ATTR_MAC mac] msg (result 0)))"

definition set_mcast_rate :: "'w netlink \<Rightarrow> (string \<Rightarrow> dbl \<times> string) \<Rightarrow> (rat \<Rightarrow> rat) \<Rightarrow> 'w iw_handler" where
  "set_mcast_rate E strtof rnd again msg argv idby = with_msg msg (\<lambda>msg.
     case argv of [a] \<Rightarrow>
       (case strtof a of (rate, end) \<Rightarrow>
          if end \<noteq> [] then result 1 msg
          else (case ten_int rnd rate of None \<Rightarrow> undef_p
            | Some i \<Rightarrow> put E ENOBUFS [Nla_u32 NL80211_ATTR_MCAST_RATE (word_of_int i)] msg (result 0)))
     | _ \<Rightarrow> then_p (print (line ''Invalid parameters!'')) (result 2 msg))"

subsection \<open>Setting up a device\<close>

definition handle_name :: "'w netlink \<Rightarrow> 'w iw_handler" where
  "handle_name E again msg argv idby = with_msg msg (\<lambda>msg.
     case argv of [a] \<Rightarrow> put E ENOBUFS [Nla_bytes NL80211_ATTR_WIPHY_NAME (bytes_of a @ [0])] msg (result 0) | _ \<Rightarrow> result 1 msg)"

definition bwmap :: "(string \<times> nat) list" where
  "bwmap = [(''20'', 1), (''40'', 2), (''80'', 3), (''80+80'', 4), (''160'', 5)]"

definition handle_freqs :: "'w netlink \<Rightarrow> string list \<Rightarrow> nl_msg \<Rightarrow> 'w outcome" where
  "handle_freqs E argv msg =
     (case argv of [] \<Rightarrow> result 1 msg
      | a # argv \<Rightarrow>
          (case find (\<lambda>(name, val). strcasecmp_eq name a) bwmap of
             None \<Rightarrow> result 1 msg
           | Some (_, bwval) \<Rightarrow>
               put E ENOBUFS [Nla_u32 NL80211_ATTR_CHANNEL_WIDTH (word_of_nat bwval)] msg (\<lambda>msg.
               case argv of [] \<Rightarrow> result 0 msg
               | f1 # argv \<Rightarrow> number_of f1 msg (\<lambda>v.
                   put E ENOBUFS [Nla_u32 NL80211_ATTR_CENTER_FREQ1 (word_of_int v)] msg (\<lambda>msg.
                   case argv of [] \<Rightarrow> result 0 msg
                   | f2 # _ \<Rightarrow> number_of f2 msg (\<lambda>v.
                       put E ENOBUFS [Nla_u32 NL80211_ATTR_CENTER_FREQ2 (word_of_int v)] msg (result 0)))))))"

definition htmap :: "(string \<times> nat) list" where
  "htmap = [(''HT20'', 1), (''HT40+'', 3), (''HT40-'', 2)]"

definition handle_freqchan :: "'w netlink \<Rightarrow> bool \<Rightarrow> 'w iw_handler" where
  "handle_freqchan E chan again msg argv idby = with_msg msg (\<lambda>msg.
     if argv = [] \<or> length argv > 4 then result 1 msg
     else number_of (hd argv) msg (\<lambda>v.
     let freq = v mod 2 ^ 32;
         freq = (if chan then ieee80211_channel_to_frequency (to_int freq) (if freq \<le> 14 then NL80211_BAND_2GHZ else NL80211_BAND_5GHZ) else freq)
     in put E ENOBUFS [Nla_u32 NL80211_ATTR_WIPHY_FREQ (word_of_int freq)] msg (\<lambda>msg.
     if length argv > 2 then handle_freqs E (tl argv) msg
     else if length argv = 2 then
       (case find (\<lambda>(name, val). strcasecmp_eq name (argv ! 1)) htmap of
          None \<Rightarrow> handle_freqs E (tl argv) msg
        | Some (_, htval) \<Rightarrow> put E ENOBUFS [Nla_u32 NL80211_ATTR_WIPHY_CHANNEL_TYPE (word_of_nat htval)] msg (result 0))
     else put E ENOBUFS [Nla_u32 NL80211_ATTR_WIPHY_CHANNEL_TYPE 0] msg (result 0))))"

definition handle_freq :: "'w netlink \<Rightarrow> 'w iw_handler" where
  "handle_freq E = handle_freqchan E False"

definition handle_chan :: "'w netlink \<Rightarrow> 'w iw_handler" where
  "handle_chan E = handle_freqchan E True"

text \<open>A threshold: a number, or \<open>off\<close>.\<close>

definition threshold :: "'w netlink \<Rightarrow> nat \<Rightarrow> 'w iw_handler" where
  "threshold E attr again msg argv idby = with_msg msg (\<lambda>msg.
     case argv of [a] \<Rightarrow>
       if a = ''off'' then put E ENOBUFS [Nla_u32 attr (- 1)] msg (result 0)
       else number_of a msg (\<lambda>v. put E ENOBUFS [Nla_u32 attr (word_of_int v)] msg (result 0))
     | _ \<Rightarrow> result 1 msg)"

definition handle_fragmentation :: "'w netlink \<Rightarrow> 'w iw_handler" where
  "handle_fragmentation E = threshold E NL80211_ATTR_WIPHY_FRAG_THRESHOLD"

definition handle_rts :: "'w netlink \<Rightarrow> 'w iw_handler" where
  "handle_rts E = threshold E NL80211_ATTR_WIPHY_RTS_THRESHOLD"

datatype retry_state = S_NONE | S_SHORT | S_LONG

text \<open>A limit whose word has been read is \<open>Some\<close>, and 0 until its number is.\<close>

fun retry_loop :: "retry_state \<Rightarrow> int option \<Rightarrow> int option \<Rightarrow> string list \<Rightarrow> int + int option \<times> int option" where
  "retry_loop st short long [] = Inr (short, long)"
| "retry_loop st short long (w # r) =
     (if w = ''short'' then (if short \<noteq> None then Inl 1 else retry_loop S_SHORT (Some 0) long r)
      else if w = ''long'' then (if long \<noteq> None then Inl 1 else retry_loop S_LONG short (Some 0) r)
      else (case strtoul w 10 of (v, end) \<Rightarrow>
        let tmpul = v mod 2 ^ 32 in
        if end \<noteq> [] then Inl 1
        else if tmpul = 0 \<or> tmpul > 255 then Inl (- EINVAL)
        else (case st of
            S_SHORT \<Rightarrow> retry_loop st (Some tmpul) long r
          | S_LONG \<Rightarrow> retry_loop st short (Some tmpul) r
          | S_NONE \<Rightarrow> Inl 1)))"

definition handle_retry :: "'w netlink \<Rightarrow> 'w iw_handler" where
  "handle_retry E again msg argv idby = with_msg msg (\<lambda>msg.
     if length argv \<noteq> 2 \<and> length argv \<noteq> 4 then result 1 msg
     else (case retry_loop S_NONE None None argv of
         Inl e \<Rightarrow> result e msg
       | Inr (short, long) \<Rightarrow>
           if short = None \<and> long = None then result 1 msg
           else put E ENOBUFS
             ((case short of None \<Rightarrow> [] | Some v \<Rightarrow> [Nla_u8 NL80211_ATTR_WIPHY_RETRY_SHORT (word_of_int v)]) @
              (case long of None \<Rightarrow> [] | Some v \<Rightarrow> [Nla_u8 NL80211_ATTR_WIPHY_RETRY_LONG (word_of_int v)])) msg (result 0)))"

definition handle_netns :: "'w netlink \<Rightarrow> 'w iw_handler" where
  "handle_netns E again msg argv idby = with_msg msg (\<lambda>msg.
     case argv of [a] \<Rightarrow>
       if a = [] then result 1 msg
       else (case strtoul a 10 of (v, end) \<Rightarrow>
         put E ENOBUFS [Nla_u32 NL80211_ATTR_PID (word_of_int v)] msg (\<lambda>msg. if end \<noteq> [] then result 1 msg else result 0 msg))
     | _ \<Rightarrow> result 1 msg)"

definition handle_coverage :: "'w netlink \<Rightarrow> 'w iw_handler" where
  "handle_coverage E again msg argv idby = with_msg msg (\<lambda>msg.
     case argv of [a] \<Rightarrow> number_of a msg (\<lambda>v.
       let coverage = v mod 2 ^ 32 in
       if coverage > 255 then result 1 msg
       else put E ENOBUFS [Nla_u8 NL80211_ATTR_WIPHY_COVERAGE_CLASS (word_of_int coverage)] msg (result 0))
     | _ \<Rightarrow> result 1 msg)"

definition handle_distance :: "'w netlink \<Rightarrow> 'w iw_handler" where
  "handle_distance E again msg argv idby = with_msg msg (\<lambda>msg.
     case argv of [a] \<Rightarrow>
       if a = ''auto'' then put E ENOBUFS [Nla_flag NL80211_ATTR_WIPHY_DYN_ACK] msg (result 0)
       else number_of a msg (\<lambda>v.
         let distance = v mod 2 ^ 32; coverage = ((distance + 449) mod 2 ^ 32) div 450 in
         if coverage > 255 then result 1 msg
         else put E ENOBUFS [Nla_u8 NL80211_ATTR_WIPHY_COVERAGE_CLASS (word_of_int coverage)] msg (result 0))
     | _ \<Rightarrow> result 1 msg)"

definition tx_settings :: "(string \<times> nat) list" where
  "tx_settings = [(''auto'', 0), (''fixed'', 2), (''limit'', 1)]"

definition handle_txpower :: "'w netlink \<Rightarrow> 'w iw_handler" where
  "handle_txpower E again msg argv idby = with_msg msg (\<lambda>msg.
     if length argv \<noteq> 1 \<and> length argv \<noteq> 2 then result 1 msg
     else (case map_of tx_settings (hd argv) of
         None \<Rightarrow> then_p (print (line (''Invalid parameter: '' @ hd argv))) (result 2 msg)
       | Some type \<Rightarrow>
           put E ENOBUFS [Nla_u32 NL80211_ATTR_WIPHY_TX_POWER_SETTING (word_of_nat type)] msg (\<lambda>msg.
           if type \<noteq> 0 then
             (if length argv \<noteq> 2 then then_p (print (line ''Missing TX power level argument.'')) (result 2 msg)
              else (case strtol (argv ! 1) 10 of (mbm, end) \<Rightarrow>
                if end \<noteq> [] then result 2 msg
                else put E ENOBUFS [Nla_u32 NL80211_ATTR_WIPHY_TX_POWER_LEVEL (word_of_int mbm)] msg (result 0)))
           else if length argv \<noteq> 1 then result 1 msg else result 0 msg)))"

definition handle_antenna :: "'w netlink \<Rightarrow> 'w iw_handler" where
  "handle_antenna E again msg argv idby = with_msg msg (\<lambda>msg.
     let send = (\<lambda>tx_ant rx_ant. put E ENOBUFS
           [Nla_u32 NL80211_ATTR_WIPHY_ANTENNA_TX (word_of_int tx_ant), Nla_u32 NL80211_ATTR_WIPHY_ANTENNA_RX (word_of_int rx_ant)] msg (result 0)) in
     case argv of
       [a] \<Rightarrow>
         if a = ''all'' then send 0xffffffff 0xffffffff
         else (case strtoul a 0 of (v, end) \<Rightarrow> if end \<noteq> [] then result 1 msg else send v v)
     | [a, b] \<Rightarrow>
         (case strtoul a 0 of (v, end) \<Rightarrow> if end \<noteq> [] then result 1 msg
          else (case strtoul b 0 of (w, end) \<Rightarrow> if end \<noteq> [] then result 1 msg else send v w))
     | _ \<Rightarrow> result 1 msg)"

subsection \<open>The commands\<close>

definition VALID_FLAGS :: string where
  "VALID_FLAGS = line ''none:     no special flags'' @ line ''fcsfail:  show frames with FCS errors'' @
     line ''control:  show control frames'' @ line ''otherbss: show frames from other BSSes'' @ line ''cook:     use cooked mode'' @
     ''active:   use active mode (ACK incoming unicast packets)''"

definition IFACE_TYPES :: string where
  "IFACE_TYPES = ''Valid interface types are: managed, ibss, monitor, mesh, wds.''"

definition interface_cmds :: "'w netlink \<Rightarrow> 'w var \<Rightarrow> (string \<Rightarrow> dbl \<times> string) \<Rightarrow> (rat \<Rightarrow> rat) \<Rightarrow> 'w cmd list" where
  "interface_cmds E dev_dump_wiphy strtof rnd =
     (let add_args = Some ''<name> type <type> [mesh_id <meshid>] [4addr on|off] [flags <flag>*] [addr <mac-addr>]'' in
     [SECTION ''interface'',
      COMMAND ''interface'' ''interface_add_phy'' ''add'' add_args 7 0 CIB_PHY (handle_interface_add E)
        (line ''Add a new virtual interface with the given configuration.'' @ line IFACE_TYPES @ [nl] @
         line ''The flags are only used for monitor interfaces, valid flags are:'' @ line VALID_FLAGS @ [nl] @
         ''The mesh_id is used only for mesh mode.''),
      (COMMAND ''interface'' ''interface_add_netdev'' ''add'' add_args 7 0 CIB_NETDEV (handle_interface_add E) '''')\<lparr>c_help := None\<rparr>,
      TOPLEVEL ''del'' None 8 0 CIB_NETDEV (Some no_change) ''Remove this virtual interface'',
      HIDDEN ''interface'' ''interface_del'' ''del'' None 8 0 CIB_NETDEV no_change,
      TOPLEVEL ''info'' None 5 0 CIB_NETDEV (Some handle_interface_info) ''Show information for this interface.'',
      COMMAND ''set'' ''set_monitor'' ''monitor'' (Some ''<flag>*'') 6 0 CIB_NETDEV (handle_interface_set E)
        (line ''Set monitor flags. Valid flags are:'' @ VALID_FLAGS),
      (COMMAND ''set'' ''set_meshid'' ''meshid'' (Some ''<meshid>'') 6 0 CIB_NETDEV (handle_interface_meshid E) '''')\<lparr>c_help := None\<rparr>,
      TOPLEVEL ''dev'' None 5 NLM_F_DUMP CIB_NONE (Some (handle_dev_dump dev_dump_wiphy))
        ''List all network interfaces for wireless hardware.'',
      COMMAND ''set'' ''set_type'' ''type'' (Some ''<type>'') 6 0 CIB_NETDEV (handle_interface_type E)
        (line ''Set interface type/mode.'' @ IFACE_TYPES),
      COMMAND ''set'' ''set_4addr'' ''4addr'' (Some ''<on|off>'') 6 0 CIB_NETDEV (handle_interface_4addr E)
        ''Set interface 4addr (WDS) mode.'',
      COMMAND ''set'' ''set_noack_map'' ''noack_map'' (Some ''<map>'') 87 0 CIB_NETDEV (handle_interface_noack_map E)
        ''Set the NoAck map for the TIDs. (0x0009 = BE, 0x0006 = BK, 0x0030 = VI, 0x00C0 = VO)'',
      COMMAND ''set'' ''set_peer'' ''peer'' (Some ''<MAC address>'') 66 0 CIB_NETDEV (handle_interface_wds_peer E)
        ''Set interface WDS peer.'',
      COMMAND ''set'' ''set_mcast_rate'' ''mcast_rate'' (Some ''<rate in Mbps>'') 92 0 CIB_NETDEV (set_mcast_rate E strtof rnd)
        ''Set the multicast bitrate.''])"

definition phy_cmds :: "'w netlink \<Rightarrow> 'w cmd list" where
  "phy_cmds E =
     (let no_help = (\<lambda>c. c\<lparr>c_help := None\<rparr>); channel_args = Some ''<channel> [HT20|HT40+|HT40-]'';
          power_args = Some ''<auto|fixed|limit> [<tx power in mBm>]''; power_help = ''Specify transmit power level and setting type.'' in
     [COMMAND ''set'' ''set_name'' ''name'' (Some ''<new name>'') 2 0 CIB_PHY (handle_name E) ''Rename this wireless device.'',
      COMMAND ''set'' ''set_freq_phy'' ''freq'' (Some ''<freq> [HT20|HT40+|HT40-]'') 2 0 CIB_PHY (handle_freq E)
        (line ''Set frequency/channel the hardware is using, including HT'' @ ''configuration.''),
      no_help (COMMAND ''set'' ''set_freq_netdev'' ''freq'' (Some (line ''<freq> [HT20|HT40+|HT40-]'' @
        ''<control freq> [20|40|80|80+80|160] [<center freq 1>] [<center freq 2>]'')) 2 0 CIB_NETDEV (handle_freq E) ''''),
      no_help (COMMAND ''set'' ''set_channel_phy'' ''channel'' channel_args 2 0 CIB_PHY (handle_chan E) ''''),
      no_help (COMMAND ''set'' ''set_channel_netdev'' ''channel'' channel_args 2 0 CIB_NETDEV (handle_chan E) ''''),
      COMMAND ''set'' ''set_frag'' ''frag'' (Some ''<fragmentation threshold|off>'') 2 0 CIB_PHY (handle_fragmentation E)
        ''Set fragmentation threshold.'',
      COMMAND ''set'' ''set_rts'' ''rts'' (Some ''<rts threshold|off>'') 2 0 CIB_PHY (handle_rts E) ''Set rts threshold.'',
      COMMAND ''set'' ''set_retry'' ''retry'' (Some ''[short <limit>] [long <limit>]'') 2 0 CIB_PHY (handle_retry E) ''Set retry limit.'',
      COMMAND ''set'' ''set_netns'' ''netns'' (Some ''<pid>'') 49 0 CIB_PHY (handle_netns E)
        ''Put this wireless device into a different network namespace'',
      COMMAND ''set'' ''set_coverage'' ''coverage'' (Some ''<coverage class>'') 2 0 CIB_PHY (handle_coverage E)
        (line ''Set coverage class (1 for every 3 usec of air propagation time).'' @ ''Valid values: 0 - 255.''),
      COMMAND ''set'' ''set_distance'' ''distance'' (Some ''<auto|distance>'') 2 0 CIB_PHY (handle_distance E)
        (line ''Enable ACK timeout estimation algorithm (dynack) or set appropriate'' @
         line ''coverage class for given link distance in meters.'' @
         line ''To disable dynack set valid value for coverage class.'' @ ''Valid values: 0 - 114750''),
      COMMAND ''set'' ''set_txpower_phy'' ''txpower'' power_args 2 0 CIB_PHY (handle_txpower E) power_help,
      COMMAND ''set'' ''set_txpower_netdev'' ''txpower'' power_args 2 0 CIB_NETDEV (handle_txpower E) power_help,
      COMMAND ''set'' ''set_antenna'' ''antenna'' (Some ''<bitmap> | all | <tx bitmap> <rx bitmap>'') 2 0 CIB_PHY (handle_antenna E)
        (line ''Set a bitmap of allowed antennas to use for TX and RX.'' @
         ''The driver may reject antenna configurations it cannot support.'')])"

subsection \<open>Distances, channels and retries\<close>

lemma number_of_fmt_d: "n < 2 ^ 64 \<Longrightarrow> number_of (fmt_d (int n)) msg k = k (int n)"
  using strtoul_fmt_d [of n] by (simp add: number_of_def fmt_d_nonempty)

text \<open>
  C23.  The coverage class of a distance is the number of steps of 450 meters, rounded up, for all distances the help
  names; larger ones are refused, but the sum that rounds up wraps around: the last 449 numbers below \<open>2\<^sup>3\<^sup>2\<close> are taken
  for a distance of nothing.
\<close>

theorem distance_class:
  assumes "d < 2 ^ 32" and fits: "\<And>m. n_fits E m"
  shows "handle_distance E again (Some msg) [fmt_d (int d)] idby =
    (if d \<le> 114750 then result 0 (msg @ [Nla_u8 NL80211_ATTR_WIPHY_COVERAGE_CLASS (word_of_int \<lceil>of_nat d / (450 :: rat)\<rceil>)])
     else if 2 ^ 32 - 449 \<le> d then result 0 (msg @ [Nla_u8 NL80211_ATTR_WIPHY_COVERAGE_CLASS 0])
     else result 1 msg)"
proof -
  have auto: "fmt_d (int d) \<noteq> ''auto''" using fmt_d_digits [of "CHR ''a''" d] by (auto simp: isdigit_def)
  have up: "\<lceil>of_nat d / (450 :: rat)\<rceil> = (int d + 449) div 450"
  proof -
    have "\<lceil>of_nat d / (450 :: rat)\<rceil> = - (- int d div 450)"
      using ceiling_divide_eq_div [of "int d" 450, where 'a = rat] by simp
    also have "- int d div 450 = - ((int d + 449) div 450)"
    proof (rule int_div_pos_eq [where r = "449 - (int d + 449) mod 450"])
      show "- int d = 450 * - ((int d + 449) div 450) + (449 - (int d + 449) mod 450)"
        using mult_div_mod_eq [of 450 "int d + 449"] by linarith
      show "0 \<le> 449 - (int d + 449) mod 450" using pos_mod_bound [of 450 "int d + 449"] by linarith
      show "449 - (int d + 449) mod 450 < 450" using pos_mod_sign [of 450 "int d + 449"] by linarith
    qed
    finally show ?thesis by simp
  qed
  consider "d \<le> 114750" | "114750 < d" "d < 2 ^ 32 - 449" | "2 ^ 32 - 449 \<le> d" by linarith
  then show ?thesis
  proof cases
    case 1
    have "(int d + 449) mod 2 ^ 32 = int d + 449" "(int d + 449) div 450 \<le> 255"
      using 1 div_le_mono2 zdiv_mono1 [of "int d + 449" "115199" 450] by (simp_all add: mod_pos_pos_trivial)
    then show ?thesis using 1 assms(1)
      by (simp add: handle_distance_def with_msg_def auto number_of_fmt_d put_fits fits up mod_pos_pos_trivial)
  next
    case 2
    have "(int d + 449) mod 2 ^ 32 = int d + 449" "256 \<le> (int d + 449) div 450"
      using 2 zdiv_mono1 [of "115200" "int d + 449" 450] by (simp_all add: mod_pos_pos_trivial)
    then show ?thesis using 2 assms(1)
      by (simp add: handle_distance_def with_msg_def auto number_of_fmt_d put_fits fits mod_pos_pos_trivial)
  next
    case 3
    have "(int d + 449) mod 2 ^ 32 = (int d + 449 - 2 ^ 32) mod 2 ^ 32" by (rule minus_mod_self2 [symmetric])
    also have "\<dots> = int d + 449 - 2 ^ 32" using 3 assms(1) by (intro mod_pos_pos_trivial) simp_all
    finally have "((int d + 449) mod 2 ^ 32) div 450 = 0" using 3 assms(1) by (simp add: div_pos_pos_trivial)
    then show ?thesis using 3 assms(1)
      by (simp add: handle_distance_def with_msg_def auto number_of_fmt_d put_fits fits mod_pos_pos_trivial)
  qed
qed

theorem distance_class_witness:
  "handle_distance (null_netlink :: unit netlink) (\<lambda>_ _. ret 0) (Some []) [fmt_d (int 4294967000)] II_PHY_NAME =
     result 0 [Nla_u8 NL80211_ATTR_WIPHY_COVERAGE_CLASS 0]"
  using distance_class [of 4294967000 "null_netlink :: unit netlink" "\<lambda>_ _. ret 0" "[]" II_PHY_NAME]
  by (simp add: null_netlink_def)

end
