(* ===== verification/Iw_Station.thy ===== *)
theory Iw_Station
  imports Iw_Attr
begin

unbundle bit_operations_syntax

text \<open>
  \<open>station.c\<close> and \<open>survey.c\<close> of \<open>iw\<close>: the stations of an interface, with their rates and the signal of each
  antenna, and what is known about the channels.
\<close>

definition NL80211_ATTR_STA_INFO :: nat where "NL80211_ATTR_STA_INFO = 21"
definition NL80211_ATTR_STA_PLINK_ACTION :: nat where "NL80211_ATTR_STA_PLINK_ACTION = 25"
definition NL80211_ATTR_STA_VLAN :: nat where "NL80211_ATTR_STA_VLAN = 20"
definition NL80211_ATTR_LOCAL_MESH_POWER_MODE :: nat where "NL80211_ATTR_LOCAL_MESH_POWER_MODE = 164"
definition NL80211_ATTR_SURVEY_INFO :: nat where "NL80211_ATTR_SURVEY_INFO = 84"
definition NL80211_STA_INFO_INACTIVE_TIME :: nat where "NL80211_STA_INFO_INACTIVE_TIME = 1"
definition NL80211_STA_INFO_RX_BYTES :: nat where "NL80211_STA_INFO_RX_BYTES = 2"
definition NL80211_STA_INFO_TX_BYTES :: nat where "NL80211_STA_INFO_TX_BYTES = 3"
definition NL80211_STA_INFO_LLID :: nat where "NL80211_STA_INFO_LLID = 4"
definition NL80211_STA_INFO_PLID :: nat where "NL80211_STA_INFO_PLID = 5"
definition NL80211_STA_INFO_PLINK_STATE :: nat where "NL80211_STA_INFO_PLINK_STATE = 6"
definition NL80211_STA_INFO_SIGNAL :: nat where "NL80211_STA_INFO_SIGNAL = 7"
definition NL80211_STA_INFO_TX_BITRATE :: nat where "NL80211_STA_INFO_TX_BITRATE = 8"
definition NL80211_STA_INFO_RX_PACKETS :: nat where "NL80211_STA_INFO_RX_PACKETS = 9"
definition NL80211_STA_INFO_TX_PACKETS :: nat where "NL80211_STA_INFO_TX_PACKETS = 10"
definition NL80211_STA_INFO_TX_RETRIES :: nat where "NL80211_STA_INFO_TX_RETRIES = 11"
definition NL80211_STA_INFO_TX_FAILED :: nat where "NL80211_STA_INFO_TX_FAILED = 12"
definition NL80211_STA_INFO_SIGNAL_AVG :: nat where "NL80211_STA_INFO_SIGNAL_AVG = 13"
definition NL80211_STA_INFO_RX_BITRATE :: nat where "NL80211_STA_INFO_RX_BITRATE = 14"
definition NL80211_STA_INFO_STA_FLAGS :: nat where "NL80211_STA_INFO_STA_FLAGS = 17"
definition NL80211_STA_INFO_T_OFFSET :: nat where "NL80211_STA_INFO_T_OFFSET = 19"
definition NL80211_STA_INFO_LOCAL_PM :: nat where "NL80211_STA_INFO_LOCAL_PM = 20"
definition NL80211_STA_INFO_PEER_PM :: nat where "NL80211_STA_INFO_PEER_PM = 21"
definition NL80211_STA_INFO_NONPEER_PM :: nat where "NL80211_STA_INFO_NONPEER_PM = 22"
definition NL80211_STA_INFO_CHAIN_SIGNAL :: nat where "NL80211_STA_INFO_CHAIN_SIGNAL = 25"
definition NL80211_STA_INFO_CHAIN_SIGNAL_AVG :: nat where "NL80211_STA_INFO_CHAIN_SIGNAL_AVG = 26"
definition NL80211_STA_INFO_EXPECTED_THROUGHPUT :: nat where "NL80211_STA_INFO_EXPECTED_THROUGHPUT = 27"
definition NL80211_RATE_INFO_BITRATE :: nat where "NL80211_RATE_INFO_BITRATE = 1"
definition NL80211_RATE_INFO_MCS :: nat where "NL80211_RATE_INFO_MCS = 2"
definition NL80211_RATE_INFO_40_MHZ_WIDTH :: nat where "NL80211_RATE_INFO_40_MHZ_WIDTH = 3"
definition NL80211_RATE_INFO_SHORT_GI :: nat where "NL80211_RATE_INFO_SHORT_GI = 4"
definition NL80211_RATE_INFO_BITRATE32 :: nat where "NL80211_RATE_INFO_BITRATE32 = 5"
definition NL80211_RATE_INFO_VHT_MCS :: nat where "NL80211_RATE_INFO_VHT_MCS = 6"
definition NL80211_RATE_INFO_VHT_NSS :: nat where "NL80211_RATE_INFO_VHT_NSS = 7"
definition NL80211_RATE_INFO_80_MHZ_WIDTH :: nat where "NL80211_RATE_INFO_80_MHZ_WIDTH = 8"
definition NL80211_RATE_INFO_80P80_MHZ_WIDTH :: nat where "NL80211_RATE_INFO_80P80_MHZ_WIDTH = 9"
definition NL80211_RATE_INFO_160_MHZ_WIDTH :: nat where "NL80211_RATE_INFO_160_MHZ_WIDTH = 10"
definition NL80211_STA_FLAG_AUTHORIZED :: nat where "NL80211_STA_FLAG_AUTHORIZED = 1"
definition NL80211_STA_FLAG_SHORT_PREAMBLE :: nat where "NL80211_STA_FLAG_SHORT_PREAMBLE = 2"
definition NL80211_STA_FLAG_WME :: nat where "NL80211_STA_FLAG_WME = 3"
definition NL80211_STA_FLAG_MFP :: nat where "NL80211_STA_FLAG_MFP = 4"
definition NL80211_STA_FLAG_AUTHENTICATED :: nat where "NL80211_STA_FLAG_AUTHENTICATED = 5"
definition NL80211_STA_FLAG_TDLS_PEER :: nat where "NL80211_STA_FLAG_TDLS_PEER = 6"
definition NL80211_SURVEY_INFO_FREQUENCY :: nat where "NL80211_SURVEY_INFO_FREQUENCY = 1"
definition NL80211_SURVEY_INFO_NOISE :: nat where "NL80211_SURVEY_INFO_NOISE = 2"
definition NL80211_SURVEY_INFO_IN_USE :: nat where "NL80211_SURVEY_INFO_IN_USE = 3"
definition NL80211_SURVEY_INFO_CHANNEL_TIME :: nat where "NL80211_SURVEY_INFO_CHANNEL_TIME = 4"
definition NL80211_SURVEY_INFO_CHANNEL_TIME_BUSY :: nat where "NL80211_SURVEY_INFO_CHANNEL_TIME_BUSY = 5"
definition NL80211_SURVEY_INFO_CHANNEL_TIME_EXT_BUSY :: nat where "NL80211_SURVEY_INFO_CHANNEL_TIME_EXT_BUSY = 6"
definition NL80211_SURVEY_INFO_CHANNEL_TIME_RX :: nat where "NL80211_SURVEY_INFO_CHANNEL_TIME_RX = 7"
definition NL80211_SURVEY_INFO_CHANNEL_TIME_TX :: nat where "NL80211_SURVEY_INFO_CHANNEL_TIME_TX = 8"

subsection \<open>Rates and signals\<close>

definition rate_policy :: "(nat \<times> nla_policy) list" where
  "rate_policy = [(NL80211_RATE_INFO_BITRATE, NLA_U16), (NL80211_RATE_INFO_BITRATE32, NLA_U32), (NL80211_RATE_INFO_MCS, NLA_U8),
     (NL80211_RATE_INFO_40_MHZ_WIDTH, NLA_FLAG), (NL80211_RATE_INFO_SHORT_GI, NLA_FLAG)]"

definition rate_text :: "int \<Rightarrow> string list" where
  "rate_text rate = (if rate > 0 then [fmt_d (rate div 10) @ ''.'' @ fmt_d (rate mod 10) @ '' MBit/s''] else [])"

definition bitrate_pieces :: "nlattr list \<Rightarrow> ('w, string list) iw" where
  "bitrate_pieces rinfo =
     (let u8 = (\<lambda>n s. if_attr rinfo n (\<lambda>a. bind_p (nla_get_u8 (Some a)) (\<lambda>v. ret [s @ fmt_d (int v)])));
          flag = (\<lambda>n s. if_attr rinfo n (\<lambda>a. ret [s])) in
      collect
        [(if nla_tb rinfo NL80211_RATE_INFO_BITRATE32 \<noteq> None
          then bind_p (nla_get_u32 (nla_tb rinfo NL80211_RATE_INFO_BITRATE32)) (\<lambda>v. ret (rate_text (to_int (int v))))
          else if_attr rinfo NL80211_RATE_INFO_BITRATE (\<lambda>a. bind_p (nla_get_u16 (Some a)) (\<lambda>v. ret (rate_text (int v))))),
         u8 NL80211_RATE_INFO_MCS '' MCS '',
         u8 NL80211_RATE_INFO_VHT_MCS '' VHT-MCS '',
         flag NL80211_RATE_INFO_40_MHZ_WIDTH '' 40MHz'',
         flag NL80211_RATE_INFO_80_MHZ_WIDTH '' 80MHz'',
         flag NL80211_RATE_INFO_80P80_MHZ_WIDTH '' 80P80MHz'',
         flag NL80211_RATE_INFO_160_MHZ_WIDTH '' 160MHz'',
         flag NL80211_RATE_INFO_SHORT_GI '' short GI'',
         u8 NL80211_RATE_INFO_VHT_NSS '' VHT-NSS ''])"

text \<open>
  What is in the buffer of the caller afterwards; when there is no part to print, nothing is written into it (\<open>None\<close>).
\<close>

definition parse_bitrate :: "nat \<Rightarrow> nlattr \<Rightarrow> ('w, string option) iw" where
  "parse_bitrate buflen a =
     on_parsed rate_policy a (ret (Some (take (buflen - 1) ''failed to parse nested rate attributes!''))) (\<lambda>rinfo.
     bind_p (bitrate_pieces rinfo) (\<lambda>ps.
       if ps = [] then ret None else (case snprintfs buflen [] ps of None \<Rightarrow> undef_p | Some t \<Rightarrow> ret (Some t))))"

text \<open>The callers print a buffer of 100 bytes that they have not set.\<close>

definition rate_buffer :: "nlattr \<Rightarrow> ('w, string) iw" where
  "rate_buffer a = bind_p (parse_bitrate 100 a) (\<lambda>t. case t of None \<Rightarrow> undef_p | Some t \<Rightarrow> ret t)"

definition CHAIN_BUF :: nat where "CHAIN_BUF = 64"

fun chain_pieces :: "nat list \<Rightarrow> string list" where
  "chain_pieces [] = []"
| "chain_pieces (v # vs) = (''['' @ fmt_d (s8 v)) # map (\<lambda>v. '', '' @ fmt_d (s8 v)) vs @ [''] '']"

text \<open>\<open>buf\<close> is the static buffer; a list without an entry shows what the last one left there.\<close>

definition get_chain_signal :: "('w, string) cell \<Rightarrow> nlattr option \<Rightarrow> ('w, string) iw" where
  "get_chain_signal buf attr_list =
     (case attr_list of None \<Rightarrow> ret ''''
      | Some l \<Rightarrow>
          bind_p (nla_nested (Some l)) (\<lambda>as.
          bind_p (map_p (\<lambda>a. nla_get_u8 (Some a)) as) (\<lambda>vs.
          if vs = [] then get_var buf
          else (case snprintfs CHAIN_BUF [] (chain_pieces vs) of
              None \<Rightarrow> undef_p
            | Some t \<Rightarrow> then_p (set_var buf t) (ret t)))))"

subsection \<open>A station\<close>

definition power_mode_text :: "nat \<Rightarrow> string" where
  "power_mode_text pm = (if pm = 1 then ''ACTIVE'' else if pm = 2 then ''LIGHT SLEEP'' else if pm = 3 then ''DEEP SLEEP'' else ''UNKNOWN'')"

definition plink_states :: "string list" where
  "plink_states = [''LISTEN'', ''OPN_SNT'', ''OPN_RCVD'', ''CNF_RCVD'', ''ESTAB'', ''HOLDING'', ''BLOCKED'']"

definition plink_text :: "nat \<Rightarrow> string" where
  "plink_text v = (if v < length plink_states then plink_states ! v else ''UNKNOWN'')"

definition stats_policy :: "(nat \<times> nla_policy) list" where
  "stats_policy = [(NL80211_STA_INFO_INACTIVE_TIME, NLA_U32), (NL80211_STA_INFO_RX_BYTES, NLA_U32), (NL80211_STA_INFO_TX_BYTES, NLA_U32),
     (NL80211_STA_INFO_RX_PACKETS, NLA_U32), (NL80211_STA_INFO_TX_PACKETS, NLA_U32), (NL80211_STA_INFO_SIGNAL, NLA_U8),
     (NL80211_STA_INFO_T_OFFSET, NLA_U64), (NL80211_STA_INFO_TX_BITRATE, NLA_NESTED), (NL80211_STA_INFO_RX_BITRATE, NLA_NESTED),
     (NL80211_STA_INFO_LLID, NLA_U16), (NL80211_STA_INFO_PLID, NLA_U16), (NL80211_STA_INFO_PLINK_STATE, NLA_U8),
     (NL80211_STA_INFO_TX_RETRIES, NLA_U32), (NL80211_STA_INFO_TX_FAILED, NLA_U32), (NL80211_STA_INFO_STA_FLAGS, NLA_MINLEN 8),
     (NL80211_STA_INFO_LOCAL_PM, NLA_U32), (NL80211_STA_INFO_PEER_PM, NLA_U32), (NL80211_STA_INFO_NONPEER_PM, NLA_U32),
     (NL80211_STA_INFO_CHAIN_SIGNAL, NLA_NESTED), (NL80211_STA_INFO_CHAIN_SIGNAL_AVG, NLA_NESTED)]"

definition sta_line :: "string \<Rightarrow> string \<Rightarrow> ('w, unit) iw" where
  "sta_line label t = print ([nl] @ tb @ label @ t)"

text \<open>Megabits per second from kilobits in units of 1024, with what is left behind a point.\<close>

definition throughput_text :: "nat \<Rightarrow> string" where
  "throughput_text kbps =
     (let thr = kbps * 1000 mod 2 ^ 32 div 1024 in fmt_d (int (thr div 1000)) @ ''.'' @ fmt_d (int (thr mod 1000)) @ ''Mbps'')"

definition sta_flag_names :: "(nat \<times> string \<times> string \<times> string) list" where
  "sta_flag_names =
     [(NL80211_STA_FLAG_AUTHORIZED, ''authorized:'' @ tb, ''yes'', ''no''), (NL80211_STA_FLAG_AUTHENTICATED, ''authenticated:'' @ tb, ''yes'', ''no''),
      (NL80211_STA_FLAG_SHORT_PREAMBLE, ''preamble:'' @ tb, ''short'', ''long''), (NL80211_STA_FLAG_WME, ''WMM/WME:'' @ tb, ''yes'', ''no''),
      (NL80211_STA_FLAG_MFP, ''MFP:'' @ tb @ tb, ''yes'', ''no''), (NL80211_STA_FLAG_TDLS_PEER, ''TDLS peer:'' @ tb, ''yes'', ''no'')]"

definition sta_flags_text :: "8 word list \<Rightarrow> string" where
  "sta_flags_text bs =
     concat (map (\<lambda>(n, label, yes, no). if bit (get32 bs 0) n then [nl] @ tb @ label @ (if bit (get32 bs 4) n then yes else no) else [])
       sta_flag_names)"

definition sta_signals :: "('w, string) cell \<Rightarrow> nlattr list \<Rightarrow> ('w, unit) iw" where
  "sta_signals buf sinfo = seq_p
     [bind_p (get_chain_signal buf (nla_tb sinfo NL80211_STA_INFO_CHAIN_SIGNAL)) (\<lambda>chain.
        on_u8 sinfo NL80211_STA_INFO_SIGNAL (\<lambda>v. sta_line (''signal:  '' @ tb) (fmt_d (s8 v) @ '' '' @ chain @ ''dBm''))),
      bind_p (get_chain_signal buf (nla_tb sinfo NL80211_STA_INFO_CHAIN_SIGNAL_AVG)) (\<lambda>chain.
        on_u8 sinfo NL80211_STA_INFO_SIGNAL_AVG (\<lambda>v. sta_line (''signal avg:'' @ tb) (fmt_d (s8 v) @ '' '' @ chain @ ''dBm'')))]"

definition sta_info :: "('w, string) cell \<Rightarrow> nlattr list \<Rightarrow> ('w, unit) iw" where
  "sta_info buf sinfo =
     (let u32 = (\<lambda>n label t. on_u32 sinfo n (\<lambda>v. sta_line (label @ tb) (fmt_d (int v) @ t)));
          rate = (\<lambda>n label. on_attr sinfo n (\<lambda>a. bind_p (rate_buffer a) (sta_line (label @ tb))));
          pm = (\<lambda>n label. on_attr sinfo n (\<lambda>a. then_p (sta_line (label @ tb) '''')
            (bind_p (nla_get_u32 (Some a)) (\<lambda>v. print (power_mode_text v))))) in seq_p
     [u32 NL80211_STA_INFO_INACTIVE_TIME ''inactive time:'' '' ms'',
      u32 NL80211_STA_INFO_RX_BYTES ''rx bytes:'' '''',
      u32 NL80211_STA_INFO_RX_PACKETS ''rx packets:'' '''',
      u32 NL80211_STA_INFO_TX_BYTES ''tx bytes:'' '''',
      u32 NL80211_STA_INFO_TX_PACKETS ''tx packets:'' '''',
      u32 NL80211_STA_INFO_TX_RETRIES ''tx retries:'' '''',
      u32 NL80211_STA_INFO_TX_FAILED ''tx failed:'' '''',
      sta_signals buf sinfo,
      on_u64 sinfo NL80211_STA_INFO_T_OFFSET (\<lambda>v. sta_line (''Toffset:'' @ tb) (fmt_d (to_s64 (int v)) @ '' us'')),
      rate NL80211_STA_INFO_TX_BITRATE ''tx bitrate:'',
      rate NL80211_STA_INFO_RX_BITRATE ''rx bitrate:'',
      on_u32 sinfo NL80211_STA_INFO_EXPECTED_THROUGHPUT (\<lambda>v. sta_line (''expected throughput:'' @ tb) (throughput_text v)),
      on_u16 sinfo NL80211_STA_INFO_LLID (\<lambda>v. sta_line (''mesh llid:'' @ tb) (fmt_d (int v))),
      on_u16 sinfo NL80211_STA_INFO_PLID (\<lambda>v. sta_line (''mesh plid:'' @ tb) (fmt_d (int v))),
      on_u8 sinfo NL80211_STA_INFO_PLINK_STATE (\<lambda>v. sta_line (''mesh plink:'' @ tb) (plink_text v)),
      pm NL80211_STA_INFO_LOCAL_PM ''mesh local PS mode:'',
      pm NL80211_STA_INFO_PEER_PM ''mesh peer PS mode:'',
      pm NL80211_STA_INFO_NONPEER_PM ''mesh non-peer PS mode:'',
      on_attr sinfo NL80211_STA_INFO_STA_FLAGS (\<lambda>a. bind_p (nla_data (Some a)) (\<lambda>bs. print (sta_flags_text bs))),
      print [nl]])"

definition print_sta :: "'w netlink \<Rightarrow> ('w, string) cell \<Rightarrow> 'w valid_cb" where
  "print_sta E buf m u =
     (let as = rx_attrs m in
      case nla_tb as NL80211_ATTR_STA_INFO of
        None \<Rightarrow> eprint (line ''sta stats missing!'')
      | Some info \<Rightarrow>
          on_parsed stats_policy info (eprint (line ''failed to parse nested attributes!'')) (\<lambda>sinfo.
          bind_p (mac_text_of (nla_tb as NL80211_ATTR_MAC)) (\<lambda>mac.
          bind_p (ifname_of E (nla_tb as NL80211_ATTR_IFINDEX)) (\<lambda>dev.
          then_p (print (''Station '' @ mac @ '' (on '' @ dev @ '')'')) (sta_info buf sinfo)))))"

subsection \<open>The commands for stations\<close>

definition handle_station_get :: "'w netlink \<Rightarrow> ('w, string) cell \<Rightarrow> 'w iw_handler" where
  "handle_station_get E buf = get_by_mac E (print_sta E buf)"

text \<open>An address, the word of the command and its value, which is an attribute or a complaint.\<close>

definition station_set :: "'w netlink \<Rightarrow> string \<Rightarrow> (string \<Rightarrow> string + nla) \<Rightarrow> 'w iw_handler" where
  "station_set E word value again msg argv idby = with_msg msg (\<lambda>msg.
     case argv of a # w # v # r \<Rightarrow>
       mac_arg ''invalid mac address'' a msg (\<lambda>mac.
       if w \<noteq> word then result 1 msg else
       (case value v of
          Inl complaint \<Rightarrow> then_p (eprint (line complaint)) (result 2 msg)
        | Inr attr \<Rightarrow>
            if r \<noteq> [] then result 1 msg
            else put E ENOBUFS [Nla_bytes NL80211_ATTR_MAC mac, attr] msg (result 0)))
     | _ \<Rightarrow> result 1 msg)"

definition plink_value :: "string \<Rightarrow> string + nla" where
  "plink_value v = (if v = ''open'' then Inr (Nla_u8 NL80211_ATTR_STA_PLINK_ACTION 1)
     else if v = ''block'' then Inr (Nla_u8 NL80211_ATTR_STA_PLINK_ACTION 2) else Inl ''plink action not supported'')"

definition vlan_value :: "string \<Rightarrow> string + nla" where
  "vlan_value v = (case strtoul v 0 of (i, err) \<Rightarrow>
     if err \<noteq> [] then Inl ''invalid vlan id'' else Inr (Nla_u32 NL80211_ATTR_STA_VLAN (word_of_int i)))"

definition power_mode_value :: "string \<Rightarrow> string + nla" where
  "power_mode_value v = (case map_of [(''active'', 1), (''light'', 2), (''deep'', 3)] v of
     None \<Rightarrow> Inl ''unknown mesh power mode'' | Some i \<Rightarrow> Inr (Nla_u32 NL80211_ATTR_LOCAL_MESH_POWER_MODE i))"

definition handle_station_set_plink :: "'w netlink \<Rightarrow> 'w iw_handler" where
  "handle_station_set_plink E = station_set E ''plink_action'' plink_value"

definition handle_station_set_vlan :: "'w netlink \<Rightarrow> 'w iw_handler" where
  "handle_station_set_vlan E = station_set E ''vlan'' vlan_value"

definition handle_station_set_mesh_power_mode :: "'w netlink \<Rightarrow> 'w iw_handler" where
  "handle_station_set_mesh_power_mode E = station_set E ''mesh_power_mode'' power_mode_value"

definition select_station_cmd :: "string list \<Rightarrow> string option" where
  "select_station_cmd argv =
     (case argv of a # w # r \<Rightarrow>
        if w = ''plink_action'' then Some ''__cmd_station_set_plink''
        else if w = ''vlan'' then Some ''__cmd_station_set_vlan''
        else if w = ''mesh_power_mode'' then Some ''__cmd_station_set_mesh_power_mode'' else None
      | _ \<Rightarrow> None)"

definition handle_station_dump :: "'w netlink \<Rightarrow> ('w, string) cell \<Rightarrow> 'w iw_handler" where
  "handle_station_dump E buf again msg argv idby = with_msg msg (with_cb (print_sta E buf))"

definition station_cmds :: "'w netlink \<Rightarrow> ('w, string) cell \<Rightarrow> 'w cmd list" where
  "station_cmds E buf =
     (let alias = (\<lambda>c. c\<lparr>c_selector := Some select_station_cmd\<rparr>) in
     [SECTION ''station'',
      COMMAND ''station'' ''station_get'' ''get'' (Some ''<MAC address>'') 17 0 CIB_NETDEV (handle_station_get E buf)
        ''Get information for a specific station.'',
      COMMAND ''station'' ''station_del'' ''del'' (Some ''<MAC address>'') 20 0 CIB_NETDEV (handle_station_get E buf)
        ''Remove the given station entry (use with caution!)'',
      alias (COMMAND ''station'' ''station_set_plink'' ''set'' (Some ''<MAC address> plink_action <open|block>'') 18 0 CIB_NETDEV
        (handle_station_set_plink E) ''Set mesh peer link action for this station (peer).''),
      alias (COMMAND ''station'' ''station_set_vlan'' ''set'' (Some ''<MAC address> vlan <ifindex>'') 18 0 CIB_NETDEV
        (handle_station_set_vlan E) ''Set an AP VLAN for this station.''),
      alias (COMMAND ''station'' ''station_set_mesh_power_mode'' ''set'' (Some ''<MAC address> mesh_power_mode <active|light|deep>'') 18 0
        CIB_NETDEV (handle_station_set_mesh_power_mode E) ''Set link-specific mesh power mode for this station''),
      COMMAND ''station'' ''station_dump'' ''dump'' None 17 NLM_F_DUMP CIB_NETDEV (handle_station_dump E buf)
        ''List all stations known, e.g. the AP on managed interfaces''])"

subsection \<open>The survey of the channels\<close>

definition survey_policy :: "(nat \<times> nla_policy) list" where
  "survey_policy = [(NL80211_SURVEY_INFO_FREQUENCY, NLA_U32), (NL80211_SURVEY_INFO_NOISE, NLA_U8)]"

definition print_survey :: "'w netlink \<Rightarrow> 'w valid_cb" where
  "print_survey E m u =
     (let as = rx_attrs m in
      bind_p (ifname_of E (nla_tb as NL80211_ATTR_IFINDEX)) (\<lambda>dev.
      then_p (print (line (''Survey data from '' @ dev)))
      (case nla_tb as NL80211_ATTR_SURVEY_INFO of
        None \<Rightarrow> eprint (line ''survey data missing!'')
      | Some info \<Rightarrow>
          on_parsed survey_policy info (eprint (line ''failed to parse nested attributes!'')) (\<lambda>sinfo.
          let time = (\<lambda>n label. on_u64 sinfo n (\<lambda>v. print (line (tb @ label @ fmt_d (int v) @ '' ms'')))) in seq_p
          [on_u32 sinfo NL80211_SURVEY_INFO_FREQUENCY (\<lambda>v. print (line (tb @ ''frequency:'' @ tb @ tb @ tb @ fmt_d (int v) @ '' MHz'' @
             (if nla_tb sinfo NL80211_SURVEY_INFO_IN_USE = None then '''' else '' [in use]'')))),
           on_u8 sinfo NL80211_SURVEY_INFO_NOISE (\<lambda>v. print (line (tb @ ''noise:'' @ tb @ tb @ tb @ tb @ fmt_d (s8 v) @ '' dBm''))),
           time NL80211_SURVEY_INFO_CHANNEL_TIME (''channel active time:'' @ tb @ tb),
           time NL80211_SURVEY_INFO_CHANNEL_TIME_BUSY (''channel busy time:'' @ tb @ tb),
           time NL80211_SURVEY_INFO_CHANNEL_TIME_EXT_BUSY (''extension channel busy time:'' @ tb),
           time NL80211_SURVEY_INFO_CHANNEL_TIME_RX (''channel receive time:'' @ tb @ tb),
           time NL80211_SURVEY_INFO_CHANNEL_TIME_TX (''channel transmit time:'' @ tb @ tb)]))))"

definition handle_survey_dump :: "'w netlink \<Rightarrow> 'w iw_handler" where
  "handle_survey_dump E again msg argv idby = with_msg msg (with_cb (print_survey E))"

definition survey_cmds :: "'w netlink \<Rightarrow> 'w cmd list" where
  "survey_cmds E = [SECTION ''survey'',
     COMMAND ''survey'' ''survey_dump'' ''dump'' None 50 NLM_F_DUMP CIB_NETDEV (handle_survey_dump E)
       ''List all gathered channel survey data'']"

subsection \<open>The buffers for rates and signals\<close>

text \<open>A text in pieces is printed to its end exactly when what is there before each piece fits.\<close>

lemma snprintfs_None: "snprintfs n t ps = None \<longleftrightarrow> ps \<noteq> [] \<and> n < length t + length (concat (butlast ps))"
proof (induction n t ps rule: snprintfs.induct)
  case (2 n t p ps)
  then show ?case by (cases ps) auto
qed simp

lemma snprintfs_text: "snprintfs n t ps \<noteq> None \<Longrightarrow> snprintfs n t ps = Some (take (n - 1) (t @ concat ps))"
  by (induction n t ps rule: snprintfs.induct) (auto split: if_splits)

lemma digits_of_length: "n < 10 ^ Suc k \<Longrightarrow> length (digits_of 10 n) \<le> Suc k"
proof (induction k arbitrary: n)
  case (Suc k)
  show ?case
  proof (cases "n < 10")
    case False
    have "n div 10 < 10 ^ Suc k" using Suc.prems by (simp add: div_less_iff_less_mult)
    from Suc.IH [OF this] show ?thesis using False by (simp add: digits_of.simps [of 10 n])
  qed (simp add: digits_of.simps)
qed (simp add: digits_of.simps)

lemma s8_length: "v < 256 \<Longrightarrow> length (fmt_d (s8 v)) \<le> 4"
  using digits_of_length [of "nat (s8 v)" 2] digits_of_length [of "nat (- s8 v)" 2] by (auto simp: fmt_d_def s8_def)

lemma chain_length:
  assumes "list_all (\<lambda>v. v < 256) vs"
  shows "length (concat (map (\<lambda>v. '', '' @ fmt_d (s8 v)) vs)) \<le> 6 * length vs"
  using assms by (induction vs) (auto dest: s8_length)

text \<open>
  C39.  The signals of up to ten antennas are printed within the static buffer of 64 bytes; for more the text is written behind it exactly when what
  comes before the closing bracket has more than 64 characters.  What is printed is the text of all antennas in order, cut at 63 characters.
\<close>

theorem chain_signal_bounds:
  assumes "vs \<noteq> []"
  shows "fst (get_chain_signal buf (Some (At_nest n (map (At_u8 t) vs))) s) =
      (if 64 < length (concat (butlast (chain_pieces (map unat vs)))) then Inl Undef
       else Inr (take 63 (concat (chain_pieces (map unat vs))))) \<and>
    (length vs \<le> 10 \<longrightarrow> length (concat (butlast (chain_pieces (map unat vs)))) \<le> 64)"
proof -
  obtain v r where vs: "vs = v # r" using assms by (cases vs) auto
  have m: "map_p (\<lambda>a. nla_get_u8 (Some a)) (map (At_u8 t) vs) = ret (map unat vs)" for vs
    by (induction vs) (simp_all add: nla_gets)
  let ?ps = "chain_pieces (map unat vs)"
  have b: "butlast ?ps = (''['' @ fmt_d (s8 (unat v))) # map (\<lambda>v. '', '' @ fmt_d (s8 v)) (map unat r)"
    by (simp add: vs butlast_append)
  have "length (concat (butlast ?ps)) \<le> 5 + 6 * length r"
    using s8_length [OF unat_u8_less, of v] chain_length [of "map unat r"] unfolding b by (simp add: list_all_iff unat_u8_less)
  then have "length vs \<le> 10 \<longrightarrow> length (concat (butlast ?ps)) \<le> 64" by (simp add: vs)
  moreover have "fst (get_chain_signal buf (Some (At_nest n (map (At_u8 t) vs))) s) =
      (case snprintfs CHAIN_BUF [] ?ps of None \<Rightarrow> Inl Undef | Some t \<Rightarrow> Inr t)"
    using assms by (simp add: get_chain_signal_def nla_nested_def m set_var_def then_p_def bind_p_def sys_def ret_def undef_p_def split: option.splits prod.splits)
  moreover have "?ps \<noteq> []" by (simp add: vs)
  ultimately show ?thesis
    using snprintfs_text [of CHAIN_BUF "[]" ?ps] snprintfs_None [of CHAIN_BUF "[]" ?ps]
    by (cases "snprintfs CHAIN_BUF [] ?ps") (simp_all add: CHAIN_BUF_def)
qed

theorem chain_signal_bounds_witness:
  "fst (get_chain_signal (\<lambda>_. [], \<lambda>_. id) (Some (At_nest 25 [At_u8 0 0xc4, At_u8 0 0xff])) \<lparr>world = (), stdin = [], stdout = [], stderr = []\<rparr>) =
     Inr ''[-60, -1] '' \<and>
   fst (get_chain_signal (\<lambda>_. [], \<lambda>_. id) (Some (At_nest 25 (map (At_u8 0) (replicate 11 0x80)))) \<lparr>world = (), stdin = [], stdout = [], stderr = []\<rparr>) =
     Inl Undef"
proof -
  have a: "concat (chain_pieces (map unat [0xc4, 0xff :: 8 word])) = ''[-60, -1] ''"
    by (simp add: s8_def fmt_nums)
  have c: "map unat (replicate 11 (0x80 :: 8 word)) = 128 # replicate 10 128" 
    using replicate_Suc [of 10 "128 :: nat"] by simp
  have b: "length (concat (butlast (chain_pieces (map unat (replicate 11 (0x80 :: 8 word)))))) = 65"
    unfolding c by (simp add: butlast_append length_concat sum_list_replicate s8_def fmt_nums)
  show ?thesis
    using chain_signal_bounds [of "[0xc4, 0xff]" "(\<lambda>_. [], \<lambda>_. id)" 25 0 "\<lparr>world = (), stdin = [], stdout = [], stderr = []\<rparr>"]
      chain_signal_bounds [of "replicate 11 0x80" "(\<lambda>_. [], \<lambda>_. id)" 25 0 "\<lparr>world = (), stdin = [], stdout = [], stderr = []\<rparr>"]
    unfolding a b by simp
qed
text \<open>The length of the text that a printer in pieces gives.\<close>

definition text_within :: "nat \<Rightarrow> ('w, string list) iw \<Rightarrow> bool" where
  "text_within k m \<longleftrightarrow> (\<forall>s. wp m (\<lambda>ps _. length (concat ps) \<le> k) (\<lambda>_ _. True) s)"

lemma text_within_ret: "length (concat ps) \<le> k \<Longrightarrow> text_within k (ret ps)"
  by (simp add: text_within_def wp_simps)

lemma u16_less: "unat (w :: 16 word) < 65536"
  using unsigned_less [of w] by simp

lemma text_within_get:
  "(\<And>v. v < 256 \<Longrightarrow> text_within k (f v)) \<Longrightarrow> text_within k (bind_p (nla_get_u8 a) f)"
  "(\<And>v. v < 65536 \<Longrightarrow> text_within k (g v)) \<Longrightarrow> text_within k (bind_p (nla_get_u16 a) g)"
  "(\<And>v. text_within k (h v)) \<Longrightarrow> text_within k (bind_p (nla_get_u32 a) h)"
  by (auto simp: text_within_def wp_simps nla_gets unat_u8_less u16_less split: option.splits nlattr.splits)

lemma text_within_if_attr: "(\<And>a. text_within k (f a)) \<Longrightarrow> text_within k (if_attr as n f)"
  by (simp add: text_within_def if_attr_def wp_simps split: option.splits)

lemma wp_ret_fun: "wp (ret x) Q X = Q x"
  by (rule ext) (simp add: wp_ret)

lemma text_within_collect:
  "text_within 0 (collect [])"
  "text_within j m \<Longrightarrow> text_within k (collect ms) \<Longrightarrow> text_within (j + k) (collect (m # ms))"
proof -
  assume a: "text_within j m" "text_within k (collect ms)"
  show "text_within (j + k) (collect (m # ms))"
    unfolding text_within_def
  proof
    fix s
    have "wp m (\<lambda>ps _. length (concat ps) \<le> j) (\<lambda>_ _. True) s" using a(1) by (simp add: text_within_def)
    moreover have "wp (collect ms) (\<lambda>ys _. length (concat (ps @ ys)) \<le> j + k) (\<lambda>_ _. True) t" if "length (concat ps) \<le> j" for ps t
      by (rule wp_mono [OF a(2) [unfolded text_within_def, rule_format, of t]]) (use that in simp_all)
    ultimately show "wp (collect (m # ms)) (\<lambda>ps _. length (concat ps) \<le> j + k) (\<lambda>_ _. True) s"
      by (simp add: wp_simps) (erule wp_mono, simp_all add: wp_bind wp_ret_fun)
  qed
qed (simp add: text_within_def wp_simps)

lemma rate_text_length:
  assumes "r < 2 ^ 31"
  shows "length (concat (rate_text r)) \<le> 18"
proof (cases "0 < r")
  case True
  have "r div 10 < 10 ^ 9" using assms by simp
  then have "nat (r div 10) < 10 ^ Suc 8" "nat (r mod 10) < 10 ^ Suc 0" by (simp_all add: nat_less_iff)
  moreover have "\<not> r mod 10 < 0" by simp
  ultimately show ?thesis using True digits_of_length [of "nat (r div 10)" 8] digits_of_length [of "nat (r mod 10)" 0]
    by (simp add: rate_text_def fmt_d_def pos_imp_zdiv_neg_iff)
qed (simp add: rate_text_def)

lemma u8_length: "v < 256 \<Longrightarrow> length (fmt_d (int v)) \<le> 3"
  using digits_of_length [of v 2] by (simp add: fmt_d_def)

lemma bitrate_pieces_within: "text_within 87 (bitrate_pieces rinfo)"
proof -
  have r: "text_within 18 (if nla_tb rinfo NL80211_RATE_INFO_BITRATE32 \<noteq> None
      then bind_p (nla_get_u32 (nla_tb rinfo NL80211_RATE_INFO_BITRATE32)) (\<lambda>v. ret (rate_text (to_int (int v))))
      else if_attr rinfo NL80211_RATE_INFO_BITRATE (\<lambda>a. bind_p (nla_get_u16 (Some a)) (\<lambda>v. ret (rate_text (int v)))))"
    using to_int_range by (auto intro!: text_within_get text_within_if_attr text_within_ret rate_text_length)
  have u: "text_within (length s + 3) (if_attr rinfo n (\<lambda>a. bind_p (nla_get_u8 (Some a)) (\<lambda>v. ret [s @ fmt_d (int v)])))" for s n
    by (auto intro!: text_within_get text_within_if_attr text_within_ret u8_length)
  have f: "text_within (length s) (if_attr rinfo n (\<lambda>a. ret [s]))" for s n
    by (auto intro!: text_within_if_attr text_within_ret)
  show ?thesis
    unfolding bitrate_pieces_def Let_def
    using text_within_collect(2) [OF r text_within_collect(2) [OF u text_within_collect(2) [OF u text_within_collect(2) [OF f
      text_within_collect(2) [OF f text_within_collect(2) [OF f text_within_collect(2) [OF f text_within_collect(2) [OF f
      text_within_collect(2) [OF u text_within_collect(1)]]]]]]]]]
    by (rule back_subst [of "\<lambda>k. text_within k _"]) simp
qed

text \<open>
  C40.  The text of a rate never needs more than 87 of the 100 bytes its buffer has, whatever the kernel reports: each part that is
  there is printed whole, and nothing is cut off.  When there is no part, as for an attribute with nothing in it, nothing is written, and
  a caller that prints the buffer reads bytes it never set.
\<close>

theorem parse_bitrate_whole:
  "parse_bitrate 100 (At_nest n rinfo) s =
     (if long_enough rate_policy rinfo
      then (case bitrate_pieces rinfo s of (Inl c, t) \<Rightarrow> (Inl c, t) | (Inr ps, t) \<Rightarrow> (Inr (if ps = [] then None else Some (concat ps)), t))
      else (Inr (Some ''failed to parse nested rate attributes!''), s)) \<and>
   wp (bitrate_pieces rinfo) (\<lambda>ps _. length (concat ps) \<le> 87) (\<lambda>_ _. True) s \<and>
   rate_buffer (At_nest n []) s = (Inl Undef, s)"
proof -
  have w: "wp (bitrate_pieces rinfo) (\<lambda>ps _. length (concat ps) \<le> 87) (\<lambda>_ _. True) s"
    by (rule bitrate_pieces_within [unfolded text_within_def, rule_format])
  have "snprintfs 100 [] ps = Some (concat ps)" if "length (concat ps) \<le> 87" for ps
  proof -
    have "length (concat (butlast ps)) \<le> length (concat ps)" by (cases ps rule: rev_cases) simp_all
    then have "snprintfs 100 [] ps \<noteq> None" using that by (simp add: snprintfs_None)
    from snprintfs_text [OF this] show ?thesis using that by simp
  qed
  moreover have "rate_buffer (At_nest n []) s = (Inl Undef, s)"
    by (simp add: rate_buffer_def parse_bitrate_def on_parsed_def nla_nested_def bind_p_def ret_def undef_p_def bitrate_pieces_def Let_def
        if_attr_def nla_tb_def long_enough_def)
  ultimately show ?thesis using w
    by (auto simp: parse_bitrate_def on_parsed_def nla_nested_def bind_p_def wp_def ret_def undef_p_def split: prod.splits sum.splits)
qed

end
