(* ===== verification/Iw_Bss.thy ===== *)
theory Iw_Bss
  imports Iw_Attr Iw_Scan Iw_Tree "HOL-Library.Signed_Division"
begin

unbundle bit_operations_syntax

text \<open>
  The rest of \<open>scan.c\<close> of \<open>iw\<close>: the request for a scan with its little argument language, the printer of a
  network that was found, and the command that asks for a scan, waits for its end and shows what it found.
\<close>

definition NL80211_ATTR_BSS :: nat where "NL80211_ATTR_BSS = 47"
definition NL80211_ATTR_IE :: nat where "NL80211_ATTR_IE = 42"
definition NL80211_ATTR_MAC_MASK :: nat where "NL80211_ATTR_MAC_MASK = 215"
definition NL80211_ATTR_SCAN_SSIDS :: nat where "NL80211_ATTR_SCAN_SSIDS = 45"
definition NL80211_ATTR_SCAN_FLAGS :: nat where "NL80211_ATTR_SCAN_FLAGS = 158"
definition NL80211_BSS_BSSID :: nat where "NL80211_BSS_BSSID = 1"
definition NL80211_BSS_FREQUENCY :: nat where "NL80211_BSS_FREQUENCY = 2"
definition NL80211_BSS_TSF :: nat where "NL80211_BSS_TSF = 3"
definition NL80211_BSS_BEACON_INTERVAL :: nat where "NL80211_BSS_BEACON_INTERVAL = 4"
definition NL80211_BSS_CAPABILITY :: nat where "NL80211_BSS_CAPABILITY = 5"
definition NL80211_BSS_INFORMATION_ELEMENTS :: nat where "NL80211_BSS_INFORMATION_ELEMENTS = 6"
definition NL80211_BSS_SIGNAL_MBM :: nat where "NL80211_BSS_SIGNAL_MBM = 7"
definition NL80211_BSS_SIGNAL_UNSPEC :: nat where "NL80211_BSS_SIGNAL_UNSPEC = 8"
definition NL80211_BSS_STATUS :: nat where "NL80211_BSS_STATUS = 9"
definition NL80211_BSS_SEEN_MS_AGO :: nat where "NL80211_BSS_SEEN_MS_AGO = 10"
definition NL80211_BSS_BEACON_IES :: nat where "NL80211_BSS_BEACON_IES = 11"
definition NL80211_CMD_NEW_SCAN_RESULTS :: nat where "NL80211_CMD_NEW_SCAN_RESULTS = 34"
definition NL80211_CMD_SCAN_ABORTED :: nat where "NL80211_CMD_SCAN_ABORTED = 35"
definition NL80211_SCAN_FLAG_RANDOM_ADDR :: nat where "NL80211_SCAN_FLAG_RANDOM_ADDR = 8"

subsection \<open>The request\<close>

text \<open>What is behind \<open>randomise\<close>: anything but an equals sign is ignored.\<close>

definition parse_random_mac_addr :: "'w netlink \<Rightarrow> string \<Rightarrow> nl_msg \<Rightarrow> (nl_msg \<Rightarrow> 'w outcome) \<Rightarrow> 'w outcome" where
  "parse_random_mac_addr E addrs msg k =
     (if char_at addrs 0 \<noteq> CHR ''='' then k msg
      else (case split_at (CHR ''/'') (tl addrs) of
          None \<Rightarrow> result 1 msg
        | Some (a_addr, a_mask) \<Rightarrow>
            (case mac_addr_a2n (replicate ETH_ALEN 0) a_addr of (r, addr) \<Rightarrow>
             if r \<noteq> 0 then result 1 msg else
             case mac_addr_a2n (replicate ETH_ALEN 0) a_mask of (r, msk) \<Rightarrow>
             if r \<noteq> 0 then result 1 msg
             else put E ENOBUFS [Nla_bytes NL80211_ATTR_MAC addr, Nla_bytes NL80211_ATTR_MAC_MASK msk] msg k)))"

datatype scan_parse = SC_NONE | SC_FREQ | SC_IES | SC_SSID | SC_MESHID | SC_DONE

record scan_req =
  sc_err :: int
  is_passive :: bool
  have_ssids :: bool
  have_sc_freqs :: bool
  sc_ies :: "8 word list option"
  sc_meshid :: "8 word list option"
  sc_flags :: "32 word"
  sc_ssids :: nl_msg
  sc_freqs :: nl_msg

definition start_scan :: scan_req where
  "start_scan = \<lparr>sc_err = - ENOBUFS, is_passive = False, have_ssids = False, have_sc_freqs = False, sc_ies = None, sc_meshid = None,
     sc_flags = 0, sc_ssids = [], sc_freqs = []\<rparr>"

definition scan_flags :: "(string \<times> 32 word) list" where
  "scan_flags = [(''lowpri'', 1), (''flush'', 2), (''ap-force'', 4)]"

text \<open>The mesh element: its length is one byte.\<close>

definition mesh_element :: "string \<Rightarrow> 8 word list" where
  "mesh_element s = [114, word_of_nat (length s)] @ bytes_of s"

text \<open>
  The loop over the arguments; \<open>i\<close> is the index of the next one, which is also the type of its attribute.  The label
  \<open>nla_put_failure\<close> returns \<open>sc_err\<close>, which a word \<open>randomise\<close> leaves at 0.
\<close>

function scan_loop ::
  "'w netlink \<Rightarrow> (nat \<Rightarrow> bool) \<Rightarrow> scan_parse \<Rightarrow> nat \<Rightarrow> scan_req \<Rightarrow> string list \<Rightarrow> nl_msg \<Rightarrow>
    (scan_req \<Rightarrow> nl_msg \<Rightarrow> 'w outcome) \<Rightarrow> 'w outcome" where
  "scan_loop E calloc st i d argv msg k =
     (case argv of [] \<Rightarrow> k d msg
      | a # r \<Rightarrow>
          (case st of
             SC_NONE \<Rightarrow>
               if a = ''freq'' then scan_loop E calloc SC_FREQ (i + 1) (d\<lparr>have_sc_freqs := True\<rparr>) r msg k
               else if a = ''ies'' then scan_loop E calloc SC_IES (i + 1) d r msg k
               else (case map_of scan_flags a of
                   Some f \<Rightarrow> scan_loop E calloc SC_NONE (i + 1) (d\<lparr>sc_flags := sc_flags d OR f\<rparr>) r msg k
                 | None \<Rightarrow>
                     if strncmp_eq a ''randomise'' 9 \<or> strncmp_eq a ''randomize'' 9 then
                       parse_random_mac_addr E (drop 9 a) msg (\<lambda>msg.
                         scan_loop E calloc SC_NONE (i + 1)
                           (d\<lparr>sc_flags := sc_flags d OR word_of_nat NL80211_SCAN_FLAG_RANDOM_ADDR, sc_err := 0\<rparr>) r msg k)
                     else if a = ''ssid'' then scan_loop E calloc SC_SSID (i + 1) (d\<lparr>have_ssids := True\<rparr>) r msg k
                     else if a = ''passive'' then scan_loop E calloc SC_DONE (i + 1) (d\<lparr>is_passive := True\<rparr>) r msg k
                     else if a = ''meshid'' then scan_loop E calloc SC_MESHID (i + 1) d r msg k
                     else result 1 msg)
           | SC_DONE \<Rightarrow> result 1 msg
           | SC_FREQ \<Rightarrow>
               (case strtoul a 10 of (freq, end) \<Rightarrow>
                  if end \<noteq> [] then scan_loop E calloc SC_NONE i d argv msg k
                  else (case nla_put (n_fits E) (Nla_u32 i (word_of_int freq)) (sc_freqs d) of
                      None \<Rightarrow> result (sc_err d) msg
                    | Some fs \<Rightarrow> scan_loop E calloc SC_FREQ (i + 1) (d\<lparr>sc_freqs := fs\<rparr>) r msg k))
           | SC_IES \<Rightarrow>
               (case parse_hex calloc a of
                  Inl Out_of_bounds \<Rightarrow> undef_p
                | Inl _ \<Rightarrow> result (sc_err d) msg
                | Inr bs \<Rightarrow> scan_loop E calloc SC_NONE (i + 1) (d\<lparr>sc_ies := Some bs\<rparr>) r msg k)
           | SC_SSID \<Rightarrow>
               (case nla_put (n_fits E) (Nla_bytes i (bytes_of a)) (sc_ssids d) of
                  None \<Rightarrow> result (sc_err d) msg
                | Some ss \<Rightarrow> scan_loop E calloc SC_SSID (i + 1) (d\<lparr>sc_ssids := ss\<rparr>) r msg k)
           | SC_MESHID \<Rightarrow>
               if \<not> calloc (length a + 2) then result (sc_err d) msg
               else scan_loop E calloc SC_NONE (i + 1) (d\<lparr>sc_meshid := Some (mesh_element a)\<rparr>) r msg k))"
  by pat_completeness auto
termination
  by (relation "measure (\<lambda>(E, calloc, st, i, d, argv, msg, k). 2 * length argv + (if st = SC_FREQ then 1 else 0))") auto

declare scan_loop.simps [simp del]

definition scan_finish :: "'w netlink \<Rightarrow> (nat \<Rightarrow> bool) \<Rightarrow> scan_req \<Rightarrow> nl_msg \<Rightarrow> 'w outcome" where
  "scan_finish E calloc d msg =
     (let text = (\<lambda>b. case b of None \<Rightarrow> [] | Some bs \<Rightarrow> bs); ies = text (sc_ies d) @ text (sc_meshid d);
          failed = result (sc_err d) msg in
      if (sc_ies d \<noteq> None \<or> sc_meshid d \<noteq> None) \<and> \<not> calloc (length ies) then failed
      else (case (if sc_ies d = None \<and> sc_meshid d = None then Some msg else nla_put (n_fits E) (Nla_bytes NL80211_ATTR_IE ies) msg) of
          None \<Rightarrow> failed
        | Some msg \<Rightarrow>
            (case (if have_ssids d then Some (sc_ssids d) else nla_put (n_fits E) (Nla_bytes 1 []) (sc_ssids d)) of
               None \<Rightarrow> result (sc_err d) msg
             | Some ssids \<Rightarrow>
                 (let msg = (if is_passive d then msg else put_nested E NL80211_ATTR_SCAN_SSIDS ssids msg);
                      msg = (if have_sc_freqs d then put_nested E NL80211_ATTR_SCAN_FREQUENCIES (sc_freqs d) msg else msg) in
                  if sc_flags d = 0 then result 0 msg
                  else (case nla_put (n_fits E) (Nla_u32 NL80211_ATTR_SCAN_FLAGS (sc_flags d)) msg of
                      None \<Rightarrow> result (sc_err d) msg
                    | Some msg \<Rightarrow> result 0 msg)))))"

definition handle_scan :: "'w netlink \<Rightarrow> (nat \<Rightarrow> bool) \<Rightarrow> 'w iw_handler" where
  "handle_scan E calloc again msg argv idby = with_msg msg (\<lambda>msg.
     bind_p (sys (n_alloc E)) (\<lambda>ok. if \<not> ok then result (- ENOMEM) msg else
     bind_p (sys (n_alloc E)) (\<lambda>ok. if \<not> ok then result (- ENOMEM) msg else
     scan_loop E calloc SC_NONE 0 start_scan argv msg (scan_finish E calloc))))"

subsection \<open>A network\<close>

definition dmg_capas :: "(nat \<times> string) list" where
  "dmg_capas = [(2, '' CBAP_Only''), (3, '' CBAP_Src''), (4, '' Privacy''), (5, '' ECPAC''), (8, '' SpectrumMgmt''), (12, '' RadioMeasure'')]"

definition print_capa_dmg :: "nat \<Rightarrow> string" where
  "print_capa_dmg capa =
     (if capa mod 4 = 3 then '' DMG_ESS'' else if capa mod 4 = 2 then '' DMG_PCP'' else if capa mod 4 = 1 then '' DMG_IBSS'' else '''') @
     concat (map (\<lambda>(n, t). if bit capa n then t else '''') dmg_capas)"

definition capas :: "(nat \<times> string) list" where
  "capas = [(0, '' ESS''), (1, '' IBSS''), (2, '' CfPollable''), (3, '' CfPollReq''), (4, '' Privacy''), (5, '' ShortPreamble''), (6, '' PBCC''),
     (7, '' ChannelAgility''), (8, '' SpectrumMgmt''), (9, '' QoS''), (10, '' ShortSlotTime''), (11, '' APSD''), (12, '' RadioMeasure''),
     (13, '' DSSS-OFDM''), (14, '' DelayedBACK''), (15, '' ImmediateBACK'')]"

definition print_capa_non_dmg :: "nat \<Rightarrow> string" where
  "print_capa_non_dmg capa = concat (map (\<lambda>(n, t). if bit capa n then t else '''') capas)"

text \<open>\<open>%.2d\<close>: at least two digits, behind the sign.\<close>

definition fmt_2d :: "int \<Rightarrow> string" where
  "fmt_2d i = (if i < 0 then ''-'' else '''') @ pad0 2 (fmt_d \<bar>i\<bar>)"

definition tsf_text :: "nat \<Rightarrow> string" where
  "tsf_text tsf =
     (let secs = tsf div 1000 div 1000; two = (\<lambda>n. fmt_2d (int n)) in
      fmt_d (int tsf) @ '' usec ('' @ fmt_d (int (secs div 60 div 60 div 24)) @ ''d, '' @ two (secs div 60 div 60 mod 24) @ '':'' @
      two (secs div 60 mod 60) @ '':'' @ two (secs mod 60) @ '')'')"

text \<open>Hundredths; both parts have the sign.\<close>

definition signal_text :: "int \<Rightarrow> string" where
  "signal_text s = fmt_d (s sdiv 100) @ ''.'' @ fmt_2d (s smod 100) @ '' dBm''"

definition bss_policy :: "(nat \<times> nla_policy) list" where
  "bss_policy = [(NL80211_BSS_TSF, NLA_U64), (NL80211_BSS_FREQUENCY, NLA_U32), (NL80211_BSS_BEACON_INTERVAL, NLA_U16),
     (NL80211_BSS_CAPABILITY, NLA_U16), (NL80211_BSS_SIGNAL_MBM, NLA_U32), (NL80211_BSS_SIGNAL_UNSPEC, NLA_U8),
     (NL80211_BSS_STATUS, NLA_U32), (NL80211_BSS_SEEN_MS_AGO, NLA_U32)]"

record scan_params =
  sp_unknown :: bool
  show_both_ie_sets :: bool
  sp_type :: print_ie_type

text \<open>A printer of \<open>Iw_Scan\<close>; \<open>None\<close> is a read behind its buffer.\<close>

definition print_opt :: "string option \<Rightarrow> ('w, unit) iw" where
  "print_opt t = (case t of None \<Rightarrow> undef_p | Some t \<Rightarrow> print t)"

definition show_ies :: "bool \<Rightarrow> print_ie_type \<Rightarrow> nlattr \<Rightarrow> ('w, unit) iw" where
  "show_ies unknown ptype a = bind_p (nla_data (Some a)) (\<lambda>bs. print_opt (print_ies bs (int (length bs)) unknown ptype))"

definition status_text :: "nat \<Rightarrow> string" where
  "status_text v = (if v = 0 then '' -- authenticated'' else if v = 1 then '' -- associated'' else if v = 2 then '' -- joined''
     else '' -- unknown status: '' @ fmt_du v)"

definition is_dmg :: "nlattr list \<Rightarrow> ('w, bool) iw" where
  "is_dmg bss =
     (case nla_tb bss NL80211_BSS_FREQUENCY of None \<Rightarrow> ret False
      | Some a \<Rightarrow> bind_p (nla_get_u32 (Some a)) (\<lambda>freq. ret (to_int (int freq) > 45000)))"

definition bss_head :: "'w netlink \<Rightarrow> nlattr list \<Rightarrow> nlattr list \<Rightarrow> ('w, unit) iw" where
  "bss_head E as bss = seq_p
     [bind_p (mac_text_of (nla_tb bss NL80211_BSS_BSSID)) (\<lambda>mac. print (''BSS '' @ mac)),
      on_attr as NL80211_ATTR_IFINDEX (\<lambda>a. bind_p (ifname_of E (Some a)) (\<lambda>dev. print (''(on '' @ dev @ '')''))),
      on_u32 bss NL80211_BSS_STATUS (\<lambda>v. print (status_text v)),
      print [nl]]"

definition bss_info :: "nlattr list \<Rightarrow> ('w, unit) iw" where
  "bss_info bss = seq_p
     [on_u64 bss NL80211_BSS_TSF (\<lambda>v. print (line (tb @ ''TSF: '' @ tsf_text v))),
      on_u32 bss NL80211_BSS_FREQUENCY (\<lambda>v. print (line (tb @ ''freq: '' @ fmt_du v))),
      on_u16 bss NL80211_BSS_BEACON_INTERVAL (\<lambda>v. print (line (tb @ ''beacon interval: '' @ fmt_d (int v) @ '' TUs''))),
      on_u16 bss NL80211_BSS_CAPABILITY (\<lambda>v. bind_p (is_dmg bss) (\<lambda>dmg.
        print (line (tb @ ''capability:'' @ (if dmg then print_capa_dmg v else print_capa_non_dmg v) @ '' (0x'' @ fmt_0x 4 v @ '')'')))),
      on_u32 bss NL80211_BSS_SIGNAL_MBM (\<lambda>v. print (line (tb @ ''signal: '' @ signal_text (to_int (int v))))),
      on_u8 bss NL80211_BSS_SIGNAL_UNSPEC (\<lambda>v. print (line (tb @ ''signal: '' @ fmt_d (int v) @ ''/100''))),
      on_u32 bss NL80211_BSS_SEEN_MS_AGO (\<lambda>v. print (line (tb @ ''last seen: '' @ fmt_du v @ '' ms ago'')))]"

definition bss_ies :: "scan_params \<Rightarrow> nlattr list \<Rightarrow> ('w, unit) iw" where
  "bss_ies p bss =
     (let ies = nla_tb bss NL80211_BSS_INFORMATION_ELEMENTS; beacon = nla_tb bss NL80211_BSS_BEACON_IES;
          left = (if show_both_ie_sets p then 2 else 1 :: nat) - (if ies = None then 0 else 1) in seq_p
      [(case ies of None \<Rightarrow> ret ()
        | Some a \<Rightarrow> then_p (if beacon = None then ret () else print (line (tb @ ''Information elements from Probe Response frame:'')))
            (show_ies (sp_unknown p) (sp_type p) a)),
       (case beacon of None \<Rightarrow> ret ()
        | Some a \<Rightarrow> if left = 0 then ret ()
            else then_p (print (line (tb @ ''Information elements from Beacon frame:''))) (show_ies (sp_unknown p) (sp_type p) a))])"

definition print_bss :: "'w netlink \<Rightarrow> scan_params \<Rightarrow> 'w valid_cb" where
  "print_bss E p m u =
     (let as = rx_attrs m in
      case nla_tb as NL80211_ATTR_BSS of
        None \<Rightarrow> eprint (line ''bss info missing!'')
      | Some b \<Rightarrow>
          on_parsed bss_policy b (eprint (line ''failed to parse nested attributes!'')) (\<lambda>bss.
          if nla_tb bss NL80211_BSS_BSSID = None then ret ()
          else seq_p [bss_head E as bss, bss_info bss, bss_ies p bss]))"

subsection \<open>The commands\<close>

definition handle_scan_dump :: "'w netlink \<Rightarrow> 'w iw_handler" where
  "handle_scan_dump E again msg argv idby = with_msg msg (\<lambda>msg.
     if length argv > 1 then result 1 msg
     else with_cb (print_bss E \<lparr>sp_unknown = (argv = [''-u'']), show_both_ie_sets = (argv = [''-b'']), sp_type = PRINT_SCAN\<rparr>) msg)"

definition listen_events :: "'w netlink \<Rightarrow> nat list \<Rightarrow> ('w, nat) iw" where
  "listen_events E waits =
     bind_p (prepare_listen_events E) (\<lambda>r. if r \<noteq> 0 then ret (nat (r mod 2 ^ 32)) else do_listen_events E (\<lambda>_. ret ()) waits)"

definition handle_scan_combined :: "'w netlink \<Rightarrow> 'w iw_handler" where
  "handle_scan_combined E again msg argv idby =
     (case argv of
        dev # _ # args \<Rightarrow>
          (let opt = (if take 1 args \<in> {[''-u''], [''-b'']} then take 1 args else []); rest = drop (length opt) args in
           bind_p (sys (n_calloc E (3 + length rest))) (\<lambda>ok.
           if \<not> ok then result (- ENOMEM) []
           else bind_p (again idby ([dev, ''scan'', ''trigger''] @ rest)) (\<lambda>err.
           if err \<noteq> 0 then result err []
           else bind_p (listen_events E [NL80211_CMD_NEW_SCAN_RESULTS, NL80211_CMD_SCAN_ABORTED]) (\<lambda>cmd.
           if cmd = NL80211_CMD_SCAN_ABORTED then then_p (print (line ''scan aborted!'')) (result 0 [])
           else bind_p (again idby ([dev, ''scan'', ''dump''] @ opt)) (\<lambda>err. result err [])))))
      | _ \<Rightarrow> undef_p)"

definition scan_words :: string where
  "scan_words = ''[freq <freq>*] [ies <hex as 00:11:..>] [meshid <meshid>] [lowpri,flush,ap-force] [randomise[=<addr>/<mask>]] [ssid <ssid>*|passive]''"

definition scan_cmds :: "'w netlink \<Rightarrow> (nat \<Rightarrow> bool) \<Rightarrow> 'w cmd list" where
  "scan_cmds E calloc =
     [TOPLEVEL ''scan'' (Some (''[-u] '' @ scan_words)) 0 0 CIB_NETDEV (Some (handle_scan_combined E))
        (line ''Scan on the given frequencies and probe for the given SSIDs'' @
         line ''(or wildcard if not given) unless passive scanning is requested.'' @
         line ''If -u is specified print unknown data in the scan results.'' @ ''Specified (vendor) IEs must be well-formed.''),
      COMMAND ''scan'' ''scan_dump'' ''dump'' (Some ''[-u]'') 32 NLM_F_DUMP CIB_NETDEV (handle_scan_dump E)
        (line ''Dump the current scan results. If -u is specified, print unknown'' @ ''data in scan results.''),
      COMMAND ''scan'' ''scan_trigger'' ''trigger'' (Some scan_words) 33 0 CIB_NETDEV (handle_scan E calloc)
        (line ''Trigger a scan on the given frequencies with probing for the given'' @
         ''SSIDs (or wildcard if not given) unless passive scanning is requested.'')]"

subsection \<open>What a request asks for\<close>

lemma nla_put_fits: "(\<And>m. n_fits E m) \<Longrightarrow> nla_put (n_fits E) a m = Some (m @ [a])"
  by (simp add: nla_put_def)

lemma not_number: "strtoul ''ssid'' 10 = (0, ''ssid'')"
  by code_simp

text \<open>Numbers behind \<open>freq\<close> and names behind \<open>ssid\<close> become attributes that are numbered by their place among the arguments.\<close>

lemma scan_loop_freqs:
  assumes "\<And>m. n_fits E m" "list_all (\<lambda>f. f < 2 ^ 64) fs"
  shows "scan_loop E calloc SC_FREQ i d (map (\<lambda>f. fmt_d (int f)) fs @ r) msg k =
    scan_loop E calloc SC_FREQ (i + length fs) (d\<lparr>sc_freqs := sc_freqs d @ flats (map (\<lambda>(j, f). At_u32 j (word_of_nat f)) (enumerate i fs))\<rparr>) r msg k"
  using assms(2)
proof (induction fs arbitrary: i d)
  case (Cons f fs)
  then show ?case
    by (simp add: scan_loop.simps [of E calloc SC_FREQ i d "fmt_d (int f) # _"] strtoul_fmt_d nla_put_fits [OF assms(1)])
qed simp

lemma scan_loop_ssids:
  assumes "\<And>m. n_fits E m"
  shows "scan_loop E calloc SC_SSID i d ss msg k =
    k (d\<lparr>sc_ssids := sc_ssids d @ flats (map (\<lambda>(j, s). At_bytes j (bytes_of s)) (enumerate i ss))\<rparr>) msg"
proof (induction ss arbitrary: i d)
  case (Cons s ss)
  then show ?case
    by (simp add: scan_loop.simps [of E calloc SC_SSID i d "s # ss"] nla_put_fits [OF assms(1)])
qed (simp add: scan_loop.simps)

lemma scan_loop_words:
  "scan_loop E calloc SC_NONE i d (''freq'' # r) msg k = scan_loop E calloc SC_FREQ (i + 1) (d\<lparr>have_sc_freqs := True\<rparr>) r msg k"
  "scan_loop E calloc SC_NONE i d (''ssid'' # r) msg k = scan_loop E calloc SC_SSID (i + 1) (d\<lparr>have_ssids := True\<rparr>) r msg k"
  "scan_loop E calloc SC_FREQ i d (''ssid'' # r) msg k = scan_loop E calloc SC_NONE i d (''ssid'' # r) msg k"
  by (simp_all add: scan_loop.simps [of E calloc SC_NONE] scan_loop.simps [of E calloc SC_FREQ i d "_ # _"] scan_flags_def strncmp_eq_def not_number)

text \<open>
  C22.  \<open>iw dev DEV scan freq ... ssid ...\<close> puts exactly the frequencies and the names that were given into the request, each in
  its nested attribute and in the order they were given, and nothing else; with no name the request has the one empty name that stands for every network.
\<close>

theorem scan_request:
  assumes "\<And>m. n_fits E m" "list_all (\<lambda>f. f < 2 ^ 32) fs"
    and "fst (n_alloc E (world s))" "fst (n_alloc E (snd (n_alloc E (world s))))"
  shows "wp (handle_scan E calloc again (Some msg) (''freq'' # map (\<lambda>f. fmt_d (int f)) fs @ (if ss = [] then [] else ''ssid'' # ss)) idby)
    (\<lambda>(r, m, cb) t. r = 0 \<and> same_io t s \<and> m = msg @ flats
       [At_nest NL80211_ATTR_SCAN_SSIDS
          (if ss = [] then [At_bytes 1 []] else map (\<lambda>(j, s). At_bytes j (bytes_of s)) (enumerate (length fs + 2) ss)),
        At_nest NL80211_ATTR_SCAN_FREQUENCIES (map (\<lambda>(j, f). At_u32 j (word_of_nat f)) (enumerate 1 fs))])
    (\<lambda>_ _. False) s"
proof -
  have "list_all (\<lambda>f. f < 2 ^ 64) fs" using assms(2) by (auto simp: list_all_iff)
  note f = scan_loop_freqs [OF assms(1) this]
  show ?thesis
    using assms(3,4)
    by (auto simp: handle_scan_def with_msg_def wp_simps wp_sys split_beta scan_loop_words f scan_loop_ssids [OF assms(1)] scan_finish_def
      start_scan_def nla_put_fits [OF assms(1)] put_nested_def assms(1) result_def same_io_def flat_nest Let_def
      scan_loop.simps [of E calloc SC_FREQ _ _ "[]"] simp del: flat.simps(7))
qed
theorem scan_request_witness:
  "wp (handle_scan null_netlink (\<lambda>_. True) (\<lambda>_ _. ret 0) (Some []) [''freq'', ''2412'', ''2437'', ''ssid'', ''guest''] II_NETDEV)
    (\<lambda>(r, m, cb) t. r = 0 \<and> m =
       [Nest_start NL80211_ATTR_SCAN_SSIDS, Nla_bytes 4 [0x67, 0x75, 0x65, 0x73, 0x74], Nest_end,
        Nest_start NL80211_ATTR_SCAN_FREQUENCIES, Nla_u32 1 2412, Nla_u32 2 2437, Nest_end])
    (\<lambda>_ _. False) \<lparr>world = (), stdin = [], stdout = [], stderr = []\<rparr>"
proof -
  let ?s = "\<lparr>world = (), stdin = [], stdout = [], stderr = []\<rparr> :: (unit, string) proc"
  have x: "fmt_d 2412 = ''2412''" "fmt_d 2437 = ''2437''" "bytes_of ''guest'' = [0x67, 0x75, 0x65, 0x73, 0x74]"
    by (simp_all add: fmt_nums) code_simp
  have n: "n_fits null_netlink m" "fst (n_alloc (null_netlink :: unit netlink) w)" for m and w :: unit
    by (simp_all add: null_netlink_def)
  show ?thesis
    using scan_request [of null_netlink "[2412, 2437]" ?s "\<lambda>_. True" "\<lambda>_ _. ret 0" "[]" "[''guest'']" II_NETDEV, OF n(1) _ n(2) n(2)]
    by (simp add: x split_beta) (erule wp_mono, auto)
qed

text \<open>The words of the flags, and what ends the numbers behind \<open>freq\<close>.\<close>

definition flag_words :: "string list" where
  "flag_words = [''lowpri'', ''flush'', ''ap-force'']"

lemma not_numbers:
  "strtoul ''lowpri'' 10 = (0, ''lowpri'')" "strtoul ''flush'' 10 = (0, ''flush'')" "strtoul ''ap-force'' 10 = (0, ''ap-force'')"
  "strtoul ''randomise'' 10 = (0, ''randomise'')" "strtoul ''ies'' 10 = (0, ''ies'')"
  by (code_simp, code_simp, code_simp, code_simp, code_simp)

lemma scan_loop_leave:
  assumes "st = SC_NONE \<or> st = SC_FREQ \<and> snd (strtoul w 10) \<noteq> []"
  shows "scan_loop E calloc st i d (w # r) msg k = scan_loop E calloc SC_NONE i d (w # r) msg k"
  using assms by (auto simp: scan_loop.simps [of E calloc SC_FREQ i d "w # r"] split: prod.splits)

lemma scan_loop_flag:
  "w \<in> set flag_words \<Longrightarrow> \<exists>f. scan_loop E calloc SC_NONE i d (w # r) msg k = scan_loop E calloc SC_NONE (i + 1) (d\<lparr>sc_flags := f\<rparr>) r msg k"
proof -
  assume "w \<in> set flag_words"
  then have "w \<noteq> ''freq'' \<and> w \<noteq> ''ies'' \<and> (\<exists>f. map_of scan_flags w = Some f)"
    by (auto simp: flag_words_def scan_flags_def)
  then obtain f where "w \<noteq> ''freq''" "w \<noteq> ''ies''" "map_of scan_flags w = Some f" by blast
  then have "scan_loop E calloc SC_NONE i d (w # r) msg k = scan_loop E calloc SC_NONE (i + 1) (d\<lparr>sc_flags := sc_flags d OR f\<rparr>) r msg k"
    by (simp add: scan_loop.simps [of E calloc SC_NONE i d "w # r"])
  then show ?thesis by blast
qed

lemma scan_loop_flags:
  assumes "set fl \<subseteq> set flag_words" "w \<in> {''randomise'', ''ies''}" "st \<in> {SC_NONE, SC_FREQ}"
  shows "\<exists>i' d'. sc_err d' = sc_err d \<and> scan_loop E calloc st i d (fl @ w # r) msg k = scan_loop E calloc SC_NONE i' d' (w # r) msg k"
  using assms(1,3)
proof (induction fl arbitrary: st i d)
  case Nil
  have "snd (strtoul w 10) \<noteq> []" using assms(2) not_numbers by auto
  then show ?case using Nil(2) scan_loop_leave [of st w E calloc i d r msg k] by (auto intro!: exI [of _ i] exI [of _ d])
next
  case (Cons a fl)
  have a: "a \<in> set flag_words" using Cons.prems(1) by simp
  then have "snd (strtoul a 10) \<noteq> []" using not_numbers by (auto simp: flag_words_def)
  then have "scan_loop E calloc st i d ((a # fl) @ w # r) msg k = scan_loop E calloc SC_NONE i d (a # fl @ w # r) msg k"
    using Cons.prems(2) scan_loop_leave [of st a E calloc i d "fl @ w # r" msg k] by auto
  moreover obtain f where "scan_loop E calloc SC_NONE i d (a # fl @ w # r) msg k =
      scan_loop E calloc SC_NONE (i + 1) (d\<lparr>sc_flags := f\<rparr>) (fl @ w # r) msg k"
    using scan_loop_flag [OF a] by blast
  moreover obtain i' d' where "sc_err d' = sc_err (d\<lparr>sc_flags := f\<rparr>)"
    "scan_loop E calloc SC_NONE (i + 1) (d\<lparr>sc_flags := f\<rparr>) (fl @ w # r) msg k = scan_loop E calloc SC_NONE i' d' (w # r) msg k"
    using Cons.IH [of SC_NONE "d\<lparr>sc_flags := f\<rparr>" "i + 1"] Cons.prems(1) by auto
  ultimately show ?case by auto
qed

text \<open>At the bytes of the elements.\<close>

lemma scan_loop_ies:
  assumes "parse_hex calloc bad = Inl e" "e \<noteq> Out_of_bounds"
  shows "scan_loop E calloc SC_NONE i d (''ies'' # bad # r) msg k = result (sc_err d) msg"
  using assms
  by (cases e) (simp_all add: scan_loop.simps [of E calloc SC_NONE] scan_loop.simps [of E calloc SC_IES] scan_flags_def)

lemma scan_loop_randomise:
  "\<exists>f. scan_loop E calloc SC_NONE i d (''randomise'' # r) msg k =
     scan_loop E calloc SC_NONE (i + 1) (d\<lparr>sc_flags := f, sc_err := 0\<rparr>) r msg k"
  by (auto simp: scan_loop.simps [of E calloc SC_NONE i d "''randomise'' # r"] scan_flags_def strncmp_eq_def
      parse_random_mac_addr_def char_at_def NUL_def)

text \<open>
  C37.  Once \<open>randomise\<close> has been read, bytes for the elements that are not hexadecimal no longer make \<open>iw dev DEV scan\<close> fail.  Some
  frequencies are asked for, then some of the flags \<open>lowpri\<close>, \<open>flush\<close> and \<open>ap-force\<close>, then \<open>randomise\<close>, then such bytes, and whatever is
  behind them: the handler returns 0, and it leaves the message as it got it, without any of the frequencies and flags.  Without
  \<open>randomise\<close> the same words are refused with \<open>-ENOBUFS\<close>.  The frequencies have 32 bits, messages are allocated and hold what is put into them.
\<close>

theorem randomise_hides_failure:
  assumes "parse_hex calloc bad = Inl e" "e \<noteq> Out_of_bounds" "set fl \<subseteq> {''lowpri'', ''flush'', ''ap-force''}"
    and "\<And>m. n_fits E m" "list_all (\<lambda>f. f < 2 ^ 32) fs"
    and "fst (n_alloc E (world s))" "fst (n_alloc E (snd (n_alloc E (world s))))"
  shows "wp (handle_scan E calloc again (Some msg) (''freq'' # map (\<lambda>f. fmt_d (int f)) fs @ fl @ ''randomise'' # ''ies'' # bad # rest) idby)
      (\<lambda>(r, m, cb) t. r = 0 \<and> m = msg \<and> same_io t s) (\<lambda>_ _. False) s \<and>
    wp (handle_scan E calloc again (Some msg) (''freq'' # map (\<lambda>f. fmt_d (int f)) fs @ fl @ ''ies'' # bad # rest) idby)
      (\<lambda>(r, m, cb) t. r = - ENOBUFS \<and> m = msg \<and> same_io t s) (\<lambda>_ _. False) s"
proof -
  let ?k = "scan_finish E calloc"
  have fl: "set fl \<subseteq> set flag_words" using assms(3) by (simp add: flag_words_def)
  have "list_all (\<lambda>f. f < 2 ^ 64) fs" using assms(5) by (auto simp: list_all_iff)
  note f = scan_loop_freqs [OF assms(4) this]
  have skip: "\<exists>i d. sc_err d = - ENOBUFS \<and> scan_loop E calloc SC_NONE 0 start_scan
      (''freq'' # map (\<lambda>f. fmt_d (int f)) fs @ fl @ w # r) msg ?k = scan_loop E calloc SC_NONE i d (w # r) msg ?k"
    if w: "w \<in> {''randomise'', ''ies''}" for w r
  proof -
    have "\<exists>i d. sc_err d = - ENOBUFS \<and> scan_loop E calloc SC_NONE 0 start_scan
        (''freq'' # map (\<lambda>f. fmt_d (int f)) fs @ fl @ w # r) msg ?k = scan_loop E calloc SC_FREQ i d (fl @ w # r) msg ?k"
      unfolding scan_loop_words f by (intro exI conjI [rotated], rule refl) (simp add: start_scan_def)
    then obtain i d where "sc_err d = - ENOBUFS" "scan_loop E calloc SC_NONE 0 start_scan
        (''freq'' # map (\<lambda>f. fmt_d (int f)) fs @ fl @ w # r) msg ?k = scan_loop E calloc SC_FREQ i d (fl @ w # r) msg ?k" by blast
    then show ?thesis using scan_loop_flags [OF fl w, of SC_FREQ d E calloc i r msg ?k] by auto
  qed
  have out: "wp (handle_scan E calloc again (Some msg) av idby) (\<lambda>(r, m, cb) t. r = x \<and> m = msg \<and> same_io t s) (\<lambda>_ _. False) s"
    if "scan_loop E calloc SC_NONE 0 start_scan av msg ?k = result x msg" for av x
    using assms(6,7) that
    by (auto simp: handle_scan_def with_msg_def wp_simps wp_sys split_beta result_def same_io_def)
  have "scan_loop E calloc SC_NONE 0 start_scan
      (''freq'' # map (\<lambda>f. fmt_d (int f)) fs @ fl @ ''randomise'' # ''ies'' # bad # rest) msg ?k = result 0 msg"
    using skip [of "''randomise''" "''ies'' # bad # rest"] scan_loop_randomise [of E calloc _ _ "''ies'' # bad # rest" msg ?k]
    by (auto simp: scan_loop_ies [OF assms(1,2)])
  moreover have "scan_loop E calloc SC_NONE 0 start_scan
      (''freq'' # map (\<lambda>f. fmt_d (int f)) fs @ fl @ ''ies'' # bad # rest) msg ?k = result (- ENOBUFS) msg"
    using skip [of "''ies''" "bad # rest"] by (auto simp: scan_loop_ies [OF assms(1,2)])
  ultimately show ?thesis using out by blast
qed

theorem randomise_hides_failure_witness:
  "wp (handle_scan null_netlink (\<lambda>_. True) (\<lambda>_ _. ret 0) (Some []) [''freq'', ''2412'', ''flush'', ''randomise'', ''ies'', ''zz''] II_NETDEV)
      (\<lambda>(r, m, cb) t. r = 0 \<and> m = []) (\<lambda>_ _. False) \<lparr>world = (), stdin = [], stdout = [], stderr = []\<rparr> \<and>
   wp (handle_scan null_netlink (\<lambda>_. True) (\<lambda>_ _. ret 0) (Some []) [''freq'', ''2412'', ''flush'', ''ies'', ''zz''] II_NETDEV)
      (\<lambda>(r, m, cb) t. r = -105 \<and> m = []) (\<lambda>_ _. False) \<lparr>world = (), stdin = [], stdout = [], stderr = []\<rparr>"
proof -
  let ?s = "\<lparr>world = (), stdin = [], stdout = [], stderr = []\<rparr> :: (unit, string) proc"
  have h: "parse_hex (\<lambda>_. True) ''zz'' = Inl Bad_hex" by code_simp
  have x: "fmt_d 2412 = ''2412''" by (simp add: fmt_nums)
  have n: "n_fits null_netlink m" "fst (n_alloc (null_netlink :: unit netlink) w)" for m and w :: unit
    by (simp_all add: null_netlink_def)
  show ?thesis
    using randomise_hides_failure [of "\<lambda>_. True" "''zz''" Bad_hex "[''flush'']" null_netlink "[2412]" ?s "\<lambda>_ _. ret 0" "[]" "[]" II_NETDEV,
        OF h _ _ n(1) _ n(2) n(2)]
    by (auto simp: x ENOBUFS_def elim: wp_mono)
qed

end
