(* ===== verification/Iw_Link.thy ===== *)
theory Iw_Link
  imports Iw_Station Iw_Bss
begin

text \<open>
  \<open>link.c\<close> of \<open>iw\<close>: the command that shows the current connection.  It asks for the networks found first, keeps
  the one that is connected in a static variable, and asks for the station behind it with a second command.
\<close>

definition NL80211_STA_INFO_BSS_PARAM :: nat where "NL80211_STA_INFO_BSS_PARAM = 15"
definition NL80211_STA_BSS_PARAM_CTS_PROT :: nat where "NL80211_STA_BSS_PARAM_CTS_PROT = 1"
definition NL80211_STA_BSS_PARAM_SHORT_PREAMBLE :: nat where "NL80211_STA_BSS_PARAM_SHORT_PREAMBLE = 2"
definition NL80211_STA_BSS_PARAM_SHORT_SLOT_TIME :: nat where "NL80211_STA_BSS_PARAM_SHORT_SLOT_TIME = 3"
definition NL80211_STA_BSS_PARAM_DTIM_PERIOD :: nat where "NL80211_STA_BSS_PARAM_DTIM_PERIOD = 4"
definition NL80211_STA_BSS_PARAM_BEACON_INTERVAL :: nat where "NL80211_STA_BSS_PARAM_BEACON_INTERVAL = 5"

subsection \<open>The network\<close>

record link_result =
  lr_bssid :: "8 word list"
  link_found :: bool
  anything_found :: bool

definition link_policy :: "(nat \<times> nla_policy) list" where
  "link_policy = [(NL80211_BSS_TSF, NLA_U64), (NL80211_BSS_FREQUENCY, NLA_U32), (NL80211_BSS_BEACON_INTERVAL, NLA_U16),
     (NL80211_BSS_CAPABILITY, NLA_U16), (NL80211_BSS_SIGNAL_MBM, NLA_U32), (NL80211_BSS_SIGNAL_UNSPEC, NLA_U8), (NL80211_BSS_STATUS, NLA_U32)]"

text \<open>The network of status \<open>v\<close>: 1 is associated, 2 a joined IBSS.\<close>

definition link_network :: "('w, link_result) cell \<Rightarrow> nlattr list \<Rightarrow> nat \<Rightarrow> ('w, unit) iw" where
  "link_network lr bss v = seq_p
     [bind_p (get_var lr) (\<lambda>r. set_var lr (r\<lparr>anything_found := True\<rparr>)),
      on_attr bss NL80211_BSS_INFORMATION_ELEMENTS (show_ies False PRINT_LINK),
      on_u32 bss NL80211_BSS_FREQUENCY (\<lambda>f. print (line (tb @ ''freq: '' @ fmt_du f))),
      (if v \<noteq> 1 then ret ()
       else bind_p (nla_data (nla_tb bss NL80211_BSS_BSSID)) (\<lambda>b. bind_p (get_var lr) (\<lambda>r.
         set_var lr (r\<lparr>link_found := True, lr_bssid := take 6 b @ drop 6 (lr_bssid r)\<rparr>))))]"

definition link_bss :: "'w netlink \<Rightarrow> ('w, link_result) cell \<Rightarrow> 'w valid_cb" where
  "link_bss E lr m u =
     (let as = rx_attrs m in
      case nla_tb as NL80211_ATTR_BSS of
        None \<Rightarrow> eprint (line ''bss info missing!'')
      | Some b \<Rightarrow>
          on_parsed link_policy b (eprint (line ''failed to parse nested attributes!'')) (\<lambda>bss.
          if nla_tb bss NL80211_BSS_BSSID = None \<or> nla_tb bss NL80211_BSS_STATUS = None then ret ()
          else
          bind_p (mac_text_of (nla_tb bss NL80211_BSS_BSSID)) (\<lambda>mac.
          bind_p (ifname_of E (nla_tb as NL80211_ATTR_IFINDEX)) (\<lambda>dev.
          bind_p (nla_get_u32 (nla_tb bss NL80211_BSS_STATUS)) (\<lambda>v.
          let who = mac @ '' (on '' @ dev @ '')'' in
          if v = 0 then print (line (''Authenticated with '' @ who))
          else if v = 1 then then_p (print (line (''Connected to '' @ who))) (link_network lr bss v)
          else if v = 2 then then_p (print (line (''Joined IBSS '' @ who))) (link_network lr bss v)
          else ret ())))))"

definition handle_scan_for_link :: "'w netlink \<Rightarrow> ('w, link_result) cell \<Rightarrow> 'w iw_handler" where
  "handle_scan_for_link E lr again msg argv idby = with_msg msg (\<lambda>msg.
     if argv \<noteq> [] then result 1 msg else with_cb (link_bss E lr) msg)"

subsection \<open>The station\<close>

definition link_stats_policy :: "(nat \<times> nla_policy) list" where
  "link_stats_policy = [(NL80211_STA_INFO_INACTIVE_TIME, NLA_U32), (NL80211_STA_INFO_RX_BYTES, NLA_U32), (NL80211_STA_INFO_TX_BYTES, NLA_U32),
     (NL80211_STA_INFO_RX_PACKETS, NLA_U32), (NL80211_STA_INFO_TX_PACKETS, NLA_U32), (NL80211_STA_INFO_SIGNAL, NLA_U8),
     (NL80211_STA_INFO_TX_BITRATE, NLA_NESTED), (NL80211_STA_INFO_LLID, NLA_U16), (NL80211_STA_INFO_PLID, NLA_U16),
     (NL80211_STA_INFO_PLINK_STATE, NLA_U8)]"

definition bss_param_policy :: "(nat \<times> nla_policy) list" where
  "bss_param_policy = [(NL80211_STA_BSS_PARAM_CTS_PROT, NLA_FLAG), (NL80211_STA_BSS_PARAM_SHORT_PREAMBLE, NLA_FLAG),
     (NL80211_STA_BSS_PARAM_SHORT_SLOT_TIME, NLA_FLAG), (NL80211_STA_BSS_PARAM_DTIM_PERIOD, NLA_U8),
     (NL80211_STA_BSS_PARAM_BEACON_INTERVAL, NLA_U16)]"

definition bss_flags_text :: "nlattr list \<Rightarrow> string" where
  "bss_flags_text binfo =
     (let cts = nla_tb binfo NL80211_STA_BSS_PARAM_CTS_PROT \<noteq> None; pre = nla_tb binfo NL80211_STA_BSS_PARAM_SHORT_PREAMBLE \<noteq> None in
      (if cts then ''CTS-protection'' else '''') @
      (if pre then (if cts then '' '' else '''') @ ''short-preamble'' else '''') @
      (if nla_tb binfo NL80211_STA_BSS_PARAM_SHORT_SLOT_TIME \<noteq> None
       then (if cts \<or> pre then '' '' else '''') @ ''short-slot-time'' else ''''))"

definition link_bytes :: "nlattr list \<Rightarrow> nat \<Rightarrow> nat \<Rightarrow> string \<Rightarrow> ('w, unit) iw" where
  "link_bytes sinfo bytes packets label =
     (if nla_tb sinfo bytes = None \<or> nla_tb sinfo packets = None then ret ()
      else bind_p (nla_get_u32 (nla_tb sinfo bytes)) (\<lambda>b. bind_p (nla_get_u32 (nla_tb sinfo packets)) (\<lambda>p.
        print (line (tb @ label @ fmt_d (int b) @ '' bytes ('' @ fmt_d (int p) @ '' packets)'')))))"

definition print_link_sta :: "'w valid_cb" where
  "print_link_sta m u =
     (case nla_tb (rx_attrs m) NL80211_ATTR_STA_INFO of
        None \<Rightarrow> eprint (line ''sta stats missing!'')
      | Some info \<Rightarrow>
          on_parsed link_stats_policy info (eprint (line ''failed to parse nested attributes!'')) (\<lambda>sinfo. seq_p
          [link_bytes sinfo NL80211_STA_INFO_RX_BYTES NL80211_STA_INFO_RX_PACKETS ''RX: '',
           link_bytes sinfo NL80211_STA_INFO_TX_BYTES NL80211_STA_INFO_TX_PACKETS ''TX: '',
           on_u8 sinfo NL80211_STA_INFO_SIGNAL (\<lambda>v. print (line (tb @ ''signal: '' @ fmt_d (s8 v) @ '' dBm''))),
           on_attr sinfo NL80211_STA_INFO_TX_BITRATE (\<lambda>a. bind_p (rate_buffer a) (\<lambda>t. print (line (tb @ ''tx bitrate: '' @ t)))),
           on_attr sinfo NL80211_STA_INFO_BSS_PARAM (\<lambda>a.
             on_parsed bss_param_policy a (eprint (line ''failed to parse nested bss parameters!'')) (\<lambda>binfo.
             then_p (print ([nl] @ tb @ ''bss flags:'' @ tb @ bss_flags_text binfo @ [nl] @ tb @ ''dtim period:'' @ tb))
             (bind_p (nla_get_u8 (nla_tb binfo NL80211_STA_BSS_PARAM_DTIM_PERIOD)) (\<lambda>v.
             then_p (print (fmt_d (int v) @ [nl] @ tb @ ''beacon int:'' @ tb))
             (bind_p (nla_get_u16 (nla_tb binfo NL80211_STA_BSS_PARAM_BEACON_INTERVAL)) (\<lambda>v. print (line (fmt_d (int v)))))))))]))"

definition handle_link_sta :: "'w netlink \<Rightarrow> 'w iw_handler" where
  "handle_link_sta E = get_by_mac E print_link_sta"

subsection \<open>The command\<close>

definition handle_link :: "('w, link_result) cell \<Rightarrow> 'w iw_handler" where
  "handle_link lr again msg argv idby =
     (case argv of [] \<Rightarrow> undef_p
      | dev # _ \<Rightarrow>
          bind_p (again idby [dev, ''link'', ''get_bss'']) (\<lambda>err.
          if err \<noteq> 0 then result err []
          else bind_p (get_var lr) (\<lambda>r.
            if \<not> link_found r then then_p (if anything_found r then ret () else print (line ''Not connected.'')) (result 0 [])
            else bind_p (again idby [dev, ''link'', ''get_sta'', mac_addr_n2a (lr_bssid r)]) (\<lambda>err. result err []))))"

definition link_cmds :: "'w netlink \<Rightarrow> ('w, link_result) cell \<Rightarrow> 'w cmd list" where
  "link_cmds E lr =
     [TOPLEVEL ''link'' None 0 0 CIB_NETDEV (Some (handle_link lr)) ''Print information about the current link, if any.'',
      HIDDEN ''link'' ''link_get_sta'' ''get_sta'' (Some '''') 17 0 CIB_NETDEV (handle_link_sta E),
      HIDDEN ''link'' ''link_get_bss'' ''get_bss'' None 32 NLM_F_DUMP CIB_NETDEV (handle_scan_for_link E lr)]"

subsection \<open>What the networks leave behind\<close>

text \<open>A message about a network that is heard and not joined, and one about the network that is connected.\<close>

definition neighbour :: "rx_msg \<Rightarrow> bool" where
  "neighbour m \<longleftrightarrow> (\<exists>n bss. nla_tb (rx_attrs m) NL80211_ATTR_BSS = Some (At_nest n bss) \<and> long_enough link_policy bss \<and>
     nla_tb bss NL80211_BSS_STATUS = None)"

definition connected_to :: "8 word list \<Rightarrow> 32 word \<Rightarrow> 32 word \<Rightarrow> 8 word list \<Rightarrow> rx_msg \<Rightarrow> bool" where
  "connected_to b i f ies m \<longleftrightarrow> (\<exists>n bss j k l q x. nla_tb (rx_attrs m) NL80211_ATTR_BSS = Some (At_nest n bss) \<and> long_enough link_policy bss \<and>
     nla_tb (rx_attrs m) NL80211_ATTR_IFINDEX = Some (At_u32 j i) \<and> nla_tb bss NL80211_BSS_BSSID = Some (At_bytes k b) \<and>
     nla_tb bss NL80211_BSS_STATUS = Some (At_u32 l 1) \<and> nla_tb bss NL80211_BSS_FREQUENCY = Some (At_u32 q f) \<and>
     nla_tb bss NL80211_BSS_INFORMATION_ELEMENTS = Some (At_bytes x ies))"

lemma link_bss_neighbour: "neighbour m \<Longrightarrow> link_bss E lr m u = ret ()"
  by (auto simp: neighbour_def link_bss_def on_parsed_def nla_nested_def)

text \<open>The variable \<open>lr\<close> of the file.\<close>

locale link_var = kept_var lr E for lr :: "('w, link_result) cell" and E
begin

lemma link_bss_connected:
  assumes m: "connected_to b i f ies m" "length b = ETH_ALEN" and t: "print_ies ies (int (length ies)) False PRINT_LINK = Some txt"
    and d: "\<And>w. fst (n_ifname E (unat i) w) = Some dev"
    and old: "length (lr_bssid (fst lr (world s))) = 6"
  shows "wp (link_bss E lr m u) Q X s = Q ()
    (s\<lparr>stdout := stdout s @ line (''Connected to '' @ mac_addr_n2a b @ '' (on '' @ dev @ '')'') @ txt @ line (tb @ ''freq: '' @ fmt_du (unat f)),
       world := snd lr \<lparr>lr_bssid = b, link_found = True, anything_found = True\<rparr> (snd (n_ifname E (unat i) (world s)))\<rparr>)"
proof -
  obtain n bss j k l q x where a: "nla_tb (rx_attrs m) NL80211_ATTR_BSS = Some (At_nest n bss)" "long_enough link_policy bss"
    "nla_tb (rx_attrs m) NL80211_ATTR_IFINDEX = Some (At_u32 j i)" "nla_tb bss NL80211_BSS_BSSID = Some (At_bytes k b)"
    "nla_tb bss NL80211_BSS_STATUS = Some (At_u32 l 1)" "nla_tb bss NL80211_BSS_FREQUENCY = Some (At_u32 q f)"
    "nla_tb bss NL80211_BSS_INFORMATION_ELEMENTS = Some (At_bytes x ies)"
    using m(1) by (auto simp: connected_to_def)
  have r: "(fst lr (world s))\<lparr>anything_found := True, link_found := True, lr_bssid := take 6 b @ drop 6 (lr_bssid (fst lr (world s)))\<rparr> =
      \<lparr>lr_bssid = b, link_found = True, anything_found = True\<rparr>"
    using m(2) old by (cases "fst lr (world s)") (simp add: ETH_ALEN_def)
  show ?thesis using m(2)
    by (simp add: link_bss_def a on_parsed_def nla_gets mac_text_of_def ifname_of_def wp_simps wp_sys split_beta d Let_def link_network_def
      on_defs show_ies_def print_opt_def t wp_get_var wp_set_var read_write write_write kept(1) r)
qed

end

end
