(* ===== verification/Iw_Reg.thy ===== *)
theory Iw_Reg
  imports Iw_Attr
begin

unbundle bit_operations_syntax

text \<open>
  \<open>reg.c\<close> and \<open>hwsim.c\<close> of \<open>iw\<close>: the regulatory domain and the test mode of the simulated hardware.
\<close>

definition NL80211_ATTR_REG_ALPHA2 :: nat where "NL80211_ATTR_REG_ALPHA2 = 33"
definition NL80211_ATTR_REG_RULES :: nat where "NL80211_ATTR_REG_RULES = 34"
definition NL80211_ATTR_WIPHY_SELF_MANAGED_REG :: nat where "NL80211_ATTR_WIPHY_SELF_MANAGED_REG = 216"
definition NL80211_ATTR_DFS_REGION :: nat where "NL80211_ATTR_DFS_REGION = 146"
definition NL80211_ATTR_TESTDATA :: nat where "NL80211_ATTR_TESTDATA = 69"
definition NL80211_ATTR_REG_RULE_FLAGS :: nat where "NL80211_ATTR_REG_RULE_FLAGS = 1"
definition NL80211_ATTR_FREQ_RANGE_START :: nat where "NL80211_ATTR_FREQ_RANGE_START = 2"
definition NL80211_ATTR_FREQ_RANGE_END :: nat where "NL80211_ATTR_FREQ_RANGE_END = 3"
definition NL80211_ATTR_FREQ_RANGE_MAX_BW :: nat where "NL80211_ATTR_FREQ_RANGE_MAX_BW = 4"
definition NL80211_ATTR_POWER_RULE_MAX_ANT_GAIN :: nat where "NL80211_ATTR_POWER_RULE_MAX_ANT_GAIN = 5"
definition NL80211_ATTR_POWER_RULE_MAX_EIRP :: nat where "NL80211_ATTR_POWER_RULE_MAX_EIRP = 6"
definition NL80211_ATTR_DFS_CAC_TIME :: nat where "NL80211_ATTR_DFS_CAC_TIME = 7"
definition EOPNOTSUPP :: int where "EOPNOTSUPP = 95"

subsection \<open>Setting the domain\<close>

definition isalpha_upper :: "char \<Rightarrow> bool" where
  "isalpha_upper c \<longleftrightarrow> 65 \<le> ord c \<and> ord c \<le> 90"

definition is_alpha2 :: "string \<Rightarrow> bool" where
  "is_alpha2 s \<longleftrightarrow> isalpha_upper (char_at s 0) \<and> isalpha_upper (char_at s 1)"

definition is_world_regdom :: "string \<Rightarrow> bool" where
  "is_world_regdom s \<longleftrightarrow> char_at s 0 = CHR ''0'' \<and> char_at s 1 = CHR ''0''"

definition handle_reg_set :: "'w netlink \<Rightarrow> 'w iw_handler" where
  "handle_reg_set E again msg argv idby = with_msg msg (\<lambda>msg.
     case argv of [] \<Rightarrow> result 1 msg
     | a # r \<Rightarrow>
         if \<not> is_alpha2 a \<and> \<not> is_world_regdom a then
           then_p (eprint (line ''not a valid ISO/IEC 3166-1 alpha2'')) (then_p (eprint (line ''Special non-alpha2 usable entries:''))
             (then_p (eprint (line (tb @ ''00'' @ tb @ ''World Regulatory domain''))) (result 2 msg)))
         else if r \<noteq> [] then result 1 msg
         else put E ENOBUFS [Nla_bytes NL80211_ATTR_REG_ALPHA2 (bytes_of [char_at a 0, char_at a 1] @ [0])] msg (result 0))"

subsection \<open>Showing the domain\<close>

definition reg_initiator_to_string :: "nat \<Rightarrow> string" where
  "reg_initiator_to_string i = (if i = 0 then ''the wireless core upon initialization'' else if i = 1 then ''a user''
     else if i = 2 then ''a driver'' else if i = 3 then ''a country IE'' else ''BUG'')"

definition dfs_domain_name :: "nat \<Rightarrow> string" where
  "dfs_domain_name r = (if r = 0 then ''DFS-UNSET'' else if r = 1 then ''DFS-FCC'' else if r = 2 then ''DFS-ETSI''
     else if r = 3 then ''DFS-JP'' else ''DFS-invalid'')"

definition reg_rule_policy :: "(nat \<times> nla_policy) list" where
  "reg_rule_policy = map (\<lambda>n. (n, NLA_U32)) [NL80211_ATTR_REG_RULE_FLAGS, NL80211_ATTR_FREQ_RANGE_START, NL80211_ATTR_FREQ_RANGE_END,
     NL80211_ATTR_FREQ_RANGE_MAX_BW, NL80211_ATTR_POWER_RULE_MAX_ANT_GAIN, NL80211_ATTR_POWER_RULE_MAX_EIRP, NL80211_ATTR_DFS_CAC_TIME]"

definition rrf_names :: "(nat \<times> string) list" where
  "rrf_names = [(0, ''NO-OFDM''), (1, ''NO-CCK''), (2, ''NO-INDOOR''), (3, ''NO-OUTDOOR''), (4, ''DFS''), (5, ''PTP-ONLY''), (11, ''AUTO-BW''),
     (12, ''GO-CONCURRENT''), (13, ''NO-HT40MINUS''), (14, ''NO-HT40PLUS''), (15, ''NO-80MHZ''), (16, ''NO-160MHZ'')]"

definition parse_flag :: "nat \<Rightarrow> nat \<times> string \<Rightarrow> string" where
  "parse_flag flags f = (case f of (n, t) \<Rightarrow> if bit flags n then '', '' @ t else '''')"

definition rrf_text :: "nat \<Rightarrow> string" where
  "rrf_text flags =
     concat (map (parse_flag flags) rrf_names) @
     (if bit flags 7 \<and> bit flags 8 then '', NO-IR'' else parse_flag flags (7, ''PASSIVE-SCAN'') @ parse_flag flags (8, ''NO-IBSS''))"

definition print_reg_rule :: "nlattr \<Rightarrow> ('w, unit) iw" where
  "print_reg_rule nl_rule =
     bind_p (nla_nested (Some nl_rule)) (\<lambda>as.
     let r = parsed reg_rule_policy as in
     bind_p (nla_get_u32 (nla_tb r NL80211_ATTR_REG_RULE_FLAGS)) (\<lambda>flags.
     bind_p (nla_get_u32 (nla_tb r NL80211_ATTR_FREQ_RANGE_START)) (\<lambda>start_freq_khz.
     bind_p (nla_get_u32 (nla_tb r NL80211_ATTR_FREQ_RANGE_END)) (\<lambda>end_freq_khz.
     bind_p (nla_get_u32 (nla_tb r NL80211_ATTR_FREQ_RANGE_MAX_BW)) (\<lambda>max_bw_khz.
     bind_p (nla_get_u32 (nla_tb r NL80211_ATTR_POWER_RULE_MAX_ANT_GAIN)) (\<lambda>max_ant_gain_mbi.
     bind_p (nla_get_u32 (nla_tb r NL80211_ATTR_POWER_RULE_MAX_EIRP)) (\<lambda>max_eirp_mbm.
     let mhz = (\<lambda>khz. fmt_d (int (khz div 1000))); gain = max_ant_gain_mbi div 100 in
     then_p (print (tb @ ''('' @ mhz start_freq_khz @ '' - '' @ mhz end_freq_khz @ '' @ '' @ mhz max_bw_khz @ ''), ('' @
       (if gain = 0 then ''N/A'' else fmt_d (int gain)) @ '', '' @ fmt_d (int (max_eirp_mbm div 100)) @ '')''))
     (bind_p
       (case nla_tb r NL80211_ATTR_DFS_CAC_TIME of
          Some a \<Rightarrow> if bit flags 4 then bind_p (nla_get_u32 (Some a)) (\<lambda>v. ret (fmt_d (int v) @ '' ms'')) else ret ''N/A''
        | None \<Rightarrow> ret ''N/A'')
       (\<lambda>cac. print (line ('', ('' @ cac @ '')'' @ (if flags = 0 then '''' else rrf_text flags))))))))))))"

definition print_reg :: "'w valid_cb" where
  "print_reg m u =
     (let as = rx_attrs m in
      case nla_tb as NL80211_ATTR_REG_ALPHA2 of
        None \<Rightarrow> print (line ''No alpha2'')
      | Some alpha2 \<Rightarrow>
      case nla_tb as NL80211_ATTR_REG_RULES of
        None \<Rightarrow> print (line ''No reg rules'')
      | Some rules \<Rightarrow> seq_p
          [(case nla_tb as NL80211_ATTR_WIPHY of
              None \<Rightarrow> print (line ''global'')
            | Some w \<Rightarrow> bind_p (nla_get_u32 (Some w)) (\<lambda>i. print (line (''phy#'' @ fmt_du i @
                (if nla_tb as NL80211_ATTR_WIPHY_SELF_MANAGED_REG = None then '''' else '' (self-managed)''))))),
           bind_p (case nla_tb as NL80211_ATTR_DFS_REGION of None \<Rightarrow> ret 0 | Some d \<Rightarrow> nla_get_u8 (Some d)) (\<lambda>dfs_domain.
           bind_p (nla_data (Some alpha2)) (\<lambda>bs.
           if length bs < 2 then undef_p
           else print (line (''country '' @ map (\<lambda>b. char_of (unat b)) (take 2 bs) @ '': '' @ dfs_domain_name dfs_domain)))),
           bind_p (nla_nested (Some rules)) (\<lambda>rs. for_p rs print_reg_rule),
           print [nl]])"

definition handle_reg_dump :: "'w iw_handler" where
  "handle_reg_dump again msg argv idby = with_msg msg (with_cb print_reg)"

definition handle_reg_get :: "'w iw_handler" where
  "handle_reg_get again msg argv idby = with_msg msg (\<lambda>msg.
     bind_p (again II_NONE [''reg'', ''dump'']) (\<lambda>err.
     if err = - EOPNOTSUPP then with_cb print_reg msg else result err msg))"

definition reg_cmds :: "'w netlink \<Rightarrow> 'w cmd list" where
  "reg_cmds E = [SECTION ''reg'',
     COMMAND ''reg'' ''reg_set'' ''set'' (Some ''<ISO/IEC 3166-1 alpha2>'') 27 0 CIB_NONE (handle_reg_set E)
       ''Notify the kernel about the current regulatory domain.'',
     COMMAND ''reg'' ''reg_get_none'' ''get'' None 31 0 CIB_NONE handle_reg_get
       (''Print out the kernel'' @ [CHR 0x27] @ ''s current regulatory domain information.''),
     COMMAND ''reg'' ''reg_get_phy'' ''get'' None 31 0 CIB_PHY handle_reg_get
       (''Print out the devices'' @ [CHR 0x27] @ '' current regulatory domain information.''),
     HIDDEN ''reg'' ''reg_dump'' ''dump'' None 31 NLM_F_DUMP CIB_NONE handle_reg_dump]"

subsection \<open>Simulated hardware\<close>

definition HWSIM_TM_ATTR_CMD :: nat where "HWSIM_TM_ATTR_CMD = 1"
definition HWSIM_TM_ATTR_PS :: nat where "HWSIM_TM_ATTR_PS = 2"

definition print_hwsim_ps :: "'w valid_cb" where
  "print_hwsim_ps m u =
     on_attr (rx_attrs m) NL80211_ATTR_TESTDATA (\<lambda>a. bind_p (nla_nested (Some a)) (\<lambda>t.
       bind_p (nla_get_u32 (nla_tb t HWSIM_TM_ATTR_PS)) (\<lambda>v. print (line (''HWSIM PS: '' @ fmt_du v)))))"

definition put_testdata :: "'w netlink \<Rightarrow> nla list \<Rightarrow> nl_msg \<Rightarrow> (nl_msg \<Rightarrow> 'w outcome) \<Rightarrow> 'w outcome" where
  "put_testdata E as msg k = put E ENOBUFS (Nest_start NL80211_ATTR_TESTDATA # as) msg (\<lambda>msg. k (msg @ [Nest_end]))"

definition handle_hwsim_getps :: "'w netlink \<Rightarrow> 'w iw_handler" where
  "handle_hwsim_getps E again msg argv idby = with_msg msg (\<lambda>msg.
     put_testdata E [Nla_u32 HWSIM_TM_ATTR_CMD 1] msg (with_cb print_hwsim_ps))"

definition handle_hwsim_setps :: "'w netlink \<Rightarrow> 'w iw_handler" where
  "handle_hwsim_setps E again msg argv idby = with_msg msg (\<lambda>msg.
     case argv of [a] \<Rightarrow>
       (case strtoul a 0 of (ps, end) \<Rightarrow>
          if end \<noteq> [] then result 1 msg
          else put_testdata E [Nla_u32 HWSIM_TM_ATTR_CMD 0, Nla_u32 HWSIM_TM_ATTR_PS (word_of_int ps)] msg (with_cb print_hwsim_ps))
     | _ \<Rightarrow> result 1 msg)"

definition hwsim_queues :: "'w netlink \<Rightarrow> 32 word \<Rightarrow> 'w iw_handler" where
  "hwsim_queues E c again msg argv idby = with_msg msg (\<lambda>msg.
     if argv \<noteq> [] then result 1 msg else put_testdata E [Nla_u32 HWSIM_TM_ATTR_CMD c] msg (result 0))"

definition handle_hwsim_stop_queues :: "'w netlink \<Rightarrow> 'w iw_handler" where
  "handle_hwsim_stop_queues E = hwsim_queues E 2"

definition handle_hwsim_wake_queues :: "'w netlink \<Rightarrow> 'w iw_handler" where
  "handle_hwsim_wake_queues E = hwsim_queues E 3"

definition hwsim_cmds :: "'w netlink \<Rightarrow> 'w cmd list" where
  "hwsim_cmds E = [SECTION ''hwsim'',
     COMMAND ''hwsim'' ''hwsim_getps'' ''getps'' (Some '''') 45 0 CIB_PHY (handle_hwsim_getps E) '''',
     COMMAND ''hwsim'' ''hwsim_setps'' ''setps'' (Some ''<value>'') 45 0 CIB_PHY (handle_hwsim_setps E) '''',
     COMMAND ''hwsim'' ''hwsim_stopqueues'' ''stopqueues'' (Some '''') 45 0 CIB_PHY (handle_hwsim_stop_queues E) '''',
     COMMAND ''hwsim'' ''hwsim_wakequeues'' ''wakequeues'' (Some '''') 45 0 CIB_PHY (handle_hwsim_wake_queues E) '''']"

end
