(* ===== verification/Iw_Event.thy ===== *)
theory Iw_Event
  imports Iw_Wowlan Iw_Reg Iw_Bss Iw_Device
begin

unbundle bit_operations_syntax

text \<open>
  The printers of the events in \<open>event.c\<close> of \<open>iw\<close>, with the tables of \<open>reason.c\<close> and \<open>status.c\<close>, and the command
  that prints events as they come.
\<close>

definition NL80211_ATTR_FRAME :: nat where "NL80211_ATTR_FRAME = 51"
definition NL80211_ATTR_TIMED_OUT :: nat where "NL80211_ATTR_TIMED_OUT = 65"
definition NL80211_ATTR_STATUS_CODE :: nat where "NL80211_ATTR_STATUS_CODE = 72"
definition NL80211_ATTR_REASON_CODE :: nat where "NL80211_ATTR_REASON_CODE = 54"
definition NL80211_ATTR_DISCONNECTED_BY_AP :: nat where "NL80211_ATTR_DISCONNECTED_BY_AP = 71"
definition NL80211_ATTR_COOKIE :: nat where "NL80211_ATTR_COOKIE = 88"
definition NL80211_ATTR_ACK :: nat where "NL80211_ATTR_ACK = 92"
definition NL80211_ATTR_KEY_SEQ :: nat where "NL80211_ATTR_KEY_SEQ = 10"
definition NL80211_ATTR_KEY_TYPE :: nat where "NL80211_ATTR_KEY_TYPE = 55"
definition NL80211_ATTR_KEY_IDX :: nat where "NL80211_ATTR_KEY_IDX = 8"
definition NL80211_ATTR_REG_TYPE :: nat where "NL80211_ATTR_REG_TYPE = 49"
definition NL80211_ATTR_REG_INITIATOR :: nat where "NL80211_ATTR_REG_INITIATOR = 48"
definition NL80211_ATTR_FREQ_BEFORE :: nat where "NL80211_ATTR_FREQ_BEFORE = 58"
definition NL80211_ATTR_FREQ_AFTER :: nat where "NL80211_ATTR_FREQ_AFTER = 59"
definition NL80211_ATTR_CQM_RSSI_THRESHOLD_EVENT :: nat where "NL80211_ATTR_CQM_RSSI_THRESHOLD_EVENT = 3"
definition NL80211_ATTR_CQM_PKT_LOSS_EVENT :: nat where "NL80211_ATTR_CQM_PKT_LOSS_EVENT = 4"
definition NL80211_FREQUENCY_ATTR_FREQ :: nat where "NL80211_FREQUENCY_ATTR_FREQ = 1"
definition NL80211_FREQUENCY_ATTR_NO_IR :: nat where "NL80211_FREQUENCY_ATTR_NO_IR = 3"
definition NL80211_FREQUENCY_ATTR_NO_IBSS :: nat where "NL80211_FREQUENCY_ATTR_NO_IBSS = 4"
definition NL80211_WOWLAN_TRIG_WAKEUP_PKT_80211 :: nat where "NL80211_WOWLAN_TRIG_WAKEUP_PKT_80211 = 10"
definition NL80211_WOWLAN_TRIG_WAKEUP_PKT_8023 :: nat where "NL80211_WOWLAN_TRIG_WAKEUP_PKT_8023 = 12"
definition NL80211_WOWLAN_TRIG_WAKEUP_TCP_MATCH :: nat where "NL80211_WOWLAN_TRIG_WAKEUP_TCP_MATCH = 15"
definition NL80211_WOWLAN_TRIG_WAKEUP_TCP_CONNLOST :: nat where "NL80211_WOWLAN_TRIG_WAKEUP_TCP_CONNLOST = 16"
definition NL80211_WOWLAN_TRIG_WAKEUP_TCP_NOMORETOKENS :: nat where "NL80211_WOWLAN_TRIG_WAKEUP_TCP_NOMORETOKENS = 17"
definition NL80211_WOWLAN_TRIG_NET_DETECT_RESULTS :: nat where "NL80211_WOWLAN_TRIG_NET_DETECT_RESULTS = 19"
definition NL80211_CMD_NEW_WIPHY :: nat where "NL80211_CMD_NEW_WIPHY = 3"
definition NL80211_CMD_TRIGGER_SCAN :: nat where "NL80211_CMD_TRIGGER_SCAN = 33"
definition NL80211_CMD_REG_CHANGE :: nat where "NL80211_CMD_REG_CHANGE = 36"
definition NL80211_CMD_REG_BEACON_HINT :: nat where "NL80211_CMD_REG_BEACON_HINT = 42"
definition NL80211_CMD_NEW_STATION :: nat where "NL80211_CMD_NEW_STATION = 19"
definition NL80211_CMD_DEL_STATION :: nat where "NL80211_CMD_DEL_STATION = 20"
definition NL80211_CMD_ASSOCIATE :: nat where "NL80211_CMD_ASSOCIATE = 38"
definition NL80211_CMD_DEAUTHENTICATE :: nat where "NL80211_CMD_DEAUTHENTICATE = 39"
definition NL80211_CMD_DISASSOCIATE :: nat where "NL80211_CMD_DISASSOCIATE = 40"
definition NL80211_CMD_UNPROT_DEAUTHENTICATE :: nat where "NL80211_CMD_UNPROT_DEAUTHENTICATE = 70"
definition NL80211_CMD_UNPROT_DISASSOCIATE :: nat where "NL80211_CMD_UNPROT_DISASSOCIATE = 71"
definition NL80211_CMD_ROAM :: nat where "NL80211_CMD_ROAM = 47"
definition NL80211_CMD_REMAIN_ON_CHANNEL :: nat where "NL80211_CMD_REMAIN_ON_CHANNEL = 55"
definition NL80211_CMD_CANCEL_REMAIN_ON_CHANNEL :: nat where "NL80211_CMD_CANCEL_REMAIN_ON_CHANNEL = 56"
definition NL80211_CMD_NOTIFY_CQM :: nat where "NL80211_CMD_NOTIFY_CQM = 64"
definition NL80211_CMD_MICHAEL_MIC_FAILURE :: nat where "NL80211_CMD_MICHAEL_MIC_FAILURE = 41"
definition NL80211_CMD_FRAME_TX_STATUS :: nat where "NL80211_CMD_FRAME_TX_STATUS = 60"
definition NL80211_CMD_PMKSA_CANDIDATE :: nat where "NL80211_CMD_PMKSA_CANDIDATE = 80"
definition NL80211_CMD_SET_WOWLAN :: nat where "NL80211_CMD_SET_WOWLAN = 74"
definition NL80211_CMD_PROBE_CLIENT :: nat where "NL80211_CMD_PROBE_CLIENT = 84"
definition NL80211_CMD_VENDOR :: nat where "NL80211_CMD_VENDOR = 103"

subsection \<open>Codes\<close>

definition reason_table :: "(nat \<times> string) list" where
  "reason_table =
    [(1, ''Unspecified''),
     (2, ''Previous authentication no longer valid''),
     (3, ''Deauthenticated because sending station is leaving (or has left) the IBSS or ESS''),
     (4, ''Disassociated due to inactivity''),
     (5, ''Disassociated because AP is unable to handle all currently associated STA''),
     (6, ''Class 2 frame received from non-authenticated station''),
     (7, ''Class 3 frame received from non-authenticated station''),
     (8, ''Disassociated because sending station is leaving (or has left) the BSS''),
     (9, ''Station requesting (re)association is not authenticated with responding station''),
     (10, ''Disassociated because the information in the Power Capability element is unacceptable''),
     (11, ''Disassociated because the information in the Supported Channels element is unacceptable''),
     (13, ''Invalid information element''),
     (14, ''MIC failure''),
     (15, ''4-way handshake timeout''),
     (16, ''Group key update timeout''),
     (17, ''Information element in 4-way handshake different from (Re-)associate request/Probe response/Beacon''),
     (18, ''Multicast cipher is not valid''),
     (19, ''Unicast cipher is not valid''),
     (20, ''AKMP is not valid''),
     (21, ''Unsupported RSNE version''),
     (22, ''Invalid RSNE capabilities''),
     (23, ''IEEE 802.1X authentication failed''),
     (24, ''Cipher Suite rejected per security policy''),
     (31, ''TS deleted because QoS AP lacks sufficient bandwidth for this QoS STA due to a change in BSS service characteristics or operational mode''),
     (32, ''Disassociated for unspecified QoS-related reason''),
     (33, ''Disassociated because QAP lacks sufficient bandwidth for this STA''),
     (34, ''Disassociated because of excessive frame losses and/or poor channel conditions''),
     (35, ''Disassociated because QSTA is transmitting outside the limits of its polled TXOPs''),
     (36, ''Requested from peer QSTA as the QSTA is leaving the QBSS (or resetting)''),
     (37, ''Requested from peer QSTA as it does not want to use Traffic Stream''),
     (38, ''Requested from peer QSTA as the QSTA received frames indicated Traffic Stream for which it has not set up''),
     (39, ''Requested from peer QSTA due to time out''),
     (40, ''Requested from peer QSTA as the QSTA is leaving the QBSS (or resetting)''),
     (41, ''Requested from peer QSTA as it does not want to receive frames directly from the QSTA''),
     (42, ''Requested from peer QSTA as the QSTA received DLP frames for which it has not set up''),
     (43, ''Requested from peer QSTA as it does not want to use Block Ack''),
     (44, ''Requested from peer QSTA as the QSTA received frames indicated Block Acknowledgement policy for which it has not set up''),
     (45, ''Peer QSTA does not support the requested cipher suite'')]"

definition status_table :: "(nat \<times> string) list" where
  "status_table =
    [(0, ''Successful''),
     (1, ''Unspecified failure''),
     (10, ''Cannot support all requested capabilities in the capability information field''),
     (11, ''Reassociation denied due to inability to confirm that association exists''),
     (12, ''Association denied due to reason outside the scope of this standard''),
     (13, ''Responding station does not support the specified authentication algorithm''),
     (14, ''Received an authentication frame with authentication transaction sequence number out of expected sequence''),
     (15, ''Authentication rejected because of challenge failure''),
     (16, ''Authentication rejected due to timeout waiting for next frame in sequence''),
     (17, ''Association denied because AP is unable to handle additional associated STA''),
     (18, ''Association denied due to requesting station not supporting all of the data rates in the BSSBasicRateSet parameter''),
     (19, ''Association denied due to requesting station not supporting the short preamble option''),
     (20, ''Association denied due to requesting station not supporting the PBCC modulation option''),
     (21, ''Association denied due to requesting station not supporting the channel agility option''),
     (22, ''Association request rejected because Spectrum Management capability is required''),
     (23, ''Association request rejected because the information in the Power Capability element is unacceptable''),
     (24, ''Association request rejected because the information in the Supported Channels element is unacceptable''),
     (25, ''Association request rejected due to requesting station not supporting the short slot time option''),
     (26, ''Association request rejected due to requesting station not supporting the ER-PBCC modulation option''),
     (27, ''Association denied due to requesting STA not supporting HT features''),
     (28, ''R0KH Unreachable''),
     (29, ''Association denied because the requesting STA does not support the PCO transition required by the AP''),
     (30, ''Association request rejected temporarily; try again later''),
     (31, ''Robust Management frame policy violation''),
     (32, ''Unspecified, QoS related failure''),
     (33, ''Association denied due to QAP having insufficient bandwidth to handle another QSTA''),
     (34, ''Association denied due to poor channel conditions''),
     (35, ''Association (with QBSS) denied due to requesting station not supporting the QoS facility''),
     (37, ''The request has been declined''),
     (38, ''The request has not been successful as one or more parameters have invalid values''),
     (39, ''The TS has not been created because the request cannot be honored. However, a suggested Tspec is provided so that the initiating QSTA may attempt to send another TS with the suggested changes to the TSpec''),
     (40, ''Invalid Information Element''),
     (41, ''Group Cipher is not valid''),
     (42, ''Pairwise Cipher is not valid''),
     (43, ''AKMP is not valid''),
     (44, ''Unsupported RSN IE version''),
     (45, ''Invalid RSN IE Capabilities''),
     (46, ''Cipher suite is rejected per security policy''),
     (47, ''The TS has not been created. However, the HC may be capable of creating a TS, in response to a request, after the time indicated in the TS Delay element''),
     (48, ''Direct link is not allowed in the BSS by policy''),
     (49, ''Destination STA is not present within this QBSS''),
     (50, ''The destination STA is not a QSTA''),
     (51, ''Association denied because Listen Interval is too large''),
     (52, ''Invalid Fast BSS Transition Action Frame Count''),
     (53, ''Invalid PMKID''),
     (54, ''Invalid MDIE''),
     (55, ''Invalid FTIE'')]"

definition get_reason_str :: "nat \<Rightarrow> string" where
  "get_reason_str reason = (case map_of reason_table reason of None \<Rightarrow> ''<unknown>'' | Some t \<Rightarrow> t)"

definition get_status_str :: "nat \<Rightarrow> string" where
  "get_status_str status = (case map_of status_table status of None \<Rightarrow> ''<unknown>'' | Some t \<Rightarrow> t)"

subsection \<open>Frames\<close>

definition hex_list :: "8 word list \<Rightarrow> string" where
  "hex_list bs = concat (map (\<lambda>b. '' '' @ fmt_0x 2 (unat b)) bs) @ '']''"

text \<open>
  The code in bytes \<open>n\<close> and \<open>n + 1\<close>: where it is depends on the kind of frame, and only 26 bytes have been checked for.
\<close>

definition frame_code :: "8 word list \<Rightarrow> nat \<Rightarrow> (nat \<Rightarrow> string) \<Rightarrow> ('w, unit) iw" where
  "frame_code frame n f = (if length frame \<le> n + 1 then undef_p else print (f (unat (frame ! (n + 1)) * 256 + unat (frame ! n))))"

definition frame_codes :: "8 word list \<Rightarrow> ('w, unit) iw" where
  "frame_codes frame =
     (let kind = unat (hd frame) div 4 * 4; status = (\<lambda>v. '' status: '' @ fmt_d (int v) @ '': '' @ get_status_str v) in
      if kind \<in> {0x10, 0x30} then frame_code frame 26 status
      else if kind = 0xb0 then frame_code frame 28 status
      else if kind \<in> {0xa0, 0xc0} then frame_code frame 24 (\<lambda>v. '' reason '' @ fmt_d (int v) @ '': '' @ get_reason_str v)
      else ret ())"

text \<open>A missing frame is announced, and then read through the null pointer.\<close>

definition print_frame :: "bool \<Rightarrow> nlattr option \<Rightarrow> ('w, unit) iw" where
  "print_frame full attr =
     (case attr of None \<Rightarrow> then_p (print '' [no frame]'') undef_p
      | Some a \<Rightarrow>
          bind_p (nla_data (Some a)) (\<lambda>frame.
          if length frame < 26 then print ('' [invalid frame: '' @ hex_list frame)
          else seq_p
            [print ('' '' @ mac_addr_n2a (drop 10 frame) @ '' -> '' @ mac_addr_n2a (drop 4 frame)),
             frame_codes frame,
             (if full then print ('' [frame:'' @ hex_list frame) else ret ())]))"

subsection \<open>Connection quality, integrity and wake-up\<close>

definition cqm_policy :: "(nat \<times> nla_policy) list" where
  "cqm_policy = [(NL80211_ATTR_CQM_RSSI_THOLD, NLA_U32), (NL80211_ATTR_CQM_RSSI_HYST, NLA_U32),
     (NL80211_ATTR_CQM_RSSI_THRESHOLD_EVENT, NLA_U32)]"

definition rssi_event_text :: "nat \<Rightarrow> string" where
  "rssi_event_text v = line (if v = 1 then ''RSSI went above threshold'' else if v = 0 then ''RSSI went below threshold''
     else if v = 2 then ''Beacon loss detected'' else ''Unknown event type: '' @ fmt_du v)"

definition parse_cqm_event :: "nlattr list \<Rightarrow> ('w, unit) iw" where
  "parse_cqm_event as =
     then_p (print ''CQM event: '')
     (case nla_tb as NL80211_ATTR_CQM of None \<Rightarrow> print (line ''missing data!'')
      | Some a \<Rightarrow> on_parsed cqm_policy a (print (line ''missing data!'')) (\<lambda>cqm.
          case nla_tb cqm NL80211_ATTR_CQM_RSSI_THRESHOLD_EVENT of
            Some e \<Rightarrow> bind_p (nla_get_u32 (Some e)) (\<lambda>v. print (rssi_event_text v))
          | None \<Rightarrow>
              if nla_tb cqm NL80211_ATTR_CQM_PKT_LOSS_EVENT \<noteq> None \<and> nla_tb as NL80211_ATTR_MAC \<noteq> None then
                bind_p (nla_get_u32 (nla_tb cqm NL80211_ATTR_CQM_PKT_LOSS_EVENT)) (\<lambda>frames.
                bind_p (mac_text_of (nla_tb as NL80211_ATTR_MAC)) (\<lambda>mac.
                print (line (''peer '' @ mac @ '' didn'' @ [CHR 0x27] @ ''t ACK '' @ fmt_du frames @ '' packets''))))
              else print (line ''unknown event'')))"

definition key_type_str :: "nat \<Rightarrow> string" where
  "key_type_str v = (if v = 0 then ''Group'' else if v = 1 then ''Pairwise'' else if v = 2 then ''PeerKey''
     else ''unknown('' @ fmt_du v @ '')'')"

definition parse_mic_failure :: "nlattr list \<Rightarrow> ('w, unit) iw" where
  "parse_mic_failure as = seq_p
     [print ''Michael MIC failure event:'',
      on_mac as NL80211_ATTR_MAC (\<lambda>a. print ('' source MAC address '' @ a)),
      on_attr as NL80211_ATTR_KEY_SEQ (\<lambda>a. if nla_len a \<noteq> 6 then ret ()
        else bind_p (nla_data (Some a)) (\<lambda>sq. print ('' seq='' @ concat (map (\<lambda>b. fmt_0x 2 (unat b)) sq)))),
      on_u32 as NL80211_ATTR_KEY_TYPE (\<lambda>v. print ('' Key Type '' @ key_type_str v)),
      on_u8 as NL80211_ATTR_KEY_IDX (\<lambda>v. print ('' Key Id '' @ fmt_d (int v))),
      print [nl]]"

definition packet_text :: "8 word list \<Rightarrow> string" where
  "packet_text bs = line (tb @ ''* packet (might be truncated): '' @ colon_join (map (\<lambda>b. fmt_0x 2 (unat b)) bs))"

definition on_flag :: "nlattr list \<Rightarrow> nat \<Rightarrow> string \<Rightarrow> ('w, unit) iw" where
  "on_flag as n t = on_attr as n (\<lambda>_. print (line (tb @ ''* '' @ t)))"

definition print_freqs :: "nlattr \<Rightarrow> ('w, unit) iw" where
  "print_freqs a = bind_p (nla_nested (Some a)) (\<lambda>fs. for_p fs (\<lambda>f. bind_p (nla_get_u32 (Some f)) (\<lambda>v. print ('' '' @ fmt_du v))))"

text \<open>As in \<open>wowlan.c\<close>, an entry behind the array \<open>tb_match\<close> is cleared.\<close>

definition print_detected :: "bool \<Rightarrow> nlattr \<Rightarrow> ('w, unit) iw" where
  "print_detected spare a =
     then_p (print (line (tb @ ''* network detected'')))
     (bind_p (nla_nested (Some a)) (\<lambda>ms. for_p ms (\<lambda>match.
      if \<not> spare then undef_p else
      bind_p (nla_nested (Some match)) (\<lambda>t. seq_p
        [print (tb @ tb @ ''SSID: '' @ [CHR 0x22]),
         bind_p (nla_data (nla_tb t NL80211_ATTR_SSID)) (\<lambda>bs. print (print_ssid_escaped (map (\<lambda>b. char_of (unat b)) bs) @ [CHR 0x22])),
         on_attr t NL80211_ATTR_SCAN_FREQUENCIES (\<lambda>f. then_p (print '' freq(s):'') (print_freqs f)),
         print [nl]]))))"

definition parse_wowlan_wake_event :: "bool \<Rightarrow> nlattr list \<Rightarrow> ('w, unit) iw" where
  "parse_wowlan_wake_event spare as =
     then_p (print (line ''WoWLAN wakeup''))
     (case nla_tb as NL80211_ATTR_WOWLAN_TRIGGERS of
        None \<Rightarrow> print (line (tb @ ''wakeup not due to WoWLAN''))
      | Some a \<Rightarrow> bind_p (nla_nested (Some a)) (\<lambda>t. seq_p
          [on_flag t NL80211_WOWLAN_TRIG_DISCONNECT ''was disconnected'',
           on_flag t NL80211_WOWLAN_TRIG_MAGIC_PKT ''magic packet received'',
           on_u32 t NL80211_WOWLAN_TRIG_PKT_PATTERN (\<lambda>v. print (line (tb @ ''* pattern index: '' @ fmt_d (int v)))),
           on_flag t NL80211_WOWLAN_TRIG_GTK_REKEY_FAILURE ''GTK rekey failure'',
           on_flag t NL80211_WOWLAN_TRIG_EAP_IDENT_REQUEST ''EAP identity request'',
           on_flag t NL80211_WOWLAN_TRIG_4WAY_HANDSHAKE ''4-way handshake'',
           on_flag t NL80211_WOWLAN_TRIG_RFKILL_RELEASE ''RF-kill released'',
           on_attr t NL80211_WOWLAN_TRIG_NET_DETECT_RESULTS (print_detected spare),
           on_attr t NL80211_WOWLAN_TRIG_WAKEUP_PKT_80211 (\<lambda>a. bind_p (nla_data (Some a)) (\<lambda>bs. print (packet_text bs))),
           on_attr t NL80211_WOWLAN_TRIG_WAKEUP_PKT_8023 (\<lambda>a. bind_p (nla_data (Some a)) (\<lambda>bs. print (packet_text bs))),
           on_flag t NL80211_WOWLAN_TRIG_WAKEUP_TCP_MATCH ''TCP connection wakeup received'',
           on_flag t NL80211_WOWLAN_TRIG_WAKEUP_TCP_CONNLOST ''TCP connection lost'',
           on_flag t NL80211_WOWLAN_TRIG_WAKEUP_TCP_NOMORETOKENS ''TCP connection ran out of tokens'']))"

subsection \<open>Regulatory changes\<close>

text \<open>
  Four bytes are read of an attribute of one byte and cut down to the first, which is the attribute on the
  little-endian machine.
\<close>

definition initiator32 :: "nlattr option \<Rightarrow> ('w, nat) iw" where
  "initiator32 a = (case a of Some (At_u8 _ v) \<Rightarrow> ret (unat v) | Some (At_u32 _ v) \<Rightarrow> ret (unat v mod 256) | _ \<Rightarrow> undef_p)"

definition print_reg_change :: "nlattr list \<Rightarrow> ('w, unit) iw" where
  "print_reg_change as =
     (let init = nla_tb as NL80211_ATTR_REG_INITIATOR;
          on_phy = on_u32 as NL80211_ATTR_WIPHY (\<lambda>i. print ('' on phy'' @ fmt_du i)) in seq_p
     [print ''regulatory domain change: '',
      bind_p (nla_get_u8 (nla_tb as NL80211_ATTR_REG_TYPE)) (\<lambda>reg_type.
        if reg_type = 0 then
          bind_p (nla_get_string (nla_tb as NL80211_ATTR_REG_ALPHA2)) (\<lambda>alpha2. bind_p (nla_get_u8 init) (\<lambda>i.
          then_p (print (''set to '' @ alpha2 @ '' by '' @ reg_initiator_to_string i @ '' request'')) on_phy))
        else if reg_type = 1 then
          bind_p (nla_get_u8 init) (\<lambda>i. print (''set to world roaming by '' @ reg_initiator_to_string i @ '' request''))
        else if reg_type = 2 then
          bind_p (nla_get_u32 (nla_tb as NL80211_ATTR_WIPHY)) (\<lambda>w. bind_p (initiator32 init) (\<lambda>i.
          print (''custom world roaming rules in place on phy'' @ fmt_du w @ '' by '' @ reg_initiator_to_string i @ '' request'')))
        else if reg_type = 3 then
          bind_p (initiator32 init) (\<lambda>i.
          then_p (print (''intersection used due to a request made by '' @ reg_initiator_to_string i)) on_phy)
        else print ''unknown source (upgrade this utility)''),
      print [nl]])"

record beacon_channel =
  center_freq :: nat
  no_ir :: bool
  no_ibss :: bool

definition beacon_freq_policy :: "(nat \<times> nla_policy) list" where
  "beacon_freq_policy = [(NL80211_FREQUENCY_ATTR_FREQ, NLA_U32), (NL80211_FREQUENCY_ATTR_NO_IR, NLA_FLAG),
     (NL80211_FREQUENCY_ATTR_NO_IBSS, NLA_FLAG)]"

text \<open>The frequency is kept in 16 bits; \<open>None\<close> is an error.\<close>

definition parse_beacon_hint_chan :: "nlattr option \<Rightarrow> ('w, beacon_channel option) iw" where
  "parse_beacon_hint_chan a =
     bind_p (nla_nested a) (\<lambda>as.
     if \<not> long_enough beacon_freq_policy as then ret None
     else bind_p (nla_get_u32 (nla_tb as NL80211_FREQUENCY_ATTR_FREQ)) (\<lambda>f.
       ret (Some \<lparr>center_freq = f mod 2 ^ 16, no_ir = (nla_tb as NL80211_FREQUENCY_ATTR_NO_IR \<noteq> None),
         no_ibss = (nla_tb as NL80211_FREQUENCY_ATTR_NO_IBSS \<noteq> None)\<rparr>)))"

definition beacon_hint_text :: "nat \<Rightarrow> beacon_channel \<Rightarrow> beacon_channel \<Rightarrow> string" where
  "beacon_hint_text wiphy_idx b a =
     (if center_freq b \<noteq> center_freq a then []
      else line ''beacon hint:'' @
        line (''phy'' @ fmt_du wiphy_idx @ '' '' @ fmt_d (int (center_freq b)) @ '' MHz ['' @
          fmt_d (ieee80211_frequency_to_channel (int (center_freq b))) @ '']:'') @
        (let ibss = (no_ibss b \<and> \<not> no_ibss a) in
         if no_ir b \<and> \<not> no_ir a then line (tb @ (if ibss then ''o Initiating radiation enabled'' else ''o active scan enabled''))
         else if ibss then line (tb @ ''o ibss enabled'') else []))"

definition print_beacon_hint :: "nlattr list \<Rightarrow> ('w, unit) iw" where
  "print_beacon_hint as =
     bind_p (nla_get_u32 (nla_tb as NL80211_ATTR_WIPHY)) (\<lambda>wiphy_idx.
     bind_p (parse_beacon_hint_chan (nla_tb as NL80211_ATTR_FREQ_BEFORE)) (\<lambda>before.
     case before of None \<Rightarrow> ret ()
     | Some b \<Rightarrow> bind_p (parse_beacon_hint_chan (nla_tb as NL80211_ATTR_FREQ_AFTER)) (\<lambda>after.
         case after of None \<Rightarrow> ret () | Some a \<Rightarrow> print (beacon_hint_text wiphy_idx b a))))"

subsection \<open>Events\<close>

text \<open>\<open>ts\<close> counts microseconds.\<close>

record event_args =
  ts :: nat
  have_ts :: bool
  ev_frame :: bool
  ev_time :: bool
  ev_reltime :: bool

definition print_time :: "('w \<Rightarrow> nat \<times> 'w) \<Rightarrow> ('w, event_args) cell \<Rightarrow> ('w, unit) iw" where
  "print_time clock args =
     bind_p (get_var args) (\<lambda>a.
     if \<not> ev_time a \<and> \<not> ev_reltime a then ret ()
     else bind_p (sys clock) (\<lambda>now.
       let usecs = (if ev_reltime a then (if have_ts a then (now + (2 ^ 64 - ts a)) mod 2 ^ 64 else 0) else now) in
       then_p (set_var args (a\<lparr>ts := now, have_ts := (have_ts a \<or> ev_reltime a)\<rparr>))
         (print (fmt_d (int (usecs div 1000000)) @ ''.'' @ pad0 6 (fmt_d (int (usecs mod 1000000))) @ '': ''))))"

definition print_device :: "'w netlink \<Rightarrow> nlattr list \<Rightarrow> ('w, unit) iw" where
  "print_device E as =
     (let ifindex = nla_tb as NL80211_ATTR_IFINDEX; wiphy = nla_tb as NL80211_ATTR_WIPHY; wdev = nla_tb as NL80211_ATTR_WDEV in
      if ifindex \<noteq> None \<and> wiphy \<noteq> None then
        bind_p (ifname_of E ifindex) (\<lambda>n. bind_p (nla_get_u32 wiphy) (\<lambda>w. print (n @ '' (phy #'' @ fmt_du w @ ''): '')))
      else if wdev \<noteq> None \<and> wiphy \<noteq> None then
        bind_p (nla_get_u64 wdev) (\<lambda>d. bind_p (nla_get_u32 wiphy) (\<lambda>w. print (''wdev 0x'' @ fmt_x d @ '' (phy #'' @ fmt_du w @ ''): '')))
      else if ifindex \<noteq> None then bind_p (ifname_of E ifindex) (\<lambda>n. print (n @ '': ''))
      else if wdev \<noteq> None then bind_p (nla_get_u64 wdev) (\<lambda>d. print (''wdev 0x'' @ fmt_x d @ '': ''))
      else if wiphy \<noteq> None then bind_p (nla_get_u32 wiphy) (\<lambda>w. print (''phy #'' @ fmt_du w @ '': ''))
      else ret ())"

definition scan_event :: "string \<Rightarrow> nlattr list \<Rightarrow> ('w, unit) iw" where
  "scan_event what as = seq_p
     [print what,
      on_attr as NL80211_ATTR_SCAN_FREQUENCIES (\<lambda>f. then_p (print_freqs f) (print '','')),
      on_attr as NL80211_ATTR_SCAN_SSIDS (\<lambda>a. bind_p (nla_nested (Some a)) (\<lambda>ss. for_p ss (\<lambda>n. bind_p (nla_data (Some n)) (\<lambda>bs.
        print ('' '' @ dquoted (print_ssid_escaped (map (\<lambda>b. char_of (unat b)) bs))))))),
      print [nl]]"

definition auth_event :: "bool \<Rightarrow> string \<Rightarrow> nlattr list \<Rightarrow> ('w, unit) iw" where
  "auth_event full what as = seq_p
     [print what,
      (if nla_tb as NL80211_ATTR_FRAME \<noteq> None then print_frame full (nla_tb as NL80211_ATTR_FRAME)
       else if nla_tb as NL80211_ATTR_TIMED_OUT \<noteq> None then print '': timed out'' else print '': unknown event''),
      print [nl]]"

definition frame_event :: "bool \<Rightarrow> string \<Rightarrow> nlattr list \<Rightarrow> ('w, unit) iw" where
  "frame_event full what as = seq_p [print what, print_frame full (nla_tb as NL80211_ATTR_FRAME), print [nl]]"

definition mac_event :: "string \<Rightarrow> string \<Rightarrow> nlattr list \<Rightarrow> ('w, unit) iw" where
  "mac_event before after as = bind_p (mac_text_of (nla_tb as NL80211_ATTR_MAC)) (\<lambda>a. print (line (before @ a @ after)))"

definition to_mac :: "nlattr list \<Rightarrow> ('w, unit) iw" where
  "to_mac as = on_mac as NL80211_ATTR_MAC (\<lambda>a. print ('' to '' @ a))"

definition connect_event :: "nlattr list \<Rightarrow> ('w, unit) iw" where
  "connect_event as =
     bind_p (case nla_tb as NL80211_ATTR_STATUS_CODE of None \<Rightarrow> ret None | Some a \<Rightarrow> bind_p (nla_get_u16 (Some a)) (\<lambda>v. ret (Some v)))
     (\<lambda>status. seq_p
       [print (case status of None \<Rightarrow> ''unknown connect status'' | Some v \<Rightarrow> if v = 0 then ''connected'' else ''failed to connect''),
        to_mac as,
        (case status of Some v \<Rightarrow> if v = 0 then ret () else print ('', status: '' @ fmt_d (int v) @ '': '' @ get_status_str v) | None \<Rightarrow> ret ()),
        print [nl]])"

definition disconnect_event :: "nlattr list \<Rightarrow> ('w, unit) iw" where
  "disconnect_event as = seq_p
     [print (''disconnected'' @ (if nla_tb as NL80211_ATTR_DISCONNECTED_BY_AP \<noteq> None then '' (by AP)'' else '' (local request)'')),
      on_u16 as NL80211_ATTR_REASON_CODE (\<lambda>v. print ('' reason: '' @ fmt_d (int v) @ '': '' @ get_reason_str v)),
      print [nl]]"

definition acked :: "nlattr list \<Rightarrow> string" where
  "acked as = (if nla_tb as NL80211_ATTR_ACK \<noteq> None then ''acked'' else ''no ack'')"

definition vendor_event :: "bool \<Rightarrow> nlattr list \<Rightarrow> ('w, unit) iw" where
  "vendor_event full as =
     bind_p (nla_get_u32 (nla_tb as NL80211_ATTR_VENDOR_ID)) (\<lambda>i. bind_p (nla_get_u32 (nla_tb as NL80211_ATTR_VENDOR_SUBCMD)) (\<lambda>c.
     then_p (print (line (''vendor event '' @ fmt_0x 6 i @ '':'' @ fmt_du c)))
     (if \<not> full then ret ()
      else on_attr as NL80211_ATTR_VENDOR_DATA (\<lambda>a. bind_p (nla_data (Some a)) (\<lambda>bs. print (iw_hexdump ''vendor event'' bs))))))"

definition event_printers :: "bool \<Rightarrow> bool \<Rightarrow> nlattr list \<Rightarrow> (nat \<times> ('w, unit) iw) list" where
  "event_printers spare full as =
     (let cookie = (\<lambda>f. bind_p (nla_get_u64 (nla_tb as NL80211_ATTR_COOKIE)) (\<lambda>c. print (line (f (fmt_x c)))));
          u32 = (\<lambda>n. nla_get_u32 (nla_tb as n)) in
     [(NL80211_CMD_NEW_WIPHY, bind_p (nla_get_string (nla_tb as NL80211_ATTR_WIPHY_NAME)) (\<lambda>n. print (line (''renamed to '' @ n)))),
      (NL80211_CMD_TRIGGER_SCAN, print (line ''scan started'')),
      (NL80211_CMD_NEW_SCAN_RESULTS, scan_event ''scan finished:'' as),
      (NL80211_CMD_SCAN_ABORTED, scan_event ''scan aborted:'' as),
      (NL80211_CMD_REG_CHANGE, print_reg_change as),
      (NL80211_CMD_REG_BEACON_HINT, print_beacon_hint as),
      (NL80211_CMD_NEW_STATION, mac_event ''new station '' [] as),
      (NL80211_CMD_DEL_STATION, mac_event ''del station '' [] as),
      (NL80211_CMD_JOIN_IBSS, mac_event ''IBSS '' '' joined'' as),
      (NL80211_CMD_AUTHENTICATE, auth_event full ''auth'' as),
      (NL80211_CMD_ASSOCIATE, auth_event full ''assoc'' as),
      (NL80211_CMD_DEAUTHENTICATE, frame_event full ''deauth'' as),
      (NL80211_CMD_DISASSOCIATE, frame_event full ''disassoc'' as),
      (NL80211_CMD_UNPROT_DEAUTHENTICATE, frame_event full ''unprotected deauth'' as),
      (NL80211_CMD_UNPROT_DISASSOCIATE, frame_event full ''unprotected disassoc'' as),
      (NL80211_CMD_CONNECT, connect_event as),
      (NL80211_CMD_ROAM, seq_p [print ''roamed'', to_mac as, print [nl]]),
      (NL80211_CMD_DISCONNECT, disconnect_event as),
      (NL80211_CMD_REMAIN_ON_CHANNEL, bind_p (u32 NL80211_ATTR_WIPHY_FREQ) (\<lambda>f. bind_p (u32 NL80211_ATTR_DURATION) (\<lambda>d.
         cookie (\<lambda>c. ''remain on freq '' @ fmt_du f @ '' ('' @ fmt_du d @ ''ms, cookie '' @ c @ '')'')))),
      (NL80211_CMD_CANCEL_REMAIN_ON_CHANNEL, bind_p (u32 NL80211_ATTR_WIPHY_FREQ) (\<lambda>f.
         cookie (\<lambda>c. ''done with remain on freq '' @ fmt_du f @ '' (cookie '' @ c @ '')''))),
      (NL80211_CMD_NOTIFY_CQM, parse_cqm_event as),
      (NL80211_CMD_MICHAEL_MIC_FAILURE, parse_mic_failure as),
      (NL80211_CMD_FRAME_TX_STATUS, cookie (\<lambda>c. ''mgmt TX status (cookie '' @ c @ ''): '' @ acked as)),
      (NL80211_CMD_PMKSA_CANDIDATE, print (line ''PMKSA candidate found'')),
      (NL80211_CMD_SET_WOWLAN, parse_wowlan_wake_event spare as),
      (NL80211_CMD_PROBE_CLIENT, bind_p (case nla_tb as NL80211_ATTR_MAC of None \<Rightarrow> ret ''??'' | Some a \<Rightarrow> mac_text_of (Some a)) (\<lambda>mac.
         cookie (\<lambda>c. ''probe client '' @ mac @ '' (cookie '' @ c @ ''): '' @ acked as))),
      (NL80211_CMD_VENDOR, vendor_event full as)])"

definition print_event :: "'w netlink \<Rightarrow> bool \<Rightarrow> ('w \<Rightarrow> nat \<times> 'w) \<Rightarrow> ('w, event_args) cell \<Rightarrow> rx_msg \<Rightarrow> ('w, unit) iw" where
  "print_event E spare clock args m = seq_p
     [print_time clock args,
      print_device E (rx_attrs m),
      bind_p (get_var args) (\<lambda>a.
        case map_of (event_printers spare (ev_frame a) (rx_attrs m)) (rx_cmd m) of
          Some p \<Rightarrow> p
        | None \<Rightarrow> print (line (''unknown event '' @ fmt_d (int (rx_cmd m)) @ '' ('' @ command_name (rx_cmd m) @ '')'')))]"

subsection \<open>The command\<close>

fun event_opts :: "string list \<Rightarrow> event_args \<Rightarrow> event_args option" where
  "event_opts [] a = (if ev_time a \<and> ev_reltime a then None else Some a)"
| "event_opts (w # r) a =
     (if w = ''-f'' then event_opts r (a\<lparr>ev_frame := True\<rparr>)
      else if w = ''-t'' then event_opts r (a\<lparr>ev_time := True\<rparr>)
      else if w = ''-r'' then event_opts r (a\<lparr>ev_reltime := True\<rparr>) else None)"

definition print_events :: "'w netlink \<Rightarrow> bool \<Rightarrow> ('w \<Rightarrow> nat \<times> 'w) \<Rightarrow> ('w, event_args) cell \<Rightarrow> 'w iw_handler" where
  "print_events E spare clock args again msg argv idby =
     (case event_opts (tl argv) \<lparr>ts = 0, have_ts = False, ev_frame = False, ev_time = False, ev_reltime = False\<rparr> of
        None \<Rightarrow> result 1 []
      | Some a \<Rightarrow>
          then_p (set_var args a)
          (bind_p (prepare_listen_events E) (\<lambda>r.
           if r \<noteq> 0 then result r []
           else bind_p (do_listen_events E (print_event E spare clock args) []) (\<lambda>cmd. result (to_int (int cmd)) []))))"

definition event_cmd :: "'w netlink \<Rightarrow> bool \<Rightarrow> ('w \<Rightarrow> nat \<times> 'w) \<Rightarrow> ('w, event_args) cell \<Rightarrow> 'w cmd" where
  "event_cmd E spare clock args = TOPLEVEL ''event'' (Some ''[-t] [-r] [-f]'') 0 0 CIB_NONE (Some (print_events E spare clock args))
     (line ''Monitor events from the kernel.'' @ line ''-t - print timestamp'' @ line ''-r - print relative timstamp'' @
      ''-f - print full frame for auth/assoc etc.'')"

subsection \<open>Which frames are read past\<close>

text \<open>How many bytes the code of a frame needs, by the kind in its first byte.\<close>

definition code_end :: "8 word \<Rightarrow> nat" where
  "code_end b = (let kind = unat b div 4 * 4 in if kind \<in> {0x10, 0x30} then 28 else if kind = 0xb0 then 30 else 26)"

text \<open>
  C38.  A frame of an event is printed without reading past it exactly when it is too short to be looked at at all (fewer
  than 26 bytes) or has the bytes of its code: 28 for the answers to an association, 30 for an authentication, whose code lies behind the
  26 bytes that were checked for.  A missing frame is announced and then read.
\<close>

theorem print_frame_defined:
  "(fst (print_frame full (Some (At_bytes n frame)) s) = Inl Undef) = (26 \<le> length frame \<and> length frame < code_end (hd frame)) \<and>
   print_frame full None s = (Inl Undef, s\<lparr>stdout := stdout s @ '' [no frame]''\<rparr>)"
  unfolding stops_wp
  by (auto simp: print_frame_def wp_simps nla_gets frame_codes_def frame_code_def code_end_def Let_def not_less then_p_def bind_p_def
      print_def undef_p_def)

end
