(* ===== verification/Iw_Info.thy ===== *)
theory Iw_Info
  imports Iw_Event Iw_Coalesce
begin

unbundle bit_operations_syntax

text \<open>
  \<open>info.c\<close> of \<open>iw\<close>: the capabilities of a device.  The kernel may send them in several messages; what is needed
  from one to the next are static variables.  A power in hundredths is printed through the floating-point numbers of the
  machine: \<open>dbm\<close> is the text of it.
\<close>

definition NL80211_ATTR_WIPHY_BANDS :: nat where "NL80211_ATTR_WIPHY_BANDS = 22"
definition NL80211_ATTR_MAX_NUM_SCAN_SSIDS :: nat where "NL80211_ATTR_MAX_NUM_SCAN_SSIDS = 43"
definition NL80211_ATTR_MAX_SCAN_IE_LEN :: nat where "NL80211_ATTR_MAX_SCAN_IE_LEN = 56"
definition NL80211_ATTR_CIPHER_SUITES :: nat where "NL80211_ATTR_CIPHER_SUITES = 57"
definition NL80211_ATTR_WIPHY_ANTENNA_AVAIL_TX :: nat where "NL80211_ATTR_WIPHY_ANTENNA_AVAIL_TX = 113"
definition NL80211_ATTR_WIPHY_ANTENNA_AVAIL_RX :: nat where "NL80211_ATTR_WIPHY_ANTENNA_AVAIL_RX = 114"
definition NL80211_ATTR_SUPPORTED_IFTYPES :: nat where "NL80211_ATTR_SUPPORTED_IFTYPES = 32"
definition NL80211_ATTR_SOFTWARE_IFTYPES :: nat where "NL80211_ATTR_SOFTWARE_IFTYPES = 121"
definition NL80211_ATTR_INTERFACE_COMBINATIONS :: nat where "NL80211_ATTR_INTERFACE_COMBINATIONS = 120"
definition NL80211_ATTR_SUPPORTED_COMMANDS :: nat where "NL80211_ATTR_SUPPORTED_COMMANDS = 50"
definition NL80211_ATTR_TX_FRAME_TYPES :: nat where "NL80211_ATTR_TX_FRAME_TYPES = 99"
definition NL80211_ATTR_RX_FRAME_TYPES :: nat where "NL80211_ATTR_RX_FRAME_TYPES = 100"
definition NL80211_ATTR_SUPPORT_IBSS_RSN :: nat where "NL80211_ATTR_SUPPORT_IBSS_RSN = 104"
definition NL80211_ATTR_WOWLAN_TRIGGERS_SUPPORTED :: nat where "NL80211_ATTR_WOWLAN_TRIGGERS_SUPPORTED = 118"
definition NL80211_ATTR_ROAM_SUPPORT :: nat where "NL80211_ATTR_ROAM_SUPPORT = 131"
definition NL80211_ATTR_SUPPORT_AP_UAPSD :: nat where "NL80211_ATTR_SUPPORT_AP_UAPSD = 130"
definition NL80211_ATTR_HT_CAPABILITY_MASK :: nat where "NL80211_ATTR_HT_CAPABILITY_MASK = 148"
definition NL80211_ATTR_FEATURE_FLAGS :: nat where "NL80211_ATTR_FEATURE_FLAGS = 143"
definition NL80211_ATTR_TDLS_SUPPORT :: nat where "NL80211_ATTR_TDLS_SUPPORT = 139"
definition NL80211_ATTR_SPLIT_WIPHY_DUMP :: nat where "NL80211_ATTR_SPLIT_WIPHY_DUMP = 174"
definition NL80211_ATTR_PROTOCOL_FEATURES :: nat where "NL80211_ATTR_PROTOCOL_FEATURES = 173"
definition NL80211_BAND_ATTR_FREQS :: nat where "NL80211_BAND_ATTR_FREQS = 1"
definition NL80211_BAND_ATTR_RATES :: nat where "NL80211_BAND_ATTR_RATES = 2"
definition NL80211_BAND_ATTR_HT_MCS_SET :: nat where "NL80211_BAND_ATTR_HT_MCS_SET = 3"
definition NL80211_BAND_ATTR_HT_CAPA :: nat where "NL80211_BAND_ATTR_HT_CAPA = 4"
definition NL80211_BAND_ATTR_HT_AMPDU_FACTOR :: nat where "NL80211_BAND_ATTR_HT_AMPDU_FACTOR = 5"
definition NL80211_BAND_ATTR_HT_AMPDU_DENSITY :: nat where "NL80211_BAND_ATTR_HT_AMPDU_DENSITY = 6"
definition NL80211_BAND_ATTR_VHT_MCS_SET :: nat where "NL80211_BAND_ATTR_VHT_MCS_SET = 7"
definition NL80211_BAND_ATTR_VHT_CAPA :: nat where "NL80211_BAND_ATTR_VHT_CAPA = 8"
definition NL80211_FREQUENCY_ATTR_DISABLED :: nat where "NL80211_FREQUENCY_ATTR_DISABLED = 2"
definition NL80211_FREQUENCY_ATTR_RADAR :: nat where "NL80211_FREQUENCY_ATTR_RADAR = 5"
definition NL80211_FREQUENCY_ATTR_MAX_TX_POWER :: nat where "NL80211_FREQUENCY_ATTR_MAX_TX_POWER = 6"
definition NL80211_FREQUENCY_ATTR_DFS_STATE :: nat where "NL80211_FREQUENCY_ATTR_DFS_STATE = 7"
definition NL80211_FREQUENCY_ATTR_DFS_TIME :: nat where "NL80211_FREQUENCY_ATTR_DFS_TIME = 8"
definition NL80211_FREQUENCY_ATTR_DFS_CAC_TIME :: nat where "NL80211_FREQUENCY_ATTR_DFS_CAC_TIME = 13"
definition NL80211_BITRATE_ATTR_RATE :: nat where "NL80211_BITRATE_ATTR_RATE = 1"
definition NL80211_BITRATE_ATTR_2GHZ_SHORTPREAMBLE :: nat where "NL80211_BITRATE_ATTR_2GHZ_SHORTPREAMBLE = 2"
definition NL80211_IFACE_LIMIT_MAX :: nat where "NL80211_IFACE_LIMIT_MAX = 1"
definition NL80211_IFACE_LIMIT_TYPES :: nat where "NL80211_IFACE_LIMIT_TYPES = 2"
definition NL80211_IFACE_COMB_LIMITS :: nat where "NL80211_IFACE_COMB_LIMITS = 1"
definition NL80211_IFACE_COMB_MAXNUM :: nat where "NL80211_IFACE_COMB_MAXNUM = 2"
definition NL80211_IFACE_COMB_STA_AP_BI_MATCH :: nat where "NL80211_IFACE_COMB_STA_AP_BI_MATCH = 3"
definition NL80211_IFACE_COMB_NUM_CHANNELS :: nat where "NL80211_IFACE_COMB_NUM_CHANNELS = 4"
definition NL80211_IFACE_COMB_RADAR_DETECT_WIDTHS :: nat where "NL80211_IFACE_COMB_RADAR_DETECT_WIDTHS = 5"
definition NL80211_WOWLAN_TRIG_GTK_REKEY_SUPPORTED :: nat where "NL80211_WOWLAN_TRIG_GTK_REKEY_SUPPORTED = 5"

subsection \<open>Bands\<close>

text \<open>\<open>print_flag\<close> again and again: the flags in parentheses.\<close>

fun flag_list :: "bool \<Rightarrow> string list \<Rightarrow> string" where
  "flag_list opened [] = (if opened then '')'' else [])"
| "flag_list opened (f # fs) = (if opened then '', '' else '' ('') @ f @ flag_list True fs"

definition cipher_name :: "nat \<Rightarrow> string" where
  "cipher_name c =
     (case map_of [(0x000fac01, ''WEP40 (00-0f-ac:1)''), (0x000fac05, ''WEP104 (00-0f-ac:5)''), (0x000fac02, ''TKIP (00-0f-ac:2)''),
        (0x000fac04, ''CCMP (00-0f-ac:4)''), (0x000fac06, ''CMAC (00-0f-ac:6)''), (0x000fac08, ''GCMP (00-0f-ac:8)''),
        (0x00147201, ''WPI-SMS4 (00-14-72:1)'')] c of
        Some t \<Rightarrow> t
      | None \<Rightarrow> fmt_0x 2 (c div 2 ^ 24) @ ''-'' @ fmt_0x 2 (c div 2 ^ 16 mod 256) @ ''-'' @ fmt_0x 2 (c div 2 ^ 8 mod 256) @ '':'' @
          fmt_d (int (c mod 256)))"

definition dfs_state_name :: "nat \<Rightarrow> string" where
  "dfs_state_name s = (if s = 0 then ''usable'' else if s = 2 then ''available'' else if s = 1 then ''unavailable'' else ''unknown'')"

definition freq_policy :: "(nat \<times> nla_policy) list" where
  "freq_policy = [(NL80211_FREQUENCY_ATTR_FREQ, NLA_U32), (NL80211_FREQUENCY_ATTR_DISABLED, NLA_FLAG), (NL80211_FREQUENCY_ATTR_NO_IR, NLA_FLAG),
     (NL80211_FREQUENCY_ATTR_NO_IBSS, NLA_FLAG), (NL80211_FREQUENCY_ATTR_RADAR, NLA_FLAG), (NL80211_FREQUENCY_ATTR_MAX_TX_POWER, NLA_U32)]"

definition freq_flags :: "nlattr list \<Rightarrow> string list" where
  "freq_flags t =
     (let has = (\<lambda>n. nla_tb t n \<noteq> None) in
      if has NL80211_FREQUENCY_ATTR_DISABLED then [''disabled'']
      else (if has NL80211_FREQUENCY_ATTR_NO_IR \<and> has NL80211_FREQUENCY_ATTR_NO_IBSS then [''no IR'']
            else if has NL80211_FREQUENCY_ATTR_NO_IR then [''passive scan'']
            else if has NL80211_FREQUENCY_ATTR_NO_IBSS then [''no ibss''] else []) @
           (if has NL80211_FREQUENCY_ATTR_RADAR then [''radar detection''] else []))"

definition print_freq :: "(nat \<Rightarrow> string) \<Rightarrow> nlattr \<Rightarrow> ('w, unit) iw" where
  "print_freq dbm a =
     bind_p (nla_nested (Some a)) (\<lambda>as.
     let t = parsed freq_policy as; enabled = (nla_tb t NL80211_FREQUENCY_ATTR_DISABLED = None) in
     on_u32 t NL80211_FREQUENCY_ATTR_FREQ (\<lambda>freq. seq_p
       [print (tb @ tb @ tb @ ''* '' @ fmt_du freq @ '' MHz ['' @ fmt_d (ieee80211_frequency_to_channel (to_int (int freq))) @ '']''),
        (if enabled then on_u32 t NL80211_FREQUENCY_ATTR_MAX_TX_POWER (\<lambda>v. print ('' ('' @ dbm v @ '' dBm)'')) else ret ()),
        print (flag_list False (freq_flags t) @ [nl]),
        (if \<not> enabled then ret ()
         else on_u32 t NL80211_FREQUENCY_ATTR_DFS_STATE (\<lambda>v. seq_p
           [print (tb @ tb @ tb @ ''  DFS state: '' @ dfs_state_name v),
            on_u32 t NL80211_FREQUENCY_ATTR_DFS_TIME (\<lambda>ms. print ('' (for '' @ fmt_d (int (ms div 1000)) @ '' sec)'')),
            print [nl],
            on_u32 t NL80211_FREQUENCY_ATTR_DFS_CAC_TIME (\<lambda>ms. print (line (tb @ tb @ tb @ ''  DFS CAC time: '' @ fmt_d (int ms) @ '' ms'')))]))]))"

definition band_rate_policy :: "(nat \<times> nla_policy) list" where
  "band_rate_policy = [(NL80211_BITRATE_ATTR_RATE, NLA_U32), (NL80211_BITRATE_ATTR_2GHZ_SHORTPREAMBLE, NLA_FLAG)]"

definition print_rate :: "nlattr \<Rightarrow> ('w, unit) iw" where
  "print_rate a =
     bind_p (nla_nested (Some a)) (\<lambda>as.
     let t = parsed band_rate_policy as in
     on_u32 t NL80211_BITRATE_ATTR_RATE (\<lambda>v.
       print (line (tb @ tb @ tb @ ''* '' @ fmt_d (int (v div 10)) @ ''.'' @ fmt_d (int (v mod 10)) @ '' Mbps'' @
         flag_list False (if nla_tb t NL80211_BITRATE_ATTR_2GHZ_SHORTPREAMBLE = None then [] else [''short preamble supported''])))))"

record phy_static =
  phy_id :: int
  last_band :: int
  band_had_freq :: bool

definition print_band_capa :: "nlattr list \<Rightarrow> ('w, unit) iw" where
  "print_band_capa b = seq_p
     [on_u16 b NL80211_BAND_ATTR_HT_CAPA (\<lambda>v. print (print_ht_capability (word_of_nat v))),
      on_u8 b NL80211_BAND_ATTR_HT_AMPDU_FACTOR (\<lambda>v. print (print_ampdu_length (word_of_nat v))),
      on_u8 b NL80211_BAND_ATTR_HT_AMPDU_DENSITY (\<lambda>v. print (print_ampdu_spacing (word_of_nat v))),
      on_attr b NL80211_BAND_ATTR_HT_MCS_SET (\<lambda>a. if nla_len a \<noteq> 16 then ret ()
        else bind_p (nla_data (Some a)) (\<lambda>bs. print (print_ht_mcs bs))),
      (if nla_tb b NL80211_BAND_ATTR_VHT_MCS_SET = None then ret ()
       else on_u32 b NL80211_BAND_ATTR_VHT_CAPA (\<lambda>v. bind_p (nla_data (nla_tb b NL80211_BAND_ATTR_VHT_MCS_SET)) (\<lambda>bs.
         if length bs < 8 then undef_p else print (print_vht_info (word_of_nat v) bs))))]"

definition print_band :: "(nat \<Rightarrow> string) \<Rightarrow> ('w, phy_static) cell \<Rightarrow> nlattr \<Rightarrow> ('w, unit) iw" where
  "print_band dbm st nl_band = seq_p
     [bind_p (get_var st) (\<lambda>s.
        if last_band s = int (nla_type nl_band) then ret ()
        else then_p (print (line (tb @ ''Band '' @ fmt_d (int (nla_type nl_band) + 1) @ '':'')))
          (set_var st (s\<lparr>last_band := int (nla_type nl_band), band_had_freq := False\<rparr>))),
      bind_p (nla_nested (Some nl_band)) (\<lambda>b. seq_p
        [print_band_capa b,
         on_attr b NL80211_BAND_ATTR_FREQS (\<lambda>a.
           then_p (bind_p (get_var st) (\<lambda>s. if band_had_freq s then ret ()
             else then_p (print (line (tb @ tb @ ''Frequencies:''))) (set_var st (s\<lparr>band_had_freq := True\<rparr>))))
           (bind_p (nla_nested (Some a)) (\<lambda>fs. for_p fs (print_freq dbm)))),
         on_attr b NL80211_BAND_ATTR_RATES (\<lambda>a.
           then_p (print (line (tb @ tb @ ''Bitrates (non-HT):''))) (bind_p (nla_nested (Some a)) (\<lambda>rs. for_p rs print_rate)))])]"

definition print_phy_head :: "('w, phy_static) cell \<Rightarrow> nlattr list \<Rightarrow> ('w, unit) iw" where
  "print_phy_head st as =
     bind_p
       (case nla_tb as NL80211_ATTR_WIPHY of None \<Rightarrow> ret True
        | Some a \<Rightarrow> bind_p (nla_get_u32 (Some a)) (\<lambda>i. bind_p (get_var st) (\<lambda>s.
            let known = (int i = phy_id s) in
            bind_p (set_var st (s\<lparr>phy_id := int i, last_band := (if known then last_band s else -1)\<rparr>)) (\<lambda>_. ret (\<not> known)))))
       (\<lambda>print_name. if \<not> print_name then ret ()
          else on_attr as NL80211_ATTR_WIPHY_NAME (\<lambda>a. bind_p (nla_get_string (Some a)) (\<lambda>n. print (line (''Wiphy '' @ n)))))"

subsection \<open>Limits and modes\<close>

definition threshold_line :: "nlattr list \<Rightarrow> nat \<Rightarrow> string \<Rightarrow> ('w, unit) iw" where
  "threshold_line as n label = on_u32 as n (\<lambda>v. if v = 0xffffffff then ret () else print (line (tb @ label @ '' threshold: '' @ fmt_du v)))"

definition u8_or_0 :: "nlattr list \<Rightarrow> nat \<Rightarrow> ('w, nat) iw" where
  "u8_or_0 as n = (case nla_tb as n of None \<Rightarrow> ret 0 | Some a \<Rightarrow> nla_get_u8 (Some a))"

definition print_retry :: "nlattr list \<Rightarrow> ('w, unit) iw" where
  "print_retry as =
     (if nla_tb as NL80211_ATTR_WIPHY_RETRY_SHORT = None \<and> nla_tb as NL80211_ATTR_WIPHY_RETRY_LONG = None then ret ()
      else bind_p (u8_or_0 as NL80211_ATTR_WIPHY_RETRY_SHORT) (\<lambda>short. bind_p (u8_or_0 as NL80211_ATTR_WIPHY_RETRY_LONG) (\<lambda>long.
        if short = long then print (line (tb @ ''Retry short long limit: '' @ fmt_d (int short)))
        else print (line (tb @ ''Retry short limit: '' @ fmt_d (int short)) @ line (tb @ ''Retry long limit: '' @ fmt_d (int long))))))"

definition ciphers_text :: "8 word list \<Rightarrow> string" where
  "ciphers_text bs =
     (let num = length bs div 4 in
      if num = 0 then []
      else line (tb @ ''Supported Ciphers:'') @ concat (map (\<lambda>i. line (tb @ tb @ ''* '' @ cipher_name (get32 bs (4 * i)))) [0..<num]))"

definition alt_hex :: "nat \<Rightarrow> string" where
  "alt_hex v = (if v = 0 then ''0'' else ''0x'' @ fmt_x v)"

definition print_antennas :: "nlattr list \<Rightarrow> string \<Rightarrow> nat \<Rightarrow> nat \<Rightarrow> ('w, unit) iw" where
  "print_antennas as label tx rx =
     (if nla_tb as tx = None \<or> nla_tb as rx = None then ret ()
      else bind_p (nla_get_u32 (nla_tb as tx)) (\<lambda>t. bind_p (nla_get_u32 (nla_tb as rx)) (\<lambda>r.
        print (line (tb @ label @ '' Antennas: TX '' @ alt_hex t @ '' RX '' @ alt_hex r)))))"

definition print_modes :: "string \<Rightarrow> nlattr \<Rightarrow> ('w, unit) iw" where
  "print_modes label a =
     bind_p (nla_nested (Some a)) (\<lambda>ms. print (line (tb @ label) @ concat (map (\<lambda>m. line (tb @ tb @ '' * '' @ iftype_name (nla_type m))) ms)))"

subsection \<open>Combinations of interfaces\<close>

definition comb_policy :: "(nat \<times> nla_policy) list" where
  "comb_policy = [(NL80211_IFACE_COMB_LIMITS, NLA_NESTED), (NL80211_IFACE_COMB_MAXNUM, NLA_U32), (NL80211_IFACE_COMB_STA_AP_BI_MATCH, NLA_FLAG),
     (NL80211_IFACE_COMB_NUM_CHANNELS, NLA_U32), (NL80211_IFACE_COMB_RADAR_DETECT_WIDTHS, NLA_U32)]"

definition limit_policy :: "(nat \<times> nla_policy) list" where
  "limit_policy = [(NL80211_IFACE_LIMIT_TYPES, NLA_NESTED), (NL80211_IFACE_LIMIT_MAX, NLA_U32)]"

fun types_text :: "bool \<Rightarrow> nlattr list \<Rightarrow> string" where
  "types_text comma [] = []"
| "types_text comma (m # ms) = (if comma then '','' else []) @ '' '' @ iftype_name (nla_type m) @ types_text True ms"

text \<open>The limits of a combination; a broken one ends the combination.\<close>

fun print_limits :: "bool \<Rightarrow> nlattr list \<Rightarrow> ('w, bool) iw" where
  "print_limits comma [] = ret True"
| "print_limits comma (l # ls) =
     bind_p (nla_nested (Some l)) (\<lambda>as.
     case (if long_enough limit_policy as then nla_tb as NL80211_IFACE_LIMIT_TYPES else None) of
       None \<Rightarrow> bind_p (print (line ''<failed to parse>'')) (\<lambda>_. ret False)
     | Some types \<Rightarrow>
         bind_p (nla_nested (Some types)) (\<lambda>ms.
         bind_p (print ((if comma then '', '' else []) @ ''#{'' @ types_text False ms)) (\<lambda>_.
         bind_p (nla_get_u32 (nla_tb as NL80211_IFACE_LIMIT_MAX)) (\<lambda>v.
         bind_p (print ('' } <= '' @ fmt_d (int v))) (\<lambda>_. print_limits True ls)))))"

fun widths_text :: "bool \<Rightarrow> nat list \<Rightarrow> string" where
  "widths_text comma [] = []"
| "widths_text comma (w # ws) = (if comma then '','' else []) @ '' '' @ channel_width_name w @ widths_text True ws"

definition radar_text :: "nat \<Rightarrow> string" where
  "radar_text widths =
     (if widths = 0 then []
      else '', radar detect widths: {'' @ widths_text False (filter (bit widths) [0..<32]) @ line '' }'')"

definition print_totals :: "nlattr list \<Rightarrow> ('w, unit) iw" where
  "print_totals c =
     bind_p (nla_get_u32 (nla_tb c NL80211_IFACE_COMB_MAXNUM)) (\<lambda>maxnum.
     bind_p (nla_get_u32 (nla_tb c NL80211_IFACE_COMB_NUM_CHANNELS)) (\<lambda>channels. seq_p
       [print ('','' @ [nl] @ tb @ tb @ ''   '' @ ''total <= '' @ fmt_du maxnum @ '', #channels <= '' @ fmt_du channels @
          (if nla_tb c NL80211_IFACE_COMB_STA_AP_BI_MATCH = None then [] else '', STA/AP BI must match'')),
        on_u32 c NL80211_IFACE_COMB_RADAR_DETECT_WIDTHS (\<lambda>v. print (radar_text v)),
        print [nl]]))"

definition print_comb :: "nlattr \<Rightarrow> ('w, unit) iw" where
  "print_comb a =
     then_p (print (tb @ tb @ '' * ''))
     (bind_p (nla_nested (Some a)) (\<lambda>c.
      if \<not> long_enough comb_policy c \<or> nla_tb c NL80211_IFACE_COMB_LIMITS = None \<or> nla_tb c NL80211_IFACE_COMB_MAXNUM = None \<or>
         nla_tb c NL80211_IFACE_COMB_NUM_CHANNELS = None
      then print (line '' <failed to parse>'')
      else bind_p (nla_nested (nla_tb c NL80211_IFACE_COMB_LIMITS)) (\<lambda>ls.
        bind_p (print_limits False ls) (\<lambda>ok. if ok then print_totals c else ret ()))))"

definition print_combs :: "nlattr \<Rightarrow> ('w, unit) iw" where
  "print_combs a =
     bind_p (nla_nested (Some a)) (\<lambda>cs.
     if cs = [] then print (line (tb @ ''interface combinations are not supported''))
     else then_p (print (line (tb @ ''valid interface combinations:''))) (for_p cs print_comb))"

subsection \<open>Commands, frames, wake-up and features\<close>

definition print_supported_commands :: "nlattr \<Rightarrow> ('w, unit) iw" where
  "print_supported_commands a =
     then_p (print (line (tb @ ''Supported commands:'')))
     (bind_p (nla_nested (Some a)) (\<lambda>cs. for_p cs (\<lambda>c. bind_p (nla_get_u32 (Some c)) (\<lambda>v. print (line (tb @ tb @ '' * '' @ command_name v))))))"

definition print_iface_frames :: "nlattr \<Rightarrow> ('w, unit) iw" where
  "print_iface_frames nl_if =
     bind_p (nla_nested (Some nl_if)) (\<lambda>fs.
     if fs = [] then ret ()
     else seq_p
       [print (tb @ tb @ '' * '' @ iftype_name (nla_type nl_if) @ '':''),
        for_p fs (\<lambda>f. bind_p (nla_get_u16 (Some f)) (\<lambda>v. print ('' 0x'' @ fmt_0x 2 v))),
        print [nl]])"

definition print_frame_types :: "string \<Rightarrow> nlattr \<Rightarrow> ('w, unit) iw" where
  "print_frame_types dir a =
     then_p (print (line (tb @ ''Supported '' @ dir @ '' frame types:''))) (bind_p (nla_nested (Some a)) (\<lambda>ifs. for_p ifs print_iface_frames))"

definition wowlan_policy :: "(nat \<times> nla_policy) list" where
  "wowlan_policy = [(NL80211_WOWLAN_TRIG_ANY, NLA_FLAG), (NL80211_WOWLAN_TRIG_DISCONNECT, NLA_FLAG), (NL80211_WOWLAN_TRIG_MAGIC_PKT, NLA_FLAG),
     (NL80211_WOWLAN_TRIG_PKT_PATTERN, NLA_MINLEN 12), (NL80211_WOWLAN_TRIG_GTK_REKEY_SUPPORTED, NLA_FLAG),
     (NL80211_WOWLAN_TRIG_GTK_REKEY_FAILURE, NLA_FLAG), (NL80211_WOWLAN_TRIG_EAP_IDENT_REQUEST, NLA_FLAG),
     (NL80211_WOWLAN_TRIG_4WAY_HANDSHAKE, NLA_FLAG), (NL80211_WOWLAN_TRIG_RFKILL_RELEASE, NLA_FLAG), (NL80211_WOWLAN_TRIG_NET_DETECT, NLA_FLAG),
     (NL80211_WOWLAN_TRIG_TCP_CONNECTION, NLA_NESTED)]"

definition pattern_limits :: "8 word list \<Rightarrow> string" where
  "pattern_limits bs =
     (let n = (\<lambda>i. fmt_d (int (get32 bs i))) in
      line (tb @ tb @ '' * wake up on pattern match, up to '' @ n 0 @ '' patterns of '' @ n 4 @ ''-'' @ n 8 @ '' bytes,'') @
      line (tb @ tb @ ''   maximum packet offset '' @ (if length bs < 16 then ''0'' else n 12) @ '' bytes''))"

definition print_wowlan_support :: "nlattr \<Rightarrow> ('w, unit) iw" where
  "print_wowlan_support a =
     on_parsed wowlan_policy a (print (line (tb @ ''WoWLAN support: <failed to parse>''))) (\<lambda>t.
     let trig = (\<lambda>n s. on_attr t n (\<lambda>_. print (line (tb @ tb @ '' * '' @ s)))) in seq_p
     [print (line (tb @ ''WoWLAN support:'')),
      trig NL80211_WOWLAN_TRIG_ANY ''wake up on anything (device continues operating normally)'',
      trig NL80211_WOWLAN_TRIG_DISCONNECT ''wake up on disconnect'',
      trig NL80211_WOWLAN_TRIG_MAGIC_PKT ''wake up on magic packet'',
      on_attr t NL80211_WOWLAN_TRIG_PKT_PATTERN (\<lambda>a. bind_p (nla_data (Some a)) (\<lambda>bs. print (pattern_limits bs))),
      trig NL80211_WOWLAN_TRIG_GTK_REKEY_SUPPORTED ''can do GTK rekeying'',
      trig NL80211_WOWLAN_TRIG_GTK_REKEY_FAILURE ''wake up on GTK rekey failure'',
      trig NL80211_WOWLAN_TRIG_EAP_IDENT_REQUEST ''wake up on EAP identity request'',
      trig NL80211_WOWLAN_TRIG_4WAY_HANDSHAKE ''wake up on 4-way handshake'',
      trig NL80211_WOWLAN_TRIG_RFKILL_RELEASE ''wake up on rfkill release'',
      trig NL80211_WOWLAN_TRIG_NET_DETECT ''wake up on network detection'',
      trig NL80211_WOWLAN_TRIG_TCP_CONNECTION ''wake up on TCP connection''])"

definition HT_CAP_SIZE :: nat where "HT_CAP_SIZE = 26"

definition ht_override_text :: "8 word list \<Rightarrow> string" where
  "ht_override_text bs =
     line (tb @ ''HT Capability overrides:'') @
     (if length bs < HT_CAP_SIZE then
        line (tb @ ''ERROR: capabilities mask is too short, expected: '' @ fmt_d (int HT_CAP_SIZE) @ '', received: '' @ fmt_d (int (length bs)))
      else (let cap_info = unat (bs ! 0) + 256 * unat (bs ! 1); ampdu = unat (bs ! 2);
                item = (\<lambda>b s. if b then line (tb @ tb @ '' * '' @ s) else []) in
        line (tb @ tb @ '' * MCS:'' @ concat (map (\<lambda>b. '' '' @ fmt_0x 2 (unat b)) (take 10 (drop 3 bs)))) @
        item (bit cap_info 11) ''maximum A-MSDU length'' @
        item (bit cap_info 1) ''supported channel width'' @
        item (bit cap_info 6) ''short GI for 40 MHz'' @
        item (ampdu mod 4 \<noteq> 0) ''max A-MPDU length exponent'' @
        item (ampdu div 4 mod 8 \<noteq> 0) ''min MPDU start spacing''))"

definition feature_names :: "(nat \<times> string) list" where
  "feature_names =
     [(0, ''Device supports TX status socket option.''), (1, ''Device supports HT-IBSS.''), (2, ''Device has client inactivity timer.''),
      (3, ''Device accepts cell base station regulatory hints.''), (4, ''P2P Device uses a channel (of the concurrent ones)''),
      (5, ''Device supports SAE with AUTHENTICATE command''), (6, ''Device supports low priority scan.''), (7, ''Device supports scan flush.''),
      (8, ''Device supports AP scan.''), (9, ''Device supports per-vif TX power setting''),
      (10, ''Userspace should do OBSS scan and generate 20/40 coex reports''), (11, ''P2P GO supports CT window setting''),
      (12, ''P2P GO supports opportunistic powersave setting''), (15, ''Driver supports full state transitions for AP/GO clients''),
      (16, ''Driver supports a userspace MPM''), (17, ''Device supports active monitor (which will ACK incoming frames)''),
      (18, ''Driver/device bandwidth changes during BSS lifetime (AP/GO mode)''), (19, ''Device adds DS IE to probe requests''),
      (20, ''Device adds WFA TPC Report IE to probe requests''), (21, ''Device supports quiet requests from AP''),
      (22, ''Device can update TPC Report IE''), (23, ''Device supports ACK timeout estimation.''), (24, ''Device supports static SMPS''),
      (25, ''Device supports dynamic SMPS''), (26, ''Device supports WMM-AC admission (TSPECs)''),
      (27, ''Device supports configuring vdev MAC-addr on create.''), (28, ''Device supports TDLS channel switching'')]"

definition features_text :: "nat \<Rightarrow> string" where
  "features_text features = concat (map (\<lambda>(n, s). if bit features n then line (tb @ s) else []) feature_names)"

definition coalesce_text :: "8 word list \<Rightarrow> string" where
  "coalesce_text bs =
     (let n = (\<lambda>i. fmt_d (int (get32 bs i))) in
      line (tb @ tb @ '' * Maximum '' @ n 0 @ '' coalesce rules supported'') @
      line (tb @ tb @ '' * Each rule contains upto '' @ n 4 @ '' patterns of '' @ n 8 @ ''-'' @ n 12 @ '' bytes,'') @
      line (tb @ tb @ ''   maximum packet offset '' @ n 16 @ '' bytes'') @
      line (tb @ tb @ '' * Maximum supported coalescing delay '' @ n 20 @ '' msecs''))"

subsection \<open>The device\<close>

definition print_phy :: "(nat \<Rightarrow> string) \<Rightarrow> ('w, phy_static) cell \<Rightarrow> 'w valid_cb" where
  "print_phy dbm st m u =
     (let as = rx_attrs m; says = (\<lambda>n s. on_attr as n (\<lambda>_. print (line (tb @ s)))) in seq_p
     [print_phy_head st as,
      on_attr as NL80211_ATTR_WIPHY_BANDS (\<lambda>a. bind_p (nla_nested (Some a)) (\<lambda>bs. for_p bs (print_band dbm st))),
      on_u8 as NL80211_ATTR_MAX_NUM_SCAN_SSIDS (\<lambda>v. print (line (tb @ ''max # scan SSIDs: '' @ fmt_d (int v)))),
      on_u16 as NL80211_ATTR_MAX_SCAN_IE_LEN (\<lambda>v. print (line (tb @ ''max scan IEs length: '' @ fmt_d (int v) @ '' bytes''))),
      threshold_line as NL80211_ATTR_WIPHY_FRAG_THRESHOLD ''Fragmentation'',
      threshold_line as NL80211_ATTR_WIPHY_RTS_THRESHOLD ''RTS'',
      print_retry as,
      on_u8 as NL80211_ATTR_WIPHY_COVERAGE_CLASS (\<lambda>v.
        print (line (tb @ ''Coverage class: '' @ fmt_d (int v) @ '' (up to '' @ fmt_d (450 * int v) @ ''m)''))),
      on_attr as NL80211_ATTR_CIPHER_SUITES (\<lambda>a. bind_p (nla_data (Some a)) (\<lambda>bs. print (ciphers_text bs))),
      print_antennas as ''Available'' NL80211_ATTR_WIPHY_ANTENNA_AVAIL_TX NL80211_ATTR_WIPHY_ANTENNA_AVAIL_RX,
      print_antennas as ''Configured'' NL80211_ATTR_WIPHY_ANTENNA_TX NL80211_ATTR_WIPHY_ANTENNA_RX,
      on_attr as NL80211_ATTR_SUPPORTED_IFTYPES (print_modes ''Supported interface modes:''),
      on_attr as NL80211_ATTR_SOFTWARE_IFTYPES (print_modes ''software interface modes (can always be added):''),
      on_attr as NL80211_ATTR_INTERFACE_COMBINATIONS print_combs,
      on_attr as NL80211_ATTR_SUPPORTED_COMMANDS print_supported_commands,
      on_attr as NL80211_ATTR_TX_FRAME_TYPES (print_frame_types ''TX''),
      on_attr as NL80211_ATTR_RX_FRAME_TYPES (print_frame_types ''RX''),
      says NL80211_ATTR_SUPPORT_IBSS_RSN ''Device supports RSN-IBSS.'',
      on_attr as NL80211_ATTR_WOWLAN_TRIGGERS_SUPPORTED print_wowlan_support,
      says NL80211_ATTR_ROAM_SUPPORT ''Device supports roaming.'',
      says NL80211_ATTR_SUPPORT_AP_UAPSD ''Device supports AP-side u-APSD.'',
      on_attr as NL80211_ATTR_HT_CAPABILITY_MASK (\<lambda>a. bind_p (nla_data (Some a)) (\<lambda>bs. print (ht_override_text bs))),
      on_u32 as NL80211_ATTR_FEATURE_FLAGS (\<lambda>v. print (features_text v)),
      says NL80211_ATTR_TDLS_SUPPORT ''Device supports T-DLS.'',
      on_attr as NL80211_ATTR_COALESCE_RULE (\<lambda>a.
        then_p (print (line (tb @ ''Coalesce support:'')))
        (bind_p (nla_data (Some a)) (\<lambda>bs. if length bs < 24 then undef_p else print (coalesce_text bs))))])"

subsection \<open>The commands\<close>

text \<open>
  \<open>split\<close> is \<open>nl80211_has_split_wiphy\<close>.  The flags in the header of the message are a part of the outside: \<open>hdr\<close>.
\<close>

definition handle_info ::
  "'w netlink \<Rightarrow> (nat \<Rightarrow> string) \<Rightarrow> ('w, phy_static) cell \<Rightarrow> ('w, bool) cell \<Rightarrow> ('w, nat) cell \<Rightarrow> 'w iw_handler" where
  "handle_info E dbm st split hdr again msg argv idby = with_msg msg (\<lambda>msg.
     bind_p (again II_NONE [''features'', ''-q'']) (\<lambda>err.
     bind_p (get_var split) (\<lambda>has_split.
     if err = 0 \<and> has_split then
       bind_p (get_var hdr) (\<lambda>f.
       then_p (set_var hdr (f OR NLM_F_DUMP))
         (with_cb (print_phy dbm st)
           (case nla_put (n_fits E) (Nla_flag NL80211_ATTR_SPLIT_WIPHY_DUMP) msg of None \<Rightarrow> msg | Some m \<Rightarrow> m)))
     else with_cb (print_phy dbm st) msg)))"

definition handle_commands :: "'w iw_handler" where
  "handle_commands again msg argv idby = with_msg msg (\<lambda>msg.
     then_p (print (concat (map (\<lambda>i. line (fmt_d (int i) @ '' (0x'' @ fmt_x i @ ''): '' @ command_name i)) [1..<NL80211_CMD_MAX])))
       (result 2 msg))"

definition print_feature :: "('w, bool) cell \<Rightarrow> bool \<Rightarrow> 'w valid_cb" where
  "print_feature split verbose m u =
     on_u32 (rx_attrs m) NL80211_ATTR_PROTOCOL_FEATURES (\<lambda>feat.
       let say = (\<lambda>t. if verbose then print (line t) else ret ()) in
       then_p (say (''nl80211 features: 0x'' @ fmt_x feat))
       (if \<not> bit feat 0 then ret () else then_p (say (tb @ ''* split wiphy dump'')) (set_var split True)))"

definition handle_features :: "('w, bool) cell \<Rightarrow> 'w iw_handler" where
  "handle_features split again msg argv idby = with_msg msg (with_cb (print_feature split (take 1 argv \<noteq> [''-q''])))"

definition info_cmds ::
  "'w netlink \<Rightarrow> (nat \<Rightarrow> string) \<Rightarrow> ('w, phy_static) cell \<Rightarrow> ('w, bool) cell \<Rightarrow> ('w, nat) cell \<Rightarrow> 'w cmd list" where
  "info_cmds E dbm st split hdr =
     (let h = handle_info E dbm st split hdr in
     [(COMMAND [] ''info_phy'' ''info'' None 1 0 CIB_PHY h ''Show capabilities for the specified wireless device.'')\<lparr>c_parent := None\<rparr>,
      TOPLEVEL ''list'' None 1 NLM_F_DUMP CIB_NONE (Some h) ''List all wireless devices and their capabilities.'',
      (TOPLEVEL ''phy'' None 1 NLM_F_DUMP CIB_NONE (Some h) [])\<lparr>c_help := None\<rparr>,
      TOPLEVEL ''commands'' None 1 0 CIB_NONE (Some handle_commands) ''list all known commands and their decimal & hex value'',
      TOPLEVEL ''features'' (Some []) 95 0 CIB_NONE (Some (handle_features split)) []])"

subsection \<open>A device in several messages\<close>

text \<open>Pieces of the description of a device: frequencies, each piece with the number of their band.\<close>

type_synonym chunk = "nat \<times> nlattr list"

text \<open>A message that holds some of the pieces.\<close>

definition bands_msg :: "32 word \<Rightarrow> 8 word list \<Rightarrow> chunk list \<Rightarrow> rx_msg" where
  "bands_msg i name cs = \<lparr>rx_cmd = 3, rx_attrs = [At_u32 NL80211_ATTR_WIPHY i, At_bytes NL80211_ATTR_WIPHY_NAME name,
     At_nest NL80211_ATTR_WIPHY_BANDS (map (\<lambda>(b, fs). At_nest b [At_nest NL80211_BAND_ATTR_FREQS fs]) cs)]\<rparr>"

text \<open>The pieces of the same band that follow one another, joined.\<close>

fun join_bands :: "chunk list \<Rightarrow> chunk list" where
  "join_bands ((b, fs) # (c, gs) # cs) =
     (if b = c then join_bands ((b, fs @ gs) # cs) else (b, fs) # join_bands ((c, gs) # cs))"
| "join_bands cs = cs"

text \<open>What is printed of a message, of the head of a band and of a piece.\<close>

definition name_head :: "('w, phy_static) cell \<Rightarrow> 32 word \<Rightarrow> 8 word list \<Rightarrow> ('w, unit) iw" where
  "name_head st i name = print_phy_head st [At_u32 NL80211_ATTR_WIPHY i, At_bytes NL80211_ATTR_WIPHY_NAME name]"

definition band_head :: "('w, phy_static) cell \<Rightarrow> nat \<Rightarrow> ('w, unit) iw" where
  "band_head st b = then_p
     (bind_p (get_var st) (\<lambda>s. if last_band s = int b then ret ()
        else then_p (print (line (tb @ ''Band '' @ fmt_d (int b + 1) @ '':''))) (set_var st (s\<lparr>last_band := int b, band_had_freq := False\<rparr>))))
     (bind_p (get_var st) (\<lambda>s. if band_had_freq s then ret ()
        else then_p (print (line (tb @ tb @ ''Frequencies:''))) (set_var st (s\<lparr>band_had_freq := True\<rparr>))))"

definition print_chunk :: "(nat \<Rightarrow> string) \<Rightarrow> ('w, phy_static) cell \<Rightarrow> chunk \<Rightarrow> ('w, unit) iw" where
  "print_chunk dbm st c = (case c of (b, fs) \<Rightarrow> then_p (band_head st b) (for_p fs (print_freq dbm)))"

lemma then_p_ret_right [simp]: "then_p m (ret ()) = m"
  by (auto simp: fun_eq_iff then_p_def bind_p_def ret_def split: prod.splits sum.splits)

lemma then_p_assoc: "then_p (then_p l m) k = then_p l (then_p m k)"
  by (auto simp: fun_eq_iff then_p_def bind_p_def split: prod.splits sum.splits)

lemmas phy_attrs = NL80211_ATTR_WIPHY_def NL80211_ATTR_WIPHY_NAME_def NL80211_ATTR_WIPHY_BANDS_def NL80211_ATTR_MAX_NUM_SCAN_SSIDS_def
  NL80211_ATTR_MAX_SCAN_IE_LEN_def NL80211_ATTR_WIPHY_FRAG_THRESHOLD_def NL80211_ATTR_WIPHY_RTS_THRESHOLD_def
  NL80211_ATTR_WIPHY_RETRY_SHORT_def NL80211_ATTR_WIPHY_RETRY_LONG_def NL80211_ATTR_WIPHY_COVERAGE_CLASS_def NL80211_ATTR_CIPHER_SUITES_def
  NL80211_ATTR_WIPHY_ANTENNA_AVAIL_TX_def NL80211_ATTR_WIPHY_ANTENNA_AVAIL_RX_def NL80211_ATTR_WIPHY_ANTENNA_TX_def
  NL80211_ATTR_WIPHY_ANTENNA_RX_def NL80211_ATTR_SUPPORTED_IFTYPES_def NL80211_ATTR_SOFTWARE_IFTYPES_def
  NL80211_ATTR_INTERFACE_COMBINATIONS_def NL80211_ATTR_SUPPORTED_COMMANDS_def NL80211_ATTR_TX_FRAME_TYPES_def NL80211_ATTR_RX_FRAME_TYPES_def
  NL80211_ATTR_SUPPORT_IBSS_RSN_def NL80211_ATTR_WOWLAN_TRIGGERS_SUPPORTED_def NL80211_ATTR_ROAM_SUPPORT_def NL80211_ATTR_SUPPORT_AP_UAPSD_def
  NL80211_ATTR_HT_CAPABILITY_MASK_def NL80211_ATTR_FEATURE_FLAGS_def NL80211_ATTR_TDLS_SUPPORT_def NL80211_ATTR_COALESCE_RULE_def

lemmas band_attrs = NL80211_BAND_ATTR_FREQS_def NL80211_BAND_ATTR_RATES_def NL80211_BAND_ATTR_HT_MCS_SET_def NL80211_BAND_ATTR_HT_CAPA_def
  NL80211_BAND_ATTR_HT_AMPDU_FACTOR_def NL80211_BAND_ATTR_HT_AMPDU_DENSITY_def NL80211_BAND_ATTR_VHT_MCS_SET_def NL80211_BAND_ATTR_VHT_CAPA_def

lemma for_p_map: "for_p (map f xs) g = for_p xs (\<lambda>x. g (f x))"
  by (induction xs) simp_all

lemma print_phy_bands: "print_phy dbm st (bands_msg i name cs) u = then_p (name_head st i name) (for_p cs (print_chunk dbm st))"
proof -
  have band: "print_band dbm st (At_nest b [At_nest NL80211_BAND_ATTR_FREQS fs]) = print_chunk dbm st (b, fs)" for b fs
    unfolding print_band_def nla_type.simps
    by (simp add: print_band_capa_def nla_gets on_defs nla_tb_def band_attrs print_chunk_def band_head_def then_p_assoc)
  have bands: "for_p (map (\<lambda>(b, fs). At_nest b [At_nest NL80211_BAND_ATTR_FREQS fs]) cs) (print_band dbm st) =
      for_p cs (print_chunk dbm st)"
    unfolding for_p_map by (rule arg_cong [where f = "for_p cs"]) (auto simp: fun_eq_iff band)
  have head: "print_phy_head st (rx_attrs (bands_msg i name cs)) = name_head st i name"
    by (simp add: print_phy_head_def on_attr_def nla_tb_def phy_attrs bands_msg_def name_head_def cong: if_cong)
  show ?thesis
    unfolding print_phy_def Let_def head
    by (simp add: bands_msg_def on_defs nla_tb_def nla_gets phy_attrs threshold_line_def print_retry_def print_antennas_def bands)
qed

lemma keeps_gets [keeps_rules]:
  "keeps I (nla_get_u32 a)" "keeps I (nla_nested a)"
  by (auto simp: nla_gets intro: keeps_rules split: option.splits nlattr.splits)

lemma keeps_on [keeps_rules]:
  "(\<And>v. keeps I (f v)) \<Longrightarrow> keeps I (on_u32 as n f)"
  unfolding on_u32_def on_attr_def by (intro keeps_rules)

lemma keeps_seq [keeps_rules]: "\<forall>p \<in> set ps. keeps I p \<Longrightarrow> keeps I (seq_p ps)"
  by (induction ps) (auto intro!: keeps_rules)

lemma keeps_print_freq: "keeps I (print_freq dbm a)"
  unfolding print_freq_def by (intro keeps_rules ballI) (auto intro!: keeps_rules)

text \<open>The state between two messages about the same band.\<close>

definition within_band :: "('w, phy_static) cell \<Rightarrow> 32 word \<Rightarrow> nat \<Rightarrow> 'w \<Rightarrow> bool" where
  "within_band st i b w \<longleftrightarrow> fst st w = \<lparr>phy_id = int (unat i), last_band = int b, band_had_freq = True\<rparr>"

text \<open>The static variables of the printer.\<close>

definition of_phy :: "('w, phy_static) cell \<Rightarrow> 32 word \<Rightarrow> 'w \<Rightarrow> bool" where
  "of_phy st i w \<longleftrightarrow> phy_id (fst st w) = int (unat i)"

lemma within_of_phy: "within_band st i b w \<Longrightarrow> of_phy st i w"
  by (simp add: within_band_def of_phy_def)

lemma then_p_after:
  assumes "wp m (\<lambda>_ t. P (world t)) (\<lambda>_ _. True) s" "\<And>t. P (world t) \<Longrightarrow> k t = k' t"
  shows "then_p m k s = then_p m k' s"
proof (cases "m s")
  case (Pair r t)
  show ?thesis
  proof (cases r)
    case (Inr x)
    then show ?thesis using Pair assms(2) wp_runD_ret [OF assms(1), of x t] by (simp add: then_p_def bind_p_def)
  qed (simp add: then_p_def bind_p_def Pair)
qed

locale phy_var = static_var st for st :: "('w, phy_static) cell"
begin

lemma name_head_ends: "wp (name_head st i name) (\<lambda>_ t. of_phy st i (world t)) (\<lambda>_ _. True) s"
  by (simp add: name_head_def print_phy_head_def on_defs nla_tb_def nla_gets phy_attrs wp_simps wp_get_var wp_set_var read_write of_phy_def)

lemma name_head_again: "of_phy st i (world s) \<Longrightarrow> name_head st i name s = (Inr (), s)"
proof -
  assume w: "of_phy st i (world s)"
  let ?p = "fst st (world s)"
  have p: "?p\<lparr>phy_id := uint i\<rparr> = ?p" using w by (simp add: of_phy_def)
  have g: "get_var st s = (Inr ?p, s)" by (simp add: get_var_def sys_def)
  have "set_var st (?p\<lparr>phy_id := uint i\<rparr>) s = (Inr (), s)"
    unfolding p using write_read [of "world s"] by (simp add: set_var_def sys_def)
  then show ?thesis using g w by (simp add: name_head_def print_phy_head_def nla_tb_def nla_gets phy_attrs bind_p_def ret_def of_phy_def)
qed

lemma band_head_ends: "of_phy st i (world s) \<Longrightarrow> wp (band_head st b) (\<lambda>_ t. within_band st i b (world t)) (\<lambda>_ _. True) s"
  by (auto simp: band_head_def wp_simps wp_get_var wp_set_var read_write write_write within_band_def of_phy_def)

lemma band_head_again: "within_band st i b (world s) \<Longrightarrow> band_head st b s = (Inr (), s)"
  by (simp add: band_head_def within_band_def then_p_def bind_p_def get_var_def sys_def ret_def)

lemma chunk_ends: "of_phy st i (world s) \<Longrightarrow> wp (print_chunk dbm st (b, fs)) (\<lambda>_ t. within_band st i b (world t)) (\<lambda>_ _. True) s"
proof -
  assume w: "of_phy st i (world s)"
  have "keeps (within_band st i b) (for_p fs (print_freq dbm))"
    by (induction fs) (auto intro!: keeps_rules keeps_print_freq)
  then show ?thesis
    unfolding print_chunk_def prod.case wp_then
    by (intro wp_mono [OF band_head_ends [OF w]] wp_mono [OF keeps_wp]) simp_all
qed

lemma chunk_of_phy: "of_phy st i (world s) \<Longrightarrow> wp (print_chunk dbm st c) (\<lambda>_ t. of_phy st i (world t)) (\<lambda>_ _. True) s"
  by (cases c, simp, rule wp_mono [OF chunk_ends]) (auto intro: within_of_phy)

lemma chunk_append:
  assumes "of_phy st i (world s)"
  shows "print_chunk dbm st (b, fs @ gs) s = then_p (print_chunk dbm st (b, fs)) (print_chunk dbm st (b, gs)) s"
proof -
  have "then_p (print_chunk dbm st (b, fs)) (print_chunk dbm st (b, gs)) s =
      then_p (print_chunk dbm st (b, fs)) (for_p gs (print_freq dbm)) s"
  proof (rule then_p_after [OF chunk_ends [OF assms]])
    fix t :: "('w, string) proc"
    assume "within_band st i b (world t)"
    from band_head_again [OF this] show "print_chunk dbm st (b, gs) t = for_p gs (print_freq dbm) t"
      by (simp add: print_chunk_def then_p_def bind_p_def)
  qed
  moreover have "(for_p (fs @ gs) (print_freq dbm) :: ('w, unit) iw) = then_p (for_p fs (print_freq dbm)) (for_p gs (print_freq dbm))"
    by (simp add: fun_eq_iff for_p_append)
  ultimately show ?thesis by (simp add: print_chunk_def then_p_assoc)
qed

lemma for_join:
  "of_phy st i (world s) \<Longrightarrow> for_p (join_bands cs) (print_chunk dbm st) s = for_p cs (print_chunk dbm st) s"
proof (induction cs arbitrary: s rule: join_bands.induct)
  case (1 b fs c gs cs)
  show ?case
  proof (cases "b = c")
    case True
    have "then_p (print_chunk dbm st (b, fs @ gs)) k s = then_p (then_p (print_chunk dbm st (b, fs)) (print_chunk dbm st (b, gs))) k s" for k
      by (simp add: then_p_def [of _ k] bind_p_def chunk_append [OF 1(3)])
    then show ?thesis using 1(1) [OF True 1(3)] True by (simp add: then_p_assoc)
  next
    case False
    then show ?thesis using then_p_after [OF chunk_of_phy [OF 1(3)] 1(2) [OF False]] by simp
  qed
qed simp_all

lemma split_bands:
  assumes "cs \<noteq> []"
  shows "for_p cs (\<lambda>c. print_phy dbm st (bands_msg i name [c]) ()) s = print_phy dbm st (bands_msg i name (join_bands cs)) () s"
proof -
  let ?h = "name_head st i name" and ?c = "print_chunk dbm st"
  have rest: "for_p cs (\<lambda>c. then_p ?h (?c c)) t = for_p cs ?c t" if "of_phy st i (world t)" for cs t
    using that
  proof (induction cs arbitrary: t)
    case (Cons c cs)
    have "then_p ?h k t = k t" for k :: "('w, unit) iw"
      using name_head_again [OF Cons.prems] by (simp add: then_p_def bind_p_def)
    then show ?case using then_p_after [OF chunk_of_phy [OF Cons.prems, of dbm c] Cons.IH] by (simp add: then_p_assoc)
  qed simp
  obtain c r where cs: "cs = c # r" using assms by (cases cs) auto
  have one: "wp (then_p ?h (?c c)) (\<lambda>_ t. of_phy st i (world t)) (\<lambda>_ _. True) s"
    unfolding wp_then by (intro wp_mono [OF name_head_ends] chunk_of_phy) simp_all
  have "for_p cs (\<lambda>c. then_p ?h (?c c)) s = then_p (then_p ?h (?c c)) (for_p r ?c) s"
    unfolding cs for_p.simps by (rule then_p_after [OF one rest])
  also have "\<dots> = then_p ?h (for_p cs ?c) s" by (simp add: cs then_p_assoc)
  also have "\<dots> = then_p ?h (for_p (join_bands cs) ?c) s"
    by (rule then_p_after [OF name_head_ends for_join [symmetric]])
  finally show ?thesis by (simp add: print_phy_bands)
qed

end

end
