(* ===== verification/Iw_Program.thy ===== *)
theory Iw_Program
  imports Iw_Mesh Iw_Coalesce Iw_Bitrate Iw_Link Iw_Info
begin

text \<open>
  The whole of \<open>iw\<close>: the static variables of its files, its table of commands in the order the \<open>Makefile\<close> links
  them, and the program over them.  The outside of the program is the kernel with \<open>libnl\<close> and these variables beside it.
\<close>

subsection \<open>Static variables\<close>

text \<open>
  \<open>st_link\<close> is \<open>lr\<close> of \<open>link.c\<close>, \<open>st_chain\<close> the buffer of \<open>get_chain_signal\<close>, \<open>st_phy\<close> the three of \<open>print_phy_handler\<close>, \<open>st_split\<close> is
  \<open>nl80211_has_split_wiphy\<close> and \<open>st_dev\<close> \<open>dev_dump_wiphy\<close>.  \<open>st_event\<close> is what the printer of events is given, and \<open>st_hdr\<close>
  what a handler adds to the flags in the header of its message.
\<close>

record statics =
  st_link :: link_result
  st_chain :: string
  st_phy :: phy_static
  st_split :: bool
  st_dev :: int
  st_event :: event_args
  st_hdr :: nat

definition init_statics :: statics where
  "init_statics = \<lparr>st_link = \<lparr>lr_bssid = replicate 6 0, link_found = False, anything_found = False\<rparr>, st_chain = [],
     st_phy = \<lparr>phy_id = -1, last_band = -1, band_had_freq = False\<rparr>, st_split = False, st_dev = 0,
     st_event = \<lparr>ts = 0, have_ts = False, ev_frame = False, ev_time = False, ev_reltime = False\<rparr>, st_hdr = 0\<rparr>"

type_synonym 'k iw_world = "statics \<times> 'k"

definition field :: "(statics \<Rightarrow> 'v) \<Rightarrow> (('v \<Rightarrow> 'v) \<Rightarrow> statics \<Rightarrow> statics) \<Rightarrow> ('k iw_world, 'v) cell" where
  "field get upd = (\<lambda>w. get (fst w), \<lambda>v w. (upd (\<lambda>_. v) (fst w), snd w))"

definition on_kernel :: "('k \<Rightarrow> 'a \<times> 'k) \<Rightarrow> 'k iw_world \<Rightarrow> 'a \<times> 'k iw_world" where
  "on_kernel f w = (case f (snd w) of (x, k) \<Rightarrow> (x, fst w, k))"

text \<open>\<open>libnl\<close> seen from the program; a message is sent with the flags its header has by then.\<close>

definition with_statics :: "'k netlink \<Rightarrow> 'k iw_world netlink" where
  "with_statics K = \<lparr>n_sock = on_kernel (n_sock K), n_connect = on_kernel (n_connect K), n_resolve = (\<lambda>f. on_kernel (n_resolve K f)),
     n_ifindex = (\<lambda>d. on_kernel (n_ifindex K d)), n_ifname = (\<lambda>i. on_kernel (n_ifname K i)), n_read = (\<lambda>f n. on_kernel (n_read K f n)),
     n_file = (\<lambda>f. on_kernel (n_file K f)), n_errno = on_kernel (n_errno K), n_alloc = on_kernel (n_alloc K), n_cbs = on_kernel (n_cbs K),
     n_calloc = (\<lambda>n. on_kernel (n_calloc K n)), n_join = (\<lambda>i. on_kernel (n_join K i)),
     n_send = (\<lambda>m w. on_kernel (n_send K (m\<lparr>tx_flags := or (tx_flags m) (st_hdr (fst w))\<rparr>)) ((fst w)\<lparr>st_hdr := 0\<rparr>, snd w)),
     n_recv = on_kernel (n_recv K), n_fits = n_fits K, n_strerror = n_strerror K\<rparr>"

subsection \<open>The commands\<close>

definition set_bitrates :: "'w netlink \<Rightarrow> (string \<Rightarrow> dbl \<times> string) \<Rightarrow> 'w iw_handler" where
  "set_bitrates E strtod again msg argv idby = with_msg msg (\<lambda>msg.
     case handle_bitrates strtod (n_fits E) argv msg of
       Inl Undefined \<Rightarrow> undef_p
     | Inl (Ret r) \<Rightarrow> result r msg
     | Inr msg \<Rightarrow> result 0 msg)"

definition bitrate_cmds :: "'w netlink \<Rightarrow> (string \<Rightarrow> dbl \<times> string) \<Rightarrow> 'w cmd list" where
  "bitrate_cmds E strtod =
     [COMMAND ''set'' ''set_bitrates'' ''bitrates'' (Some (''[legacy-<2.4|5> <legacy rate in Mbps>*] [ht-mcs-<2.4|5> <MCS index>*] '' @
        ''[vht-mcs-<2.4|5> <NSS:MCSx,MCSy... | NSS:MCSx-MCSy>*] [sgi-2.4|lgi-2.4] [sgi-5|lgi-5]'')) 57 0 CIB_NETDEV (set_bitrates E strtod)
        (line ''Sets up the specified rate masks.'' @ ''Not passing any arguments would clear the existing mask (if any).'')]"

text \<open>What the program has from outside besides \<open>libnl\<close>; \<open>hwsim\<close> says whether it was built with \<open>hwsim.c\<close>.\<close>

record 'k iw_env =
  ie_nl :: "'k netlink"
  ie_clock :: "'k \<Rightarrow> nat \<times> 'k"
  ie_calloc :: "nat \<Rightarrow> bool"
  ie_spare :: bool
  ie_nomem :: int
  ie_strtod :: "string \<Rightarrow> dbl \<times> string"
  ie_strtof :: "string \<Rightarrow> dbl \<times> string"
  ie_rnd :: "rat \<Rightarrow> rat"
  ie_dbm :: "nat \<Rightarrow> string"
  ie_hwsim :: bool

definition iw_event :: "'k iw_env \<Rightarrow> rx_msg \<Rightarrow> ('k iw_world, unit) iw" where
  "iw_event V = print_event (with_statics (ie_nl V)) (ie_spare V) (on_kernel (ie_clock V)) (field st_event st_event_update)"

definition iw_commands :: "'k iw_env \<Rightarrow> 'k iw_world cmd list" where
  "iw_commands V =
     (let E = with_statics (ie_nl V); strtof = ie_strtof V; rnd = ie_rnd V in
      [help_cmd] @
      [event_cmd E (ie_spare V) (on_kernel (ie_clock V)) (field st_event st_event_update)] @
      info_cmds E (ie_dbm V) (field st_phy st_phy_update) (field st_split st_split_update) (field st_hdr st_hdr_update) @
      phy_cmds E @
      interface_cmds E (field st_dev st_dev_update) strtof rnd @
      ibss_cmds E strtof rnd @
      station_cmds E (field st_chain st_chain_update) @
      survey_cmds E @
      mesh_cmds E (ie_nomem V) strtof rnd @
      mpath_cmds E @ mpp_cmds E @
      scan_cmds E (ie_calloc V) @
      reg_cmds E @
      connect_cmds E (iw_event V) @
      link_cmds E (field st_link st_link_update) @
      [offchannel_cmd E] @ ps_cmds E @ cqm_cmds E @
      bitrate_cmds E (ie_strtod V) @
      wowlan_cmds E (ie_calloc V) (ie_spare V) @
      coalesce_cmds E (ie_calloc V) @
      roc_cmds E @ p2p_cmds @ vendor_cmds E @
      [SECTION ''get'', SECTION ''set''] @
      (if ie_hwsim V then hwsim_cmds E else []))"

definition iw :: "'k iw_env \<Rightarrow> string \<Rightarrow> string list \<Rightarrow> ('k iw_world, int) iw" where
  "iw V argv0 argv = iw_main (with_statics (ie_nl V)) (iw_commands V) argv0 argv"

subsection \<open>Every command is found\<close>

text \<open>
  How the linker orders the entries is up to it.  What the choice of a command needs is that the words and the kind of
  device lead to one entry only; this is checked on the table by a number for each entry, and is enough in any order.
\<close>

type_synonym words = "string option \<times> string \<times> command_identify_by"

definition words :: "'w cmd \<Rightarrow> words" where
  "words c = (c_parent c, c_name c, c_idby c)"

definition hash :: "string \<Rightarrow> int" where
  "hash s = foldl (\<lambda>h c. h * 128 + of_char c) 0 s"

definition hash_words :: "words \<Rightarrow> int" where
  "hash_words k = (case k of (p, n, i) \<Rightarrow>
     (case p of None \<Rightarrow> 0 | Some s \<Rightarrow> hash s) + 8 * (hash n * 4 + (case i of CIB_NONE \<Rightarrow> 0 | CIB_PHY \<Rightarrow> 1 | CIB_NETDEV \<Rightarrow> 2 | CIB_WDEV \<Rightarrow> 3)))"

text \<open>Three entries have the same words, and a selector that takes one of them by the second argument.\<close>

definition setter :: words where
  "setter = (Some ''__section_station'', ''set'', CIB_NETDEV)"

definition plain_words :: "'w cmd list \<Rightarrow> words list" where
  "plain_words tbl = map words (filter (\<lambda>c. c_selector c = None) tbl)"

definition clear_words :: "words list \<Rightarrow> bool" where
  "clear_words K \<longleftrightarrow> distinct (map hash_words (setter # K))"

lemma clear_words_prefix: "clear_words (K @ L) \<Longrightarrow> clear_words K"
  by (simp add: clear_words_def)

lemma plain_words_append: "plain_words (as @ bs) = plain_words as @ plain_words bs"
  by (simp add: plain_words_def)

lemma plain_words_simps:
  "plain_words [] = []" "plain_words (SECTION n # tbl) = (None, n, CIB_NONE) # plain_words tbl"
  "plain_words (TOPLEVEL n args cmd flags idby oh help # tbl) = (None, n, idby) # plain_words tbl"
  "plain_words (COMMAND s y n args cmd flags idby h help # tbl) = (Some (''__section_'' @ s), n, idby) # plain_words tbl"
  "plain_words (HIDDEN s y n args cmd flags idby h # tbl) = (Some (''__section_'' @ s), n, idby) # plain_words tbl"
  "plain_words (c\<lparr>c_help := x\<rparr> # tbl) = plain_words (c # tbl)" "plain_words (c\<lparr>c_selector := Some z\<rparr> # tbl) = plain_words tbl"
  "plain_words ((COMMAND s y n args cmd flags idby h help)\<lparr>c_parent := None\<rparr> # tbl) = (None, n, idby) # plain_words tbl"
  by (simp_all add: plain_words_def words_def SECTION_def TOPLEVEL_def COMMAND_def HIDDEN_def)


text \<open>The section or command of a word, when every other entry of that name is for another kind of device.\<close>

lemma find_section_any_order:
  fixes s :: "'w cmd"
  assumes s: "s \<in> set tbl" "c_parent s = None"
    and u: "\<And>d. d \<in> set tbl \<Longrightarrow> c_parent d = None \<Longrightarrow> c_name d = c_name s \<Longrightarrow> d = s \<or> c_idby d \<noteq> i \<and> c_idby s = i"
  shows "find_section tbl i (c_name s) = Some s"
proof -
  define f :: "'w cmd option \<Rightarrow> 'w cmd \<Rightarrow> 'w cmd option" where "f = (\<lambda>match d. if c_parent d \<noteq> None then match else if match \<noteq> None \<and> c_idby d \<noteq> i then match
    else if c_name d = c_name s then Some d else match)"
  have other: "f m d = m" if "c_parent d \<noteq> None \<or> c_name d \<noteq> c_name s" for m d using that by (auto simp: f_def)
  have first: "f None d = Some d" if "c_parent d = None" "c_name d = c_name s" for d using that by (simp add: f_def)
  have again: "f (Some e) d = (if c_idby d = i then Some d else Some e)" if "c_parent d = None" "c_name d = c_name s" for e d
    using that by (simp add: f_def)
  define ours where "ours d \<longleftrightarrow> d \<in> set tbl \<and> c_parent d = None \<and> c_name d = c_name s" for d :: "'w cmd"
  have u: "d = s \<or> c_idby d \<noteq> i \<and> c_idby s = i" if "ours d" for d using that u by (auto simp: ours_def)
  have "(s \<in> set xs \<longrightarrow> foldl f None xs = Some s) \<and> (\<forall>d. foldl f None xs = Some d \<longrightarrow> ours d)" if "set xs \<subseteq> set tbl" for xs
    using that
  proof (induction xs rule: rev_induct)
    case (snoc d xs)
    obtain m where m: "foldl f None xs = m" by simp
    have IH: "s \<in> set xs \<longrightarrow> m = Some s" "\<forall>d. m = Some d \<longrightarrow> ours d" using snoc m by simp_all
    have "(s \<in> set (xs @ [d]) \<longrightarrow> f m d = Some s) \<and> (\<forall>d'. f m d = Some d' \<longrightarrow> ours d')"
    proof (cases "ours d")
      case False
      then have "f m d = m" "s \<noteq> d" using snoc.prems s by (auto simp: ours_def other)
      then show ?thesis unfolding \<open>f m d = m\<close> using IH by auto
    next
      case True
      then have d: "c_parent d = None" "c_name d = c_name s" by (simp_all add: ours_def)
      show ?thesis
      proof (cases m)
        case None
        then have "s \<notin> set xs" using IH(1) by auto
        then show ?thesis using True by (simp add: None first [OF d])
      next
        case (Some e)
        then have "ours e" using IH(2) by simp
        show ?thesis
        proof (cases "c_idby d = i")
          case True
          then have "d = s" using u [OF \<open>ours d\<close>] by simp
          then show ?thesis using True \<open>ours d\<close> unfolding Some again [OF d] by simp
        next
          case False
          have "e = s" if "s \<in> set (xs @ [d])"
          proof (cases "s \<in> set xs")
            case True
            then show ?thesis using IH(1) Some by simp
          next
            case False
            then have "d = s" using that by simp
            then show ?thesis using u [OF \<open>ours e\<close>] \<open>c_idby d \<noteq> i\<close> by auto
          qed
          then show ?thesis using False \<open>ours e\<close> by (auto simp: Some again [OF d])
        qed
      qed
    qed
    then show ?case by (simp add: m)
  qed simp
  from this [of tbl] s(1) show ?thesis by (simp add: find_section_def f_def)
qed

lemma find_alone:
  assumes "c \<in> set tbl" "P c" "\<And>d. d \<in> set tbl \<Longrightarrow> P d \<Longrightarrow> d = c"
  shows "find P tbl = Some c"
proof (cases "find P tbl")
  case None
  then show ?thesis using assms(1,2) by (simp add: find_None_iff)
next
  case (Some d)
  then have "d \<in> set tbl" "P d" by (auto simp: find_Some_iff)
  with Some show ?thesis using assms(3) by simp
qed

text \<open>Every command belongs to a section, whose name opens it.\<close>

definition section_names :: "string list" where
  "section_names = [''set'', ''get'', ''interface'', ''ibss'', ''station'', ''survey'', ''mesh'', ''mpath'', ''mpp'', ''scan'', ''reg'', ''connect'',
     ''link'', ''cqm'', ''wowlan'', ''coalesce'', ''roc'', ''p2p'', ''vendor'']"

definition plain_entry :: "string list \<Rightarrow> 'w cmd \<Rightarrow> bool" where
  "plain_entry ns c \<longleftrightarrow>
     (case c_parent c of
        None \<Rightarrow> c_sym c = ''__section_'' @ c_name c \<or> c_sym c = ''__cmd_info_phy'' \<and> c_name c = ''info''
      | Some p \<Rightarrow> take 10 p = ''__section_'' \<and> drop 10 p \<in> set ns)"

definition names_distinct :: "string list \<Rightarrow> bool" where
  "names_distinct ns \<longleftrightarrow> distinct (map hash ns)"

lemma plain_macros:
  "plain_entry ns (SECTION n)" "plain_entry ns (TOPLEVEL n args cmd flags idby oh help)"
  "plain_entry ns (COMMAND s y n args cmd flags idby h help) \<longleftrightarrow> s \<in> set ns"
  "plain_entry ns (HIDDEN s y n args cmd flags idby h) \<longleftrightarrow> s \<in> set ns"
  "plain_entry ns (c\<lparr>c_help := x\<rparr>) = plain_entry ns c" "plain_entry ns (c\<lparr>c_selector := z\<rparr>) = plain_entry ns c"
  "plain_entry ns ((COMMAND s ''info_phy'' ''info'' args cmd flags idby h help)\<lparr>c_parent := None\<rparr>)"
  by (simp_all add: plain_entry_def SECTION_def TOPLEVEL_def COMMAND_def HIDDEN_def split: option.split)

lemma section_name:
  "''set'' \<in> set section_names" "''get'' \<in> set section_names" "''interface'' \<in> set section_names" "''ibss'' \<in> set section_names"
  "''station'' \<in> set section_names" "''survey'' \<in> set section_names" "''mesh'' \<in> set section_names" "''mpath'' \<in> set section_names"
  "''mpp'' \<in> set section_names" "''scan'' \<in> set section_names" "''reg'' \<in> set section_names" "''connect'' \<in> set section_names"
  "''link'' \<in> set section_names" "''cqm'' \<in> set section_names" "''wowlan'' \<in> set section_names" "''coalesce'' \<in> set section_names"
  "''roc'' \<in> set section_names" "''p2p'' \<in> set section_names" "''vendor'' \<in> set section_names"
  by (simp_all add: section_names_def)

lemmas entry_lists = info_cmds_def phy_cmds_def interface_cmds_def ibss_cmds_def station_cmds_def survey_cmds_def mesh_cmds_def
  mpath_cmds_def mpp_cmds_def scan_cmds_def reg_cmds_def connect_cmds_def link_cmds_def ps_cmds_def cqm_cmds_def bitrate_cmds_def
  wowlan_cmds_def coalesce_cmds_def roc_cmds_def p2p_cmds_def vendor_cmds_def hwsim_cmds_def offchannel_cmd_def event_cmd_def
  help_cmd_def disconnect_cmd_def connect_cmd_def establish_cmd_def auth_cmd_def Let_def

definition opened :: "'k iw_env \<Rightarrow> string list" where
  "opened V = section_names @ (if ie_hwsim V then [''hwsim''] else [])"

lemma iw_commands_plain: "list_all (plain_entry (opened V)) (iw_commands V)"
  by (simp add: iw_commands_def entry_lists plain_macros section_name opened_def)

lemma names_distinct_prefix: "names_distinct (ns @ ms) \<Longrightarrow> names_distinct ns"
  by (simp add: names_distinct_def)

lemma iw_commands_hwsim:
  "iw_commands (V\<lparr>ie_hwsim := True\<rparr>) = iw_commands V @ (if ie_hwsim V then [] else hwsim_cmds (with_statics (ie_nl V)))"
  by (simp add: iw_commands_def iw_event_def Let_def)

definition top_names :: "'w cmd list \<Rightarrow> string list" where
  "top_names tbl = map c_name (filter (\<lambda>c. c_parent c = None \<and> c_sym c \<noteq> ''__cmd_info_phy'') tbl)"

lemma top_names_simps:
  "top_names [] = []" "top_names (SECTION n # tbl) = n # top_names tbl" "top_names (TOPLEVEL n args cmd flags idby oh help # tbl) = n # top_names tbl"
  "top_names (COMMAND s y n args cmd flags idby h help # tbl) = top_names tbl" "top_names (HIDDEN s y n args cmd flags idby h # tbl) = top_names tbl"
  "top_names ((COMMAND s ''info_phy'' n args cmd flags idby h help)\<lparr>c_parent := None\<rparr> # tbl) = top_names tbl"
  "top_names (c\<lparr>c_help := x\<rparr> # tbl) = top_names (c # tbl)" "top_names (c\<lparr>c_selector := z\<rparr> # tbl) = top_names (c # tbl)"
  by (simp_all add: top_names_def SECTION_def TOPLEVEL_def COMMAND_def HIDDEN_def)

lemma top_names_append: "top_names (as @ bs) = top_names as @ top_names bs"
  by (simp add: top_names_def)

lemma iw_sections_distinct: "names_distinct (top_names (iw_commands V))"
proof -
  have "names_distinct (top_names (iw_commands (V\<lparr>ie_hwsim := True\<rparr>)))"
    by (simp add: iw_commands_def entry_lists top_names_simps) code_simp
  then show ?thesis unfolding iw_commands_hwsim top_names_append by (rule names_distinct_prefix)
qed

lemma iw_commands_clear: "clear_words (plain_words (iw_commands V))"
proof -
  have "clear_words (plain_words (iw_commands (V\<lparr>ie_hwsim := True\<rparr>)))"
    by (simp add: iw_commands_def entry_lists plain_words_simps) code_simp
  then show ?thesis unfolding iw_commands_hwsim plain_words_append by (rule clear_words_prefix)
qed

lemma opened_top: "set (opened V) \<subseteq> set (top_names (iw_commands V))" "''info'' \<notin> set (opened V)"
  by (simp_all add: iw_commands_def entry_lists top_names_simps opened_def section_names_def)

text \<open>What was checked, for a table with the same entries in any order.\<close>

definition wdev_apart :: "'w cmd \<Rightarrow> bool" where
  "wdev_apart c \<longleftrightarrow> (c_idby c = CIB_WDEV) = (c_parent c = Some ''__section_p2p'') \<and> (c_selector c \<noteq> None \<longrightarrow> words c = setter)"

lemma wdev_apart_macros:
  "wdev_apart (SECTION n)" "idby \<noteq> CIB_WDEV \<Longrightarrow> wdev_apart (TOPLEVEL n args cmd flags idby oh help)"
  "wdev_apart (COMMAND s y n args cmd flags idby h help) \<longleftrightarrow> (idby = CIB_WDEV) = (s = ''p2p'')"
  "wdev_apart (HIDDEN s y n args cmd flags idby h) \<longleftrightarrow> (idby = CIB_WDEV) = (s = ''p2p'')"
  "wdev_apart (c\<lparr>c_help := x\<rparr>) = wdev_apart c"
  "wdev_apart ((COMMAND ''station'' y ''set'' args cmd flags CIB_NETDEV h help)\<lparr>c_selector := Some z\<rparr>)"
  "wdev_apart ((COMMAND s y n args cmd flags CIB_PHY h help)\<lparr>c_parent := None\<rparr>)"
  by (auto simp: wdev_apart_def words_def setter_def SECTION_def TOPLEVEL_def COMMAND_def HIDDEN_def)

lemma iw_commands_wdev: "list_all wdev_apart (iw_commands V)"
  by (simp add: iw_commands_def entry_lists wdev_apart_macros)

lemma words_unique:
  assumes t: "set tbl = set (iw_commands V)" and c: "c \<in> set tbl" "c_selector c = None" and d: "d \<in> set tbl" "words d = words c"
  shows "d = c"
proof -
  let ?F = "filter (\<lambda>c. c_selector c = None) (iw_commands V)"
  have dist: "distinct (map (hash_words \<circ> words) ?F)" "hash_words setter \<notin> set (map (hash_words \<circ> words) ?F)"
    using iw_commands_clear [of V] by (simp_all add: clear_words_def plain_words_def)
  have F: "c \<in> set ?F" using t c by simp
  have "c_selector d = None"
  proof (rule ccontr)
    assume "c_selector d \<noteq> None"
    then have "words d = setter" using iw_commands_wdev [of V] t d(1) by (auto simp: list_all_iff wdev_apart_def)
    then show False using F d(2) dist(2) by force
  qed
  then have "d \<in> set ?F" using t d(1) by simp
  with F d(2) dist(1) show ?thesis by (auto simp: distinct_map inj_on_def)
qed

lemma section_found:
  assumes t: "set tbl = set (iw_commands V)" and n: "n \<in> set (opened V)"
  shows "\<exists>s \<in> set tbl. c_sym s = ''__section_'' @ n \<and> find_section tbl i n = Some s"
proof -
  let ?P = "\<lambda>c. c_parent c = None \<and> c_sym c \<noteq> ''__cmd_info_phy''"
  have "n \<in> set (top_names (iw_commands V))" using opened_top(1) n by auto
  then obtain s where s: "s \<in> set tbl" "c_parent s = None" "c_sym s \<noteq> ''__cmd_info_phy''" "c_name s = n"
    using t by (auto simp: top_names_def)
  have plain: "plain_entry (opened V) d" if "d \<in> set tbl" for d using iw_commands_plain t that by (auto simp: list_all_iff)
  have "d = s" if d: "d \<in> set tbl" "c_parent d = None" "c_name d = c_name s" for d
  proof -
    have "c_name d \<noteq> ''info''" using d(3) s(4) n opened_top(2) [of V] by auto
    then have "c_sym d \<noteq> ''__cmd_info_phy''" using plain [OF d(1)] d(2) by (auto simp: plain_entry_def)
    moreover have "distinct (map (hash \<circ> c_name) (filter ?P (iw_commands V)))"
      using iw_sections_distinct [of V] by (simp add: names_distinct_def top_names_def)
    ultimately show ?thesis using s d t by (auto simp: distinct_map inj_on_def)
  qed
  then have "find_section tbl i (c_name s) = Some s" by (intro find_section_any_order [OF s(1,2)]) blast
  moreover have "c_sym s = ''__section_'' @ n" using plain [OF s(1)] s by (simp add: plain_entry_def)
  ultimately show ?thesis using s by blast
qed

lemma select_found:
  assumes "set tbl = set (iw_commands V)" "c \<in> set tbl" "c_handler c \<noteq> None" "c_selector c = None" "r = [] \<or> c_args c \<noteq> None"
  shows "case c_parent c of
      Some p \<Rightarrow> \<exists>sect. p = ''__section_'' @ sect \<and> select_cmd tbl (c_idby c) sect (c_name c # r) = Some (c, r)
    | None \<Rightarrow> (\<exists>d \<in> set tbl. r \<noteq> [] \<and> c_parent d = Some (c_sym c) \<and> c_name d = hd r) \<or>
        select_cmd tbl (c_idby c) (c_name c) r = Some (c, r)"
proof (cases "c_parent c")
  case None
  have "find_section tbl (c_idby c) (c_name c) = Some c"
  proof (rule find_section_any_order)
    fix d assume d: "d \<in> set tbl" "c_parent d = None" "c_name d = c_name c"
    show "d = c \<or> c_idby d \<noteq> c_idby c \<and> c_idby c = c_idby c"
      using words_unique [OF assms(1,2,4) d(1)] d None by (auto simp: words_def)
  qed (use assms None in simp_all)
  moreover have "find_command tbl (c_idby c) c r = None"
    if "\<not> (\<exists>d \<in> set tbl. r \<noteq> [] \<and> c_parent d = Some (c_sym c) \<and> c_name d = hd r)"
    using that by (auto simp: find_command_def find_None_iff split: list.splits)
  moreover have "\<not> (r \<noteq> [] \<and> c_args c = None)" using assms(5) by auto
  ultimately have "\<not> (\<exists>d \<in> set tbl. r \<noteq> [] \<and> c_parent d = Some (c_sym c) \<and> c_name d = hd r) \<Longrightarrow>
      select_cmd tbl (c_idby c) (c_name c) r = Some (c, r)"
    using assms(3,4) by (simp add: select_cmd_def pick_cmd_def idby_ok_def)
  then show ?thesis using None by auto
next
  case (Some p)
  have "plain_entry (opened V) c" "wdev_apart c" using iw_commands_plain iw_commands_wdev assms(1,2) by (auto simp: list_all_iff)
  then have p: "p = ''__section_'' @ drop 10 p" "drop 10 p \<in> set (opened V)"
    using Some append_take_drop_id [of 10 p] by (simp_all add: plain_entry_def)
  obtain s where s: "c_sym s = p" "find_section tbl (c_idby c) (drop 10 p) = Some s"
    using section_found [OF assms(1) p(2)] p(1) by metis
  have "find_command tbl (c_idby c) s (c_name c # r) = Some c"
    unfolding find_command_def list.case
  proof (rule find_alone)
    fix d assume d: "d \<in> set tbl" "c_handler d \<noteq> None \<and> c_parent d = Some (c_sym s) \<and> idby_ok (c_idby c) d \<and>
      c_name d = c_name c \<and> (r = [] \<or> c_args d \<noteq> None)"
    have "wdev_apart d" using iw_commands_wdev assms(1) d(1) by (auto simp: list_all_iff)
    then have "c_idby d = c_idby c" using d(2) \<open>wdev_apart c\<close> Some s(1) by (auto simp: wdev_apart_def idby_ok_def)
    then show "d = c" using words_unique [OF assms(1,2,4) d(1)] d(2) Some s(1) by (simp add: words_def)
  qed (use assms Some s in \<open>simp_all add: idby_ok_def\<close>)
  then have "select_cmd tbl (c_idby c) (drop 10 p) (c_name c # r) = Some (c, r)"
    using s(2) assms(4) by (simp add: select_cmd_def pick_cmd_def)
  then show ?thesis using p(1) Some by auto
qed

text \<open>The three \<open>station set\<close> commands, and what the other entries are not.\<close>

definition other_entry :: "'w cmd \<Rightarrow> bool" where
  "other_entry c \<longleftrightarrow> c_selector c = None \<and> take 17 (c_sym c) \<noteq> ''__cmd_station_set''"

lemma other_entry_macros:
  "other_entry (SECTION n)" "other_entry (TOPLEVEL n args cmd flags idby oh help)"
  "other_entry (COMMAND s y n args cmd flags idby h help) \<longleftrightarrow> take 11 y \<noteq> ''station_set''"
  "other_entry (HIDDEN s y n args cmd flags idby h) \<longleftrightarrow> take 11 y \<noteq> ''station_set''"
  "other_entry (c\<lparr>c_help := x\<rparr>) = other_entry c" "other_entry (c\<lparr>c_parent := p\<rparr>) = other_entry c"
  by (auto simp: other_entry_def SECTION_def TOPLEVEL_def COMMAND_def HIDDEN_def)

lemma list_all_self: "list_all (\<lambda>c. c \<in> set xs \<or> P c) xs"
  by (simp add: list_all_iff)

definition station_entries :: "'k iw_env \<Rightarrow> 'k iw_world cmd list" where
  "station_entries V = station_cmds (with_statics (ie_nl V)) (field st_chain st_chain_update)"

lemma list_all_other: "list_all other_entry xs \<Longrightarrow> list_all (\<lambda>c. c \<in> S \<or> other_entry c) xs"
  by (simp add: list_all_iff)

lemma iw_commands_others: "list_all (\<lambda>c. c \<in> set (station_entries V) \<or> other_entry c) (iw_commands V)"
  unfolding iw_commands_def Let_def station_entries_def [symmetric] list_all_append
  apply (intro conjI list_all_self)
  apply (rule list_all_other, simp add: info_cmds_def phy_cmds_def interface_cmds_def ibss_cmds_def survey_cmds_def mesh_cmds_def
    mpath_cmds_def mpp_cmds_def scan_cmds_def reg_cmds_def connect_cmds_def link_cmds_def ps_cmds_def cqm_cmds_def bitrate_cmds_def
    wowlan_cmds_def coalesce_cmds_def roc_cmds_def p2p_cmds_def vendor_cmds_def hwsim_cmds_def offchannel_cmd_def event_cmd_def
    help_cmd_def disconnect_cmd_def connect_cmd_def establish_cmd_def auth_cmd_def Let_def other_entry_macros)+
  done

definition setter_ok :: "'w cmd \<Rightarrow> bool" where
  "setter_ok c \<longleftrightarrow> other_entry c \<or> c_selector c = Some select_station_cmd \<and> c_args c \<noteq> None \<and>
     words c = setter \<and> take 17 (c_sym c) = ''__cmd_station_set''"

lemma setter_ok_macros:
  "setter_ok (SECTION n)" "take 11 y \<noteq> ''station_set'' \<Longrightarrow> setter_ok (COMMAND s y n args cmd flags idby h help)"
  "take 11 y = ''station_set'' \<Longrightarrow> setter_ok ((COMMAND ''station'' y ''set'' (Some a) cmd flags CIB_NETDEV h help)\<lparr>c_selector := Some select_station_cmd\<rparr>)"
  by (simp_all add: setter_ok_def other_entry_def SECTION_def COMMAND_def words_def setter_def)

definition setter_syms :: "'w cmd list \<Rightarrow> string list" where
  "setter_syms tbl = map c_sym (filter (\<lambda>c. c_selector c \<noteq> None) tbl)"

lemma setter_syms_simps:
  "setter_syms [] = []" "setter_syms (SECTION n # tbl) = setter_syms tbl"
  "setter_syms (COMMAND s y n args cmd flags idby h help # tbl) = setter_syms tbl"
  "setter_syms ((COMMAND s y n args cmd flags idby h help)\<lparr>c_selector := Some z\<rparr> # tbl) = (''__cmd_'' @ y) # setter_syms tbl"
  by (simp_all add: setter_syms_def SECTION_def COMMAND_def)

lemma station_entries_ok: "list_all setter_ok (station_entries V)"
  by (simp add: station_entries_def station_cmds_def Let_def setter_ok_macros)

lemma station_entries_syms: "distinct (setter_syms (station_entries V))"
  by (simp add: station_entries_def station_cmds_def Let_def setter_syms_simps)

lemma setter_entry:
  assumes t: "set tbl = set (iw_commands V)" and c: "c \<in> set tbl" "c_selector c \<noteq> None"
  shows "c_selector c = Some select_station_cmd" "c_args c \<noteq> None" "words c = setter"
    "entry tbl (c_sym c) = Some c"
proof -
  have in_station: "d \<in> set (station_entries V)" if "d \<in> set tbl" "\<not> other_entry d" for d
    using iw_commands_others [of V] that t by (auto simp: list_all_iff)
  have c': "c \<in> set (station_entries V)" using in_station [OF c(1)] c(2) by (simp add: other_entry_def)
  then have ok: "setter_ok c" using station_entries_ok by (auto simp: list_all_iff)
  then show "c_selector c = Some select_station_cmd" "c_args c \<noteq> None" "words c = setter"
    using c(2) by (auto simp: setter_ok_def other_entry_def)
  have "d = c" if d: "d \<in> set tbl" "c_sym d = c_sym c" for d
  proof -
    have n: "\<not> other_entry d" using ok c(2) d(2) by (auto simp: setter_ok_def other_entry_def)
    then have d': "d \<in> set (station_entries V)" using in_station d(1) by blast
    then have "c_selector d \<noteq> None" using n station_entries_ok [of V] by (auto simp: list_all_iff setter_ok_def)
    then show ?thesis using station_entries_syms [of V] c' c(2) d' d(2)
      by (auto simp: setter_syms_def distinct_map inj_on_def)
  qed
  then show "entry tbl (c_sym c) = Some c"
    unfolding entry_def using c(1) by (intro find_alone) auto
qed

lemma select_setter:
  assumes t: "set tbl = set (iw_commands V)" and c: "c \<in> set tbl" "c_selector c = Some sel" "sel r = Some (c_sym c)" "c_handler c \<noteq> None"
  shows "c_parent c = Some (''__section_'' @ ''station'') \<and>
    select_cmd tbl (c_idby c) ''station'' (c_name c # r) = Some (c, r)"
proof -
  have sel: "c_selector c \<noteq> None" using c(2) by simp
  note e = setter_entry [OF t c(1) sel]
  have w: "c_parent c = Some ''__section_station''" "c_name c = ''set''" "c_idby c = CIB_NETDEV"
    using e(3) by (simp_all add: words_def setter_def)
  have "''station'' \<in> set (opened V)" by (simp add: opened_def section_names_def)
  from section_found [OF t this, of CIB_NETDEV] obtain s where s: "c_sym s = ''__section_station''"
    "find_section tbl CIB_NETDEV ''station'' = Some s" by auto
  let ?P = "\<lambda>d. c_handler d \<noteq> None \<and> c_parent d = Some (c_sym s) \<and> idby_ok CIB_NETDEV d \<and>
    c_name d = ''set'' \<and> (r = [] \<or> c_args d \<noteq> None)"
  have "?P c" using e w s c(4) by (simp add: idby_ok_def)
  then obtain d where d: "find ?P tbl = Some d" using c(1) by (cases "find ?P tbl") (auto simp: find_None_iff)
  then have "d \<in> set tbl" "?P d" by (auto simp: find_Some_iff)
  then have wd: "words d = setter" using s by (auto simp: words_def setter_def idby_ok_def)
  have "c_selector d \<noteq> None"
  proof
    assume n: "c_selector d = None"
    have "c = d" using words_unique [OF t \<open>d \<in> set tbl\<close> n c(1)] wd e(3) by simp
    then show False using n sel by simp
  qed
  from setter_entry(1) [OF t \<open>d \<in> set tbl\<close> this] have "c_selector d = Some sel" using e(1) c(2) by simp
  moreover have "find_command tbl CIB_NETDEV s (''set'' # r) = Some d" using d by (simp add: find_command_def)
  ultimately show ?thesis using s(2) w c(3) e(4) by (simp add: select_cmd_def pick_cmd_def)
qed

text \<open>
  C9.  Whatever the order in which the linker put the entries of \<open>iw\<close>, the words of a command and its kind of device lead to this
  command, with the rest of the words as its arguments: \<open>select_cmd\<close> finds each command of a section under the name of the section and its own,
  and each command without a section under its name, unless the next word names a command that belongs to it.  A command that
  takes no arguments is found when no word is left.  The three \<open>station set\<close> commands share their words; each of them is found
  when the word behind the address is the one its selector looks for.
\<close>

theorem commands_found:
  assumes "set tbl = set (iw_commands V)" "c \<in> set tbl" "c_handler c \<noteq> None" "r = [] \<or> c_args c \<noteq> None"
    and "case c_selector c of None \<Rightarrow> True | Some sel \<Rightarrow> sel r = Some (c_sym c)"
  shows "case c_parent c of
      Some p \<Rightarrow> \<exists>sect. p = ''__section_'' @ sect \<and> select_cmd tbl (c_idby c) sect (c_name c # r) = Some (c, r)
    | None \<Rightarrow> (\<exists>d \<in> set tbl. r \<noteq> [] \<and> c_parent d = Some (c_sym c) \<and> c_name d = hd r) \<or>
        select_cmd tbl (c_idby c) (c_name c) r = Some (c, r)"
proof (cases "c_selector c")
  case None
  then show ?thesis using select_found [OF assms(1-3) _ assms(4)] by simp
next
  case (Some sel)
  then show ?thesis using select_setter [OF assms(1,2) Some] assms(3,5) by auto
qed

text \<open>An outside in which nothing answers.\<close>

definition null_env :: "unit iw_env" where
  "null_env = \<lparr>ie_nl = null_netlink, ie_clock = Pair 0, ie_calloc = (\<lambda>_. True), ie_spare = True, ie_nomem = 12,
     ie_strtod = (\<lambda>s. (NaN, s)), ie_strtof = (\<lambda>s. (NaN, s)), ie_rnd = id, ie_dbm = (\<lambda>_. []), ie_hwsim = True\<rparr>"

theorem commands_found_witness:
  "(\<exists>c. c_sym c = ''__cmd_survey_dump'' \<and> select_cmd (rev (iw_commands null_env)) CIB_NETDEV ''survey'' [''dump''] = Some (c, [])) \<and>
   (\<exists>c. c_sym c = ''__cmd_station_set_vlan'' \<and> select_cmd (rev (iw_commands null_env)) CIB_NETDEV ''station''
      [''set'', ''00:11:22:33:44:55'', ''vlan'', ''7''] = Some (c, [''00:11:22:33:44:55'', ''vlan'', ''7'']))"
proof -
  let ?c = "COMMAND ''survey'' ''survey_dump'' ''dump'' None 50 NLM_F_DUMP CIB_NETDEV (handle_survey_dump (with_statics (ie_nl null_env)))
    ''List all gathered channel survey data''"
  have "?c \<in> set (iw_commands null_env)" by (simp add: iw_commands_def survey_cmds_def Let_def)
  then have dump: "\<exists>c. c_sym c = ''__cmd_survey_dump'' \<and>
      select_cmd (rev (iw_commands null_env)) CIB_NETDEV ''survey'' [''dump''] = Some (c, [])"
    using commands_found [of "rev (iw_commands null_env)" null_env ?c "[]"] by (auto simp: COMMAND_def)
  let ?d = "(COMMAND ''station'' ''station_set_vlan'' ''set'' (Some ''<MAC address> vlan <ifindex>'') 18 0 CIB_NETDEV
    (handle_station_set_vlan (with_statics (ie_nl null_env))) ''Set an AP VLAN for this station.'')\<lparr>c_selector := Some select_station_cmd\<rparr>"
  have "?d \<in> set (iw_commands null_env)" by (simp add: iw_commands_def station_cmds_def Let_def)
  then have "\<exists>c. c_sym c = ''__cmd_station_set_vlan'' \<and> select_cmd (rev (iw_commands null_env)) CIB_NETDEV ''station''
      [''set'', ''00:11:22:33:44:55'', ''vlan'', ''7''] = Some (c, [''00:11:22:33:44:55'', ''vlan'', ''7''])"
    using commands_found [of "rev (iw_commands null_env)" null_env ?d "[''00:11:22:33:44:55'', ''vlan'', ''7'']"]
    by (auto simp: COMMAND_def select_station_cmd_def)
  then show ?thesis using dump by blast
qed

subsection \<open>The static variables are kept\<close>

interpretation link: link_var "field st_link st_link_update" "with_statics K" for K
  by unfold_locales (simp_all add: field_def with_statics_def on_kernel_def split_beta)

interpretation phy: phy_var "field st_phy st_phy_update"
  by unfold_locales (simp_all add: field_def)

text \<open>
  C21.  The frequencies of a device that the kernel describes in several messages are shown as if they came in one: whatever was
  printed before, messages with one piece each, a piece being some frequencies of a band, print what one message with all of them
  prints, the name of the device once, and the number of each band and the heading once for the pieces of it that follow one
  another.  The messages are about one device and hold nothing else; bitrates are not covered, their heading is printed for each
  message that has some.
\<close>

theorem split_phy:
  assumes "cs \<noteq> []"
  shows "for_p cs (\<lambda>c. print_phy dbm (field st_phy st_phy_update) (bands_msg i name [c]) ()) s =
    print_phy dbm (field st_phy st_phy_update) (bands_msg i name (join_bands cs)) () s"
  by (rule phy.split_bands [OF assms])

theorem split_phy_witness:
  "for_p [(0, [At_nest 0 [At_u32 NL80211_FREQUENCY_ATTR_FREQ 2412]]), (0, [At_nest 1 [At_u32 NL80211_FREQUENCY_ATTR_FREQ 2417]]),
      (1, [At_nest 0 [At_u32 NL80211_FREQUENCY_ATTR_FREQ 5180]])]
      (\<lambda>c. print_phy (\<lambda>_. []) (field st_phy st_phy_update) (bands_msg 0 [0x70, 0] [c]) ())
      \<lparr>world = (init_statics, ()), stdin = [], stdout = [], stderr = []\<rparr> =
    print_phy (\<lambda>_. []) (field st_phy st_phy_update)
      (bands_msg 0 [0x70, 0]
        [(0, [At_nest 0 [At_u32 NL80211_FREQUENCY_ATTR_FREQ 2412], At_nest 1 [At_u32 NL80211_FREQUENCY_ATTR_FREQ 2417]]),
         (1, [At_nest 0 [At_u32 NL80211_FREQUENCY_ATTR_FREQ 5180]])]) ()
      \<lparr>world = (init_statics, ()), stdin = [], stdout = [], stderr = []\<rparr>"
  by (subst split_phy) simp_all

subsection \<open>A command and its answers\<close>

text \<open>A kernel for one family of messages: what it answers is a function of the request.  \<open>sent\<close> is what it was sent so far.\<close>

definition live_kernel :: "'k netlink \<Rightarrow> ('k \<Rightarrow> tx_msg list) \<Rightarrow> int \<Rightarrow> (tx_msg \<Rightarrow> nl_event list) \<Rightarrow> bool" where
  "live_kernel K sent fam reply \<longleftrightarrow>
     (\<forall>w. fst (n_sock K w) \<and> sent (snd (n_sock K w)) = sent w) \<and>
     (\<forall>w. fst (n_connect K w) \<and> sent (snd (n_connect K w)) = sent w) \<and>
     (\<forall>w. fst (n_resolve K ''nl80211'' w) = fam \<and> sent (snd (n_resolve K ''nl80211'' w)) = sent w) \<and>
     (\<forall>w d. sent (snd (n_ifindex K d w)) = sent w) \<and>
     (\<forall>w i. sent (snd (n_ifname K i w)) = sent w) \<and>
     (\<forall>w. fst (n_alloc K w) \<and> sent (snd (n_alloc K w)) = sent w) \<and>
     (\<forall>w. fst (n_cbs K w) \<and> sent (snd (n_cbs K w)) = sent w) \<and>
     (\<forall>m. n_fits K m) \<and> 0 \<le> fam \<and>
     (\<forall>m w r w1 es w2. n_send K m w = (r, w1) \<longrightarrow> n_recv K w1 = (es, w2) \<longrightarrow> 0 \<le> r \<and> sent w2 = sent w @ [m] \<and> es = reply m)"

lemma statics_calls:
  "n_sock (with_statics K) w = (fst (n_sock K (snd w)), fst w, snd (n_sock K (snd w)))"
  "n_connect (with_statics K) w = (fst (n_connect K (snd w)), fst w, snd (n_connect K (snd w)))"
  "n_resolve (with_statics K) f w = (fst (n_resolve K f (snd w)), fst w, snd (n_resolve K f (snd w)))"
  "n_ifindex (with_statics K) d w = (fst (n_ifindex K d (snd w)), fst w, snd (n_ifindex K d (snd w)))"
  "n_ifname (with_statics K) i w = (fst (n_ifname K i (snd w)), fst w, snd (n_ifname K i (snd w)))"
  "n_alloc (with_statics K) w = (fst (n_alloc K (snd w)), fst w, snd (n_alloc K (snd w)))"
  "n_cbs (with_statics K) w = (fst (n_cbs K (snd w)), fst w, snd (n_cbs K (snd w)))"
  "n_recv (with_statics K) w = (fst (n_recv K (snd w)), fst w, snd (n_recv K (snd w)))"
  "n_fits (with_statics K) = n_fits K"
  by (simp_all add: with_statics_def on_kernel_def split_beta)

lemma kernel_calls:
  assumes "live_kernel K sent fam reply"
  shows "fst (n_sock K k)" "fst (n_connect K k)" "fst (n_resolve K ''nl80211'' k) = fam" "fst (n_alloc K k)" "fst (n_cbs K k)"
    "sent (snd (n_sock K k)) = sent k" "sent (snd (n_connect K k)) = sent k" "sent (snd (n_resolve K ''nl80211'' k)) = sent k"
    "sent (snd (n_ifindex K d k)) = sent k" "sent (snd (n_ifname K i k)) = sent k" "sent (snd (n_alloc K k)) = sent k"
    "sent (snd (n_cbs K k)) = sent k" "n_fits K msg" "0 \<le> fam"
  using assms unfolding live_kernel_def by blast+

text \<open>A command whose handler builds its message has it sent, and its callback is given the answers.\<close>

lemma run_cmd_exchange:
  assumes l: "live_kernel K sent fam reply" and c: "c_handler c = Some h" "c_cmd c \<noteq> 0"
    and h: "h again (Some dev) argv idby = ret (0, msg, cb)" and s: "st_hdr (fst (world s)) = 0"
    and run: "\<And>t. fst (world t) = fst (world s) \<Longrightarrow>
      sent (snd (world t)) = sent (snd (world s)) @ [\<lparr>tx_family = fam, tx_cmd = c_cmd c, tx_flags = c_flags c, tx_attrs = msg\<rparr>] \<Longrightarrow>
      same_io t s \<Longrightarrow>
      wp (run_events True cb (reply \<lparr>tx_family = fam, tx_cmd = c_cmd c, tx_flags = c_flags c, tx_attrs = msg\<rparr>) (1, ()))
        (\<lambda>y u. fst y \<le> 0 \<and> Q (fst y) u) X t"
  shows "wp (run_cmd again (with_statics K) fam c dev argv o_argv idby) Q X s"
proof -
  let ?m = "\<lparr>tx_family = fam, tx_cmd = c_cmd c, tx_flags = c_flags c, tx_attrs = msg\<rparr>"
  define k where "k = snd (n_cbs K (snd (n_alloc K (snd (world s)))))"
  obtain r k1 es k2 where x: "n_send K ?m k = (r, k1)" "n_recv K k1 = (es, k2)"
    by (cases "n_send K ?m k"; cases "n_recv K (snd (n_send K ?m k))") auto
  have y: "0 \<le> r" "sent k2 = sent k @ [?m]" "es = reply ?m" using l x unfolding live_kernel_def by blast+
  have st: "(fst (world s))\<lparr>st_hdr := 0\<rparr> = fst (world s)" using s by (cases "fst (world s)") simp
  have snd_: "n_send (with_statics K) ?m (fst (world s), k) = (r, fst (world s), k1)"
    using x(1) s st by (simp add: with_statics_def on_kernel_def)
  have "wp (run_events True cb es (1, ())) (\<lambda>y u. \<not> (case y of (err, a) \<Rightarrow> err > 0) \<and> Q (fst y) u) X
      (s\<lparr>world := (fst (world s), k2)\<rparr>)"
    unfolding y(3) by (rule wp_mono [OF run]) (auto simp: y(2) k_def kernel_calls [OF l] same_io_def)
  then have "wp (recv_loop (with_statics K) True cb ()) (\<lambda>y. Q (fst y)) X (s\<lparr>world := (fst (world s), k1)\<rparr>)"
    unfolding recv_loop_def by (intro wp_while_once) (simp_all add: wp_bind wp_sys statics_calls x(2))
  moreover have "put_all (n_fits K) dev [] = Inr dev"
    using put_all_fits [of "n_fits K" dev "[]"] kernel_calls(13) [OF l] by simp
  ultimately show ?thesis
    using c(2) y(1) snd_
    by (simp add: run_cmd_def c(1) wp_simps wp_sys statics_calls kernel_calls [OF l] h split_beta wp_ret_fun flip: k_def)
qed

lemma run_events_skip: "list_all (\<lambda>m. cb m a = ret a) ms \<Longrightarrow> run_events fin cb (map Valid ms @ es) (err, a) = run_events fin cb es (err, a)"
  by (induction ms) simp_all
subsection \<open>The link\<close>

lemma link_entries:
  assumes t: "set tbl = set (iw_commands V)"
  defines "E \<equiv> with_statics (ie_nl V)"
  shows "select_cmd tbl CIB_NETDEV ''link'' [] =
      Some (TOPLEVEL ''link'' None 0 0 CIB_NETDEV (Some (handle_link (field st_link st_link_update)))
        ''Print information about the current link, if any.'', [])"
    and "select_cmd tbl CIB_NETDEV ''link'' [''get_bss''] =
      Some (HIDDEN ''link'' ''link_get_bss'' ''get_bss'' None 32 NLM_F_DUMP CIB_NETDEV (handle_scan_for_link E (field st_link st_link_update)), [])"
    and "select_cmd tbl CIB_NETDEV ''link'' [''get_sta'', a] =
      Some (HIDDEN ''link'' ''link_get_sta'' ''get_sta'' (Some '''') 17 0 CIB_NETDEV (handle_link_sta E), [a])"
proof -
  have "set (link_cmds E (field st_link st_link_update)) \<subseteq> set tbl" by (auto simp: t iw_commands_def Let_def E_def)
  note in_tbl = this [unfolded link_cmds_def]
  let ?l = "TOPLEVEL ''link'' None 0 0 CIB_NETDEV (Some (handle_link (field st_link st_link_update))) ''Print information about the current link, if any.''"
  let ?b = "HIDDEN ''link'' ''link_get_bss'' ''get_bss'' None 32 NLM_F_DUMP CIB_NETDEV (handle_scan_for_link E (field st_link st_link_update))"
  let ?s = "HIDDEN ''link'' ''link_get_sta'' ''get_sta'' (Some '''') 17 0 CIB_NETDEV (handle_link_sta E)"
  show "select_cmd tbl CIB_NETDEV ''link'' [] = Some (?l, [])"
    using select_found [OF t, of ?l "[]"] in_tbl by (simp add: TOPLEVEL_def)
  show "select_cmd tbl CIB_NETDEV ''link'' [''get_bss''] = Some (?b, [])"
    using select_found [OF t, of ?b "[]"] in_tbl by (simp add: HIDDEN_def)
  show "select_cmd tbl CIB_NETDEV ''link'' [''get_sta'', a] = Some (?s, [a])"
    using select_found [OF t, of ?s "[a]"] in_tbl by (simp add: HIDDEN_def)
qed

text \<open>What a printer prints, whatever the state.\<close>

definition prints :: "('w, unit) iw \<Rightarrow> string \<Rightarrow> bool" where
  "prints p t \<longleftrightarrow> (\<forall>s. p s = (Inr (), s\<lparr>stdout := stdout s @ t\<rparr>))"

lemma wp_prints: "prints p t \<Longrightarrow> wp p Q X s = Q () (s\<lparr>stdout := stdout s @ t\<rparr>)"
  by (simp add: prints_def wp_def)

text \<open>The two requests of \<open>iw dev DEV link\<close>.\<close>

definition scan_dump :: "int \<Rightarrow> nat \<Rightarrow> tx_msg" where
  "scan_dump fam i = \<lparr>tx_family = fam, tx_cmd = 32, tx_flags = NLM_F_DUMP, tx_attrs = [Nla_u32 NL80211_ATTR_IFINDEX (word_of_nat i)]\<rparr>"

definition station_of :: "int \<Rightarrow> nat \<Rightarrow> 8 word list \<Rightarrow> tx_msg" where
  "station_of fam i b = \<lparr>tx_family = fam, tx_cmd = 17, tx_flags = 0,
     tx_attrs = [Nla_u32 NL80211_ATTR_IFINDEX (word_of_nat i), Nla_bytes NL80211_ATTR_MAC b]\<rparr>"

lemma hidden_simps:
  "c_handler (HIDDEN sec y w a c fl i h) = Some h" "c_cmd (HIDDEN sec y w a c fl i h) = c" "c_flags (HIDDEN sec y w a c fl i h) = fl"
  by (simp_all add: HIDDEN_def)

lemma handle_get_sta_wp:
  fixes K :: "'k netlink"
  assumes l: "live_kernel K sent fam reply" and t: "set tbl = set (iw_commands V)" "ie_nl V = K"
    and d: "\<And>w. fst (n_ifindex K dev w) = ifi" "0 < ifi" and b: "length b = ETH_ALEN"
    and r: "reply (station_of fam ifi b) = [Valid sm, Ack]" "prints (print_link_sta sm () :: ('k iw_world, unit) iw) txt"
    and s: "st_hdr (fst (world s)) = 0"
    and Q: "\<And>u. sent (snd (world u)) = sent (snd (world s)) @ [station_of fam ifi b] \<Longrightarrow> stdout u = stdout s @ txt \<Longrightarrow>
      stdin u = stdin s \<Longrightarrow> stderr u = stderr s \<Longrightarrow> Q 0 u"
  shows "wp (handle_cmd (Suc n) (with_statics K) fam tbl II_NETDEV [dev, ''link'', ''get_sta'', mac_addr_n2a b]) Q X s"
proof -
  have h: "handle_link_sta (with_statics K) again (Some m) [mac_addr_n2a b] idby =
      ret (0, m @ [Nla_bytes NL80211_ATTR_MAC b], print_link_sta)" for again m idby
    using b by (simp add: handle_link_sta_def get_by_mac_def with_msg_def mac_arg_def a2n_n2a put_fits statics_calls kernel_calls [OF l] with_cb_def)
  show ?thesis
    unfolding handle_cmd.simps handle_cmd_out_def identify_def
    using d(2) link_entries(3) [OF t(1), of "mac_addr_n2a b"]
    apply (simp add: wp_simps wp_sys statics_calls d(1) t(2))
    apply (rule run_cmd_exchange [OF l, where h = "handle_link_sta (with_statics K)", OF _ _ h])
       apply (simp_all add: hidden_simps s dev_attr_def)
    using r(1) apply (simp add: station_of_def [of fam ifi b, symmetric] wp_simps wp_prints [OF r(2)])
    apply (rule Q)
       apply (simp_all add: kernel_calls [OF l] same_io_def)
    done
qed
lemma handle_get_bss_wp:
  fixes K :: "'k netlink"
  assumes l: "live_kernel K sent fam reply" and t: "set tbl = set (iw_commands V)" "ie_nl V = K"
    and d: "\<And>w. fst (n_ifindex K dev w) = ifi" "0 < ifi" and b: "length b = ETH_ALEN"
    and r: "reply (scan_dump fam ifi) = map Valid xs @ Valid m # map Valid ys @ [Finish]" "list_all neighbour xs" "list_all neighbour ys"
    and m: "connected_to b i f ies m" "print_ies ies (int (length ies)) False PRINT_LINK = Some txt" "\<And>w. fst (n_ifname K (unat i) w) = Some name"
    and s: "st_hdr (fst (world s)) = 0" "length (lr_bssid (st_link (fst (world s)))) = 6"
    and Q: "\<And>u. fst (world u) = (fst (world s))\<lparr>st_link := \<lparr>lr_bssid = b, link_found = True, anything_found = True\<rparr>\<rparr> \<Longrightarrow>
      sent (snd (world u)) = sent (snd (world s)) @ [scan_dump fam ifi] \<Longrightarrow>
      stdout u = stdout s @ line (''Connected to '' @ mac_addr_n2a b @ '' (on '' @ name @ '')'') @ txt @ line (tb @ ''freq: '' @ fmt_du (unat f)) \<Longrightarrow>
      stdin u = stdin s \<Longrightarrow> stderr u = stderr s \<Longrightarrow> Q 0 u"
  shows "wp (handle_cmd (Suc n) (with_statics K) fam tbl II_NETDEV [dev, ''link'', ''get_bss'']) Q X s"
proof -
  let ?cb = "link_bss (with_statics K) (field st_link st_link_update)"
  have h: "handle_scan_for_link (with_statics K) (field st_link st_link_update) again (Some m) [] idby = ret (0, m, ?cb)" for again m idby
    by (simp add: handle_scan_for_link_def with_msg_def with_cb_def)
  have skip: "run_events True ?cb (map Valid zs @ es) (err, ()) = run_events True ?cb es (err, ())" if "list_all neighbour zs" for zs es err
    using that by (intro run_events_skip) (auto simp: list_all_iff link_bss_neighbour)
  have name: "fst (n_ifname (with_statics K) (unat i) w) = Some name" for w by (simp add: statics_calls m(3))
  have run: "wp (run_events True ?cb (reply (scan_dump fam ifi)) (1, ())) (\<lambda>y u. fst y \<le> 0 \<and> Q (fst y) u) X u"
    if u: "fst (world u) = fst (world s)" "sent (snd (world u)) = sent (snd (world s)) @ [scan_dump fam ifi]" "same_io u s" for u
  proof -
    have "length (lr_bssid (fst (field st_link st_link_update) (world u))) = 6" using s(2) u(1) by (simp add: field_def)
    note c = link.link_bss_connected [OF m(1) b m(2) name this]
    show ?thesis
      unfolding r(1) skip [OF r(2)] run_events.simps wp_bind c
      by (simp add: skip [OF r(3)] wp_simps, rule Q)
        (use u in \<open>simp_all add: field_def statics_calls kernel_calls [OF l] same_io_def\<close>)
  qed
  show ?thesis
    unfolding handle_cmd.simps handle_cmd_out_def identify_def
    using d(2) link_entries(2) [OF t(1)]
    by (simp add: wp_simps wp_sys statics_calls d(1) t(2))
      (rule run_cmd_exchange [OF l, where h = "handle_scan_for_link (with_statics K) (field st_link st_link_update)", OF _ _ h],
        simp_all add: hidden_simps s dev_attr_def wp_ret_fun scan_dump_def [of fam ifi, symmetric] run same_io_def kernel_calls [OF l])
qed
text \<open>
  C8.  \<open>iw dev DEV link\<close>, over the whole table of commands in whatever order it is linked: the first command asks the kernel for
  the networks it knows, keeps the address of the connected one in the static variable while the answers come in, and the second command asks for
  exactly the station with this address.  What is printed is the network, the elements it sent and the station the kernel answers with, and \<open>iw\<close> exits with 0.
\<close>

theorem link_shows_station:
  fixes K :: "'k netlink"
  assumes l: "live_kernel K sent fam reply" and t: "set tbl = set (iw_commands V)" "ie_nl V = K"
    and d: "\<And>w. fst (n_ifindex K dev w) = ifi" "0 < ifi" and b: "length b = ETH_ALEN"
    and r: "reply (scan_dump fam ifi) = map Valid xs @ Valid m # map Valid ys @ [Finish]" "list_all neighbour xs" "list_all neighbour ys"
    and m: "connected_to b i f ies m" "print_ies ies (int (length ies)) False PRINT_LINK = Some txt" "\<And>w. fst (n_ifname K (unat i) w) = Some name"
    and sta: "reply (station_of fam ifi b) = [Valid sm, Ack]" "prints (print_link_sta sm () :: ('k iw_world, unit) iw) sta"
    and s: "fst (world s) = init_statics"
  shows "wp (iw_main (with_statics K) tbl argv0 [''dev'', dev, ''link''])
    (\<lambda>r t. r = 0 \<and> sent (snd (world t)) = sent (snd (world s)) @ [scan_dump fam ifi, station_of fam ifi b] \<and>
       stdout t = stdout s @ line (''Connected to '' @ mac_addr_n2a b @ '' (on '' @ name @ '')'') @ txt @ line (tb @ ''freq: '' @ fmt_du (unat f)) @ sta \<and>
       stderr t = stderr s)
    (\<lambda>_ _. False) s"
proof -
  have top: "c_handler (TOPLEVEL n a c fl i oh hlp) = oh" "c_cmd (TOPLEVEL n a c fl i oh hlp) = c"
    for n a c fl i hlp and oh :: "'k iw_world iw_handler option"
    by (simp_all add: TOPLEVEL_def)
  have s0: "st_hdr init_statics = 0" "length (lr_bssid (st_link init_statics)) = 6" by (simp_all add: init_statics_def)
  have f: "\<not> fam < 0" using kernel_calls(14) [OF l] by simp
  have g: "wp (get_var (field st_link st_link_update)) Q X s = Q (st_link (fst (world s))) s" for Q X and s :: "('k iw_world, string) proc"
    by (subst link.wp_get_var) (simp add: field_def)
  show ?thesis
    unfolding iw_main_def nl80211_init_def device_words_def handle_cmd_out_def identify_def run_cmd_def One_nat_def
    using d(2) apply (simp add: wp_simps wp_sys statics_calls d(1) top f kernel_calls [OF l] t(2) link_entries(1) [OF t(1)] handle_link_def split_beta del: handle_cmd.simps)
    apply (rule handle_get_bss_wp [OF l t d b r m])
    apply (simp_all add: s s0 del: handle_cmd.simps)
    apply (simp add: wp_simps g del: handle_cmd.simps)
    apply (rule handle_get_sta_wp [OF l t d b sta])
    apply (simp_all add: s0)
    apply (simp add: wp_simps result_def kernel_calls [OF l])
    done
qed
text \<open>A kernel that keeps the requests, knows one neighbour and the network \<open>guest\<close>, and has a station for it.\<close>

definition guest_bssid :: "8 word list" where
  "guest_bssid = [0, 0x11, 0x22, 0x33, 0x44, 0x55]"

definition guest_ies :: "8 word list" where
  "guest_ies = [0, 5, 0x67, 0x75, 0x65, 0x73, 0x74]"

definition bss_msg :: "nlattr list \<Rightarrow> rx_msg" where
  "bss_msg bss = \<lparr>rx_cmd = 34, rx_attrs = [At_u32 NL80211_ATTR_IFINDEX 3, At_nest NL80211_ATTR_BSS bss]\<rparr>"

definition guest_msg :: rx_msg where
  "guest_msg = bss_msg [At_bytes NL80211_BSS_BSSID guest_bssid, At_u32 NL80211_BSS_FREQUENCY 2412,
     At_bytes NL80211_BSS_INFORMATION_ELEMENTS guest_ies, At_u32 NL80211_BSS_STATUS 1]"

definition neighbour_msg :: rx_msg where
  "neighbour_msg = bss_msg [At_bytes NL80211_BSS_BSSID [9, 9, 9, 9, 9, 9], At_u32 NL80211_BSS_FREQUENCY 2437]"

definition station_msg :: rx_msg where
  "station_msg = \<lparr>rx_cmd = 19, rx_attrs = [At_nest NL80211_ATTR_STA_INFO [At_u8 NL80211_STA_INFO_SIGNAL 0xc4]]\<rparr>"

definition guest_reply :: "tx_msg \<Rightarrow> nl_event list" where
  "guest_reply m = (if tx_cmd m = 32 then [Valid neighbour_msg, Valid guest_msg, Finish] else if tx_cmd m = 17 then [Valid station_msg, Ack] else [Ack])"

definition guest_kernel :: "tx_msg list netlink" where
  "guest_kernel = null_netlink\<lparr>n_ifindex := \<lambda>_. Pair 3, n_ifname := \<lambda>_. Pair (Some ''wlan0''), n_send := \<lambda>m w. (0, w @ [m]),
     n_recv := \<lambda>w. (if w = [] then [] else guest_reply (last w), w)\<rparr>"

lemma guest_kernel_live: "live_kernel guest_kernel (\<lambda>w. w) 28 guest_reply"
  by (simp add: live_kernel_def guest_kernel_def null_netlink_def)

definition guest_env :: "tx_msg list iw_env" where
  "guest_env = \<lparr>ie_nl = guest_kernel, ie_clock = Pair 0, ie_calloc = (\<lambda>_. True), ie_spare = True, ie_nomem = 12,
     ie_strtod = (\<lambda>s. (NaN, s)), ie_strtof = (\<lambda>s. (NaN, s)), ie_rnd = id, ie_dbm = (\<lambda>_. []), ie_hwsim = False\<rparr>"

lemmas bss_attrs = NL80211_ATTR_IFINDEX_def NL80211_ATTR_BSS_def NL80211_BSS_BSSID_def NL80211_BSS_FREQUENCY_def NL80211_BSS_STATUS_def
  NL80211_BSS_INFORMATION_ELEMENTS_def NL80211_BSS_TSF_def NL80211_BSS_BEACON_INTERVAL_def NL80211_BSS_CAPABILITY_def
  NL80211_BSS_SIGNAL_MBM_def NL80211_BSS_SIGNAL_UNSPEC_def

lemma guest_messages:
  "neighbour neighbour_msg" "connected_to guest_bssid 3 2412 guest_ies guest_msg"
  "prints (print_link_sta station_msg () :: ('w, unit) iw) (line (tb @ ''signal: -60 dBm''))"
proof -
  show "neighbour neighbour_msg" "connected_to guest_bssid 3 2412 guest_ies guest_msg"
    by (simp_all add: neighbour_def connected_to_def neighbour_msg_def guest_msg_def bss_msg_def nla_tb_def bss_attrs long_enough_def attr_fits_def
        link_policy_def guest_bssid_def)
  show "prints (print_link_sta station_msg () :: ('w, unit) iw) (line (tb @ ''signal: -60 dBm''))"
    by (simp add: prints_def print_link_sta_def station_msg_def nla_tb_def on_parsed_def nla_gets long_enough_def attr_fits_def link_stats_policy_def
        link_bytes_def on_defs s8_def fmt_nums print_def then_p_def bind_p_def ret_def NL80211_ATTR_STA_INFO_def NL80211_STA_INFO_SIGNAL_def
        NL80211_STA_INFO_INACTIVE_TIME_def NL80211_STA_INFO_RX_BYTES_def NL80211_STA_INFO_TX_BYTES_def NL80211_STA_INFO_RX_PACKETS_def
        NL80211_STA_INFO_TX_PACKETS_def NL80211_STA_INFO_TX_BITRATE_def NL80211_STA_INFO_LLID_def NL80211_STA_INFO_PLID_def
        NL80211_STA_INFO_PLINK_STATE_def NL80211_STA_INFO_BSS_PARAM_def)
qed

theorem link_shows_station_witness:
  "wp (iw guest_env ''iw'' [''dev'', ''wlan0'', ''link''])
    (\<lambda>r t. r = 0 \<and> snd (world t) = [scan_dump 28 3, station_of 28 3 [0, 0x11, 0x22, 0x33, 0x44, 0x55]] \<and>
       stdout t = line ''Connected to 00:11:22:33:44:55 (on wlan0)'' @ line (tb @ ''SSID: guest'') @ line (tb @ ''freq: 2412'') @
         line (tb @ ''signal: -60 dBm'') \<and> stderr t = [])
    (\<lambda>_ _. False) \<lparr>world = (init_statics, []), stdin = [], stdout = [], stderr = []\<rparr>"
proof -
  let ?s = "\<lparr>world = (init_statics, []), stdin = [], stdout = [], stderr = []\<rparr> :: (tx_msg list iw_world, string) proc"
  have x: "mac_addr_n2a guest_bssid = ''00:11:22:33:44:55''" "print_ies guest_ies (int (length guest_ies)) False PRINT_LINK = Some (line (tb @ ''SSID: guest''))"
    by code_simp+
  have d: "fmt_du 2412 = ''2412''" by (simp add: fmt_du_def to_int_def fmt_nums)
  have n: "fst (n_ifindex guest_kernel ''wlan0'' w) = 3" "fst (n_ifname guest_kernel (unat (3 :: 32 word)) w) = Some ''wlan0''" for w
    by (simp_all add: guest_kernel_def)
  have "guest_reply (scan_dump 28 3) = map Valid [neighbour_msg] @ Valid guest_msg # map Valid [] @ [Finish]"
      "guest_reply (station_of 28 3 guest_bssid) = [Valid station_msg, Ack]"
    by (simp_all add: guest_reply_def scan_dump_def station_of_def)
  from link_shows_station [OF guest_kernel_live refl _ n(1) _ _ this(1) _ _ guest_messages(2) x(2) n(2) this(2) guest_messages(3), of guest_env ?s "''iw''"]
  show ?thesis
    by (simp add: iw_def guest_env_def guest_messages(1) x(1) d) (simp add: guest_bssid_def ETH_ALEN_def)
qed

end
