(* ===== verification/Iw_Nested.thy ===== *)
theory Iw_Nested
  imports Iw_Program
begin

text \<open>
  The shape of the messages: whatever a command of \<open>iw\<close> puts into its message, the marks of the nested attributes
  match, so that the receiver sees a tree.  \<open>level\<close> follows the depth of the nesting through a message.
\<close>

subsection \<open>The depth of the nesting\<close>

fun level :: "nl_msg \<Rightarrow> nat \<Rightarrow> nat option" where
  "level [] n = Some n"
| "level (Nest_start k # m) n = level m (Suc n)"
| "level (Nest_end # m) n = (case n of 0 \<Rightarrow> None | Suc n \<Rightarrow> level m n)"
| "level (_ # m) n = level m n"

lemma level_eqs [simp]:
  "level [] = Some" "level (Nest_start k # m) = (\<lambda>n. level m (Suc n))"
  "level (Nest_end # m) = (\<lambda>n. case n of 0 \<Rightarrow> None | Suc n \<Rightarrow> level m n)"
  "level (Nla_flag i # m) = level m" "level (Nla_u8 i b # m) = level m" "level (Nla_u16 i h # m) = level m"
  "level (Nla_u32 i w # m) = level m" "level (Nla_u64 i d # m) = level m" "level (Nla_bytes i bs # m) = level m"
  by (rule ext, simp)+

declare level.simps [simp del]

lemma level_append [simp]: "level (a @ b) n = Option.bind (level a n) (level b)"
  by (induction a n rule: level.induct) (auto split: nat.splits)

text \<open>A message in which the marks match is a list of trees, written out.\<close>

lemma level_flat: "level (flat a) = Some"
proof (induction a)
  case (At_nest n as)
  have "level (concat (map flat as)) k = Some k" for k
    using At_nest by (induction as) auto
  then show ?case by auto
qed simp_all

lemma level_flats [simp]: "level (flats as) = Some"
  by (rule ext, induction as) (simp_all add: level_flat)

definition tree_rest :: "nl_msg \<Rightarrow> nat \<Rightarrow> bool" where
  "tree_rest m n \<longleftrightarrow> (\<exists>as bss. m = flats as @ concat (map (\<lambda>bs. Nest_end # flats bs) bss) \<and> length bss = n)"

lemma tree_rest_plain: "tree_rest m n \<Longrightarrow> tree_rest (flat a @ m) n"
  unfolding tree_rest_def by (elim exE conjE, rule_tac x = "a # as" in exI) auto

lemma tree_rest_nest: "tree_rest m (Suc n) \<Longrightarrow> tree_rest (Nest_start k # m) n"
proof -
  assume "tree_rest m (Suc n)"
  then obtain as bs bss where "m = flats as @ Nest_end # flats bs @ concat (map (\<lambda>bs. Nest_end # flats bs) bss)" "length bss = n"
    by (auto simp: tree_rest_def length_Suc_conv)
  then show ?thesis
    unfolding tree_rest_def by (intro exI [of _ "At_nest k as # bs"] exI [of _ bss]) (simp add: flat_nest del: flat.simps(7))
qed

lemma tree_rest_end: "tree_rest m n \<Longrightarrow> tree_rest (Nest_end # m) (Suc n)"
  unfolding tree_rest_def by (elim exE conjE, rule exI [of _ "[]"], rule_tac x = "as # bss" in exI) simp

lemma level_trees: "level m n = Some 0 \<Longrightarrow> tree_rest m n"
proof (induction m n rule: level.induct)
  case (1 n)
  then show ?case by (auto simp: tree_rest_def intro: exI [of _ "[]"])
next
  case (3 m n)
  then show ?case by (cases n) (auto intro: tree_rest_end)
qed (use tree_rest_plain [of _ _ "At_flag _"] tree_rest_plain [of _ _ "At_u8 _ _"] tree_rest_plain [of _ _ "At_u16 _ _"]
    tree_rest_plain [of _ _ "At_u32 _ _"] tree_rest_plain [of _ _ "At_u64 _ _"] tree_rest_plain [of _ _ "At_bytes _ _"]
    in \<open>auto intro: tree_rest_nest\<close>)

abbreviation lv :: "nl_msg \<Rightarrow> nat option" where
  "lv m \<equiv> level m 0"

lemma lv_trees: "lv m = Some 0 \<longleftrightarrow> (\<exists>as. m = flats as)"
  using level_trees [of m 0] by (auto simp: tree_rest_def)

subsection \<open>How a handler keeps it\<close>

definition nested :: "'w outcome \<Rightarrow> bool" where
  "nested m \<longleftrightarrow> gives UNIV m (\<lambda>(r, m, _). r = 0 \<longrightarrow> lv m = Some 0)"

lemma nested_result [intro!]: "(r = 0 \<Longrightarrow> lv msg = Some 0) \<Longrightarrow> nested (result r msg)"
  by (simp add: nested_def result_def gives_ret)

lemma nested_with_cb [intro!]: "lv msg = Some 0 \<Longrightarrow> nested (with_cb cb msg)"
  by (simp add: nested_def with_cb_def gives_ret)

lemma nested_undef [intro!]: "nested undef_p"
  by (simp add: nested_def gives_undef)

lemma nested_bind [intro!]: "(\<And>x. nested (k x)) \<Longrightarrow> nested (bind_p m k)"
  unfolding nested_def by (rule gives_bindP [OF gives_any])

lemma nested_then [intro!]: "nested k \<Longrightarrow> nested (then_p m k)"
  unfolding then_p_def by (rule nested_bind)

lemma nla_put_Some: "nla_put fits a msg = Some m \<Longrightarrow> m = msg @ [a]"
  by (auto simp: nla_put_def split: if_splits)

lemma nested_put [intro!]: "code \<noteq> 0 \<Longrightarrow> nested (k (msg @ as)) \<Longrightarrow> nested (put E code as msg k)"
  by (auto simp: put_def dest: put_all_Inr split: sum.splits)

lemma nested_with_msg [intro!]: "nested (k msg) \<Longrightarrow> nested (with_msg (Some msg) k)"
  by (simp add: with_msg_def)

lemma lv_put_nested [simp]: "lv inner = Some 0 \<Longrightarrow> lv (put_nested E n inner msg) = lv msg"
proof -
  have up: "level m (a + k) = Some (b + k)" if "level m a = Some b" for m a b k
    using that by (induction m a arbitrary: b rule: level.induct) (auto split: nat.splits)
  assume "lv inner = Some 0"
  from up [OF this, of "Suc _"] show ?thesis by (simp add: put_nested_def Let_def)
qed

lemmas codes = ENOBUFS_def ENOSPC_def ENOMEM_def EINVAL_def
lemmas case_splits = list.splits option.splits prod.splits sum.splits if_splits

subsection \<open>Shared arguments\<close>

lemma put_all_lv: "put_all fits as msg = Inr m \<Longrightarrow> lv m = Option.bind (lv msg) (level as)"
  by (drule put_all_Inr) simp

lemma nla_put_lv: "nla_put fits a msg = Some m \<Longrightarrow> lv m = Option.bind (lv msg) (level [a])"
  by (drule nla_put_Some) (simp del: level_eqs)

lemma nest_closed [simp]: "Option.bind (Option.bind x (\<lambda>n. Some (Suc n))) (case_nat None Some) = x"
  by (cases x) simp_all

lemma put_key_lv: "put_key fits i d f a msg = Inr (d', m) \<Longrightarrow> lv m = lv msg"
  by (auto simp: put_key_def Let_def dest!: put_all_lv nla_put_lv split: case_splits bind_splits)

lemma put_keys_lv: "put_keys fits i d as msg = Inr m \<Longrightarrow> lv m = lv msg"
  by (induction as arbitrary: i d msg) (auto dest: put_key_lv split: sum.splits)

lemma parse_keys_lv: "parse_keys fits argv msg = Inr m \<Longrightarrow> lv m = lv msg" "parse_keys fits argv msg \<noteq> Inl 0"
  by (auto simp: parse_keys_def key_code_def ENOBUFS_def dest!: put_all_lv put_keys_lv nla_put_lv split: case_splits key_error.splits)

lemma nested_take [intro!]:
  "(\<And>a m. lv m = lv msg \<Longrightarrow> nested (k a m)) \<Longrightarrow> nested (take_freq E argv msg k)"
  "(\<And>a m. lv m = lv msg \<Longrightarrow> nested (k a m)) \<Longrightarrow> nested (take_bssid E argv msg k)"
  "lv msg = Some 0 \<Longrightarrow> nested (take_keys E argv msg)"
  "c \<noteq> 0 \<Longrightarrow> (\<And>a m. lv m = lv msg \<Longrightarrow> nested (k a m)) \<Longrightarrow> nested (take_chanmode E c modes freq argv msg k)"
  "(\<And>a m. lv m = lv msg \<Longrightarrow> nested (k a m)) \<Longrightarrow> nested (take_fixed E argv msg k)"
  "c \<noteq> 0 \<Longrightarrow> (\<And>a m. lv m = lv msg \<Longrightarrow> nested (k a m)) \<Longrightarrow> nested (take_number E c w n argv msg k)"
  "c \<noteq> 0 \<Longrightarrow> (\<And>a m. lv m = lv msg \<Longrightarrow> nested (k a m)) \<Longrightarrow> nested (take_mcast E c strtof rnd argv msg k)"
  by (auto simp: take_freq_def take_bssid_def take_keys_def keys_result_def take_chanmode_def take_fixed_def take_number_def
      take_mcast_def codes parse_keys_lv(2) dest: parse_keys_lv(1) split: case_splits)

lemma basic_rates_error: "basic_rates strtof s rates \<noteq> Inl (Some 0)"
proof (induction strtof s rates rule: basic_rates.induct)
  case (1 strtof s rates)
  then show ?case by (subst basic_rates.simps) (auto split: case_splits)
qed

lemma nested_take_rates [intro!]:
  "c \<noteq> 0 \<Longrightarrow> (\<And>a m. lv m = lv msg \<Longrightarrow> nested (k a m)) \<Longrightarrow> nested (take_rates E c strtof argv msg k)"
  by (auto simp: take_rates_def basic_rates_error split: case_splits)

subsection \<open>The handlers\<close>

lemma nested_help: "nested (print_help again (Some msg) argv idby)"
  by (simp add: print_help_def nested_def gives_exit)

lemma nested_join:
  assumes "lv msg = Some 0"
  shows "nested (iw_conn E again (Some msg) argv idby)" "nested (no_change again (Some msg) argv idby)"
    "nested (iw_connect E pr again (Some msg) argv idby)" "nested (iw_auth E again (Some msg) argv idby)"
    "nested (join_ibss E strtof rnd again (Some msg) argv idby)"
  using assms
  by (auto simp: iw_conn_def no_change_def iw_connect_def iw_auth_def join_ibss_def codes Let_def split: case_splits)

lemma nested_number_arg [intro!]:
  "(\<And>a m. lv m = lv msg \<Longrightarrow> nested (k a m)) \<Longrightarrow> nested (number_arg E attr argv msg k)"
  by (auto simp: number_arg_def codes split: case_splits)

lemma nested_mac_arg [intro!]: "(\<And>mac. nested (k mac)) \<Longrightarrow> nested (mac_arg complaint a msg k)"
  by (auto simp: mac_arg_def split: prod.splits)

lemma nested_get_by_mac: "lv msg = Some 0 \<Longrightarrow> nested (get_by_mac E cb again (Some msg) argv idby)"
  by (auto simp: get_by_mac_def codes split: case_splits)

lemma nested_commands:
  assumes "lv msg = Some 0"
  shows "nested (roc_start E again (Some msg) argv idby)" "nested (offchannel E again (Some msg) argv idby)"
    "nested (iw_cqm_rssi E again (Some msg) argv idby)" "nested (set_power_save E again (Some msg) argv idby)"
    "nested (get_power_save again (Some msg) argv idby)" "nested (handle_vendor E again (Some msg) argv idby)"
    "nested (handle_mpath_get E again (Some msg) argv idby)" "nested (handle_mpath_set E again (Some msg) argv idby)"
    "nested (handle_mpath_dump E again (Some msg) argv idby)" "nested (handle_mpp_get E again (Some msg) argv idby)"
    "nested (handle_mpp_dump E again (Some msg) argv idby)"
  using assms
  by (auto simp: roc_start_def offchannel_def iw_cqm_rssi_def set_power_save_def get_power_save_def handle_vendor_def handle_mpath_get_def
      handle_mpath_set_def handle_mpath_dump_def handle_mpp_get_def handle_mpp_dump_def codes Let_def nested_get_by_mac
      dest!: put_all_lv nla_put_lv split: case_splits)

lemma level_put_fn [simp]: "level (nla_put_fn p n v # as) = level as"
  by (cases p) simp_all

lemma nested_set_params: "c \<noteq> 0 \<Longrightarrow> lv msg = Some 1 \<Longrightarrow> nested (set_params E c argv msg)"
  by (induction argv arbitrary: msg rule: length_induct)
    (case_tac xs; auto simp: set_param_def find_mesh_param_def split: case_splits)

lemma nested_meshparam: "c \<noteq> 0 \<Longrightarrow> lv msg = Some 0 \<Longrightarrow> nested (set_interface_meshparam E c again (Some msg) argv idby)"
  by (auto simp: set_interface_meshparam_def codes intro!: nested_set_params)

lemma nested_take_mesh [intro!]:
  "(\<And>f a m. lv m = lv msg \<Longrightarrow> nested (k f a m)) \<Longrightarrow> nested (take_mesh_freq E argv msg k)"
  "(\<And>a m. lv m = lv msg \<Longrightarrow> nested (k' a m)) \<Longrightarrow> nested (take_vendor_sync E argv msg k')"
  by (auto simp: take_mesh_freq_def take_vendor_sync_def codes split: case_splits)

lemma nested_mesh:
  assumes "lv msg = Some 0"
  shows "c \<noteq> 0 \<Longrightarrow> nested (join_mesh E c strtof rnd again (Some msg) argv idby)" "nested (leave_mesh again (Some msg) argv idby)"
    "nested (get_interface_meshparam again (Some msg) argv idby)"
  using assms
  by (auto simp: join_mesh_def leave_mesh_def get_interface_meshparam_def find_mesh_param_def codes Let_def intro!: nested_meshparam split: case_splits)

lemma mntr_loop_lv: "mntr_loop E argv flags = Inr m \<Longrightarrow> lv flags = Some 0 \<Longrightarrow> lv m = Some 0"
  by (induction argv arbitrary: flags) (auto dest!: nla_put_lv split: option.splits)

lemma nested_mntr [intro!]:
  "(\<And>e a. nested (fail e a)) \<Longrightarrow> (\<And>m. lv m = lv msg \<Longrightarrow> nested (k m)) \<Longrightarrow> nested (parse_mntr_flags E argv msg fail k)"
  by (auto simp: parse_mntr_flags_def dest: mntr_loop_lv split: case_splits)

lemma parse_4addr_lv: "parse_4addr_flag E v msg = Some m \<Longrightarrow> lv m = lv msg"
  by (auto simp: parse_4addr_flag_def dest!: nla_put_lv split: if_splits)

lemma nested_add_opts:
  "(\<And>i a m. lv m = lv msg \<Longrightarrow> nested (k i a m)) \<Longrightarrow> nested (add_opts E argv mac msg k)"
proof (induction argv arbitrary: mac rule: length_induct)
  case (1 argv)
  show ?case
  proof (cases argv)
    case (Cons w r)
    have ih: "nested (add_opts E r' (Some m) msg k)" if "r = a # r'" for a r' m
      using 1 Cons that by simp
    consider "w = ''mesh_id''" | "w = ''addr''" | "w = ''4addr''" | "w = ''flags''" | "w \<notin> {''mesh_id'', ''addr'', ''4addr'', ''flags''}"
      by blast
    then show ?thesis
    proof cases
      case 3
      then show ?thesis using 1(2) unfolding Cons add_opts.simps(2)
        by (auto dest!: parse_4addr_lv split: list.split option.split)
    qed (use 1(2) in \<open>auto simp: Cons intro!: ih split: list.split\<close>)
  qed (use 1 in simp)
qed

lemma nested_if_type [intro!]: "(\<And>t a. nested (k t a)) \<Longrightarrow> nested (get_if_type need argv msg k)"
  by (auto simp: get_if_type_def Let_def split: option.splits)

lemma nested_number_of [intro!]: "(\<And>v. nested (k v)) \<Longrightarrow> nested (number_of a msg k)"
  by (auto simp: number_of_def split: case_splits)

lemma nested_interface:
  assumes "lv msg = Some 0"
  shows "nested (handle_interface_add E again (Some msg) argv idby)" "nested (handle_interface_info again (Some msg) argv idby)"
    "nested (handle_dev_dump v again (Some msg) argv idby)" "nested (handle_interface_set E again (Some msg) argv idby)"
    "nested (handle_interface_meshid E again (Some msg) argv idby)" "nested (handle_interface_type E again (Some msg) argv idby)"
    "nested (handle_interface_4addr E again (Some msg) argv idby)" "nested (handle_interface_noack_map E again (Some msg) argv idby)"
    "nested (handle_interface_wds_peer E again (Some msg) argv idby)" "nested (set_mcast_rate E strtof rnd again (Some msg) argv idby)"
    using assms
    by (auto simp: handle_interface_add_def handle_interface_info_def handle_dev_dump_def handle_interface_set_def
        handle_interface_meshid_def handle_interface_type_def handle_interface_4addr_def handle_interface_noack_map_def
        handle_interface_wds_peer_def set_mcast_rate_def codes dest!: parse_4addr_lv intro!: nested_add_opts split: case_splits)

lemma retry_loop_error: "retry_loop st short long argv \<noteq> Inl 0"
proof (induction argv arbitrary: st short long)
  case (Cons w argv)
  then show ?case by (cases st; cases "strtoul w 10") (simp_all add: EINVAL_def Let_def)
qed simp

lemma nested_freqs: "lv msg = Some 0 \<Longrightarrow> nested (handle_freqs E argv msg)"
  by (auto simp: handle_freqs_def codes split: case_splits)

lemma nested_phy:
  assumes "lv msg = Some 0"
  shows "nested (handle_name E again (Some msg) argv idby)" "nested (handle_freqchan E chan again (Some msg) argv idby)"
    "nested (threshold E n again (Some msg) argv idby)" "nested (handle_retry E again (Some msg) argv idby)"
    "nested (handle_netns E again (Some msg) argv idby)" "nested (handle_coverage E again (Some msg) argv idby)"
    "nested (handle_distance E again (Some msg) argv idby)" "nested (handle_txpower E again (Some msg) argv idby)"
    "nested (handle_antenna E again (Some msg) argv idby)"
  using assms
  by (auto simp: handle_name_def handle_freqchan_def threshold_def handle_retry_def handle_netns_def handle_coverage_def
      handle_distance_def handle_txpower_def handle_antenna_def codes Let_def retry_loop_error intro!: nested_freqs split: case_splits)

definition plain :: "nla \<Rightarrow> bool" where
  "plain a \<longleftrightarrow> (\<forall>m. level (a # m) = level m)"

lemma nested_station_set:
  assumes "lv msg = Some 0" "\<And>v a. value v = Inr a \<Longrightarrow> plain a"
  shows "nested (station_set E w value again (Some msg) argv idby)"
  using assms by (auto simp: station_set_def codes plain_def split: case_splits)

lemma plain_values:
  "plink_value v = Inr a \<Longrightarrow> plain a" "vlan_value v = Inr a \<Longrightarrow> plain a" "power_mode_value v = Inr a \<Longrightarrow> plain a"
  by (auto simp: plink_value_def vlan_value_def power_mode_value_def plain_def split: case_splits)

lemma nested_station:
  assumes "lv msg = Some 0"
  shows "nested (handle_station_get E buf again (Some msg) argv idby)" "nested (handle_station_set_plink E again (Some msg) argv idby)"
    "nested (handle_station_set_vlan E again (Some msg) argv idby)" "nested (handle_station_set_mesh_power_mode E again (Some msg) argv idby)"
    "nested (handle_station_dump E buf again (Some msg) argv idby)" "nested (handle_survey_dump E again (Some msg) argv idby)"
  using assms
  by (auto simp: handle_station_get_def handle_station_set_plink_def handle_station_set_vlan_def handle_station_set_mesh_power_mode_def
      handle_station_dump_def handle_survey_dump_def intro!: nested_get_by_mac nested_station_set dest: plain_values)

lemma nested_if: "(b \<Longrightarrow> nested x) \<Longrightarrow> (\<not> b \<Longrightarrow> nested y) \<Longrightarrow> nested (if b then x else y)"
  by simp

lemma nested_case:
  "(o' = None \<Longrightarrow> nested x) \<Longrightarrow> (\<And>a. o' = Some a \<Longrightarrow> nested (f a)) \<Longrightarrow> nested (case o' of None \<Rightarrow> x | Some a \<Rightarrow> f a)"
  "(\<And>a. s' = Inl a \<Longrightarrow> nested (g a)) \<Longrightarrow> (\<And>b. s' = Inr b \<Longrightarrow> nested (h b)) \<Longrightarrow> nested (case s' of Inl a \<Rightarrow> g a | Inr b \<Rightarrow> h b)"
  "(\<And>a b. p = (a, b) \<Longrightarrow> nested (i a b)) \<Longrightarrow> nested (case p of (a, b) \<Rightarrow> i a b)"
  by (simp_all split: option.split sum.split prod.split)

lemmas nested_rules = nested_if nested_case nested_result nested_undef

lemma nested_random_mac: "lv msg = Some 0 \<Longrightarrow> (\<And>m. lv m = Some 0 \<Longrightarrow> nested (k m)) \<Longrightarrow> nested (parse_random_mac_addr E w msg k)"
  by (auto simp: parse_random_mac_addr_def codes split: case_splits)

definition scan_lists :: "scan_req \<Rightarrow> bool" where
  "scan_lists d \<longleftrightarrow> lv (sc_ssids d) = Some 0 \<and> lv (sc_freqs d) = Some 0"

lemma nested_scan_loop:
  assumes "scan_lists d" "lv msg = Some 0" "\<And>d m. scan_lists d \<Longrightarrow> lv m = Some 0 \<Longrightarrow> nested (k d m)"
  shows "nested (scan_loop E calloc st i d argv msg k)"
  using assms(1,2)
proof (induction "2 * length argv + (if st = SC_FREQ then 1 else 0 :: nat)" arbitrary: st i d argv msg rule: less_induct)
  case less
  show ?case
  proof (cases argv)
    case Nil
    then show ?thesis using assms(3) less.prems by (simp add: scan_loop.simps [of E calloc st i d "[]"])
  next
    case (Cons a r)
    have ih: "nested (scan_loop E calloc st' i' d' r m k)" if "scan_lists d'" "lv m = Some 0" for st' i' d' m
      by (rule less.hyps) (use that Cons in simp_all)
    have again: "nested (scan_loop E calloc SC_NONE i d (a # r) msg k)" if "st = SC_FREQ"
      using less.hyps [of "a # r" SC_NONE d msg i] that Cons less.prems by simp
    show ?thesis
    proof (cases st)
      case SC_NONE
      show ?thesis unfolding Cons SC_NONE using less.prems
        by (subst scan_loop.simps, unfold list.case scan_parse.case, intro nested_rules nested_random_mac ih) (simp_all add: scan_lists_def)
    next
      case SC_FREQ
      show ?thesis unfolding Cons SC_FREQ using less.prems
        by (subst scan_loop.simps, unfold list.case scan_parse.case, intro nested_rules ih again SC_FREQ) (auto simp: scan_lists_def dest: nla_put_lv)
    next
      case SC_IES
      show ?thesis unfolding Cons SC_IES using less.prems
        by (subst scan_loop.simps, unfold list.case scan_parse.case, intro nested_case ih) (auto simp: scan_lists_def split: hex_error.split)
    next
      case SC_SSID
      show ?thesis unfolding Cons SC_SSID using less.prems
        by (subst scan_loop.simps, unfold list.case scan_parse.case, intro nested_rules ih) (auto simp: scan_lists_def dest: nla_put_lv)
    next
      case SC_MESHID
      show ?thesis unfolding Cons SC_MESHID using less.prems
        by (subst scan_loop.simps, unfold list.case scan_parse.case, intro nested_rules ih) (simp_all add: scan_lists_def)
    next
      case SC_DONE
      show ?thesis unfolding Cons SC_DONE
        by (subst scan_loop.simps, unfold list.case scan_parse.case, intro nested_rules) simp
    qed
  qed
qed

lemma nested_scan:
  assumes "lv msg = Some 0"
  shows "nested (handle_scan E calloc again (Some msg) argv idby)" "nested (handle_scan_dump E again (Some msg) argv idby)"
    "nested (handle_scan_combined E again (Some msg) argv idby)"
proof -
  have "nested (scan_finish E calloc d m)" if "scan_lists d" "lv m = Some 0" for d m
    using that unfolding scan_finish_def Let_def
    by (intro nested_rules) (auto simp: scan_lists_def dest!: nla_put_lv split: if_splits)
  then show "nested (handle_scan E calloc again (Some msg) argv idby)"
    using assms by (auto simp: handle_scan_def codes scan_lists_def start_scan_def intro!: nested_scan_loop)
qed (use assms in \<open>auto simp: handle_scan_dump_def handle_scan_combined_def Let_def split: list.split\<close>)

lemma nested_link:
  assumes "lv msg = Some 0"
  shows "nested (handle_link lr again (Some msg) argv idby)" "nested (handle_link_sta E again (Some msg) argv idby)"
    "nested (handle_scan_for_link E lr again (Some msg) argv idby)"
  using assms
  by (auto simp: handle_link_def handle_link_sta_def handle_scan_for_link_def intro!: nested_get_by_mac split: list.split)

lemma nested_testdata: "lv msg = Some 0 \<Longrightarrow> level as = Some \<Longrightarrow> (\<And>m. lv m = Some 0 \<Longrightarrow> nested (k m)) \<Longrightarrow> nested (put_testdata E as msg k)"
  by (auto simp: put_testdata_def codes)

lemma nested_reg:
  assumes "lv msg = Some 0"
  shows "nested (handle_reg_set E again (Some msg) argv idby)" "nested (handle_reg_get again (Some msg) argv idby)"
    "nested (handle_reg_dump again (Some msg) argv idby)" "nested (handle_hwsim_getps E again (Some msg) argv idby)"
    "nested (handle_hwsim_setps E again (Some msg) argv idby)" "nested (hwsim_queues E c again (Some msg) argv idby)"
  using assms
  by (auto simp: handle_reg_set_def handle_reg_get_def handle_reg_dump_def handle_hwsim_getps_def handle_hwsim_setps_def hwsim_queues_def codes
      intro!: nested_testdata split: list.split prod.split)

lemma nested_info:
  assumes "lv msg = Some 0"
  shows "nested (print_events E spare clock args again (Some msg) argv idby)" "nested (handle_info E dbm st split hdr again (Some msg) argv idby)"
    "nested (handle_commands again (Some msg) argv idby)" "nested (handle_features split again (Some msg) argv idby)"
  using assms
  by (auto simp: print_events_def handle_info_def handle_commands_def handle_features_def dest!: nla_put_lv split: option.split)

lemma nested_nest_unchecked:
  assumes "\<And>m k. lv m = map_option Suc (lv msg) \<Longrightarrow> (\<And>m'. lv m' = lv m \<Longrightarrow> nested (k m')) \<Longrightarrow> nested (body m k)"
    "\<And>k. (\<And>m'. nested (k m')) \<Longrightarrow> nested (body msg k)" "\<And>m. lv m = lv msg \<Longrightarrow> nested (k m)"
  shows "nested (nest_unchecked E n msg body k)"
  unfolding nest_unchecked_def
proof (split option.split, intro conjI allI impI)
  fix m assume "nla_put (n_fits E) (Nest_start n) msg = Some m"
  then have "lv m = map_option Suc (lv msg)" by (cases "lv msg") (auto dest!: nla_put_lv)
  then show "nested (body m (\<lambda>m. k (m @ [Nest_end])))"
    by (rule assms(1)) (rule assms(3), cases "lv msg", auto simp: \<open>lv m = _\<close>)
qed (rule assms(2), rule nested_undef)

lemma level_pattern_attrs [simp]: "level (pattern_attrs p) = Some"
  by (simp add: pattern_attrs_def split: prod.split)

lemma nested_put_pattern: "(\<And>m. lv m = lv msg \<Longrightarrow> nested (k m)) \<Longrightarrow> nested (put_pattern E n p msg k)"
  unfolding put_pattern_def by (rule nested_nest_unchecked) (auto simp: codes)

lemma nested_co_patterns:
  "(\<And>n m. lv m = lv msg \<Longrightarrow> nested (k n m)) \<Longrightarrow> nested (co_patterns E calloc patnum s msg k)"
proof (induction E calloc patnum s msg k rule: co_patterns.induct)
  case (1 E calloc patnum s msg k)
  show ?case
    by (subst co_patterns.simps, intro nested_rules nested_put_pattern 1) (auto split: sum.split intro!: nested_put_pattern 1)
qed

lemma nested_co_loop:
  assumes "lv msg = Some (if st = PS_DELAY then 1 else 2)"
  shows "nested (co_loop E calloc first st rule_num patnum f msg)"
  using assms
proof (induction f arbitrary: first st rule_num patnum msg rule: measure_induct_rule [of length])
  case (less f)
  show ?case
  proof (cases "fgets CO_BUF f")
    case None
    then show ?thesis using less.prems by (subst co_loop.simps) auto
  next
    case (Some lf)
    then obtain l g where g: "fgets CO_BUF f = Some (l, g)" by (cases lf) auto
    then have "length g < length f" by (auto dest: fgets_progress simp: CO_BUF_def)
    note ih = less.IH [OF this]
    have "nested (co_delay E n b msg (co_loop E calloc False PS_CONDITION r p g))" if "st = PS_DELAY" for n b r p
      using less.prems that unfolding co_delay_def
      by (intro nested_rules nested_put ih) (auto simp: codes dest!: nla_put_lv)
    moreover have "nested (co_condition E b msg (co_loop E calloc False PS_PATTERNS r p g))" if "st = PS_CONDITION" for b r p
      using less.prems that unfolding co_condition_def
      by (intro nested_rules nested_put ih) (auto simp: codes)
    moreover have "nested (co_pattern_line E calloc p b msg (\<lambda>p. co_loop E calloc False PS_DELAY r p g))" if "st = PS_PATTERNS" for b r p
      using less.prems that unfolding co_pattern_line_def
      by (intro nested_rules nested_co_patterns ih) (auto dest!: nla_put_lv)
    ultimately show ?thesis
      by (subst co_loop.simps) (auto simp: g Let_def split: co_state.split)
  qed
qed

lemma nested_coalesce:
  assumes "lv msg = Some 0"
  shows "nested (handle_coalesce_enable E calloc again (Some msg) argv idby)" "nested (handle_coalesce_show again (Some msg) argv idby)"
  using assms
  by (auto simp: handle_coalesce_enable_def handle_coalesce_show_def codes intro!: nested_co_loop split: list.split option.split)

lemma band_attrs_level: "list_all plain (band_attrs r tx)"
  by (simp add: band_attrs_def plain_def)

lemma nla_tries_lv: "list_all plain as \<Longrightarrow> lv (foldl (\<lambda>m a. nla_try fits a m) msg as) = lv msg"
  by (induction as arbitrary: msg) (auto simp: nla_try_def plain_def dest!: nla_put_lv split: option.split)

lemma put_band_lv: "put_band fits b r tx msg = Some m \<Longrightarrow> lv m = lv msg"
  by (auto simp: put_band_def nla_tries_lv [OF band_attrs_level] dest!: nla_put_lv split: if_splits option.splits)

lemma br_step_error: "br_step strtod a st \<noteq> Inl (Ret 0)"
proof (cases "keyword_of a")
  case None
  show ?thesis unfolding br_step_def None option.case on_value_def Let_def
    by (cases "pstate st") (simp_all split: prod.split option.split)
next
  case (Some k)
  show ?thesis unfolding br_step_def Some option.case on_keyword_def by (cases k) simp_all
qed

lemma br_parse_error: "br_parse strtod argv st \<noteq> Inl (Ret 0)"
  by (induction argv arbitrary: st) (auto simp: br_step_error split: sum.split)

lemma handle_bitrates_lv: "handle_bitrates strtod fits argv msg = Inr m \<Longrightarrow> lv m = lv msg"
  by (auto simp: handle_bitrates_def dest!: nla_put_lv put_band_lv split: case_splits)

lemma handle_bitrates_error: "handle_bitrates strtod fits argv msg \<noteq> Inl (Ret 0)"
  unfolding handle_bitrates_def
  by (auto simp: br_parse_error codes split: sum.split option.split)

lemma nested_bitrates: "lv msg = Some 0 \<Longrightarrow> nested (set_bitrates E strtod again (Some msg) argv idby)"
  by (auto simp: set_bitrates_def handle_bitrates_error dest!: handle_bitrates_lv split: sum.split br_stop.split)

text \<open>
  \<open>wowlan\<close>: a detection of networks and a file of a connection leave 0 as the error code of what is behind them, so that
  the room for all that is put is needed.
\<close>

lemma nested_tcp_line:
  assumes "lv msg = Some n" "\<And>m. lv m = Some n \<Longrightarrow> nested (k m)"
  shows "nested (tcp_line E calloc buf msg k)"
proof -
  have h: "nested (hex_arg calloc s msg k')" if "\<And>bs. nested (k' bs)" for s k'
    using that by (auto simp: hex_arg_def split: sum.split hex_error.split)
  have "nested (tcp_source E s msg k)" "nested (tcp_dest E s msg k)" "nested (tcp_wake E calloc s msg k)" "nested (tcp_seq E s msg k)"
    "nested (tcp_tok E calloc s msg k)" for s
    using assms by (auto simp: tcp_source_def tcp_dest_def tcp_wake_def tcp_seq_def tcp_tok_def codes intro!: h
        split: option.split prod.split sum.split hex_error.split)
  then show ?thesis unfolding tcp_line_def
    using assms by (intro nested_if h nested_put nested_result) (simp_all add: codes)
qed

lemma nested_tcp_lines:
  assumes "lv msg = Some 2" "\<And>m. lv m = Some 1 \<Longrightarrow> nested (k m)"
  shows "nested (tcp_lines E calloc first f msg k)"
  using assms(1)
proof (induction f arbitrary: first msg rule: measure_induct_rule [of length])
  case (less f)
  have ih: "nested (tcp_lines E calloc b g m k)" if "fgets CO_BUF f = Some (l, g)" "lv m = Some 2" for b m l g
    by (rule less.IH) (use that in \<open>auto dest: fgets_progress simp: CO_BUF_def\<close>)
  show ?case
    using less.prems assms(2) by (subst tcp_lines.simps) (auto intro!: nested_tcp_line ih split: option.split)
qed

definition nd_ok :: "nat \<Rightarrow> int + string list \<times> nl_msg \<Rightarrow> bool" where
  "nd_ok n x = (case x of Inl e \<Rightarrow> e \<noteq> 0 | Inr (_, m) \<Rightarrow> lv m = Some n)"

lemma nd_ok_simps [simp]: "nd_ok n (Inl e) \<longleftrightarrow> e \<noteq> 0" "nd_ok n (Inr (a, m)) \<longleftrightarrow> lv m = Some n"
  by (simp_all add: nd_ok_def)

lemma nd_ok_rules:
  "(b \<Longrightarrow> nd_ok n x) \<Longrightarrow> (\<not> b \<Longrightarrow> nd_ok n y) \<Longrightarrow> nd_ok n (if b then x else y)"
  "(l = [] \<Longrightarrow> nd_ok n x) \<Longrightarrow> (\<And>a r. l = a # r \<Longrightarrow> nd_ok n (f a r)) \<Longrightarrow> nd_ok n (case l of [] \<Rightarrow> x | a # r \<Rightarrow> f a r)"
  "(\<And>a b. p = (a, b) \<Longrightarrow> nd_ok n (g a b)) \<Longrightarrow> nd_ok n (case p of (a, b) \<Rightarrow> g a b)"
  by (simp_all split: list.split prod.split)

lemma nd_loop_ok:
  assumes "\<And>m. n_fits E m" "lv (matchset d) = Some 0" "lv (freqs d) = Some 0" "lv msg = Some (Suc n)"
  shows "nd_ok n (nd_loop E st d argv msg)"
  using assms(2-)
proof (induction "2 * length argv + (if st = ND_TOPLEVEL then 0 else 1 :: nat)" arbitrary: st d argv msg rule: less_induct)
  case less
  show ?case
  proof (cases argv)
    case Nil
    then show ?thesis using less.prems by (subst nd_loop.simps) (simp add: Let_def)
  next
    case (Cons w r)
    have ih: "nd_ok n (nd_loop E st' d' r' m)"
      if "length r' \<le> length r" "lv (matchset d') = Some 0" "lv (freqs d') = Some 0" "lv m = Some (Suc n)" for st' d' r' m
      by (rule less.hyps) (use that Cons in simp_all)
    have top: "nd_ok n (nd_loop E ND_TOPLEVEL d (w # r) msg)" if "st \<noteq> ND_TOPLEVEL"
      using less.hyps [of "w # r" ND_TOPLEVEL d msg] that Cons less.prems by simp
    note fits = nla_put_fits [OF assms(1)]
    show ?thesis
    proof (cases st)
      case ND_TOPLEVEL
      show ?thesis using less.prems unfolding Cons ND_TOPLEVEL
        by (subst nd_loop.simps, unfold list.case nd_parse_state.case Let_def fits option.case, intro nd_ok_rules ih)
          (simp_all add: EINVAL_def)
    next
      case ND_MATCH
      show ?thesis using less.prems unfolding Cons ND_MATCH
        by (subst nd_loop.simps, unfold list.case nd_parse_state.case Let_def fits option.case, intro nd_ok_rules ih top)
          (simp_all add: EINVAL_def ND_MATCH)
    next
      case ND_FREQS
      show ?thesis using less.prems unfolding Cons ND_FREQS
        by (subst nd_loop.simps, unfold list.case nd_parse_state.case Let_def fits option.case, intro nd_ok_rules ih top)
          (simp_all add: EINVAL_def ND_FREQS)
    qed
  qed
qed

lemma nested_wow_loop:
  assumes "\<And>m. n_fits E m" "lv msg = Some 1" "\<And>ps. patterns = Some ps \<Longrightarrow> lv ps = Some 0"
  shows "nested (wow_loop E calloc err patnum patterns argv msg)"
  using assms(2,3)
proof (induction argv arbitrary: err patnum patterns msg rule: measure_induct_rule [of length])
  case (less argv)
  note fits = nla_put_fits [OF assms(1)] put_all_fits [OF assms(1)] put_fits [OF assms(1)]
  show ?case
  proof (cases argv)
    case Nil
    then show ?thesis using less.prems by (subst wow_loop.simps) (auto split: option.split)
  next
    case (Cons w r)
    have ih: "nested (wow_loop E calloc e p ps r' m)" if "length r' \<le> length r" "lv m = Some 1" "\<And>q. ps = Some q \<Longrightarrow> lv q = Some 0" for e p ps r' m
      by (rule less.IH) (use that Cons in simp_all)
    have nd: "nd_ok 1 (nd_loop E ND_TOPLEVEL start_nd r (msg @ [Nest_start k]))" for k
      using less.prems(1) by (intro nd_loop_ok [OF assms(1)]) (simp_all add: start_nd_def)
    have nd: "nd_loop E ND_TOPLEVEL start_nd r (msg @ [Nest_start k]) = Inl e \<Longrightarrow> e \<noteq> 0"
      "nd_loop E ND_TOPLEVEL start_nd r (msg @ [Nest_start k]) = Inr (a, m) \<Longrightarrow> lv m = Some 1 \<and> length a \<le> length r" for k e a m
      using nd [of k] by (auto dest: nd_loop_shorter)
    have tcp: "nested (wowlan_parse_tcp_file E calloc fn msg (wow_loop E calloc 0 p None r'))" if "length r' \<le> length r" for fn p r'
      using that less.prems(1) by (auto simp: wowlan_parse_tcp_file_def fits intro!: nested_tcp_lines ih split: option.split)
    show ?thesis
    proof (cases patterns)
      case None
      have r: "nested (case r of [] \<Rightarrow> result 1 msg | fn # r' \<Rightarrow> wowlan_parse_tcp_file E calloc fn msg (wow_loop E calloc 0 p None r'))" for p
        by (auto intro!: tcp split: list.split)
      show ?thesis unfolding Cons None
        by (subst wow_loop.simps, unfold list.case option.case, intro nested_rules nested_bind r, unfold fits option.case)
          (use less.prems in \<open>auto simp: codes intro!: ih dest: nd(1) dest!: nd(2)\<close>)
    next
      case (Some ps)
      show ?thesis unfolding Cons Some
        by (subst wow_loop.simps, unfold list.case option.case fits sum.case, intro nested_rules)
          (use less.prems Some in \<open>auto intro!: ih split: sum.split\<close>)
    qed
  qed
qed

lemma nested_wowlan:
  assumes "lv msg = Some 0"
  shows "(\<And>m. n_fits E m) \<Longrightarrow> nested (handle_wowlan_enable E calloc again (Some msg) argv idby)"
    "nested (handle_wowlan_show spare again (Some msg) argv idby)"
  using assms by (auto simp: handle_wowlan_enable_def handle_wowlan_show_def codes intro!: nested_wow_loop)

subsection \<open>Every command\<close>

definition nested_cmd :: "'w cmd \<Rightarrow> bool" where
  "nested_cmd c \<longleftrightarrow> (case c_handler c of None \<Rightarrow> True
     | Some h \<Rightarrow> \<forall>again msg argv idby. lv msg = Some 0 \<longrightarrow> nested (h again (Some msg) argv idby))"

lemma nested_cmd_macros [simp]:
  "nested_cmd (SECTION n)" "nested_cmd (TOPLEVEL n a c fl i None hlp)"
  "nested_cmd (TOPLEVEL n a c fl i (Some h) hlp) \<longleftrightarrow> (\<forall>again msg argv idby. lv msg = Some 0 \<longrightarrow> nested (h again (Some msg) argv idby))"
  "nested_cmd (COMMAND s sy n a c fl i h hlp) \<longleftrightarrow> (\<forall>again msg argv idby. lv msg = Some 0 \<longrightarrow> nested (h again (Some msg) argv idby))"
  "nested_cmd (HIDDEN s sy n a c fl i h) \<longleftrightarrow> (\<forall>again msg argv idby. lv msg = Some 0 \<longrightarrow> nested (h again (Some msg) argv idby))"
  "nested_cmd (d\<lparr>c_selector := sel\<rparr>) = nested_cmd d" "nested_cmd (d\<lparr>c_parent := p\<rparr>) = nested_cmd d" "nested_cmd (d\<lparr>c_help := t\<rparr>) = nested_cmd d"
  by (simp_all add: nested_cmd_def SECTION_def TOPLEVEL_def COMMAND_def HIDDEN_def)

lemmas nested_handlers = nested_help nested_join nested_commands nested_mesh nested_meshparam nested_interface nested_phy nested_station
  nested_scan nested_link nested_reg nested_info nested_coalesce nested_bitrates

lemma nested_lists:
  "list_all nested_cmd [help_cmd]" "list_all nested_cmd [event_cmd E spare clock args]" "list_all nested_cmd (info_cmds E dbm st split hdr)"
  "list_all nested_cmd (phy_cmds E)" "list_all nested_cmd (interface_cmds E v strtof rnd)" "list_all nested_cmd (ibss_cmds E strtof rnd)"
  "list_all nested_cmd (station_cmds E buf)" "list_all nested_cmd (survey_cmds E)" "nomem \<noteq> 0 \<Longrightarrow> list_all nested_cmd (mesh_cmds E nomem strtof rnd)"
  "list_all nested_cmd (mpath_cmds E)" "list_all nested_cmd (mpp_cmds E)" "list_all nested_cmd (scan_cmds E calloc)"
  "list_all nested_cmd (reg_cmds E)" "list_all nested_cmd (connect_cmds E pr)" "list_all nested_cmd (link_cmds E lr)"
  "list_all nested_cmd [offchannel_cmd E]" "list_all nested_cmd (ps_cmds E)" "list_all nested_cmd (cqm_cmds E)"
  "list_all nested_cmd (bitrate_cmds E strtod)" "list_all nested_cmd (coalesce_cmds E calloc)" "list_all nested_cmd (roc_cmds E)"
  "list_all nested_cmd p2p_cmds" "list_all nested_cmd (vendor_cmds E)" "list_all nested_cmd (hwsim_cmds E)"
  by (simp_all add: help_cmd_def event_cmd_def info_cmds_def phy_cmds_def interface_cmds_def ibss_cmds_def station_cmds_def survey_cmds_def
      mesh_cmds_def mpath_cmds_def mpp_cmds_def scan_cmds_def reg_cmds_def disconnect_cmd_def connect_cmd_def establish_cmd_def auth_cmd_def connect_cmds_def link_cmds_def offchannel_cmd_def ps_cmds_def
      cqm_cmds_def bitrate_cmds_def coalesce_cmds_def roc_cmds_def p2p_cmds_def vendor_cmds_def hwsim_cmds_def Let_def nested_handlers
      handle_hwsim_stop_queues_def handle_hwsim_wake_queues_def handle_freq_def handle_chan_def handle_fragmentation_def handle_rts_def)

lemma nested_wowlan_cmds:
  "list_all (\<lambda>c. (\<forall>m. n_fits E m) \<or> c_sym c \<noteq> ''__cmd_wowlan_enable'' \<longrightarrow> nested_cmd c) (wowlan_cmds E calloc spare)"
  by (auto simp: wowlan_cmds_def nested_wowlan nested_handlers) (simp_all add: COMMAND_def)

lemma nested_iw_commands:
  assumes "ie_nomem V \<noteq> 0" "c \<in> set (iw_commands V)" "(\<forall>m. n_fits (ie_nl V) m) \<or> c_sym c \<noteq> ''__cmd_wowlan_enable''"
  shows "nested_cmd c"
proof -
  have fits: "n_fits (with_statics (ie_nl V)) = n_fits (ie_nl V)" by (simp add: with_statics_def)
  have in_all: "list_all nested_cmd as \<Longrightarrow> c \<in> set as \<Longrightarrow> nested_cmd c" for as :: "'a iw_world cmd list"
    by (simp add: list_all_iff)
  have wow: "c \<in> set (wowlan_cmds (with_statics (ie_nl V)) calloc spare) \<Longrightarrow> nested_cmd c" for calloc spare
    using nested_wowlan_cmds [of "with_statics (ie_nl V)"] assms(3) by (auto simp: list_all_iff fits)
  have sections: "c \<in> set [SECTION ''get'', SECTION ''set''] \<Longrightarrow> nested_cmd c" by auto
  note lists = nested_lists [THEN in_all] wow sections
  show ?thesis
    using assms(1,2) unfolding iw_commands_def Let_def set_append Un_iff
    by (elim disjE) (simp_all only: lists split: if_splits, simp_all)
qed

text \<open>
  C10.  Every command of \<open>iw\<close> keeps its message a tree: given the list of attributes that the message begins with, a handler that
  returns 0, and so lets the message be sent, leaves a list of attributes written out, each nested one opened and closed, whatever the arguments,
  the files, the answers and the room in the message.  Only \<open>wowlan enable\<close> needs the room for all it puts, since a detection of
  networks or a file of a connection leaves 0 as its error code.
\<close>

theorem messages_well_nested:
  assumes "ie_nomem V \<noteq> 0" "c \<in> set (iw_commands V)" "c_handler c = Some h"
    and "(\<forall>m. n_fits (ie_nl V) m) \<or> c_sym c \<noteq> ''__cmd_wowlan_enable''"
  shows "gives UNIV (h again (Some (flats as)) argv idby) (\<lambda>(r, m, _). r = 0 \<longrightarrow> (\<exists>bs. m = flats bs))"
  using nested_iw_commands [OF assms(1,2,4)] assms(3)
  by (auto simp: nested_cmd_def nested_def lv_trees)

lemma establish_in_commands: "establish_cmd (with_statics (ie_nl V)) \<in> set (iw_commands V)"
  by (simp add: iw_commands_def connect_cmds_def Let_def)

theorem messages_well_nested_witness:
  "\<exists>bs t. iw_conn (with_statics null_netlink) (\<lambda>_ _. ret 0) (Some (flats [At_u32 3 7])) [''guest'', ''key'', ''d:0:abcde''] II_NETDEV
     \<lparr>world = (init_statics, ()), stdin = [], stdout = [], stderr = []\<rparr> = (Inr (0, flats bs, no_cb), t)"
proof -
  let ?E = "with_statics null_netlink :: unit iw_world netlink"
  let ?v = "[''guest'', ''key'', ''d:0:abcde'']"
  let ?s = "\<lparr>world = (init_statics, ()), stdin = [], stdout = [], stderr = []\<rparr> :: (unit iw_world, string) proc"
  have fits: "n_fits ?E m" for m by (simp add: with_statics_def null_netlink_def)
  have words: "strtoul ''key'' 10 = (0, ''key'')" "fst (mac_addr_a2n (replicate ETH_ALEN 0) ''key'') \<noteq> 0" by code_simp+
  have key: "\<exists>m'. parse_keys (n_fits ?E) [''d:0:abcde''] m = Inr m'" for m
    by (simp add: parse_keys_def nla_put_def fits put_key_def Let_def char_at_def isdigit_def key_data_def)
  obtain m' where m': "parse_keys (n_fits ?E) [''d:0:abcde''] [Nla_u32 3 7, Nla_bytes NL80211_ATTR_SSID (bytes_of ''guest'')] = Inr m'"
    using key by blast
  have run: "\<exists>m. iw_conn ?E (\<lambda>_ _. ret 0) (Some (flats [At_u32 3 7])) ?v II_NETDEV ?s = (Inr (0, m, no_cb), ?s)"
    using words m'
    by (auto simp: iw_conn_def with_msg_def put_fits [OF fits] take_freq_def take_bssid_def take_keys_def keys_result_def result_def ret_def
        split: prod.splits sum.splits)
  have "gives UNIV (iw_conn ?E (\<lambda>_ _. ret 0) (Some (flats [At_u32 3 7])) ?v II_NETDEV) (\<lambda>(r, m, _). r = 0 \<longrightarrow> (\<exists>bs. m = flats bs))"
    using establish_in_commands [of null_env]
    by (intro messages_well_nested [of null_env "establish_cmd ?E"])
      (simp_all add: null_env_def establish_cmd_def HIDDEN_def)
  with run show ?thesis by (auto simp: gives_def wp_def dest!: spec [of _ ?s])
qed

text \<open>
  Without the room: a flag that does not fit behind a detection of networks ends \<open>wowlan enable\<close> with 0, and the attribute with the triggers
  is never closed.
\<close>

lemma wowlan_unclosed:
  assumes "\<And>m. n_fits E m \<longleftrightarrow> length m \<le> 3"
  shows "wp (wow_loop E calloc (- ENOBUFS) 0 None [''net-detect'', ''interval'', ''10'', ''any''] [Nest_start NL80211_ATTR_WOWLAN_TRIGGERS])
    (\<lambda>(r, m, _) _. fst (n_alloc E (world s)) \<and> fst (n_alloc E (snd (n_alloc E (world s)))) \<longrightarrow> r = 0 \<and> lv m = Some 1) (\<lambda>_ _. False) s"
proof -
  have words: "strtoul ''10'' 10 = (10, [])" "map_of wow_flags ''net-detect'' = None" by code_simp+
  have any: "map_of wow_flags ''any'' = Some NL80211_WOWLAN_TRIG_ANY" by (simp add: wow_flags_def)
  show ?thesis
    by (subst wow_loop.simps) (simp add: words wp_simps nla_put_def assms nd_loop.simps [of E ND_TOPLEVEL] start_nd_def Let_def
        wow_loop.simps [of E calloc 0 0 None "[''any'']"] any put_def result_def wp_sys split_beta)
qed

end
