(* ===== verification/Sigma_Core.thy ===== *)
theory Sigma_Core
  imports CString "HOL-Library.Sublist"
begin

text \<open>
  The core of the test agent (\<open>wifi_tools/sigma_dut/sigma_dut.c\<close>): the table of commands, the
  responses, the parsing and dispatch of a command, the framing of the bytes of a connection into
  commands, and one turn of the loop over the connections.  A handler of a command is a function
  of the parameters, of the \<open>waiting_completion\<close> flag of the connection and of the rest of the
  agent's state; it gives its result, the responses it sent itself, and the flag and state it
  leaves.  The debug output (\<open>sigma_dut_print\<close>, \<open>sigma_dut_summary\<close> and the banners) is left out.
\<close>

subsection \<open>Commands and responses\<close>

definition MAX_PARAMS :: nat where "MAX_PARAMS = 100"
definition MAX_CMD_LEN :: nat where "MAX_CMD_LEN = 2048"
definition MAX_CONNECTIONS :: nat where "MAX_CONNECTIONS = 4"

text \<open>\<open>struct sigma_cmd\<close>: the parameters with their values, in order.\<close>

type_synonym sigma_cmd = "(string \<times> string) list"

definition get_param :: "sigma_cmd \<Rightarrow> string \<Rightarrow> string option" where
  "get_param cmd name =
     map_option snd (find (\<lambda>(p, v). strcasecmp_eq name p) cmd)"

datatype sigma_status = SIGMA_RUNNING | SIGMA_INVALID | SIGMA_ERROR | SIGMA_COMPLETE

definition status_text :: "sigma_status \<Rightarrow> string" where
  "status_text st =
     (case st of SIGMA_RUNNING \<Rightarrow> ''RUNNING,'' | SIGMA_INVALID \<Rightarrow> ''INVALID,''
      | SIGMA_ERROR \<Rightarrow> ''ERROR,'' | SIGMA_COMPLETE \<Rightarrow> ''COMPLETE,'')"

definition crlf :: string where
  "crlf = [CHR 0x0D, CHR 0x0A]"

text \<open>The bytes \<open>send_resp\<close> sends: without a text the comma behind the status is left out.\<close>

definition resp_text :: "sigma_status \<Rightarrow> string option \<Rightarrow> string" where
  "resp_text st buf =
     ''status,'' @ (case buf of Some t \<Rightarrow> status_text st @ t | None \<Rightarrow> butlast (status_text st)) @ crlf"

type_synonym 'x process = "sigma_cmd \<Rightarrow> bool \<Rightarrow> 'x \<Rightarrow> int \<times> string list \<times> bool \<times> 'x"

record 'x handler =
  h_cmd :: string
  h_validate :: "(sigma_cmd \<Rightarrow> int) option"
  h_process :: "'x process"

text \<open>
  The agent: its commands, the responses it sent with the socket each went to, the notes to
  \<open>wpa_supplicant\<close>, the \<open>waiting_completion\<close> flag of the connection in hand, and the rest of its
  state.
\<close>

record 'x dut =
  d_cmds :: "'x handler list"
  d_sent :: "(int \<times> string) list"
  d_notes :: "string list"
  d_waiting :: bool
  d_rest :: 'x

definition sigma_dut_reg_cmd ::
  "bool \<Rightarrow> string \<Rightarrow> (sigma_cmd \<Rightarrow> int) option \<Rightarrow> 'x process \<Rightarrow> 'x dut \<Rightarrow> int \<times> 'x dut" where
  "sigma_dut_reg_cmd malloc cmd validate process dut =
     (if \<not> malloc then (-1, dut)
      else (0, dut\<lparr>d_cmds := \<lparr>h_cmd = cmd, h_validate = validate, h_process = process\<rparr> # d_cmds dut\<rparr>))"

definition sigma_dut_unreg_cmds :: "'x dut \<Rightarrow> 'x dut" where
  "sigma_dut_unreg_cmds dut = dut\<lparr>d_cmds := []\<rparr>"

definition find_handler :: "string \<Rightarrow> 'x dut \<Rightarrow> 'x handler option" where
  "find_handler cmd dut = find (\<lambda>h. strcasecmp_eq cmd (h_cmd h)) (d_cmds dut)"

definition send_resp :: "int \<Rightarrow> sigma_status \<Rightarrow> string option \<Rightarrow> 'x dut \<Rightarrow> 'x dut" where
  "send_resp s st buf dut = dut\<lparr>d_sent := d_sent dut @ [(s, resp_text st buf)]\<rparr>"

subsection \<open>One command\<close>

text \<open>Blanks before the command and spaces behind it are dropped.\<close>

definition is_blank :: "char \<Rightarrow> bool" where
  "is_blank c \<longleftrightarrow> c = CHR 0x0D \<or> c = CHR 0x0A \<or> c = CHR 0x09 \<or> c = CHR '' ''"

definition trim :: "string \<Rightarrow> string" where
  "trim buf = rev (dropWhile (\<lambda>c. c = CHR '' '') (rev (dropWhile is_blank buf)))"

text \<open>
  The loop over \<open>param,value\<close> pairs; \<open>None\<close> is the jump to \<open>invalid_params\<close>.
\<close>

function parse_pairs :: "string \<Rightarrow> sigma_cmd \<Rightarrow> sigma_cmd option" where
  "parse_pairs pos c =
     (case split_at (CHR '','') pos of
        None \<Rightarrow> None
      | Some (p, r) \<Rightarrow>
          if length c = MAX_PARAMS then None
          else (case split_at (CHR '','') r of
            None \<Rightarrow> Some (c @ [(p, r)])
          | Some (v, pos) \<Rightarrow> parse_pairs pos (c @ [(p, v)])))"
  by pat_completeness auto

termination
proof (relation "measure (\<lambda>(pos, c). length pos)")
  fix pos c x p r y v pos'
  assume "split_at (CHR '','') pos = Some x" "(p, r) = x" "split_at (CHR '','') r = Some y" "(v, pos') = y"
  then show "((pos', c @ [(p, v)]), pos, c) \<in> measure (\<lambda>(pos, c). length pos)"
    using split_at_length [of _ pos p r] split_at_length [of _ r v pos'] by fastforce
qed simp

declare parse_pairs.simps [simp del]

text \<open>
  The command name and its parameters.  Of \<open>AccessPoint\<close> and \<open>PowerSwitch\<close> the first parameter
  stands alone: its value begins at the comma, which then becomes the end of both.
\<close>

definition parse_cmd :: "string \<Rightarrow> string \<times> sigma_cmd option" where
  "parse_cmd buf =
     (case split_at (CHR '','') buf of
        None \<Rightarrow> (buf, Some [])
      | Some (cmd, pos) \<Rightarrow>
          (cmd,
           if strcasecmp_eq cmd ''AccessPoint'' \<or> strcasecmp_eq cmd ''PowerSwitch'' then
             (case split_at (CHR '','') pos of
                None \<Rightarrow> None | Some (p, r) \<Rightarrow> parse_pairs r [(p, '''')])
           else parse_pairs pos []))"

definition unknown_command :: string where
  "unknown_command = ''errorCode,Unknown command''"

definition invalid_parameters :: string where
  "invalid_parameters = ''errorCode,Invalid parameters''"

definition final_resp :: "int \<Rightarrow> int \<Rightarrow> 'x dut \<Rightarrow> 'x dut" where
  "final_resp s res dut =
     (if res = -2 then send_resp s SIGMA_ERROR None dut
      else if res = -1 then send_resp s SIGMA_INVALID None dut
      else if res = 1 then send_resp s SIGMA_COMPLETE None dut
      else dut)"

definition run_handler :: "int \<Rightarrow> 'x handler \<Rightarrow> sigma_cmd \<Rightarrow> 'x dut \<Rightarrow> 'x dut" where
  "run_handler s h c dut =
     (let dut = send_resp s SIGMA_RUNNING None dut in
      case h_process h c (d_waiting dut) (d_rest dut) of (res, out, w, x) \<Rightarrow>
        final_resp s res
          (dut\<lparr>d_sent := d_sent dut @ map (Pair s) out, d_waiting := w, d_rest := x\<rparr>))"

text \<open>The note to \<open>wpa_supplicant\<close> is cut to the 199 characters of its buffer.\<close>

definition process_cmd :: "int \<Rightarrow> string \<Rightarrow> 'x dut \<Rightarrow> 'x dut" where
  "process_cmd s line dut =
     (let buf = trim line;
          dut = dut\<lparr>d_notes := d_notes dut @ [take 199 (''NOTE CAPI:'' @ buf)]\<rparr>
      in case parse_cmd buf of (cmd, params) \<Rightarrow>
         (case params of
            None \<Rightarrow> send_resp s SIGMA_INVALID (Some invalid_parameters) dut
          | Some c \<Rightarrow>
              (case find_handler cmd dut of
                 None \<Rightarrow> send_resp s SIGMA_INVALID (Some unknown_command) dut
               | Some h \<Rightarrow>
                   (case h_validate h of
                      None \<Rightarrow> run_handler s h c dut
                    | Some v \<Rightarrow>
                        if v c < 0 then send_resp s SIGMA_INVALID (Some invalid_parameters) dut
                        else run_handler s h c dut))))"

subsection \<open>Connections\<close>

definition is_eol :: "char \<Rightarrow> bool" where
  "is_eol c \<longleftrightarrow> c = CHR 0x0D \<or> c = CHR 0x0A"

text \<open>A connection: its socket (negative: none) and the bytes of its buffer up to \<open>pos\<close>.\<close>

record conn =
  c_sock :: int
  c_buf :: string
  c_waiting :: bool

definition BUF_SIZE :: nat where
  "BUF_SIZE = MAX_CMD_LEN + 5"

text \<open>
  The loop of \<open>process_conn\<close> on the bytes in the buffer: from \<open>pos\<close> on it looks for the end of a
  line; the line (up to a NUL byte in it) is a command, the ends of lines behind it are skipped,
  and the rest is moved to the front.  The result: the commands, and what stays in the buffer.
\<close>

function conn_loop :: "nat \<Rightarrow> string \<Rightarrow> string list \<times> string" where
  "conn_loop pos data =
     (let tail = drop pos data; n = length (takeWhile (\<lambda>c. \<not> is_eol c) tail) in
      if n = length tail then ([], if BUF_SIZE \<le> length data then [] else data)
      else (let line = take (pos + n) data;
                rest = dropWhile is_eol (drop (Suc (pos + n)) data)
            in case conn_loop 0 rest of (cs, left) \<Rightarrow>
                 (takeWhile (\<lambda>c. c \<noteq> NUL) line # cs, left)))"
  by pat_completeness auto

termination
proof (relation "measure (\<lambda>(pos, data). length data)")
  fix pos n :: nat and data tail line rest :: string
  assume t: "tail = drop pos data" "n = length (takeWhile (\<lambda>c. \<not> is_eol c) tail)" "n \<noteq> length tail"
    and r: "rest = dropWhile is_eol (drop (Suc (pos + n)) data)"
  have "n < length tail" using t(2,3) length_takeWhile_le [of "\<lambda>c. \<not> is_eol c" tail] by linarith
  then have "pos + n < length data" using t(1) by simp
  moreover have "length rest \<le> length (drop (Suc (pos + n)) data)" unfolding r by (rule length_dropWhile_le)
  ultimately show "((0, rest), (pos, data)) \<in> measure (\<lambda>(pos, data). length data)" by simp
qed simp

declare conn_loop.simps [simp del]

text \<open>
  \<open>process_conn\<close>: \<open>recv\<close> is given the room left in the buffer.  \<open>None\<close> or no byte closes the
  connection; more bytes than the room would be stored behind the buffer (\<open>None\<close> as the result).
\<close>

definition close_conn :: "conn \<Rightarrow> conn" where
  "close_conn conn = conn\<lparr>c_sock := -1\<rparr>"

definition process_conn :: "string option \<Rightarrow> conn \<Rightarrow> 'x dut \<Rightarrow> (conn \<times> 'x dut) option" where
  "process_conn recv conn dut =
     (case recv of
        None \<Rightarrow> Some (close_conn conn, dut)
      | Some bytes \<Rightarrow>
          if bytes = [] then Some (close_conn conn, dut)
          else if BUF_SIZE < length (c_buf conn @ bytes) then None
          else (case conn_loop (length (c_buf conn)) (c_buf conn @ bytes) of (cmds, left) \<Rightarrow>
            let dut = fold (process_cmd (c_sock conn)) cmds (dut\<lparr>d_waiting := c_waiting conn\<rparr>)
            in Some (conn\<lparr>c_buf := left, c_waiting := d_waiting dut\<rparr>, dut)))"

text \<open>
  The new connection of a turn of \<open>run_loop\<close>: \<open>listener\<close> is whether \<open>select\<close> reports the listening
  socket, \<open>accepted\<close> what \<open>accept\<close> gives.  A free slot takes the connection; without one, or when
  \<open>accept\<close> fails, the turn ends there.
\<close>

definition slot_free :: "conn \<Rightarrow> bool" where
  "slot_free c \<longleftrightarrow> c_sock c < 0 \<and> \<not> c_waiting c"

definition free_slot :: "conn list \<Rightarrow> nat option" where
  "free_slot conns = find (\<lambda>i. slot_free (conns ! i)) [0..<length conns]"

definition accept_conn :: "bool \<Rightarrow> int \<Rightarrow> conn list \<Rightarrow> bool \<times> conn list" where
  "accept_conn listener accepted conns =
     (if \<not> listener then (True, conns)
      else (case free_slot conns of
        None \<Rightarrow> (False, conns)
      | Some i \<Rightarrow>
          if accepted < 0 then (False, conns[i := (conns ! i)\<lparr>c_sock := accepted\<rparr>])
          else (True, conns[i := (conns ! i)\<lparr>c_sock := accepted, c_buf := []\<rparr>])))"

fun serve_conns ::
  "(int \<Rightarrow> bool) \<Rightarrow> (int \<Rightarrow> nat \<Rightarrow> string option) \<Rightarrow> conn list \<Rightarrow> 'x dut \<Rightarrow> (conn list \<times> 'x dut) option" where
  "serve_conns ready recv [] dut = Some ([], dut)"
| "serve_conns ready recv (c # cs) dut =
     (case (if 0 \<le> c_sock c \<and> ready (c_sock c)
            then process_conn (recv (c_sock c) (BUF_SIZE - length (c_buf c))) c dut
            else Some (c, dut)) of
        None \<Rightarrow> None
      | Some (c, dut) \<Rightarrow> map_option (\<lambda>(cs, dut). (c # cs, dut)) (serve_conns ready recv cs dut))"

definition can_accept :: "conn list \<Rightarrow> bool" where
  "can_accept conns = list_ex slot_free conns"

text \<open>
  One turn of the loop: \<open>select\<close> fails or reports nothing (\<open>None\<close>), or reports the sockets that are
  ready, the listening one only when it was put into the set.
\<close>

definition loop_turn ::
  "(bool \<times> (int \<Rightarrow> bool)) option \<Rightarrow> int \<Rightarrow> (int \<Rightarrow> nat \<Rightarrow> string option) \<Rightarrow> conn list \<Rightarrow> 'x dut \<Rightarrow>
     (conn list \<times> 'x dut) option" where
  "loop_turn select accepted recv conns dut =
     (case select of
        None \<Rightarrow> Some (conns, dut)
      | Some (listener, ready) \<Rightarrow>
          (case accept_conn (can_accept conns \<and> listener) accepted conns of (go, conns) \<Rightarrow>
           if go then serve_conns ready recv conns dut else Some (conns, dut)))"

definition start_conns :: "conn list" where
  "start_conns = replicate MAX_CONNECTIONS \<lparr>c_sock = -1, c_buf = [], c_waiting = False\<rparr>"

subsection \<open>The table of commands\<close>

text \<open>
  What a client of the table relies on: a registration answers for the names that are the same as
  its own, and leaves the others as they were.
\<close>

locale registry =
  fixes reg :: "'k \<Rightarrow> 'h \<Rightarrow> 't \<Rightarrow> 't" and lookup :: "'k \<Rightarrow> 't \<Rightarrow> 'h option" and same :: "'k \<Rightarrow> 'k \<Rightarrow> bool"
  assumes lookup_reg: "lookup k (reg k' h t) = (if same k k' then Some h else lookup k t)"
begin

lemma lookup_regs:
  "lookup k (fold (\<lambda>(k', h). reg k' h) rs t) =
     (case find (\<lambda>(k', h). same k k') (rev rs) of Some (k', h) \<Rightarrow> Some h | None \<Rightarrow> lookup k t)"
  by (induction rs rule: rev_induct) (auto simp: lookup_reg split: option.splits)

end

text \<open>A registration that succeeds, and the lookup, by what a handler is besides its name.\<close>

definition reg_ok :: "string \<Rightarrow> (sigma_cmd \<Rightarrow> int) option \<times> 'x process \<Rightarrow> 'x dut \<Rightarrow> 'x dut" where
  "reg_ok cmd h dut = snd (sigma_dut_reg_cmd True cmd (fst h) (snd h) dut)"

definition handler_for :: "string \<Rightarrow> 'x dut \<Rightarrow> ((sigma_cmd \<Rightarrow> int) option \<times> 'x process) option" where
  "handler_for cmd dut = map_option (\<lambda>h. (h_validate h, h_process h)) (find_handler cmd dut)"

interpretation cmds: registry reg_ok handler_for strcasecmp_eq
  by unfold_locales (auto simp: reg_ok_def handler_for_def sigma_dut_reg_cmd_def find_handler_def)

subsection \<open>Parsing\<close>

text \<open>The line that carries a command and its parameters.\<close>

definition capi_line :: "string \<Rightarrow> sigma_cmd \<Rightarrow> string" where
  "capi_line cmd c = cmd @ concat (map (\<lambda>(p, v). CHR '','' # p @ CHR '','' # v) c)"

definition no_commas :: "sigma_cmd \<Rightarrow> bool" where
  "no_commas c = list_all (\<lambda>(p, v). CHR '','' \<notin> set p \<and> CHR '','' \<notin> set v) c"

definition lone_first :: "string \<Rightarrow> bool" where
  "lone_first cmd \<longleftrightarrow> strcasecmp_eq cmd ''AccessPoint'' \<or> strcasecmp_eq cmd ''PowerSwitch''"

lemma parse_pairs_Some:
  "parse_pairs pos c = Some d \<Longrightarrow>
     \<exists>ps. d = c @ ps \<and> CHR '','' # pos = capi_line [] ps \<and> no_commas ps \<and>
          (length c \<le> MAX_PARAMS \<longrightarrow> length d \<le> MAX_PARAMS)"
proof (induction pos c arbitrary: d rule: parse_pairs.induct)
  case (1 pos c)
  from "1.prems" obtain p r where p: "split_at (CHR '','') pos = Some (p, r)" "length c \<noteq> MAX_PARAMS"
    by (auto simp: parse_pairs.simps [of pos] split: option.splits if_splits)
  show ?case
  proof (cases "split_at (CHR '','') r")
    case None
    with "1.prems" p have "d = c @ [(p, r)]" by (simp add: parse_pairs.simps [of pos])
    then show ?thesis using p None
      by (intro exI [of _ "[(p, r)]"])
        (auto simp: capi_line_def no_commas_def split_at_None dest: split_at_SomeD)
  next
    case (Some vp)
    obtain v pos' where v: "vp = (v, pos')" by (cases vp)
    have "parse_pairs pos' (c @ [(p, v)]) = Some d"
      using "1.prems" p Some v by (simp add: parse_pairs.simps [of pos])
    from "1.IH" [OF p(1) refl p(2) Some v [symmetric] this] obtain ps
      where ps: "d = (c @ [(p, v)]) @ ps" "CHR '','' # pos' = capi_line [] ps" "no_commas ps"
        "length (c @ [(p, v)]) \<le> MAX_PARAMS \<longrightarrow> length d \<le> MAX_PARAMS" by blast
    show ?thesis using ps p Some v
      by (intro exI [of _ "(p, v) # ps"]) (auto simp: capi_line_def no_commas_def dest!: split_at_SomeD)
  qed
qed

lemma parse_pairs_line:
  "CHR '','' # pos = capi_line [] ps \<Longrightarrow> no_commas ps \<Longrightarrow> length c + length ps \<le> MAX_PARAMS \<Longrightarrow>
     parse_pairs pos c = Some (c @ ps)"
proof (induction ps arbitrary: pos c)
  case Nil
  then show ?case by (simp add: capi_line_def)
next
  case (Cons pv ps)
  obtain p v where pv: "pv = (p, v)" by (cases pv)
  from Cons.prems have pos: "pos = p @ CHR '','' # v @ capi_line [] ps"
    and ok: "CHR '','' \<notin> set p" "CHR '','' \<notin> set v" "no_commas ps" "length c \<noteq> MAX_PARAMS"
    unfolding pv by (auto simp: capi_line_def no_commas_def)
  show ?case
  proof (cases ps)
    case Nil
    moreover have "split_at (CHR '','') v = None" using ok(2) by (simp add: split_at_None)
    ultimately show ?thesis using ok pos pv
      by (simp add: parse_pairs.simps [of "p @ CHR '','' # v"] capi_line_def)
  next
    case (Cons qw qs)
    then obtain pos' where e: "capi_line [] ps = CHR '','' # pos'"
      by (cases qw) (auto simp: capi_line_def)
    have "parse_pairs pos' (c @ [(p, v)]) = Some ((c @ [(p, v)]) @ ps)"
      using e ok Cons.prems by (intro Cons.IH) auto
    then show ?thesis using ok pos pv e by (simp add: parse_pairs.simps [of "p @ CHR '','' # v @ CHR '','' # pos'"])
  qed
qed

text \<open>
  The line of a command whose name is \<open>AccessPoint\<close> or \<open>PowerSwitch\<close>: the first parameter stands
  alone, and at least one pair follows it.
\<close>

definition lone_line :: "string \<Rightarrow> sigma_cmd \<Rightarrow> string" where
  "lone_line cmd c = (case c of [] \<Rightarrow> cmd | (p, v) # ps \<Rightarrow> cmd @ CHR '','' # p @ capi_line [] ps)"

definition line_of :: "string \<Rightarrow> sigma_cmd \<Rightarrow> string" where
  "line_of cmd c = (if lone_first cmd then lone_line cmd c else capi_line cmd c)"

definition lone_form :: "sigma_cmd \<Rightarrow> bool" where
  "lone_form c = (case c of [] \<Rightarrow> True | (p, v) # ps \<Rightarrow> v = '''' \<and> ps \<noteq> [])"

lemma parse_plain:
  assumes "\<not> lone_first cmd"
  shows "parse_cmd buf = (cmd, Some c) \<longleftrightarrow>
     buf = capi_line cmd c \<and> CHR '','' \<notin> set cmd \<and> no_commas c \<and> length c \<le> MAX_PARAMS"
proof (cases "split_at (CHR '','') buf")
  case None
  then have "CHR '','' \<notin> set buf" by (simp add: split_at_None)
  then show ?thesis using None
    by (cases c) (auto simp: parse_cmd_def capi_line_def no_commas_def)
next
  case (Some np)
  obtain n pos where np: "np = (n, pos)" by (cases np)
  with Some have buf: "buf = n @ CHR '','' # pos" "CHR '','' \<notin> set n" by (auto dest: split_at_SomeD)
  have eq: "buf = capi_line cmd c \<longleftrightarrow> n = cmd \<and> CHR '','' # pos = capi_line [] c" if "CHR '','' \<notin> set cmd"
  proof (cases c)
    case Nil
    then show ?thesis using that buf by (auto simp: capi_line_def)
  next
    case (Cons pv qs)
    then obtain z where z: "capi_line [] c = CHR '','' # z" by (cases pv) (auto simp: capi_line_def)
    have "capi_line cmd c = cmd @ capi_line [] c" by (simp add: capi_line_def)
    moreover have "n @ CHR '','' # pos = cmd @ CHR '','' # z \<longleftrightarrow> n = cmd \<and> pos = z"
      using that buf(2) by (metis split_at_append option.inject prod.inject)
    ultimately show ?thesis using z buf(1) by simp
  qed
  show ?thesis
  proof
    assume "parse_cmd buf = (cmd, Some c)"
    then have "n = cmd" "parse_pairs pos [] = Some c" using assms Some np
      by (auto simp: parse_cmd_def lone_first_def)
    with parse_pairs_Some [of pos "[]" c] eq buf
    show "buf = capi_line cmd c \<and> CHR '','' \<notin> set cmd \<and> no_commas c \<and> length c \<le> MAX_PARAMS" by auto
  next
    assume *: "buf = capi_line cmd c \<and> CHR '','' \<notin> set cmd \<and> no_commas c \<and> length c \<le> MAX_PARAMS"
    then have "n = cmd" "parse_pairs pos [] = Some c" using eq parse_pairs_line [of pos c "[]"] by auto
    then show "parse_cmd buf = (cmd, Some c)" using assms Some np
      by (simp add: parse_cmd_def lone_first_def)
  qed
qed

lemma parse_pairs_prefix: "parse_pairs pos c = Some d \<Longrightarrow> \<exists>ps. d = c @ ps \<and> ps \<noteq> []"
  by (frule parse_pairs_Some) (auto simp: capi_line_def)

lemma parse_lone:
  assumes "lone_first cmd"
  shows "parse_cmd buf = (cmd, Some c) \<longleftrightarrow> buf = lone_line cmd c \<and> CHR '','' \<notin> set cmd \<and>
     no_commas c \<and> length c \<le> MAX_PARAMS \<and> lone_form c"
proof
  assume p: "parse_cmd buf = (cmd, Some c)"
  show "buf = lone_line cmd c \<and> CHR '','' \<notin> set cmd \<and> no_commas c \<and> length c \<le> MAX_PARAMS \<and> lone_form c"
  proof (cases "split_at (CHR '','') buf")
    case None
    then have "buf = cmd" "c = []" using p by (simp_all add: parse_cmd_def)
    moreover have "CHR '','' \<notin> set buf" using None by (simp add: split_at_None)
    ultimately show ?thesis by (simp add: lone_line_def lone_form_def no_commas_def)
  next
    case (Some np)
    then obtain pos q r where s: "split_at (CHR '','') buf = Some (cmd, pos)" "split_at (CHR '','') pos = Some (q, r)"
        "parse_pairs r [(q, '''')] = Some c"
      using p assms by (cases np) (auto simp: parse_cmd_def lone_first_def split: option.splits)
    obtain ps where ps: "c = [(q, '''')] @ ps" "CHR '','' # r = capi_line [] ps" "no_commas ps"
        "length c \<le> MAX_PARAMS"
      using parse_pairs_Some [OF s(3)] by (auto simp: MAX_PARAMS_def)
    then show ?thesis using s(1,2)
      by (auto simp: lone_line_def lone_form_def no_commas_def dest!: split_at_SomeD) (simp add: capi_line_def)
  qed
next
  assume l: "buf = lone_line cmd c \<and> CHR '','' \<notin> set cmd \<and> no_commas c \<and> length c \<le> MAX_PARAMS \<and> lone_form c"
  show "parse_cmd buf = (cmd, Some c)"
  proof (cases c)
    case Nil
    then have "split_at (CHR '','') buf = None" using l by (simp add: lone_line_def split_at_None)
    then show ?thesis using l Nil by (simp add: parse_cmd_def lone_line_def)
  next
    case (Cons pv ps)
    obtain q where pv: "pv = (q, '''')" "ps \<noteq> []" using l Cons by (cases pv) (auto simp: lone_form_def)
    then obtain r where r: "capi_line [] ps = CHR '','' # r" by (cases ps) (auto simp: capi_line_def)
    have "parse_pairs r [(q, '''')] = Some c"
      using l Cons pv r parse_pairs_line [of r ps "[(q, '''')]"] by (simp add: no_commas_def)
    moreover have "buf = cmd @ CHR '','' # q @ CHR '','' # r" using l Cons pv r by (simp add: lone_line_def)
    ultimately show ?thesis using l assms Cons pv by (simp add: parse_cmd_def lone_first_def no_commas_def)
  qed
qed

text \<open>
  C5.  A command is understood exactly when its line is the name and at most 100 parameters with
  their values, each behind a comma and none with a comma in it, and the parameters read are those
  of the line in their order.  \<open>AccessPoint\<close> and \<open>PowerSwitch\<close>, in any case of their letters, are
  read otherwise: their first parameter has no value, and with it at least one pair must follow.
\<close>

theorem parse_cmd_iff:
  "parse_cmd buf = (cmd, Some c) \<longleftrightarrow>
     buf = line_of cmd c \<and> CHR '','' \<notin> set cmd \<and> no_commas c \<and> length c \<le> MAX_PARAMS \<and>
     (if lone_first cmd then lone_form c else True)"
  using parse_plain [of cmd buf c] parse_lone [of cmd buf c] by (simp add: line_of_def)

text \<open>
  A lookup of a command gives the handler of the last registration under that name, whatever
  the case of its letters; registrations under other names do not matter.
\<close>

theorem last_registration_wins:
  "handler_for cmd (fold (\<lambda>(name, h). reg_ok name h) rs dut) =
     (case find (\<lambda>(name, h). strcasecmp_eq cmd name) (rev rs) of
        Some (name, h) \<Rightarrow> Some h | None \<Rightarrow> handler_for cmd dut)"
  by (rule cmds.lookup_regs)

definition final_text :: "int \<Rightarrow> string list" where
  "final_text res =
     (if res = -2 then [resp_text SIGMA_ERROR None] else if res = -1 then [resp_text SIGMA_INVALID None]
      else if res = 1 then [resp_text SIGMA_COMPLETE None] else [])"

lemma sent_final: "d_sent (final_resp s res dut) = d_sent dut @ map (Pair s) (final_text res)"
  by (simp add: final_resp_def send_resp_def final_text_def)

lemma rest_final [simp]: "d_rest (final_resp s res dut) = d_rest dut"
  "d_waiting (final_resp s res dut) = d_waiting dut" "d_cmds (final_resp s res dut) = d_cmds dut"
  by (simp_all add: final_resp_def send_resp_def)

lemma run_handler_runs:
  assumes "h_process h c (d_waiting dut) (d_rest dut) = (res, out, w, x)"
  shows "d_sent (run_handler s h c dut) =
       d_sent dut @ map (Pair s) (resp_text SIGMA_RUNNING None # out @ final_text res)"
    and "d_rest (run_handler s h c dut) = x" and "d_waiting (run_handler s h c dut) = w"
    and "d_cmds (run_handler s h c dut) = d_cmds dut"
  using assms by (simp_all add: run_handler_def send_resp_def sent_final)

definition rejected :: "string \<Rightarrow> 'x dut \<Rightarrow> string option" where
  "rejected line dut =
     (case parse_cmd (trim line) of (cmd, params) \<Rightarrow>
      case params of None \<Rightarrow> Some invalid_parameters
      | Some c \<Rightarrow>
          (case handler_for cmd dut of None \<Rightarrow> Some unknown_command
           | Some (v, p) \<Rightarrow>
               (if (case v of Some f \<Rightarrow> f c < 0 | None \<Rightarrow> False) then Some invalid_parameters else None)))"

lemma find_handler_note [simp]: "find_handler cmd (dut\<lparr>d_notes := n\<rparr>) = find_handler cmd dut"
  by (simp add: find_handler_def)

definition params_of :: "string \<Rightarrow> sigma_cmd" where
  "params_of line = (case snd (parse_cmd (trim line)) of Some c \<Rightarrow> c | None \<Rightarrow> [])"

lemma process_cmd_rejected:
  assumes "rejected line dut = Some t"
  shows "process_cmd s line dut =
     send_resp s SIGMA_INVALID (Some t) (dut\<lparr>d_notes := d_notes dut @ [take 199 (''NOTE CAPI:'' @ trim line)]\<rparr>)"
  using assms
  by (auto simp: rejected_def process_cmd_def Let_def handler_for_def split: prod.splits option.splits if_splits)

lemma process_cmd_accepted:
  assumes "rejected line dut = None"
  obtains h where "find_handler (fst (parse_cmd (trim line))) dut = Some h"
    "process_cmd s line dut =
       run_handler s h (params_of line) (dut\<lparr>d_notes := d_notes dut @ [take 199 (''NOTE CAPI:'' @ trim line)]\<rparr>)"
  using assms
  by (auto simp: rejected_def process_cmd_def Let_def handler_for_def params_of_def
      split: prod.splits option.splits if_splits)

text \<open>
  Every command is answered on the connection it came from and on no other.  Either it is one
  response \<open>INVALID\<close>, and nothing ran: the state of the agent is the old one.  Or the line named a
  registered command and its parameters passed the check of that command; then the first response
  is \<open>RUNNING\<close>, the responses of the handler follow, and the last one is what the result of the
  handler asks for (\<open>ERROR\<close>, \<open>INVALID\<close> or \<open>COMPLETE\<close>, or none).
\<close>

lemma process_cmd_responses:
  "\<exists>rs. d_sent (process_cmd s line dut) = d_sent dut @ map (Pair s) rs \<and>
     (case rejected line dut of
        Some t \<Rightarrow> rs = [resp_text SIGMA_INVALID (Some t)] \<and> d_rest (process_cmd s line dut) = d_rest dut
      | None \<Rightarrow>
          (case handler_for (fst (parse_cmd (trim line))) dut of
             None \<Rightarrow> False
           | Some (validate, process) \<Rightarrow>
               (case process (params_of line) (d_waiting dut) (d_rest dut) of (res, out, w, x) \<Rightarrow>
                  rs = resp_text SIGMA_RUNNING None # out @ final_text res \<and>
                  d_rest (process_cmd s line dut) = x \<and> d_waiting (process_cmd s line dut) = w)))"
proof (cases "rejected line dut")
  case (Some t)
  then show ?thesis by (simp add: process_cmd_rejected send_resp_def)
next
  case None
  then obtain h where h: "find_handler (fst (parse_cmd (trim line))) dut = Some h"
    "process_cmd s line dut =
       run_handler s h (params_of line) (dut\<lparr>d_notes := d_notes dut @ [take 199 (''NOTE CAPI:'' @ trim line)]\<rparr>)"
    using process_cmd_accepted [OF None, of s] by blast
  obtain res out w x where "h_process h (params_of line) (d_waiting dut) (d_rest dut) = (res, out, w, x)"
    by (metis prod_cases4)
  then show ?thesis using None h by (simp add: handler_for_def run_handler_runs)
qed

subsection \<open>Framing\<close>

definition no_eol :: "string \<Rightarrow> bool" where
  "no_eol s = list_all (\<lambda>c. \<not> is_eol c) s"

lemma no_eol_simps [simp]:
  "no_eol []" "no_eol (c # s) \<longleftrightarrow> \<not> is_eol c \<and> no_eol s" "no_eol (s @ t) \<longleftrightarrow> no_eol s \<and> no_eol t"
  by (simp_all add: no_eol_def)

lemma takeWhile_no_eol: "no_eol b \<Longrightarrow> takeWhile (\<lambda>c. \<not> is_eol c) (b @ d) = b @ takeWhile (\<lambda>c. \<not> is_eol c) d"
  by (induction b) auto

lemma conn_loop_skip: "no_eol b \<Longrightarrow> conn_loop (length b) (b @ d) = conn_loop 0 (b @ d)"
  by (subst (1 2) conn_loop.simps) (simp add: takeWhile_no_eol Let_def)

lemma conn_loop_partial: "no_eol d \<Longrightarrow> conn_loop 0 d = ([], if BUF_SIZE \<le> length d then [] else d)"
proof -
  assume "no_eol d"
  then have "length (takeWhile (\<lambda>c. \<not> is_eol c) d) = length d"
    using takeWhile_no_eol [of d "[]"] by (metis append_Nil2 takeWhile.simps(1))
  then show ?thesis by (simp add: conn_loop.simps [of 0 d] Let_def)
qed

lemma conn_loop_line:
  assumes "no_eol l" "is_eol e"
  shows "conn_loop 0 (l @ e # r) =
     (takeWhile (\<lambda>c. c \<noteq> NUL) l # fst (conn_loop 0 (dropWhile is_eol r)), snd (conn_loop 0 (dropWhile is_eol r)))"
  using assms by (simp add: conn_loop.simps [of 0 "l @ e # r"] takeWhile_no_eol Let_def split: prod.splits)

lemma eol_cases:
  obtains "no_eol d" | l e r where "d = l @ e # r" "no_eol l" "is_eol e"
proof (cases "no_eol d")
  case False
  then have "\<exists>c \<in> set d. is_eol c" by (auto simp: no_eol_def list_all_iff)
  then obtain l e r where "d = l @ e # r" "is_eol e" "\<forall>c \<in> set l. \<not> is_eol c"
    using split_list_first_propE by metis
  then show thesis using that(2) by (simp add: no_eol_def list_all_iff)
qed (rule that(1))

text \<open>What stays in the buffer is the beginning of a line, and leaves room for more.\<close>

lemma conn_loop_left: "no_eol (snd (conn_loop 0 d)) \<and> length (snd (conn_loop 0 d)) < BUF_SIZE"
proof (induction "length d" arbitrary: d rule: less_induct)
  case less
  consider "no_eol d" | l e r where "d = l @ e # r" "no_eol l" "is_eol e" using eol_cases by blast
  then show ?case
  proof cases
    case 1
    then show ?thesis by (simp add: conn_loop_partial BUF_SIZE_def)
  next
    case 2
    have "length (dropWhile is_eol r) < length d" using 2(1) length_dropWhile_le [of is_eol r] by simp
    from less [OF this] show ?thesis using 2 by (simp add: conn_loop_line)
  qed
qed

text \<open>
  The lines of a text: what stands before each carriage return or newline, the empty pieces between
  two of them as well, and what is left behind the last one.
\<close>

fun text_lines :: "string \<Rightarrow> string list \<times> string" where
  "text_lines [] = ([], [])"
| "text_lines (c # d) =
     (case text_lines d of (ls, r) \<Rightarrow>
        if is_eol c then ([] # ls, r)
        else case ls of [] \<Rightarrow> ([], c # r) | l # ls \<Rightarrow> ((c # l) # ls, r))"

lemma text_lines_no_eol [simp]: "no_eol d \<Longrightarrow> text_lines d = ([], d)"
  by (induction d) auto

lemma text_lines_line [simp]:
  "no_eol l \<Longrightarrow> is_eol e \<Longrightarrow> text_lines (l @ e # r) = (l # fst (text_lines r), snd (text_lines r))"
  by (induction l) (auto split: prod.splits)

lemma text_lines_append:
  "text_lines (d @ r) =
     (fst (text_lines d) @ fst (text_lines (snd (text_lines d) @ r)), snd (text_lines (snd (text_lines d) @ r)))"
proof (induction "length d" arbitrary: d rule: less_induct)
  case less
  consider "no_eol d" | l e t where "d = l @ e # t" "no_eol l" "is_eol e" using eol_cases by blast
  then show ?case
  proof cases
    case 2
    then show ?thesis using less [of t] by simp
  qed simp
qed

text \<open>The line as a command: a NUL byte in it ends it.\<close>

definition cut_nul :: "string \<Rightarrow> string" where
  "cut_nul l = takeWhile (\<lambda>c. c \<noteq> NUL) l"

text \<open>The commands run for some lines: all of them in their order, or some empty ones are passed over.\<close>

definition lines_run :: "string list \<Rightarrow> string list \<Rightarrow> bool" where
  "lines_run cmds ls \<longleftrightarrow> subseq cmds (map cut_nul ls) \<and>
     filter (\<lambda>c. c \<noteq> []) cmds = filter (\<lambda>c. c \<noteq> []) (map cut_nul ls)"

lemma lines_run_simps [simp]:
  "lines_run [] []" "lines_run cmds ls \<Longrightarrow> lines_run cmds ([] # ls)"
  "lines_run cmds ls \<Longrightarrow> lines_run (cut_nul l # cmds) (l # ls)"
  "lines_run cmds ls \<Longrightarrow> lines_run cmds' ls' \<Longrightarrow> lines_run (cmds @ cmds') (ls @ ls')"
  by (auto simp: lines_run_def cut_nul_def list_emb_append_mono)

lemma lines_run_skip:
  "lines_run cmds (fst (text_lines (dropWhile is_eol r))) \<Longrightarrow> lines_run cmds (fst (text_lines r))"
  "snd (text_lines (dropWhile is_eol r)) = snd (text_lines r)"
  by (induction r) (auto split: prod.splits if_splits)

lemma conn_loop_lines:
  "length (snd (text_lines d)) < BUF_SIZE \<Longrightarrow>
     lines_run (fst (conn_loop 0 d)) (fst (text_lines d)) \<and> snd (conn_loop 0 d) = snd (text_lines d)"
proof (induction "length d" arbitrary: d rule: less_induct)
  case less
  consider "no_eol d" | l e r where "d = l @ e # r" "no_eol l" "is_eol e" using eol_cases by blast
  then show ?case
  proof cases
    case 1
    then show ?thesis using less.prems by (simp add: conn_loop_partial)
  next
    case 2
    have "length (dropWhile is_eol r) < length d" using 2(1) length_dropWhile_le [of is_eol r] by simp
    from less.hyps [OF this] less.prems show ?thesis
      using 2 lines_run_skip(1) [of _ r] lines_run_skip(2) [of r] by (simp add: conn_loop_line flip: cut_nul_def)
  qed
qed

text \<open>No line, and no beginning of one, is longer than the buffer.\<close>

definition lines_fit :: "string \<Rightarrow> bool" where
  "lines_fit d \<longleftrightarrow> (case text_lines d of (ls, r) \<Rightarrow> list_all (\<lambda>l. length l < BUF_SIZE) (r # ls))"

lemma lines_fit_append: "lines_fit (d @ r) \<Longrightarrow> lines_fit (snd (text_lines d) @ r)"
  by (simp add: lines_fit_def text_lines_append [of d r] case_prod_beta)

lemma no_eol_left: "no_eol (snd (text_lines d))"
proof (induction d)
  case (Cons c d)
  then show ?case by (auto split: prod.splits list.splits)
qed simp

lemma lines_fit_left:
  assumes "lines_fit (d @ r)"
  shows "length (snd (text_lines d)) < BUF_SIZE"
proof -
  let ?l = "snd (text_lines d)"
  have "length ?l < BUF_SIZE" if f: "lines_fit (?l @ r)"
  proof (cases rule: eol_cases [of r])
    case 1
    then show ?thesis using f no_eol_left [of d] by (simp add: lines_fit_def)
  next
    case (2 l e t)
    have "text_lines ((?l @ l) @ e # t) = ((?l @ l) # fst (text_lines t), snd (text_lines t))"
      using 2 no_eol_left [of d] by (intro text_lines_line) simp_all
    then show ?thesis using f 2 by (simp add: lines_fit_def)
  qed
  then show ?thesis using lines_fit_append [OF assms] .
qed

definition command_line :: "string \<Rightarrow> bool" where
  "command_line l \<longleftrightarrow> l \<noteq> [] \<and> no_eol l \<and> NUL \<notin> set l \<and> length l < BUF_SIZE"

text \<open>A connection is well formed when its buffer holds the beginning of a line and has room left.\<close>

definition conn_ok :: "conn \<Rightarrow> bool" where
  "conn_ok c \<longleftrightarrow> no_eol (c_buf c) \<and> length (c_buf c) < BUF_SIZE"

lemma process_conn_data:
  assumes "conn_ok conn" "process_conn (Some d) conn dut = Some (conn', dut')" "d \<noteq> []"
  shows "c_buf conn' = snd (conn_loop 0 (c_buf conn @ d))" "c_sock conn' = c_sock conn"
    "dut' = fold (process_cmd (c_sock conn)) (fst (conn_loop 0 (c_buf conn @ d))) (dut\<lparr>d_waiting := c_waiting conn\<rparr>)"
    "c_waiting conn' = d_waiting dut'"
  using assms by (auto simp: process_conn_def conn_ok_def conn_loop_skip Let_def split: if_splits prod.splits)

lemma process_conn_ok:
  assumes "conn_ok conn" "process_conn rcv conn dut = Some (conn', dut')"
  shows "conn_ok conn'"
proof (cases "\<exists>d. rcv = Some d \<and> d \<noteq> []")
  case True
  then obtain d where "rcv = Some d" "d \<noteq> []" by blast
  then have "c_buf conn' = snd (conn_loop 0 (c_buf conn @ d))"
    using assms by (blast intro: process_conn_data(1))
  then show ?thesis by (simp add: conn_ok_def conn_loop_left)
next
  case False
  then show ?thesis using assms
    by (auto simp: process_conn_def close_conn_def conn_ok_def split: option.splits)
qed

text \<open>The bytes of a connection, received in pieces.\<close>

fun serve_chunks :: "string list \<Rightarrow> conn \<Rightarrow> 'x dut \<Rightarrow> (conn \<times> 'x dut) option" where
  "serve_chunks [] conn dut = Some (conn, dut)"
| "serve_chunks (d # ds) conn dut =
     (case process_conn (Some d) conn dut of None \<Rightarrow> None | Some (conn, dut) \<Rightarrow> serve_chunks ds conn dut)"

lemma serve_chunks_lines:
  assumes "serve_chunks ds conn dut = Some (conn', dut')" "conn_ok conn" "\<forall>d \<in> set ds. d \<noteq> []"
    "lines_fit (c_buf conn @ concat ds)" "d_waiting dut = c_waiting conn"
  shows "\<exists>cmds. dut' = fold (process_cmd (c_sock conn)) cmds dut \<and>
     lines_run cmds (fst (text_lines (c_buf conn @ concat ds))) \<and>
     c_buf conn' = snd (text_lines (c_buf conn @ concat ds))"
  using assms
proof (induction ds arbitrary: conn dut)
  case Nil
  then show ?case by (intro exI [of _ "[]"]) (simp add: conn_ok_def)
next
  case (Cons d ds)
  from Cons.prems(1) obtain c1 d1 where s: "process_conn (Some d) conn dut = Some (c1, d1)"
    "serve_chunks ds c1 d1 = Some (conn', dut')" by (auto split: option.splits)
  have "d \<noteq> []" using Cons.prems(3) by simp
  note step = process_conn_data [OF Cons.prems(2) s(1) this]
  let ?x = "c_buf conn @ d"
  have fit: "lines_fit (?x @ concat ds)" using Cons.prems(4) by simp
  note one = conn_loop_lines [OF lines_fit_left [OF fit]]
  have "\<exists>cmds. dut' = fold (process_cmd (c_sock c1)) cmds d1 \<and>
     lines_run cmds (fst (text_lines (c_buf c1 @ concat ds))) \<and>
     c_buf conn' = snd (text_lines (c_buf c1 @ concat ds))"
    using Cons.prems step one process_conn_ok [OF Cons.prems(2) s(1)] lines_fit_append [OF fit]
    by (intro Cons.IH [OF s(2)]) auto
  then obtain cmds where c: "dut' = fold (process_cmd (c_sock c1)) cmds d1"
    "lines_run cmds (fst (text_lines (c_buf c1 @ concat ds)))"
    "c_buf conn' = snd (text_lines (c_buf c1 @ concat ds))" by blast
  have "dut\<lparr>d_waiting := c_waiting conn\<rparr> = dut" using Cons.prems(5) by simp
  then show ?case using c step one text_lines_append [of ?x "concat ds"]
    by (intro exI [of _ "fst (conn_loop 0 ?x) @ cmds"]) simp
qed

text \<open>
  C4.  The commands a connection runs do not depend on how the network cuts its bytes, but for empty
  ones.  Whatever the bytes are, with carriage returns, newlines or both at the ends of the lines,
  the commands that run are lines of the text in their order, each line up to a NUL byte in it; every
  command that is not empty runs exactly once; and the beginning of a line that is left stays in the
  buffer.  The connection starts with an empty buffer and with the \<open>waiting_completion\<close> flag the agent
  has in hand, each \<open>recv\<close> gives at least one byte and no more than there is room for, and every line is
  shorter than the buffer.
\<close>

theorem framing_any_chunks:
  assumes "serve_chunks ds conn dut = Some (conn', dut')"
    and "c_buf conn = []" and "d_waiting dut = c_waiting conn" and "\<forall>d \<in> set ds. d \<noteq> []"
    and "text_lines (concat ds) = (ls, rest)" and "list_all (\<lambda>l. length l < BUF_SIZE) (rest # ls)"
  shows "\<exists>cmds. dut' = fold (process_cmd (c_sock conn)) cmds dut \<and> c_buf conn' = rest \<and>
     subseq cmds (map cut_nul ls) \<and>
     filter (\<lambda>c. c \<noteq> []) cmds = filter (\<lambda>c. c \<noteq> []) (map cut_nul ls)"
proof -
  have "conn_ok conn" "lines_fit (c_buf conn @ concat ds)"
    using assms by (simp_all add: conn_ok_def lines_fit_def BUF_SIZE_def)
  from serve_chunks_lines [OF assms(1) this(1) assms(4) this(2) assms(3)] show ?thesis
    using assms(2,5) by (auto simp: lines_run_def)
qed

theorem framing_any_chunks_witness:
  "\<exists>conn' dut' cmds. serve_chunks [''ab'', ''c'' @ [CHR 0x0D], [nl] @ ''d'', [nl] @ ''e''] \<lparr>c_sock = 5, c_buf = [], c_waiting = False\<rparr>
       \<lparr>d_cmds = [], d_sent = [], d_notes = [], d_waiting = False, d_rest = ()\<rparr> = Some (conn', dut') \<and>
     dut' = fold (process_cmd 5) cmds
       \<lparr>d_cmds = [], d_sent = [], d_notes = [], d_waiting = False, d_rest = ()\<rparr> \<and> c_buf conn' = ''e'' \<and>
     filter (\<lambda>c. c \<noteq> []) cmds = [''abc'', ''d'']"
proof -
  let ?c = "\<lparr>c_sock = 5, c_buf = [], c_waiting = False\<rparr>"
  let ?d = "\<lparr>d_cmds = [], d_sent = [], d_notes = [], d_waiting = False, d_rest = ()\<rparr> :: unit dut"
  let ?ds = "[''ab'', ''c'' @ [CHR 0x0D], [nl] @ ''d'', [nl] @ ''e'']"
  have "serve_chunks ?ds ?c ?d \<noteq> None" by code_simp
  then obtain conn' dut' where r: "serve_chunks ?ds ?c ?d = Some (conn', dut')" by auto
  have "\<exists>cmds. dut' = fold (process_cmd (c_sock ?c)) cmds ?d \<and> c_buf conn' = ''e'' \<and>
      subseq cmds (map cut_nul [''abc'', [], ''d'']) \<and>
      filter (\<lambda>c. c \<noteq> []) cmds = filter (\<lambda>c. c \<noteq> []) (map cut_nul [''abc'', [], ''d''])"
    by (rule framing_any_chunks [OF r]) (simp_all add: is_eol_def BUF_SIZE_def MAX_CMD_LEN_def)
  then show ?thesis using r by (auto simp: cut_nul_def NUL_def)
qed

text \<open>
  C36.  The same bytes can be answered differently.  A command ended by carriage return and newline,
  on a connection with an empty buffer: when the two bytes arrive together they end one command;
  when the network delivers the newline later, it ends a second, empty command, so the agent is then
  left as it is after one more \<open>process_cmd\<close> of the empty line.  The command is not empty, holds no
  NUL byte and no end of a line, and fits the buffer.
\<close>

theorem crlf_cut_in_two:
  assumes "c_buf conn = []" and "command_line l"
    and "serve_chunks [l @ [CHR 0x0D], [nl]] conn dut = Some (conn1, dut1)"
    and "serve_chunks [l @ [CHR 0x0D, nl]] conn dut = Some (conn2, dut2)"
  shows "dut1 = process_cmd (c_sock conn) [] dut2 \<and> c_buf conn1 = [] \<and> c_buf conn2 = []"
proof -
  have ok: "conn_ok conn" using assms(1) by (simp add: conn_ok_def BUF_SIZE_def)
  have l: "no_eol l" "takeWhile (\<lambda>c. c \<noteq> NUL) l = l" using assms(2)
    by (auto simp: command_line_def takeWhile_eq_all_conv)
  have eol: "is_eol (CHR 0x0D)" "is_eol nl" by (simp_all add: is_eol_def)
  have nil: "conn_loop 0 [] = ([], [])" by (simp add: conn_loop_partial BUF_SIZE_def)
  have whole: "conn_loop 0 (l @ [CHR 0x0D, nl]) = ([l], [])" "conn_loop 0 (l @ [CHR 0x0D]) = ([l], [])"
    using l eol nil by (simp_all add: conn_loop_line)
  have empty: "conn_loop 0 [nl] = ([[]], [])" using conn_loop_line [of "[]" nl "[]"] eol nil by simp
  obtain c d where s: "process_conn (Some (l @ [CHR 0x0D])) conn dut = Some (c, d)"
    "process_conn (Some [nl]) c d = Some (conn1, dut1)"
    using assms(3) by (auto split: option.splits)
  note one = process_conn_data [OF ok s(1)]
  have c: "c_buf c = []" "c_sock c = c_sock conn" "c_waiting c = d_waiting d"
    "d = process_cmd (c_sock conn) l (dut\<lparr>d_waiting := c_waiting conn\<rparr>)"
    using one assms(1) whole by simp_all
  note two = process_conn_data [OF process_conn_ok [OF ok s(1)] s(2)]
  have "process_conn (Some (l @ [CHR 0x0D, nl])) conn dut = Some (conn2, dut2)"
    using assms(4) by (simp split: option.splits prod.splits)
  note both = process_conn_data [OF ok this]
  have "d\<lparr>d_waiting := d_waiting d\<rparr> = d" by simp
  then show ?thesis using two both c assms(1) whole empty by simp
qed

theorem crlf_cut_in_two_witness:
  "\<exists>conn1 dut1 conn2 dut2.
     serve_chunks [''x'' @ [CHR 0x0D], [nl]] \<lparr>c_sock = 5, c_buf = [], c_waiting = False\<rparr>
       (\<lparr>d_cmds = [], d_sent = [], d_notes = [], d_waiting = False, d_rest = ()\<rparr> :: unit dut) = Some (conn1, dut1) \<and>
     serve_chunks [''x'' @ [CHR 0x0D, nl]] \<lparr>c_sock = 5, c_buf = [], c_waiting = False\<rparr>
       (\<lparr>d_cmds = [], d_sent = [], d_notes = [], d_waiting = False, d_rest = ()\<rparr> :: unit dut) = Some (conn2, dut2) \<and>
     dut1 = process_cmd 5 [] dut2 \<and> length (d_sent dut1) = 2 \<and> length (d_sent dut2) = 1"
proof -
  let ?c = "\<lparr>c_sock = 5, c_buf = [], c_waiting = False\<rparr>"
  let ?d = "\<lparr>d_cmds = [], d_sent = [], d_notes = [], d_waiting = False, d_rest = ()\<rparr> :: unit dut"
  have n: "map_option (\<lambda>(c, d). length (d_sent d)) (serve_chunks [''x'' @ [CHR 0x0D], [nl]] ?c ?d) = Some 2"
    "map_option (\<lambda>(c, d). length (d_sent d)) (serve_chunks [''x'' @ [CHR 0x0D, nl]] ?c ?d) = Some 1"
    by code_simp+
  then obtain conn1 dut1 conn2 dut2 where
    r: "serve_chunks [''x'' @ [CHR 0x0D], [nl]] ?c ?d = Some (conn1, dut1)"
      "serve_chunks [''x'' @ [CHR 0x0D, nl]] ?c ?d = Some (conn2, dut2)"
    and "length (d_sent dut1) = 2" "length (d_sent dut2) = 1" by auto
  moreover have "dut1 = process_cmd (c_sock ?c) [] dut2 \<and> c_buf conn1 = [] \<and> c_buf conn2 = []"
    by (rule crlf_cut_in_two [OF _ _ r])
      (simp_all add: command_line_def no_eol_def is_eol_def NUL_def BUF_SIZE_def MAX_CMD_LEN_def)
  ultimately show ?thesis by auto
qed

subsection \<open>The loop over the connections\<close>

lemma process_conn_safe:
  assumes "conn_ok conn" "\<And>d. rcv = Some d \<Longrightarrow> length d \<le> BUF_SIZE - length (c_buf conn)"
  shows "process_conn rcv conn dut \<noteq> None"
  using assms by (auto simp: process_conn_def conn_ok_def Let_def split: option.splits prod.splits)

text \<open>\<open>recv\<close> stores at most as many bytes as it is given room for.\<close>

definition recv_within :: "(int \<Rightarrow> nat \<Rightarrow> string option) \<Rightarrow> bool" where
  "recv_within recv \<longleftrightarrow> (\<forall>s n d. recv s n = Some d \<longrightarrow> length d \<le> n)"

lemma serve_conns_safe:
  assumes "recv_within recv" "list_all conn_ok conns"
  shows "\<exists>conns' dut'. serve_conns ready recv conns dut = Some (conns', dut') \<and>
     list_all conn_ok conns' \<and> length conns' = length conns"
  using assms(2)
proof (induction conns arbitrary: dut)
  case (Cons c cs)
  let ?r = "if 0 \<le> c_sock c \<and> ready (c_sock c)
    then process_conn (recv (c_sock c) (BUF_SIZE - length (c_buf c))) c dut else Some (c, dut)"
  have "process_conn (recv (c_sock c) (BUF_SIZE - length (c_buf c))) c dut \<noteq> None"
    using Cons.prems assms(1) by (intro process_conn_safe) (auto simp: recv_within_def)
  then have "?r \<noteq> None" by simp
  then obtain c1 d1 where r: "?r = Some (c1, d1)" by auto
  then have "conn_ok c1" using Cons.prems by (auto split: if_splits intro: process_conn_ok)
  moreover obtain cs' d2 where "serve_conns ready recv cs d1 = Some (cs', d2)"
    "list_all conn_ok cs'" "length cs' = length cs" using Cons.IH [of d1] Cons.prems by auto
  ultimately show ?case using r by auto
qed simp

lemma conns_ok_update:
  assumes "list_all conn_ok conns" "\<And>c. conn_ok c \<Longrightarrow> conn_ok (f c)"
  shows "list_all conn_ok (conns[i := f (conns ! i)])"
  using assms by (cases "i < length conns") (auto simp: list_all_length nth_list_update)

lemma accept_conn_ok:
  assumes "list_all conn_ok conns" "accept_conn l a conns = (go, conns')"
  shows "list_all conn_ok conns' \<and> length conns' = length conns"
  using assms
    conns_ok_update [OF assms(1), of "c_sock_update (\<lambda>_. a)"]
    conns_ok_update [OF assms(1), of "\<lambda>c. c\<lparr>c_sock := a, c_buf := []\<rparr>"]
  by (auto simp: accept_conn_def conn_ok_def BUF_SIZE_def split: if_splits option.splits)

lemma loop_turn_safe:
  assumes "recv_within recv" "list_all conn_ok conns"
  shows "\<exists>conns' dut'. loop_turn select accepted recv conns dut = Some (conns', dut') \<and>
     list_all conn_ok conns' \<and> length conns' = length conns"
proof (cases select)
  case (Some lr)
  obtain l ready where lr: "lr = (l, ready)" by (cases lr)
  obtain go conns1 where a: "accept_conn (can_accept conns \<and> l) accepted conns = (go, conns1)"
    by (cases "accept_conn (can_accept conns \<and> l) accepted conns")
  note ok = accept_conn_ok [OF assms(2) a]
  then show ?thesis using Some lr a serve_conns_safe [OF assms(1), of conns1 ready dut]
    by (auto simp: loop_turn_def)
qed (simp add: loop_turn_def assms(2))

text \<open>
  The connections the agent can come to, whatever \<open>select\<close>, \<open>accept\<close> and the network do; a completed
  measurement may clear the \<open>waiting_completion\<close> flag of a connection at any time.
\<close>

inductive loop_reach :: "'x dut \<Rightarrow> conn list \<Rightarrow> 'x dut \<Rightarrow> bool" for dut0 where
  start: "loop_reach dut0 start_conns dut0"
| turn: "loop_reach dut0 conns dut \<Longrightarrow> recv_within recv \<Longrightarrow>
     loop_turn select accepted recv conns dut = Some (conns', dut') \<Longrightarrow> loop_reach dut0 conns' dut'"
| completed: "loop_reach dut0 conns dut \<Longrightarrow> i < length conns \<Longrightarrow>
     loop_reach dut0 (conns[i := (conns ! i)\<lparr>c_waiting := False\<rparr>]) dut"

lemma loop_reach_inv: "loop_reach dut0 conns dut \<Longrightarrow> list_all conn_ok conns \<and> length conns = MAX_CONNECTIONS"
proof (induction rule: loop_reach.induct)
  case start
  then show ?case by (simp add: start_conns_def list_all_length conn_ok_def BUF_SIZE_def)
next
  case (turn conns dut recv select accepted conns' dut')
  then show ?case using loop_turn_safe [of recv conns select accepted dut] by auto
next
  case (completed conns dut i)
  have "conn_ok (c\<lparr>c_waiting := False\<rparr>)" if "conn_ok c" for c
    using that by (simp add: conn_ok_def)
  then show ?case using completed conns_ok_update [of conns "c_waiting_update (\<lambda>_. False)" i] by simp
qed

text \<open>
  C3.  The agent never stores a byte outside a connection's buffer: in every state it can come to, each
  of its four connections holds the beginning of one line with room for at least one more byte, and
  the next turn of the loop, whatever it reads, is defined and gives such a state again.
\<close>

theorem loop_never_overruns:
  assumes "loop_reach dut0 conns dut" and "recv_within recv"
  shows "length conns = MAX_CONNECTIONS \<and> list_all conn_ok conns \<and>
     (\<exists>conns' dut'. loop_turn select accepted recv conns dut = Some (conns', dut') \<and> loop_reach dut0 conns' dut')"
  using loop_reach_inv [OF assms(1)] loop_turn_safe [OF assms(2), of conns select accepted dut]
    loop_reach.turn [OF assms] by auto

theorem loop_never_overruns_witness:
  "\<exists>conns' dut'. loop_turn (Some (True, \<lambda>s. s = 7)) 7 (\<lambda>s n. Some (replicate n (CHR ''a''))) start_conns
     \<lparr>d_cmds = [], d_sent = [], d_notes = [], d_waiting = False, d_rest = ()\<rparr> = Some (conns', dut') \<and>
     loop_reach \<lparr>d_cmds = [], d_sent = [], d_notes = [], d_waiting = False, d_rest = ()\<rparr> conns' dut'"
proof -
  have "recv_within (\<lambda>s n. Some (replicate n (CHR ''a'')))" by (simp add: recv_within_def)
  from loop_never_overruns [OF loop_reach.start this] show ?thesis by blast
qed

subsection \<open>A line through the dispatch\<close>

text \<open>What a client of the dispatch uses to follow one line.\<close>

lemma parse_cmd_line:
  assumes "CHR '','' \<notin> set cmd" "\<not> lone_first cmd" "no_commas c" "length c \<le> MAX_PARAMS" "c \<noteq> []"
  shows "parse_cmd (capi_line cmd c) = (cmd, Some c)"
proof -
  obtain pos where pos: "capi_line [] c = CHR '','' # pos"
    using assms(5) by (cases c) (auto simp: capi_line_def split: prod.splits)
  have "capi_line cmd c = cmd @ CHR '','' # pos" using pos by (simp add: capi_line_def)
  moreover have "parse_pairs pos [] = Some c" using parse_pairs_line [of pos c "[]"] pos assms by simp
  ultimately show ?thesis using assms by (simp add: parse_cmd_def lone_first_def)
qed

lemma trim_line:
  assumes "cmd \<noteq> []" "\<not> is_blank (hd cmd)" "v \<noteq> []" "last v \<noteq> CHR '' ''"
  shows "trim (capi_line cmd (c @ [(p, v)])) = capi_line cmd (c @ [(p, v)])"
proof -
  have line: "capi_line cmd (c @ [(p, v)]) = cmd @ capi_line [] c @ CHR '','' # p @ CHR '','' # v"
    by (simp add: capi_line_def)
  have "dropWhile is_blank (cmd @ r) = cmd @ r" for r using assms(1,2) by (cases cmd) auto
  moreover have "dropWhile (\<lambda>x. x = CHR '' '') (rev (l @ v)) = rev (l @ v)" for l
    using assms(3,4) by (cases v rule: rev_cases) auto
  from this [of "cmd @ capi_line [] c @ CHR '','' # p @ [CHR '','']"]
  have "dropWhile (\<lambda>x. x = CHR '' '') (rev (cmd @ capi_line [] c @ CHR '','' # p @ CHR '','' # v)) =
      rev (cmd @ capi_line [] c @ CHR '','' # p @ CHR '','' # v)" by simp
  ultimately show ?thesis unfolding trim_def line by simp
qed

lemma process_cmd_runs:
  assumes "parse_cmd (trim line) = (cmd, Some c)"
    and "handler_for cmd dut = Some (None, process)"
    and "process c (d_waiting dut) (d_rest dut) = (res, out, w, x)"
  shows "d_sent (process_cmd s line dut) =
    d_sent dut @ map (Pair s) (resp_text SIGMA_RUNNING None # out @ final_text res)"
proof -
  obtain h where h: "find_handler cmd dut = Some h" "h_validate h = None" "h_process h = process"
    using assms(2) by (auto simp: handler_for_def)
  then show ?thesis
    using assms(1,3) run_handler_runs(1) [of h c "dut\<lparr>d_notes := n\<rparr>" res out w x s for n]
    by (simp add: process_cmd_def)
qed

end
