(* ===== verification/Sigma_Agent.thy ===== *)
theory Sigma_Agent
  imports Sigma_Core
begin

text \<open>
  The state and the system calls that the handlers of the test agent share.  A handler is a program
  over the agent: the fields of \<open>struct sigma_dut\<close> that the modelled handlers use, the responses
  sent on the connection in hand, and the outside world, which the handlers reach through the system
  calls in the record \<open>env\<close>.  \<open>as_process\<close> makes a handler an entry of the command table of
  \<open>Sigma_Core\<close>; what the machine does behind undefined behaviour is a parameter there.
\<close>

subsection \<open>The agent and its calls\<close>

type_synonym octets = "8 word list"

datatype sigma_mode = SIGMA_MODE_UNKNOWN | SIGMA_MODE_STATION | SIGMA_MODE_AP | SIGMA_MODE_SNIFFER

datatype driver_type =
  DRIVER_NOT_SET | DRIVER_ATHEROS | DRIVER_WCN | DRIVER_MAC80211 | DRIVER_AR6003 | DRIVER_WIL6210
| DRIVER_QNXNTO | DRIVER_OPENWRT

datatype openwrt_driver_type = OPENWRT_DRIVER_NOT_SET | OPENWRT_DRIVER_ATHEROS

text \<open>
  The fields of \<open>struct sigma_dut\<close>, then the global variables: the interfaces and the path of the control
  sockets given on the command line, and the kinds of chip.
\<close>

record 'e agent =
  a_mode :: sigma_mode
  a_sniffer_ifname :: "string option"
  a_timeout :: nat
  a_version :: "string option"
  sigma_main_ifname :: "string option"
  sigma_station_ifname :: "string option"
  sigma_wpas_ctrl :: string
  wifi_chip_type :: driver_type
  openwrt_chip_type :: openwrt_driver_type
  a_resps :: "(sigma_status \<times> string) list"
  a_ext :: 'e

text \<open>
  The system calls: \<open>system\<close>, \<open>malloc\<close>, \<open>strdup\<close>, \<open>stat\<close>, \<open>readlink\<close>, \<open>if_nametoindex\<close>, writing a
  new file, reading a file or the output of a shell command, and the calls on a socket; \<open>recv\<close> gives the bytes it stored, \<open>None\<close> for a negative result.  The control
  interface of \<open>wpa_supplicant\<close> (the library \<open>wpa_ctrl.c\<close> of that project) is one call: it opens the
  socket at a path, sends a command and receives the reply into a buffer of the given size.
\<close>

datatype ctrl_result = Ctrl_not_open | Ctrl_failed | Ctrl_reply string

record 'e env =
  e_system :: "string \<Rightarrow> 'e \<Rightarrow> int \<times> 'e"
  e_stat :: "string \<Rightarrow> 'e \<Rightarrow> bool \<times> 'e"
  e_readlink :: "string \<Rightarrow> nat \<Rightarrow> 'e \<Rightarrow> string option \<times> 'e"
  e_nametoindex :: "string \<Rightarrow> 'e \<Rightarrow> bool \<times> 'e"
  e_write :: "string \<Rightarrow> string \<Rightarrow> 'e \<Rightarrow> bool \<times> 'e"
  e_read :: "string \<Rightarrow> 'e \<Rightarrow> string option \<times> 'e"
  e_popen :: "string \<Rightarrow> 'e \<Rightarrow> string option \<times> 'e"
  e_ctrl :: "string \<Rightarrow> string \<Rightarrow> nat \<Rightarrow> 'e \<Rightarrow> ctrl_result \<times> 'e"
  e_malloc :: "nat \<Rightarrow> 'e \<Rightarrow> bool \<times> 'e"
  e_socket :: "'e \<Rightarrow> int \<times> 'e"
  e_connect :: "int \<Rightarrow> string \<Rightarrow> 'e \<Rightarrow> int \<times> 'e"
  e_send :: "int \<Rightarrow> octets \<Rightarrow> 'e \<Rightarrow> int \<times> 'e"
  e_recv :: "int \<Rightarrow> nat \<Rightarrow> 'e \<Rightarrow> octets option \<times> 'e"
  e_close :: "int \<Rightarrow> 'e \<Rightarrow> unit \<times> 'e"

text \<open>The calls of a system with nothing in it, for the systems of the witnesses.\<close>

definition null_env :: "'e env" where
  "null_env =
     \<lparr>e_system = (\<lambda>c w. (0, w)), e_stat = (\<lambda>p w. (False, w)), e_readlink = (\<lambda>p n w. (None, w)),
      e_nametoindex = (\<lambda>n w. (False, w)), e_write = (\<lambda>n t w. (True, w)), e_read = (\<lambda>p w. (None, w)),
      e_popen = (\<lambda>c w. (None, w)), e_ctrl = (\<lambda>p c n w. (Ctrl_not_open, w)), e_malloc = (\<lambda>n w. (True, w)),
      e_socket = (\<lambda>w. (3, w)), e_connect = (\<lambda>s p w. (0, w)), e_send = (\<lambda>s m w. (int (length m), w)),
      e_recv = (\<lambda>s n w. (None, w)), e_close = (\<lambda>s w. ((), w))\<rparr>"

text \<open>What is documented of receiving: no more bytes are stored than there is room for.\<close>

definition ctrl_bounded :: "'e env \<Rightarrow> bool" where
  "ctrl_bounded E \<longleftrightarrow> (\<forall>p c n w t w'. e_ctrl E p c n w = (Ctrl_reply t, w') \<longrightarrow> length t \<le> n)"

definition recv_bounded :: "'e env \<Rightarrow> bool" where
  "recv_bounded E \<longleftrightarrow> (\<forall>s n w bs w'. e_recv E s n w = (Some bs, w') \<longrightarrow> length bs \<le> n)"

type_synonym ('e, 'a) action = "('e agent, unit, 'a) prog"
type_synonym 'e capi = "sigma_cmd \<Rightarrow> ('e, int) action"

definition ext :: "('e \<Rightarrow> 'a \<times> 'e) \<Rightarrow> ('e, 'a) action" where
  "ext f = sys (\<lambda>w. case f (a_ext w) of (x, e) \<Rightarrow> (x, w\<lparr>a_ext := e\<rparr>))"

definition field :: "('e agent \<Rightarrow> 'a) \<Rightarrow> ('e, 'a) action" where
  "field f = sys (\<lambda>w. (f w, w))"

definition update :: "('e agent \<Rightarrow> 'e agent) \<Rightarrow> ('e, unit) action" where
  "update f = sys (\<lambda>w. ((), f w))"

definition set_mode :: "sigma_mode \<Rightarrow> ('e, unit) action" where
  "set_mode m = update (\<lambda>w. w\<lparr>a_mode := m\<rparr>)"

text \<open>\<open>send_resp\<close> on the connection of the handler.\<close>

definition reply :: "sigma_status \<Rightarrow> string \<Rightarrow> ('e, unit) action" where
  "reply st t = sys (\<lambda>w. ((), w\<lparr>a_resps := a_resps w @ [(st, t)]\<rparr>))"

definition snprintf :: "nat \<Rightarrow> string \<Rightarrow> string" where
  "snprintf n t = take (n - 1) t"

text \<open>A run of shell commands that must succeed: each is run when those before it have.\<close>

definition system_ok :: "'e env \<Rightarrow> string \<Rightarrow> ('e, bool) action" where
  "system_ok E cmd = bind_p (ext (e_system E cmd)) (\<lambda>r. ret (r = 0))"

subsection \<open>Handlers in the command table\<close>

definition start_proc :: "'e agent \<Rightarrow> ('e agent, unit) proc" where
  "start_proc w = \<lparr>world = w\<lparr>a_resps := []\<rparr>, stdin = [], stdout = [], stderr = []\<rparr>"

text \<open>The agent when it starts (\<open>main\<close> clears its state), in front of an outside world.\<close>

definition new_agent :: "'e \<Rightarrow> 'e agent" where
  "new_agent e =
     \<lparr>a_mode = SIGMA_MODE_UNKNOWN, a_sniffer_ifname = None, a_timeout = 120, a_version = None, sigma_main_ifname = None,
      sigma_station_ifname = None, sigma_wpas_ctrl = ''/var/run/wpa_supplicant/'', wifi_chip_type = DRIVER_NOT_SET,
      openwrt_chip_type = OPENWRT_DRIVER_NOT_SET, a_resps = [], a_ext = e\<rparr>"

definition as_process :: "'e agent process \<Rightarrow> 'e capi \<Rightarrow> 'e agent process" where
  "as_process crash h c waiting w =
     (case h c (start_proc w) of
        (Inr r, t) \<Rightarrow> (r, map (\<lambda>(st, t). resp_text st (Some t)) (a_resps (world t)), waiting, world t)
      | (Inl _, t) \<Rightarrow> crash c waiting w)"

definition register ::
  "'e agent process \<Rightarrow> (string \<times> (sigma_cmd \<Rightarrow> int) option \<times> 'e capi) list \<Rightarrow> 'e agent dut \<Rightarrow> 'e agent dut" where
  "register crash hs dut =
     fold (\<lambda>(cmd, validate, h) dut. snd (sigma_dut_reg_cmd True cmd validate (as_process crash h) dut)) hs dut"

subsection \<open>Rules\<close>

lemma wp_agent [wp_simps]:
  "wp (ext f) Q E s = (case f (a_ext (world s)) of (x, e) \<Rightarrow> Q x (s\<lparr>world := (world s)\<lparr>a_ext := e\<rparr>\<rparr>))"
  "wp (field g) Q E s = Q (g (world s)) s"
  "wp (update h) Q' E s = Q' () (s\<lparr>world := h (world s)\<rparr>)"
  "wp (set_mode m) Q' E s = Q' () (s\<lparr>world := (world s)\<lparr>a_mode := m\<rparr>\<rparr>)"
  "wp (reply st t) Q' E s = Q' () (s\<lparr>world := (world s)\<lparr>a_resps := a_resps (world s) @ [(st, t)]\<rparr>\<rparr>)"
  by (simp_all add: ext_def field_def update_def set_mode_def reply_def wp_sys split: prod.splits)

lemma gives_agent [gives_rules]:
  "(\<And>x. P x) \<Longrightarrow> gives C (ext f) P" "(\<And>x. P x) \<Longrightarrow> gives C (field g) P"
  "P' () \<Longrightarrow> gives C (update h) P'" "P' () \<Longrightarrow> gives C (set_mode m) P'" "P' () \<Longrightarrow> gives C (reply st t) P'"
  "(\<And>b. P'' b) \<Longrightarrow> gives C (system_ok E cmd) P''"
  by (auto simp: gives_def wp_simps system_ok_def split: prod.splits)

text \<open>The handlers registered last answer for their names.\<close>

lemma register_lookup:
  "handler_for cmd (register crash hs dut) =
     (case find (\<lambda>(k, _). strcasecmp_eq cmd k) (rev hs) of
        Some (_, validate, h) \<Rightarrow> Some (validate, as_process crash h)
      | None \<Rightarrow> handler_for cmd dut)"
proof -
  have "register crash hs dut =
      fold (\<lambda>(k, h). reg_ok k h) (map (\<lambda>(k, validate, h). (k, validate, as_process crash h)) hs) dut"
    unfolding register_def by (induction hs arbitrary: dut) (auto simp: reg_ok_def)
  moreover have "find (\<lambda>(k, h). strcasecmp_eq cmd k) (rev (map (\<lambda>(k, v, h). (k, v, as_process crash h)) hs)) =
      map_option (\<lambda>(k, v, h). (k, v, as_process crash h)) (find (\<lambda>(k, _). strcasecmp_eq cmd k) (rev hs))"
    by (induction hs rule: rev_induct) auto
  ultimately show ?thesis by (auto simp: cmds.lookup_regs split: option.splits)
qed

end
