(* ===== verification/Sigma_Wpa.thy ===== *)
theory Sigma_Wpa
  imports Sigma_Agent
begin

text \<open>
  The helpers of the test agent: the kinds of driver (\<open>wifi_tools/sigma_dut/utils.c\<close>) and the exchange with
  \<open>wpa_supplicant\<close> (\<open>wifi_tools/sigma_dut/wpa_helpers.c\<close>): choosing an interface, commands and replies, a
  field of the status, the list of networks, and the switch to station mode.  The wait for events
  (\<open>get_wpa_cli_events\<close>) depends on the clock and is left out.
\<close>

subsection \<open>Drivers and programs\<close>

definition starts_with :: "string \<Rightarrow> string \<Rightarrow> bool" where
  "starts_with s p = strncmp_eq s p (length p)"

text \<open>\<open>strstr\<close> finds \<open>p\<close> in \<open>s\<close>.\<close>

fun occurs_in :: "string \<Rightarrow> string \<Rightarrow> bool" where
  "occurs_in p [] = (p = [])"
| "occurs_in p (c # s) = (starts_with (c # s) p \<or> occurs_in p s)"

definition file_exists :: "'e env \<Rightarrow> string \<Rightarrow> ('e, bool) action" where
  "file_exists E fname = ext (e_stat E fname)"

definition set_chip :: "driver_type \<Rightarrow> ('e, int) action" where
  "set_chip d = then_p (update (\<lambda>w. w\<lparr>wifi_chip_type := d\<rparr>)) (ret 0)"

definition set_wifi_chip :: "string \<Rightarrow> ('e, int) action" where
  "set_wifi_chip chip_type =
     (if starts_with chip_type ''WCN'' then set_chip DRIVER_WCN
      else if starts_with chip_type ''ATHEROS'' then set_chip DRIVER_ATHEROS
      else if starts_with chip_type ''AR6003'' then set_chip DRIVER_AR6003
      else if chip_type = ''MAC80211'' then set_chip DRIVER_MAC80211
      else if chip_type = ''QNXNTO'' then set_chip DRIVER_QNXNTO
      else if chip_type = ''OPENWRT'' then set_chip DRIVER_OPENWRT
      else ret (-1))"

definition get_station_ifname :: "'e env \<Rightarrow> ('e, string) action" where
  "get_station_ifname E =
     bind_p (field sigma_station_ifname) (\<lambda>ifname. case ifname of
       Some n \<Rightarrow> ret n
     | None \<Rightarrow>
         bind_p (ext (e_nametoindex E ''wlan1'')) (\<lambda>wlan1.
         bind_p (if wlan1 then ext (e_nametoindex E ''wlan0'') else ret False) (\<lambda>both.
           if both then ret ''wlan0''
           else bind_p (ext (e_nametoindex E ''ath0'')) (\<lambda>ath0.
             if ath0 then ret ''ath0'' else ret ''wlan0''))))"

definition get_driver_type :: "'e env \<Rightarrow> ('e, driver_type) action" where
  "get_driver_type E =
     bind_p (field wifi_chip_type) (\<lambda>chip.
       if chip = DRIVER_NOT_SET then
         bind_p (get_station_ifname E) (\<lambda>ifname.
         bind_p (ext (e_readlink E (snprintf 256 (''/sys/class/net/'' @ ifname @ ''/device/driver'')) 255)) (\<lambda>link.
           if (case link of Some l \<Rightarrow> occurs_in ''wil6210'' l | None \<Rightarrow> False) then ret DRIVER_WIL6210
           else bind_p (ext (e_stat E ''/sys/module/mac80211'')) (\<lambda>mac.
             if mac then ret DRIVER_MAC80211 else ret DRIVER_ATHEROS)))
       else ret chip)"

definition get_openwrt_driver_type :: "'e env \<Rightarrow> ('e, openwrt_driver_type) action" where
  "get_openwrt_driver_type E =
     bind_p (field openwrt_chip_type) (\<lambda>chip.
     then_p (if chip = OPENWRT_DRIVER_NOT_SET then
               bind_p (ext (e_stat E ''/sys/module/ath_hal'')) (\<lambda>hal.
                 if hal then update (\<lambda>w. w\<lparr>openwrt_chip_type := OPENWRT_DRIVER_ATHEROS\<rparr>) else ret ())
             else ret ())
       (field openwrt_chip_type))"

datatype sigma_program =
  PROGRAM_UNKNOWN | PROGRAM_TDLS | PROGRAM_HS2 | PROGRAM_HS2_R2 | PROGRAM_WFD | PROGRAM_PMF | PROGRAM_WPS
| PROGRAM_60GHZ | PROGRAM_HT | PROGRAM_VHT | PROGRAM_NAN

definition sigma_program_to_enum :: "string option \<Rightarrow> sigma_program" where
  "sigma_program_to_enum prog =
     (case prog of None \<Rightarrow> PROGRAM_UNKNOWN
      | Some p \<Rightarrow>
          if strcasecmp_eq p ''TDLS'' then PROGRAM_TDLS
          else if strcasecmp_eq p ''HS2'' then PROGRAM_HS2
          else if strcasecmp_eq p ''HS2_R2'' \<or> strcasecmp_eq p ''HS2-R2'' then PROGRAM_HS2_R2
          else if strcasecmp_eq p ''WFD'' then PROGRAM_WFD
          else if strcasecmp_eq p ''PMF'' then PROGRAM_PMF
          else if strcasecmp_eq p ''WPS'' then PROGRAM_WPS
          else if strcasecmp_eq p ''11n'' then PROGRAM_HT
          else if strcasecmp_eq p ''VHT'' then PROGRAM_VHT
          else if strcasecmp_eq p ''60GHZ'' then PROGRAM_60GHZ
          else if strcasecmp_eq p ''NAN'' then PROGRAM_NAN
          else PROGRAM_UNKNOWN)"

subsection \<open>Interfaces\<close>

definition get_main_ifname :: "'e env \<Rightarrow> ('e, string) action" where
  "get_main_ifname E =
     bind_p (get_driver_type E) (\<lambda>drv.
     bind_p (get_openwrt_driver_type E) (\<lambda>openwrt_drv.
     bind_p (field sigma_main_ifname) (\<lambda>ifname. case ifname of
       Some n \<Rightarrow> ret n
     | None \<Rightarrow>
         bind_p (ext (e_nametoindex E ''p2p0'')) (\<lambda>p2p0. if p2p0 then ret ''p2p0'' else
         bind_p (ext (e_nametoindex E ''wlan1'')) (\<lambda>wlan1.
           if wlan1 then
             bind_p (ext (e_stat E ''/sys/module/mac80211'')) (\<lambda>mac.
             bind_p (if mac then ext (e_nametoindex E ''wlan0'') else ret False) (\<lambda>dual.
               if dual then ret ''wlan0'' else ret ''wlan1''))
           else
         bind_p (ext (e_nametoindex E ''wlan0'')) (\<lambda>wlan0. if wlan0 then ret ''wlan0'' else
           if drv = DRIVER_ATHEROS \<or> openwrt_drv = OPENWRT_DRIVER_ATHEROS then
             bind_p (ext (e_nametoindex E ''ath2'')) (\<lambda>ath2. if ath2 then ret ''ath2'' else
             bind_p (ext (e_nametoindex E ''ath1'')) (\<lambda>ath1. if ath1 then ret ''ath1'' else ret ''ath0''))
           else ret ''unknown''))))))"

definition dut_ifc_reset :: "'e env \<Rightarrow> ('e, unit) action" where
  "dut_ifc_reset E =
     bind_p (get_station_ifname E) (\<lambda>ifc.
     bind_p (ext (e_system E (snprintf 256 (''ifconfig '' @ ifc @ '' down'')))) (\<lambda>_.
     bind_p (ext (e_system E (snprintf 256 (''ifconfig '' @ ifc @ '' up'')))) (\<lambda>_. ret ())))"

subsection \<open>Commands and replies\<close>

text \<open>
  The reply is received into a buffer of \<open>size\<close> bytes and a NUL is stored behind it: behind a reply that
  fills the buffer this is outside.  \<open>None\<close> is the result \<open>-1\<close>.
\<close>

definition ctrl_request :: "'e env \<Rightarrow> nat \<Rightarrow> string \<Rightarrow> string \<Rightarrow> nat \<Rightarrow> ('e, string option) action" where
  "ctrl_request E path_size ifname cmd n =
     bind_p (field sigma_wpas_ctrl) (\<lambda>ctrl.
     bind_p (ext (e_ctrl E (snprintf path_size (ctrl @ ifname)) cmd n)) (\<lambda>r. case r of
       Ctrl_not_open \<Rightarrow> ret None
     | Ctrl_failed \<Rightarrow> ret None
     | Ctrl_reply t \<Rightarrow> if n \<le> length t then undef_p else ret (Some t)))"

definition wpa_command :: "'e env \<Rightarrow> string \<Rightarrow> string \<Rightarrow> ('e, int) action" where
  "wpa_command E ifname cmd =
     bind_p (ctrl_request E 128 ifname cmd 128) (\<lambda>r. case r of
       None \<Rightarrow> ret (-1)
     | Some buf \<Rightarrow> if strncmp_eq buf ''FAIL'' 4 then ret (-1) else ret 0)"

definition wpa_command_resp :: "'e env \<Rightarrow> string \<Rightarrow> string \<Rightarrow> nat \<Rightarrow> ('e, string option) action" where
  "wpa_command_resp E ifname cmd resp_size = ctrl_request E 128 ifname cmd resp_size"

text \<open>
  The search for \<open>field=\<close> at the beginning of a line: \<open>s\<close> is the text from \<open>pos\<close> on, \<open>first\<close> whether \<open>pos\<close>
  is still at the beginning of the buffer.  A line without an end gives \<open>None\<close>.
\<close>

function status_scan :: "string \<Rightarrow> bool \<Rightarrow> string \<Rightarrow> string option" where
  "status_scan fld first s =
     (if length s \<le> length fld then None
      else if \<not> first \<and> hd s \<noteq> nl then status_scan fld False (tl s)
      else (let s = (if first then s else tl s) in
        if \<not> strncmp_eq s fld (length fld) \<or> char_at s (length fld) \<noteq> CHR ''='' then status_scan fld False (tl s)
        else (let v = drop (length fld + 1) s in
          if nl \<in> set v then Some (takeWhile (\<lambda>c. c \<noteq> nl) v) else None)))"
  by pat_completeness auto
termination
  by (relation "measure (\<lambda>(fld, first, s). length s)") (auto simp: neq_Nil_conv)

declare status_scan.simps [simp del]

text \<open>The text of the reply ends at a NUL byte for \<open>strncmp\<close> and \<open>strchr\<close>; replies have none.\<close>

definition get_wpa_status :: "'e env \<Rightarrow> string \<Rightarrow> string \<Rightarrow> nat \<Rightarrow> ('e, string option) action" where
  "get_wpa_status E ifname fld obuf_size =
     bind_p (ctrl_request E 4096 ifname ''STATUS'' 4096) (\<lambda>r. case r of
       None \<Rightarrow> ret None
     | Some buf \<Rightarrow>
         (case status_scan fld True buf of
            None \<Rightarrow> ret None
          | Some v \<Rightarrow> if obuf_size < length v + 1 then ret None else ret (Some v)))"

fun wait_ip_addr :: "'e env \<Rightarrow> string \<Rightarrow> nat \<Rightarrow> ('e, int) action" where
  "wait_ip_addr E ifname 0 = ret (-1)"
| "wait_ip_addr E ifname (Suc count) =
     bind_p (get_wpa_status E ifname ''ip_address'' 30) (\<lambda>ip.
       if (case ip of Some v \<Rightarrow> 0 < length v | None \<Rightarrow> False) then ret 0
       else wait_ip_addr E ifname count)"

text \<open>The lines of the list behind its header.\<close>

function remove_loop :: "'e env \<Rightarrow> string \<Rightarrow> string \<Rightarrow> ('e, unit) action" where
  "remove_loop E ifname pos =
     (if pos = [] then ret ()
      else bind_p (wpa_command E ifname (snprintf 256 (''REMOVE_NETWORK '' @ fmt_d (atoi pos)))) (\<lambda>_.
        (case split_at nl pos of None \<Rightarrow> ret () | Some (l, pos) \<Rightarrow> remove_loop E ifname pos)))"
  by pat_completeness auto
termination
  by (relation "measure (\<lambda>(E, ifname, pos). length pos)") (auto dest: split_at_length)

declare remove_loop.simps [simp del]

definition remove_wpa_networks :: "'e env \<Rightarrow> string \<Rightarrow> ('e, unit) action" where
  "remove_wpa_networks E ifname =
     bind_p (wpa_command_resp E ifname ''LIST_NETWORKS'' 4096) (\<lambda>r. case r of
       None \<Rightarrow> ret ()
     | Some buf \<Rightarrow> (case split_at nl buf of None \<Rightarrow> ret () | Some (l, pos) \<Rightarrow> remove_loop E ifname pos))"

definition add_entry :: "'e env \<Rightarrow> string \<Rightarrow> string \<Rightarrow> ('e, int) action" where
  "add_entry E ifname cmd =
     bind_p (wpa_command_resp E ifname cmd 30) (\<lambda>r. case r of None \<Rightarrow> ret (-1) | Some res \<Rightarrow> ret (atoi res))"

definition add_network :: "'e env \<Rightarrow> string \<Rightarrow> ('e, int) action" where
  "add_network E ifname = add_entry E ifname ''ADD_NETWORK''"

definition add_cred :: "'e env \<Rightarrow> string \<Rightarrow> ('e, int) action" where
  "add_cred E ifname = add_entry E ifname ''ADD_CRED''"

definition set_text :: "string \<Rightarrow> int \<Rightarrow> string \<Rightarrow> string \<Rightarrow> string" where
  "set_text verb i fld val = snprintf 200 (verb @ '' '' @ fmt_d i @ '' '' @ fld @ '' '' @ val)"

definition quoted :: "string \<Rightarrow> string" where
  "quoted val = [CHR 0x22] @ val @ [CHR 0x22]"

definition set_network :: "'e env \<Rightarrow> string \<Rightarrow> int \<Rightarrow> string \<Rightarrow> string \<Rightarrow> ('e, int) action" where
  "set_network E ifname i fld val = wpa_command E ifname (set_text ''SET_NETWORK'' i fld val)"

definition set_network_quoted :: "'e env \<Rightarrow> string \<Rightarrow> int \<Rightarrow> string \<Rightarrow> string \<Rightarrow> ('e, int) action" where
  "set_network_quoted E ifname i fld val = wpa_command E ifname (set_text ''SET_NETWORK'' i fld (quoted val))"

definition set_cred :: "'e env \<Rightarrow> string \<Rightarrow> int \<Rightarrow> string \<Rightarrow> string \<Rightarrow> ('e, int) action" where
  "set_cred E ifname i fld val = wpa_command E ifname (set_text ''SET_CRED'' i fld val)"

definition set_cred_quoted :: "'e env \<Rightarrow> string \<Rightarrow> int \<Rightarrow> string \<Rightarrow> string \<Rightarrow> ('e, int) action" where
  "set_cred_quoted E ifname i fld val = wpa_command E ifname (set_text ''SET_CRED'' i fld (quoted val))"

subsection \<open>Station mode\<close>

text \<open>After \<open>killall hostapd\<close> has found a process: at most ten looks for it, half a second apart.\<close>

fun wait_hostapd :: "'e env \<Rightarrow> nat \<Rightarrow> ('e, unit) action" where
  "wait_hostapd E 0 = ret ()"
| "wait_hostapd E (Suc n) =
     bind_p (ext (e_system E ''pidof hostapd'')) (\<lambda>r. if r \<noteq> 0 then ret () else wait_hostapd E n)"

definition kill_hostapd :: "'e env \<Rightarrow> ('e, unit) action" where
  "kill_hostapd E =
     bind_p (ext (e_system E ''killall hostapd'')) (\<lambda>r. if r = 0 then wait_hostapd E 10 else ret ())"

definition SIGMA_TMPDIR :: string where "SIGMA_TMPDIR = ''/tmp''"

text \<open>The path of the control sockets without a slash at its end.\<close>

definition drop_slash :: "string \<Rightarrow> string" where
  "drop_slash p = (if p \<noteq> [] \<and> last p = CHR ''/'' then butlast p else p)"

definition sta_conf :: "string \<Rightarrow> string" where
  "sta_conf ctrl =
     ''ctrl_interface='' @ drop_slash ctrl @ [nl] @ ''device_name=Test client'' @ [nl] @
     ''device_type=1-0050F204-1'' @ [nl]"

definition start_supplicant :: "'e env \<Rightarrow> string \<Rightarrow> ('e, int) action" where
  "start_supplicant E ifname =
     (let conf = SIGMA_TMPDIR @ ''/sigma_dut-sta.conf'' in
      bind_p (ext (e_write E conf [])) (\<lambda>opened.
        if \<not> opened then ret (-1)
        else bind_p (field sigma_wpas_ctrl) (\<lambda>ctrl.
        bind_p (ext (e_malloc E (length ctrl + 1))) (\<lambda>ok.
          if \<not> ok then ret (-1)
          else bind_p (ext (e_write E conf (sta_conf ctrl))) (\<lambda>_.
          bind_p (ext (e_system E (snprintf 100 (''wpa_supplicant -Dnl80211 -i'' @ ifname @ '' -B -c'' @ conf)))) (\<lambda>r.
            if r \<noteq> 0 then ret (-1)
            else bind_p (wpa_command E ifname ''PING'') (\<lambda>ping.
              if ping \<noteq> 0 then ret (-1) else ret 0)))))))"

text \<open>Leaving the mode the agent was in.\<close>

definition leave_mode :: "'e env \<Rightarrow> sigma_mode \<Rightarrow> string option \<Rightarrow> ('e, unit) action" where
  "leave_mode E mode sniffer =
     then_p (if mode = SIGMA_MODE_AP then kill_hostapd E else ret ())
       (case (if mode = SIGMA_MODE_SNIFFER then sniffer else None) of
          None \<Rightarrow> ret ()
        | Some ifn \<Rightarrow>
            bind_p (ext (e_system E (snprintf 100 (''ifconfig '' @ ifn @ '' down'')))) (\<lambda>_.
            bind_p (ext (e_system E (snprintf 100 (''iw dev '' @ ifn @ '' set type station'')))) (\<lambda>_. ret ())))"

definition start_sta_mode :: "'e env \<Rightarrow> ('e, int) action" where
  "start_sta_mode E =
     bind_p (field a_mode) (\<lambda>mode.
     bind_p (field a_sniffer_ifname) (\<lambda>sniffer.
       if mode = SIGMA_MODE_STATION then ret 0
       else then_p (leave_mode E mode sniffer) (then_p (set_mode SIGMA_MODE_STATION) (
         bind_p (get_main_ifname E) (\<lambda>ifname.
         bind_p (wpa_command E ifname ''PING'') (\<lambda>ping.
           if ping = 0 then ret 0 else start_supplicant E ifname))))))"

definition stop_sta_mode :: "'e env \<Rightarrow> ('e, unit) action" where
  "stop_sta_mode E =
     bind_p (wpa_command E ''wlan0'' ''TERMINATE'') (\<lambda>_.
     bind_p (wpa_command E ''wlan1'' ''TERMINATE'') (\<lambda>_.
     bind_p (wpa_command E ''ath0'' ''TERMINATE'') (\<lambda>_.
     bind_p (wpa_command E ''ath1'' ''TERMINATE'') (\<lambda>_. ret ()))))"

subsection \<open>A field of the status\<close>

lemma wp_ctrl_request [wp_simps]:
  "wp (ctrl_request E m ifname cmd n) Q X s =
     (case e_ctrl E (snprintf m (sigma_wpas_ctrl (world s) @ ifname)) cmd n (a_ext (world s)) of (r, e) \<Rightarrow>
      let t = s\<lparr>world := (world s)\<lparr>a_ext := e\<rparr>\<rparr> in
      case r of Ctrl_not_open \<Rightarrow> Q None t | Ctrl_failed \<Rightarrow> Q None t
      | Ctrl_reply x \<Rightarrow> if n \<le> length x then X Undef t else Q (Some x) t)"
  by (simp add: ctrl_request_def wp_simps Let_def split: prod.splits ctrl_result.splits)

definition status_lines :: "(string \<times> string) list \<Rightarrow> string" where
  "status_lines kvs = concat (map (\<lambda>(k, v). k @ CHR ''='' # v @ [nl]) kvs)"

definition status_ok :: "(string \<times> string) list \<Rightarrow> bool" where
  "status_ok = list_all (\<lambda>(k, v). CHR ''='' \<notin> set k \<and> nl \<notin> set k \<and> nl \<notin> set v)"

lemma status_lines_simps [simp]:
  "status_lines [] = []" "status_lines ((k, v) # kvs) = k @ CHR ''='' # v @ nl # status_lines kvs"
  by (simp_all add: status_lines_def)

lemma status_skip: "nl \<notin> set l \<Longrightarrow> status_scan fld False (l @ nl # r) = status_scan fld False (nl # r)"
proof (induction l)
  case (Cons c l)
  have "status_scan fld False (c # l @ nl # r) =
      (if length (c # l @ nl # r) \<le> length fld then None else status_scan fld False (l @ nl # r))"
    using Cons.prems by (subst status_scan.simps) auto
  moreover have "status_scan fld False (nl # r) = None" if "length (c # l @ nl # r) \<le> length fld"
    using that by (subst status_scan.simps) simp
  ultimately show ?case using Cons by auto
qed simp

text \<open>The test at the beginning of a line says whether its key is the field.\<close>

lemma status_match:
  assumes "CHR ''='' \<notin> set k" "CHR ''='' \<notin> set fld"
  shows "strncmp_eq (k @ CHR ''='' # r) fld (length fld) \<and> char_at (k @ CHR ''='' # r) (length fld) = CHR ''='' \<longleftrightarrow>
    k = fld"
proof
  let ?s = "k @ CHR ''='' # r"
  assume m: "strncmp_eq ?s fld (length fld) \<and> char_at ?s (length fld) = CHR ''=''"
  then have "length fld < length ?s" by (auto simp: char_at_def NUL_def split: if_splits)
  then have "?s = fld @ CHR ''='' # drop (Suc (length fld)) ?s"
    using m id_take_nth_drop [of "length fld" ?s] by (simp add: strncmp_eq_def char_at_def)
  then show "k = fld" using assms by (metis split_at_append option.inject prod.inject)
qed (simp add: strncmp_eq_def char_at_def)

lemma status_short: "map_of kvs fld = Some v \<Longrightarrow> length fld < length (status_lines kvs)"
  by (induction kvs) (auto split: if_splits)

lemma status_line:
  assumes "status_ok ((k, v) # kvs)" "CHR ''='' \<notin> set fld"
    and IH: "status_scan fld False (nl # status_lines kvs) = map_of kvs fld"
  shows "status_scan fld first (if first then status_lines ((k, v) # kvs) else nl # status_lines ((k, v) # kvs)) =
    map_of ((k, v) # kvs) fld"
proof -
  let ?l = "k @ CHR ''='' # v @ nl # status_lines kvs"
  have ok: "CHR ''='' \<notin> set k" "nl \<notin> set k" "nl \<notin> set v" using assms(1) by (auto simp: status_ok_def)
  have m: "strncmp_eq ?l fld (length fld) \<and> char_at ?l (length fld) = CHR ''='' \<longleftrightarrow> k = fld"
    by (rule status_match [OF ok(1) assms(2)])
  show ?thesis
  proof (cases "k = fld")
    case True
    then show ?thesis using m ok by (subst status_scan.simps) (auto simp: takeWhile_append)
  next
    case False
    obtain c l where l: "k @ CHR ''='' # v = c # l" by (cases "k @ CHR ''='' # v") auto
    have "nl \<notin> set (c # l)" unfolding l [symmetric] using ok by simp
    then have l': "nl \<notin> set l" by simp
    have cl: "?l = c # l @ nl # status_lines kvs" using arg_cong [OF l, of "\<lambda>x. x @ nl # status_lines kvs"] by simp
    have "status_scan fld False (tl ?l) = map_of kvs fld"
      unfolding cl list.sel status_skip [OF l'] by (rule IH)
    moreover have "map_of kvs fld = None" if "length ?l \<le> length fld"
      using that status_short [of kvs fld] by (cases "map_of kvs fld") auto
    ultimately show ?thesis using m False by (subst status_scan.simps) auto
  qed
qed

lemma status_scan_lines:
  assumes "status_ok kvs" "CHR ''='' \<notin> set fld"
  shows "status_scan fld False (nl # status_lines kvs) = map_of kvs fld"
    and "status_scan fld True (status_lines kvs) = map_of kvs fld"
proof -
  have tail: "status_scan fld False (nl # status_lines ks) = map_of ks fld" if "status_ok ks" for ks
    using that
  proof (induction ks)
    case Nil
    then show ?case by (auto simp: status_scan.simps [of fld False] strncmp_eq_def)
  next
    case (Cons kv ks)
    obtain k v where kv: "kv = (k, v)" by (cases kv)
    have "status_ok ks" using Cons.prems by (simp add: status_ok_def)
    from status_line [OF Cons.prems [unfolded kv] assms(2) Cons.IH [OF this], of False] show ?case by (simp add: kv)
  qed
  from tail [OF assms(1)] show "status_scan fld False (nl # status_lines kvs) = map_of kvs fld" .
  show "status_scan fld True (status_lines kvs) = map_of kvs fld"
  proof (cases kvs)
    case Nil
    then show ?thesis by (simp add: status_scan.simps)
  next
    case (Cons kv ks)
    obtain k v where kv: "kv = (k, v)" by (cases kv)
    have ok: "status_ok ((k, v) # ks)" using assms(1) by (simp add: Cons kv)
    then have "status_scan fld False (nl # status_lines ks) = map_of ks fld"
      by (intro tail) (simp add: status_ok_def)
    from status_line [OF ok assms(2) this, of True] show ?thesis by (simp add: Cons kv)
  qed
qed

text \<open>
  C31.  \<open>get_wpa_status\<close> refines a lookup: when \<open>wpa_supplicant\<close> answers \<open>STATUS\<close> with lines \<open>key=value\<close>, the
  result is the value of the first line whose key is the whole of \<open>field\<close>, when it fits the buffer of
  the caller with its NUL, and \<open>-1\<close> otherwise; a key or a value that merely contains \<open>field\<close> is never taken
  for it.
\<close>

theorem get_wpa_status_field:
  assumes "status_ok kvs" "CHR ''='' \<notin> set fld" "length (status_lines kvs) < 4096"
    and "\<And>p w. fst (e_ctrl E p ''STATUS'' 4096 w) = Ctrl_reply (status_lines kvs)"
  shows "wp (get_wpa_status E ifname fld n)
    (\<lambda>r _. r = (case map_of kvs fld of Some v \<Rightarrow> if length v < n then Some v else None | None \<Rightarrow> None))
    (\<lambda>_ _. False) s"
proof -
  have "r = Ctrl_reply (status_lines kvs)" if "e_ctrl E p ''STATUS'' 4096 w = (r, w')" for p w r w'
    using assms(4) [of p w] that by simp
  then show ?thesis
    using assms(3) status_scan_lines(2) [OF assms(1,2)]
    by (fastforce simp: get_wpa_status_def wp_simps split: prod.splits option.splits)
qed

text \<open>A supplicant that answers every command with a fixed text and keeps the commands it got.\<close>

definition supplicant :: "string \<Rightarrow> string list env" where
  "supplicant t = null_env\<lparr>e_ctrl := (\<lambda>p c n w. (Ctrl_reply (take n t), w @ [c]))\<rparr>"

theorem get_wpa_status_field_witness:
  "fst (get_wpa_status (supplicant (''bssid=aa'' @ [nl] @ ''p2p_ip_address=9'' @ [nl] @ ''ip_address=10.0.0.2'' @ [nl]))
     ''wlan0'' ''ip_address'' 30 (start_proc (new_agent []))) = Inr (Some ''10.0.0.2'')"
proof -
  let ?kvs = "[(''bssid'', ''aa''), (''p2p_ip_address'', ''9''), (''ip_address'', ''10.0.0.2'')]"
  have t: "''bssid=aa'' @ [nl] @ ''p2p_ip_address=9'' @ [nl] @ ''ip_address=10.0.0.2'' @ [nl] = status_lines ?kvs" by simp
  have "wp (get_wpa_status (supplicant (status_lines ?kvs)) ''wlan0'' ''ip_address'' 30)
      (\<lambda>r _. r = Some ''10.0.0.2'') (\<lambda>_ _. False) (start_proc (new_agent []))"
    by (rule wp_mono [OF get_wpa_status_field [where kvs = ?kvs]]) (simp_all add: status_ok_def supplicant_def null_env_def)
  then show ?thesis unfolding t by (rule wp_returns)
qed

subsection \<open>The list of networks\<close>

lemma atoi_tab:
  assumes "n < 2 ^ 31"
  shows "atoi (fmt_d (int n) @ CHR 0x09 # r) = int n"
proof -
  let ?ds = "digits_of 10 n"
  obtain c cs where ds: "?ds = c # cs" using digits_of_nonempty by (cases ?ds) auto
  obtain k where k: "k < 10" "c = hexchar k" using digits_of_digit [of 10 c n] ds by auto
  have c: "\<not> isspace c" "c \<noteq> CHR ''-''" "c \<noteq> CHR ''+''"
    using k hexchar_not_space [of k] hexchar_not_sign [of k] by auto
  have "\<not> digit_val (CHR 0x09) < 10" by (simp add: digit_val_def isdigit_def)
  then have t: "takeWhile (\<lambda>c. digit_val c < 10) (?ds @ CHR 0x09 # r) = ?ds"
    "dropWhile (\<lambda>c. digit_val c < 10) (?ds @ CHR 0x09 # r) = CHR 0x09 # r"
    by (auto simp: takeWhile_append2 dropWhile_append2 digits_of_digit_val)
  have "num_sign (dropWhile isspace (?ds @ CHR 0x09 # r)) = (False, ?ds @ CHR 0x09 # r)"
    using c by (simp add: ds num_sign_def)
  moreover have "num_base 10 (?ds @ CHR 0x09 # r) = (10, ?ds @ CHR 0x09 # r)" by (simp add: num_base_def)
  ultimately have "scan_num 10 (?ds @ CHR 0x09 # r) = Some (False, n, CHR 0x09 # r)"
    by (simp add: scan_num_def t digits_of_nonempty digits_val_digits_of)
  then have "strtol (?ds @ CHR 0x09 # r) 10 = (int n, CHR 0x09 # r)"
    using assms by (simp add: strtol_def LONG_MAX_def LONG_MIN_def)
  then show ?thesis using assms by (simp add: fmt_d_def atoi_def to_int_id)
qed

text \<open>A line of the list: the number of a network, a tab and the rest.\<close>

definition network_lines :: "(nat \<times> string) list \<Rightarrow> string" where
  "network_lines nets = concat (map (\<lambda>(n, r). fmt_d (int n) @ CHR 0x09 # r @ [nl]) nets)"

definition networks_ok :: "(nat \<times> string) list \<Rightarrow> bool" where
  "networks_ok = list_all (\<lambda>(n, r). n < 2 ^ 31 \<and> nl \<notin> set r)"

text \<open>A supplicant whose commands are kept in a log, and that sends short replies.\<close>

definition logs_commands :: "'e env \<Rightarrow> ('e \<Rightarrow> string list) \<Rightarrow> bool" where
  "logs_commands E log \<longleftrightarrow>
     (\<forall>p c n w. log (snd (e_ctrl E p c n w)) = log w @ [c]) \<and>
     (\<forall>p c n w t. fst (e_ctrl E p c n w) = Ctrl_reply t \<longrightarrow> length t < n)"

lemma wp_wpa_command_log:
  assumes "logs_commands E log"
    and "\<And>r t. log (a_ext (world t)) = log (a_ext (world s)) @ [cmd] \<Longrightarrow> Q r t"
  shows "wp (wpa_command E ifname cmd) Q X s"
proof -
  obtain r e where e: "e_ctrl E (snprintf 128 (sigma_wpas_ctrl (world s) @ ifname)) cmd 128 (a_ext (world s)) = (r, e)"
    by (cases "e_ctrl E (snprintf 128 (sigma_wpas_ctrl (world s) @ ifname)) cmd 128 (a_ext (world s))")
  have "log e = log (a_ext (world s)) @ [cmd]" "\<And>t. r = Ctrl_reply t \<Longrightarrow> length t < 128"
    using assms(1) e unfolding logs_commands_def by (metis snd_conv, metis fst_conv)
  then show ?thesis
    using assms(2) e by (auto simp: wpa_command_def wp_simps Let_def split: ctrl_result.splits)
qed

lemma fmt_d_no_nl: "nl \<notin> set (fmt_d (int n))"
  using fmt_d_digits [of nl n] by (auto simp: isdigit_def)

lemma remove_text: "n < 2 ^ 31 \<Longrightarrow> snprintf 256 (''REMOVE_NETWORK '' @ fmt_d (int n)) = ''REMOVE_NETWORK '' @ fmt_d (int n)"
proof -
  assume "n < 2 ^ 31"
  then have "length (digits_of 10 n) \<le> Suc 9" by (intro length_digits_of_le) simp
  then show ?thesis by (simp add: snprintf_def fmt_d_def)
qed

lemma remove_loop_log:
  assumes "logs_commands E log" "networks_ok nets"
  shows "wp (remove_loop E ifname (network_lines nets))
    (\<lambda>_ t. log (a_ext (world t)) =
       log (a_ext (world s)) @ map (\<lambda>(n, _). ''REMOVE_NETWORK '' @ fmt_d (int n)) nets) (\<lambda>_ _. False) s"
  using assms(2)
proof (induction nets arbitrary: s)
  case Nil
  then show ?case by (subst remove_loop.simps) (simp add: network_lines_def wp_simps)
next
  case (Cons x nets)
  obtain n r where x: "x = (n, r)" by (cases x)
  let ?l = "fmt_d (int n) @ CHR 0x09 # r"
  have ok: "n < 2 ^ 31" "nl \<notin> set ?l" "networks_ok nets"
    using Cons.prems fmt_d_no_nl [of n] by (auto simp: x networks_ok_def)
  have lines: "network_lines (x # nets) = ?l @ nl # network_lines nets" by (simp add: x network_lines_def)
  have num: "snprintf 256 (''REMOVE_NETWORK '' @ fmt_d (atoi (?l @ nl # network_lines nets))) =
      ''REMOVE_NETWORK '' @ fmt_d (int n)"
    using atoi_tab [OF ok(1), of "r @ nl # network_lines nets"] remove_text [OF ok(1)] by simp
  have loop: "remove_loop E ifname (?l @ nl # network_lines nets) =
      bind_p (wpa_command E ifname (''REMOVE_NETWORK '' @ fmt_d (int n))) (\<lambda>_. remove_loop E ifname (network_lines nets))"
    using split_at_append [OF ok(2)] by (subst remove_loop.simps) (simp only: num append_is_Nil_conv, simp)
  show ?case
    unfolding lines loop wp_bind
    by (rule wp_wpa_command_log [OF assms(1)], rule wp_mono [OF Cons.IH [OF ok(3)]]) (simp_all add: x)
qed

text \<open>
  \<open>remove_wpa_networks\<close> removes every network of the list: with the list a header and a line for
  each network, the commands sent are \<open>LIST_NETWORKS\<close> and then \<open>REMOVE_NETWORK\<close> with the number of each
  network, once each and in the order of the list.
\<close>

theorem remove_wpa_networks_all:
  assumes "logs_commands E log" "networks_ok nets" "nl \<notin> set header"
    and "\<And>p w. fst (e_ctrl E p ''LIST_NETWORKS'' 4096 w) = Ctrl_reply (header @ nl # network_lines nets)"
  shows "wp (remove_wpa_networks E ifname)
    (\<lambda>_ t. log (a_ext (world t)) =
       log (a_ext (world s)) @ ''LIST_NETWORKS'' # map (\<lambda>(n, _). ''REMOVE_NETWORK '' @ fmt_d (int n)) nets)
    (\<lambda>_ _. False) s"
proof -
  let ?p = "snprintf 128 (sigma_wpas_ctrl (world s) @ ifname)" and ?t = "header @ nl # network_lines nets"
  obtain e where e: "e_ctrl E ?p ''LIST_NETWORKS'' 4096 (a_ext (world s)) = (Ctrl_reply ?t, e)"
    using assms(4) by (cases "e_ctrl E ?p ''LIST_NETWORKS'' 4096 (a_ext (world s))") (metis fst_conv)
  then have "log e = log (a_ext (world s)) @ [''LIST_NETWORKS'']" "length ?t < 4096"
    using assms(1) unfolding logs_commands_def by (metis snd_conv, metis fst_conv)
  then show ?thesis
    using remove_loop_log [OF assms(1,2), of ifname "s\<lparr>world := (world s)\<lparr>a_ext := e\<rparr>\<rparr>"] split_at_append [OF assms(3)] e
    by (simp add: remove_wpa_networks_def wpa_command_resp_def wp_simps)
qed

text \<open>A supplicant with two networks.\<close>

definition two_networks :: "string list env" where
  "two_networks =
     null_env\<lparr>e_ctrl := (\<lambda>p c n w. (if c = ''LIST_NETWORKS''
         then (if n \<noteq> 4096 then Ctrl_failed else Ctrl_reply (''id'' @ nl # network_lines [(0, ''home''), (12, ''work'')]))
         else Ctrl_failed, w @ [c]))\<rparr>"

lemma two_networks_length: "length (''id'' @ nl # network_lines [(0, ''home''), (12, ''work'')]) < 4096"
  by code_simp

lemma two_networks_logs: "logs_commands two_networks (\<lambda>w. w)"
  using two_networks_length by (simp add: logs_commands_def two_networks_def)

theorem remove_wpa_networks_all_witness:
  "a_ext (world (snd (remove_wpa_networks two_networks ''wlan0'' (start_proc (new_agent []))))) =
     [''LIST_NETWORKS'', ''REMOVE_NETWORK 0'', ''REMOVE_NETWORK 12'']"
proof -
  have d: "fmt_d 0 = ''0''" "fmt_d 12 = ''12''" by code_simp+
  have "wp (remove_wpa_networks two_networks ''wlan0'')
      (\<lambda>_ t. a_ext (world t) = [''LIST_NETWORKS'', ''REMOVE_NETWORK 0'', ''REMOVE_NETWORK 12''])
      (\<lambda>_ t. a_ext (world t) = [''LIST_NETWORKS'', ''REMOVE_NETWORK 0'', ''REMOVE_NETWORK 12''])
      (start_proc (new_agent []))"
    by (rule wp_mono [OF remove_wpa_networks_all [OF two_networks_logs,
          where nets = "[(0, ''home''), (12, ''work'')]" and header = "''id''"]])
      (simp_all add: networks_ok_def two_networks_def d start_proc_def new_agent_def)
  then show ?thesis by (rule wp_anyD)
qed

subsection \<open>Buffers and modes\<close>

text \<open>
  \<open>wpa_command\<close> gives \<open>wpa_ctrl_request\<close> all 128 bytes of its buffer and then stores a NUL behind the
  reply: a reply of 128 bytes (longer ones are cut to that) puts it outside the buffer; with shorter
  replies the command is defined.
\<close>

theorem wpa_command_overrun:
  assumes "\<And>p w. fst (e_ctrl E p cmd 128 w) = Ctrl_reply t"
  shows "wp (wpa_command E ifname cmd)
    (\<lambda>r _. length t < 128 \<and> r = (if take 4 t = ''FAIL'' then -1 else 0)) (\<lambda>c _. 128 \<le> length t \<and> c = Undef) s"
proof -
  let ?p = "snprintf 128 (sigma_wpas_ctrl (world s) @ ifname)"
  obtain e where "e_ctrl E ?p cmd 128 (a_ext (world s)) = (Ctrl_reply t, e)"
    using assms by (cases "e_ctrl E ?p cmd 128 (a_ext (world s))") (metis fst_conv)
  then show ?thesis by (auto simp: wpa_command_def wp_simps strncmp_eq_def)
qed

theorem wpa_command_overrun_witness:
  "fst (wpa_command (supplicant (replicate 128 (CHR ''x''))) ''wlan0'' ''STATUS'' (start_proc (new_agent []))) = Inl Undef"
proof -
  let ?t = "replicate 128 (CHR ''x'')"
  have "wp (wpa_command (supplicant ?t) ''wlan0'' ''STATUS'') (\<lambda>_ _. False) (\<lambda>c _. c = Undef) (start_proc (new_agent []))"
    by (rule wp_mono [OF wpa_command_overrun [where t = ?t]]) (simp_all add: supplicant_def null_env_def)
  from wp_exitD [OF this] show ?thesis by (metis fst_conv)
qed

definition short_replies :: "'e env \<Rightarrow> bool" where
  "short_replies E \<longleftrightarrow> (\<forall>p c n w t. fst (e_ctrl E p c n w) = Ctrl_reply t \<longrightarrow> length t < n)"

lemma gives_wpa_command [gives_rules]:
  assumes "short_replies E" "\<And>r. P r"
  shows "gives C (wpa_command E ifname cmd) P"
proof -
  have "\<not> n \<le> length t" if "e_ctrl E p c n w = (Ctrl_reply t, w')" for p c n w t w'
    using assms(1) that unfolding short_replies_def by (metis fst_conv not_le)
  then show ?thesis
    using assms(2) by (auto simp: gives_def wpa_command_def wp_simps Let_def split: prod.splits ctrl_result.splits)
qed

lemma gives_ifnames [gives_rules]:
  "(\<And>x. P x) \<Longrightarrow> gives C (get_station_ifname E) P"
  "(\<And>x. Q x) \<Longrightarrow> gives C (get_driver_type E) Q"
  "(\<And>x. R x) \<Longrightarrow> gives C (get_openwrt_driver_type E) R"
  "(\<And>x. P x) \<Longrightarrow> gives C (get_main_ifname E) P"
proof -
  show a: "gives C (get_station_ifname E) P" if "\<And>x. P x" for P
    unfolding get_station_ifname_def using that by (intro gives_rules) auto
  show b: "gives C (get_driver_type E) Q" if "\<And>x. Q x" for Q
    unfolding get_driver_type_def using that by (intro gives_rules a) auto
  show c: "gives C (get_openwrt_driver_type E) R" if "\<And>x. R x" for R
    unfolding get_openwrt_driver_type_def using that by (intro gives_rules) auto
  show "gives C (get_main_ifname E) P" if "\<And>x. P x" for P
    unfolding get_main_ifname_def using that by (intro gives_rules b c) auto
qed

lemma gives_wait_hostapd [gives_rules]: "gives C (wait_hostapd E n) (\<lambda>_. True)"
  by (induction n) (auto intro!: gives_rules)

lemma gives_leave_mode: "gives C (leave_mode E mode sniffer) (\<lambda>_. True)"
  unfolding leave_mode_def kill_hostapd_def by (intro gives_rules) auto

text \<open>Everything behind the change of the mode leaves the mode alone.\<close>

definition station :: "'e agent \<Rightarrow> bool" where
  "station w \<longleftrightarrow> a_mode w = SIGMA_MODE_STATION"

lemma keeps_station [keeps_rules]:
  "keeps station (ext f)" "keeps station (field g)"
  "keeps station (get_openwrt_driver_type E)" "keeps station (ctrl_request E m ifname cmd n)"
  by (auto simp: keeps_def get_openwrt_driver_type_def ctrl_request_def ext_def field_def update_def run_defs station_def
      split: prod.splits ctrl_result.splits)

lemma keeps_start_supplicant:
  "keeps station (get_main_ifname E)" "keeps station (wpa_command E ifname cmd)"
  "keeps station (start_supplicant E ifname)"
proof -
  show m: "keeps station (get_main_ifname E)"
    unfolding get_main_ifname_def get_driver_type_def get_station_ifname_def by (intro keeps_rules)
  show c: "keeps station (wpa_command E ifname cmd)" for cmd
    unfolding wpa_command_def by (intro keeps_rules)
  show "keeps station (start_supplicant E ifname)"
    unfolding start_supplicant_def by (intro keeps_rules c)
qed

lemma start_sta_mode_station:
  assumes "short_replies E"
  shows "wp (start_sta_mode E) (\<lambda>_ t. station (world t)) (\<lambda>_ _. False) s"
proof -
  let ?start = "bind_p (get_main_ifname E) (\<lambda>ifname. bind_p (wpa_command E ifname ''PING'') (\<lambda>ping.
      if ping = 0 then ret 0 else start_supplicant E ifname))"
  have g: "gives {} ?start (\<lambda>_. True)"
    unfolding start_supplicant_def by (intro gives_rules assms) auto
  have k: "keeps station ?start" by (intro keeps_rules keeps_start_supplicant)
  have start: "wp ?start (\<lambda>_ t. station (world t)) (\<lambda>_ _. False) t" if "station (world t)" for t
    by (rule wp_mono [OF gives_keeps_wp [where I = station, OF g k that]]) simp_all
  have "wp (leave_mode E mode sniffer) (\<lambda>_ t. True) (\<lambda>_ _. False) t" for mode sniffer t
    using gives_leave_mode [of "{}"] by (auto simp: gives_def)
  then have leave: "wp (then_p (leave_mode E mode sniffer) (then_p (set_mode SIGMA_MODE_STATION) ?start))
      (\<lambda>_ t. station (world t)) (\<lambda>_ _. False) t" for mode sniffer t
    unfolding wp_then wp_agent(4) by (rule wp_mono) (rule start, simp add: station_def, simp)
  show ?thesis
    unfolding start_sta_mode_def wp_bind wp_agent(2) wp_if wp_ret
    by (cases "a_mode (world s) = SIGMA_MODE_STATION") (simp add: station_def, simp add: leave)
qed

lemma start_sta_mode_again: "station (world t) \<Longrightarrow> start_sta_mode E t = (Inr 0, t)"
  by (simp add: start_sta_mode_def station_def field_def run_defs)

text \<open>
  The mode is changed before \<open>wpa_supplicant\<close> is started, so a failed \<open>start_sta_mode\<close> is not tried
  again: whatever the first call returns, the agent is in station mode behind it, and a second call
  returns success without a single system call.
\<close>

theorem start_sta_mode_not_retried:
  assumes "short_replies E"
  shows "wp (start_sta_mode E)
    (\<lambda>_ t. a_mode (world t) = SIGMA_MODE_STATION \<and> start_sta_mode E t = (Inr 0, t)) (\<lambda>_ _. False) s"
  by (rule wp_mono [OF start_sta_mode_station [OF assms]]) (simp_all add: start_sta_mode_again, simp add: station_def)

text \<open>A supplicant that never comes up.\<close>

definition dead_supplicant :: "string list env" where
  "dead_supplicant = null_env\<lparr>e_ctrl := (\<lambda>p c n w. (Ctrl_not_open, w @ [c]))\<rparr>"

theorem start_sta_mode_not_retried_witness:
  "fst (start_sta_mode dead_supplicant (start_proc (new_agent []))) = Inr (-1) \<and>
   fst (start_sta_mode dead_supplicant (snd (start_sta_mode dead_supplicant (start_proc (new_agent []))))) = Inr 0"
proof
  let ?s = "start_proc (new_agent []) :: (string list agent, unit) proc"
  show "fst (start_sta_mode dead_supplicant ?s) = Inr (-1)" by code_simp
  have "wp (start_sta_mode dead_supplicant) (\<lambda>_ t. start_sta_mode dead_supplicant t = (Inr 0, t))
      (\<lambda>_ t. start_sta_mode dead_supplicant t = (Inr 0, t)) ?s"
    by (rule wp_mono [OF start_sta_mode_not_retried]) (simp_all add: short_replies_def dead_supplicant_def null_env_def)
  from wp_anyD [OF this]
  show "fst (start_sta_mode dead_supplicant (snd (start_sta_mode dead_supplicant ?s))) = Inr 0" by simp
qed

end
