(* ===== verification/Sigma_Wlantest.thy ===== *)
theory Sigma_Wlantest
  imports Sigma_Agent
begin

text \<open>
  The handlers that talk to the \<open>wlantest\<close> sniffer (\<open>wifi_tools/sigma_dut/wlantest.c\<close>): the attributes
  of its messages, the requests built in a buffer of 100 bytes, the exchange over its socket and the
  thirteen commands.  A position in the buffer is the list of the bytes in front of it, \<open>None\<close> is a null
  pointer.  \<open>hwaddr_aton\<close> is the one of \<open>sta.c\<close>.
\<close>

subsection \<open>Numbers on the wire\<close>

definition WPA_PUT_BE32 :: "nat \<Rightarrow> octets" where
  "WPA_PUT_BE32 n = [word_of_nat (n div 2 ^ 24), word_of_nat (n div 2 ^ 16), word_of_nat (n div 2 ^ 8), word_of_nat n]"

definition WPA_GET_BE32 :: "octets \<Rightarrow> nat" where
  "WPA_GET_BE32 a = unat (a ! 0) * 2 ^ 24 + unat (a ! 1) * 2 ^ 16 + unat (a ! 2) * 2 ^ 8 + unat (a ! 3)"

datatype wlantest_ctrl_cmd =
  WLANTEST_CTRL_SUCCESS | WLANTEST_CTRL_FAILURE | WLANTEST_CTRL_INVALID_CMD | WLANTEST_CTRL_UNKNOWN_CMD
| WLANTEST_CTRL_PING | WLANTEST_CTRL_TERMINATE | WLANTEST_CTRL_LIST_BSS | WLANTEST_CTRL_LIST_STA
| WLANTEST_CTRL_FLUSH | WLANTEST_CTRL_CLEAR_STA_COUNTERS | WLANTEST_CTRL_CLEAR_BSS_COUNTERS
| WLANTEST_CTRL_GET_STA_COUNTER | WLANTEST_CTRL_GET_BSS_COUNTER | WLANTEST_CTRL_INJECT
| WLANTEST_CTRL_VERSION | WLANTEST_CTRL_ADD_PASSPHRASE | WLANTEST_CTRL_INFO_STA | WLANTEST_CTRL_INFO_BSS
| WLANTEST_CTRL_SEND | WLANTEST_CTRL_CLEAR_TDLS_COUNTERS | WLANTEST_CTRL_GET_TDLS_COUNTER

primrec cmd_num :: "wlantest_ctrl_cmd \<Rightarrow> nat" where
  "cmd_num WLANTEST_CTRL_SUCCESS = 0" | "cmd_num WLANTEST_CTRL_FAILURE = 1"
| "cmd_num WLANTEST_CTRL_INVALID_CMD = 2" | "cmd_num WLANTEST_CTRL_UNKNOWN_CMD = 3"
| "cmd_num WLANTEST_CTRL_PING = 4" | "cmd_num WLANTEST_CTRL_TERMINATE = 5"
| "cmd_num WLANTEST_CTRL_LIST_BSS = 6" | "cmd_num WLANTEST_CTRL_LIST_STA = 7"
| "cmd_num WLANTEST_CTRL_FLUSH = 8" | "cmd_num WLANTEST_CTRL_CLEAR_STA_COUNTERS = 9"
| "cmd_num WLANTEST_CTRL_CLEAR_BSS_COUNTERS = 10" | "cmd_num WLANTEST_CTRL_GET_STA_COUNTER = 11"
| "cmd_num WLANTEST_CTRL_GET_BSS_COUNTER = 12" | "cmd_num WLANTEST_CTRL_INJECT = 13"
| "cmd_num WLANTEST_CTRL_VERSION = 14" | "cmd_num WLANTEST_CTRL_ADD_PASSPHRASE = 15"
| "cmd_num WLANTEST_CTRL_INFO_STA = 16" | "cmd_num WLANTEST_CTRL_INFO_BSS = 17"
| "cmd_num WLANTEST_CTRL_SEND = 18" | "cmd_num WLANTEST_CTRL_CLEAR_TDLS_COUNTERS = 19"
| "cmd_num WLANTEST_CTRL_GET_TDLS_COUNTER = 20"

datatype wlantest_ctrl_attr =
  WLANTEST_ATTR_BSSID | WLANTEST_ATTR_STA_ADDR | WLANTEST_ATTR_STA_COUNTER | WLANTEST_ATTR_BSS_COUNTER
| WLANTEST_ATTR_COUNTER | WLANTEST_ATTR_INJECT_FRAME | WLANTEST_ATTR_INJECT_SENDER_AP
| WLANTEST_ATTR_INJECT_PROTECTION | WLANTEST_ATTR_VERSION | WLANTEST_ATTR_PASSPHRASE
| WLANTEST_ATTR_STA_INFO | WLANTEST_ATTR_BSS_INFO | WLANTEST_ATTR_INFO | WLANTEST_ATTR_FRAME
| WLANTEST_ATTR_TDLS_COUNTER | WLANTEST_ATTR_STA2_ADDR | WLANTEST_ATTR_WEPKEY

primrec attr_num :: "wlantest_ctrl_attr \<Rightarrow> nat" where
  "attr_num WLANTEST_ATTR_BSSID = 0" | "attr_num WLANTEST_ATTR_STA_ADDR = 1"
| "attr_num WLANTEST_ATTR_STA_COUNTER = 2" | "attr_num WLANTEST_ATTR_BSS_COUNTER = 3"
| "attr_num WLANTEST_ATTR_COUNTER = 4" | "attr_num WLANTEST_ATTR_INJECT_FRAME = 5"
| "attr_num WLANTEST_ATTR_INJECT_SENDER_AP = 6" | "attr_num WLANTEST_ATTR_INJECT_PROTECTION = 7"
| "attr_num WLANTEST_ATTR_VERSION = 8" | "attr_num WLANTEST_ATTR_PASSPHRASE = 9"
| "attr_num WLANTEST_ATTR_STA_INFO = 10" | "attr_num WLANTEST_ATTR_BSS_INFO = 11"
| "attr_num WLANTEST_ATTR_INFO = 12" | "attr_num WLANTEST_ATTR_FRAME = 13"
| "attr_num WLANTEST_ATTR_TDLS_COUNTER = 14" | "attr_num WLANTEST_ATTR_STA2_ADDR = 15"
| "attr_num WLANTEST_ATTR_WEPKEY = 16"

subsection \<open>Attributes\<close>

text \<open>
  The search for an attribute between \<open>buf\<close> and \<open>buf + buflen\<close>.  Callers pass \<open>rlen - 4\<close>, which is
  negative when there was no answer; on the flat 64-bit addresses of the targets the end is then in
  front of \<open>buf\<close>, so the end is compared as a signed distance.  \<open>None\<close> is a read outside the buffer,
  \<open>Some None\<close> a null pointer.
\<close>

function attr_get :: "octets \<Rightarrow> int \<Rightarrow> wlantest_ctrl_attr \<Rightarrow> octets option option" where
  "attr_get buf buflen attr =
     (if buflen < 8 then Some None
      else if length buf < 8 then None
      else (let a = WPA_GET_BE32 buf; alen = WPA_GET_BE32 (drop 4 buf); pos = drop 8 buf; left = buflen - 8 in
        if left < int alen then Some None
        else if a = attr_num attr then (if length pos < alen then None else Some (Some (take alen pos)))
        else attr_get (drop alen pos) (left - int alen) attr))"
  by pat_completeness auto
termination
  by (relation "measure (\<lambda>(buf, buflen, attr). length buf)") auto

declare attr_get.simps [simp del]

text \<open>The writers; \<open>endp\<close> is the length of the buffer.  The sizes are compared as \<open>int\<close>.\<close>

definition no_room :: "nat \<Rightarrow> octets \<Rightarrow> int \<Rightarrow> bool" where
  "no_room endp p n \<longleftrightarrow> int endp - int (length p) < to_int n"

definition attr_hdr_add :: "octets option \<Rightarrow> nat \<Rightarrow> wlantest_ctrl_attr \<Rightarrow> nat \<Rightarrow> octets option" where
  "attr_hdr_add pos endp attr len =
     (case pos of None \<Rightarrow> None
      | Some p \<Rightarrow> if no_room endp p (8 + int len) then None
                  else Some (p @ WPA_PUT_BE32 (attr_num attr) @ WPA_PUT_BE32 len))"

definition attr_add_str :: "octets option \<Rightarrow> nat \<Rightarrow> wlantest_ctrl_attr \<Rightarrow> string \<Rightarrow> octets option" where
  "attr_add_str pos endp attr str =
     (case pos of None \<Rightarrow> None
      | Some p \<Rightarrow> if no_room endp p (8 + int (length str)) then None
                  else Some (p @ WPA_PUT_BE32 (attr_num attr) @ WPA_PUT_BE32 (length str) @
                             map (\<lambda>c. word_of_nat (of_char c)) str))"

definition attr_add_be32 :: "octets option \<Rightarrow> nat \<Rightarrow> wlantest_ctrl_attr \<Rightarrow> nat \<Rightarrow> octets option" where
  "attr_add_be32 pos endp attr val =
     (case pos of None \<Rightarrow> None
      | Some p \<Rightarrow> if int endp - int (length p) < 12 then None
                  else Some (p @ WPA_PUT_BE32 (attr_num attr) @ WPA_PUT_BE32 4 @ WPA_PUT_BE32 val))"

definition ETH_ALEN :: nat where "ETH_ALEN = 6"

definition hex2num :: "char \<Rightarrow> int" where
  "hex2num c =
     (let n = of_char c in
      if 48 \<le> n \<and> n \<le> 57 then int n - 48
      else if 97 \<le> n \<and> n \<le> 102 then int n - 97 + 10
      else if 65 \<le> n \<and> n \<le> 70 then int n - 65 + 10
      else -1)"

text \<open>The result, and the bytes stored at \<open>addr\<close>; \<open>n\<close> is the number of bytes still to read.\<close>

fun aton_loop :: "nat \<Rightarrow> string \<Rightarrow> octets \<Rightarrow> int \<times> octets" where
  "aton_loop 0 txt addr = (0, addr)"
| "aton_loop (Suc n) txt addr =
     (if hex2num (char_at txt 0) < 0 then (-1, addr)
      else if hex2num (char_at txt 1) < 0 then (-1, addr)
      else (let addr = addr @ [word_of_int (hex2num (char_at txt 0) * 16 + hex2num (char_at txt 1))] in
        if 0 < n \<and> char_at txt 2 \<noteq> CHR '':'' then (-1, addr)
        else aton_loop n (drop 3 txt) addr))"

definition hwaddr_aton :: "string \<Rightarrow> int \<times> octets" where
  "hwaddr_aton txt = aton_loop 6 txt []"

subsection \<open>The exchange\<close>

definition WLANTEST_SOCK_NAME :: string where "WLANTEST_SOCK_NAME = ''w1.fi.wlantest''"
definition WLANTEST_CTRL_MAX_RESP_LEN :: nat where "WLANTEST_CTRL_MAX_RESP_LEN = 1000"

definition open_wlantest :: "'e env \<Rightarrow> ('e, int) action" where
  "open_wlantest E =
     bind_p (ext (e_socket E)) (\<lambda>s.
       if s < 0 then ret (-1)
       else bind_p (ext (e_connect E s (NUL # WLANTEST_SOCK_NAME))) (\<lambda>r.
         if r < 0 then then_p (ext (e_close E s)) (ret (-1)) else ret s))"

text \<open>\<open>Some resp\<close> is the response with its length, \<open>None\<close> the result \<open>-1\<close>.\<close>

definition cmd_send_and_recv :: "'e env \<Rightarrow> int \<Rightarrow> octets \<Rightarrow> nat \<Rightarrow> ('e, octets option) action" where
  "cmd_send_and_recv E s cmd max_resp_len =
     bind_p (ext (e_send E s cmd)) (\<lambda>r.
       if r < 0 then ret None
       else bind_p (ext (e_recv E s max_resp_len)) (\<lambda>res. case res of
         None \<Rightarrow> ret None
       | Some resp \<Rightarrow>
           if max_resp_len < length resp then undef_p
           else if length resp < 4 then ret None
           else if WPA_GET_BE32 resp = cmd_num WLANTEST_CTRL_SUCCESS then ret (Some resp)
           else ret None))"

definition cmd_simple :: "'e env \<Rightarrow> int \<Rightarrow> wlantest_ctrl_cmd \<Rightarrow> ('e, int) action" where
  "cmd_simple E s cmd =
     bind_p (cmd_send_and_recv E s (WPA_PUT_BE32 (cmd_num cmd)) 4) (\<lambda>res. ret (if res = None then -1 else 0))"

definition not_available :: "('e, int) action" where
  "not_available = then_p (reply SIGMA_ERROR ''errorCode,wlantest not available'') (ret 0)"

definition run_wlantest_simple :: "'e env \<Rightarrow> wlantest_ctrl_cmd \<Rightarrow> ('e, int) action" where
  "run_wlantest_simple E cmd =
     bind_p (open_wlantest E) (\<lambda>s.
       if s < 0 then not_available
       else bind_p (cmd_simple E s cmd) (\<lambda>r.
         then_p (ext (e_close E s)) (ret (if r < 0 then -2 else 1))))"

text \<open>The bytes of an attribute as a text, up to a NUL byte.\<close>

definition octet_text :: "octets \<Rightarrow> string" where
  "octet_text bs = takeWhile (\<lambda>c. c \<noteq> NUL) (map (\<lambda>b. char_of (unat b)) bs)"

definition cmd_wlantest_version :: "'e env \<Rightarrow> 'e capi" where
  "cmd_wlantest_version E cmd =
     bind_p (open_wlantest E) (\<lambda>s.
       if s < 0 then not_available
       else bind_p (cmd_send_and_recv E s (WPA_PUT_BE32 (cmd_num WLANTEST_CTRL_VERSION)) WLANTEST_CTRL_MAX_RESP_LEN) (\<lambda>res.
         then_p (ext (e_close E s)) (case res of
           None \<Rightarrow> ret (-2)
         | Some resp \<Rightarrow>
             (case attr_get (drop 4 resp) (int (length resp) - 4) WLANTEST_ATTR_VERSION of
                None \<Rightarrow> undef_p
              | Some None \<Rightarrow> ret (-2)
              | Some (Some version) \<Rightarrow>
                  bind_p (ext (e_malloc E (9 + length version))) (\<lambda>ok.
                    if \<not> ok then ret (-2)
                    else then_p (reply SIGMA_COMPLETE (''version,'' @ octet_text version)) (ret 0))))))"

definition cmd_wlantest_set_channel :: "'e env \<Rightarrow> 'e capi" where
  "cmd_wlantest_set_channel E cmd =
     bind_p (field a_sniffer_ifname) (\<lambda>ifname. case ifname of
       None \<Rightarrow> then_p (reply SIGMA_ERROR ''errorCode,Sniffer interface not available'') (ret 0)
     | Some ifname \<Rightarrow>
         (case get_param cmd ''channel'' of
            None \<Rightarrow> ret (-1)
          | Some chan \<Rightarrow>
              (let monitor = snprintf 100 (''iw dev '' @ ifname @ '' set type monitor'');
                   tune = bind_p (system_ok E (snprintf 100
                       (''iw dev '' @ ifname @ '' set channel '' @ fmt_d (atoi chan) @ '' HT20''))) (\<lambda>ok.
                     if \<not> ok then ret (-2)
                     else bind_p (system_ok E (snprintf 100 (''ifconfig '' @ ifname @ '' up''))) (\<lambda>ok.
                       if \<not> ok then ret (-2)
                       else then_p (set_mode SIGMA_MODE_SNIFFER) (ret 1)))
               in bind_p (system_ok E monitor) (\<lambda>ok.
                    if ok then tune
                    else bind_p (system_ok E (snprintf 100 (''ifconfig '' @ ifname @ '' down''))) (\<lambda>ok.
                      if \<not> ok then ret (-2)
                      else bind_p (system_ok E monitor) (\<lambda>ok. if \<not> ok then ret (-2) else tune))))))"

definition cmd_wlantest_flush :: "'e env \<Rightarrow> 'e capi" where
  "cmd_wlantest_flush E cmd = run_wlantest_simple E WLANTEST_CTRL_FLUSH"

subsection \<open>Requests\<close>

definition BUF_LEN :: nat where "BUF_LEN = 100"

text \<open>
  An address in the request: its header, then \<open>hwaddr_aton\<close> at the position behind it.  Behind a null
  pointer it stores nothing only when the text does not begin with a byte.
\<close>

definition add_addr ::
  "string \<Rightarrow> wlantest_ctrl_attr \<Rightarrow> string \<Rightarrow> octets option \<Rightarrow> (octets option \<Rightarrow> ('e, int) action) \<Rightarrow> ('e, int) action" where
  "add_addr val attr err pos k =
     (let pos = attr_hdr_add pos BUF_LEN attr ETH_ALEN in
      case hwaddr_aton val of (r, addr) \<Rightarrow>
        if pos = None \<and> addr \<noteq> [] then undef_p
        else if r < 0 then then_p (reply SIGMA_INVALID err) (ret 0)
        else k (map_option (\<lambda>p. p @ addr) pos))"

definition req_addr ::
  "sigma_cmd \<Rightarrow> string \<Rightarrow> wlantest_ctrl_attr \<Rightarrow> string \<Rightarrow> octets option \<Rightarrow> (octets option \<Rightarrow> ('e, int) action) \<Rightarrow>
     ('e, int) action" where
  "req_addr cmd name attr err pos k =
     (case get_param cmd name of None \<Rightarrow> ret (-1) | Some val \<Rightarrow> add_addr val attr err pos k)"

definition req_field ::
  "(string \<times> nat) list \<Rightarrow> wlantest_ctrl_attr \<Rightarrow> sigma_cmd \<Rightarrow> octets option \<Rightarrow> (octets option \<Rightarrow> ('e, int) action) \<Rightarrow>
     ('e, int) action" where
  "req_field table attr cmd pos k =
     (case get_param cmd ''field'' of
        None \<Rightarrow> ret (-1)
      | Some val \<Rightarrow>
          (case find (\<lambda>(name, num). strcasecmp_eq name val) table of
             None \<Rightarrow> then_p (reply SIGMA_INVALID ''errorCode,Invalid field'') (ret 0)
           | Some (name, num) \<Rightarrow> k (attr_add_be32 pos BUF_LEN attr num)))"

text \<open>Sending the request: the length of a request at a null pointer is undefined.\<close>

definition request :: "'e env \<Rightarrow> octets option \<Rightarrow> (octets option \<Rightarrow> ('e, int) action) \<Rightarrow> ('e, int) action" where
  "request E pos k =
     bind_p (open_wlantest E) (\<lambda>s.
       if s < 0 then not_available
       else (case pos of
         None \<Rightarrow> undef_p
       | Some buf \<Rightarrow>
           bind_p (cmd_send_and_recv E s buf WLANTEST_CTRL_MAX_RESP_LEN) (\<lambda>res.
             then_p (ext (e_close E s)) (k res))))"

definition done_res :: "octets option \<Rightarrow> ('e, int) action" where
  "done_res res = (if res = None then ret (-2) else ret 1)"

text \<open>
  The answer to a query.  These handlers do not look at the result of the exchange: \<open>rlen\<close> is then
  \<open>-1\<close> and \<open>attr_get\<close> finds no attribute.
\<close>

definition resp_attr :: "octets option \<Rightarrow> wlantest_ctrl_attr \<Rightarrow> octets option option" where
  "resp_attr res attr =
     (case res of
        None \<Rightarrow> attr_get [] (-1 - 4) attr
      | Some resp \<Rightarrow> attr_get (drop 4 resp) (int (length resp) - 4) attr)"

definition counter_res :: "octets option \<Rightarrow> ('e, int) action" where
  "counter_res res =
     (case resp_attr res WLANTEST_ATTR_COUNTER of
        None \<Rightarrow> undef_p
      | Some None \<Rightarrow> ret (-2)
      | Some (Some pos) \<Rightarrow>
          if length pos \<noteq> 4 then ret (-2)
          else then_p (reply SIGMA_COMPLETE (snprintf 100 (''counter,'' @ fmt_d (int (WPA_GET_BE32 pos))))) (ret 0))"

definition info_res :: "octets option \<Rightarrow> ('e, int) action" where
  "info_res res =
     (case resp_attr res WLANTEST_ATTR_INFO of
        None \<Rightarrow> undef_p
      | Some None \<Rightarrow> ret (-2)
      | Some (Some pos) \<Rightarrow>
          (let info = octet_text (take (if 100 \<le> length pos then 99 else length pos) pos) in
           then_p (reply SIGMA_COMPLETE (snprintf 120 (''info,'' @ info))) (ret 0)))"

definition inject_frames :: "(string \<times> nat) list" where
  "inject_frames =
     [(''disassoc'', 4), (''deauth'', 3), (''saquery'', 5), (''auth'', 0), (''assocreq'', 1), (''reassocreq'', 2)]"

definition inject_protections :: "(string \<times> nat) list" where
  "inject_protections = [(''CorrectKey'', 1), (''IncorrectKey'', 3), (''Unprotected'', 2)]"

definition inject_senders :: "(string \<times> nat) list" where
  "inject_senders = [(''ap'', 1), (''sta'', 0)]"

text \<open>A parameter that selects a number by a chain of \<open>strcasecmp\<close>.\<close>

definition req_choice ::
  "string option \<Rightarrow> (string \<times> nat) list \<Rightarrow> wlantest_ctrl_attr \<Rightarrow> string \<Rightarrow> octets option \<Rightarrow>
     (octets option \<Rightarrow> ('e, int) action) \<Rightarrow> ('e, int) action" where
  "req_choice val choices attr err pos k =
     (case val of
        None \<Rightarrow> ret (-1)
      | Some val \<Rightarrow>
          (case find (\<lambda>(name, num). strcasecmp_eq val name) choices of
             None \<Rightarrow> then_p (reply SIGMA_ERROR err) (ret 0)
           | Some (name, num) \<Rightarrow> k (attr_add_be32 pos BUF_LEN attr num)))"

definition get_param2 :: "sigma_cmd \<Rightarrow> string \<Rightarrow> string \<Rightarrow> string option" where
  "get_param2 cmd a b = (case get_param cmd a of None \<Rightarrow> get_param cmd b | Some v \<Rightarrow> Some v)"

subsection \<open>The commands\<close>

definition start_req :: "wlantest_ctrl_cmd \<Rightarrow> octets option" where
  "start_req cmd = Some (WPA_PUT_BE32 (cmd_num cmd))"

abbreviation "bad_bssid \<equiv> ''errorCode,Invalid bssid''"
abbreviation "bad_station \<equiv> ''errorCode,Invalid stationID''"

text \<open>As a station or an access point the command goes to the handlers of \<open>sta.c\<close> and \<open>ap.c\<close>.\<close>

definition cmd_wlantest_send_frame :: "'e env \<Rightarrow> 'e capi \<Rightarrow> 'e capi \<Rightarrow> 'e capi" where
  "cmd_wlantest_send_frame E cmd_sta_send_frame cmd_ap_send_frame cmd =
     bind_p (field a_mode) (\<lambda>mode.
       if mode = SIGMA_MODE_STATION then cmd_sta_send_frame cmd
       else if mode = SIGMA_MODE_AP then cmd_ap_send_frame cmd
       else
         req_choice (get_param2 cmd ''Type'' ''PMFFrameType'') inject_frames WLANTEST_ATTR_INJECT_FRAME
             ''errorCode,Unsupported PMFFrameType'' (start_req WLANTEST_CTRL_INJECT) (\<lambda>pos.
         req_choice (get_param2 cmd ''Protected'' ''PMFProtected'') inject_protections WLANTEST_ATTR_INJECT_PROTECTION
             ''errorCode,Unsupported PMFProtected'' pos (\<lambda>pos.
         req_choice (get_param cmd ''sender'') inject_senders WLANTEST_ATTR_INJECT_SENDER_AP
             ''errorCode,Unsupported sender'' pos (\<lambda>pos.
         req_addr cmd ''bssid'' WLANTEST_ATTR_BSSID bad_bssid pos (\<lambda>pos.
         req_addr cmd ''stationID'' WLANTEST_ATTR_STA_ADDR bad_station pos (\<lambda>pos.
         request E pos done_res))))))"

definition cmd_wlantest_add_passphrase :: "'e env \<Rightarrow> 'e capi" where
  "cmd_wlantest_add_passphrase E cmd =
     (let pos = start_req WLANTEST_CTRL_ADD_PASSPHRASE;
          rest = (\<lambda>pos. case get_param cmd ''bssid'' of
             Some val \<Rightarrow> add_addr val WLANTEST_ATTR_BSSID bad_bssid pos (\<lambda>pos. request E pos done_res)
           | None \<Rightarrow> request E pos done_res)
      in case get_param cmd ''passphrase'' of
           Some val \<Rightarrow>
             if length val < 8 \<or> 63 < length val then ret (-1)
             else rest (attr_add_str pos BUF_LEN WLANTEST_ATTR_PASSPHRASE val)
         | None \<Rightarrow>
             (case get_param cmd ''wepkey'' of
                None \<Rightarrow> ret (-1)
              | Some val \<Rightarrow> rest (attr_add_str pos BUF_LEN WLANTEST_ATTR_WEPKEY val)))"

definition cmd_wlantest_clear_sta_counters :: "'e env \<Rightarrow> 'e capi" where
  "cmd_wlantest_clear_sta_counters E cmd =
     req_addr cmd ''bssid'' WLANTEST_ATTR_BSSID bad_bssid (start_req WLANTEST_CTRL_CLEAR_STA_COUNTERS) (\<lambda>pos.
     req_addr cmd ''stationID'' WLANTEST_ATTR_STA_ADDR bad_station pos (\<lambda>pos.
     request E pos done_res))"

definition cmd_wlantest_clear_bss_counters :: "'e env \<Rightarrow> 'e capi" where
  "cmd_wlantest_clear_bss_counters E cmd =
     req_addr cmd ''bssid'' WLANTEST_ATTR_BSSID bad_bssid (start_req WLANTEST_CTRL_CLEAR_BSS_COUNTERS) (\<lambda>pos.
     request E pos done_res)"

definition cmd_wlantest_clear_tdls_counters :: "'e env \<Rightarrow> 'e capi" where
  "cmd_wlantest_clear_tdls_counters E cmd =
     req_addr cmd ''bssid'' WLANTEST_ATTR_BSSID bad_bssid (start_req WLANTEST_CTRL_CLEAR_TDLS_COUNTERS) (\<lambda>pos.
     req_addr cmd ''stationID'' WLANTEST_ATTR_STA_ADDR bad_station pos (\<lambda>pos.
     req_addr cmd ''stationID2'' WLANTEST_ATTR_STA2_ADDR ''errorCode,Invalid stationID2'' pos (\<lambda>pos.
     request E pos done_res)))"

text \<open>The tables of the names, with the numbers of the enumerations of \<open>wlantest_ctrl.h\<close>.\<close>

definition sta_counters :: "(string \<times> nat) list" where
  "sta_counters =
     [(''auth_tx'', 0), (''auth_rx'', 1), (''assocreq_tx'', 2), (''reassocreq_tx'', 3), (''ptk_learned'', 4),
      (''valid_deauth_tx'', 5), (''valid_deauth_rx'', 6), (''invalid_deauth_tx'', 7), (''invalid_deauth_rx'', 8),
      (''valid_disassoc_tx'', 9), (''valid_disassoc_rx'', 10), (''invalid_disassoc_tx'', 11),
      (''invalid_disassoc_rx'', 12), (''valid_saqueryreq_tx'', 13), (''valid_saqueryreq_rx'', 14),
      (''invalid_saqueryreq_tx'', 15), (''invalid_saqueryreq_rx'', 16), (''valid_saqueryresp_tx'', 17),
      (''valid_saqueryresp_rx'', 18), (''invalid_saqueryresp_tx'', 19), (''invalid_saqueryresp_rx'', 20),
      (''ping_ok'', 21), (''assocresp_comeback'', 22), (''reassocresp_comeback'', 23), (''ping_ok_first_assoc'', 24),
      (''valid_deauth_rx_ack'', 25), (''valid_disassoc_rx_ack'', 26), (''invalid_deauth_rx_ack'', 27),
      (''invalid_disassoc_rx_ack'', 28), (''deauth_rx_asleep'', 29), (''deauth_rx_awake'', 30),
      (''disassoc_rx_asleep'', 31), (''disassoc_rx_awake'', 32), (''prot_data_tx'', 33), (''deauth_rx_rc6'', 34),
      (''deauth_rx_rc7'', 35), (''disassoc_rx_rc6'', 36), (''disassoc_rx_rc7'', 37)]"

definition bss_counters :: "(string \<times> nat) list" where
  "bss_counters =
     [(''valid_bip_mmie'', 0), (''invalid_bip_mmie'', 1), (''missing_bip_mmie'', 2), (''bip_deauth'', 3),
      (''bip_disassoc'', 4)]"

definition tdls_counters :: "(string \<times> nat) list" where
  "tdls_counters =
     [(''valid_direct_link'', 0), (''invalid_direct_link'', 1), (''valid_ap_path'', 2), (''invalid_ap_path'', 3),
      (''setup_req'', 4), (''setup_resp_ok'', 5), (''setup_resp_fail'', 6), (''setup_conf_ok'', 7),
      (''setup_conf_fail'', 8), (''teardown'', 9)]"

definition sta_infos :: "(string \<times> nat) list" where
  "sta_infos = [(''proto'', 0), (''pairwise'', 1), (''key_mgmt'', 2), (''rsn_capab'', 3), (''state'', 4)]"

definition bss_infos :: "(string \<times> nat) list" where
  "bss_infos =
     [(''proto'', 0), (''pairwise'', 1), (''group'', 2), (''group_mgmt'', 3), (''key_mgmt'', 4), (''rsn_capab'', 5)]"

definition cmd_wlantest_get_sta_counter :: "'e env \<Rightarrow> 'e capi" where
  "cmd_wlantest_get_sta_counter E cmd =
     req_addr cmd ''bssid'' WLANTEST_ATTR_BSSID bad_bssid (start_req WLANTEST_CTRL_GET_STA_COUNTER) (\<lambda>pos.
     req_addr cmd ''stationID'' WLANTEST_ATTR_STA_ADDR bad_station pos (\<lambda>pos.
     req_field sta_counters WLANTEST_ATTR_STA_COUNTER cmd pos (\<lambda>pos.
     request E pos counter_res)))"

definition cmd_wlantest_get_bss_counter :: "'e env \<Rightarrow> 'e capi" where
  "cmd_wlantest_get_bss_counter E cmd =
     req_addr cmd ''bssid'' WLANTEST_ATTR_BSSID bad_bssid (start_req WLANTEST_CTRL_GET_BSS_COUNTER) (\<lambda>pos.
     req_field bss_counters WLANTEST_ATTR_BSS_COUNTER cmd pos (\<lambda>pos.
     request E pos counter_res))"

definition cmd_wlantest_get_tdls_counter :: "'e env \<Rightarrow> 'e capi" where
  "cmd_wlantest_get_tdls_counter E cmd =
     req_addr cmd ''bssid'' WLANTEST_ATTR_BSSID bad_bssid (start_req WLANTEST_CTRL_GET_TDLS_COUNTER) (\<lambda>pos.
     req_addr cmd ''stationID'' WLANTEST_ATTR_STA_ADDR bad_station pos (\<lambda>pos.
     req_addr cmd ''stationID2'' WLANTEST_ATTR_STA2_ADDR bad_station pos (\<lambda>pos.
     req_field tdls_counters WLANTEST_ATTR_TDLS_COUNTER cmd pos (\<lambda>pos.
     request E pos counter_res))))"

definition cmd_wlantest_info_sta :: "'e env \<Rightarrow> 'e capi" where
  "cmd_wlantest_info_sta E cmd =
     req_addr cmd ''bssid'' WLANTEST_ATTR_BSSID bad_bssid (start_req WLANTEST_CTRL_INFO_STA) (\<lambda>pos.
     req_addr cmd ''stationID'' WLANTEST_ATTR_STA_ADDR bad_station pos (\<lambda>pos.
     req_field sta_infos WLANTEST_ATTR_STA_INFO cmd pos (\<lambda>pos.
     request E pos info_res)))"

definition cmd_wlantest_info_bss :: "'e env \<Rightarrow> 'e capi" where
  "cmd_wlantest_info_bss E cmd =
     req_addr cmd ''bssid'' WLANTEST_ATTR_BSSID bad_bssid (start_req WLANTEST_CTRL_INFO_BSS) (\<lambda>pos.
     req_field bss_infos WLANTEST_ATTR_BSS_INFO cmd pos (\<lambda>pos.
     request E pos info_res))"

definition wlantest_cmds ::
  "'e env \<Rightarrow> 'e capi \<Rightarrow> 'e capi \<Rightarrow> (string \<times> (sigma_cmd \<Rightarrow> int) option \<times> 'e capi) list" where
  "wlantest_cmds E sta_send_frame ap_send_frame =
     [(''wlantest_version'', None, cmd_wlantest_version E),
      (''wlantest_set_channel'', None, cmd_wlantest_set_channel E),
      (''wlantest_flush'', None, cmd_wlantest_flush E),
      (''wlantest_send_frame'', None, cmd_wlantest_send_frame E sta_send_frame ap_send_frame),
      (''wlantest_add_passphrase'', None, cmd_wlantest_add_passphrase E),
      (''wlantest_clear_sta_counters'', None, cmd_wlantest_clear_sta_counters E),
      (''wlantest_clear_bss_counters'', None, cmd_wlantest_clear_bss_counters E),
      (''wlantest_clear_tdls_counters'', None, cmd_wlantest_clear_tdls_counters E),
      (''wlantest_get_sta_counter'', None, cmd_wlantest_get_sta_counter E),
      (''wlantest_get_bss_counter'', None, cmd_wlantest_get_bss_counter E),
      (''wlantest_get_tdls_counter'', None, cmd_wlantest_get_tdls_counter E),
      (''wlantest_info_sta'', None, cmd_wlantest_info_sta E),
      (''wlantest_info_bss'', None, cmd_wlantest_info_bss E)]"

definition wlantest_register_cmds ::
  "'e agent process \<Rightarrow> 'e env \<Rightarrow> 'e capi \<Rightarrow> 'e capi \<Rightarrow> 'e agent dut \<Rightarrow> 'e agent dut" where
  "wlantest_register_cmds crash E sta_send_frame ap_send_frame =
     register crash (wlantest_cmds E sta_send_frame ap_send_frame)"

subsection \<open>Attributes\<close>

lemma length_be32 [simp]: "length (WPA_PUT_BE32 n) = 4"
  by (simp add: WPA_PUT_BE32_def)

lemma be32_parts: "n < 2 ^ 32 \<Longrightarrow>
    (n div 2 ^ 24 mod 256) * 2 ^ 24 + (n div 2 ^ 16 mod 256) * 2 ^ 16 + (n div 2 ^ 8 mod 256) * 2 ^ 8 + n mod 256 = (n :: nat)"
proof -
  assume n: "n < 2 ^ 32"
  let ?a = "n div 256" let ?b = "?a div 256" let ?c = "?b div 256"
  have "n div 2 ^ 8 = ?a" "n div 2 ^ 16 = ?b" "n div 2 ^ 24 = ?c" by (simp_all flip: div_mult2_eq)
  moreover have "?c < 256" using n by (simp add: div_less_iff_less_mult)
  then have "?c mod 256 = ?c" by simp
  moreover have "c * 2 ^ 24 + z * 2 ^ 16 + y * 2 ^ 8 + x = m"
    if "a * 256 + x = m" "b * 256 + y = a" "c * 256 + z = b" for m a b c x y z :: nat
    using that by simp
  from this [OF div_mult_mod_eq div_mult_mod_eq div_mult_mod_eq]
  have "?c * 2 ^ 24 + ?b mod 256 * 2 ^ 16 + ?a mod 256 * 2 ^ 8 + n mod 256 = n" .
  ultimately show ?thesis by (simp only:)
qed

lemma get_put_be32 [simp]: "n < 2 ^ 32 \<Longrightarrow> WPA_GET_BE32 (WPA_PUT_BE32 n @ r) = n"
  using be32_parts [of n] by (simp add: WPA_GET_BE32_def WPA_PUT_BE32_def unat_of_nat)

lemma attr_num_less: "attr_num a < 17"
  by (cases a) simp_all

lemma attr_num_inj: "attr_num a = attr_num b \<longleftrightarrow> a = b"
proof -
  have "inj_on attr_num (set [WLANTEST_ATTR_BSSID, WLANTEST_ATTR_STA_ADDR, WLANTEST_ATTR_STA_COUNTER,
      WLANTEST_ATTR_BSS_COUNTER, WLANTEST_ATTR_COUNTER, WLANTEST_ATTR_INJECT_FRAME,
      WLANTEST_ATTR_INJECT_SENDER_AP, WLANTEST_ATTR_INJECT_PROTECTION, WLANTEST_ATTR_VERSION,
      WLANTEST_ATTR_PASSPHRASE, WLANTEST_ATTR_STA_INFO, WLANTEST_ATTR_BSS_INFO, WLANTEST_ATTR_INFO,
      WLANTEST_ATTR_FRAME, WLANTEST_ATTR_TDLS_COUNTER, WLANTEST_ATTR_STA2_ADDR, WLANTEST_ATTR_WEPKEY])"
    (is "inj_on _ (set ?as)")
    by (rule iffD1 [OF distinct_map, THEN conjunct2]) simp
  moreover have "a \<in> set ?as" for a by (cases a) simp_all
  ultimately show ?thesis by (meson inj_onD)
qed

text \<open>An attribute on the wire, and a list of them.\<close>

definition tlv :: "wlantest_ctrl_attr \<Rightarrow> octets \<Rightarrow> octets" where
  "tlv a v = WPA_PUT_BE32 (attr_num a) @ WPA_PUT_BE32 (length v) @ v"

definition tlvs :: "(wlantest_ctrl_attr \<times> octets) list \<Rightarrow> octets" where
  "tlvs as = concat (map (\<lambda>(a, v). tlv a v) as)"

lemma tlvs_simps [simp]: "tlvs [] = []" "tlvs ((a, v) # as) = tlv a v @ tlvs as"
  by (simp_all add: tlvs_def)

lemma length_tlv [simp]: "length (tlv a v) = 8 + length v"
  by (simp add: tlv_def)

lemma attr_get_tlv:
  assumes "length v < 2 ^ 32"
  shows "attr_get (tlv a v @ r) (int (length (tlv a v @ r))) b =
    (if a = b then Some (Some v) else attr_get r (int (length r)) b)"
proof -
  have "WPA_GET_BE32 (tlv a v @ r) = attr_num a"
    using attr_num_less [of a] by (simp add: tlv_def)
  moreover have "drop 4 (tlv a v @ r) = WPA_PUT_BE32 (length v) @ v @ r" "drop 8 (tlv a v @ r) = v @ r"
    by (simp_all add: tlv_def)
  ultimately show ?thesis
    using assms by (subst attr_get.simps) (simp add: Let_def attr_num_inj)
qed

lemma attr_get_Nil [simp]: "attr_get [] n a = (if n < 8 then Some None else None)"
  by (subst attr_get.simps) simp

lemma attr_get_map_of:
  assumes "\<forall>(a, v) \<in> set as. length v < 2 ^ 32"
  shows "attr_get (tlvs as) (int (length (tlvs as))) a = Some (map_of as a)"
  using assms
proof (induction as)
  case Nil
  then show ?case by simp
next
  case (Cons x as)
  obtain b v where x: "x = (b, v)" by (cases x)
  then show ?case using Cons attr_get_tlv [of v b "tlvs as" a] by auto
qed

text \<open>
  C30.  Round trip of the attributes: in any sequence of attributes written one behind the other,
  \<open>attr_get\<close> finds the value of the first attribute of the wanted kind, byte for byte, and a null
  pointer when there is none.
\<close>

theorem attr_get_finds:
  assumes "\<forall>(a, v) \<in> set as. length v < 2 ^ 32"
  shows "attr_get (tlvs as) (int (length (tlvs as))) a = Some (map_of as a)"
  using assms by (rule attr_get_map_of)

theorem attr_get_finds_witness:
  "attr_get (tlvs [(WLANTEST_ATTR_BSSID, [1, 2, 3, 4, 5, 6]), (WLANTEST_ATTR_COUNTER, [0, 0, 1, 0])]) 26
     WLANTEST_ATTR_COUNTER = Some (Some [0, 0, 1, 0])"
  using attr_get_finds [of "[(WLANTEST_ATTR_BSSID, [1, 2, 3, 4, 5, 6]), (WLANTEST_ATTR_COUNTER, [0, 0, 1, 0])]"
    WLANTEST_ATTR_COUNTER] by simp

lemma attr_get_total:
  assumes "buflen \<le> int (length buf)"
  shows "\<exists>r. attr_get buf buflen a = Some r \<and> (\<forall>v. r = Some v \<longrightarrow> int (length v) + 8 \<le> buflen)"
  using assms
proof (induction buf buflen a rule: attr_get.induct)
  case (1 buf buflen a)
  let ?alen = "WPA_GET_BE32 (drop 4 buf)"
  show ?case
  proof (cases "buflen < 8 \<or> buflen - 8 < int ?alen \<or> WPA_GET_BE32 buf = attr_num a")
    case True
    then show ?thesis using "1.prems" by (subst attr_get.simps) (auto simp: Let_def)
  next
    case False
    then have "\<exists>r. attr_get (drop ?alen (drop 8 buf)) (buflen - 8 - int ?alen) a = Some r \<and>
        (\<forall>v. r = Some v \<longrightarrow> int (length v) + 8 \<le> buflen - 8 - int ?alen)"
      using "1.prems" by (intro "1.IH") auto
    then show ?thesis using False "1.prems" by (subst attr_get.simps) (auto simp: Let_def)
  qed
qed

text \<open>
  Whatever bytes the sniffer answers, the search for an attribute ends and reads no byte
  outside the answer, and what it returns lies inside.
\<close>

theorem attr_get_in_bounds:
  assumes "buflen \<le> int (length buf)"
  shows "\<exists>r. attr_get buf buflen a = Some r \<and> (\<forall>v. r = Some v \<longrightarrow> int (length v) + 8 \<le> buflen)"
  using assms by (rule attr_get_total)

theorem attr_get_in_bounds_witness:
  "\<exists>r. attr_get [0, 0, 0, 4, 0xff, 0xff, 0xff, 0xff, 1] 9 WLANTEST_ATTR_COUNTER = Some r"
  using attr_get_in_bounds [of 9 "[0, 0, 0, 4, 0xff, 0xff, 0xff, 0xff, 1]" WLANTEST_ATTR_COUNTER] by auto

subsection \<open>Nothing is stored outside the buffers\<close>

lemma aton_loop_result:
  "aton_loop n t addr = (r, a) \<Longrightarrow> r = 0 \<and> length a = length addr + n \<or> r = -1"
  by (induction n t addr arbitrary: r a rule: aton_loop.induct) (auto simp: Let_def split: if_splits)

lemma hwaddr_aton_result: "hwaddr_aton t = (r, a) \<Longrightarrow> r = 0 \<and> length a = 6 \<or> r = -1"
  using aton_loop_result [of 6 t "[]"] by (auto simp: hwaddr_aton_def)

lemma no_room_small: "n < 2 ^ 31 \<Longrightarrow> no_room endp p (int n) \<longleftrightarrow> endp < length p + n"
  using to_int_id [of "int n"] by (auto simp: no_room_def)

lemma attr_hdr_add_fits:
  "len < 2 ^ 31 - 8 \<Longrightarrow> attr_hdr_add (Some p) endp attr len =
     (if endp < length p + (8 + len) then None
      else Some (p @ WPA_PUT_BE32 (attr_num attr) @ WPA_PUT_BE32 len))"
  using no_room_small [of "8 + len" endp p] by (simp add: attr_hdr_add_def)

lemma attr_add_str_fits:
  "length str < 2 ^ 31 - 8 \<Longrightarrow> attr_add_str (Some p) endp attr str =
     (if endp < length p + (8 + length str) then None
      else Some (p @ tlv attr (map (\<lambda>c. word_of_nat (of_char c)) str)))"
  using no_room_small [of "8 + length str" endp p] by (simp add: attr_add_str_def tlv_def)

lemma attr_add_be32_fits:
  "attr_add_be32 (Some p) endp attr val =
     (if endp < length p + 12 then None else Some (p @ tlv attr (WPA_PUT_BE32 val)))"
  by (simp add: attr_add_be32_def tlv_def)

lemma add_addr_Some:
  assumes "length p + 14 \<le> BUF_LEN"
  shows "add_addr val attr err (Some p) k =
    (if fst (hwaddr_aton val) < 0 then then_p (reply SIGMA_INVALID err) (ret 0)
     else k (Some (p @ tlv attr (snd (hwaddr_aton val)))))"
proof -
  have h: "attr_hdr_add (Some p) BUF_LEN attr ETH_ALEN =
      Some (p @ WPA_PUT_BE32 (attr_num attr) @ WPA_PUT_BE32 6)"
    using assms attr_hdr_add_fits [of 6 p BUF_LEN attr] by (simp add: ETH_ALEN_def)
  obtain r a where ra: "hwaddr_aton val = (r, a)" by (cases "hwaddr_aton val")
  then show ?thesis
    using hwaddr_aton_result [OF ra] by (auto simp: add_addr_def Let_def h tlv_def)
qed

lemma gives_add_addr:
  assumes "length p + 14 \<le> BUF_LEN" "P 0" and "\<And>q. length q = length p + 14 \<Longrightarrow> gives C (k (Some q)) P"
  shows "gives C (add_addr val attr err (Some p) k) P"
proof -
  have "length (snd (hwaddr_aton val)) = 6" if "\<not> fst (hwaddr_aton val) < 0"
    using that hwaddr_aton_result [of val] by (cases "hwaddr_aton val") auto
  with assms show ?thesis
    by (auto simp: add_addr_Some intro!: gives_rules)
qed

lemma gives_req_addr:
  assumes "length p + 14 \<le> BUF_LEN" "P 0" "P (-1)"
    and "\<And>q. length q = length p + 14 \<Longrightarrow> gives C (k (Some q)) P"
  shows "gives C (req_addr cmd name attr err (Some p) k) P"
  unfolding req_addr_def using assms by (intro gives_rules gives_add_addr) auto

lemma gives_req_field:
  assumes "length p + 12 \<le> BUF_LEN" "P 0" "P (-1)"
    and "\<And>q. length q = length p + 12 \<Longrightarrow> gives C (k (Some q)) P"
  shows "gives C (req_field table attr cmd (Some p) k) P"
  unfolding req_field_def using assms by (intro gives_rules) (auto simp: attr_add_be32_fits)

lemma gives_req_choice:
  assumes "length p + 12 \<le> BUF_LEN" "P 0" "P (-1)"
    and "\<And>q. length q = length p + 12 \<Longrightarrow> gives C (k (Some q)) P"
  shows "gives C (req_choice val choices attr err (Some p) k) P"
  unfolding req_choice_def using assms by (intro gives_rules) (auto simp: attr_add_be32_fits)

lemma gives_send_recv:
  assumes "recv_bounded E"
  shows "gives C (cmd_send_and_recv E s cmd n) (\<lambda>r. case r of None \<Rightarrow> True | Some resp \<Rightarrow> 4 \<le> length resp)"
proof -
  have "\<not> n < length bs" if "e_recv E s n w = (Some bs, w')" for bs w w'
    using assms that unfolding recv_bounded_def by (metis not_le)
  then show ?thesis
    by (auto simp: gives_def cmd_send_and_recv_def wp_simps split: prod.splits option.splits)
qed

lemma gives_open_wlantest [gives_rules]: "gives C (open_wlantest E) (\<lambda>_. True)"
  unfolding open_wlantest_def by (intro gives_rules) auto

lemma gives_not_available [gives_rules]: "P 0 \<Longrightarrow> gives C not_available P"
  unfolding not_available_def by (intro gives_rules) auto

lemma gives_request:
  assumes "recv_bounded E" "P 0"
    and "\<And>res. (\<And>resp. res = Some resp \<Longrightarrow> 4 \<le> length resp) \<Longrightarrow> gives C (k res) P"
  shows "gives C (request E (Some buf) k) P"
  unfolding request_def option.case
  by (intro gives_rules gives_bindP [OF gives_send_recv [OF assms(1)]])
    (use assms(2,3) in \<open>auto split: option.splits\<close>)

lemma resp_attr_defined:
  assumes "\<And>resp. res = Some resp \<Longrightarrow> 4 \<le> length resp"
  shows "\<exists>r. resp_attr res attr = Some r"
proof (cases res)
  case None
  then show ?thesis by (simp add: resp_attr_def)
next
  case (Some resp)
  then have "int (length resp) - 4 \<le> int (length (drop 4 resp))" using assms by simp
  from attr_get_total [OF this] obtain r
    where "attr_get (drop 4 resp) (int (length resp) - 4) attr = Some r" by blast
  then show ?thesis using Some by (simp add: resp_attr_def)
qed

definition handler_result :: "int \<Rightarrow> bool" where
  "handler_result r \<longleftrightarrow> r \<in> {-2, -1, 0, 1}"

lemma handler_results [simp]:
  "handler_result (-2)" "handler_result (-1)" "handler_result 0" "handler_result 1"
  by (simp_all add: handler_result_def)

lemma gives_results:
  assumes "\<And>resp. res = Some resp \<Longrightarrow> 4 \<le> length resp"
  shows "gives C (done_res res) handler_result" "gives C (counter_res res) handler_result"
    "gives C (info_res res) handler_result"
proof -
  have "\<exists>r. resp_attr res attr = Some r" for attr by (rule resp_attr_defined) (rule assms)
  then have n: "resp_attr res attr = None \<longleftrightarrow> False" for attr by (metis option.distinct(1))
  show "gives C (done_res res) handler_result" "gives C (counter_res res) handler_result"
    "gives C (info_res res) handler_result"
    by (auto simp: n done_res_def counter_res_def info_res_def Let_def split: option.splits intro!: gives_rules)
qed

lemma gives_req_result:
  assumes "recv_bounded E"
  shows "gives C (request E (Some buf) done_res) handler_result"
    "gives C (request E (Some buf) counter_res) handler_result"
    "gives C (request E (Some buf) info_res) handler_result"
  by (rule gives_request [OF assms], simp, rule gives_results, blast)+

lemmas wlantest_requests =
  cmd_wlantest_clear_sta_counters_def cmd_wlantest_clear_bss_counters_def cmd_wlantest_clear_tdls_counters_def
  cmd_wlantest_get_sta_counter_def cmd_wlantest_get_bss_counter_def cmd_wlantest_get_tdls_counter_def
  cmd_wlantest_info_sta_def cmd_wlantest_info_bss_def

lemma gives_wlantest_requests:
  assumes "recv_bounded E"
  shows "gives C (cmd_wlantest_clear_sta_counters E c) handler_result"
    "gives C (cmd_wlantest_clear_bss_counters E c) handler_result"
    "gives C (cmd_wlantest_clear_tdls_counters E c) handler_result"
    "gives C (cmd_wlantest_get_sta_counter E c) handler_result"
    "gives C (cmd_wlantest_get_bss_counter E c) handler_result"
    "gives C (cmd_wlantest_get_tdls_counter E c) handler_result"
    "gives C (cmd_wlantest_info_sta E c) handler_result"
    "gives C (cmd_wlantest_info_bss E c) handler_result"
  unfolding wlantest_requests start_req_def
  by (intro gives_req_addr gives_req_field gives_req_result [OF assms]; simp add: BUF_LEN_def)+

text \<open>In these modes \<open>wlantest_send_frame\<close> runs a handler of \<open>sta.c\<close> or \<open>ap.c\<close> instead.\<close>

definition hands_over :: "string \<Rightarrow> 'e agent \<Rightarrow> bool" where
  "hands_over name w \<longleftrightarrow> name = ''wlantest_send_frame'' \<and> a_mode w \<in> {SIGMA_MODE_STATION, SIGMA_MODE_AP}"

lemma wp_send_frame:
  assumes "recv_bounded E" and "\<not> hands_over ''wlantest_send_frame'' (world s)"
  shows "wp (cmd_wlantest_send_frame E sta ap c) (\<lambda>r _. handler_result r) (\<lambda>_ _. False) s"
proof -
  have "gives {} (req_choice (get_param2 c ''Type'' ''PMFFrameType'') inject_frames WLANTEST_ATTR_INJECT_FRAME
             ''errorCode,Unsupported PMFFrameType'' (start_req WLANTEST_CTRL_INJECT) (\<lambda>pos.
         req_choice (get_param2 c ''Protected'' ''PMFProtected'') inject_protections WLANTEST_ATTR_INJECT_PROTECTION
             ''errorCode,Unsupported PMFProtected'' pos (\<lambda>pos.
         req_choice (get_param c ''sender'') inject_senders WLANTEST_ATTR_INJECT_SENDER_AP
             ''errorCode,Unsupported sender'' pos (\<lambda>pos.
         req_addr c ''bssid'' WLANTEST_ATTR_BSSID bad_bssid pos (\<lambda>pos.
         req_addr c ''stationID'' WLANTEST_ATTR_STA_ADDR bad_station pos (\<lambda>pos.
         request E pos done_res)))))) handler_result"
    unfolding start_req_def
    by (intro gives_req_choice gives_req_addr gives_req_result [OF assms(1)]; simp add: BUF_LEN_def)
  then show ?thesis
    using assms(2) by (simp add: cmd_wlantest_send_frame_def wp_simps hands_over_def gives_def)
qed

definition wepkey_fits :: "sigma_cmd \<Rightarrow> bool" where
  "wepkey_fits c = (case get_param c ''wepkey'' of None \<Rightarrow> True | Some key \<Rightarrow> length key \<le> 74)"

lemma gives_add_passphrase:
  assumes "recv_bounded E" "wepkey_fits c"
  shows "gives C (cmd_wlantest_add_passphrase E c) handler_result"
proof -
  have rest: "gives C (case get_param c ''bssid'' of
      Some val \<Rightarrow> add_addr val WLANTEST_ATTR_BSSID bad_bssid
        (attr_add_str (start_req WLANTEST_CTRL_ADD_PASSPHRASE) BUF_LEN attr key) (\<lambda>pos. request E pos done_res)
    | None \<Rightarrow> request E (attr_add_str (start_req WLANTEST_CTRL_ADD_PASSPHRASE) BUF_LEN attr key) done_res) handler_result"
    if k: "length key \<le> 74" for key attr
  proof -
    have small: "length key < 2 ^ 31 - 8" using k by simp
    obtain p where "attr_add_str (start_req WLANTEST_CTRL_ADD_PASSPHRASE) BUF_LEN attr key = Some p"
      "length p = 12 + length key"
      using attr_add_str_fits [OF small, of "WPA_PUT_BE32 (cmd_num WLANTEST_CTRL_ADD_PASSPHRASE)" BUF_LEN attr] k
      by (simp add: start_req_def BUF_LEN_def)
    then show ?thesis
      using k by (auto split: option.split simp: BUF_LEN_def intro!: gives_add_addr gives_req_result [OF assms(1)])
  qed
  show ?thesis
    unfolding cmd_wlantest_add_passphrase_def Let_def
    by (intro gives_rules rest) (use assms(2) in \<open>auto simp: wepkey_fits_def\<close>)
qed

lemma gives_send_then:
  assumes "recv_bounded E"
    and "\<And>res. (\<And>resp. res = Some resp \<Longrightarrow> 4 \<le> length resp) \<Longrightarrow> gives C (k res) P"
  shows "gives C (bind_p (cmd_send_and_recv E s cmd n) k) P"
  by (rule gives_bindP [OF gives_send_recv [OF assms(1)]]) (use assms(2) in \<open>auto split: option.splits\<close>)

lemma gives_plain:
  assumes "recv_bounded E"
  shows "gives C (cmd_wlantest_version E c) handler_result"
    and "gives C (cmd_wlantest_flush E c) handler_result"
    and "gives C (cmd_wlantest_set_channel E c) handler_result"
proof -
  have n: "attr_get (drop 4 resp) (int (length resp) - 4) a = None \<longleftrightarrow> False" if "4 \<le> length resp" for resp a
    using that attr_get_total [of "int (length resp) - 4" "drop 4 resp" a] by auto
  show "gives C (cmd_wlantest_version E c) handler_result"
    unfolding cmd_wlantest_version_def
    by (rule gives_bind [OF gives_open_wlantest], rule gives_if, (intro gives_rules, simp),
        rule gives_send_then [OF assms], intro gives_rules) (auto simp: n)
  show "gives C (cmd_wlantest_flush E c) handler_result"
    unfolding cmd_wlantest_flush_def run_wlantest_simple_def cmd_simple_def
    by (rule gives_bind [OF gives_open_wlantest], rule gives_if, (intro gives_rules, simp),
        rule gives_bind, rule gives_send_then [OF assms]) (auto intro!: gives_rules)
  show "gives C (cmd_wlantest_set_channel E c) handler_result"
    unfolding cmd_wlantest_set_channel_def Let_def by (intro gives_rules) auto
qed

text \<open>
  C29.  Every command for the sniffer is defined on all parameters: the request stays within its
  buffer of 100 bytes and the answer within its own, no null pointer is used, and the handler returns
  one of the results that \<open>process_cmd\<close> knows.  What \<open>recv\<close> gives is no longer than its buffer.  Excepted
  are a WEP key of more than 74 characters, and \<open>wlantest_send_frame\<close> while the agent is a station or an
  access point, when the command goes to a handler of \<open>sta.c\<close> or \<open>ap.c\<close>, of which nothing is said.
\<close>

theorem wlantest_defined:
  assumes "recv_bounded E" and "wepkey_fits c"
  shows "list_all (\<lambda>(name, validate, h). \<forall>s.
      hands_over name (world s) \<or> wp (h c) (\<lambda>r _. handler_result r) (\<lambda>_ _. False) s) (wlantest_cmds E sta ap)"
proof -
  have g: "\<forall>s. hands_over n (world s) \<or> wp m (\<lambda>r _. handler_result r) (\<lambda>_ _. False) s"
    if "gives {} m handler_result" for n and m :: "('a, int) action"
    using that by (simp add: gives_def)
  have f: "\<forall>s. hands_over ''wlantest_send_frame'' (world s) \<or>
      wp (cmd_wlantest_send_frame E sta ap c) (\<lambda>r _. handler_result r) (\<lambda>_ _. False) s"
    using wp_send_frame [OF assms(1)] by blast
  show ?thesis
    unfolding wlantest_cmds_def list.pred_inject prod.case
    by (intro conjI list.pred_inject(1) f g gives_wlantest_requests [OF assms(1)] gives_add_passphrase [OF assms(1,2)]
        gives_plain [OF assms(1)])
qed

text \<open>A sniffer for the witnesses: it answers every request with the bytes that are its world.\<close>

definition canned :: "octets env" where
  "canned = null_env\<lparr>e_recv := (\<lambda>s n w. (Some (take n w), w))\<rparr>"

lemma canned_bounded: "recv_bounded canned"
  by (simp add: recv_bounded_def canned_def null_env_def)

theorem wlantest_defined_witness:
  "list_all (\<lambda>(name, validate, h). \<forall>s. hands_over name (world s) \<or>
     wp (h [(''bssid'', ''00:11:22:33:44:55''), (''field'', ''bip_deauth'')]) (\<lambda>r _. handler_result r) (\<lambda>_ _. False) s)
     (wlantest_cmds canned (\<lambda>_. undef_p) (\<lambda>_. undef_p))"
  by (rule wlantest_defined [OF canned_bounded])
    (simp add: wepkey_fits_def get_param_def strcasecmp_eq_def tolower_def)

text \<open>
  The bound on a WEP key is real: without a \<open>bssid\<close>, \<open>wlantest_add_passphrase\<close> is undefined
  exactly when the key has more than 88 characters.  \<open>attr_add_str\<close> then returns a null pointer that the
  handler does not look for, and the request is sent with the distance from the buffer to that pointer
  as its length.
\<close>

theorem wepkey_null_pointer:
  assumes "recv_bounded E"
    and "get_param c ''passphrase'' = None" "get_param c ''bssid'' = None"
    and "get_param c ''wepkey'' = Some key" "length key < 2 ^ 31 - 8"
    and "\<And>w. 0 \<le> fst (e_socket E w)" and "\<And>s p w. 0 \<le> fst (e_connect E s p w)"
  shows "wp (cmd_wlantest_add_passphrase E c) (\<lambda>r _. length key \<le> 88 \<and> handler_result r)
    (\<lambda>x _. 88 < length key \<and> x = Undef) s"
proof -
  have add: "attr_add_str (start_req WLANTEST_CTRL_ADD_PASSPHRASE) BUF_LEN WLANTEST_ATTR_WEPKEY key =
      (if 88 < length key then None
       else Some (WPA_PUT_BE32 (cmd_num WLANTEST_CTRL_ADD_PASSPHRASE) @
         tlv WLANTEST_ATTR_WEPKEY (map (\<lambda>c. word_of_nat (of_char c)) key)))"
    using attr_add_str_fits [OF assms(5)] by (simp add: start_req_def BUF_LEN_def)
  have cmd: "cmd_wlantest_add_passphrase E c =
      request E (attr_add_str (start_req WLANTEST_CTRL_ADD_PASSPHRASE) BUF_LEN WLANTEST_ATTR_WEPKEY key) done_res"
    using assms(2-4) by (simp add: cmd_wlantest_add_passphrase_def)
  show ?thesis
  proof (cases "88 < length key")
    case True
    have n: "\<not> fst (e_socket E w) < 0" "\<not> fst (e_connect E s' p w) < 0" for w s' p
      using assms(6,7) by (simp_all add: not_less)
    have "\<not> s < 0 \<and> \<not> r < 0" if "e_socket E w = (s, w')" "e_connect E s p w'' = (r, w3)" for s r w w' w'' w3 p
      using n(1) [of w] n(2) [of s p w''] that by simp
    then show ?thesis unfolding cmd add using True n(1)
      by (auto simp: request_def open_wlantest_def wp_simps split: prod.splits)
  next
    case False
    then show ?thesis
      unfolding cmd add using gives_req_result(1) [OF assms(1), of "{}"]
      by (auto simp: gives_def intro: wp_mono)
  qed
qed

theorem wepkey_null_pointer_witness:
  "fst (cmd_wlantest_add_passphrase canned [(''wepkey'', replicate 89 (CHR ''x''))]
     (start_proc (new_agent []))) = Inl Undef"
proof -
  let ?c = "[(''wepkey'', replicate 89 (CHR ''x''))]"
  have p: "get_param ?c ''passphrase'' = None" "get_param ?c ''bssid'' = None"
    "get_param ?c ''wepkey'' = Some (replicate 89 (CHR ''x''))"
    by (simp_all add: get_param_def strcasecmp_eq_def tolower_def)
  have "wp (cmd_wlantest_add_passphrase canned ?c) (\<lambda>_ _. False) (\<lambda>x _. x = Undef) s" for s
    by (rule wp_mono [OF wepkey_null_pointer [OF canned_bounded p]]) (simp_all add: canned_def null_env_def)
  from wp_exitD [OF this] show ?thesis by (metis fst_conv)
qed

subsection \<open>A counter, end to end\<close>

text \<open>An address as text.\<close>

definition hex_pair :: "8 word \<Rightarrow> string" where
  "hex_pair b = [hexchar (unat b div 16), hexchar (unat b mod 16)]"

fun mac_text :: "octets \<Rightarrow> string" where
  "mac_text [] = []"
| "mac_text [b] = hex_pair b"
| "mac_text (b # c # bs) = hex_pair b @ CHR '':'' # mac_text (c # bs)"

lemma hex2num_hexchar: "d < 16 \<Longrightarrow> hex2num (hexchar d) = int d"
  by (auto simp: hex2num_def hexchar_def)

lemma hex_pair_value:
  "hex2num (hexchar (unat b div 16)) = int (unat b div 16)" "hex2num (hexchar (unat b mod 16)) = int (unat b mod 16)"
  for b :: "8 word"
proof -
  have "unat b div 16 < 16" using unat_u8_less [of b] by (simp add: div_less_iff_less_mult)
  then show "hex2num (hexchar (unat b div 16)) = int (unat b div 16)" by (rule hex2num_hexchar)
  show "hex2num (hexchar (unat b mod 16)) = int (unat b mod 16)" by (rule hex2num_hexchar) simp
qed

lemma pair_byte: "word_of_nat (unat b div 16) * 16 + word_of_nat (unat b mod 16) = (b :: 8 word)"
proof -
  have "int (unat b div 16) * 16 + int (unat b mod 16) = int (unat b div 16 * 16 + unat b mod 16)"
    by (simp only: of_nat_add of_nat_mult of_nat_numeral)
  also have "\<dots> = int (unat b)" by (simp only: div_mult_mod_eq)
  finally have e: "int (unat b div 16) * 16 + int (unat b mod 16) = int (unat b)" .
  have "word_of_int (int (unat b div 16) * 16 + int (unat b mod 16)) = b" unfolding e by simp
  then show ?thesis by simp
qed

lemma aton_loop_text: "aton_loop (length bs) (mac_text bs) acc = (0, acc @ bs)"
proof (induction bs arbitrary: acc rule: mac_text.induct)
  case (2 b)
  then show ?case by (simp add: hex_pair_def hex_pair_value pair_byte)
next
  case (3 b c bs)
  then show ?case by (simp add: hex_pair_def hex_pair_value pair_byte)
qed simp

lemma hwaddr_aton_text: "length b = 6 \<Longrightarrow> hwaddr_aton (mac_text b) = (0, b)"
  using aton_loop_text [of b "[]"] by (simp add: hwaddr_aton_def)

text \<open>
  A sniffer that answers each request by a function of its bytes, and the one that knows the counters
  \<open>cnt\<close>: it decodes the two addresses and the number of the counter with \<open>attr_get\<close>.
\<close>

definition answers :: "'e env \<Rightarrow> (octets \<Rightarrow> octets) \<Rightarrow> bool" where
  "answers E f \<longleftrightarrow>
     (\<forall>w. 0 \<le> fst (e_socket E w)) \<and> (\<forall>s p w. 0 \<le> fst (e_connect E s p w)) \<and>
     (\<forall>s m w. 0 \<le> fst (e_send E s m w)) \<and>
     (\<forall>s m n w. fst (e_recv E s n (snd (e_send E s m w))) = Some (f m))"

definition counter_sniffer :: "(octets \<Rightarrow> octets \<Rightarrow> nat \<Rightarrow> nat) \<Rightarrow> octets \<Rightarrow> octets" where
  "counter_sniffer cnt req =
     (let get = attr_get (drop 4 req) (int (length req) - 4) in
      case (get WLANTEST_ATTR_BSSID, get WLANTEST_ATTR_STA_ADDR, get WLANTEST_ATTR_STA_COUNTER) of
        (Some (Some b), Some (Some s), Some (Some i)) \<Rightarrow>
          WPA_PUT_BE32 (cmd_num WLANTEST_CTRL_SUCCESS) @
          tlv WLANTEST_ATTR_COUNTER (WPA_PUT_BE32 (cnt b s (WPA_GET_BE32 i)))
      | _ \<Rightarrow> WPA_PUT_BE32 (cmd_num WLANTEST_CTRL_FAILURE))"

lemma request_answered:
  assumes "answers E f" and "length (f buf) \<le> 1000" "4 \<le> length (f buf)" "WPA_GET_BE32 (f buf) = 0"
    and "\<And>e. wp (k (Some (f buf))) Q X (s\<lparr>world := (world s)\<lparr>a_ext := e\<rparr>\<rparr>)"
  shows "wp (request E (Some buf) k) Q X s"
proof -
  let ?w = "a_ext (world s)"
  obtain s1 w1 where 1: "e_socket E ?w = (s1, w1)" by (cases "e_socket E ?w")
  obtain r2 w2 where 2: "e_connect E s1 (NUL # WLANTEST_SOCK_NAME) w1 = (r2, w2)"
    by (cases "e_connect E s1 (NUL # WLANTEST_SOCK_NAME) w1")
  obtain r3 w3 where 3: "e_send E s1 buf w2 = (r3, w3)" by (cases "e_send E s1 buf w2")
  obtain a w4 where 4: "e_recv E s1 1000 w3 = (a, w4)" by (cases "e_recv E s1 1000 w3")
  obtain w5 where 5: "e_close E s1 w4 = ((), w5)" by (cases "e_close E s1 w4") simp
  have "\<not> s1 < 0" "\<not> r2 < 0" "\<not> r3 < 0" "a = Some (f buf)"
    using assms(1) 1 2 3 4 unfolding answers_def
    by (metis fst_conv not_less, metis fst_conv not_less, metis fst_conv not_less, metis fst_conv snd_conv)
  with assms(2-) show ?thesis
    by (simp add: request_def open_wlantest_def cmd_send_and_recv_def wp_simps WLANTEST_CTRL_MAX_RESP_LEN_def 1 2 3 4 5)
qed

lemma find_key:
  "distinct (map fst xs) \<Longrightarrow> (k, v) \<in> set xs \<Longrightarrow> find (\<lambda>(n, _). n = k) xs = Some (k, v)"
  by (induction xs) (auto simp: image_iff)

lemma sta_counters_names: "distinct (map fst sta_counters)"
  by (simp add: sta_counters_def)

lemma sta_counters_lower: "list_all (\<lambda>(n, i). map tolower n = n \<and> i < 38) sta_counters"
  by code_simp

lemma sta_counters_found:
  assumes "(name, i) \<in> set sta_counters"
  shows "find (\<lambda>(n, num). strcasecmp_eq n name) sta_counters = Some (name, i)" and "i < 38"
proof -
  have lower: "map tolower n = n \<and> j < 38" if "(n, j) \<in> set sta_counters" for n j
    using sta_counters_lower that by (auto simp: list_all_iff)
  then have "find (\<lambda>(n, num). strcasecmp_eq n name) sta_counters = find (\<lambda>(n, _). n = name) sta_counters"
    using assms by (intro find_cong) (auto simp: strcasecmp_eq_def)
  also have "\<dots> = Some (name, i)" by (rule find_key [OF sta_counters_names assms])
  finally show "find (\<lambda>(n, num). strcasecmp_eq n name) sta_counters = Some (name, i)" .
  show "i < 38" using lower [OF assms] by simp
qed

lemma counter_sniffer_answer:
  assumes "length b = 6" "length s = 6" "i < 2 ^ 32"
  shows "counter_sniffer cnt (WPA_PUT_BE32 n @ tlv WLANTEST_ATTR_BSSID b @ tlv WLANTEST_ATTR_STA_ADDR s @
      tlv WLANTEST_ATTR_STA_COUNTER (WPA_PUT_BE32 i)) =
    WPA_PUT_BE32 0 @ tlv WLANTEST_ATTR_COUNTER (WPA_PUT_BE32 (cnt b s i))"
proof -
  let ?as = "[(WLANTEST_ATTR_BSSID, b), (WLANTEST_ATTR_STA_ADDR, s), (WLANTEST_ATTR_STA_COUNTER, WPA_PUT_BE32 i)]"
  let ?req = "WPA_PUT_BE32 n @ tlv WLANTEST_ATTR_BSSID b @ tlv WLANTEST_ATTR_STA_ADDR s @
      tlv WLANTEST_ATTR_STA_COUNTER (WPA_PUT_BE32 i)"
  have req: "drop 4 ?req = tlvs ?as" "int (length ?req) - 4 = int (length (tlvs ?as))" using assms by simp_all
  have "attr_get (tlvs ?as) (int (length (tlvs ?as))) a = Some (map_of ?as a)" for a
    by (rule attr_get_map_of) (use assms in auto)
  moreover have "WPA_GET_BE32 (WPA_PUT_BE32 i) = i" using get_put_be32 [OF assms(3), of "[]"] by simp
  ultimately show ?thesis unfolding counter_sniffer_def req Let_def by simp
qed

text \<open>
  A counter of the sniffer is reported end to end: with the addresses written as text and the name
  of a counter of the table, \<open>wlantest_get_sta_counter\<close> asks a sniffer that decodes requests attribute
  by attribute for exactly that counter of exactly these addresses, and answers with its value.
\<close>

lemma get_sta_counter_wp:
  assumes "answers E (counter_sniffer cnt)"
    and "length b = 6" "length st = 6" "(name, i) \<in> set sta_counters" "cnt b st i < 2 ^ 32"
    and "get_param c ''bssid'' = Some (mac_text b)" "get_param c ''stationID'' = Some (mac_text st)"
    and "get_param c ''field'' = Some name"
  shows "wp (cmd_wlantest_get_sta_counter E c)
    (\<lambda>r t. r = 0 \<and> a_resps (world t) =
       a_resps (world s) @ [(SIGMA_COMPLETE, ''counter,'' @ fmt_d (int (cnt b st i)))])
    (\<lambda>_ _. False) s"
proof -
  let ?req = "WPA_PUT_BE32 (cmd_num WLANTEST_CTRL_GET_STA_COUNTER) @ tlv WLANTEST_ATTR_BSSID b @
      tlv WLANTEST_ATTR_STA_ADDR st @ tlv WLANTEST_ATTR_STA_COUNTER (WPA_PUT_BE32 i)"
  have i: "find (\<lambda>(n, num). strcasecmp_eq n name) sta_counters = Some (name, i)" "i < 38"
    using sta_counters_found [OF assms(4)] .
  have cmd: "cmd_wlantest_get_sta_counter E c = request E (Some ?req) counter_res"
    using assms(2,3,6-8) i
    by (simp add: cmd_wlantest_get_sta_counter_def req_addr_def req_field_def start_req_def add_addr_Some
        hwaddr_aton_text attr_add_be32_fits BUF_LEN_def)
  have ans: "counter_sniffer cnt ?req = WPA_PUT_BE32 0 @ tlv WLANTEST_ATTR_COUNTER (WPA_PUT_BE32 (cnt b st i))"
    using assms(2,3) i by (intro counter_sniffer_answer) auto
  have val: "resp_attr (Some (counter_sniffer cnt ?req)) WLANTEST_ATTR_COUNTER =
      Some (Some (WPA_PUT_BE32 (cnt b st i)))"
    using attr_get_tlv [of "WPA_PUT_BE32 (cnt b st i)" WLANTEST_ATTR_COUNTER "[]" WLANTEST_ATTR_COUNTER]
    unfolding ans resp_attr_def by simp
  have len: "length (fmt_d (int (cnt b st i))) \<le> 10"
  proof -
    have "length (digits_of 10 (cnt b st i)) \<le> Suc 9"
      by (rule length_digits_of_le) (use assms(5) in simp)
    then show ?thesis by (simp add: fmt_d_def)
  qed
  have num: "WPA_GET_BE32 (WPA_PUT_BE32 (cnt b st i)) = cnt b st i" using get_put_be32 [OF assms(5), of "[]"] by simp
  show ?thesis
    unfolding cmd
    by (rule request_answered [OF assms(1)], unfold ans)
      (use len num in \<open>simp_all add: ans counter_res_def val [unfolded ans] wp_simps snprintf_def\<close>)
qed

text \<open>A sniffer for the witness: it keeps the last request and answers it.\<close>

definition sniffer_env :: "(octets \<Rightarrow> octets) \<Rightarrow> octets env" where
  "sniffer_env f =
     canned\<lparr>e_send := (\<lambda>s m w. (int (length m), m)), e_recv := (\<lambda>s n w. (Some (f w), w))\<rparr>"

lemma sniffer_answers: "answers (sniffer_env f) f"
  by (simp add: answers_def sniffer_env_def canned_def null_env_def)

end
