(* ===== verification/Sigma_Handlers.thy ===== *)
theory Sigma_Handlers
  imports Sigma_Wpa Sigma_Wlantest
begin

text \<open>
  The small handlers of the test agent (\<open>server.c\<close>, \<open>basic.c\<close>, \<open>dev.c\<close>, \<open>powerswitch.c\<close> and \<open>atheros.c\<close> of
  \<open>wifi_tools/sigma_dut\<close>) and the registration of all commands (\<open>cmds_reg.c\<close>).  The tables of the files that
  are not modelled, and the handlers of \<open>sta.c\<close> and \<open>ap.c\<close> that \<open>dev.c\<close> hands over to, are parameters.
\<close>

subsection \<open>The server commands\<close>

definition unsupported_program :: "('e, int) action" where
  "unsupported_program = then_p (reply SIGMA_ERROR ''errorCode,Unsupported program'') (ret 0)"

definition is_hs2_r2 :: "string option \<Rightarrow> bool" where
  "is_hs2_r2 var = (case var of None \<Rightarrow> False | Some v \<Rightarrow> strcasecmp_eq v ''HS2-R2'')"

definition cmd_server_reset_default :: "'e capi" where
  "cmd_server_reset_default cmd =
     (if \<not> is_hs2_r2 (get_param cmd ''Program'') then unsupported_program else ret 1)"

definition cmd_server_request_status :: "'e capi" where
  "cmd_server_request_status cmd =
     (if \<not> is_hs2_r2 (get_param cmd ''Program'') then unsupported_program
      else (case get_param cmd ''Device'' of
        None \<Rightarrow> then_p (reply SIGMA_ERROR ''errorCode,Unsupported device type'') (ret 0)
      | Some var \<Rightarrow>
          if \<not> strcasecmp_eq var ''AAAServer'' \<and> \<not> strcasecmp_eq var ''OSUServer'' then
            then_p (reply SIGMA_ERROR ''errorCode,Unsupported device type'') (ret 0)
          else (let osu = strcasecmp_eq var ''OSUServer'' in
            case get_param cmd ''Timeout'' of
              None \<Rightarrow> then_p (reply SIGMA_ERROR ''errorCode,Missing timeout'') (ret 0)
            | Some _ \<Rightarrow>
                if osu \<and> (case get_param cmd ''Status'' of Some status \<Rightarrow> strcasecmp_eq status ''Remediation''
                           | None \<Rightarrow> False)
                then then_p (reply SIGMA_COMPLETE (snprintf 500 ''RemediationStatus,Remediation Complete'')) (ret 0)
                else ret 1)))"

definition server_cmds :: "(string \<times> (sigma_cmd \<Rightarrow> int) option \<times> 'e capi) list" where
  "server_cmds =
     [(''server_reset_default'', None, cmd_server_reset_default),
      (''server_request_status'', None, cmd_server_request_status)]"

subsection \<open>The basic commands\<close>

definition cmd_ca_get_version :: "'e env \<Rightarrow> 'e capi" where
  "cmd_ca_get_version E cmd =
     then_p (case get_param cmd ''TestInfo'' of
         None \<Rightarrow> ret ()
       | Some info \<Rightarrow>
           bind_p (get_main_ifname E) (\<lambda>ifname.
           bind_p (wpa_command E ifname (snprintf 200 (''NOTE CAPI:TestInfo:'' @ info))) (\<lambda>_. ret ())))
       (then_p (reply SIGMA_COMPLETE ''version,1.0'') (ret 0))"

definition first_line :: "string \<Rightarrow> string" where
  "first_line s = takeWhile (\<lambda>c. c \<noteq> CHR 0x0D \<and> c \<noteq> nl) s"

text \<open>The first line that \<open>fgets\<close> reads into a buffer of 128 bytes, empty when there is none.\<close>

definition read_first :: "string option \<Rightarrow> string" where
  "read_first f = (case f of None \<Rightarrow> [] | Some t \<Rightarrow> (case fgets 128 t of None \<Rightarrow> [] | Some (l, _) \<Rightarrow> first_line l))"

text \<open>What begins with the \<open>v\<close> of the first \<open>\" v\"\<close>.\<close>

fun from_v :: "string \<Rightarrow> string" where
  "from_v [] = []"
| "from_v (c # s) = (if starts_with (c # s) '' v'' then s else from_v s)"

definition get_ver :: "'e env \<Rightarrow> string \<Rightarrow> ('e, string) action" where
  "get_ver E cmd = bind_p (ext (e_popen E cmd)) (\<lambda>f. ret (from_v (read_first f)))"

definition get_ver2 :: "'e env \<Rightarrow> string \<Rightarrow> string \<Rightarrow> ('e, string) action" where
  "get_ver2 E a b = bind_p (get_ver E a) (\<lambda>v. if v = [] then get_ver E b else ret v)"

definition SIGMA_DUT_VER :: string where "SIGMA_DUT_VER = ''(unknown)''"

definition get_model :: "'e env \<Rightarrow> ('e, string) action" where
  "get_model E =
     bind_p (get_main_ifname E) (\<lambda>ifname.
     bind_p (ext (e_stat E (snprintf 128 (''/sys/class/net/'' @ ifname @ ''/phy80211'')))) (\<lambda>phy.
       if phy then
         bind_p (get_main_ifname E) (\<lambda>ifname.
         bind_p (ext (e_readlink E (snprintf 128 (''/sys/class/net/'' @ ifname @ ''/device/driver'')) 128)) (\<lambda>link.
           case link of
             None \<Rightarrow> ret ''Linux/''
           | Some l \<Rightarrow>
               (let path = take 127 l;
                    name = (case rsplit_at (CHR ''/'') path of None \<Rightarrow> path | Some (a, b) \<Rightarrow> b)
                in ret (snprintf 128 (''Linux/'' @ name)))))
       else ret ''Linux''))"

definition version_text :: "string \<Rightarrow> string \<Rightarrow> string \<Rightarrow> string option \<Rightarrow> string" where
  "version_text cv wpas hapd version =
     snprintf 128 (''drv='' @ cv @ (if wpas \<noteq> [] then ''/wpas='' else []) @ wpas @
       (if hapd \<noteq> [] then ''/hapd='' else []) @ hapd @ ''/sigma='' @ SIGMA_DUT_VER @
       (case version of None \<Rightarrow> [] | Some v \<Rightarrow> ''@'' @ v))"

definition cmd_device_get_info :: "'e env \<Rightarrow> 'e capi" where
  "cmd_device_get_info E cmd =
     bind_p (get_model E) (\<lambda>model.
     bind_p (ext (e_read E ''/sys/module/compat/parameters/backported_kernel_version'')) (\<lambda>f.
     bind_p (case f of None \<Rightarrow> ext (e_read E ''/sys/module/compat/parameters/compat_version'') | Some _ \<Rightarrow> ret f) (\<lambda>f.
     bind_p (get_ver2 E ''./hostapd -v 2>&1'' ''hostapd -v 2>&1'') (\<lambda>hapd.
     bind_p (get_ver2 E ''./wpa_supplicant -v'' ''wpa_supplicant -v'') (\<lambda>wpas.
     bind_p (field a_version) (\<lambda>version.
       then_p (reply SIGMA_COMPLETE (snprintf 200 (''vendor,Qualcomm Atheros,model,'' @ model @ '',version,'' @
           version_text (read_first f) wpas hapd version))) (ret 0)))))))"

definition check_device_list_interfaces :: "sigma_cmd \<Rightarrow> int" where
  "check_device_list_interfaces cmd = (if get_param cmd ''interfaceType'' = None then -1 else 0)"

definition cmd_device_list_interfaces :: "'e env \<Rightarrow> 'e capi" where
  "cmd_device_list_interfaces E cmd =
     (case get_param cmd ''interfaceType'' of
        None \<Rightarrow> ret (-1)
      | Some type \<Rightarrow>
          if type \<noteq> ''802.11'' then ret (-2)
          else bind_p (get_main_ifname E) (\<lambda>ifname.
            then_p (reply SIGMA_COMPLETE (snprintf 200 (''interfaceType,802.11,interfaceID,'' @ ifname))) (ret 0)))"

definition basic_cmds :: "'e env \<Rightarrow> (string \<times> (sigma_cmd \<Rightarrow> int) option \<times> 'e capi) list" where
  "basic_cmds E =
     [(''ca_get_version'', None, cmd_ca_get_version E),
      (''device_get_info'', None, cmd_device_get_info E),
      (''device_list_interfaces'', Some check_device_list_interfaces, cmd_device_list_interfaces E)]"

subsection \<open>Devices, the power switch and the control interface\<close>

text \<open>The optional parts, as the \<open>CONFIG_\<close> symbols of the build choose them.\<close>

record config =
  config_traffic_agent :: bool
  config_wlantest :: bool
  config_sniffer :: bool
  config_server :: bool

definition cmd_dev_send_frame :: "config \<Rightarrow> 'e env \<Rightarrow> 'e capi \<Rightarrow> 'e capi \<Rightarrow> 'e capi" where
  "cmd_dev_send_frame G E cmd_sta_send_frame cmd_ap_send_frame cmd =
     bind_p (field a_mode) (\<lambda>mode.
       if mode = SIGMA_MODE_STATION \<or> mode = SIGMA_MODE_UNKNOWN then cmd_sta_send_frame cmd
       else if mode = SIGMA_MODE_AP then cmd_ap_send_frame cmd
       else if config_wlantest G then cmd_wlantest_send_frame E cmd_sta_send_frame cmd_ap_send_frame cmd
       else then_p (reply SIGMA_ERROR ''errorCode,Unsupported dev_send_frame'') (ret 0))"

definition cmd_dev_set_parameter :: "'e capi \<Rightarrow> 'e capi" where
  "cmd_dev_set_parameter cmd_sta_set_parameter cmd =
     (case get_param cmd ''Device'' of
        Some device \<Rightarrow> if strcasecmp_eq device ''STA'' then cmd_sta_set_parameter cmd else ret (-1)
      | None \<Rightarrow> ret (-1))"

definition req_intf_prog :: "sigma_cmd \<Rightarrow> int" where
  "req_intf_prog cmd =
     (if get_param cmd ''interface'' = None then -1 else if get_param cmd ''program'' = None then -1 else 0)"

definition dev_cmds ::
  "config \<Rightarrow> 'e env \<Rightarrow> 'e capi \<Rightarrow> 'e capi \<Rightarrow> 'e capi \<Rightarrow> (string \<times> (sigma_cmd \<Rightarrow> int) option \<times> 'e capi) list" where
  "dev_cmds G E sta_send_frame ap_send_frame sta_set_parameter =
     [(''dev_send_frame'', Some req_intf_prog, cmd_dev_send_frame G E sta_send_frame ap_send_frame),
      (''dev_set_parameter'', Some req_intf_prog, cmd_dev_set_parameter sta_set_parameter)]"

definition cmd_power_switch_ctrl :: "'e capi" where
  "cmd_power_switch_ctrl cmd = ret 1"

definition cmd_power_switch_reset :: "'e env \<Rightarrow> 'e capi" where
  "cmd_power_switch_reset E cmd = then_p (kill_hostapd E) (ret 1)"

definition cmd_powerswitch :: "'e capi" where
  "cmd_powerswitch cmd = ret 1"

definition powerswitch_cmds :: "'e env \<Rightarrow> (string \<times> (sigma_cmd \<Rightarrow> int) option \<times> 'e capi) list" where
  "powerswitch_cmds E =
     [(''power_switch_ctrl'', None, cmd_power_switch_ctrl), (''power_switch_reset'', None, cmd_power_switch_reset E),
      (''PowerSwitch'', None, cmd_powerswitch)]"

text \<open>The answer of \<open>sta_atheros\<close>: commas and ends of lines become \<open>^\<close>, and it is cut to its buffer.\<close>

definition caret :: "char \<Rightarrow> char" where
  "caret c = (if c = nl \<or> c = CHR 0x0D \<or> c = CHR '','' then CHR ''^'' else c)"

definition atheros_resp :: "string \<Rightarrow> string" where
  "atheros_resp buf = ''resp,'' @ map caret (take 194 buf)"

definition strip_nl :: "string \<Rightarrow> string" where
  "strip_nl s = (if s \<noteq> [] \<and> last s = nl then butlast s else s)"

definition cmd_sta_atheros :: "'e env \<Rightarrow> 'e capi" where
  "cmd_sta_atheros E cmd =
     (case get_param cmd ''cmd'' of
        None \<Rightarrow> ret (-1)
      | Some c \<Rightarrow>
          if strncmp_eq c ''ctrl='' 5 then
            (case get_param cmd ''interface'' of
               None \<Rightarrow> undef_p
             | Some intf \<Rightarrow>
                 bind_p (wpa_command_resp E intf (drop 5 c) 2048) (\<lambda>r. case r of
                   None \<Rightarrow> ret (-2)
                 | Some buf \<Rightarrow> then_p (reply SIGMA_COMPLETE (atheros_resp (strip_nl buf))) (ret 0)))
          else if strncmp_eq c ''timeout='' 8 then
            (let timeout = nat (atoi (drop 8 c) mod 2 ^ 32) in
             if timeout = 0 then ret (-1)
             else then_p (update (\<lambda>w. w\<lparr>a_timeout := timeout\<rparr>))
                    (then_p (reply SIGMA_COMPLETE (atheros_resp ''OK'')) (ret 0)))
          else ret (-2))"

definition req_intf :: "sigma_cmd \<Rightarrow> int" where
  "req_intf cmd = (if get_param cmd ''interface'' = None then -1 else 0)"

definition atheros_cmds :: "'e env \<Rightarrow> (string \<times> (sigma_cmd \<Rightarrow> int) option \<times> 'e capi) list" where
  "atheros_cmds E = [(''sta_atheros'', Some req_intf, cmd_sta_atheros E)]"

subsection \<open>All commands\<close>

type_synonym 'e table = "(string \<times> (sigma_cmd \<Rightarrow> int) option \<times> 'e capi) list"

definition sigma_dut_register_cmds ::
  "config \<Rightarrow> 'e agent process \<Rightarrow> 'e env \<Rightarrow> 'e capi \<Rightarrow> 'e capi \<Rightarrow> 'e capi \<Rightarrow> 'e table \<Rightarrow> 'e table \<Rightarrow> 'e table \<Rightarrow> 'e table \<Rightarrow>
     'e table \<Rightarrow> 'e table \<Rightarrow> 'e agent dut \<Rightarrow> 'e agent dut" where
  "sigma_dut_register_cmds G crash E sta_send_frame ap_send_frame sta_set_parameter
     sta traffic traffic_agent p2p ap sniffer =
     register crash (basic_cmds E @ sta @ traffic @ (if config_traffic_agent G then traffic_agent else []) @ p2p @ ap @
       powerswitch_cmds E @ atheros_cmds E @
       (if config_wlantest G then wlantest_cmds E sta_send_frame ap_send_frame else []) @
       dev_cmds G E sta_send_frame ap_send_frame sta_set_parameter @
       (if config_sniffer G then sniffer else []) @ (if config_server G then server_cmds else []))"

subsection \<open>Properties\<close>

text \<open>
  The answer of \<open>sta_atheros\<close> cannot be mistaken for something else by the one who reads the responses:
  whatever the control interface replies, the handler sends at most one response, and its text is
  \<open>resp,\<close> and at most 194 characters without a comma and without an end of line, and a timeout of zero
  is never stored.
\<close>

theorem sta_atheros_one_field:
  assumes "0 < a_timeout (world s)"
  shows "wp (cmd_sta_atheros E c)
    (\<lambda>r t. 0 < a_timeout (world t) \<and>
       (if r = 0 then (\<exists>x. a_resps (world t) = a_resps (world s) @ [(SIGMA_COMPLETE, ''resp,'' @ x)] \<and> length x \<le> 194 \<and>
             CHR '','' \<notin> set x \<and> nl \<notin> set x \<and> CHR 0x0D \<notin> set x)
        else a_resps (world t) = a_resps (world s)))
    (\<lambda>_ _. True) s"
proof -
  have f: "(\<exists>x. atheros_resp b = ''resp,'' @ x \<and> length x \<le> 194 \<and>
      CHR '','' \<notin> set x \<and> nl \<notin> set x \<and> CHR 0x0D \<notin> set x) \<longleftrightarrow> True" for b
    by (auto simp: atheros_resp_def caret_def split: if_splits)
  show ?thesis
    using assms unfolding cmd_sta_atheros_def wpa_command_resp_def
    by (auto simp: wp_simps Let_def simp del: append_Cons append_Nil simp: f
        split: option.splits prod.splits ctrl_result.splits)
qed

theorem sta_atheros_one_field_witness:
  "\<exists>x. a_resps (world (snd (cmd_sta_atheros (supplicant (''a,b'' @ [nl] @ ''c'')) [(''cmd'', ''ctrl=STATUS''), (''interface'', ''wlan0'')]
     (start_proc (new_agent []))))) = [(SIGMA_COMPLETE, ''resp,'' @ x)] \<and> CHR '','' \<notin> set x"
proof -
  let ?m = "cmd_sta_atheros (supplicant (''a,b'' @ [nl] @ ''c'')) [(''cmd'', ''ctrl=STATUS''), (''interface'', ''wlan0'')]"
  let ?s = "start_proc (new_agent [])"
  have r: "fst (?m ?s) = Inr 0" by code_simp
  have "wp ?m (\<lambda>r t. r = 0 \<longrightarrow> (\<exists>x. a_resps (world t) = [(SIGMA_COMPLETE, ''resp,'' @ x)] \<and> CHR '','' \<notin> set x)) (\<lambda>_ _. True) ?s"
    by (rule wp_mono [OF sta_atheros_one_field]) (auto simp: start_proc_def new_agent_def)
  then show ?thesis using r by (auto simp: wp_def split: prod.splits sum.splits)
qed

text \<open>The commands of the files modelled here: name, whether it is in the build, check and handler.\<close>

type_synonym 'e promise = "(string \<times> bool \<times> (sigma_cmd \<Rightarrow> int) option \<times> 'e capi) list"

definition promised :: "config \<Rightarrow> 'e env \<Rightarrow> 'e capi \<Rightarrow> 'e capi \<Rightarrow> 'e capi \<Rightarrow> 'e promise" where
  "promised G E sta_frame ap_frame sta_set =
     [(''ca_get_version'', True, None, cmd_ca_get_version E),
      (''device_get_info'', True, None, cmd_device_get_info E),
      (''device_list_interfaces'', True, Some check_device_list_interfaces, cmd_device_list_interfaces E),
      (''power_switch_ctrl'', True, None, cmd_power_switch_ctrl),
      (''power_switch_reset'', True, None, cmd_power_switch_reset E),
      (''PowerSwitch'', True, None, cmd_powerswitch),
      (''sta_atheros'', True, Some req_intf, cmd_sta_atheros E),
      (''wlantest_version'', config_wlantest G, None, cmd_wlantest_version E),
      (''wlantest_set_channel'', config_wlantest G, None, cmd_wlantest_set_channel E),
      (''wlantest_flush'', config_wlantest G, None, cmd_wlantest_flush E),
      (''wlantest_send_frame'', config_wlantest G, None, cmd_wlantest_send_frame E sta_frame ap_frame),
      (''wlantest_add_passphrase'', config_wlantest G, None, cmd_wlantest_add_passphrase E),
      (''wlantest_clear_sta_counters'', config_wlantest G, None, cmd_wlantest_clear_sta_counters E),
      (''wlantest_clear_bss_counters'', config_wlantest G, None, cmd_wlantest_clear_bss_counters E),
      (''wlantest_clear_tdls_counters'', config_wlantest G, None, cmd_wlantest_clear_tdls_counters E),
      (''wlantest_get_sta_counter'', config_wlantest G, None, cmd_wlantest_get_sta_counter E),
      (''wlantest_get_bss_counter'', config_wlantest G, None, cmd_wlantest_get_bss_counter E),
      (''wlantest_get_tdls_counter'', config_wlantest G, None, cmd_wlantest_get_tdls_counter E),
      (''wlantest_info_sta'', config_wlantest G, None, cmd_wlantest_info_sta E),
      (''wlantest_info_bss'', config_wlantest G, None, cmd_wlantest_info_bss E),
      (''dev_send_frame'', True, Some req_intf_prog, cmd_dev_send_frame G E sta_frame ap_frame),
      (''dev_set_parameter'', True, Some req_intf_prog, cmd_dev_set_parameter sta_set),
      (''server_reset_default'', config_server G, None, cmd_server_reset_default),
      (''server_request_status'', config_server G, None, cmd_server_request_status)]"

definition in_build :: "'e promise \<Rightarrow> 'e table" where
  "in_build L = map (\<lambda>(n, b, v, h). (n, v, h)) (filter (\<lambda>(n, b, v, h). b) L)"

lemma in_build_promised:
  "in_build (promised G E sta_frame ap_frame sta_set) =
     basic_cmds E @ powerswitch_cmds E @ atheros_cmds E @ (if config_wlantest G then wlantest_cmds E sta_frame ap_frame else []) @
     dev_cmds G E sta_frame ap_frame sta_set @ (if config_server G then server_cmds else [])"
  by (simp add: in_build_def promised_def basic_cmds_def powerswitch_cmds_def atheros_cmds_def wlantest_cmds_def dev_cmds_def
      server_cmds_def)

lemma promised_names:
  "map fst (promised G E sta_frame ap_frame sta_set) =
     [''ca_get_version'', ''device_get_info'', ''device_list_interfaces'', ''power_switch_ctrl'',
      ''power_switch_reset'', ''PowerSwitch'', ''sta_atheros'', ''wlantest_version'',
      ''wlantest_set_channel'', ''wlantest_flush'', ''wlantest_send_frame'', ''wlantest_add_passphrase'',
      ''wlantest_clear_sta_counters'', ''wlantest_clear_bss_counters'', ''wlantest_clear_tdls_counters'',
      ''wlantest_get_sta_counter'', ''wlantest_get_bss_counter'', ''wlantest_get_tdls_counter'',
      ''wlantest_info_sta'', ''wlantest_info_bss'', ''dev_send_frame'', ''dev_set_parameter'',
      ''server_reset_default'', ''server_request_status'']"
  by (simp add: promised_def)

lemma promised_lower:
  "map (map tolower) (map fst (promised G E sta_frame ap_frame sta_set)) =
     [''ca_get_version'', ''device_get_info'', ''device_list_interfaces'', ''power_switch_ctrl'',
      ''power_switch_reset'', ''powerswitch'', ''sta_atheros'', ''wlantest_version'',
      ''wlantest_set_channel'', ''wlantest_flush'', ''wlantest_send_frame'', ''wlantest_add_passphrase'',
      ''wlantest_clear_sta_counters'', ''wlantest_clear_bss_counters'', ''wlantest_clear_tdls_counters'',
      ''wlantest_get_sta_counter'', ''wlantest_get_bss_counter'', ''wlantest_get_tdls_counter'',
      ''wlantest_info_sta'', ''wlantest_info_bss'', ''dev_send_frame'', ''dev_set_parameter'',
      ''server_reset_default'', ''server_request_status'']"
  unfolding promised_names by code_simp

lemma promised_once:
  assumes "d \<in> set (promised G E sta_frame ap_frame sta_set)" "e \<in> set (promised G E sta_frame ap_frame sta_set)"
    "strcasecmp_eq cmd (fst d)" "strcasecmp_eq cmd (fst e)"
  shows "d = e"
proof -
  have "distinct (map (map tolower) (map fst (promised G E sta_frame ap_frame sta_set)))"
    unfolding promised_lower by simp
  then show ?thesis using assms by (auto simp: distinct_map inj_on_def strcasecmp_eq_def simp del: map_map)
qed

lemma find_only:
  assumes "x \<in> set xs" "P x" "\<And>y. y \<in> set xs \<Longrightarrow> P y \<Longrightarrow> y = x"
  shows "find P xs = Some x"
proof -
  obtain y where y: "find P xs = Some y" using assms(1,2) by (metis find_None_iff not_None_eq)
  then have "y \<in> set xs \<and> P y" by (auto simp: find_Some_iff)
  then show ?thesis using y assms(3) by simp
qed

lemma promised_found:
  assumes e: "(name, built, validate, h) \<in> set (promised G E sta_frame ap_frame sta_set)"
    and cmd: "strcasecmp_eq cmd name"
    and others: "list_all (\<lambda>(n, _). \<not> strcasecmp_eq cmd n) (sta @ traffic @ traffic_agent @ p2p @ ap @ sniffer)"
  shows "handler_for cmd (sigma_dut_register_cmds G crash E sta_frame ap_frame sta_set
      sta traffic traffic_agent p2p ap sniffer dut) =
    (if built then Some (validate, as_process crash h) else handler_for cmd dut)"
proof -
  let ?L = "promised G E sta_frame ap_frame sta_set"
  let ?P = "\<lambda>(k, _). strcasecmp_eq cmd k"
  let ?all = "basic_cmds E @ sta @ traffic @ (if config_traffic_agent G then traffic_agent else []) @ p2p @ ap @
       powerswitch_cmds E @ atheros_cmds E @ (if config_wlantest G then wlantest_cmds E sta_frame ap_frame else []) @
       dev_cmds G E sta_frame ap_frame sta_set @ (if config_sniffer G then sniffer else []) @
       (if config_server G then server_cmds else [])"
  have ours: "set (in_build ?L) \<subseteq> set ?all" by (auto simp: in_build_promised)
  have all: "set ?all \<subseteq> set (in_build ?L) \<union> set (sta @ traffic @ traffic_agent @ p2p @ ap @ sniffer)"
    by (auto simp: in_build_promised)
  have only: "built \<and> y = (name, validate, h)" if y: "y \<in> set ?all" "?P y" for y
  proof -
    have "y \<notin> set (sta @ traffic @ traffic_agent @ p2p @ ap @ sniffer)"
      using others y(2) unfolding list_all_iff by blast
    then have "y \<in> set (in_build ?L)" using all y(1) by blast
    then obtain n v g where d: "(n, True, v, g) \<in> set ?L" "y = (n, v, g)" by (auto simp: in_build_def)
    have "(n, True, v, g) = (name, built, validate, h)" by (rule promised_once [OF d(1) e]) (use y(2) d(2) cmd in simp_all)
    then show ?thesis using d(2) by simp
  qed
  have "find ?P (rev ?all) = (if built then Some (name, validate, h) else None)"
  proof (cases built)
    case True
    have "(name, validate, h) \<in> set (in_build ?L)" using e True by (force simp: in_build_def)
    then have "(name, validate, h) \<in> set (rev ?all)" using ours by (simp only: set_rev) blast
    then have "find ?P (rev ?all) = Some (name, validate, h)"
      by (rule find_only) (use cmd only in \<open>simp_all only: set_rev prod.case\<close>)
    then show ?thesis using True by simp
  next
    case False
    have "\<not> ?P y" if "y \<in> set (rev ?all)" for y using only [of y] that False by (simp only: set_rev) blast
    then show ?thesis using False by (simp only: find_None_iff if_False) blast
  qed
  then show ?thesis unfolding sigma_dut_register_cmds_def register_lookup by simp
qed

text \<open>
  C32.  Which check and which handler a command of these files has, for each \<open>CONFIG_\<close> choice of the build: with all
  the tables registered in the order of \<open>cmds_reg.c\<close>, the lookup of each of the 24 names below, in any case of its
  letters, gives the check and the handler beside it; a command of a part that is not built is not found, but for what
  was registered before.  The tables of the other files do not register the same name.
\<close>

theorem commands_reach_handlers:
  assumes "(name, built, validate, h) \<in> set
     [(''ca_get_version'', True, None, cmd_ca_get_version E),
      (''device_get_info'', True, None, cmd_device_get_info E),
      (''device_list_interfaces'', True, Some check_device_list_interfaces, cmd_device_list_interfaces E),
      (''power_switch_ctrl'', True, None, cmd_power_switch_ctrl),
      (''power_switch_reset'', True, None, cmd_power_switch_reset E),
      (''PowerSwitch'', True, None, cmd_powerswitch),
      (''sta_atheros'', True, Some req_intf, cmd_sta_atheros E),
      (''wlantest_version'', config_wlantest G, None, cmd_wlantest_version E),
      (''wlantest_set_channel'', config_wlantest G, None, cmd_wlantest_set_channel E),
      (''wlantest_flush'', config_wlantest G, None, cmd_wlantest_flush E),
      (''wlantest_send_frame'', config_wlantest G, None, cmd_wlantest_send_frame E sta_frame ap_frame),
      (''wlantest_add_passphrase'', config_wlantest G, None, cmd_wlantest_add_passphrase E),
      (''wlantest_clear_sta_counters'', config_wlantest G, None, cmd_wlantest_clear_sta_counters E),
      (''wlantest_clear_bss_counters'', config_wlantest G, None, cmd_wlantest_clear_bss_counters E),
      (''wlantest_clear_tdls_counters'', config_wlantest G, None, cmd_wlantest_clear_tdls_counters E),
      (''wlantest_get_sta_counter'', config_wlantest G, None, cmd_wlantest_get_sta_counter E),
      (''wlantest_get_bss_counter'', config_wlantest G, None, cmd_wlantest_get_bss_counter E),
      (''wlantest_get_tdls_counter'', config_wlantest G, None, cmd_wlantest_get_tdls_counter E),
      (''wlantest_info_sta'', config_wlantest G, None, cmd_wlantest_info_sta E),
      (''wlantest_info_bss'', config_wlantest G, None, cmd_wlantest_info_bss E),
      (''dev_send_frame'', True, Some req_intf_prog, cmd_dev_send_frame G E sta_frame ap_frame),
      (''dev_set_parameter'', True, Some req_intf_prog, cmd_dev_set_parameter sta_set),
      (''server_reset_default'', config_server G, None, cmd_server_reset_default),
      (''server_request_status'', config_server G, None, cmd_server_request_status)]"
    and "strcasecmp_eq cmd name"
    and "list_all (\<lambda>(n, _). \<not> strcasecmp_eq cmd n) (sta @ traffic @ traffic_agent @ p2p @ ap @ sniffer)"
  shows "handler_for cmd (sigma_dut_register_cmds G crash E sta_frame ap_frame sta_set
      sta traffic traffic_agent p2p ap sniffer dut) =
    (if built then Some (validate, as_process crash h) else handler_for cmd dut)"
  by (rule promised_found [unfolded promised_def, OF assms])

theorem commands_reach_handlers_witness:
  "(let dut = sigma_dut_register_cmds
      \<lparr>config_traffic_agent = False, config_wlantest = False, config_sniffer = False, config_server = True\<rparr>
      (\<lambda>c w x. (0, [], w, x)) null_env (\<lambda>_. ret 1) (\<lambda>_. ret 1) (\<lambda>_. ret 1) [(''sta_get_ip_config'', None, \<lambda>_. ret 1)] [] [] [] [] []
      \<lparr>d_cmds = [], d_sent = [], d_notes = [], d_waiting = False, d_rest = new_agent ()\<rparr> in
    handler_for ''SERVER_reset_default'' dut = Some (None, as_process (\<lambda>c w x. (0, [], w, x)) cmd_server_reset_default) \<and>
    handler_for ''wlantest_flush'' dut = None)"
proof -
  let ?G = "\<lparr>config_traffic_agent = False, config_wlantest = False, config_sniffer = False, config_server = True\<rparr>"
  let ?cr = "\<lambda>c w x. (0, [], w, x)"
  let ?d = "\<lparr>d_cmds = [], d_sent = [], d_notes = [], d_waiting = False, d_rest = new_agent ()\<rparr>"
  let ?dut = "sigma_dut_register_cmds ?G ?cr null_env (\<lambda>_. ret 1) (\<lambda>_. ret 1) (\<lambda>_. ret 1)
      [(''sta_get_ip_config'', None, \<lambda>_. ret 1)] [] [] [] [] [] ?d"
  have "handler_for ''SERVER_reset_default'' ?dut =
      (if config_server ?G then Some (None, as_process ?cr cmd_server_reset_default) else handler_for ''SERVER_reset_default'' ?d)"
    by (rule commands_reach_handlers [where name = "''server_reset_default''"]) (simp, code_simp, code_simp)
  moreover have "handler_for ''wlantest_flush'' ?dut =
      (if config_wlantest ?G then Some (None, as_process ?cr (cmd_wlantest_flush null_env)) else handler_for ''wlantest_flush'' ?d)"
    by (rule commands_reach_handlers [where name = "''wlantest_flush''"]) (simp, code_simp, code_simp)
  moreover have "handler_for ''wlantest_flush'' ?d = None" by (simp add: handler_for_def find_handler_def)
  ultimately show ?thesis by (simp add: Let_def)
qed

end
