(* ===== verification/Serial_Client.thy ===== *)
theory Serial_Client
  imports CString
begin

text \<open>
  \<open>serial_client/serial_client.c\<close>, the client that sends AT commands to a modem.  The part before the
  threads (arguments, escapes, the device) is a program of the prelude; its world holds the static
  variables \<open>s_atCommand\<close> (the array), \<open>s_isWait\<close> and \<open>acDeviceName1\<close> beside the outside.  The exchange
  of a command is the step relation of its two threads over the mutex, the condition variable and the
  device; the interactive mode is the loop over the standard input.  What goes to the Android log goes
  to the standard output too and is modelled there.
\<close>

subsection \<open>State\<close>

definition BUFFSIZE :: nat where "BUFFSIZE = 1024"
definition PATH_MAX :: nat where "PATH_MAX = 4096"

record 'w client =
  s_atCommand :: string
  s_isWait :: bool
  acDeviceName1 :: string
  outside :: 'w

text \<open>The calls of the system: properties, \<open>open\<close>, the set-up of the terminal, threads, standard input, the device.\<close>

record 'w os =
  o_property :: "string \<Rightarrow> string \<Rightarrow> 'w \<Rightarrow> string \<times> 'w"
  o_open :: "string \<Rightarrow> 'w \<Rightarrow> int \<times> 'w"
  o_error :: "'w \<Rightarrow> string \<times> 'w"
  o_termios :: "int \<Rightarrow> 'w \<Rightarrow> unit \<times> 'w"
  o_thread :: "'w \<Rightarrow> bool \<times> 'w"
  o_read :: "nat \<Rightarrow> 'w \<Rightarrow> string option \<times> 'w"
  o_write :: "int \<Rightarrow> string \<Rightarrow> 'w \<Rightarrow> int \<times> 'w"

type_synonym ('w, 'a) sc = "('w client, unit, 'a) prog"

definition on_outside :: "('w \<Rightarrow> 'a \<times> 'w) \<Rightarrow> ('w, 'a) sc" where
  "on_outside f = sys (\<lambda>c. case f (outside c) of (x, w) \<Rightarrow> (x, c\<lparr>outside := w\<rparr>))"

definition get_client :: "('w, 'w client) sc" where
  "get_client = sys (\<lambda>c. (c, c))"

definition set_client :: "('w client \<Rightarrow> 'w client) \<Rightarrow> ('w, unit) sc" where
  "set_client f = sys (\<lambda>c. ((), f c))"

text \<open>\<open>strlcat\<close> on an array.\<close>

definition strlcat :: "string \<Rightarrow> string \<Rightarrow> string" where
  "strlcat a t =
     (let k = length (c_str a); u = take (length a - k - 1) t
      in if k = length a then a else take k a @ u @ NUL # drop (k + length u + 1) a)"

definition strncasecmp_eq :: "string \<Rightarrow> string \<Rightarrow> nat \<Rightarrow> bool" where
  "strncasecmp_eq a b n \<longleftrightarrow> strncmp_eq (map tolower a) (map tolower b) n"

definition strcasestr :: "string \<Rightarrow> string \<Rightarrow> bool" where
  "strcasestr s t \<longleftrightarrow> list_ex (\<lambda>i. take (length t) (drop i (map tolower s)) = map tolower t) [0..<Suc (length s)]"

subsection \<open>Arguments\<close>

text \<open>
  The loop of \<open>StringProcess\<close> over the copy \<open>tmp\<close> of the argument (with its NUL) and the array of the
  command: \<open>None\<close> when a byte outside an array is read or written, \<open>Inl\<close> the character behind a backslash
  that is none of the known ones.
\<close>

function sp_loop :: "string \<Rightarrow> nat \<Rightarrow> nat \<Rightarrow> string \<Rightarrow> nat \<Rightarrow> (char \<times> string + string) option" where
  "sp_loop tmp len i at j =
     (if len \<le> i then Some (Inr at)
      else if BUFFSIZE \<le> i \<or> length at \<le> j then None
      else if char_at tmp i \<noteq> CHR 0x5C then sp_loop tmp len (i + 1) (at[j := char_at tmp i]) (j + 1)
      else if BUFFSIZE \<le> i + 1 then None
      else if char_at tmp (i + 1) = CHR ''x'' then
        (if BUFFSIZE \<le> i + 3 then None
         else sp_loop tmp len (i + 4)
           (at[j := char_of (nat (fst (strtoul (c_str (take 2 (drop (i + 2) tmp))) 16) mod 256))]) (j + 1))
      else if char_at tmp (i + 1) = CHR ''r'' then sp_loop tmp len (i + 2) (at[j := CHR 0x0D]) (j + 1)
      else Some (Inl (char_at tmp (i + 1), at)))"
  by pat_completeness auto
termination
  by (relation "measure (\<lambda>(tmp, len, i, at, j). len - i)") auto

declare sp_loop.simps [simp del]

definition StringProcess :: "string \<Rightarrow> ('w, int) sc" where
  "StringProcess p =
     (if p = [] then then_p (print (''copy '' @ p @ '' to atCommand error'' @ [nl])) (ret (- 1))
      else bind_p get_client (\<lambda>c.
        case sp_loop (take (BUFFSIZE - 1) p @ [NUL]) (length p) 0 (s_atCommand c) 0 of
          None \<Rightarrow> undef_p
        | Some (Inl (x, at)) \<Rightarrow>
            then_p (set_client (\<lambda>c. c\<lparr>s_atCommand := at\<rparr>))
              (then_p (print (''error unknow '' @ [CHR 0x5C, x, nl])) (ret (- 1)))
        | Some (Inr at) \<Rightarrow> then_p (set_client (\<lambda>c. c\<lparr>s_atCommand := at\<rparr>)) (ret 0)))"

definition HelpInfo :: string where
  "HelpInfo = ''Usage: serial_client [-c '' @ [CHR 0x22] @ ''AT command'' @ [CHR 0x22] @ ''] [-h]'' @ [nl] @
     ''-c: Send an at command to atcmdsrv'' @ [nl] @ ''-w: Send an at command to atcmdsrv no wait'' @ [nl] @
     ''-z: append ctrl+z to an at command(sms)'' @ [nl] @ ''-h: Print help info'' @ [nl]"

text \<open>A switch with a command behind it; when nothing is behind it the null pointer is copied.\<close>

definition command_switch :: "string \<Rightarrow> bool \<Rightarrow> string list \<Rightarrow> (string list \<Rightarrow> ('w, int) sc) \<Rightarrow> ('w, int) sc" where
  "command_switch suffix no_wait r k =
     (case r of [] \<Rightarrow> undef_p
      | p # r \<Rightarrow> bind_p (StringProcess p) (\<lambda>len.
          if len < 0 then then_p (print ''StringProcess error'') (ret len)
          else then_p (set_client (\<lambda>c. c\<lparr>s_atCommand := strlcat (s_atCommand c) suffix,
                 s_isWait := (if no_wait then False else s_isWait c)\<rparr>)) (k r)))"

function GetArgs :: "string list \<Rightarrow> ('w, int) sc" where
  "GetArgs [] = ret 0"
| "GetArgs (a # r) =
     (if char_at a 0 = CHR ''-'' then
        (if char_at a 1 = CHR ''c'' then command_switch [CHR 0x0D] False r (\<lambda>_. GetArgs (tl r))
         else if char_at a 1 = CHR ''z'' then command_switch [CHR 0x1A, CHR 0x0D] False r (\<lambda>_. GetArgs (tl r))
         else if char_at a 1 = CHR ''w'' then command_switch [CHR 0x0D] True r (\<lambda>_. GetArgs (tl r))
         else if char_at a 1 = CHR ''h'' then then_p (print HelpInfo) (ret 1)
         else then_p (print (''Unknown args '' @ a @ [nl])) (ret (- 1)))
      else then_p (set_client (\<lambda>c. c\<lparr>acDeviceName1 := take (PATH_MAX - 1) a\<rparr>))
        (if a = [] then then_p (print (''copy '' @ a @ '' to DeviceName error'' @ [nl])) (ret (- 1)) else GetArgs r))"
  by pat_completeness auto
termination
  by (relation "measure length") auto

subsection \<open>The device\<close>

definition open_device :: "'w os \<Rightarrow> string \<Rightarrow> ('w, int option) sc" where
  "open_device E port =
     bind_p (on_outside (o_open E port)) (\<lambda>fd.
     if fd \<le> 0 then bind_p (on_outside (o_error E)) (\<lambda>e.
       then_p (print (''opening '' @ port @ '' error '' @ e @ [nl])) (ret None))
     else then_p (print (''Device : '' @ port @ [nl])) (ret (Some fd)))"

definition default_port :: "string \<Rightarrow> string" where
  "default_port args =
     (if strncasecmp_eq args ''msm'' 3 then ''/dev/smd7''
      else if strncasecmp_eq args ''mdm'' 3 then ''/dev/gdun0''
      else ''/dev/gsmtty19'')"

text \<open>\<open>main\<close> up to the exchange: \<open>Inl\<close> what it returns, or \<open>Inr\<close> the device.\<close>

definition client_start :: "'w os \<Rightarrow> string list \<Rightarrow> ('w, int + int) sc" where
  "client_start E argv =
     then_p (set_client (\<lambda>c. c\<lparr>s_atCommand := replicate BUFFSIZE NUL, s_isWait := True, acDeviceName1 := []\<rparr>))
     (bind_p (GetArgs argv) (\<lambda>r.
      if r = -1 then then_p (print (''Error to handle argv'' @ [nl])) (ret (Inl (- 1)))
      else if r = 1 then ret (Inl 0)
      else bind_p get_client (\<lambda>c.
      bind_p (if acDeviceName1 c \<noteq> [] then open_device E (acDeviceName1 c)
              else bind_p (on_outside (o_property E ''ro.baseband'' ''msm'')) (\<lambda>args. open_device E (default_port args))) (\<lambda>fd.
      case fd of None \<Rightarrow> ret (Inl 0)
      | Some fd \<Rightarrow>
          then_p (on_outside (o_termios E fd))
          (bind_p (on_outside (o_thread E)) (\<lambda>ok.
           if \<not> ok then then_p (print ''pthread_create'') (exit_p 1) else ret (Inr fd)))))))"

subsection \<open>The interactive mode\<close>

definition to_cr :: "string \<Rightarrow> string" where
  "to_cr buf = (if last buf = CHR 0x07 \<or> last buf = nl then butlast buf @ [CHR 0x0D] else buf)"

text \<open>At the end of the standard input and on an error the byte in front of the buffer is looked at.\<close>

definition forward :: "'w os \<Rightarrow> int \<Rightarrow> ('w, unit) sc" where
  "forward E fd =
     bind_p (on_outside (o_read E BUFFSIZE)) (\<lambda>received.
     case received of None \<Rightarrow> undef_p
     | Some buf \<Rightarrow> if buf = [] then undef_p
         else bind_p (on_outside (o_write E fd (to_cr buf))) (\<lambda>rc.
           if rc < 0 then print ''cannot send data '' else ret ()))"

definition interactive :: "'w os \<Rightarrow> int \<Rightarrow> ('w, unit) sc" where
  "interactive E fd = while_p (\<lambda>_. True) (\<lambda>_. forward E fd) ()"

subsection \<open>The exchange of a command\<close>

text \<open>
  The two threads behind \<open>pthread_create\<close>, when there is a command.  \<open>main_pc\<close> and \<open>reader_pc\<close> are the places
  in \<open>main\<close> and in \<open>ReceiveDataFromChan1\<close>; the mutex is unusable before \<open>pthread_mutex_init\<close> and behind
  \<open>pthread_mutex_destroy\<close>.  \<open>M_fault\<close> and \<open>R_fault\<close> are uses of the mutex that POSIX leaves undefined.
\<close>

datatype main_pc = M_init | M_lock | M_write nat | M_sent | M_sleep string | M_wait | M_back bool | M_unlock | M_destroy | M_done | M_fault
datatype reader_pc = R_read | R_lock | R_signal | R_unlock | R_done | R_failed | R_fault
datatype mutex = Unusable | Free | By_main | By_reader

record exchange =
  x_main :: main_pc
  x_reader :: reader_pc
  x_mutex :: mutex
  x_woken :: bool
  x_out :: string
  x_sent :: string

definition start_exchange :: exchange where
  "start_exchange = \<lparr>x_main = M_init, x_reader = R_read, x_mutex = Unusable, x_woken = False, x_out = [], x_sent = []\<rparr>"

definition write_retry :: nat where "write_retry = 20"

text \<open>Whether the reader takes what it has read for the answer to the command.\<close>

definition decides :: "string \<Rightarrow> bool" where
  "decides buf \<longleftrightarrow> strcasestr (c_str buf) ''OK'' \<or> strcasestr (c_str buf) ''ERROR''"

definition SSR_CMD :: string where "SSR_CMD = ''AT+CUSD=1,##3424*9#''"
definition SMS_CMD1 :: string where "SMS_CMD1 = ''AT+CMGS=''"
definition SMS_CMD2 :: string where "SMS_CMD2 = ''AT+CMGW=''"

text \<open>What \<open>main\<close> does when the command is written: it sleeps and prints, or it waits for the reader.\<close>

definition after_write :: "string \<Rightarrow> bool \<Rightarrow> main_pc" where
  "after_write cmd wait =
     (if strncasecmp_eq cmd SSR_CMD (length SSR_CMD) then M_sleep ([nl] @ ''Trigger SSR'' @ [nl])
      else if strncasecmp_eq cmd SMS_CMD1 (length SMS_CMD1) \<or> strncasecmp_eq cmd SMS_CMD2 (length SMS_CMD2)
      then M_sleep ([nl] @ ''SEND SMS MESSAGE'' @ [nl])
      else if wait then M_wait else M_sleep [])"

text \<open>
  A \<open>write\<close> takes some of the bytes or fails, a \<open>read\<close> fails, ends or brings at most 1023 bytes; a wait ends
  by the signal or by its time.  POSIX also allows it to end for no reason; this is a step of its own
  (\<open>spurious\<close>), since nobody can count on it.
\<close>

inductive main_step :: "string \<Rightarrow> bool \<Rightarrow> exchange \<Rightarrow> exchange \<Rightarrow> bool" for cmd wait where
  init: "x_main s = M_init \<Longrightarrow> main_step cmd wait s (s\<lparr>x_main := M_lock, x_mutex := Free\<rparr>)"
| lock: "x_main s = M_lock \<Longrightarrow> x_mutex s = Free \<Longrightarrow>
    main_step cmd wait s (s\<lparr>x_main := M_write write_retry, x_mutex := By_main, x_out := x_out s @ ''S: '' @ cmd @ [nl]\<rparr>)"
| writes: "x_main s = M_write k \<Longrightarrow> n \<le> length cmd \<Longrightarrow>
    main_step cmd wait s (s\<lparr>x_main := M_sent, x_sent := x_sent s @ take n cmd\<rparr>)"
| retry: "x_main s = M_write k \<Longrightarrow> 0 < k - 1 \<Longrightarrow> main_step cmd wait s (s\<lparr>x_main := M_write (k - 1)\<rparr>)"
| give_up: "x_main s = M_write k \<Longrightarrow> k - 1 = 0 \<Longrightarrow>
    main_step cmd wait s (s\<lparr>x_main := M_unlock, x_out := x_out s @ ''cannot send data ''\<rparr>)"
| sleeps: "x_main s = M_sent \<Longrightarrow> after_write cmd wait = M_sleep t \<Longrightarrow> main_step cmd wait s (s\<lparr>x_main := M_sleep t\<rparr>)"
| waits: "x_main s = M_sent \<Longrightarrow> after_write cmd wait = M_wait \<Longrightarrow>
    main_step cmd wait s (s\<lparr>x_main := M_wait, x_mutex := Free, x_woken := False\<rparr>)"
| slept: "x_main s = M_sleep t \<Longrightarrow> main_step cmd wait s (s\<lparr>x_main := M_unlock, x_out := x_out s @ t\<rparr>)"
| woken: "x_main s = M_wait \<Longrightarrow> x_woken s \<Longrightarrow> main_step cmd wait s (s\<lparr>x_main := M_back False\<rparr>)"
| timeout: "x_main s = M_wait \<Longrightarrow> \<not> x_woken s \<Longrightarrow> main_step cmd wait s (s\<lparr>x_main := M_back True\<rparr>)"
| returns: "x_main s = M_back late \<Longrightarrow> x_mutex s = Free \<Longrightarrow>
    main_step cmd wait s (s\<lparr>x_main := M_unlock, x_mutex := By_main,
      x_out := x_out s @ (if late then ''Timeout '' @ cmd @ [nl] else [])\<rparr>)"
| unlock: "x_main s = M_unlock \<Longrightarrow> main_step cmd wait s (s\<lparr>x_main := M_destroy, x_mutex := Free\<rparr>)"
| destroy: "x_main s = M_destroy \<Longrightarrow> x_mutex s = Free \<Longrightarrow> main_step cmd wait s (s\<lparr>x_main := M_done, x_mutex := Unusable\<rparr>)"
| destroy_held: "x_main s = M_destroy \<Longrightarrow> x_mutex s \<noteq> Free \<Longrightarrow> main_step cmd wait s (s\<lparr>x_main := M_fault\<rparr>)"

inductive reader_step :: "int \<Rightarrow> exchange \<Rightarrow> exchange \<Rightarrow> bool" for fd where
  fails: "x_reader s = R_read \<Longrightarrow> reader_step fd s (s\<lparr>x_reader := R_failed, x_out := x_out s @ ''read '' @ fmt_d fd @ '' error '' @ e @ [nl]\<rparr>)"
| ends: "x_reader s = R_read \<Longrightarrow> reader_step fd s (s\<lparr>x_reader := R_lock, x_out := x_out s @ ''read '' @ fmt_d fd @ '' zero bytes'' @ [nl]\<rparr>)"
| reads: "x_reader s = R_read \<Longrightarrow> buf \<noteq> [] \<Longrightarrow> length buf < BUFFSIZE \<Longrightarrow>
    reader_step fd s (s\<lparr>x_reader := (if decides buf then R_lock else R_read), x_out := x_out s @ c_str buf\<rparr>)"
| locks: "x_reader s = R_lock \<Longrightarrow> x_mutex s = Free \<Longrightarrow> reader_step fd s (s\<lparr>x_reader := R_signal, x_mutex := By_reader\<rparr>)"
| misuse: "x_reader s = R_lock \<Longrightarrow> x_mutex s = Unusable \<Longrightarrow> reader_step fd s (s\<lparr>x_reader := R_fault\<rparr>)"
| signals: "x_reader s = R_signal \<Longrightarrow>
    reader_step fd s (s\<lparr>x_reader := R_unlock, x_woken := (x_main s = M_wait \<or> x_woken s)\<rparr>)"
| unlocks: "x_reader s = R_unlock \<Longrightarrow> reader_step fd s (s\<lparr>x_reader := R_done, x_mutex := Free\<rparr>)"

inductive spurious :: "exchange \<Rightarrow> exchange \<Rightarrow> bool" where
  no_reason: "x_main s = M_wait \<Longrightarrow> spurious s (s\<lparr>x_main := M_back False\<rparr>)"

definition sure_step :: "int \<Rightarrow> string \<Rightarrow> bool \<Rightarrow> exchange \<Rightarrow> exchange \<Rightarrow> bool" where
  "sure_step fd cmd wait s t \<longleftrightarrow> main_step cmd wait s t \<or> reader_step fd s t"

definition exchange_step :: "int \<Rightarrow> string \<Rightarrow> bool \<Rightarrow> exchange \<Rightarrow> exchange \<Rightarrow> bool" where
  "exchange_step fd cmd wait s t \<longleftrightarrow> sure_step fd cmd wait s t \<or> spurious s t"

abbreviation sure_run :: "int \<Rightarrow> string \<Rightarrow> bool \<Rightarrow> exchange \<Rightarrow> exchange \<Rightarrow> bool" where
  "sure_run fd cmd wait \<equiv> (sure_step fd cmd wait)\<^sup>*\<^sup>*"

abbreviation exchange_run :: "int \<Rightarrow> string \<Rightarrow> bool \<Rightarrow> exchange \<Rightarrow> exchange \<Rightarrow> bool" where
  "exchange_run fd cmd wait \<equiv> (exchange_step fd cmd wait)\<^sup>*\<^sup>*"
inductive_cases main_stepE: "main_step cmd wait s t"
inductive_cases reader_stepE: "reader_step fd s t"
inductive_cases spuriousE: "spurious s t"

lemmas step_cases = main_stepE reader_stepE spuriousE

lemma sure_run_is_run: "sure_run fd cmd wait s t \<Longrightarrow> exchange_run fd cmd wait s t"
  by (induction rule: rtranclp_induct) (auto simp: exchange_step_def intro: rtranclp.rtrancl_into_rtrancl)

subsection \<open>The mutex\<close>

text \<open>
  Who holds the mutex, by the places of the threads; an unusable mutex is one that is not made yet or no
  longer there.
\<close>

fun holds :: "main_pc \<Rightarrow> bool" where
  "holds (M_write _) = True" | "holds M_sent = True" | "holds (M_sleep _) = True" | "holds M_unlock = True"
| "holds _ = False"

definition exchange_ok :: "exchange \<Rightarrow> bool" where
  "exchange_ok s \<longleftrightarrow>
     (x_mutex s = By_main \<longleftrightarrow> holds (x_main s)) \<and>
     (x_mutex s = By_reader \<longleftrightarrow> x_reader s \<in> {R_signal, R_unlock}) \<and>
     (x_mutex s = Unusable \<longleftrightarrow> x_main s \<in> {M_init, M_done})"

lemma start_ok: "exchange_ok start_exchange"
  by (simp add: exchange_ok_def start_exchange_def)

lemma after_write_cases: "after_write cmd wait = M_wait \<or> (\<exists>t. after_write cmd wait = M_sleep t)"
  by (simp add: after_write_def)

lemma step_ok: "exchange_step fd cmd wait s t \<Longrightarrow> exchange_ok s \<Longrightarrow> exchange_ok t"
  unfolding exchange_step_def sure_step_def
  by (elim disjE step_cases) (auto simp: exchange_ok_def)

lemma run_ok: "exchange_run fd cmd wait s t \<Longrightarrow> exchange_ok s \<Longrightarrow> exchange_ok t"
  by (induction rule: rtranclp_induct) (auto intro: step_ok)

subsection \<open>The signal\<close>

text \<open>The places of \<open>main\<close> from its wait on.\<close>

fun past_wait :: "main_pc \<Rightarrow> bool" where
  "past_wait M_wait = True" | "past_wait (M_back _) = True" | "past_wait M_unlock = True"
| "past_wait M_destroy = True" | "past_wait M_done = True" | "past_wait M_fault = True" | "past_wait _ = False"

definition signal_kept :: "exchange \<Rightarrow> bool" where
  "signal_kept s \<longleftrightarrow>
     x_main s \<notin> {M_init, M_lock} \<and>
     (x_reader s \<in> {R_signal, R_unlock, R_done, R_fault} \<longrightarrow> past_wait (x_main s)) \<and>
     (x_reader s \<in> {R_unlock, R_done} \<longrightarrow> x_main s = M_wait \<longrightarrow> x_woken s)"

lemma step_signal_kept:
  assumes "exchange_step fd cmd wait s t" "exchange_ok s" "signal_kept s"
  shows "signal_kept t"
proof -
  have free: "past_wait (x_main s)" if "x_mutex s \<noteq> By_main"
    using that assms(2,3) by (cases "x_main s") (auto simp: exchange_ok_def signal_kept_def)
  show ?thesis
    using assms unfolding exchange_step_def sure_step_def
    by (elim disjE step_cases) (use free in \<open>auto simp: exchange_ok_def signal_kept_def\<close>)
qed

lemma run_signal_kept:
  "exchange_run fd cmd wait s t \<Longrightarrow> exchange_ok s \<Longrightarrow> signal_kept s \<Longrightarrow> signal_kept t"
proof (induction rule: rtranclp_induct)
  case (step t u)
  then show ?case using step_signal_kept run_ok by metis
qed

text \<open>
  C14.  No answer is missed: when the answer comes while \<open>main\<close> holds the mutex for its command, then however the threads are
  scheduled, the reader gets to its signal only behind the point where \<open>main\<close> gives the mutex back, to wait or to end; and
  if \<open>main\<close> is still waiting behind the signal, it has been woken.  (It may have stopped waiting before: its time was over, it was woken
  for no reason, or it never waits, since the command was not written or is one that sleeps instead.)
\<close>

theorem no_lost_wakeup:
  assumes "exchange_run fd cmd wait start_exchange s" "holds (x_main s)" "x_reader s \<in> {R_read, R_lock}"
    and "exchange_run fd cmd wait s t" "x_reader t \<in> {R_signal, R_unlock, R_done}"
  shows "past_wait (x_main t) \<and> (x_reader t \<noteq> R_signal \<and> x_main t = M_wait \<longrightarrow> x_woken t)"
proof -
  have "exchange_ok s" by (rule run_ok [OF assms(1) start_ok])
  moreover have "signal_kept s" using assms(2,3) by (cases "x_main s") (auto simp: signal_kept_def)
  ultimately have "signal_kept t" by (rule run_signal_kept [OF assms(4)])
  then show ?thesis using assms(5) by (auto simp: signal_kept_def)
qed

text \<open>Runs, step by step.\<close>

lemma run_main: "main_step cmd wait s t \<Longrightarrow> sure_run fd cmd wait t u \<Longrightarrow> sure_run fd cmd wait s u"
  by (rule converse_rtranclp_into_rtranclp) (simp_all add: sure_step_def)

lemma run_reader: "reader_step fd s t \<Longrightarrow> sure_run fd cmd wait t u \<Longrightarrow> sure_run fd cmd wait s u"
  by (rule converse_rtranclp_into_rtranclp) (simp_all add: sure_step_def)

lemma ok_answer: "decides ''OK''" "length ''OK'' < BUFFSIZE" "c_str ''OK'' = ''OK''"
  by code_simp+

text \<open>The command written and its answer on the way, and the answer read while \<open>main\<close> waits.\<close>

lemma answered_run:
  assumes "after_write cmd wait = M_wait"
  obtains s t where "exchange_run fd cmd wait start_exchange s" "holds (x_main s)" "x_reader s = R_read"
    "exchange_run fd cmd wait s t" "x_reader t = R_unlock" "x_main t = M_wait" "x_out t = ''S: '' @ cmd @ [nl] @ ''OK''"
proof -
  let ?s0 = start_exchange
  let ?s1 = "?s0\<lparr>x_main := M_lock, x_mutex := Free\<rparr>"
  let ?s2 = "?s1\<lparr>x_main := M_write write_retry, x_mutex := By_main, x_out := x_out ?s1 @ ''S: '' @ cmd @ [nl]\<rparr>"
  let ?s3 = "?s2\<lparr>x_main := M_sent, x_sent := x_sent ?s2 @ take (length cmd) cmd\<rparr>"
  let ?s4 = "?s3\<lparr>x_main := M_wait, x_mutex := Free, x_woken := False\<rparr>"
  let ?s5 = "?s4\<lparr>x_reader := R_lock, x_out := x_out ?s4 @ ''OK''\<rparr>"
  let ?s6 = "?s5\<lparr>x_reader := R_signal, x_mutex := By_reader\<rparr>"
  let ?s7 = "?s6\<lparr>x_reader := R_unlock, x_woken := (x_main ?s6 = M_wait \<or> x_woken ?s6)\<rparr>"
  have 1: "main_step cmd wait ?s0 ?s1" by (rule main_step.init) (simp add: start_exchange_def)
  have 2: "main_step cmd wait ?s1 ?s2" by (rule main_step.lock) simp_all
  have 3: "main_step cmd wait ?s2 ?s3" by (rule main_step.writes [where k = write_retry]) simp_all
  have 4: "main_step cmd wait ?s3 ?s4" by (rule main_step.waits) (simp_all add: assms)
  have 5: "reader_step fd ?s4 ?s5"
    using reader_step.reads [of ?s4 "''OK''" fd] ok_answer by (simp add: start_exchange_def)
  have 6: "reader_step fd ?s5 ?s6" by (rule reader_step.locks) simp_all
  have 7: "reader_step fd ?s6 ?s7" by (rule reader_step.signals) simp
  have r: "sure_run fd cmd wait ?s0 ?s2"
    by (rule run_main [OF 1] run_main [OF 2] rtranclp.rtrancl_refl)+
  have r': "sure_run fd cmd wait ?s2 ?s7"
    by (rule run_main [OF 3] run_main [OF 4] run_reader [OF 5] run_reader [OF 6] run_reader [OF 7] rtranclp.rtrancl_refl)+
  show ?thesis
    by (rule that [OF sure_run_is_run [OF r] _ _ sure_run_is_run [OF r']]) (simp_all add: start_exchange_def)
qed

theorem no_lost_wakeup_witness:
  "\<exists>t. exchange_run 3 ''ATI'' True start_exchange t \<and> x_main t = M_wait \<and> x_reader t = R_unlock \<and> x_woken t"
proof -
  have "after_write ''ATI'' True = M_wait" by code_simp
  then obtain s t where run: "exchange_run 3 ''ATI'' True start_exchange s" "holds (x_main s)" "x_reader s = R_read"
    "exchange_run 3 ''ATI'' True s t" "x_reader t = R_unlock" "x_main t = M_wait"
    by (rule answered_run)
  then have "x_woken t" using no_lost_wakeup [OF run(1,2) _ run(4)] by simp
  then show ?thesis using run by (meson rtranclp_trans)
qed

lemma done_stays: "exchange_run fd cmd wait s t \<Longrightarrow> x_reader s = R_done \<Longrightarrow> \<not> x_woken s \<Longrightarrow> x_reader t = R_done \<and> \<not> x_woken t"
  by (induction rule: rtranclp_induct) (auto simp: exchange_step_def sure_step_def elim!: step_cases)

text \<open>
  C35.  The thread that reads is started before the mutex is taken.  A stale answer, any text with \<open>OK\<close> or \<open>ERROR\<close> in it that is
  read before \<open>main\<close> has taken the mutex, sends the reader to its signal; there is a schedule in which this signal is given before
  the command is written.  Then \<open>main\<close> waits for an answer to the whole command with nobody left to read it: from there on the reader
  stays gone and nothing wakes \<open>main\<close>, which can go on only when its minute is over, with \<open>Timeout\<close>, or for no reason.
\<close>

theorem stale_answer_loses_signal:
  assumes "after_write cmd wait = M_wait" "decides buf" "buf \<noteq> []" "length buf < BUFFSIZE"
  shows "\<exists>s0 s1 t. exchange_run fd cmd wait start_exchange s0 \<and> x_main s0 = M_lock \<and>
    reader_step fd s0 s1 \<and> s1 = s0\<lparr>x_reader := R_lock, x_out := x_out s0 @ c_str buf\<rparr> \<and>
    exchange_run fd cmd wait s1 t \<and> x_main t = M_wait \<and> x_sent t = cmd \<and> x_reader t = R_done \<and> \<not> x_woken t \<and>
    (\<forall>u. exchange_run fd cmd wait t u \<longrightarrow> x_reader u = R_done \<and> \<not> x_woken u \<and>
       (\<forall>v. x_main u = M_wait \<and> main_step cmd wait u v \<longrightarrow> v = u\<lparr>x_main := M_back True\<rparr>))"
proof -
  let ?s0 = start_exchange
  let ?s1 = "?s0\<lparr>x_main := M_lock, x_mutex := Free\<rparr>"
  let ?s2 = "?s1\<lparr>x_reader := R_lock, x_out := x_out ?s1 @ c_str buf\<rparr>"
  let ?s3 = "?s2\<lparr>x_reader := R_signal, x_mutex := By_reader\<rparr>"
  let ?s4 = "?s3\<lparr>x_reader := R_unlock, x_woken := False\<rparr>"
  let ?s5 = "?s4\<lparr>x_reader := R_done, x_mutex := Free\<rparr>"
  let ?s6 = "?s5\<lparr>x_main := M_write write_retry, x_mutex := By_main, x_out := x_out ?s5 @ ''S: '' @ cmd @ [nl]\<rparr>"
  let ?s7 = "?s6\<lparr>x_main := M_sent, x_sent := x_sent ?s6 @ take (length cmd) cmd\<rparr>"
  let ?s8 = "?s7\<lparr>x_main := M_wait, x_mutex := Free, x_woken := False\<rparr>"
  have 1: "main_step cmd wait ?s0 ?s1" by (rule main_step.init) (simp add: start_exchange_def)
  have 2: "reader_step fd ?s1 ?s2"
    using reader_step.reads [of ?s1 buf fd] assms(2-4) by (simp add: start_exchange_def)
  have 3: "reader_step fd ?s2 ?s3" by (rule reader_step.locks) simp_all
  have 4: "reader_step fd ?s3 ?s4" using reader_step.signals [of ?s3 fd] by (simp add: start_exchange_def)
  have 5: "reader_step fd ?s4 ?s5" by (rule reader_step.unlocks) simp
  have 6: "main_step cmd wait ?s5 ?s6" by (rule main_step.lock) simp_all
  have 7: "main_step cmd wait ?s6 ?s7" by (rule main_step.writes [where k = write_retry]) simp_all
  have 8: "main_step cmd wait ?s7 ?s8" by (rule main_step.waits) (simp_all add: assms)
  have run: "sure_run fd cmd wait ?s0 ?s1" "sure_run fd cmd wait ?s2 ?s8"
    by (rule run_main [OF 1] rtranclp.rtrancl_refl)+
      (rule run_reader [OF 3] run_reader [OF 4] run_reader [OF 5] run_main [OF 6] run_main [OF 7] run_main [OF 8] rtranclp.rtrancl_refl)+
  have t: "x_main ?s8 = M_wait" "x_sent ?s8 = cmd" "x_reader ?s8 = R_done" "\<not> x_woken ?s8"
    by (simp_all add: start_exchange_def)
  have later: "x_reader u = R_done \<and> \<not> x_woken u \<and> (\<forall>v. x_main u = M_wait \<and> main_step cmd wait u v \<longrightarrow> v = u\<lparr>x_main := M_back True\<rparr>)"
    if "exchange_run fd cmd wait ?s8 u" for u
    using done_stays [OF that t(3,4)] by (auto elim: main_stepE)
  show ?thesis
    by (rule exI [of _ ?s1], rule exI [of _ ?s2], rule exI [of _ ?s8])
      (use run [THEN sure_run_is_run] 2 t later in simp)
qed

theorem stale_answer_loses_signal_witness:
  "\<exists>t. exchange_run 3 ''ATI'' True start_exchange t \<and> x_main t = M_wait \<and> x_reader t = R_done \<and> \<not> x_woken t"
proof -
  have w: "after_write ''ATI'' True = M_wait" by code_simp
  obtain s0 s1 t where "exchange_run 3 ''ATI'' True start_exchange s0" "reader_step 3 s0 s1" "exchange_run 3 ''ATI'' True s1 t"
    "x_main t = M_wait" "x_reader t = R_done" "\<not> x_woken t"
    using stale_answer_loses_signal [OF w ok_answer(1) _ ok_answer(2), of 3] by blast
  moreover have "exchange_step 3 ''ATI'' True s0 s1" using \<open>reader_step 3 s0 s1\<close> by (simp add: exchange_step_def sure_step_def)
  ultimately show ?thesis by (meson rtranclp_trans r_into_rtranclp)
qed

text \<open>An answer that \<open>read\<close> cuts in two is not recognised.\<close>

lemma answer_cut_in_two: "\<not> decides ''O'' \<and> \<not> decides (''K'' @ [CHR 0x0D, nl])"
  by code_simp

subsection \<open>The end\<close>

text \<open>How many steps \<open>main\<close> is from its end at most.\<close>

fun rank :: "main_pc \<Rightarrow> nat" where
  "rank M_init = 29" | "rank M_lock = 28" | "rank (M_write k) = 7 + k" | "rank M_sent = 6" | "rank (M_sleep _) = 5"
| "rank M_wait = 5" | "rank (M_back _) = 4" | "rank M_unlock = 3" | "rank M_destroy = 2" | "rank M_done = 0" | "rank M_fault = 0"

lemma reader_releases:
  assumes "exchange_ok s" "x_mutex s = By_reader"
  obtains t where "sure_run fd cmd wait s t" "x_main t = x_main s" "x_mutex t = Free"
proof -
  let ?t = "\<lambda>s. s\<lparr>x_reader := R_done, x_mutex := Free\<rparr>"
  let ?u = "s\<lparr>x_reader := R_unlock, x_woken := (x_main s = M_wait \<or> x_woken s)\<rparr>"
  consider "x_reader s = R_signal" | "x_reader s = R_unlock" using assms by (auto simp: exchange_ok_def)
  then show ?thesis
  proof cases
    case 1
    show ?thesis
      by (rule that [OF run_reader [OF reader_step.signals [OF 1] run_reader [OF reader_step.unlocks rtranclp.rtrancl_refl]]]) simp_all
  next
    case 2
    show ?thesis by (rule that [OF run_reader [OF reader_step.unlocks [OF 2] rtranclp.rtrancl_refl]]) simp_all
  qed
qed

lemma main_enabled:
  assumes "exchange_ok s" "x_main s \<notin> {M_done, M_fault}" "x_main s \<in> {M_lock, M_destroy} \<union> range M_back \<Longrightarrow> x_mutex s = Free"
  obtains t where "main_step cmd wait s t" "x_main t \<noteq> M_fault"
proof (cases "x_main s")
  case M_init
  show ?thesis by (rule that [OF main_step.init]) (use assms(3) in \<open>simp_all add: M_init\<close>)
next
  case M_lock
  show ?thesis by (rule that [OF main_step.lock]) (use assms(3) in \<open>simp_all add: M_lock\<close>)
next
  case (M_write k)
  show ?thesis by (rule that [OF main_step.writes [where n = 0]]) (use assms(3) in \<open>simp_all add: M_write\<close>)
next
  case (M_sleep t)
  show ?thesis by (rule that [OF main_step.slept]) (use assms(3) in \<open>simp_all add: M_sleep\<close>)
next
  case M_wait
  show ?thesis
    by (cases "x_woken s") (rule that [OF main_step.woken] that [OF main_step.timeout], simp_all add: M_wait)+
next
  case (M_back b)
  show ?thesis by (rule that [OF main_step.returns]) (use assms(3) in \<open>simp_all add: M_back\<close>)
next
  case M_unlock
  show ?thesis by (rule that [OF main_step.unlock]) (use assms(3) in \<open>simp_all add: M_unlock\<close>)
next
  case M_destroy
  show ?thesis by (rule that [OF main_step.destroy]) (use assms(3) in \<open>simp_all add: M_destroy\<close>)
next
  case M_sent
  then show ?thesis
    using after_write_cases [of cmd wait] that [OF main_step.waits] that [OF main_step.sleeps] by auto
qed (use assms in simp_all)

lemma main_step_rank: "main_step cmd wait s t \<Longrightarrow> rank (x_main t) < rank (x_main s)"
  by (elim main_stepE) (simp_all add: write_retry_def)

lemma progress:
  assumes "exchange_ok s" "x_main s \<notin> {M_done, M_fault}"
  obtains t where "sure_run fd cmd wait s t" "rank (x_main t) < rank (x_main s)" "x_main t \<noteq> M_fault"
proof -
  have free: "x_mutex s = Free" if "x_mutex s \<noteq> By_reader" "x_main s \<in> {M_lock, M_destroy} \<union> range M_back"
    using that assms(1) by (cases "x_mutex s") (auto simp: exchange_ok_def)
  obtain u where u: "sure_run fd cmd wait s u" "x_main u = x_main s"
    "x_main u \<in> {M_lock, M_destroy} \<union> range M_back \<Longrightarrow> x_mutex u = Free"
  proof (cases "x_mutex s = By_reader")
    case True
    then show ?thesis by (rule reader_releases [OF assms(1)]) (rule that)
  next
    case False
    show ?thesis by (rule that [of s]) (simp_all add: free False)
  qed
  have "exchange_ok u" by (rule run_ok [OF sure_run_is_run [OF u(1)] assms(1)])
  then obtain t where t: "main_step cmd wait u t" "x_main t \<noteq> M_fault"
    using main_enabled [of u] u assms(2) by metis
  then have "sure_run fd cmd wait s t"
    using rtranclp.rtrancl_into_rtrancl [OF u(1)] by (simp add: sure_step_def)
  then show ?thesis using that [of t] t u(2) main_step_rank [OF t(1)] by simp
qed

text \<open>
  C15.  There is no deadlock and no endless retry: from every state that the two threads can come to, except the
  destruction of a mutex that the reader holds, \<open>main\<close> can still come to its end, by steps it can count on (the signal, or the end of its
  minute, but no wakeup for no reason); and each of its steps, however the reader steps in between, brings it nearer to it.
\<close>

theorem exchange_can_finish:
  assumes "exchange_run fd cmd wait start_exchange s" "x_main s \<noteq> M_fault"
  shows "(\<exists>t. sure_run fd cmd wait s t \<and> x_main t = M_done) \<and>
    (\<forall>t. main_step cmd wait s t \<or> spurious s t \<longrightarrow> rank (x_main t) < rank (x_main s)) \<and>
    (\<forall>t. reader_step fd s t \<longrightarrow> x_main t = x_main s)"
proof -
  have "exchange_ok s" by (rule run_ok [OF assms(1) start_ok])
  with assms(2) have "\<exists>t. sure_run fd cmd wait s t \<and> x_main t = M_done"
  proof (induction "rank (x_main s)" arbitrary: s rule: less_induct)
    case less
    show ?case
    proof (cases "x_main s = M_done")
      case False
      then obtain t where t: "sure_run fd cmd wait s t" "rank (x_main t) < rank (x_main s)" "x_main t \<noteq> M_fault"
        using progress [OF less.prems(2)] less.prems(1) by blast
      then show ?thesis using less.hyps [OF t(2,3) run_ok [OF sure_run_is_run [OF t(1)] less.prems(2)]] by (meson rtranclp_trans)
    qed auto
  qed
  then show ?thesis using main_step_rank by (auto elim: spuriousE reader_stepE)
qed

theorem exchange_can_finish_witness:
  "\<exists>t. sure_run 3 ''ATI'' True start_exchange t \<and> x_main t = M_done"
  using exchange_can_finish [of 3 "''ATI''" True start_exchange] by (simp add: start_exchange_def)

subsection \<open>The escapes of a command\<close>

text \<open>What a command with escapes stands for, by recursion on the text; \<open>None\<close> when an escape is unknown.\<close>

function unescape :: "string \<Rightarrow> string option" where
  "unescape [] = Some []"
| "unescape (c # r) =
     (if c \<noteq> CHR 0x5C then map_option (Cons c) (unescape r)
      else (case r of [] \<Rightarrow> None
      | x # r \<Rightarrow>
          if x = CHR ''x'' then
            map_option (Cons (char_of (nat (fst (strtoul (take 2 r) 16) mod 256)))) (unescape (drop 2 r))
          else if x = CHR ''r'' then map_option (Cons (CHR 0x0D)) (unescape r)
          else None))"
  by pat_completeness auto
termination
  by (relation "measure length") auto

lemma char_at_drop: "drop i s = c # r \<Longrightarrow> char_at (s @ t) i = c"
  by (metis append.assoc append_Cons append_take_drop_id char_at_def drop_eq_Nil2 length_append length_take
      linorder_not_less list.discI min.absorb4 nth_append_length trans_less_add1)

lemma char_at_end: "char_at (s @ [NUL]) (length s) = NUL"
  by (simp add: char_at_def)

lemma c_str_take2: "NUL \<notin> set r \<Longrightarrow> c_str (take 2 (r @ [NUL])) = take 2 r"
proof (cases r)
  case (Cons a s)
  then show "NUL \<notin> set r \<Longrightarrow> ?thesis" by (cases s) (auto simp: c_str_def)
qed (simp add: c_str_def)

lemma list_update_next: "length q < length at \<Longrightarrow> (q @ drop (length q) at)[length q := c] = (q @ [c]) @ drop (length (q @ [c])) at"
  by (simp add: list_update_append Cons_nth_drop_Suc [symmetric])

lemma sp_loop_unescapes:
  assumes "NUL \<notin> set p" "length p + 2 \<le> BUFFSIZE" "length at = BUFFSIZE" "length q \<le> i"
  shows "case unescape (drop i p) of
      None \<Rightarrow> \<exists>x at'. sp_loop (p @ [NUL]) (length p) i (q @ drop (length q) at) (length q) = Some (Inl (x, at'))
    | Some u \<Rightarrow> sp_loop (p @ [NUL]) (length p) i (q @ drop (length q) at) (length q) = Some (Inr ((q @ u) @ drop (length (q @ u)) at))"
  using assms(4)
proof (induction "length p - i" arbitrary: i q rule: less_induct)
  case less
  show ?case
  proof (cases "drop i p")
    case Nil
    then show ?thesis by (simp add: sp_loop.simps [of "p @ [NUL]"])
  next
    case (Cons c r)
    then have i: "i < length p" and r: "drop (i + 1) p = r"
      by (metis drop_eq_Nil list.discI not_le, metis Cons drop_Suc Suc_eq_plus1 list.sel(3) tl_drop)
    have c: "char_at (p @ [NUL]) i = c" by (rule char_at_drop [OF Cons])
    have bs: "i < BUFFSIZE" "i + 1 < BUFFSIZE" "length q < length at" "length q \<le> i" using i less.prems assms(2,3) by simp_all
    note turn = sp_loop.simps [of "p @ [NUL]" "length p" i]
    have nxt: "(q @ drop (length q) at)[length q := d] = (q @ [d]) @ drop (length (q @ [d])) at" for d
      by (rule list_update_next [OF bs(3)])
    have ih: "case unescape (drop (i + k) p) of
        None \<Rightarrow> \<exists>x at'. sp_loop (p @ [NUL]) (length p) (i + k) ((q @ drop (length q) at)[length q := d]) (length q + 1) = Some (Inl (x, at'))
      | Some u \<Rightarrow> sp_loop (p @ [NUL]) (length p) (i + k) ((q @ drop (length q) at)[length q := d]) (length q + 1) =
          Some (Inr (((q @ [d]) @ u) @ drop (length ((q @ [d]) @ u)) at))" if "0 < k" for k d
    proof -
      have "length p - (i + k) < length p - i" "length (q @ [d]) \<le> i + k" using i that less.prems by simp_all
      from less.hyps [OF this] show ?thesis unfolding nxt by (simp only: length_append_singleton Suc_eq_plus1)
    qed
    show ?thesis
    proof (cases "c = CHR 0x5C")
      case False
      then show ?thesis using ih [of 1 c] bs i c r Cons by (simp add: turn not_le split: option.splits)
    next
      case True
      show ?thesis
      proof (cases r)
        case Nil
        then have "length p = i + 1" using r i by simp
        then have "char_at (p @ [NUL]) (i + 1) = NUL" by (metis char_at_end)
        then have "char_at (p @ [NUL]) (i + 1) \<noteq> CHR ''x''" "char_at (p @ [NUL]) (i + 1) \<noteq> CHR ''r''"
          by (simp_all only: NUL_def) simp_all
        then show ?thesis using True Nil bs i c Cons by (simp add: turn not_le)
      next
        case (Cons x r')
        then have x: "char_at (p @ [NUL]) (i + 1) = x" and r': "drop (i + 2) p = r'"
          by (metis char_at_drop r, metis r Cons add_2_eq_Suc' drop_Suc Suc_eq_plus1 list.sel(3) tl_drop)
        have p: "i + 1 < length p" using r Cons by (metis drop_eq_Nil list.discI not_le)
        have n: "c_str (take 2 (drop (i + 2) (p @ [NUL]))) = take 2 r'"
          using c_str_take2 [of r'] assms(1) p r' by (simp del: take_append) (metis in_set_dropD)
        have d: "drop (i + 4) p = drop 2 r'" using r' by (metis add.commute drop_drop numeral_Bit0 add.assoc)
        show ?thesis
          using ih [of 4 "char_of (nat (fst (strtoul (take 2 r') 16) mod 256))"] ih [of 2 "CHR 0x0D"] r' d True bs i c x n p assms(2) Cons \<open>drop i p = c # r\<close>
          by (simp add: turn not_le split: option.splits)
      qed
    qed
  qed
qed

text \<open>
  A command of at most 1022 characters is processed within the arrays: it is refused when an escape is
  unknown, and otherwise the characters it stands for are stored in front of what the array held.
\<close>

lemma StringProcess_at:
  assumes "p \<noteq> []" "NUL \<notin> set p" "length p + 2 \<le> BUFFSIZE" "length (s_atCommand (world s)) = BUFFSIZE"
  shows "case unescape p of
      None \<Rightarrow> fst (StringProcess p s) = Inr (- 1)
    | Some u \<Rightarrow> StringProcess p s =
        (Inr 0, s\<lparr>world := (world s)\<lparr>s_atCommand := u @ drop (length u) (s_atCommand (world s))\<rparr>\<rparr>)"
proof -
  have t: "take (BUFFSIZE - Suc 0) p = p" using assms(3) by simp
  show ?thesis
    using sp_loop_unescapes [OF assms(2-4), of "[]" 0] assms(1)
    by (auto simp: StringProcess_def t get_client_def set_client_def run_defs split: option.splits)
qed

text \<open>A character written as an escape of its number is that character.\<close>

definition escape :: "char \<Rightarrow> string" where
  "escape c = [CHR 0x5C, CHR ''x''] @ fmt_0x 2 (of_char c)"

lemma unescape_escape: "unescape (escape c @ r) = map_option (Cons c) (unescape r)"
proof -
  have c: "(of_char c :: nat) < 256" by simp
  then have l: "length (fmt_0x 2 (of_char c)) = 2" by (rule length_fmt_02x)
  have "strtoul (fmt_0x 2 (of_char c)) 16 = (int (of_char c), [])"
  proof -
    have "\<not> ULONG_MAX < int n" if "n < 256" for n using that by (simp add: ULONG_MAX_def)
    from this [OF c] have "\<not> ULONG_MAX < int (of_char c)" .
    then show ?thesis by (simp add: strtoul_def scan_hex2)
  qed
  then show ?thesis using l c by (simp add: escape_def)
qed

lemma unescape_escapes: "unescape (concat (map escape q)) = Some q"
  by (induction q) (simp_all add: unescape_escape)

lemma strlcat_append: "NUL \<notin> set u \<Longrightarrow> length t \<le> length r \<Longrightarrow> strlcat (u @ NUL # r) t = (u @ t) @ NUL # drop (length t) r"
  by (simp add: strlcat_def c_str_append Let_def)

lemma strlcat_fits:
  assumes "NUL \<notin> set u" "NUL \<notin> set t" "length u + length t < n"
  shows "c_str (strlcat (u @ drop (length u) (replicate n NUL)) t) = u @ t"
proof -
  obtain k where k: "n - length u = Suc k" using assms(3) by (cases "n - length u") auto
  then have "drop (length u) (replicate n NUL) = NUL # replicate k NUL" "length t \<le> k" using assms(3) by simp_all
  then show ?thesis
    using assms(1,2) by (simp add: strlcat_append c_str_append del: append_assoc)
qed

lemma length_escapes: "length (concat (map escape q)) = 4 * length q"
  by (induction q) (simp_all add: escape_def)

lemma NUL_not_escapes: "NUL \<notin> set (concat (map escape q))"
proof -
  have "NUL \<notin> set (fmt_0x 2 n)" for n
    using hex2_digits [of NUL n] by (auto simp: NUL_def isxdigit_def isdigit_def)
  then show ?thesis by (auto simp: escape_def NUL_def)
qed

text \<open>
  C16.  The bytes of a command arrive: for every command of 1 to 255 characters other than NUL, \<open>-c\<close> with the characters
  of the command as escapes makes the client send these characters and a carriage return.  (More escapes than the 255 do not fit the
  1024 bytes of the copy that the source makes of its argument.)
\<close>

theorem client_sends_bytes:
  assumes "q \<noteq> []" "NUL \<notin> set q" "4 * length q + 2 \<le> BUFFSIZE" "s_atCommand (world s) = replicate BUFFSIZE NUL"
  shows "\<exists>t. GetArgs [''-c'', concat (map escape q)] s = (Inr 0, t) \<and> c_str (s_atCommand (world t)) = q @ [CHR 0x0D]"
proof -
  let ?p = "concat (map escape q)"
  have "length ?p + 2 \<le> BUFFSIZE" "length ?p \<noteq> 0" unfolding length_escapes using assms(1,3) by simp_all
  then have n: "?p \<noteq> []" "length ?p + 2 \<le> BUFFSIZE" by blast+
  have "StringProcess ?p s =
      (Inr 0, s\<lparr>world := (world s)\<lparr>s_atCommand := q @ drop (length q) (replicate BUFFSIZE NUL)\<rparr>\<rparr>)"
    using StringProcess_at [OF n(1) NUL_not_escapes n(2), of s] assms(4) by (simp add: unescape_escapes)
  moreover have "c_str (strlcat (q @ drop (length q) (replicate BUFFSIZE NUL)) [CHR 0x0D]) = q @ [CHR 0x0D]"
    by (rule strlcat_fits) (use assms in \<open>simp_all add: NUL_def\<close>)
  ultimately show ?thesis
    by (simp add: command_switch_def set_client_def run_defs)
qed

theorem client_sends_bytes_witness:
  "\<exists>t. GetArgs [''-c'', concat (map escape ''ATI'')] \<lparr>world = \<lparr>s_atCommand = replicate BUFFSIZE NUL, s_isWait = True,
       acDeviceName1 = [], outside = ()\<rparr>, stdin = [], stdout = [], stderr = []\<rparr> = (Inr 0, t) \<and>
     c_str (s_atCommand (world t)) = ''ATI'' @ [CHR 0x0D]"
  by (rule client_sends_bytes) (simp_all add: BUFFSIZE_def NUL_def)

subsection \<open>Long commands\<close>

lemma sp_loop_plain:
  assumes "CHR 0x5C \<notin> set tmp" "length at = BUFFSIZE" "i \<le> BUFFSIZE"
  shows "sp_loop tmp len i at i = None \<longleftrightarrow> BUFFSIZE < len" and "sp_loop tmp len i at i \<noteq> Some (Inl x)"
proof -
  have c: "char_at tmp i \<noteq> CHR 0x5C" for i
    using assms(1) by (auto simp: char_at_def NUL_def dest: nth_mem)
  have "(sp_loop tmp len i at i = None \<longleftrightarrow> BUFFSIZE < len) \<and> sp_loop tmp len i at i \<noteq> Some (Inl x)"
    using assms(2,3)
  proof (induction "BUFFSIZE - i" arbitrary: i at)
    case 0
    then show ?case by (subst (1 2) sp_loop.simps) auto
  next
    case (Suc n)
    then have "i < BUFFSIZE" by simp
    then show ?case
      using Suc.hyps(1) [of "i + 1" "at[i := char_at tmp i]"] Suc.hyps(2) Suc.prems c [of i]
      by (subst (1 2) sp_loop.simps) auto
  qed
  then show "sp_loop tmp len i at i = None \<longleftrightarrow> BUFFSIZE < len" "sp_loop tmp len i at i \<noteq> Some (Inl x)" by auto
qed

text \<open>
  The length of the argument is not compared with the array: \<open>strlcpy\<close> returns the length of what it was asked to
  copy, and the loop runs to that length.  A command without escapes is read outside the array exactly when
  it is longer than 1024 characters.
\<close>

theorem long_command_undefined:
  assumes "CHR 0x5C \<notin> set p" "length (s_atCommand (world s)) = BUFFSIZE"
  shows "(\<exists>t. StringProcess p s = (Inl Undef, t)) \<longleftrightarrow> BUFFSIZE < length p"
proof -
  have "CHR 0x5C \<notin> set (take (BUFFSIZE - Suc 0) p @ [NUL])"
    using assms(1) by (auto simp: NUL_def dest: in_set_takeD)
  note loop = sp_loop_plain [OF this assms(2), of 0 "length p"]
  show ?thesis
    using loop by (auto simp: StringProcess_def get_client_def set_client_def run_defs split: option.splits sum.splits)
qed

theorem long_command_undefined_witness:
  "\<exists>t. StringProcess (replicate 1025 (CHR ''A'')) \<lparr>world = \<lparr>s_atCommand = replicate BUFFSIZE NUL, s_isWait = True,
     acDeviceName1 = [], outside = ()\<rparr>, stdin = [], stdout = [], stderr = []\<rparr> = (Inl Undef, t)"
  by (subst long_command_undefined) (simp_all add: BUFFSIZE_def)

subsection \<open>The interactive mode forwards and then fails\<close>

text \<open>
  An outside that delivers the pieces of a list to \<open>read\<close>, then its end, and keeps what is written.
\<close>

definition piped :: "'w os \<Rightarrow> ('w \<Rightarrow> string list) \<Rightarrow> ('w \<Rightarrow> string) \<Rightarrow> bool" where
  "piped E input output \<longleftrightarrow>
     (\<forall>w. input w = [] \<longrightarrow> fst (o_read E BUFFSIZE w) = Some [] \<and> output (snd (o_read E BUFFSIZE w)) = output w) \<and>
     (\<forall>w b r. input w = b # r \<longrightarrow> fst (o_read E BUFFSIZE w) = Some b \<and> input (snd (o_read E BUFFSIZE w)) = r \<and>
        output (snd (o_read E BUFFSIZE w)) = output w) \<and>
     (\<forall>w fd t. 0 \<le> fst (o_write E fd t w) \<and> input (snd (o_write E fd t w)) = input w \<and>
        output (snd (o_write E fd t w)) = output w @ t)"

lemma forward_piece:
  assumes "piped E input output" "input (outside (world s)) = b # r" "b \<noteq> []"
  obtains t where "forward E fd s = (Inr (), t)" "input (outside (world t)) = r"
    "output (outside (world t)) = output (outside (world s)) @ to_cr b" "stdout t = stdout s"
proof -
  let ?w = "outside (world s)"
  obtain w1 where r: "o_read E BUFFSIZE ?w = (Some b, w1)" "input w1 = r" "output w1 = output ?w"
    using assms(1,2) unfolding piped_def by (metis prod.collapse)
  obtain n w2 where w: "o_write E fd (to_cr b) w1 = (n, w2)" "0 \<le> n" "input w2 = input w1" "output w2 = output w1 @ to_cr b"
    using assms(1) unfolding piped_def by (metis prod.collapse)
  show ?thesis
    by (rule that [of "s\<lparr>world := (world s)\<lparr>outside := w2\<rparr>\<rparr>"])
      (use r w assms(3) in \<open>simp_all add: forward_def on_outside_def run_defs\<close>)
qed

lemma interactive_loop:
  assumes "piped E input output" "input (outside (world s)) = cs" "[] \<notin> set cs"
  shows "\<exists>t. loop_run (\<lambda>_. True) (\<lambda>_. forward E fd) () s = Some (Inl Undef, t) \<and>
    output (outside (world t)) = output (outside (world s)) @ concat (map to_cr cs)"
  using assms(2,3)
proof (induction cs arbitrary: s)
  case Nil
  let ?w = "outside (world s)"
  obtain w1 where "o_read E BUFFSIZE ?w = (Some [], w1)" "output w1 = output ?w"
    using assms(1) Nil.prems(1) unfolding piped_def by (metis prod.collapse)
  then show ?case by (simp add: loop_run.simps forward_def on_outside_def run_defs)
next
  case (Cons b r)
  obtain t where t: "forward E fd s = (Inr (), t)" "input (outside (world t)) = r"
    "output (outside (world t)) = output (outside (world s)) @ to_cr b"
    using forward_piece [OF assms(1) Cons.prems(1)] Cons.prems(2) by auto
  then show ?case using Cons.IH [OF t(2)] Cons.prems(2) by (simp add: while_p_turn [where f = "\<lambda>_. forward E fd", OF _ t(1)])
qed

text \<open>
  In the interactive mode everything typed reaches the modem, the end of each piece as a carriage return; and the end of
  the standard input, where \<open>read\<close> returns 0, makes the client look at the byte in front of its buffer.
\<close>

theorem interactive_end_of_input:
  assumes "piped E input output" "[] \<notin> set (input (outside (world s)))"
  shows "\<exists>t. interactive E fd s = (Inl Undef, t) \<and>
    output (outside (world t)) = output (outside (world s)) @ concat (map to_cr (input (outside (world s))))"
  using interactive_loop [OF assms(1) refl assms(2), of fd] by (auto simp: interactive_def while_p_def)

definition pipe_os :: "(string list \<times> string) os" where
  "pipe_os = \<lparr>o_property = (\<lambda>_ d. Pair d), o_open = (\<lambda>_. Pair 3), o_error = Pair [], o_termios = (\<lambda>_. Pair ()), o_thread = Pair True,
     o_read = (\<lambda>_ (i, out). case i of [] \<Rightarrow> (Some [], (i, out)) | b # r \<Rightarrow> (Some b, (r, out))),
     o_write = (\<lambda>_ t (i, out). (int (length t), (i, out @ t)))\<rparr>"

theorem interactive_end_of_input_witness:
  "\<exists>t. interactive pipe_os 3 \<lparr>world = \<lparr>s_atCommand = replicate BUFFSIZE NUL, s_isWait = True, acDeviceName1 = [],
        outside = ([''ATI'' @ [nl], ''AT'' @ [nl]], [])\<rparr>, stdin = [], stdout = [], stderr = []\<rparr> = (Inl Undef, t) \<and>
     snd (outside (world t)) = ''ATI'' @ [CHR 0x0D] @ ''AT'' @ [CHR 0x0D]"
proof -
  have "piped pipe_os fst snd" by (auto simp: piped_def pipe_os_def split: prod.splits)
  note interactive_end_of_input [OF this, where fd = 3 and s = "\<lparr>world = \<lparr>s_atCommand = replicate BUFFSIZE NUL, s_isWait = True, acDeviceName1 = [],
        outside = ([''ATI'' @ [nl], ''AT'' @ [nl]], [])\<rparr>, stdin = [], stdout = [], stderr = []\<rparr>"]
  then show ?thesis by (simp add: to_cr_def)
qed

end
