(* ===== verification/Spec2Isabelle.thy ===== *)
theory Spec2Isabelle
  imports I2c_Get I2c_Set I2c_Detect I2c_Dump Iw_Text Iw_Phy Iw_Bitrate Iw_Scan Iw_Mesh Iw_Coalesce Iw_Wowlan Iw_Device Iw_Nested Sigma_Handlers Serial_Client
begin

text \<open>
  A verification development for the programs of the repository \<open>androidTools\<close>: the I2C tools
  (\<open>src/i2c-tools\<close>), the wireless configuration tool \<open>iw\<close> (\<open>src/wifi_tools/iw\<close>), the Wi-Fi test agent
  \<open>sigma_dut\<close> (\<open>src/wifi_tools/sigma_dut\<close>) and the client for AT commands \<open>serial_client\<close> (\<open>src/serial_client\<close>).

  \<^bold>\<open>How a program is modelled.\<close>  A program that only computes is a function; one that prints is the
  text it prints.  A program with effects is a function on the state of its process
  (the record \<open>proc\<close> of \<open>Prelude\<close>: the outside world, the rest of standard input, what was written to standard
  output and standard error), which returns a value, leaves by \<open>exit\<close>, runs into behaviour C leaves
  undefined (an access outside an array, a null pointer, an unset variable), or never returns.  The last two outcomes
  are values of the model (\<open>Undef\<close>, \<open>Endless\<close>), so that a theorem can exclude them or show where they happen.  \<open>wp\<close> is the weakest
  precondition of such a program and \<open>gives\<close> the set of ways it can stop; their rules are the
  collections \<open>wp_simps\<close> and \<open>gives_rules\<close>.  \<open>int\<close> and \<open>unsigned\<close> values keep their width where an overflow or
  a mask matters (\<open>Word\<close>), and are integers with the wrap written out elsewhere.  \<open>CString\<close> has the
  functions of the C library the sources use, with the round trips between what one program prints and
  another reads.

  \<^bold>\<open>The I2C tools.\<close>  \<open>I2c_Dev\<close> is \<open>include/linux/i2c-dev.h\<close>: each SMBus transaction over \<open>ioctl\<close>.  The
  kernel is the record \<open>K\<close> of system calls over an arbitrary world; \<open>smbus_ok\<close>, \<open>byte_chip\<close> and \<open>live_bus\<close> state what
  the tools rely on, and a simulated chip shows that this can hold.  The locale \<open>register_access\<close> is the
  contract between a tool and the transactions (what a read gives after a write) and is interpreted on
  the transactions of the header.  \<open>I2c_Busses\<close> is \<open>tools/i2cbusses.c\<close> and \<open>tools/util.c\<close>: bus and chip
  arguments, device files, the list of adapters as the array in bunches of eight that it is, and the question to
  the user.  \<open>I2c_Session\<close> has what the tools share.  \<open>I2c_Get\<close>, \<open>I2c_Set\<close>, \<open>I2c_Detect\<close> and \<open>I2c_Dump\<close>
  are the four programs from \<open>main\<close> on.  Shown: each tool does on a working bus what its manual says,
  with the exact text it prints and the exact registers it leaves; whatever the kernel answers it ends
  with status 0 or 1 and without undefined behaviour; a no from the user ends it before any
  transaction; \<open>i2cget\<close> writes nothing and \<open>i2cdetect\<close> makes harmless probes only.

  \<^bold>\<open>iw.\<close>  \<open>Iw_Text\<close> and \<open>Iw_Phy\<close> are \<open>util.c\<close>: addresses, hexadecimal masks, SSIDs, keys; names, channels
  and capabilities.  The locale \<open>text_codec\<close> says what belongs to a printer and its parser and is
  interpreted on addresses, bytes and SSIDs.  \<open>Iw_Bitrate\<close> is \<open>bitrate.c\<close>: the argument language as the
  state machine of the source over its fixed arrays, with the reachable states as an inductive
  relation.  \<open>Iw_Elem\<close> and \<open>Iw_Scan\<close> are the printers of the information elements and the walk over them
  in \<open>scan.c\<close>; a pointer into the message is the list of the bytes from there on, so that a read behind
  the element is the read the source does.  \<open>Iw_Cmd\<close> is \<open>iw.c\<close> with \<open>genl.c\<close>: the table of commands, the choice
  of a command by the words on the command line, the message it builds, the loop that waits for the answer of
  the kernel (\<open>while_p\<close> of the prelude, whose outcome is \<open>Endless\<close> when no answer comes), the usage texts and \<open>main\<close>.
  A handler is a function from its arguments to what it puts into the message.  \<open>Iw_Join\<close> has the commands that join a
  network (\<open>connect.c\<close>, \<open>ibss.c\<close>) and the waiting for events of \<open>event.c\<close>; \<open>Iw_Commands\<close> the small commands
  (\<open>p2p.c\<close>, \<open>roc.c\<close>, \<open>offch.c\<close>, \<open>cqm.c\<close>, \<open>ps.c\<close>, \<open>vendor.c\<close>, \<open>mpath.c\<close>, \<open>mpp.c\<close>);
  \<open>Iw_Mesh\<close> is \<open>mesh.c\<close> with its table of parameters.  \<open>Iw_Pattern\<close> has the packet patterns shared by \<open>Iw_Coalesce\<close>
  (\<open>coalesce.c\<close> with its configuration file) and \<open>Iw_Wowlan\<close> (\<open>wowlan.c\<close>: the triggers, the file of the TCP
  connection, the detection of networks).  \<open>Iw_Attr\<close> has what the printers of the kernel's answers share: policies, reads of
  attributes, and the static variables as two functions on the outside (the locales \<open>static_var\<close> and \<open>kept_var\<close>: what is read after
  a write, and which calls leave the variable alone).
  \<open>Iw_Device\<close> is \<open>interface.c\<close> and \<open>phy.c\<close>, \<open>Iw_Station\<close> \<open>station.c\<close> and \<open>survey.c\<close>, \<open>Iw_Bss\<close> the commands of \<open>scan.c\<close> and the
  printer of a network, \<open>Iw_Link\<close> \<open>link.c\<close>, \<open>Iw_Reg\<close> \<open>reg.c\<close> and \<open>hwsim.c\<close>, \<open>Iw_Event\<close> the printers of \<open>event.c\<close> with
  \<open>reason.c\<close> and \<open>status.c\<close>, and \<open>Iw_Info\<close> \<open>info.c\<close> with its three static variables that join the messages of one device.
  \<open>Iw_Program\<close> is the program: the static variables of all files in one record beside the kernel, on which the locales \<open>link_var\<close> and
  \<open>phy_var\<close> are interpreted, the table of all commands in the order of the \<open>Makefile\<close>, and \<open>main\<close> over it.
  \<open>Iw_Nested\<close> follows the depth of the nested attributes through the handler of every command of that table.
  A message is written as a list of attributes with marks for the nested ones and read as a tree; \<open>flat\<close> of
  \<open>Iw_Tree\<close> relates the two.  Shown for them: every command that succeeds leaves its message a tree, with the one exception named there; each command is found by its words in whatever order the entries are linked; \<open>iw link\<close>
  passes the address of the network from its first command to the second and prints exactly what the kernel answered; the frequencies of
  a device in several messages are shown as from one; a scan asks for what was given; which frames and signals stay within their buffers; over sound
  handlers no command line makes \<open>iw\<close> undefined; the wait ends with the first datagram of the kernel that decides; \<open>iw connect\<close> sends the one
  request that was asked for, through two commands one inside the other; mesh parameters, coalescing rules and wake-up
  triggers that were set are shown as they were set.  Shown for the rest: round trips, what each parser accepts, the bounds
  of the arrays and buffers, and the inputs on which the source leaves them.

  \<^bold>\<open>sigma_dut.\<close>  \<open>Sigma_Core\<close> is the core of \<open>sigma_dut.c\<close>: the table of commands (the locale
  \<open>registry\<close>), responses, parsing and dispatch, the framing of the bytes of a connection and the loop over
  the four connections, whose reachable states are an inductive relation.  \<open>Sigma_Agent\<close> has the state
  and the system calls the handlers share and turns a handler into an entry of the table.
  \<open>Sigma_Wlantest\<close> is \<open>wlantest.c\<close> (the messages to the sniffer in their buffer of 100 bytes and the thirteen
  commands), \<open>Sigma_Wpa\<close> is \<open>utils.c\<close> and \<open>wpa_helpers.c\<close> (the exchange with \<open>wpa_supplicant\<close>),
  \<open>Sigma_Handlers\<close> is \<open>server.c\<close>, \<open>basic.c\<close>, \<open>dev.c\<close>, \<open>powerswitch.c\<close>, \<open>atheros.c\<close> and
  \<open>cmds_reg.c\<close>.  The \<open>CONFIG_\<close> symbols of the build are the record \<open>config\<close>.  Shown: the loop never overruns a buffer;
  however the bytes arrive, the lines sent are the commands run, but for empty commands, which a cut between the two bytes of
  an end of line adds; which lines are commands, and which handler a command has; the
  requests to the sniffer fit their buffer and are read back as they were meant; and below, a command on its way from
  the connection to the sniffer and back.

  \<^bold>\<open>serial_client.\<close>  \<open>Serial_Client\<close> is \<open>serial_client.c\<close>: the arguments with their escapes, the device, the
  interactive loop, and the exchange of a command as the step relation of its two threads over the mutex, the
  condition variable and the device; a wakeup for no reason is a relation of its own (\<open>spurious\<close>), apart from the steps that
  can be counted on (\<open>sure_step\<close>).  Shown: the bytes of a command arrive as they were meant; the signal of
  the reader is not lost once \<open>main\<close> holds the mutex, and is lost when a stale answer comes before; \<open>main\<close> comes to its end
  without a wakeup for no reason.

  \<^bold>\<open>Bounds and fuel.\<close>  The loops are structural recursions or functions with a measure: the length of the
  rest of the line, reply or message, which every turn makes shorter.  One loop has fuel: the block-read loop of \<open>i2cdump\<close> has 256 turns, each of
  which moves the position in its buffer of 256 entries by at least one, and \<open>i2cdump_defined\<close> shows
  that it never runs out.  A command of \<open>iw\<close> that runs another one does so one level deep, which is the
  depth \<open>iw_main\<close> gives to \<open>handle_cmd\<close>.

  \<^bold>\<open>Parameters.\<close>  The kernel and the file system (\<open>K\<close>, \<open>env\<close>), \<open>libnl\<close> (the record \<open>netlink\<close>), \<open>strtod\<close> and
  the rounding to \<open>float\<close>, the text of a power in dBm (\<open>dbm\<close>, from a division of floating-point numbers), the clock of the printer of events, the room left in a netlink message and the error code for
  it (\<open>nomem\<close>), the success of an allocation (\<open>calloc\<close>), whether an entry behind an array may be cleared (\<open>spare\<close>), the
  static variables of \<open>iw\<close> (\<open>var\<close>: how they are read and written in the outside; \<open>Iw_Program\<close> gives them), the system calls of \<open>serial_client\<close> (\<open>os\<close>), the control
  interface of \<open>wpa_supplicant\<close> (\<open>e_ctrl\<close>), the handlers of \<open>sta.c\<close> and \<open>ap.c\<close> that \<open>dev.c\<close> and
  \<open>cmds_reg.c\<close> refer to, and what the machine does behind undefined behaviour of a handler (\<open>crash\<close>).

  \<^bold>\<open>Not modelled.\<close>  The debug output of the agent; the wait for events of \<open>wpa_supplicant\<close> (timers and sockets);
  the station, access point, P2P and NAN handlers (scripts of shell commands); the traffic generators (threads,
  sockets, timing); \<open>wireless_tools.29\<close>;
  \<open>wpa_ctrl.c\<close> and \<open>nl80211.h\<close>, which are copies of other projects' files.
\<close>

subsection \<open>A command through the agent\<close>

lemma hexchar_no_comma: "hexchar d \<noteq> CHR '',''" if "d < 16"
  using isxdigit_hexchar [OF that] by (auto simp: isxdigit_def isdigit_def)

lemma mac_text_no_comma: "CHR '','' \<notin> set (mac_text b)"
proof (induction b rule: mac_text.induct)
  case (2 b)
  have "unat b div 16 < 16" using unat_u8_less [of b] by (simp add: div_less_iff_less_mult)
  then show ?case using hexchar_no_comma [of "unat b div 16"] hexchar_no_comma [of "unat b mod 16"]
    by (auto simp: hex_pair_def)
next
  case (3 b c bs)
  have "unat b div 16 < 16" using unat_u8_less [of b] by (simp add: div_less_iff_less_mult)
  then show ?case using 3 hexchar_no_comma [of "unat b div 16"] hexchar_no_comma [of "unat b mod 16"]
    by (auto simp: hex_pair_def)
qed simp

lemma sta_counters_plain:
  "list_all (\<lambda>(n, i). n \<noteq> [] \<and> last n \<noteq> CHR '' '' \<and> CHR '','' \<notin> set n) sta_counters"
  by code_simp

lemma wlantest_sta_counter_handler:
  "handler_for ''wlantest_get_sta_counter'' (wlantest_register_cmds crash E sta ap dut) =
     Some (None, as_process crash (cmd_wlantest_get_sta_counter E))"
  by (simp add: wlantest_register_cmds_def register_lookup wlantest_cmds_def strcasecmp_eq_def tolower_def isupper_def)

text \<open>
  C6.  A command from the connection to the sniffer and back: with the handlers of \<open>wlantest.c\<close>
  registered, a line \<open>wlantest_get_sta_counter\<close> with two addresses and the name of a counter is parsed and
  dispatched, its request is built and decoded by the sniffer, and the line is answered with \<open>RUNNING\<close>
  and then \<open>COMPLETE\<close> with the value the sniffer has for that counter of these addresses.
\<close>

theorem counter_command:
  assumes "answers E (counter_sniffer cnt)"
    and "length b = 6" "length st = 6" "(name, i) \<in> set sta_counters" "cnt b st i < 2 ^ 32"
  shows "d_sent (process_cmd s
      (capi_line ''wlantest_get_sta_counter''
         [(''bssid'', mac_text b), (''stationID'', mac_text st), (''field'', name)])
      (wlantest_register_cmds crash E sta ap dut)) =
    d_sent (wlantest_register_cmds crash E sta ap dut) @
      [(s, resp_text SIGMA_RUNNING None),
       (s, resp_text SIGMA_COMPLETE (Some (''counter,'' @ fmt_d (int (cnt b st i)))))]"
proof -
  let ?dut = "wlantest_register_cmds crash E sta ap dut" and ?cmd = "''wlantest_get_sta_counter''"
  let ?c = "[(''bssid'', mac_text b), (''stationID'', mac_text st), (''field'', name)]"
  have name: "name \<noteq> []" "last name \<noteq> CHR '' ''" "CHR '','' \<notin> set name"
    using sta_counters_plain assms(4) by (auto simp: list_all_iff)
  have p: "get_param ?c ''bssid'' = Some (mac_text b)" "get_param ?c ''stationID'' = Some (mac_text st)"
    "get_param ?c ''field'' = Some name"
    by (simp_all add: get_param_def strcasecmp_eq_def tolower_def isupper_def)
  have "no_commas ?c" using name by (simp add: no_commas_def mac_text_no_comma)
  then have parsed: "parse_cmd (capi_line ?cmd ?c) = (?cmd, Some ?c)"
    by (intro parse_cmd_line) (simp_all add: lone_first_def strcasecmp_eq_def MAX_PARAMS_def)
  have "trim (capi_line ?cmd ?c) = capi_line ?cmd ?c"
    using trim_line [of ?cmd name "[(''bssid'', mac_text b), (''stationID'', mac_text st)]" "''field''"] name
    by (simp add: is_blank_def)
  with parsed have parsed: "parse_cmd (trim (capi_line ?cmd ?c)) = (?cmd, Some ?c)" by simp
  have "wp (cmd_wlantest_get_sta_counter E ?c) (\<lambda>r t. r = 0 \<and> a_resps (world t) =
       a_resps (world (start_proc (d_rest ?dut))) @ [(SIGMA_COMPLETE, ''counter,'' @ fmt_d (int (cnt b st i)))])
      (\<lambda>_ _. False) (start_proc (d_rest ?dut))"
    by (rule get_sta_counter_wp [OF assms p])
  then have run: "as_process crash (cmd_wlantest_get_sta_counter E) ?c (d_waiting ?dut) (d_rest ?dut) =
      (0, [resp_text SIGMA_COMPLETE (Some (''counter,'' @ fmt_d (int (cnt b st i))))], d_waiting ?dut,
       world (snd (cmd_wlantest_get_sta_counter E ?c (start_proc (d_rest ?dut)))))"
    by (auto simp: wp_def as_process_def start_proc_def split: prod.splits sum.splits)
  show ?thesis
    using process_cmd_runs [OF parsed wlantest_sta_counter_handler run] by (simp add: final_text_def)
qed

theorem counter_command_witness:
  "d_sent (process_cmd 5
      ''wlantest_get_sta_counter,bssid,00:11:22:33:44:55,stationID,00:11:22:33:44:aa,field,ping_ok''
      (wlantest_register_cmds (\<lambda>c w x. (0, [], w, x)) (sniffer_env (counter_sniffer (\<lambda>b s i. 1000 + i)))
        (\<lambda>_. ret 1) (\<lambda>_. ret 1)
        \<lparr>d_cmds = [], d_sent = [], d_notes = [], d_waiting = False,
         d_rest = new_agent []\<rparr>)) =
    [(5, ''status,RUNNING'' @ crlf), (5, ''status,COMPLETE,counter,1021'' @ crlf)]"
proof -
  let ?b = "[0, 0x11, 0x22, 0x33, 0x44, 0x55]" and ?st = "[0, 0x11, 0x22, 0x33, 0x44, 0xaa]"
  have i: "(''ping_ok'', 21) \<in> set sta_counters" by (simp add: sta_counters_def)
  have line: "capi_line ''wlantest_get_sta_counter''
      [(''bssid'', mac_text ?b), (''stationID'', mac_text ?st), (''field'', ''ping_ok'')] =
    ''wlantest_get_sta_counter,bssid,00:11:22:33:44:55,stationID,00:11:22:33:44:aa,field,ping_ok''" by code_simp
  have d: "fmt_d 1021 = ''1021''" by code_simp
  show ?thesis
    using counter_command [OF sniffer_answers, where b = ?b and st = ?st and name = "''ping_ok''" and i = 21
      and cnt = "\<lambda>b s i. 1000 + i" and s = 5 and crash = "\<lambda>c w x. (0, [], w, x)" and sta = "\<lambda>_. ret 1"
      and ap = "\<lambda>_. ret 1" and dut = "\<lparr>d_cmds = [], d_sent = [], d_notes = [], d_waiting = False,
         d_rest = new_agent []\<rparr>"] i
    unfolding line
    by (simp add: d resp_text_def status_text_def wlantest_register_cmds_def register_def wlantest_cmds_def
        sigma_dut_reg_cmd_def)
qed

end
